(* ===== verification/Ja_Prelude.thy ===== *)
theory Ja_Prelude
  imports Main "HOL-Library.Sublist" "HOL-Library.Char_ord" "HOL-Library.List_Lexorder"
begin

text \<open>
  Shared vocabulary of the development: the model's types for Rust strings, byte buffers and
  64-bit counters, the std-library string predicates the code calls, results with early
  return, and the interfaces (locales) of operations that share a contract.

  A Rust \<open>str\<close> or \<open>[u8]\<close> is a HOL \<open>string\<close>: a list of \<open>char\<close>, and a HOL
  \<open>char\<close> is one byte, so \<open>length\<close> is Rust's \<open>len()\<close> (UTF-8 bytes). Lengths, queue
  depths and byte budgets are \<open>nat\<close>; where the source writes \<open>saturating_add\<close> or
  \<open>checked_add\<close> the model writes it too, for a 64-bit \<open>usize\<close>.
\<close>

named_theorems result_iff \<open>when a fallible computation succeeds\<close>
named_theorems byte_defs \<open>definitions of the ASCII byte classes\<close>

type_synonym str = string
type_synonym bytes = string
type_synonym millis = nat
type_synonym nanos = nat

subsection \<open>Results with early return\<close>

text \<open>
  \<open>Result<T, E>\<close> is the sum \<open>'e + 'a\<close>, with \<open>Inl\<close> for \<open>Err\<close>. \<open>and_then r f\<close>
  is the continuation after Rust's \<open>?\<close>, \<open>require\<close> a guard with an early return,
  \<open>for_each\<close> a \<open>for\<close> loop whose body may return an error, and \<open>collect\<close> is
  \<open>iter.map(f).collect::<Result<Vec<_>, _>>()\<close>.
\<close>

definition and_then :: "'e + 'a \<Rightarrow> ('a \<Rightarrow> 'e + 'b) \<Rightarrow> 'e + 'b" where
  "and_then r f = (case r of Inl e \<Rightarrow> Inl e | Inr x \<Rightarrow> f x)"

definition require :: "bool \<Rightarrow> 'e \<Rightarrow> 'e + unit" where
  "require b e = (if b then Inr () else Inl e)"

definition ok_or :: "'a option \<Rightarrow> 'e \<Rightarrow> 'e + 'a" where
  "ok_or x e = (case x of None \<Rightarrow> Inl e | Some v \<Rightarrow> Inr v)"

definition map_err :: "('e \<Rightarrow> 'f) \<Rightarrow> 'e + 'a \<Rightarrow> 'f + 'a" where
  "map_err h r = (case r of Inl e \<Rightarrow> Inl (h e) | Inr x \<Rightarrow> Inr x)"

fun for_each :: "('a \<Rightarrow> 'e + unit) \<Rightarrow> 'a list \<Rightarrow> 'e + unit" where
  "for_each f [] = Inr ()"
| "for_each f (x # xs) = (case f x of Inl e \<Rightarrow> Inl e | Inr _ \<Rightarrow> for_each f xs)"

fun collect :: "('a \<Rightarrow> 'e + 'b) \<Rightarrow> 'a list \<Rightarrow> 'e + 'b list" where
  "collect f [] = Inr []"
| "collect f (x # xs) = (case f x of Inl e \<Rightarrow> Inl e
     | Inr y \<Rightarrow> (case collect f xs of Inl e \<Rightarrow> Inl e | Inr ys \<Rightarrow> Inr (y # ys)))"

definition is_ok :: "'e + 'a \<Rightarrow> bool" where
  "is_ok r = (case r of Inl _ \<Rightarrow> False | Inr _ \<Rightarrow> True)"

lemma and_then_simps [simp]: "and_then (Inl e) f = Inl e" "and_then (Inr x) f = f x"
  by (simp_all add: and_then_def)

lemma require_simps [simp]: "require True e = Inr ()" "require False e = Inl e"
  by (simp_all add: require_def)

lemma ok_or_simps [simp]: "ok_or None e = Inl e" "ok_or (Some v) e = Inr v"
  by (simp_all add: ok_or_def)

lemma map_err_simps [simp]: "map_err h (Inl e) = Inl (h e)" "map_err h (Inr x) = Inr x"
  by (simp_all add: map_err_def)

lemma is_ok_simps [simp]: "is_ok (Inl e) = False" "is_ok (Inr x) = True"
  by (simp_all add: is_ok_def)

lemma is_ok_iff: "is_ok r \<longleftrightarrow> (\<exists>x. r = Inr x)"
  by (cases r) auto

lemma and_then_Inr [result_iff]: "and_then r f = Inr y \<longleftrightarrow> (\<exists>x. r = Inr x \<and> f x = Inr y)"
  by (cases r) auto

lemma require_Inr [result_iff]: "require b e = Inr u \<longleftrightarrow> b"
  by (cases b) auto

lemma ok_or_Inr [result_iff]: "ok_or x e = Inr v \<longleftrightarrow> x = Some v"
  by (cases x) auto

lemma map_err_Inr [result_iff]: "map_err h r = Inr v \<longleftrightarrow> r = Inr v"
  by (cases r) auto

lemma for_each_Inr [result_iff]: "for_each f xs = Inr u \<longleftrightarrow> (\<forall>x \<in> set xs. f x = Inr ())"
  by (induction xs) (auto split: sum.splits)

lemma for_each_append: "for_each f (xs @ ys) = and_then (for_each f xs) (\<lambda>_. for_each f ys)"
  by (induction xs) (auto split: sum.splits)

lemma collect_length: "collect f xs = Inr ys \<Longrightarrow> length ys = length xs"
  by (induction xs arbitrary: ys) (auto split: sum.splits)

lemma collect_Inr [result_iff]:
  "collect f xs = Inr ys \<longleftrightarrow> list_all2 (\<lambda>x y. f x = Inr y) xs ys"
proof (induction xs arbitrary: ys)
  case Nil
  then show ?case by auto
next
  case (Cons x xs)
  then show ?case
    by (auto simp: list_all2_Cons1 Cons.IH [symmetric] split: sum.splits)
qed

lemma collect_mem: "collect f xs = Inr ys \<Longrightarrow> y \<in> set ys \<Longrightarrow> \<exists>x \<in> set xs. f x = Inr y"
  by (induction xs arbitrary: ys) (auto split: sum.splits)

lemma collect_pure: "(\<And>x. x \<in> set xs \<Longrightarrow> f x = Inr (g x)) \<Longrightarrow> collect f xs = Inr (map g xs)"
  by (induction xs) auto

lemma find_member: "List.find P xs = Some x \<Longrightarrow> x \<in> set xs \<and> P x"
  by (induction xs) (auto split: if_splits)

lemma find_exists: "x \<in> set xs \<Longrightarrow> P x \<Longrightarrow> \<exists>y. List.find P xs = Some y"
  by (induction xs) auto

text \<open>
  Error-guard chains: \<open>if c then Inl e else r\<close> is \<open>if c { return Err(e) }\<close>.
\<close>

lemma guard_Inr [result_iff]: "(if c then Inl e else r) = Inr v \<longleftrightarrow> \<not> c \<and> r = Inr v"
  by simp

lemma guard_Inr' [result_iff]: "(if c then r else Inl e) = Inr v \<longleftrightarrow> c \<and> r = Inr v"
  by simp

subsection \<open>Machine counters\<close>

definition u64_max :: nat where "u64_max = 2 ^ 64 - 1"
definition usize_max :: nat where "usize_max = 2 ^ 64 - 1"
definition i64_max :: int where "i64_max = 2 ^ 63 - 1"

definition sat_add :: "nat \<Rightarrow> nat \<Rightarrow> nat" where
  "sat_add a b = min usize_max (a + b)"

definition checked_add64 :: "nat \<Rightarrow> nat \<Rightarrow> nat option" where
  "checked_add64 a b = (if a + b \<le> u64_max then Some (a + b) else None)"

lemma sat_add_le: "sat_add a b \<le> a + b"
  by (simp add: sat_add_def)

lemma sat_add_eq: "a + b \<le> usize_max \<Longrightarrow> sat_add a b = a + b"
  by (simp add: sat_add_def)

lemma sat_add_le_iff: "c < usize_max \<Longrightarrow> sat_add a b \<le> c \<longleftrightarrow> a + b \<le> c"
  by (auto simp: sat_add_def)

lemma sat_add_less_iff: "c < usize_max \<Longrightarrow> c < sat_add a b \<longleftrightarrow> c < a + b"
  by (auto simp: sat_add_def)

lemma checked_add64_Some: "checked_add64 a b = Some c \<longleftrightarrow> c = a + b \<and> a + b \<le> u64_max"
  by (auto simp: checked_add64_def)

subsection \<open>ASCII byte classes of the standard library\<close>

abbreviation byte :: "char \<Rightarrow> nat" where
  "byte c \<equiv> of_char c"

definition is_ascii_digit :: "char \<Rightarrow> bool" where
  [byte_defs]: "is_ascii_digit c \<longleftrightarrow> 48 \<le> byte c \<and> byte c \<le> 57"

definition is_ascii_uppercase :: "char \<Rightarrow> bool" where
  [byte_defs]: "is_ascii_uppercase c \<longleftrightarrow> 65 \<le> byte c \<and> byte c \<le> 90"

definition is_ascii_lowercase :: "char \<Rightarrow> bool" where
  [byte_defs]: "is_ascii_lowercase c \<longleftrightarrow> 97 \<le> byte c \<and> byte c \<le> 122"

definition is_ascii_alphabetic :: "char \<Rightarrow> bool" where
  [byte_defs]: "is_ascii_alphabetic c \<longleftrightarrow> is_ascii_uppercase c \<or> is_ascii_lowercase c"

definition is_ascii_alphanumeric :: "char \<Rightarrow> bool" where
  [byte_defs]: "is_ascii_alphanumeric c \<longleftrightarrow> is_ascii_alphabetic c \<or> is_ascii_digit c"

definition is_lower_hex_digit :: "char \<Rightarrow> bool" where
  [byte_defs]: "is_lower_hex_digit c \<longleftrightarrow> is_ascii_digit c \<or> 97 \<le> byte c \<and> byte c \<le> 102"

definition is_ascii_hexdigit :: "char \<Rightarrow> bool" where
  [byte_defs]: "is_ascii_hexdigit c \<longleftrightarrow>
     is_lower_hex_digit c \<or> 65 \<le> byte c \<and> byte c \<le> 70"

definition is_ascii_whitespace :: "char \<Rightarrow> bool" where
  [byte_defs]: "is_ascii_whitespace c \<longleftrightarrow> byte c \<in> {9, 10, 12, 13, 32}"

definition to_ascii_lower :: "char \<Rightarrow> char" where
  [byte_defs]: "to_ascii_lower c = (if is_ascii_uppercase c then char_of (byte c + 32) else c)"

definition to_ascii_upper :: "char \<Rightarrow> char" where
  [byte_defs]: "to_ascii_upper c = (if is_ascii_lowercase c then char_of (byte c - 32) else c)"

definition to_ascii_lowercase :: "str \<Rightarrow> str" where
  "to_ascii_lowercase s = map to_ascii_lower s"

definition to_ascii_uppercase :: "str \<Rightarrow> str" where
  "to_ascii_uppercase s = map to_ascii_upper s"

definition eq_ignore_ascii_case :: "str \<Rightarrow> str \<Rightarrow> bool" where
  "eq_ignore_ascii_case a b \<longleftrightarrow> to_ascii_lowercase a = to_ascii_lowercase b"

text \<open>\<open>s.starts_with(p)\<close>, \<open>s.ends_with(p)\<close> and \<open>s.contains(p)\<close>.\<close>

definition starts_with :: "str \<Rightarrow> str \<Rightarrow> bool" where
  "starts_with s p \<longleftrightarrow> take (length p) s = p"

definition ends_with :: "str \<Rightarrow> str \<Rightarrow> bool" where
  "ends_with s p \<longleftrightarrow> length p \<le> length s \<and> drop (length s - length p) s = p"

fun contains_str :: "str \<Rightarrow> str \<Rightarrow> bool" where
  "contains_str [] p \<longleftrightarrow> p = []"
| "contains_str (c # cs) p \<longleftrightarrow> starts_with (c # cs) p \<or> contains_str cs p"

definition strip_prefix :: "str \<Rightarrow> str \<Rightarrow> str option" where
  "strip_prefix s p = (if starts_with s p then Some (drop (length p) s) else None)"

definition strip_suffix :: "str \<Rightarrow> str \<Rightarrow> str option" where
  "strip_suffix s p = (if ends_with s p then Some (take (length s - length p) s) else None)"

lemma starts_with_iff_prefix: "starts_with s p \<longleftrightarrow> prefix p s"
proof
  assume "starts_with s p"
  then have "p @ drop (length p) s = s"
    by (metis append_take_drop_id starts_with_def)
  then show "prefix p s" by (metis prefixI)
qed (auto simp: starts_with_def prefix_def)

lemma starts_with_append [simp]: "starts_with (p @ s) p"
  by (simp add: starts_with_def)

lemma contains_str_iff_sublist: "contains_str s p \<longleftrightarrow> sublist p s"
  by (induction s) (auto simp: starts_with_iff_prefix sublist_Cons_right)

lemma strip_prefix_Some: "strip_prefix s p = Some r \<longleftrightarrow> s = p @ r"
  by (auto simp: strip_prefix_def starts_with_iff_prefix prefix_def)

lemma ends_with_iff_suffix: "ends_with s p \<longleftrightarrow> suffix p s"
proof
  assume "ends_with s p"
  then have "take (length s - length p) s @ p = s"
    by (metis append_take_drop_id ends_with_def)
  then show "suffix p s" by (metis suffixI)
qed (auto simp: ends_with_def suffix_def)

lemma strip_suffix_Some: "strip_suffix s p = Some r \<longleftrightarrow> s = r @ p"
  by (auto simp: strip_suffix_def ends_with_iff_suffix suffix_def)

lemma length_to_ascii_lowercase [simp]: "length (to_ascii_lowercase s) = length s"
  by (simp add: to_ascii_lowercase_def)

lemma lower_hex_is_hex: "is_lower_hex_digit c \<Longrightarrow> is_ascii_hexdigit c"
  by (simp add: byte_defs)

lemma hex_is_alphanumeric: "is_ascii_hexdigit c \<Longrightarrow> is_ascii_alphanumeric c"
  by (auto simp: byte_defs)

text \<open>
  \<open>char::is_control\<close> is the Unicode category Cc: U+0000 to U+001F, U+007F, and U+0080 to
  U+009F, which UTF-8 writes as the byte C2 followed by 80 to 9F.
\<close>

fun has_control :: "str \<Rightarrow> bool" where
  "has_control [] = False"
| "has_control (c # cs) \<longleftrightarrow>
     byte c < 32 \<or> byte c = 127
     \<or> (byte c = 194 \<and> (case cs of [] \<Rightarrow> False | d # _ \<Rightarrow> 128 \<le> byte d \<and> byte d \<le> 159))
     \<or> has_control cs"

lemma has_control_newline: "\<not> has_control s \<Longrightarrow> CHR 0x0A \<notin> set s"
  by (induction s) auto

text \<open>UTF-8 continuation bytes, and \<open>str::from_utf8\<close> as a validity check (RFC 3629).\<close>

definition is_cont :: "char \<Rightarrow> bool" where
  [byte_defs]: "is_cont c \<longleftrightarrow> 128 \<le> byte c \<and> byte c \<le> 191"

fun utf8_valid :: "bytes \<Rightarrow> bool" where
  "utf8_valid [] = True"
| "utf8_valid (a # s) =
     (if byte a < 128 then utf8_valid s
      else if 194 \<le> byte a \<and> byte a \<le> 223 then
        (case s of b # r \<Rightarrow> is_cont b \<and> utf8_valid r | _ \<Rightarrow> False)
      else if 224 \<le> byte a \<and> byte a \<le> 239 then
        (case s of b # c # r \<Rightarrow>
           is_cont b \<and> is_cont c
           \<and> (byte a = 224 \<longrightarrow> 160 \<le> byte b) \<and> (byte a = 237 \<longrightarrow> byte b \<le> 159)
           \<and> utf8_valid r
         | _ \<Rightarrow> False)
      else if 240 \<le> byte a \<and> byte a \<le> 244 then
        (case s of b # c # d # r \<Rightarrow>
           is_cont b \<and> is_cont c \<and> is_cont d
           \<and> (byte a = 240 \<longrightarrow> 144 \<le> byte b) \<and> (byte a = 244 \<longrightarrow> byte b \<le> 143)
           \<and> utf8_valid r
         | _ \<Rightarrow> False)
      else False)"

definition is_ascii :: "bytes \<Rightarrow> bool" where
  "is_ascii s \<longleftrightarrow> (\<forall>c \<in> set s. byte c < 128)"

lemma ascii_utf8_valid: "is_ascii s \<Longrightarrow> utf8_valid s"
  by (induction s) (auto simp: is_ascii_def)

text \<open>\<open>str::is_char_boundary\<close>: no continuation byte starts at the index.\<close>

definition is_char_boundary :: "str \<Rightarrow> nat \<Rightarrow> bool" where
  "is_char_boundary s i \<longleftrightarrow> i = 0 \<or> i = length s \<or> (i < length s \<and> \<not> is_cont (s ! i))"

subsection \<open>Decimal numbers in text\<close>

text \<open>\<open>format!("{n}")\<close> of an unsigned number.\<close>

definition digit_char :: "nat \<Rightarrow> char" where
  "digit_char d = char_of (48 + d)"

fun show_nat :: "nat \<Rightarrow> str" where
  "show_nat n = (if n < 10 then [digit_char n] else show_nat (n div 10) @ [digit_char (n mod 10)])"

declare show_nat.simps [simp del]

text \<open>\<open>fold(0, |value, digit| value * 10 + (digit - b'0'))\<close> over ASCII digits.\<close>

definition decimal_value :: "str \<Rightarrow> nat" where
  "decimal_value ds = foldl (\<lambda>v c. v * 10 + (byte c - 48)) 0 ds"

lemma byte_digit_char: "d < 10 \<Longrightarrow> byte (digit_char d) = 48 + d"
  by (simp add: digit_char_def)

lemma digit_char_digit [simp]: "d < 10 \<Longrightarrow> is_ascii_digit (digit_char d)"
  by (simp add: is_ascii_digit_def byte_digit_char)

lemma decimal_value_append [simp]:
  "decimal_value (ds @ [c]) = decimal_value ds * 10 + (byte c - 48)"
  by (simp add: decimal_value_def)

lemma show_nat_digits: "\<forall>c \<in> set (show_nat n). is_ascii_digit c"
proof (induction n rule: show_nat.induct)
  case (1 n)
  then show ?case by (subst show_nat.simps) auto
qed

lemma show_nat_nonempty [simp]: "show_nat n \<noteq> []"
  by (subst show_nat.simps) simp

lemma decimal_value_show_nat [simp]: "decimal_value (show_nat n) = n"
proof (induction n rule: show_nat.induct)
  case (1 n)
  show ?case
  proof (cases "n < 10")
    case True
    then show ?thesis
      by (subst show_nat.simps) (simp add: decimal_value_def byte_digit_char)
  next
    case False
    with 1 show ?thesis
      by (subst show_nat.simps) (simp add: byte_digit_char)
  qed
qed

lemma show_nat_inject [simp]: "show_nat m = show_nat n \<longleftrightarrow> m = n"
  by (metis decimal_value_show_nat)

lemma length_show_nat: "n < 10 ^ k \<Longrightarrow> 0 < k \<Longrightarrow> length (show_nat n) \<le> k"
proof (induction n arbitrary: k rule: show_nat.induct)
  case (1 n)
  show ?case
  proof (cases "n < 10")
    case True
    with 1 show ?thesis by (subst show_nat.simps) simp
  next
    case False
    from "1.prems" obtain j where k: "k = Suc j"
      by (cases k) auto
    moreover have "0 < j"
      using "1.prems"(1) False k by (cases j) auto
    moreover have "n div 10 < 10 ^ j"
      using "1.prems"(1) k by (simp add: less_mult_imp_div_less mult.commute)
    ultimately show ?thesis
      using False "1.IH" [of j] by (subst show_nat.simps) simp
  qed
qed

subsection \<open>Interfaces: components that step\<close>

text \<open>
  The contract of a component whose state is changed only by its operations: every
  operation keeps the component's invariant. The client is a caller that runs any sequence
  of operations.
\<close>

locale stepping =
  fixes step :: "'s \<Rightarrow> 'op \<Rightarrow> 's"
    and inv :: "'s \<Rightarrow> bool"
  assumes step_inv: "inv s \<Longrightarrow> inv (step s x)"
begin

lemma run_inv: "inv s \<Longrightarrow> inv (foldl step s xs)"
  by (induction xs arbitrary: s) (auto intro: step_inv)

lemma run_inv_prefix: "inv s \<Longrightarrow> prefix ys xs \<Longrightarrow> inv (foldl step s ys)"
  by (rule run_inv)

lemma run_induct_inv:
  assumes "inv s" and "P s" and "\<And>t x. inv t \<Longrightarrow> P t \<Longrightarrow> P (step t x)"
  shows "P (foldl step s xs)"
  using assms(1,2)
proof (induction xs arbitrary: s)
  case Nil
  then show ?case by simp
next
  case (Cons x xs)
  then have "inv (step s x)" and "P (step s x)"
    using assms(3) step_inv by blast+
  then show ?case using Cons.IH by simp
qed

end

text \<open>
  A stepping component with a part of its state that never goes back: a counter, a set of
  seen identities, a closed flag. \<open>le\<close> is the order it grows in.
\<close>

locale growing = stepping +
  fixes part :: "'s \<Rightarrow> 'm"
    and le :: "'m \<Rightarrow> 'm \<Rightarrow> bool"
  assumes le_refl: "le m m"
    and le_trans: "le m n \<Longrightarrow> le n k \<Longrightarrow> le m k"
    and step_le: "inv s \<Longrightarrow> le (part s) (part (step s x))"
begin

lemma run_le: "inv s \<Longrightarrow> le (part s) (part (foldl step s xs))"
proof (induction xs arbitrary: s)
  case Nil
  show ?case by (simp add: le_refl)
next
  case (Cons x xs)
  then have "le (part (step s x)) (part (foldl step (step s x) xs))"
    by (simp add: step_inv)
  with step_le [OF Cons.prems, of x] show ?case
    by (auto intro: le_trans)
qed

lemma run_le_append: "inv s \<Longrightarrow> le (part (foldl step s xs)) (part (foldl step s (xs @ ys)))"
  using run_le [OF run_inv] by simp

end

text \<open>
  A ledger of identities: \<open>admit\<close> either refuses an identity or records it, a recorded
  identity stays recorded, and a recorded identity is refused. So no identity is admitted
  twice.
\<close>

locale ledger =
  fixes admit :: "'s \<Rightarrow> 'i \<Rightarrow> 'e + 's"
    and seen :: "'s \<Rightarrow> 'i set"
  assumes admit_fresh: "admit s i = Inr s' \<Longrightarrow> i \<notin> seen s"
    and admit_seen: "admit s i = Inr s' \<Longrightarrow> seen s' = insert i (seen s)"
begin

lemma seen_refused: "i \<in> seen s \<Longrightarrow> \<exists>e. admit s i = Inl e"
  using admit_fresh by (cases "admit s i") auto

lemma admit_twice: "admit s i = Inr s' \<Longrightarrow> seen s' \<subseteq> seen t \<Longrightarrow> \<exists>e. admit t i = Inl e"
  using admit_seen seen_refused by fastforce

end

end
