(* ===== verification/Ja_Json.thy ===== *)
theory Ja_Json
  imports Ja_Prelude
begin

text \<open>
  JSON values as the sidecar protocol uses them, the strict decoder of
  \<open>agent_process/codec_json.rs\<close> and the token-shape audit of \<open>agent_process/codec.rs\<close>.

  \<open>json\<close> is \<open>serde_json::Value\<close> with its documented variants and accessors. An object is
  \<open>serde_json::Map\<close> in its default form, a map ordered by key: an association list in key
  order, with \<open>obj_insert\<close> for \<open>Map::insert\<close>. The text parser and printer of serde_json are
  not part of the repository and are parameters wherever they are used; what the parser hands
  to the repository's visitor is a \<open>raw\<close> tree, which may repeat keys and may break off with
  an error anywhere.
\<close>

subsection \<open>Values and accessors\<close>

datatype jnum = PosInt nat | NegInt int | Float64 nat \<comment> \<open>the IEEE-754 bits\<close>

datatype json =
    JNull
  | JBool bool
  | JNum jnum
  | JStr str
  | JArr "json list"
  | JObj "(str \<times> json) list"

type_synonym obj = "(str \<times> json) list"

fun as_str :: "json \<Rightarrow> str option" where
  "as_str (JStr s) = Some s"
| "as_str _ = None"

fun as_bool :: "json \<Rightarrow> bool option" where
  "as_bool (JBool b) = Some b"
| "as_bool _ = None"

fun as_i64 :: "json \<Rightarrow> int option" where
  "as_i64 (JNum (PosInt n)) = (if int n \<le> i64_max then Some (int n) else None)"
| "as_i64 (JNum (NegInt i)) = Some i"
| "as_i64 _ = None"

fun as_u64 :: "json \<Rightarrow> nat option" where
  "as_u64 (JNum (PosInt n)) = Some n"
| "as_u64 _ = None"

fun as_array :: "json \<Rightarrow> json list option" where
  "as_array (JArr vs) = Some vs"
| "as_array _ = None"

fun as_object :: "json \<Rightarrow> obj option" where
  "as_object (JObj o') = Some o'"
| "as_object _ = None"

definition is_object :: "json \<Rightarrow> bool" where
  "is_object v \<longleftrightarrow> as_object v \<noteq> None"

definition obj_get :: "obj \<Rightarrow> str \<Rightarrow> json option" where
  "obj_get o' k = map_of o' k"

definition json_get :: "json \<Rightarrow> str \<Rightarrow> json option" where
  "json_get v k = Option.bind (as_object v) (\<lambda>o'. obj_get o' k)"

definition get_str :: "obj \<Rightarrow> str \<Rightarrow> str option" where
  "get_str o' k = Option.bind (obj_get o' k) as_str"

definition get_bool :: "obj \<Rightarrow> str \<Rightarrow> bool option" where
  "get_bool o' k = Option.bind (obj_get o' k) as_bool"

definition get_i64 :: "obj \<Rightarrow> str \<Rightarrow> int option" where
  "get_i64 o' k = Option.bind (obj_get o' k) as_i64"

definition get_u64 :: "obj \<Rightarrow> str \<Rightarrow> nat option" where
  "get_u64 o' k = Option.bind (obj_get o' k) as_u64"

fun obj_insert :: "str \<Rightarrow> json \<Rightarrow> obj \<Rightarrow> obj" where
  "obj_insert k v [] = [(k, v)]"
| "obj_insert k v ((k', v') # o') =
     (if k = k' then (k, v) # o'
      else if k < k' then (k, v) # (k', v') # o'
      else (k', v') # obj_insert k v o')"

definition obj_of :: "(str \<times> json) list \<Rightarrow> obj" where
  "obj_of kvs = foldl (\<lambda>o' (k, v). obj_insert k v o') [] kvs"

lemma json_get_JObj [simp]: "json_get (JObj o') k = obj_get o' k"
  by (simp add: json_get_def)

lemma is_object_JObj [simp]: "is_object (JObj o')"
  by (simp add: is_object_def)

lemma is_object_iff: "is_object v \<longleftrightarrow> (\<exists>o'. v = JObj o')"
  by (cases v) (auto simp: is_object_def)

lemma as_object_Some [simp]: "as_object v = Some o' \<longleftrightarrow> v = JObj o'"
  by (cases v) auto

lemma as_str_Some [simp]: "as_str v = Some s \<longleftrightarrow> v = JStr s"
  by (cases v) auto

lemma as_bool_Some [simp]: "as_bool v = Some b \<longleftrightarrow> v = JBool b"
  by (cases v) auto

lemma as_array_Some [simp]: "as_array v = Some vs \<longleftrightarrow> v = JArr vs"
  by (cases v) auto

lemma get_str_Some: "get_str o' k = Some s \<longleftrightarrow> obj_get o' k = Some (JStr s)"
  by (auto simp: get_str_def split: bind_splits)

lemma get_bool_Some: "get_bool o' k = Some b \<longleftrightarrow> obj_get o' k = Some (JBool b)"
  by (auto simp: get_bool_def split: bind_splits)

lemma obj_get_list [simp]:
  "obj_get [] k = None"
  "obj_get ((k', v) # o') k = (if k = k' then Some v else obj_get o' k)"
  by (simp_all add: obj_get_def)

lemma obj_get_insert: "obj_get (obj_insert k v o') k' = (if k' = k then Some v else obj_get o' k')"
  by (induction o') (auto simp: obj_get_def)

lemma keys_obj_insert: "fst ` set (obj_insert k v o') = insert k (fst ` set o')"
  by (induction k v o' rule: obj_insert.induct) (simp_all add: insert_commute)

lemma set_obj_insert: "set (obj_insert k v o') \<subseteq> insert (k, v) (set o')"
  by (induction o') (auto split: if_splits)

lemma sorted_obj_insert:
  "sorted_wrt (<) (map fst o') \<Longrightarrow> sorted_wrt (<) (map fst (obj_insert k v o'))"
proof (induction k v o' rule: obj_insert.induct)
  case (2 k v k' v' o')
  have keys: "fst ` set (obj_insert k v o') = insert k (fst ` set o')"
    by (rule keys_obj_insert)
  show ?case
    using 2 keys by (cases k k' rule: linorder_cases) (auto simp: image_iff)
qed simp

lemma obj_insert_last:
  assumes "\<forall>k' \<in> fst ` set o'. k' < k"
  shows "obj_insert k v o' = o' @ [(k, v)]"
  using assms by (induction o') (auto dest: order.asym)

subsection \<open>Strict decoding (codec_json.rs)\<close>

text \<open>
  What \<open>Deserializer::deserialize_any\<close> drives the visitor with. The flag of \<open>RSeq\<close> and
  \<open>RMap\<close> says that the access fails after the listed elements (a syntax error at the next
  element or key), \<open>RFail\<close> that the value itself cannot be read.
\<close>

datatype raw =
    RUnit
  | RBool bool
  | RI64 int
  | RU64 nat
  | RF64 nat
  | RStr str
  | RSeq "raw list" bool
  | RMap "(str \<times> raw) list" bool
  | RFail

datatype visit_error = Duplicate | DeError

text \<open>\<open>Number::from_f64\<close> refuses infinities and NaN: all exponent bits set.\<close>

definition f64_is_finite :: "nat \<Rightarrow> bool" where
  "f64_is_finite bits \<longleftrightarrow> (bits div 2 ^ 52) mod 2048 \<noteq> 2047"

fun visit :: "raw \<Rightarrow> visit_error + json"
  and visit_seq :: "raw list \<Rightarrow> bool \<Rightarrow> json list \<Rightarrow> visit_error + json"
  and visit_map :: "(str \<times> raw) list \<Rightarrow> bool \<Rightarrow> str set \<Rightarrow> obj \<Rightarrow> visit_error + json" where
  "visit RUnit = Inr JNull"
| "visit (RBool b) = Inr (JBool b)"
| "visit (RI64 i) = Inr (JNum (if 0 \<le> i then PosInt (nat i) else NegInt i))"
| "visit (RU64 n) = Inr (JNum (PosInt n))"
| "visit (RF64 x) = (if f64_is_finite x then Inr (JNum (Float64 x)) else Inl DeError)"
| "visit (RStr s) = Inr (JStr s)"
| "visit (RSeq rs broken) = visit_seq rs broken []"
| "visit (RMap es broken) = visit_map es broken {} []"
| "visit RFail = Inl DeError"
| "visit_seq [] broken acc = (if broken then Inl DeError else Inr (JArr acc))"
| "visit_seq (r # rs) broken acc =
     (case visit r of Inl e \<Rightarrow> Inl e | Inr v \<Rightarrow> visit_seq rs broken (acc @ [v]))"
| "visit_map [] broken seen acc = (if broken then Inl DeError else Inr (JObj acc))"
| "visit_map ((k, r) # es) broken seen acc =
     (if k \<in> seen then Inl Duplicate
      else (case visit r of Inl e \<Rightarrow> Inl e
        | Inr v \<Rightarrow> visit_map es broken (insert k seen) (obj_insert k v acc)))"

datatype codec_error =
    UnexpectedEof
  | PartialFrame
  | EmptyFrame
  | InvalidUtf8
  | InvalidJson
  | DuplicateKey
  | NonObject
  | InvalidEnvelope
  | HandshakeFailed
  | InvalidErrorCatalog
  | InvalidId
  | InvalidLimit
  | FrameTooLarge nat nat
  | Io

text \<open>
  \<open>de\<close> is the deserializer: the tree it drives the visitor with, and whether the text ends
  after that value (\<open>Deserializer::end\<close>).
\<close>

definition parse_strict_value :: "(str \<Rightarrow> raw \<times> bool) \<Rightarrow> str \<Rightarrow> codec_error + json" where
  "parse_strict_value de txt =
     (case de txt of (r, ends) \<Rightarrow>
       (case visit r of
          Inl Duplicate \<Rightarrow> Inl DuplicateKey
        | Inl DeError \<Rightarrow> Inl InvalidJson
        | Inr v \<Rightarrow> if ends then Inr v else Inl InvalidJson))"

text \<open>
  The declarative counterpart: a tree is \<open>complete\<close> when nothing in it fails, and has
  \<open>unique\<close> keys when no object at any depth repeats one.
\<close>

fun complete :: "raw \<Rightarrow> bool" where
  "complete (RSeq rs broken) \<longleftrightarrow> \<not> broken \<and> list_all complete rs"
| "complete (RMap es broken) \<longleftrightarrow> \<not> broken \<and> list_all (\<lambda>e. complete (snd e)) es"
| "complete RFail = False"
| "complete (RF64 x) = f64_is_finite x"
| "complete _ = True"

fun unique_keys :: "raw \<Rightarrow> bool" where
  "unique_keys (RSeq rs _) \<longleftrightarrow> list_all unique_keys rs"
| "unique_keys (RMap es _) \<longleftrightarrow> distinct (map fst es) \<and> list_all (\<lambda>e. unique_keys (snd e)) es"
| "unique_keys _ = True"

lemma visit_accepts:
  "(\<exists>v. visit r = Inr v) \<longleftrightarrow> complete r \<and> unique_keys r"
  "(\<exists>v. visit_seq rs broken acc = Inr v)
     \<longleftrightarrow> \<not> broken \<and> list_all (\<lambda>r. complete r \<and> unique_keys r) rs"
  "(\<exists>v. visit_map es broken seen acc' = Inr v)
     \<longleftrightarrow> \<not> broken \<and> list_all (\<lambda>e. complete (snd e) \<and> unique_keys (snd e)) es
        \<and> distinct (map fst es) \<and> seen \<inter> set (map fst es) = {}"
proof (induction r and rs broken acc and es broken seen acc'
    rule: visit_visit_seq_visit_map.induct)
  case (7 rs broken)
  then show ?case by (auto simp: list_all_iff)
next
  case (8 es broken)
  then show ?case by (auto simp: list_all_iff)
next
  case (11 r rs broken acc)
  then show ?case by (auto split: sum.splits)
next
  case (13 k r es broken seen acc)
  then show ?case by (auto split: sum.splits)
qed auto

lemma visit_duplicate:
  "complete r \<Longrightarrow> visit r = Inl e \<Longrightarrow> e = Duplicate"
  "\<not> broken \<Longrightarrow> list_all complete rs \<Longrightarrow> visit_seq rs broken acc = Inl e \<Longrightarrow> e = Duplicate"
  "\<not> broken \<Longrightarrow> list_all (\<lambda>p. complete (snd p)) es \<Longrightarrow> visit_map es broken seen acc' = Inl e
     \<Longrightarrow> e = Duplicate"
  by (induction r and rs broken acc and es broken seen acc'
      rule: visit_visit_seq_visit_map.induct)
     (auto split: sum.splits if_splits)

text \<open>A member of the result is a member of the input, decoded.\<close>

lemma visit_map_lookup:
  "visit_map es broken seen acc = Inr v \<Longrightarrow>
     \<exists>o'. v = JObj o' \<and>
       (\<forall>k. obj_get o' k = (case map_of es k of
              Some r \<Rightarrow> (case visit r of Inl _ \<Rightarrow> None | Inr x \<Rightarrow> Some x)
            | None \<Rightarrow> obj_get acc k))"
proof (induction es arbitrary: seen acc)
  case Nil
  then show ?case by (auto split: if_splits)
next
  case (Cons e es)
  obtain k r where e: "e = (k, r)" by fastforce
  with Cons.prems obtain x where k: "k \<notin> seen" and x: "visit r = Inr x"
    and rest: "visit_map es broken (insert k seen) (obj_insert k x acc) = Inr v"
    by (auto split: if_splits sum.splits)
  have "k \<notin> set (map fst es)"
    using visit_accepts(3) [of es broken "insert k seen" "obj_insert k x acc"] rest by auto
  then have none: "map_of es k = None"
    by (simp add: map_of_eq_None_iff)
  from Cons.IH [OF rest] obtain o' where v: "v = JObj o'"
    and get: "\<And>k'. obj_get o' k' = (case map_of es k' of
        Some r \<Rightarrow> (case visit r of Inl _ \<Rightarrow> None | Inr x \<Rightarrow> Some x)
      | None \<Rightarrow> obj_get (obj_insert k x acc) k')"
    by blast
  show ?case
    by (rule exI [of _ o']) (simp add: v get none e x obj_get_insert split: option.splits)
qed

subsection \<open>Well-formed values and the printer's tree\<close>

text \<open>
  A \<open>Value\<close> in memory keeps its objects in key order without repeats, its integers in range
  and its floats finite; \<open>raw_of\<close> is the tree a parser of its printed text hands over.
\<close>

fun wf_json :: "json \<Rightarrow> bool" where
  "wf_json (JObj o') \<longleftrightarrow> sorted_wrt (<) (map fst o') \<and> list_all (\<lambda>p. wf_json (snd p)) o'"
| "wf_json (JArr vs) \<longleftrightarrow> list_all wf_json vs"
| "wf_json (JNum (NegInt i)) \<longleftrightarrow> i < 0"
| "wf_json (JNum (Float64 x)) \<longleftrightarrow> f64_is_finite x"
| "wf_json _ = True"

fun raw_of :: "json \<Rightarrow> raw" where
  "raw_of JNull = RUnit"
| "raw_of (JBool b) = RBool b"
| "raw_of (JNum (PosInt n)) = RU64 n"
| "raw_of (JNum (NegInt i)) = RI64 i"
| "raw_of (JNum (Float64 x)) = RF64 x"
| "raw_of (JStr s) = RStr s"
| "raw_of (JArr vs) = RSeq (map raw_of vs) False"
| "raw_of (JObj o') = RMap (map (\<lambda>p. (fst p, raw_of (snd p))) o') False"

lemma visit_seq_map:
  "(\<And>v. v \<in> set vs \<Longrightarrow> visit (raw_of v) = Inr v) \<Longrightarrow>
     visit_seq (map raw_of vs) False acc = Inr (JArr (acc @ vs))"
  by (induction vs arbitrary: acc) auto

lemma visit_map_sorted:
  assumes "\<And>p. p \<in> set o' \<Longrightarrow> visit (raw_of (snd p)) = Inr (snd p)"
    and "sorted_wrt (<) (map fst (acc @ o'))"
    and "seen = fst ` set acc"
  shows "visit_map (map (\<lambda>p. (fst p, raw_of (snd p))) o') False seen acc = Inr (JObj (acc @ o'))"
  using assms
proof (induction o' arbitrary: acc seen)
  case Nil
  then show ?case by simp
next
  case (Cons p o')
  have less: "\<forall>k' \<in> fst ` set acc. k' < fst p"
    using Cons.prems(2) by (auto simp: sorted_wrt_append)
  then have new: "fst p \<notin> seen"
    using Cons.prems(3) by auto
  have ins: "obj_insert (fst p) (snd p) acc = acc @ [p]"
    using obj_insert_last [OF less] by simp
  have step: "visit_map (map (\<lambda>q. (fst q, raw_of (snd q))) o') False (insert (fst p) seen) (acc @ [p])
      = Inr (JObj ((acc @ [p]) @ o'))"
    using Cons.prems by (intro Cons.IH) auto
  then show ?case
    using new ins Cons.prems(1) [of p] by simp
qed

lemma visit_raw_of: "wf_json v \<Longrightarrow> visit (raw_of v) = Inr v"
proof (induction v rule: wf_json.induct)
  case (1 o')
  then show ?case
    using visit_map_sorted [of o' "[]" "{}"] by (auto simp: list_all_iff)
next
  case (2 vs)
  then show ?case
    using visit_seq_map [of vs "[]"] by (auto simp: list_all_iff)
qed auto

end
