(* ===== verification/Ja_Token.thy ===== *)
theory Ja_Token
  imports Ja_Json
begin

text \<open>
  The token-shape audit: which texts and keys count as a ready challenge, where one may
  appear, and how debug output removes them (\<open>agent_process/codec.rs\<close>), with the two
  recursive scans for the current challenge in \<open>agent_process/session.rs\<close> and
  \<open>agent_process/wire.rs\<close>.
\<close>

subsection \<open>Shapes\<close>

definition ready_token_field :: str where
  "ready_token_field = ''readyToken''"

definition valid_ready_token :: "str \<Rightarrow> bool" where
  "valid_ready_token v \<longleftrightarrow> length v = 32 \<and> list_all is_lower_hex_digit v"

definition is_token_shaped :: "str \<Rightarrow> bool" where
  "is_token_shaped v \<longleftrightarrow> length v = 32 \<and> list_all is_ascii_hexdigit v"

definition is_ready_token_key :: "str \<Rightarrow> bool" where
  "is_ready_token_key k \<longleftrightarrow> eq_ignore_ascii_case k ready_token_field"

fun contains_token_shaped_marker :: "json \<Rightarrow> bool" where
  "contains_token_shaped_marker (JObj o') = list_ex (\<lambda>p.
     is_ready_token_key (fst p) \<or> is_token_shaped (fst p)
     \<or> contains_token_shaped_marker (snd p)) o'"
| "contains_token_shaped_marker (JArr vs) = list_ex contains_token_shaped_marker vs"
| "contains_token_shaped_marker (JStr s) = is_token_shaped s"
| "contains_token_shaped_marker _ = False"

lemma valid_token_is_shaped: "valid_ready_token v \<Longrightarrow> is_token_shaped v"
  by (auto simp: valid_ready_token_def is_token_shaped_def list_all_iff lower_hex_is_hex)

lemma length_ready_token_key: "is_ready_token_key k \<Longrightarrow> length k = 10"
  by (auto simp: is_ready_token_key_def eq_ignore_ascii_case_def ready_token_field_def
      dest: arg_cong [where f = length])

text \<open>Only objects, arrays and strings carry a marker.\<close>

lemma marker_mono:
  "set o1 \<subseteq> set o2 \<Longrightarrow> contains_token_shaped_marker (JObj o1)
     \<Longrightarrow> contains_token_shaped_marker (JObj o2)"
  by (auto simp: list_ex_iff)

subsection \<open>The audit of a raw frame\<close>

text \<open>
  \<open>raw_marker allow path v\<close> is the inner \<open>visit\<close> of \<open>reject_raw_token_markers\<close>: the
  path is the vector the source pushes to and pops from, with \<open>[index]\<close> for the elements of
  an array. The one legal place is \<open>params.readyToken\<close>, and only when \<open>allow\<close> is set.
\<close>

definition index_segment :: "nat \<Rightarrow> str" where
  "index_segment i = ''['' @ show_nat i @ '']''"

definition legal_ready_path :: "bool \<Rightarrow> str list \<Rightarrow> str \<Rightarrow> bool" where
  "legal_ready_path allow path k \<longleftrightarrow>
     allow \<and> length path = 2 \<and> path ! 0 = ''params'' \<and> k = ''readyToken''"

lemma size_list_member: "x \<in> set xs \<Longrightarrow> f x < size_list f xs"
  by (induction xs) auto

function raw_marker :: "bool \<Rightarrow> str list \<Rightarrow> json \<Rightarrow> bool" where
  "raw_marker allow path (JObj o') = list_ex (\<lambda>p.
     let path' = path @ [fst p];
         legal = legal_ready_path allow path' (fst p);
         forbidden_key = (is_ready_token_key (fst p) \<or> is_token_shaped (fst p)) \<and> \<not> legal;
         forbidden_value =
           (case as_str (snd p) of Some s \<Rightarrow> is_token_shaped s | None \<Rightarrow> False) \<and> \<not> legal;
         nested = \<not> legal \<and> raw_marker allow path' (snd p)
     in forbidden_key \<or> forbidden_value \<or> nested) o'"
| "raw_marker allow path (JArr vs) = list_ex (\<lambda>p.
     raw_marker allow (path @ [index_segment (fst p)]) (snd p)) (enumerate 0 vs)"
| "raw_marker allow path (JStr s) = is_token_shaped s"
| "raw_marker allow path JNull = False"
| "raw_marker allow path (JBool b) = False"
| "raw_marker allow path (JNum n) = False"
  by pat_completeness auto
termination
proof (relation "measure (\<lambda>(_, _, v). size v)")
  show "wf (measure (\<lambda>(_ :: bool, _ :: str list, v :: json). size v))" by simp
next
  fix allow path o' p x xa xb
  assume "p \<in> set (o' :: obj)"
  then show "((allow, x :: str list, snd p), allow, path, JObj o')
      \<in> measure (\<lambda>(_ :: bool, _, v). size v)"
    using size_list_member [of p o' "size_prod (\<lambda>_. 0) size"]
    by (simp add: prod.size_gen split: prod.splits) (cases p, simp)
next
  fix allow path vs and p :: "nat \<times> json"
  assume "p \<in> set (enumerate 0 vs)"
  then have "fst p < length vs" and "vs ! fst p = snd p" by (simp_all add: in_set_enumerate_eq)
  then have "snd p \<in> set vs" by (metis nth_mem)
  then show "((allow, path @ [index_segment (fst p)], snd p), allow, path, JArr vs)
      \<in> measure (\<lambda>(_ :: bool, _, v). size v)"
    using size_list_member [of "snd p" vs size] by auto
qed

lemma list_ex_enumerate: "list_ex (\<lambda>p. P (snd p)) (enumerate n vs) = list_ex P vs"
  by (induction vs arbitrary: n) auto

lemma marker_as_str:
  "(case as_str v of Some s \<Rightarrow> is_token_shaped s | None \<Rightarrow> False)
     \<or> contains_token_shaped_marker v \<longleftrightarrow> contains_token_shaped_marker v"
  by (cases v) auto

text \<open>Where the exception cannot apply, the audit is the plain marker scan.\<close>

lemma raw_marker_plain:
  assumes "\<not> allow \<or> 2 \<le> length path \<or> (length path = 1 \<and> path ! 0 \<noteq> ''params'')"
  shows "raw_marker allow path v = contains_token_shaped_marker v"
  using assms
proof (induction allow path v rule: raw_marker.induct)
  case (1 allow path o')
  have nolegal: "\<not> legal_ready_path allow (path @ [k]) k" for k
    using 1(2) by (cases path) (auto simp: legal_ready_path_def)
  have sub: "raw_marker allow (path @ [fst p]) (snd p) = contains_token_shaped_marker (snd p)"
    if "p \<in> set o'" for p
    using 1(1) [OF that refl refl] 1(2) nolegal
    by (cases path) auto
  show ?case
    unfolding raw_marker.simps contains_token_shaped_marker.simps list_ex_iff Let_def
    by (intro bex_cong refl) (simp add: sub nolegal marker_as_str)
next
  case (2 allow path vs)
  have sub: "raw_marker allow (path @ [index_segment (fst p)]) (snd p)
      = contains_token_shaped_marker (snd p)" if "p \<in> set (enumerate 0 vs)" for p
    using 2(1) [OF that] 2(2)
    by (cases path) auto
  then have "raw_marker allow path (JArr vs)
      = list_ex (\<lambda>p. contains_token_shaped_marker (snd p)) (enumerate 0 vs)"
    by (auto simp: list_ex_iff)
  then show ?case by (simp add: list_ex_enumerate)
qed auto

text \<open>
  With the exception granted the audit is the marker scan of the frame without its
  \<open>params.readyToken\<close>: \<open>erase_challenge\<close> removes that one member and nothing else.
\<close>

definition erase_member :: "str \<Rightarrow> json \<Rightarrow> json" where
  "erase_member k v = (case v of JObj ps \<Rightarrow> JObj (filter (\<lambda>p. fst p \<noteq> k) ps) | _ \<Rightarrow> v)"

definition erase_challenge :: "obj \<Rightarrow> obj" where
  "erase_challenge o' = map (\<lambda>p.
     if fst p = ''params'' then (fst p, erase_member ready_token_field (snd p)) else p) o'"

lemma list_ex_filter: "list_ex Q (filter P xs) = list_ex (\<lambda>x. P x \<and> Q x) xs"
  by (induction xs) auto

lemma ready_token_key_self [simp]: "is_ready_token_key ''readyToken''"
  by (simp add: is_ready_token_key_def ready_token_field_def eq_ignore_ascii_case_def)

lemma raw_marker_params:
  "raw_marker True [''params''] v
     = contains_token_shaped_marker (erase_member ready_token_field v)"
proof (cases v)
  case (JObj ps)
  have legal: "legal_ready_path True [''params'', k] k \<longleftrightarrow> k = ready_token_field" for k
    by (simp add: legal_ready_path_def ready_token_field_def)
  have deep: "raw_marker True [''params'', k] w = contains_token_shaped_marker w" for k w
    by (rule raw_marker_plain) simp
  have member: "((is_ready_token_key (fst p) \<or> is_token_shaped (fst p)) \<and> fst p \<noteq> ready_token_field
        \<or> (case as_str (snd p) of Some s \<Rightarrow> is_token_shaped s | None \<Rightarrow> False)
            \<and> fst p \<noteq> ready_token_field
        \<or> fst p \<noteq> ready_token_field \<and> contains_token_shaped_marker (snd p))
      = (fst p \<noteq> ready_token_field \<and> (is_ready_token_key (fst p) \<or> is_token_shaped (fst p)
          \<or> contains_token_shaped_marker (snd p)))" for p
    using marker_as_str [of "snd p"] by blast
  show ?thesis
    by (simp add: JObj erase_member_def Let_def legal deep list_ex_filter member)
next
  case (JArr vs)
  have deep: "raw_marker True [''params'', k] w = contains_token_shaped_marker w" for k w
    by (rule raw_marker_plain) simp
  show ?thesis
    by (simp add: JArr erase_member_def deep list_ex_enumerate)
qed (simp_all add: erase_member_def)

lemma raw_marker_erase:
  "raw_marker True [] (JObj o') = contains_token_shaped_marker (JObj (erase_challenge o'))"
proof -
  have legal: "\<not> legal_ready_path True [k] k" for k
    by (simp add: legal_ready_path_def)
  have sub: "raw_marker True [k] w
      = (if k = ''params'' then contains_token_shaped_marker (erase_member ready_token_field w)
         else contains_token_shaped_marker w)" for k w
    by (simp add: raw_marker_params raw_marker_plain)
  have str: "(case as_str w of Some s \<Rightarrow> is_token_shaped s | None \<Rightarrow> False)
      \<Longrightarrow> contains_token_shaped_marker (erase_member f w)" for w f
    by (cases w) (auto simp: erase_member_def)
  have member: "(is_ready_token_key (fst p) \<or> is_token_shaped (fst p)
        \<or> (case as_str (snd p) of Some s \<Rightarrow> is_token_shaped s | None \<Rightarrow> False)
        \<or> raw_marker True [fst p] (snd p))
      = (let q = (if fst p = ''params'' then (fst p, erase_member ready_token_field (snd p)) else p)
         in is_ready_token_key (fst q) \<or> is_token_shaped (fst q)
            \<or> contains_token_shaped_marker (snd q))" for p
    using str [of "snd p" ready_token_field] marker_as_str [of "snd p"]
    by (cases "fst p = ''params''") (auto simp: sub Let_def)
  show ?thesis
    unfolding erase_challenge_def raw_marker.simps contains_token_shaped_marker.simps
      list_ex_iff set_map bex_simps
    by (intro bex_cong refl) (use member in \<open>simp add: legal Let_def disj_assoc\<close>)
qed

definition reject_raw_token_markers :: "json \<Rightarrow> bool \<Rightarrow> codec_error + unit" where
  "reject_raw_token_markers v allow =
     (if raw_marker allow [] v
      then Inl (if allow then HandshakeFailed else InvalidEnvelope)
      else Inr ())"

subsection \<open>The handshake's two legal fields\<close>

definition validate_ready_token_fields :: "str \<Rightarrow> json \<Rightarrow> codec_error + unit" where
  "validate_ready_token_fields m params =
     and_then (ok_or (as_object params) InvalidEnvelope) (\<lambda>o'.
       if m = ''initialized'' then
         require (length o' = 1
             \<and> (case get_str o' ready_token_field of Some t \<Rightarrow> valid_ready_token t | None \<Rightarrow> False))
           HandshakeFailed
       else if m = ''runtime/statusChanged'' \<and> get_str o' ''status'' = Some ''ready'' then
         and_then
           (require (case get_str o' ready_token_field of Some t \<Rightarrow> valid_ready_token t
               | None \<Rightarrow> False) HandshakeFailed) (\<lambda>_.
           for_each (\<lambda>(k, v).
             if k \<noteq> ready_token_field
                \<and> (is_ready_token_key k \<or> is_token_shaped k \<or> contains_token_shaped_marker v)
             then Inl HandshakeFailed else Inr ()) o')
       else if contains_token_shaped_marker params then Inl InvalidEnvelope
       else Inr ())"

definition known_roots :: "str list" where
  "known_roots = [''jsonrpc'', ''id'', ''method'', ''params'', ''result'', ''error'']"

definition reject_unknown_root_token_metadata :: "obj \<Rightarrow> bool \<Rightarrow> codec_error + unit" where
  "reject_unknown_root_token_metadata o' ready_frame =
     for_each (\<lambda>(k, v).
       if k \<in> set known_roots then Inr ()
       else if is_ready_token_key k \<or> is_token_shaped k \<or> contains_token_shaped_marker v
         then Inl (if ready_frame then HandshakeFailed else InvalidEnvelope)
       else Inr ()) o'"

subsection \<open>Debug output\<close>

definition redacted_text :: str where
  "redacted_text = ''<redacted>''"

definition redact_debug_text :: "str \<Rightarrow> str" where
  "redact_debug_text v = (if is_token_shaped v then redacted_text else v)"

text \<open>\<open>collect()\<close> into a \<open>Map\<close> inserts the pairs one after another: redacted keys merge.\<close>

fun redact_debug_value :: "json \<Rightarrow> json" where
  "redact_debug_value (JObj o') = JObj (obj_of (map (\<lambda>p.
     (if is_ready_token_key (fst p) \<or> is_token_shaped (fst p) then redacted_text else fst p,
      redact_debug_value (snd p))) o'))"
| "redact_debug_value (JArr vs) = JArr (map redact_debug_value vs)"
| "redact_debug_value (JStr s) = JStr (redact_debug_text s)"
| "redact_debug_value v = v"

lemma set_obj_of: "set (obj_of kvs) \<subseteq> set kvs"
proof -
  have "set (foldl (\<lambda>o' (k, v). obj_insert k v o') acc kvs) \<subseteq> set acc \<union> set kvs" for acc
  proof (induction kvs arbitrary: acc)
    case Nil
    show ?case by simp
  next
    case (Cons kv kvs)
    show ?case
      using Cons.IH [of "obj_insert (fst kv) (snd kv) acc"]
        set_obj_insert [of "fst kv" "snd kv" acc]
      by (cases kv) auto
  qed
  from this [of "[]"] show ?thesis by (simp add: obj_of_def)
qed

lemma redacted_text_safe [simp]:
  "\<not> is_token_shaped redacted_text" "\<not> is_ready_token_key redacted_text"
  by (simp_all add: redacted_text_def is_token_shaped_def is_ready_token_key_def
      eq_ignore_ascii_case_def to_ascii_lowercase_def ready_token_field_def byte_defs)

lemma redact_no_marker: "\<not> contains_token_shaped_marker (redact_debug_value v)"
proof (induction v rule: redact_debug_value.induct)
  case (1 o')
  have "\<not> (is_ready_token_key (fst q) \<or> is_token_shaped (fst q)
      \<or> contains_token_shaped_marker (snd q))"
    if "q \<in> set (obj_of (map (\<lambda>p.
      (if is_ready_token_key (fst p) \<or> is_token_shaped (fst p) then redacted_text else fst p,
       redact_debug_value (snd p))) o'))" for q
  proof -
    from that obtain p where "p \<in> set o'"
      and q: "q = (if is_ready_token_key (fst p) \<or> is_token_shaped (fst p) then redacted_text
        else fst p, redact_debug_value (snd p))"
      using set_obj_of by fastforce
    with 1 show ?thesis by (cases "is_ready_token_key (fst p) \<or> is_token_shaped (fst p)") auto
  qed
  then show ?case
    unfolding redact_debug_value.simps contains_token_shaped_marker.simps list_ex_iff by blast
qed (auto simp: list_ex_iff redact_debug_text_def)

text \<open>Text without a marker is printed as it is.\<close>

lemma obj_of_sorted: "sorted_wrt (<) (map fst o') \<Longrightarrow> obj_of o' = o'"
proof -
  have "foldl (\<lambda>o' (k, v). obj_insert k v o') acc o' = acc @ o'"
    if "sorted_wrt (<) (map fst (acc @ o'))" for acc
    using that
  proof (induction o' arbitrary: acc)
    case Nil
    show ?case by simp
  next
    case (Cons p o')
    have "obj_insert (fst p) (snd p) acc = acc @ [p]"
      using Cons.prems obj_insert_last [of acc "fst p" "snd p"] by (auto simp: sorted_wrt_append)
    then show ?case
      using Cons.IH [of "acc @ [p]"] Cons.prems by (cases p) simp
  qed
  from this [of "[]"] show "sorted_wrt (<) (map fst o') \<Longrightarrow> obj_of o' = o'"
    by (simp add: obj_of_def)
qed

lemma redact_debug_same:
  "wf_json v \<Longrightarrow> \<not> contains_token_shaped_marker v \<Longrightarrow> redact_debug_value v = v"
proof (induction v rule: redact_debug_value.induct)
  case (1 o')
  have same: "redact_debug_value (snd p) = snd p"
    and key: "\<not> is_ready_token_key (fst p)" "\<not> is_token_shaped (fst p)" if "p \<in> set o'" for p
    using 1(1) [OF that] 1(2,3) that by (simp_all add: list_ex_iff list_all_iff)
  have "map (\<lambda>p. (if is_ready_token_key (fst p) \<or> is_token_shaped (fst p) then redacted_text
      else fst p, redact_debug_value (snd p))) o' = o'"
    by (rule map_idI) (simp add: same key)
  then show ?case
    using 1(2) by (simp add: obj_of_sorted)
next
  case (2 vs)
  then show ?case by (auto simp: list_ex_iff list_all_iff intro!: map_idI)
qed (auto simp: redact_debug_text_def)

subsection \<open>The current challenge in a payload\<close>

text \<open>
  \<open>forbidden\<close> is the set of this generation's challenges. The session's scan of an outbound
  payload refuses every marker shape at every level, the reader's scan of an inbound one
  refuses marker keys and the challenges themselves.
\<close>

fun contains_forbidden_ready_token :: "str set \<Rightarrow> json \<Rightarrow> bool" where
  "contains_forbidden_ready_token F (JObj o') \<longleftrightarrow>
     contains_token_shaped_marker (JObj o')
     \<or> list_ex (\<lambda>p. fst p \<in> F \<or> contains_forbidden_ready_token F (snd p)) o'"
| "contains_forbidden_ready_token F (JArr vs) \<longleftrightarrow>
     contains_token_shaped_marker (JArr vs)
     \<or> list_ex (contains_forbidden_ready_token F) vs"
| "contains_forbidden_ready_token F (JStr s) \<longleftrightarrow>
     contains_token_shaped_marker (JStr s) \<or> s \<in> F"
| "contains_forbidden_ready_token F v \<longleftrightarrow> contains_token_shaped_marker v"

fun contains_forbidden_token :: "str set \<Rightarrow> json \<Rightarrow> bool" where
  "contains_forbidden_token F (JObj o') \<longleftrightarrow> list_ex (\<lambda>p.
     is_ready_token_key (fst p) \<or> is_token_shaped (fst p) \<or> fst p \<in> F
     \<or> contains_forbidden_token F (snd p)) o'"
| "contains_forbidden_token F (JArr vs) \<longleftrightarrow> list_ex (contains_forbidden_token F) vs"
| "contains_forbidden_token F (JStr s) \<longleftrightarrow> s \<in> F"
| "contains_forbidden_token F _ = False"

definition ready_params_are_safe :: "json \<Rightarrow> str \<Rightarrow> str set \<Rightarrow> bool" where
  "ready_params_are_safe params expected F =
     (case as_object params of None \<Rightarrow> False
      | Some o' \<Rightarrow> list_all (\<lambda>(k, v).
          if k = ready_token_field then as_str v = Some expected \<and> valid_ready_token expected
          else k \<notin> F \<and> \<not> is_ready_token_key k \<and> \<not> is_token_shaped k
            \<and> \<not> contains_token_shaped_marker v \<and> \<not> contains_forbidden_ready_token F v) o')"

text \<open>\<open>mentions F v\<close>: one of the strings of \<open>F\<close> is a key or a string value of \<open>v\<close>.\<close>

fun mentions :: "str set \<Rightarrow> json \<Rightarrow> bool" where
  "mentions F (JObj o') \<longleftrightarrow> list_ex (\<lambda>p. fst p \<in> F \<or> mentions F (snd p)) o'"
| "mentions F (JArr vs) \<longleftrightarrow> list_ex (mentions F) vs"
| "mentions F (JStr s) \<longleftrightarrow> s \<in> F"
| "mentions F _ = False"

lemma forbidden_ready_token_iff:
  "contains_forbidden_ready_token F v \<longleftrightarrow> contains_token_shaped_marker v \<or> mentions F v"
  by (induction F v rule: contains_forbidden_ready_token.induct) (auto simp: list_ex_iff)

lemma mentions_forbidden_token: "mentions F v \<Longrightarrow> contains_forbidden_token F v"
  by (induction F v rule: mentions.induct) (auto simp: list_ex_iff)

lemma mentions_shaped:
  "(\<And>t. t \<in> F \<Longrightarrow> is_token_shaped t) \<Longrightarrow> mentions F v \<Longrightarrow> contains_token_shaped_marker v"
  by (induction F v rule: mentions.induct) (auto simp: list_ex_iff)

text \<open>Challenges have the token shape, so a frame's marker scan already finds them.\<close>

lemma challenge_never_mentioned:
  assumes "\<And>t. t \<in> F \<Longrightarrow> valid_ready_token t" and "\<not> contains_token_shaped_marker v"
  shows "\<not> mentions F v" "\<not> contains_forbidden_ready_token F v"
  using assms mentions_shaped [of F v] valid_token_is_shaped forbidden_ready_token_iff by blast+

end
