(* ===== verification/Ja_Error_Text.thy ===== *)
theory Ja_Error_Text
  imports Ja_Token
begin

text \<open>
  The lexical scanner that decides which error messages may reach the user
  (\<open>valid_error_message\<close> and \<open>ErrorMessageScanner\<close> of \<open>agent_process/codec.rs\<close>).
  \<open>windows(n)\<close> with a fixed text is \<open>contains_str\<close>; the two \<open>while\<close> loops are a recursion
  on the index and \<open>takeWhile\<close>.
\<close>

subsection \<open>Byte classes of the scanner\<close>

definition is_scheme_byte :: "char \<Rightarrow> bool" where
  "is_scheme_byte c \<longleftrightarrow> is_ascii_alphanumeric c \<or> c \<in> {CHR ''+'', CHR ''-'', CHR ''.''}"

definition is_path_byte :: "char \<Rightarrow> bool" where
  "is_path_byte c \<longleftrightarrow>
     is_ascii_alphanumeric c \<or> c \<in> {CHR ''.'', CHR ''_'', CHR ''-'', CHR ''%''}"

definition is_path_boundary :: "bytes \<Rightarrow> nat \<Rightarrow> bool" where
  "is_path_boundary bs i \<longleftrightarrow>
     i = 0 \<or> is_ascii_whitespace (bs ! (i - 1))
     \<or> bs ! (i - 1) \<in> {CHR '':'', CHR ''='', CHR ''('', CHR ''['', CHR ''{'', CHR 0x22, CHR '',''}"

subsection \<open>The five detectors\<close>

fun scheme_start :: "bytes \<Rightarrow> nat \<Rightarrow> nat" where
  "scheme_start bs 0 = 0"
| "scheme_start bs (Suc n) = (if is_scheme_byte (bs ! n) then scheme_start bs n else Suc n)"

definition has_uri :: "bytes \<Rightarrow> bool" where
  "has_uri bs \<longleftrightarrow> list_ex (\<lambda>i.
     take 3 (drop i bs) = ''://''
     \<and> (let start = scheme_start bs i in start < i \<and> is_ascii_alphabetic (bs ! start)))
     [0 ..< length bs - 2]"

definition known_path_roots :: "str list" where
  "known_path_roots =
     [''etc'', ''home'', ''Users'', ''users'', ''private'', ''tmp'', ''var'', ''usr'', ''opt'',
      ''root'', ''dev'', ''proc'', ''sys'', ''Volumes'', ''volumes'']"

definition posix_path_at :: "bytes \<Rightarrow> nat \<Rightarrow> bool" where
  "posix_path_at bs i \<longleftrightarrow>
     bs ! i = CHR ''/'' \<and> is_path_boundary bs i
     \<and> (let segment = takeWhile is_path_byte (drop (Suc i) bs);
            stop = Suc i + length segment
        in segment \<noteq> []
           \<and> (stop < length bs \<and> bs ! stop = CHR ''/'' \<or> segment \<in> set known_path_roots))"

definition has_posix_path :: "bytes \<Rightarrow> bool" where
  "has_posix_path bs \<longleftrightarrow> list_ex (posix_path_at bs) [0 ..< length bs]"

fun has_drive_path :: "bytes \<Rightarrow> bool" where
  "has_drive_path (a # b # c # r) \<longleftrightarrow>
     is_ascii_alphabetic a \<and> b = CHR '':'' \<and> (c = CHR ''/'' \<or> c = CHR 0x5C)
     \<or> has_drive_path (b # c # r)"
| "has_drive_path _ = False"

definition has_windows_path :: "bytes \<Rightarrow> bool" where
  "has_windows_path bs \<longleftrightarrow> contains_str bs [CHR 0x5C, CHR 0x5C] \<or> has_drive_path bs"

definition secret_markers :: "str list" where
  "secret_markers =
     [''secret'', ''token'', ''password'', ''apikey'', ''bearer'', ''cookie'', ''authorization'']"

definition has_secret_marker :: "str \<Rightarrow> bool" where
  "has_secret_marker m =
     (let lower = to_ascii_lowercase m;
          compact = filter is_ascii_alphanumeric lower
      in list_ex (contains_str compact) secret_markers
         \<or> contains_str lower ''sk-'' \<or> contains_str lower ''sk_'')"

fun hex_run :: "nat \<Rightarrow> bytes \<Rightarrow> bool" where
  "hex_run run [] = False"
| "hex_run run (c # cs) =
     (if is_ascii_hexdigit c
      then (let run' = sat_add run 1 in if 32 \<le> run' then True else hex_run run' cs)
      else hex_run 0 cs)"

definition has_hex_run :: "bytes \<Rightarrow> bool" where
  "has_hex_run bs = hex_run 0 bs"

definition message_is_safe :: "str \<Rightarrow> bool" where
  "message_is_safe m \<longleftrightarrow>
     \<not> has_control m \<and> \<not> has_uri m \<and> \<not> has_posix_path m \<and> \<not> has_windows_path m
     \<and> \<not> has_secret_marker m \<and> \<not> has_hex_run m"

definition valid_error_message :: "str \<Rightarrow> bool" where
  "valid_error_message m \<longleftrightarrow> m \<noteq> [] \<and> length m \<le> 512 \<and> message_is_safe m"

subsection \<open>What the detectors find\<close>

text \<open>The run counter finds exactly the texts with 32 hexadecimal digits in a row.\<close>

definition hexes :: "nat \<Rightarrow> bytes \<Rightarrow> bool" where
  "hexes n bs \<longleftrightarrow> n \<le> length bs \<and> list_all is_ascii_hexdigit (take n bs)"

lemma hexes_Nil: "0 < n \<Longrightarrow> \<not> hexes n []"
  by (simp add: hexes_def)

lemma hexes_Cons: "0 < n \<Longrightarrow> hexes n (c # cs) \<longleftrightarrow> is_ascii_hexdigit c \<and> hexes (n - 1) cs"
  by (cases n) (auto simp: hexes_def)

lemma hexes_mono: "m \<le> n \<Longrightarrow> hexes n bs \<Longrightarrow> hexes m bs"
  using set_take_subset_set_take [of m n bs] by (auto simp: hexes_def list_all_iff)

lemma prefix_token_shaped: "(\<exists>t. prefix t bs \<and> is_token_shaped t) \<longleftrightarrow> hexes 32 bs"
proof
  assume "\<exists>t. prefix t bs \<and> is_token_shaped t"
  then obtain t r where "bs = t @ r" and "is_token_shaped t"
    by (auto simp: prefix_def)
  then show "hexes 32 bs"
    by (simp add: hexes_def is_token_shaped_def)
next
  assume "hexes 32 bs"
  then have "is_token_shaped (take 32 bs)"
    by (simp add: hexes_def is_token_shaped_def)
  with take_is_prefix show "\<exists>t. prefix t bs \<and> is_token_shaped t"
    by blast
qed

lemma hexes_sublist: "hexes 32 bs \<Longrightarrow> \<exists>t. sublist t bs \<and> is_token_shaped t"
  using prefix_token_shaped [of bs] prefix_imp_sublist by blast

lemma sublist_token_shaped_Cons:
  "(\<exists>t. sublist t (c # cs) \<and> is_token_shaped t) \<longleftrightarrow>
     hexes 32 (c # cs) \<or> (\<exists>t. sublist t cs \<and> is_token_shaped t)"
  using prefix_token_shaped [of "c # cs"] by (auto simp: sublist_Cons_right)

lemma hex_run_iff:
  assumes "0 < n" and "n \<le> 32"
  shows "hex_run (32 - n) bs \<longleftrightarrow> hexes n bs \<or> (\<exists>t. sublist t bs \<and> is_token_shaped t)"
  using assms
proof (induction bs arbitrary: n)
  case Nil
  have "\<not> is_token_shaped []" by (simp add: is_token_shaped_def)
  with Nil show ?case by (simp add: hexes_Nil)
next
  case (Cons c cs)
  have step: "hexes n (c # cs) \<longleftrightarrow> is_ascii_hexdigit c \<and> hexes (n - 1) cs"
    "hexes 32 (c # cs) \<longleftrightarrow> is_ascii_hexdigit c \<and> hexes 31 cs"
    using Cons.prems by (simp_all add: hexes_Cons)
  have add: "sat_add (32 - n) 1 = 32 - (n - 1)"
    using Cons.prems by (simp add: sat_add_def usize_max_def)
  show ?case
  proof (cases "is_ascii_hexdigit c")
    case False
    then show ?thesis
      unfolding sublist_token_shaped_Cons step
      using Cons.IH [of 32] hexes_sublist [of cs] by auto
  next
    case True
    show ?thesis
    proof (cases "n = 1")
      case True
      then show ?thesis
        using \<open>is_ascii_hexdigit c\<close> add step by (simp add: hexes_def Let_def)
    next
      case False
      then have n: "0 < n - 1" "n - 1 \<le> 32" using Cons.prems by simp_all
      have "hex_run (32 - n) (c # cs) = hex_run (32 - (n - 1)) cs"
        using \<open>is_ascii_hexdigit c\<close> add False Cons.prems
        by (auto simp: Let_def simp del: One_nat_def)
      moreover have "hexes 31 cs \<Longrightarrow> hexes (n - 1) cs"
        using hexes_mono [of "n - 1" 31] Cons.prems by simp
      ultimately show ?thesis
        unfolding sublist_token_shaped_Cons step
        using Cons.IH [OF n] True by blast
    qed
  qed
qed

lemma has_hex_run_iff: "has_hex_run bs \<longleftrightarrow> (\<exists>t. sublist t bs \<and> is_token_shaped t)"
  using hex_run_iff [of 32 bs] hexes_sublist [of bs] by (auto simp: has_hex_run_def)

text \<open>
  The scan back from \<open>://\<close> stops at the start of the maximal run of scheme bytes.
\<close>

lemma scheme_start_run:
  "scheme_start bs i \<le> i
   \<and> (\<forall>j. scheme_start bs i \<le> j \<longrightarrow> j < i \<longrightarrow> is_scheme_byte (bs ! j))
   \<and> (scheme_start bs i = 0 \<or> \<not> is_scheme_byte (bs ! (scheme_start bs i - 1)))"
  by (induction bs i rule: scheme_start.induct) (auto simp: less_Suc_eq)

text \<open>
  What an accepted message cannot contain, read off the detectors: control characters, two
  backslashes or a drive path, a credential word in any letter case, and 32 hexadecimal
  digits in a row anywhere.
\<close>

lemma message_is_safeD:
  assumes "message_is_safe m"
  shows "\<not> has_control m"
    and "\<And>t. sublist t m \<Longrightarrow> \<not> is_token_shaped t"
    and "\<not> sublist [CHR 0x5C, CHR 0x5C] m"
    and "\<And>w. w \<in> set secret_markers \<Longrightarrow> \<not> sublist w (to_ascii_lowercase m)"
proof -
  show "\<not> has_control m" using assms by (simp add: message_is_safe_def)
  show "\<And>t. sublist t m \<Longrightarrow> \<not> is_token_shaped t"
    using assms by (auto simp: message_is_safe_def has_hex_run_iff)
  show "\<not> sublist [CHR 0x5C, CHR 0x5C] m"
    using assms by (simp add: message_is_safe_def has_windows_path_def contains_str_iff_sublist)
  fix w
  assume w: "w \<in> set secret_markers"
  have "filter is_ascii_alphanumeric w = w"
    using w by (auto simp: secret_markers_def byte_defs)
  moreover have "sublist (filter P xs) (filter P ys)" if "sublist xs ys" for P and xs ys :: str
    using that unfolding sublist_def by (metis filter_append)
  ultimately have "sublist w (to_ascii_lowercase m) \<Longrightarrow>
      sublist w (filter is_ascii_alphanumeric (to_ascii_lowercase m))"
    by metis
  then show "\<not> sublist w (to_ascii_lowercase m)"
    using assms w
    by (auto simp: message_is_safe_def has_secret_marker_def list_ex_iff Let_def
        contains_str_iff_sublist)
qed

subsection \<open>Properties\<close>

lemmas scan_defs = valid_error_message_def message_is_safe_def has_hex_run_def has_posix_path_def
  posix_path_at_def has_windows_path_def has_uri_def has_secret_marker_def secret_markers_def
  to_ascii_lowercase_def starts_with_def sat_add_def usize_max_def byte_defs upt_rec

text \<open>
  An error message the host shows (\<open>valid_error_message\<close>) is non-empty and at most 512
  bytes long, has no control character, no credential word in any letter case, and no 32
  hexadecimal digits in a row at any position: no challenge can be embedded in it.
\<close>

theorem error_message_safe:
  assumes "valid_error_message m"
  shows "0 < length m \<and> length m \<le> 512 \<and> \<not> has_control m
    \<and> (\<forall>t. sublist t m \<longrightarrow> \<not> is_token_shaped t)
    \<and> (\<forall>w \<in> set secret_markers. \<not> sublist w (to_ascii_lowercase m))"
  using assms message_is_safeD [of m] by (auto simp: valid_error_message_def)

theorem error_message_safe_witness:
  "valid_error_message ''retry later'' \<and> \<not> sublist ''token'' (to_ascii_lowercase ''retry later'')"
proof -
  have ok: "valid_error_message ''retry later''" by (simp add: scan_defs)
  have "''token'' \<in> set secret_markers" by (simp add: secret_markers_def)
  with error_message_safe [OF ok] ok show ?thesis by blast
qed

text \<open>
  The scheme test looks at the first byte of the maximal run only, so a digit in front of the
  scheme hides a URI from every detector.
\<close>

lemma uri_after_digit_unnoticed: "valid_error_message ''copied 1.s3://bucket/key''"
  by (simp add: scan_defs is_scheme_byte_def is_path_byte_def is_path_boundary_def)

end
