(* ===== verification/Ja_Error.thy ===== *)
theory Ja_Error
  imports Ja_Json
begin

text \<open>
  The host's error values (\<open>agent_process/error.rs\<close>) and the frozen error catalog of
  protocol v1 (\<open>agent_process/codec_catalog.rs\<close>). An error code is an \<open>i64\<close>, an \<open>int\<close>
  here: the codes that occur are literals.
\<close>

datatype queue_kind = QControl | QData | QStderr

datatype pending_register_error = PDuplicateRequest | PLimitReached

datatype agent_error =
    InvalidConfig
  | InvalidTimeout
  | Codec codec_error
  | QueueFull queue_kind
  | QueueClosed queue_kind
  | PendingLimit
  | RequestLedgerExhausted
  | DuplicateRequest
  | UnknownRequestId
  | DuplicateResponse
  | LateResponse
  | DeadlineExceeded
  | Cancelled
  | SessionClosed
  | NotReady
  | Incompatible
  | InvalidState
  | Spawn
  | ProcessTree
  | ProcessExited
  | ShuttingDown
  | AHandshakeFailed
  | ProtocolFault
  | AInvalidErrorCatalog
  | ShutdownTimeout
  | Backoff nanos
  | RestartLimitExceeded
  | Faulted

fun from_codec :: "codec_error \<Rightarrow> agent_error" where
  "from_codec HandshakeFailed = AHandshakeFailed"
| "from_codec e = Codec e"

fun from_pending :: "pending_register_error \<Rightarrow> agent_error" where
  "from_pending PDuplicateRequest = DuplicateRequest"
| "from_pending PLimitReached = PendingLimit"

subsection \<open>Display texts\<close>

fun show_codec_error :: "codec_error \<Rightarrow> str" where
  "show_codec_error UnexpectedEof = ''unexpected eof''"
| "show_codec_error PartialFrame = ''partial jsonl frame''"
| "show_codec_error EmptyFrame = ''empty jsonl frame''"
| "show_codec_error InvalidUtf8 = ''invalid utf8''"
| "show_codec_error InvalidJson = ''invalid json''"
| "show_codec_error DuplicateKey = ''duplicate object key''"
| "show_codec_error NonObject = ''json-rpc frame is not an object''"
| "show_codec_error InvalidEnvelope = ''invalid json-rpc envelope''"
| "show_codec_error HandshakeFailed = ''handshake failed''"
| "show_codec_error InvalidErrorCatalog = ''invalid error catalog entry''"
| "show_codec_error InvalidId = ''invalid request id''"
| "show_codec_error InvalidLimit = ''invalid frame limit''"
| "show_codec_error (FrameTooLarge actual limit) =
     ''frame exceeds limit ('' @ show_nat actual @ '' > '' @ show_nat limit @ '')''"
| "show_codec_error Io = ''jsonl reader io failure''"

fun show_queue_kind :: "queue_kind \<Rightarrow> str" where
  "show_queue_kind QControl = ''Control''"
| "show_queue_kind QData = ''Data''"
| "show_queue_kind QStderr = ''Stderr''"

text \<open>\<open>show_dur\<close> is \<open>Duration\<close>'s \<open>Debug\<close> text, which the standard library chooses.\<close>

fun show_agent_error :: "(nanos \<Rightarrow> str) \<Rightarrow> agent_error \<Rightarrow> str" where
  "show_agent_error show_dur InvalidConfig = ''invalid sidecar configuration''"
| "show_agent_error show_dur InvalidTimeout = ''sidecar timeout exceeds hard limit''"
| "show_agent_error show_dur (Codec e) =
     ''sidecar protocol framing failed: '' @ show_codec_error e"
| "show_agent_error show_dur (QueueFull k) = ''sidecar '' @ show_queue_kind k @ '' queue is full''"
| "show_agent_error show_dur (QueueClosed k) =
     ''sidecar '' @ show_queue_kind k @ '' queue is closed''"
| "show_agent_error show_dur PendingLimit = ''sidecar pending request limit reached''"
| "show_agent_error show_dur RequestLedgerExhausted = ''sidecar request id ledger exhausted''"
| "show_agent_error show_dur DuplicateRequest = ''duplicate sidecar request''"
| "show_agent_error show_dur UnknownRequestId = ''unknown sidecar request id''"
| "show_agent_error show_dur DuplicateResponse = ''duplicate sidecar response''"
| "show_agent_error show_dur LateResponse = ''late sidecar response''"
| "show_agent_error show_dur DeadlineExceeded = ''sidecar request deadline exceeded''"
| "show_agent_error show_dur Cancelled = ''sidecar request cancelled''"
| "show_agent_error show_dur SessionClosed = ''sidecar session closed''"
| "show_agent_error show_dur NotReady = ''sidecar is not ready''"
| "show_agent_error show_dur Incompatible = ''sidecar protocol is incompatible''"
| "show_agent_error show_dur InvalidState = ''invalid sidecar lifecycle state''"
| "show_agent_error show_dur Spawn = ''sidecar process could not be started''"
| "show_agent_error show_dur ProcessTree = ''sidecar process tree cleanup failed''"
| "show_agent_error show_dur ProcessExited = ''sidecar process exited''"
| "show_agent_error show_dur ShuttingDown = ''sidecar is shutting down''"
| "show_agent_error show_dur AHandshakeFailed = ''sidecar handshake failed''"
| "show_agent_error show_dur ProtocolFault = ''sidecar protocol fault''"
| "show_agent_error show_dur AInvalidErrorCatalog = ''unsupported sidecar error catalog entry''"
| "show_agent_error show_dur ShutdownTimeout = ''sidecar shutdown deadline exceeded''"
| "show_agent_error show_dur (Backoff retry_after) =
     ''sidecar restart is in backoff ('' @ show_dur retry_after @ '')''"
| "show_agent_error show_dur RestartLimitExceeded = ''sidecar restart limit exceeded''"
| "show_agent_error show_dur Faulted = ''sidecar host is faulted''"

subsection \<open>The frozen catalog\<close>

definition catalog :: "(int \<times> str \<times> bool \<times> str) list" where
  "catalog = [
     (-32001, ''INVALID_FRAME'', False, ''invalid frame''),
     (-32002, ''FRAME_TOO_LARGE'', False, ''frame too large''),
     (-32003, ''PROTOCOL_VERSION_UNSUPPORTED'', False, ''protocol version unsupported''),
     (-32004, ''NOT_INITIALIZED'', False, ''not initialized''),
     (-32005, ''ALREADY_INITIALIZED'', False, ''already initialized''),
     (-32006, ''METHOD_NOT_FOUND'', False, ''method not found''),
     (-32007, ''INVALID_PARAMS'', False, ''invalid params''),
     (-32008, ''QUEUE_FULL'', True, ''queue full''),
     (-32009, ''PENDING_LIMIT'', True, ''pending limit''),
     (-32010, ''DUPLICATE_REQUEST'', False, ''duplicate request''),
     (-32011, ''UNKNOWN_REQUEST_ID'', False, ''unknown request id''),
     (-32012, ''DUPLICATE_RESPONSE'', False, ''duplicate response''),
     (-32013, ''LATE_RESPONSE'', False, ''late response''),
     (-32014, ''REQUEST_DEADLINE_EXCEEDED'', True, ''request deadline exceeded''),
     (-32015, ''PAYLOAD_TOO_LARGE'', False, ''payload too large''),
     (-32016, ''RESYNC_REQUIRED'', True, ''resync required''),
     (-32017, ''HANDSHAKE_FAILED'', False, ''handshake failed''),
     (-32020, ''SHUTTING_DOWN'', True, ''shutting down''),
     (-32021, ''DATA_DIR_IN_USE'', False, ''data directory in use''),
     (-32023, ''MIGRATION_FAILED'', False, ''migration failed''),
     (-32024, ''SCHEMA_TOO_NEW'', False, ''schema too new''),
     (-32025, ''WORKSPACE_NOT_FOUND'', False, ''workspace not found''),
     (-32026, ''WORKSPACE_UNTRUSTED'', False, ''workspace untrusted''),
     (-32028, ''CONFLICT'', True, ''conflict''),
     (-32029, ''THREAD_NOT_FOUND'', False, ''thread not found''),
     (-32030, ''THREAD_BUSY'', True, ''thread busy''),
     (-32031, ''THREAD_READ_ONLY'', False, ''thread read only''),
     (-32032, ''TURN_NOT_FOUND'', False, ''turn not found''),
     (-32033, ''TURN_NOT_ACTIVE'', False, ''turn not active''),
     (-32034, ''INVALID_STATE'', False, ''invalid state''),
     (-32035, ''CANCELLED'', False, ''cancelled''),
     (-32036, ''BUDGET_EXCEEDED'', False, ''budget exceeded''),
     (-32040, ''APPROVAL_NOT_FOUND'', False, ''approval not found''),
     (-32041, ''APPROVAL_EXPIRED'', False, ''approval expired''),
     (-32042, ''APPROVAL_ALREADY_RESOLVED'', False, ''approval already resolved''),
     (-32043, ''TOOL_DENIED'', False, ''tool denied''),
     (-32044, ''TOOL_FAILED'', False, ''tool failed''),
     (-32046, ''PROCESS_TIMEOUT'', True, ''process timeout''),
     (-32047, ''PROCESS_OUTPUT_LIMIT'', False, ''process output limit''),
     (-32048, ''EXTERNAL_TOOL_UNSUPPORTED'', False, ''external tool unsupported''),
     (-32050, ''SECRET_NOT_FOUND'', False, ''secret not found''),
     (-32051, ''SECRET_ACCESS_DENIED'', False, ''secret access denied''),
     (-32052, ''MODEL_UNSUPPORTED'', False, ''model unsupported''),
     (-32053, ''MODEL_UNAVAILABLE'', True, ''model unavailable''),
     (-32054, ''SKILL_INVALID'', False, ''skill invalid''),
     (-32055, ''SKILL_UNAVAILABLE'', True, ''skill unavailable''),
     (-32056, ''MCP_UNSUPPORTED_AUTH'', False, ''mcp unsupported auth''),
     (-32057, ''MCP_SERVER_UNAVAILABLE'', True, ''mcp server unavailable''),
     (-32058, ''MCP_PROTOCOL_UNSUPPORTED'', False, ''mcp protocol unsupported''),
     (-32059, ''MCP_TOOL_NOT_FOUND'', False, ''mcp tool not found''),
     (-32060, ''MCP_TOOL_FAILED'', False, ''mcp tool failed''),
     (-32070, ''CAPABILITY_UNSUPPORTED'', False, ''capability unsupported''),
     (-32071, ''AUTH_UNSUPPORTED'', False, ''auth unsupported''),
     (-32080, ''INTERNAL_ERROR'', False, ''internal error''),
     (-32081, ''SIDE_CAR_CRASHED'', False, ''sidecar crashed''),
     (-32082, ''SHUTDOWN_TIMEOUT'', False, ''shutdown timeout'')]"

definition catalog_entry :: "int \<Rightarrow> str \<Rightarrow> bool \<Rightarrow> (str \<times> str) option" where
  "catalog_entry code ja_code retryable =
     map_option (\<lambda>(c, j, r, m). (j, m))
       (List.find (\<lambda>(c, j, r, m). c = code \<and> j = ja_code \<and> r = retryable) catalog)"

definition error_catalog :: "int \<Rightarrow> str \<Rightarrow> bool \<Rightarrow> (int \<times> str \<times> bool) option" where
  "error_catalog code ja_code retryable =
     map_option (\<lambda>(j, m). (code, j, retryable)) (catalog_entry code ja_code retryable)"

lemma catalog_entry_Some:
  "catalog_entry code j r = Some (j', m) \<Longrightarrow> j' = j \<and> (code, j, r, m) \<in> set catalog"
  by (auto simp: catalog_entry_def dest!: find_member)

lemma catalog_codes_distinct: "distinct (map fst catalog)"
  by (simp add: catalog_def)

lemma catalog_rows:
  "list_all (\<lambda>(c, j, r, m). -32768 \<le> c \<and> c \<le> -32000 \<and> 3 \<le> length j \<and> length j \<le> 64
     \<and> m \<noteq> [] \<and> length m \<le> 512) catalog"
  by (simp add: catalog_def)

text \<open>An entry is looked up under its own triple and no other.\<close>

lemma catalog_entry_iff:
  "catalog_entry code j r = Some (j', m) \<longleftrightarrow> j' = j \<and> (code, j, r, m) \<in> set catalog"
proof
  assume "j' = j \<and> (code, j, r, m) \<in> set catalog"
  then have j: "j' = j" and mem: "(code, j, r, m) \<in> set catalog" by simp_all
  let ?P = "\<lambda>(c, j', r', m :: str). c = code \<and> j' = j \<and> r' = r"
  obtain e where e: "List.find ?P catalog = Some e"
    using find_exists [OF mem, of ?P] by auto
  from find_member [OF e] have e_mem: "e \<in> set catalog" and e_key: "?P e"
    by (rule conjunct1, rule conjunct2)
  from e_key have "fst e = code" by (auto split: prod.splits)
  then have e_eq: "(code, snd e) = e" by auto
  have "snd e = (j, r, m)"
    using eq_key_imp_eq_value [OF catalog_codes_distinct mem, of "snd e"] e_mem e_eq by simp
  with e_eq have "e = (code, j, r, m)" by simp
  with e j show "catalog_entry code j r = Some (j', m)"
    by (simp add: catalog_entry_def)
qed (rule catalog_entry_Some)

end
