(* ===== verification/Ja_Codec.thy ===== *)
theory Ja_Codec
  imports Ja_Error Ja_Error_Text
begin

text \<open>
  The \<open>ja-rpc/v1\<close> envelope (\<open>agent_process/codec.rs\<close>): limits, frames, envelope
  validation, encoding and decoding of one JSONL frame, the frame reader and version
  negotiation. serde_json's printer \<open>to_vec\<close> and deserializer \<open>de\<close> are parameters.
\<close>

subsection \<open>Limits\<close>

record limits =
  max_frame_bytes :: nat
  inbound_queue_frames :: nat
  outbound_queue_frames :: nat
  max_in_flight_requests :: nat
  max_pending_requests :: nat
  max_tombstones :: nat
  max_stderr_line_bytes :: nat
  max_log_bytes :: nat
  request_deadline_ms :: nat
  approval_deadline_ms :: nat

definition default_limits :: limits where
  "default_limits = \<lparr>
     max_frame_bytes = 4 * 1024 * 1024,
     inbound_queue_frames = 256,
     outbound_queue_frames = 1024,
     max_in_flight_requests = 64,
     max_pending_requests = 64,
     max_tombstones = 128,
     max_stderr_line_bytes = 64 * 1024,
     max_log_bytes = 1048576,
     request_deadline_ms = 120000,
     approval_deadline_ms = 300000 \<rparr>"

definition min_max_frame_bytes :: nat where "min_max_frame_bytes = 1024"
definition max_max_frame_bytes :: nat where "max_max_frame_bytes = 16 * 1024 * 1024"
definition max_request_id_bytes :: nat where "max_request_id_bytes = 98"
definition max_method_bytes :: nat where "max_method_bytes = 128"

definition within :: "'a::linorder \<Rightarrow> 'a \<Rightarrow> 'a \<Rightarrow> bool" where
  "within lo hi x \<longleftrightarrow> lo \<le> x \<and> x \<le> hi"

definition limits_validate :: "limits \<Rightarrow> codec_error + unit" where
  "limits_validate l =
     (if \<not> within min_max_frame_bytes max_max_frame_bytes (max_frame_bytes l) then Inl InvalidLimit
      else if \<not> within 1 10000 (inbound_queue_frames l)
        \<or> \<not> within 1 10000 (outbound_queue_frames l)
        \<or> \<not> within 1 1024 (max_in_flight_requests l)
        \<or> \<not> within 1 1024 (max_pending_requests l)
        \<or> \<not> within 1 8192 (max_tombstones l)
        \<or> \<not> within 1 1048576 (max_stderr_line_bytes l)
        \<or> \<not> within 4096 67108864 (max_log_bytes l)
        \<or> \<not> within 1000 3600000 (request_deadline_ms l)
        \<or> \<not> within 1000 3600000 (approval_deadline_ms l)
      then Inl InvalidLimit
      else Inr ())"

abbreviation jnat :: "nat \<Rightarrow> json" where "jnat n \<equiv> JNum (PosInt n)"

definition limits_to_value :: "limits \<Rightarrow> json" where
  "limits_to_value l = JObj (obj_of
     [(''maxFrameBytes'', jnat (max_frame_bytes l)),
      (''maxInboundQueueFrames'', jnat (inbound_queue_frames l)),
      (''maxOutboundQueueFrames'', jnat (outbound_queue_frames l)),
      (''maxInFlightRequests'', jnat (max_in_flight_requests l)),
      (''maxPendingRequests'', jnat (max_pending_requests l)),
      (''maxItemDeltaBytes'', jnat 65536),
      (''maxInlineToolOutputBytes'', jnat 1048576),
      (''maxLogBytes'', jnat (max_log_bytes l)),
      (''defaultRequestDeadlineMs'', jnat (request_deadline_ms l)),
      (''defaultApprovalDeadlineMs'', jnat (approval_deadline_ms l))])"

lemma default_limits_valid: "limits_validate default_limits = Inr ()"
  by (simp add: limits_validate_def default_limits_def within_def min_max_frame_bytes_def
      max_max_frame_bytes_def)

subsection \<open>Frames\<close>

text \<open>\<open>Present<T>\<close>: a field that may be missing, present with a value, or present and null.\<close>

record 'a present =
  is_present :: bool
  present_value :: "'a option"

definition missing :: "'a present" where
  "missing = \<lparr>is_present = False, present_value = None\<rparr>"

definition present_some :: "'a \<Rightarrow> 'a present" where
  "present_some x = \<lparr>is_present = True, present_value = Some x\<rparr>"

definition present_null :: "'a present" where
  "present_null = \<lparr>is_present = True, present_value = None\<rparr>"

record rpc_error =
  err_code :: int
  err_message :: str
  err_data :: json

record rpc_frame =
  frame_id_opt :: "str option"
  frame_method :: "str option"
  frame_params :: "json option"
  frame_result :: "json present"
  frame_error :: "rpc_error option"

datatype frame_kind = ClientRequest | ServerRequest | Notification | Response

definition frame_id :: "rpc_frame \<Rightarrow> str" where
  "frame_id f = (case frame_id_opt f of Some i \<Rightarrow> i | None \<Rightarrow> [])"

definition opt_all :: "('a \<Rightarrow> bool) \<Rightarrow> 'a option \<Rightarrow> bool" where
  "opt_all P x = (case x of None \<Rightarrow> True | Some v \<Rightarrow> P v)"

definition opt_ex :: "('a \<Rightarrow> bool) \<Rightarrow> 'a option \<Rightarrow> bool" where
  "opt_ex P x = (case x of None \<Rightarrow> False | Some v \<Rightarrow> P v)"

lemma opt_all_simps [simp]: "opt_all P None" "opt_all P (Some v) = P v"
  by (simp_all add: opt_all_def)

lemma opt_ex_simps [simp]: "\<not> opt_ex P None" "opt_ex P (Some v) = P v"
  by (simp_all add: opt_ex_def)

lemma opt_ex_iff: "opt_ex P x \<longleftrightarrow> (\<exists>v. x = Some v \<and> P v)"
  by (cases x) auto

lemma opt_all_iff: "opt_all P x \<longleftrightarrow> (\<forall>v. x = Some v \<longrightarrow> P v)"
  by (cases x) auto

text \<open>\<open>id.split_once(':')\<close> and the checks on both sides of the colon.\<close>

definition split_once :: "char \<Rightarrow> str \<Rightarrow> (str \<times> str) option" where
  "split_once c s =
     (if c \<in> set s then Some (takeWhile (\<lambda>d. d \<noteq> c) s, tl (dropWhile (\<lambda>d. d \<noteq> c) s)) else None)"

definition id_suffix_byte :: "char \<Rightarrow> bool" where
  "id_suffix_byte c \<longleftrightarrow> is_ascii_alphanumeric c \<or> c \<in> {CHR ''.'', CHR ''_'', CHR ''-''}"

definition valid_id :: "str \<Rightarrow> bool" where
  "valid_id i \<longleftrightarrow>
     i \<noteq> [] \<and> length i \<le> max_request_id_bytes
     \<and> (case split_once CHR '':'' i of
          None \<Rightarrow> False
        | Some (pre, suf) \<Rightarrow>
            (pre = ''c'' \<or> pre = ''s'')
            \<and> suf \<noteq> [] \<and> length suf \<le> 96
            \<and> is_ascii_alphanumeric (hd suf) \<and> list_all id_suffix_byte (tl suf))"

definition valid_ja_code :: "str \<Rightarrow> bool" where
  "valid_ja_code c \<longleftrightarrow>
     c \<noteq> [] \<and> 3 \<le> length c \<and> length c \<le> 64 \<and> is_ascii_uppercase (hd c)
     \<and> list_all (\<lambda>b. is_ascii_uppercase b \<or> is_ascii_digit b \<or> b = CHR ''_'') (tl c)"

definition filter_opt :: "('a \<Rightarrow> bool) \<Rightarrow> 'a option \<Rightarrow> 'a option" where
  "filter_opt P x = (case x of Some v \<Rightarrow> if P v then Some v else None | None \<Rightarrow> None)"

lemma filter_opt_Some [simp]: "filter_opt P x = Some v \<longleftrightarrow> x = Some v \<and> P v"
  by (cases x) (auto simp: filter_opt_def)

definition error_code_range :: "int \<Rightarrow> bool" where
  "error_code_range c \<longleftrightarrow> - 32768 \<le> c \<and> c \<le> - 32000"

definition validate_error :: "rpc_error \<Rightarrow> codec_error + unit" where
  "validate_error e =
     (if \<not> error_code_range (err_code e) \<or> \<not> valid_error_message (err_message e)
      then Inl InvalidEnvelope
      else and_then (ok_or (as_object (err_data e)) InvalidEnvelope) (\<lambda>d.
        and_then (ok_or (filter_opt valid_ja_code (get_str d ''jaCode'')) InvalidErrorCatalog) (\<lambda>ja.
        and_then (ok_or (get_bool d ''retryable'') InvalidErrorCatalog) (\<lambda>retryable.
        and_then (ok_or (catalog_entry (err_code e) ja retryable) InvalidErrorCatalog) (\<lambda>_.
          Inr ())))))"

definition error_data :: "str \<Rightarrow> bool \<Rightarrow> json" where
  "error_data ja retryable =
     JObj (obj_of [(''jaCode'', JStr ja), (''retryable'', JBool retryable)])"

definition parse_error :: "obj \<Rightarrow> codec_error + rpc_error" where
  "parse_error o' =
     and_then (ok_or (filter_opt error_code_range (get_i64 o' ''code'')) InvalidEnvelope) (\<lambda>code.
     and_then (ok_or (filter_opt valid_error_message (get_str o' ''message'')) InvalidEnvelope) (\<lambda>message.
     and_then (ok_or (obj_get o' ''data'') InvalidEnvelope) (\<lambda>data.
     and_then (ok_or (as_object data) InvalidEnvelope) (\<lambda>d.
     and_then (ok_or (filter_opt valid_ja_code (get_str d ''jaCode'')) InvalidEnvelope) (\<lambda>ja.
     and_then (ok_or (get_bool d ''retryable'') InvalidEnvelope) (\<lambda>retryable.
       let e = \<lparr>err_code = code, err_message = message, err_data = error_data ja retryable\<rparr>
       in and_then (validate_error e) (\<lambda>_. Inr e)))))))"

subsection \<open>Envelope validation\<close>

definition validate :: "rpc_frame \<Rightarrow> codec_error + frame_kind" where
  "validate f =
     (if \<not> opt_all valid_id (frame_id_opt f) then Inl InvalidId
      else and_then
        (case frame_method f of None \<Rightarrow> Inr ()
         | Some m \<Rightarrow>
             if m = [] \<or> max_method_bytes < length m then Inl InvalidEnvelope
             else if \<not> opt_ex is_object (frame_params f) then Inl InvalidEnvelope
             else and_then (ok_or (frame_params f) InvalidEnvelope) (validate_ready_token_fields m))
        (\<lambda>_. and_then
          (case frame_error f of None \<Rightarrow> Inr () | Some e \<Rightarrow> validate_error e)
        (\<lambda>_.
          if opt_ex contains_token_shaped_marker (present_value (frame_result f))
             \<or> opt_ex (\<lambda>e. contains_token_shaped_marker (err_data e)) (frame_error f)
          then Inl InvalidEnvelope
          else if frame_method f = None \<and> frame_id_opt f \<noteq> None
             \<and> (is_present (frame_result f) \<noteq> (frame_error f \<noteq> None))
          then (case frame_id_opt f of
                  Some i \<Rightarrow> if starts_with i ''c:'' then Inr Response
                           else if starts_with i ''s:'' then Inr Response
                           else Inl InvalidId
                | None \<Rightarrow> Inl InvalidId)
          else if frame_method f \<noteq> None \<and> \<not> is_present (frame_result f) \<and> frame_error f = None
          then (case frame_id_opt f of
                  Some i \<Rightarrow> if starts_with i ''c:'' then Inr ClientRequest
                           else if starts_with i ''s:'' then Inr ServerRequest
                           else Inl InvalidId
                | None \<Rightarrow> Inr Notification)
          else Inl InvalidEnvelope)))"

definition new_request :: "str \<Rightarrow> str \<Rightarrow> str \<Rightarrow> json \<Rightarrow> codec_error + rpc_frame" where
  "new_request namespace i m params =
     (let f = \<lparr>frame_id_opt = Some i, frame_method = Some m, frame_params = Some params,
               frame_result = missing, frame_error = None\<rparr>
      in and_then (validate f) (\<lambda>kind.
           let expected = (if namespace = ''c:'' then ClientRequest else ServerRequest)
           in if kind \<noteq> expected then Inl InvalidId else Inr f))"

definition client_request :: "str \<Rightarrow> str \<Rightarrow> json \<Rightarrow> codec_error + rpc_frame" where
  "client_request = new_request ''c:''"

definition server_request :: "str \<Rightarrow> str \<Rightarrow> json \<Rightarrow> codec_error + rpc_frame" where
  "server_request = new_request ''s:''"

definition new_notification :: "str \<Rightarrow> json \<Rightarrow> codec_error + rpc_frame" where
  "new_notification m params =
     (let f = \<lparr>frame_id_opt = None, frame_method = Some m, frame_params = Some params,
               frame_result = missing, frame_error = None\<rparr>
      in and_then (validate f) (\<lambda>_. Inr f))"

definition response_result :: "str \<Rightarrow> json \<Rightarrow> codec_error + rpc_frame" where
  "response_result i v =
     (let f = \<lparr>frame_id_opt = Some i, frame_method = None, frame_params = None,
               frame_result = present_some v, frame_error = None\<rparr>
      in and_then (validate f) (\<lambda>_. Inr f))"

definition response_error ::
    "str \<Rightarrow> int \<Rightarrow> str \<Rightarrow> str \<Rightarrow> bool \<Rightarrow> codec_error + rpc_frame" where
  "response_error i code message ja retryable =
     (let f = \<lparr>frame_id_opt = Some i, frame_method = None, frame_params = None,
               frame_result = missing,
               frame_error = Some \<lparr>err_code = code, err_message = message,
                 err_data = error_data ja retryable\<rparr>\<rparr>
      in and_then (validate f) (\<lambda>_. Inr f))"

subsection \<open>Encoding\<close>

definition put_opt :: "str \<Rightarrow> json option \<Rightarrow> obj \<Rightarrow> obj" where
  "put_opt k v o' = (case v of None \<Rightarrow> o' | Some x \<Rightarrow> obj_insert k x o')"

definition json_of_int :: "int \<Rightarrow> json" where
  "json_of_int i = JNum (if 0 \<le> i then PosInt (nat i) else NegInt i)"

definition error_object :: "rpc_error \<Rightarrow> json" where
  "error_object e = JObj (obj_insert ''data'' (err_data e)
     (obj_insert ''message'' (JStr (err_message e))
     (obj_insert ''code'' (json_of_int (err_code e)) [])))"

definition wire_object :: "rpc_frame \<Rightarrow> obj" where
  "wire_object f =
     put_opt ''error'' (map_option error_object (frame_error f))
     (put_opt ''result'' (if is_present (frame_result f)
         then Some (case present_value (frame_result f) of Some v \<Rightarrow> v | None \<Rightarrow> JNull) else None)
     (put_opt ''params'' (frame_params f)
     (put_opt ''method'' (map_option JStr (frame_method f))
     (put_opt ''id'' (map_option JStr (frame_id_opt f))
     (obj_insert ''jsonrpc'' (JStr ''2.0'') [])))))"

definition params_status_ready :: "json option \<Rightarrow> bool" where
  "params_status_ready params \<longleftrightarrow>
     Option.bind (Option.bind params (\<lambda>p. json_get p ''status'')) as_str = Some ''ready''"

definition encode :: "(json \<Rightarrow> bytes option) \<Rightarrow> rpc_frame \<Rightarrow> nat \<Rightarrow> codec_error + bytes" where
  "encode to_vec f limit =
     and_then (validate f) (\<lambda>_.
       let v = JObj (wire_object f);
           allow = frame_method f = Some ''initialized''
             \<or> (frame_method f = Some ''runtime/statusChanged''
                \<and> params_status_ready (frame_params f))
       in and_then (reject_raw_token_markers v allow) (\<lambda>_.
            and_then (ok_or (to_vec v) InvalidJson) (\<lambda>encoded.
              if limit < length encoded then Inl (FrameTooLarge (length encoded) limit)
              else Inr (encoded @ [CHR 0x0A]))))"

subsection \<open>Decoding one frame\<close>

definition decode_id :: "obj \<Rightarrow> codec_error + str option" where
  "decode_id o' = (case obj_get o' ''id'' of
     None \<Rightarrow> Inr None
   | Some (JStr i) \<Rightarrow> if valid_id i then Inr (Some i) else Inl InvalidId
   | Some _ \<Rightarrow> Inl InvalidId)"

definition decode_method :: "obj \<Rightarrow> codec_error + str option" where
  "decode_method o' = (case obj_get o' ''method'' of
     None \<Rightarrow> Inr None
   | Some (JStr m) \<Rightarrow>
       if m \<noteq> [] \<and> length m \<le> max_method_bytes then Inr (Some m) else Inl InvalidEnvelope
   | Some _ \<Rightarrow> Inl InvalidEnvelope)"

definition decode_result :: "obj \<Rightarrow> json present" where
  "decode_result o' =
     (if obj_get o' ''result'' \<noteq> None
      then present_some (case obj_get o' ''result'' of Some v \<Rightarrow> v | None \<Rightarrow> JNull)
      else missing)"

definition decode_error :: "obj \<Rightarrow> codec_error + rpc_error option" where
  "decode_error o' = (case obj_get o' ''error'' of
     None \<Rightarrow> Inr None
   | Some (JObj e) \<Rightarrow> and_then (parse_error e) (\<lambda>e. Inr (Some e))
   | Some _ \<Rightarrow> Inl InvalidEnvelope)"

definition decode_object :: "obj \<Rightarrow> codec_error + rpc_frame" where
  "decode_object o' =
     (let meth = get_str o' ''method'';
          status = Option.bind (Option.bind (obj_get o' ''params'') as_object)
            (\<lambda>p. get_str p ''status'');
          ready_frame = (meth = Some ''runtime/statusChanged'' \<and> status = Some ''ready'');
          initialized_frame = (meth = Some ''initialized'')
      in and_then (reject_raw_token_markers (JObj o') (initialized_frame \<or> ready_frame)) (\<lambda>_.
         and_then (reject_unknown_root_token_metadata o' ready_frame) (\<lambda>_.
         if obj_get o' ''jsonrpc'' \<noteq> Some (JStr ''2.0'') then Inl InvalidEnvelope
         else and_then (decode_id o') (\<lambda>i.
              and_then (decode_method o') (\<lambda>m.
              if m \<noteq> None \<and> \<not> opt_ex is_object (obj_get o' ''params'') then Inl InvalidEnvelope
              else and_then (decode_error o') (\<lambda>e.
                let f = \<lparr>frame_id_opt = i, frame_method = m, frame_params = obj_get o' ''params'',
                         frame_result = decode_result o', frame_error = e\<rparr>
                in and_then (validate f) (\<lambda>_. Inr f)))))))"

definition decode_frame :: "(str \<Rightarrow> raw \<times> bool) \<Rightarrow> bytes \<Rightarrow> nat \<Rightarrow> codec_error + rpc_frame" where
  "decode_frame de frame limit =
     (if frame = [] then Inl UnexpectedEof
      else if last frame \<noteq> CHR 0x0A then Inl PartialFrame
      else let payload = butlast frame in
        if payload = [] then Inl EmptyFrame
        else if limit < length payload then Inl (FrameTooLarge (length payload) limit)
        else if CHR 0x0A \<in> set payload \<or> last payload = CHR 0x0D then Inl InvalidEnvelope
        else if \<not> utf8_valid payload then Inl InvalidUtf8
        else and_then (parse_strict_value de payload) (\<lambda>v.
               and_then (ok_or (as_object v) NonObject) decode_object))"

subsection \<open>Reading frames from a pipe\<close>

text \<open>
  The reader is the list of what \<open>fill_buf\<close> will deliver: a non-empty chunk of bytes, or an
  I/O failure; the empty list is the end of the stream. \<open>consume\<close> leaves the rest of a chunk
  at the head of the list.
\<close>

datatype fill = Chunk bytes | IoFail

fun push_back :: "bytes \<Rightarrow> fill list \<Rightarrow> fill list" where
  "push_back [] r = r"
| "push_back (c # cs) r = Chunk (c # cs) # r"

fun read_line :: "nat \<Rightarrow> bytes \<Rightarrow> fill list \<Rightarrow> (codec_error + bytes) \<times> fill list" where
  "read_line limit line [] =
     (Inl (if line = [] then UnexpectedEof else PartialFrame), [])"
| "read_line limit line (IoFail # r) = (Inl Io, r)"
| "read_line limit line (Chunk chunk # r) =
     (if chunk = [] then (Inl (if line = [] then UnexpectedEof else PartialFrame), r)
      else if CHR 0x0A \<in> set chunk then
        (let index = length (takeWhile (\<lambda>c. c \<noteq> CHR 0x0A) chunk);
             payload_len = sat_add (length line) index
         in if limit < payload_len then (Inl (FrameTooLarge payload_len limit), Chunk chunk # r)
            else (Inr (line @ take (Suc index) chunk), push_back (drop (Suc index) chunk) r))
      else if limit < sat_add (length line) (length chunk)
        then (Inl (FrameTooLarge (sat_add limit 1) limit), Chunk chunk # r)
      else read_line limit (line @ chunk) r)"

definition read_frame ::
    "(str \<Rightarrow> raw \<times> bool) \<Rightarrow> nat \<Rightarrow> fill list \<Rightarrow> (codec_error + rpc_frame) \<times> fill list" where
  "read_frame de limit reader = (case read_line limit [] reader of
     (Inl e, r) \<Rightarrow> (Inl e, r)
   | (Inr line, r) \<Rightarrow> (decode_frame de line limit, r))"

definition negotiate_version :: "int \<Rightarrow> int \<Rightarrow> int \<Rightarrow> int \<Rightarrow> int \<Rightarrow> int \<Rightarrow> codec_error + int" where
  "negotiate_version local_major local_minor local_minimum remote_major remote_minor remote_minimum =
     (if local_major \<noteq> remote_major then Inl InvalidEnvelope
      else let selected = min local_minor remote_minor
        in if selected < local_minimum \<or> selected < remote_minimum then Inl InvalidEnvelope
           else Inr selected)"

subsection \<open>What validation means\<close>

lemma takeWhile_tl_dropWhile:
  "c \<in> set s \<Longrightarrow> takeWhile (\<lambda>d. d \<noteq> c) s @ c # tl (dropWhile (\<lambda>d. d \<noteq> c) s) = s"
  by (induction s) auto

lemma split_once_Some: "split_once c s = Some (a, b) \<longleftrightarrow> s = a @ c # b \<and> c \<notin> set a"
proof
  assume "split_once c s = Some (a, b)"
  then have "c \<in> set s \<and> takeWhile (\<lambda>d. d \<noteq> c) s = a \<and> tl (dropWhile (\<lambda>d. d \<noteq> c) s) = b"
    by (simp add: split_once_def split: if_splits)
  then show "s = a @ c # b \<and> c \<notin> set a"
    using takeWhile_tl_dropWhile [of c s] set_takeWhileD [of c "\<lambda>d. d \<noteq> c" s] by auto
next
  assume "s = a @ c # b \<and> c \<notin> set a"
  moreover have "c \<notin> set a \<Longrightarrow> takeWhile (\<lambda>d. d \<noteq> c) (a @ c # b) = a
      \<and> dropWhile (\<lambda>d. d \<noteq> c) (a @ c # b) = c # b" for a b
    by (induction a) auto
  ultimately show "split_once c s = Some (a, b)"
    by (simp add: split_once_def)
qed

lemma valid_id_namespace: "valid_id i \<Longrightarrow> starts_with i ''c:'' \<or> starts_with i ''s:''"
  by (auto simp: valid_id_def split_once_Some starts_with_def split: option.splits)

lemma namespace_disjoint: "starts_with i ''c:'' \<Longrightarrow> \<not> starts_with i ''s:''"
  by (auto simp: starts_with_def)

text \<open>The root \<open>oneOf\<close> of the protocol schema.\<close>

inductive frame_shape :: "rpc_frame \<Rightarrow> frame_kind \<Rightarrow> bool" where
  response: "frame_method f = None \<Longrightarrow> frame_id_opt f = Some i \<Longrightarrow>
    is_present (frame_result f) \<noteq> (frame_error f \<noteq> None) \<Longrightarrow> frame_shape f Response"
| client_request: "frame_method f = Some m \<Longrightarrow> \<not> is_present (frame_result f) \<Longrightarrow>
    frame_error f = None \<Longrightarrow> frame_id_opt f = Some i \<Longrightarrow> starts_with i ''c:'' \<Longrightarrow>
    frame_shape f ClientRequest"
| server_request: "frame_method f = Some m \<Longrightarrow> \<not> is_present (frame_result f) \<Longrightarrow>
    frame_error f = None \<Longrightarrow> frame_id_opt f = Some i \<Longrightarrow> starts_with i ''s:'' \<Longrightarrow>
    frame_shape f ServerRequest"
| notification: "frame_method f = Some m \<Longrightarrow> \<not> is_present (frame_result f) \<Longrightarrow>
    frame_error f = None \<Longrightarrow> frame_id_opt f = None \<Longrightarrow> frame_shape f Notification"

inductive_cases response_shapeE: "frame_shape f Response"
inductive_cases notification_shapeE: "frame_shape f Notification"
inductive_simps frame_shape_iff: "frame_shape f k"

definition request_ok :: "rpc_frame \<Rightarrow> bool" where
  "request_ok f \<longleftrightarrow> opt_all (\<lambda>m. m \<noteq> [] \<and> length m \<le> max_method_bytes
     \<and> opt_ex (\<lambda>p. is_object p \<and> validate_ready_token_fields m p = Inr ()) (frame_params f))
     (frame_method f)"

definition results_unmarked :: "rpc_frame \<Rightarrow> bool" where
  "results_unmarked f \<longleftrightarrow>
     \<not> opt_ex contains_token_shaped_marker (present_value (frame_result f))
     \<and> \<not> opt_ex (\<lambda>e. contains_token_shaped_marker (err_data e)) (frame_error f)"

lemma validate_iff:
  "validate f = Inr k \<longleftrightarrow>
     opt_all valid_id (frame_id_opt f) \<and> request_ok f
     \<and> opt_all (\<lambda>e. validate_error e = Inr ()) (frame_error f)
     \<and> results_unmarked f \<and> frame_shape f k"
proof (cases "opt_all valid_id (frame_id_opt f)")
  case True
  have shape: "(if frame_method f = None \<and> frame_id_opt f \<noteq> None
             \<and> (is_present (frame_result f) \<noteq> (frame_error f \<noteq> None))
          then (case frame_id_opt f of
                  Some i \<Rightarrow> if starts_with i ''c:'' then Inr Response
                           else if starts_with i ''s:'' then Inr Response
                           else Inl InvalidId
                | None \<Rightarrow> Inl InvalidId)
          else if frame_method f \<noteq> None \<and> \<not> is_present (frame_result f) \<and> frame_error f = None
          then (case frame_id_opt f of
                  Some i \<Rightarrow> if starts_with i ''c:'' then Inr ClientRequest
                           else if starts_with i ''s:'' then Inr ServerRequest
                           else Inl InvalidId
                | None \<Rightarrow> Inr Notification)
          else Inl InvalidEnvelope) = Inr k \<longleftrightarrow> frame_shape f k"
    using True
    by (cases "frame_id_opt f"; cases "frame_method f"; cases k)
       (auto simp: frame_shape_iff dest: valid_id_namespace namespace_disjoint)
  have req: "(case frame_method f of None \<Rightarrow> Inr ()
         | Some m \<Rightarrow>
             if m = [] \<or> max_method_bytes < length m then Inl InvalidEnvelope
             else if \<not> opt_ex is_object (frame_params f) then Inl InvalidEnvelope
             else and_then (ok_or (frame_params f) InvalidEnvelope) (validate_ready_token_fields m))
      = Inr () \<longleftrightarrow> request_ok f"
    by (cases "frame_method f"; cases "frame_params f") (auto simp: request_ok_def)
  have err: "(case frame_error f of None \<Rightarrow> Inr () | Some e \<Rightarrow> validate_error e) = Inr ()
      \<longleftrightarrow> opt_all (\<lambda>e. validate_error e = Inr ()) (frame_error f)"
    by (cases "frame_error f") auto
  show ?thesis
    unfolding validate_def and_then_Inr
    using True by (simp add: req err shape [symmetric] and_then_Inr results_unmarked_def)
qed (simp add: validate_def)

subsection \<open>Chunks of the pipe\<close>

fun flat :: "fill list \<Rightarrow> bytes" where
  "flat [] = []"
| "flat (Chunk c # r) = c @ flat r"
| "flat (IoFail # r) = []"

fun healthy :: "fill list \<Rightarrow> bool" where
  "healthy [] = True"
| "healthy (Chunk c # r) \<longleftrightarrow> c \<noteq> [] \<and> healthy r"
| "healthy (IoFail # r) = False"

text \<open>The first line of a byte stream, whatever pipe reads deliver it.\<close>

definition first_line :: "nat \<Rightarrow> bytes \<Rightarrow> codec_error + bytes" where
  "first_line limit bs =
     (let n = length (takeWhile (\<lambda>c. c \<noteq> CHR 0x0A) bs)
      in if limit < n then Inl (FrameTooLarge 0 limit)
         else if n < length bs then Inr (take (Suc n) bs)
         else Inl (if bs = [] then UnexpectedEof else PartialFrame))"

text \<open>\<open>FrameTooLarge\<close> reports what had been seen when the limit was passed; \<open>blur\<close> forgets it.\<close>

fun blur :: "codec_error + 'a \<Rightarrow> codec_error + 'a" where
  "blur (Inl (FrameTooLarge a m)) = Inl (FrameTooLarge 0 m)"
| "blur r = r"

lemma takeWhile_length_less: "(length (takeWhile P xs) < length xs) = (\<exists>x \<in> set xs. \<not> P x)"
  by (induction xs) auto

lemma flat_push_back [simp]: "flat (push_back c r) = c @ flat r"
  by (cases c) auto

lemma healthy_push_back [simp]: "healthy r \<Longrightarrow> healthy (push_back c r)"
  by (cases c) auto

lemma read_line_first_line:
  assumes "healthy reader" and "limit < usize_max" and "length line \<le> limit"
    and "CHR 0x0A \<notin> set line"
  shows "blur (fst (read_line limit line reader)) = first_line limit (line @ flat reader)"
  using assms
proof (induction limit line reader rule: read_line.induct)
  case (1 limit line)
  then have "length (takeWhile (\<lambda>c. c \<noteq> CHR 0x0A) line) = length line"
    by (induction line) auto
  with 1(3) show ?case by (simp add: first_line_def Let_def)
next
  case (3 limit line chunk r)
  have skip: "takeWhile (\<lambda>c. c \<noteq> CHR 0x0A) (line @ ys)
      = line @ takeWhile (\<lambda>c. c \<noteq> CHR 0x0A) ys" for ys
    using 3(5) by (induction line) auto
  have ne: "chunk \<noteq> []" using 3(2) by simp
  show ?case
  proof (cases "CHR 0x0A \<in> set chunk")
    case True
    let ?n = "length (takeWhile (\<lambda>c. c \<noteq> CHR 0x0A) chunk)"
    have here: "takeWhile (\<lambda>c. c \<noteq> CHR 0x0A) (chunk @ flat r)
        = takeWhile (\<lambda>c. c \<noteq> CHR 0x0A) chunk"
      using True by (metis (mono_tags, lifting) takeWhile_append1)
    have "?n < length chunk"
      using True by (auto simp: takeWhile_length_less)
    then show ?thesis
      using True ne 3(3)
      by (simp add: first_line_def Let_def skip here sat_add_less_iff)
  next
    case False
    have past: "takeWhile (\<lambda>c. c \<noteq> CHR 0x0A) (chunk @ flat r)
        = chunk @ takeWhile (\<lambda>c. c \<noteq> CHR 0x0A) (flat r)"
      using False by (induction chunk) auto
    show ?thesis
    proof (cases "limit < length line + length chunk")
      case True
      then show ?thesis
        using False ne 3(3)
        by (simp add: first_line_def Let_def skip past sat_add_less_iff)
    next
      case small: False
      then have "\<not> limit < sat_add (length line) (length chunk)"
        using 3(3) by (simp add: sat_add_less_iff)
      then show ?thesis
        using 3(1) [OF ne False] 3(2-5) small False ne by simp
    qed
  qed
qed simp

lemma read_line_rest:
  assumes "read_line limit line reader = (Inr l, r)" and "healthy reader"
  shows "l @ flat r = line @ flat reader \<and> healthy r"
  using assms
proof (induction limit line reader rule: read_line.induct)
  case (3 limit line chunk r')
  show ?case
  proof (cases "CHR 0x0A \<in> set chunk")
    case True
    with 3(2,3) show ?thesis by (auto simp: Let_def split: if_splits)
  next
    case False
    with 3(2,3) have "read_line limit (line @ chunk) r' = (Inr l, r)"
      and "\<not> limit < sat_add (length line) (length chunk)" and "chunk \<noteq> []" and "healthy r'"
      by (auto split: if_splits)
    with 3(1) False show ?thesis by simp
  qed
qed auto

text \<open>One frame after another: \<open>k\<close> calls of \<open>read_frame\<close>, stopping at the first error.\<close>

fun read_frames ::
    "(str \<Rightarrow> raw \<times> bool) \<Rightarrow> nat \<Rightarrow> nat \<Rightarrow> fill list \<Rightarrow> (codec_error + rpc_frame) list" where
  "read_frames de limit 0 reader = []"
| "read_frames de limit (Suc k) reader =
     (case read_frame de limit reader of (r, rest) \<Rightarrow>
        blur r # (if is_ok r then read_frames de limit k rest else []))"

lemma read_frame_chunking:
  assumes "healthy r1" and "healthy r2" and "flat r1 = flat r2" and "limit < usize_max"
  shows "blur (fst (read_frame de limit r1)) = blur (fst (read_frame de limit r2))
    \<and> (is_ok (fst (read_frame de limit r1)) \<longrightarrow>
        healthy (snd (read_frame de limit r1)) \<and> healthy (snd (read_frame de limit r2))
        \<and> flat (snd (read_frame de limit r1)) = flat (snd (read_frame de limit r2)))"
proof -
  obtain x1 s1 where 1: "read_line limit [] r1 = (x1, s1)" by fastforce
  obtain x2 s2 where 2: "read_line limit [] r2 = (x2, s2)" by fastforce
  have "blur x1 = blur x2"
    using read_line_first_line [OF assms(1) assms(4), of "[]"]
      read_line_first_line [OF assms(2) assms(4), of "[]"] assms(3) 1 2 by simp
  moreover have "blur x = Inr l \<longleftrightarrow> x = Inr l" for x and l :: bytes
    by (cases x rule: blur.cases) auto
  ultimately have same: "x1 = Inr l \<longleftrightarrow> x2 = Inr l" for l
    by metis
  show ?thesis
  proof (cases x1)
    case (Inr l)
    then have "x2 = Inr l" using same [of l] by simp
    with Inr 1 2 read_line_rest [of limit "[]" r1 l s1] read_line_rest [of limit "[]" r2 l s2] assms
    have "healthy s1 \<and> healthy s2 \<and> l @ flat s1 = l @ flat s2" by simp
    with Inr \<open>x2 = Inr l\<close> 1 2 show ?thesis by (simp add: read_frame_def)
  next
    case (Inl e)
    then obtain e' where "x2 = Inl e'"
      using same by (cases x2) auto
    with Inl 1 2 \<open>blur x1 = blur x2\<close> show ?thesis
      by (cases "e" ; cases "e'") (simp_all add: read_frame_def)
  qed
qed

lemma is_ok_blur: "blur r = blur r' \<Longrightarrow> is_ok r = is_ok r'"
  by (cases r rule: blur.cases; cases r' rule: blur.cases) auto

text \<open>
  C39. The frames a sidecar's output is read as do not depend on how the pipe cuts it into
  reads: two healthy readers that deliver the same bytes give the same sequence of frames and
  the same final error (up to the byte count inside \<open>FrameTooLarge\<close>).
\<close>

theorem read_frames_chunk_independent:
  assumes "healthy r1" and "healthy r2" and "flat r1 = flat r2" and "limit < usize_max"
  shows "read_frames de limit k r1 = read_frames de limit k r2"
  using assms
proof (induction k arbitrary: r1 r2)
  case (Suc k)
  obtain x1 s1 where 1: "read_frame de limit r1 = (x1, s1)" by fastforce
  obtain x2 s2 where 2: "read_frame de limit r2 = (x2, s2)" by fastforce
  show ?case
    using read_frame_chunking [OF Suc.prems, of de] Suc.IH [of s1 s2] Suc.prems(4) 1 2
      is_ok_blur [of x1 x2]
    by auto
qed simp

theorem read_frames_chunk_independent_witness:
  "read_frames (\<lambda>_. (RFail, True)) 8 2 [Chunk ''{'', Chunk [CHR 0x0A, CHR ''x'']]
     = read_frames (\<lambda>_. (RFail, True)) 8 2 [Chunk [CHR ''{'', CHR 0x0A, CHR ''x'']]"
  by (rule read_frames_chunk_independent) (simp_all add: usize_max_def)

subsection \<open>Round trip\<close>

text \<open>
  What a constructor or the decoder builds: values in memory, a result that is present with a
  value or missing, and an error whose data is the two-member projection.
\<close>

definition canonical :: "rpc_frame \<Rightarrow> bool" where
  "canonical f \<longleftrightarrow>
     opt_all wf_json (frame_params f)
     \<and> (frame_result f = missing \<or> (\<exists>v. frame_result f = present_some v \<and> wf_json v))
     \<and> opt_all (\<lambda>e. \<exists>ja r. err_data e = error_data ja r) (frame_error f)"

text \<open>The documented contract of serde_json's printer and parser on values in memory.\<close>

definition prints :: "(json \<Rightarrow> bytes option) \<Rightarrow> (str \<Rightarrow> raw \<times> bool) \<Rightarrow> json \<Rightarrow> bool" where
  "prints to_vec de v \<longleftrightarrow>
     opt_all (\<lambda>b. b \<noteq> [] \<and> CHR 0x0A \<notin> set b \<and> last b \<noteq> CHR 0x0D \<and> utf8_valid b
       \<and> de b = (raw_of v, True)) (to_vec v)"

lemma obj_get_put_opt [simp]:
  "obj_get (put_opt k v o') k' = (if k' = k \<and> v \<noteq> None then v else obj_get o' k')"
  by (cases v) (auto simp: put_opt_def obj_get_insert)

lemma wf_json_empty: "wf_json (JObj [])"
  by simp

lemma wire_object_get:
  "obj_get (wire_object f) ''jsonrpc'' = Some (JStr ''2.0'')"
  "obj_get (wire_object f) ''id'' = map_option JStr (frame_id_opt f)"
  "obj_get (wire_object f) ''method'' = map_option JStr (frame_method f)"
  "obj_get (wire_object f) ''params'' = frame_params f"
  "obj_get (wire_object f) ''result'' = (if is_present (frame_result f)
     then Some (case present_value (frame_result f) of Some v \<Rightarrow> v | None \<Rightarrow> JNull) else None)"
  "obj_get (wire_object f) ''error'' = map_option error_object (frame_error f)"
  by (simp_all add: wire_object_def obj_get_insert)

lemma keys_put_opt: "fst ` set (put_opt k v o') \<subseteq> insert k (fst ` set o')"
  by (cases v) (auto simp: put_opt_def keys_obj_insert)

lemma keys_wire_object: "fst ` set (wire_object f) \<subseteq> set known_roots"
proof -
  have "fst ` set (put_opt k v o') \<subseteq> S" if "k \<in> S" "fst ` set o' \<subseteq> S" for k v o' S
    using that keys_put_opt by blast
  then show ?thesis
    unfolding wire_object_def
    by (intro \<open>\<And>k v o' S. k \<in> S \<Longrightarrow> fst ` set o' \<subseteq> S \<Longrightarrow> fst ` set (put_opt k v o') \<subseteq> S\<close>)
       (simp_all add: known_roots_def)
qed

lemma wf_obj_insert:
  "wf_json (JObj o') \<Longrightarrow> wf_json v \<Longrightarrow> wf_json (JObj (obj_insert k v o'))"
  using set_obj_insert [of k v o'] by (auto simp: sorted_obj_insert list_all_iff)

lemma wf_put_opt:
  "wf_json (JObj o') \<Longrightarrow> opt_all wf_json v \<Longrightarrow> wf_json (JObj (put_opt k v o'))"
  by (cases v) (auto simp: put_opt_def simp del: wf_json.simps intro: wf_obj_insert)

lemma wf_error_data [simp]: "wf_json (error_data ja r)"
  by (simp add: error_data_def obj_of_def)

lemma wf_error_object: "wf_json (err_data e) \<Longrightarrow> wf_json (error_object e)"
  unfolding error_object_def
  by (intro wf_obj_insert) (simp_all add: json_of_int_def)

lemma wf_wire_object: "canonical f \<Longrightarrow> wf_json (JObj (wire_object f))"
  unfolding wire_object_def
  by (intro wf_put_opt wf_obj_insert)
     (auto simp: canonical_def opt_all_iff missing_def present_some_def
        simp del: wf_json.simps(1) intro!: wf_error_object wf_json_empty)

text \<open>The audit's exception is granted to the same frames on both sides.\<close>

lemma error_object_parse:
  assumes "validate_error e = Inr ()" and "err_data e = error_data ja r"
  shows "\<exists>o'. error_object e = JObj o' \<and> parse_error o' = Inr e"
proof -
  define o' where "o' = obj_insert ''data'' (err_data e)
    (obj_insert ''message'' (JStr (err_message e)) (obj_insert ''code'' (json_of_int (err_code e)) []))"
  define d where "d = obj_of [(''jaCode'', JStr ja), (''retryable'', JBool r)]"
  have range: "error_code_range (err_code e)" and msg: "valid_error_message (err_message e)"
    using assms(1) by (auto simp: validate_error_def split: if_splits)
  have code: "get_i64 o' ''code'' = Some (err_code e)"
    using range by (simp add: o'_def get_i64_def json_of_int_def error_code_range_def)
  have message: "get_str o' ''message'' = Some (err_message e)"
    by (simp add: o'_def get_str_def)
  have data: "obj_get o' ''data'' = Some (error_data ja r)"
    by (simp add: o'_def assms(2))
  have d: "as_object (error_data ja r) = Some d"
    by (simp add: error_data_def d_def)
  have ja: "get_str d ''jaCode'' = Some ja" and re: "get_bool d ''retryable'' = Some r"
    by (simp_all add: d_def get_str_def get_bool_def obj_of_def)
  have "valid_ja_code ja"
    using assms(1) d ja
    by (auto simp: validate_error_def assms(2) result_iff simp del: as_object_Some split: if_splits)
  moreover have "\<lparr>err_code = err_code e, err_message = err_message e, err_data = error_data ja r\<rparr> = e"
    by (cases e) (use assms(2) in simp)
  ultimately have "parse_error o' = Inr e"
    using range msg assms(1)
    by (simp add: parse_error_def code message data d ja re filter_opt_def Let_def
        del: as_object_Some)
  then show ?thesis by (simp add: error_object_def o'_def)
qed

lemma decode_object_wire:
  assumes "validate f = Inr k" and "canonical f"
    and "reject_raw_token_markers (JObj (wire_object f))
      (frame_method f = Some ''initialized'' \<or> (frame_method f = Some ''runtime/statusChanged''
         \<and> params_status_ready (frame_params f))) = Inr ()"
  shows "decode_object (wire_object f) = Inr f"
proof -
  let ?o = "wire_object f"
  have ids: "opt_all valid_id (frame_id_opt f)" and req: "request_ok f"
    and err: "opt_all (\<lambda>e. validate_error e = Inr ()) (frame_error f)"
    using assms(1) by (simp_all add: validate_iff)
  have meth: "get_str ?o ''method'' = frame_method f"
    by (cases "frame_method f") (simp_all add: get_str_def wire_object_get)
  have status: "frame_method f = Some m \<Longrightarrow>
      Option.bind (Option.bind (frame_params f) as_object) (\<lambda>p. get_str p ''status'') = Some ''ready''
        \<longleftrightarrow> params_status_ready (frame_params f)" for m
    using req by (auto simp: request_ok_def opt_ex_iff is_object_iff params_status_ready_def
        get_str_def)
  have id: "decode_id ?o = Inr (frame_id_opt f)"
    using ids by (cases "frame_id_opt f") (simp_all add: decode_id_def wire_object_get)
  have m: "decode_method ?o = Inr (frame_method f)"
    using req by (cases "frame_method f") (simp_all add: decode_method_def wire_object_get request_ok_def)
  have r: "decode_result ?o = frame_result f"
    using assms(2)
    by (auto simp: canonical_def decode_result_def wire_object_get missing_def present_some_def)
  have e: "decode_error ?o = Inr (frame_error f)"
  proof (cases "frame_error f")
    case (Some e)
    then obtain ja r where "err_data e = error_data ja r"
      using assms(2) by (auto simp: canonical_def)
    then obtain o' where "error_object e = JObj o'" and "parse_error o' = Inr e"
      using error_object_parse err Some by force
    with Some show ?thesis by (simp add: decode_error_def wire_object_get)
  qed (simp add: decode_error_def wire_object_get)
  have obj: "frame_method f \<noteq> None \<Longrightarrow> opt_ex is_object (frame_params f)"
    using req by (auto simp: request_ok_def opt_ex_iff)
  have known: "reject_unknown_root_token_metadata ?o b = Inr ()" for b
    using keys_wire_object [of f]
    by (auto simp: reject_unknown_root_token_metadata_def for_each_Inr)
  have allow: "(frame_method f = Some ''initialized'' \<or> (frame_method f = Some ''runtime/statusChanged''
        \<and> Option.bind (Option.bind (frame_params f) as_object) (\<lambda>p. get_str p ''status'') = Some ''ready''))
      \<longleftrightarrow> (frame_method f = Some ''initialized'' \<or> (frame_method f = Some ''runtime/statusChanged''
        \<and> params_status_ready (frame_params f)))"
    using status by blast
  have eta: "\<lparr>frame_id_opt = frame_id_opt f, frame_method = frame_method f,
      frame_params = frame_params f, frame_result = frame_result f, frame_error = frame_error f\<rparr> = f"
    by (cases f) simp
  have guard: "\<not> (frame_method f \<noteq> None \<and> \<not> opt_ex is_object (frame_params f))"
    using obj by blast
  show ?thesis
    unfolding decode_object_def Let_def meth wire_object_get(4) allow assms(3)
    by (simp only: known id m r e wire_object_get eta assms(1) guard and_then_simps if_False
        simp_thms)
qed

text \<open>
  C38. Encoding and decoding are inverse: a frame the host builds or has decoded, printed as
  JSONL within the limit, is read back as the same frame, whatever the kind (request,
  notification, result, error), provided serde_json's parser reads what its printer wrote.
\<close>

theorem decode_encode:
  assumes "canonical f" and "encode to_vec f limit = Inr b"
    and "prints to_vec de (JObj (wire_object f))"
  shows "decode_frame de b limit = Inr f"
proof -
  from assms(2) obtain k payload where k: "validate f = Inr k"
    and audit: "reject_raw_token_markers (JObj (wire_object f))
      (frame_method f = Some ''initialized'' \<or> (frame_method f = Some ''runtime/statusChanged''
         \<and> params_status_ready (frame_params f))) = Inr ()"
    and payload: "to_vec (JObj (wire_object f)) = Some payload"
    and len: "\<not> limit < length payload" and b: "b = payload @ [CHR 0x0A]"
    unfolding encode_def Let_def result_iff by auto
  have "visit (raw_of (JObj (wire_object f))) = Inr (JObj (wire_object f))"
    by (rule visit_raw_of [OF wf_wire_object [OF assms(1)]])
  then have "parse_strict_value de payload = Inr (JObj (wire_object f))"
    using assms(3) payload by (simp add: prints_def parse_strict_value_def del: raw_of.simps)
  then show ?thesis
    using assms(3) payload len decode_object_wire [OF k assms(1) audit]
    by (simp add: decode_frame_def b prints_def)
qed

definition sample_notification :: rpc_frame where
  "sample_notification = \<lparr>frame_id_opt = None, frame_method = Some ''turn/cancel'',
     frame_params = Some (JObj []), frame_result = missing, frame_error = None\<rparr>"

definition sample_text :: bytes where
  "sample_text = concat [''{'', [CHR 0x22], ''jsonrpc'', [CHR 0x22], '':'', [CHR 0x22], ''2.0'',
     [CHR 0x22], '','', [CHR 0x22], ''method'', [CHR 0x22], '':'', [CHR 0x22], ''turn/cancel'',
     [CHR 0x22], '','', [CHR 0x22], ''params'', [CHR 0x22], '':{}}'']"

lemma sample_wire: "wire_object sample_notification =
    [(''jsonrpc'', JStr ''2.0''), (''method'', JStr ''turn/cancel''), (''params'', JObj [])]"
  by (simp add: wire_object_def sample_notification_def put_opt_def missing_def)

lemma sample_encodes:
  "encode (\<lambda>_. Some sample_text) sample_notification 1024 = Inr (sample_text @ [CHR 0x0A])"
  unfolding encode_def Let_def sample_wire
  by (simp add: validate_def sample_notification_def max_method_bytes_def missing_def
      validate_ready_token_fields_def reject_raw_token_markers_def sample_text_def
      is_ready_token_key_def is_token_shaped_def eq_ignore_ascii_case_def
      to_ascii_lowercase_def ready_token_field_def byte_defs)

theorem decode_encode_witness:
  "decode_frame (\<lambda>_. (raw_of (JObj (wire_object sample_notification)), True))
     (sample_text @ [CHR 0x0A]) 1024 = Inr sample_notification"
  by (rule decode_encode [OF _ sample_encodes])
     (simp_all add: canonical_def sample_notification_def prints_def sample_text_def)

subsection \<open>The challenge stays in its two places\<close>

lemma ready_fields_erased:
  assumes "validate_ready_token_fields m p = Inr ()" and "contains_token_shaped_marker p"
  shows "(m = ''initialized'' \<or> m = ''runtime/statusChanged'' \<and> params_status_ready (Some p))
    \<and> \<not> contains_token_shaped_marker (erase_member ready_token_field p)"
proof -
  obtain o' where p: "p = JObj o'" and rest: "validate_ready_token_fields m (JObj o') = Inr ()"
    using assms(1) by (auto simp: validate_ready_token_fields_def result_iff)
  consider (init) "m = ''initialized''"
    | (ready) "m \<noteq> ''initialized''" "m = ''runtime/statusChanged''" "get_str o' ''status'' = Some ''ready''"
    using rest assms(2) p by (auto simp: validate_ready_token_fields_def split: if_splits)
  then show ?thesis
  proof cases
    case init
    then obtain t where "length o' = 1" and "get_str o' ready_token_field = Some t"
      using rest by (auto simp: validate_ready_token_fields_def require_Inr split: option.splits)
    then have "filter (\<lambda>q. fst q \<noteq> ready_token_field) o' = []"
      by (cases o') (auto simp: get_str_def split: if_splits bind_splits)
    with init show ?thesis by (simp add: p erase_member_def)
  next
    case ready
    then have "\<forall>q \<in> set o'. fst q \<noteq> ready_token_field \<longrightarrow> \<not> is_ready_token_key (fst q)
        \<and> \<not> is_token_shaped (fst q) \<and> \<not> contains_token_shaped_marker (snd q)"
      using rest by (fastforce simp: validate_ready_token_fields_def result_iff split: if_splits)
    then show ?thesis
      using ready
      by (auto simp: p erase_member_def list_ex_iff params_status_ready_def get_str_def)
  qed
qed

text \<open>
  A frame that passes validation carries a challenge-shaped text or key at most in one
  place: the \<open>readyToken\<close> member of the params of \<open>initialized\<close> or of a ready
  \<open>runtime/statusChanged\<close>. The rest of those params, and every other params, result and error
  data, have none.
\<close>

theorem validated_frame_no_challenge:
  assumes "validate f = Inr k"
  shows "results_unmarked f
    \<and> (\<forall>m p. frame_method f = Some m \<longrightarrow> frame_params f = Some p
        \<longrightarrow> contains_token_shaped_marker p
        \<longrightarrow> (m = ''initialized'' \<or> m = ''runtime/statusChanged'' \<and> params_status_ready (Some p))
          \<and> \<not> contains_token_shaped_marker (erase_member ready_token_field p))"
proof -
  have "results_unmarked f" and "request_ok f"
    using assms by (simp_all add: validate_iff)
  moreover have "frame_method f = Some m \<Longrightarrow> frame_params f = Some p
      \<Longrightarrow> validate_ready_token_fields m p = Inr ()" for m p
    using \<open>request_ok f\<close> by (auto simp: request_ok_def)
  ultimately show ?thesis
    by (intro conjI allI impI) (metis ready_fields_erased)+
qed

theorem validated_frame_no_challenge_witness: "results_unmarked sample_notification"
proof -
  have "validate sample_notification = Inr Notification"
    by (simp add: validate_def sample_notification_def max_method_bytes_def missing_def
        validate_ready_token_fields_def)
  then show ?thesis using validated_frame_no_challenge by blast
qed

lemma erase_member_marker:
  "contains_token_shaped_marker (erase_member k v) \<Longrightarrow> contains_token_shaped_marker v"
proof (cases v)
  case (JObj ps)
  assume "contains_token_shaped_marker (erase_member k v)"
  then show ?thesis
    by (simp add: JObj erase_member_def list_ex_filter) (unfold list_ex_iff, blast)
qed (simp_all add: erase_member_def)

lemma erase_challenge_marker:
  assumes "contains_token_shaped_marker (JObj (erase_challenge o'))"
  shows "contains_token_shaped_marker (JObj o')"
proof -
  let ?e = "\<lambda>p. if fst p = ''params'' then (fst p, erase_member ready_token_field (snd p)) else p"
  obtain p where "p \<in> set o'" and "is_ready_token_key (fst (?e p)) \<or> is_token_shaped (fst (?e p))
      \<or> contains_token_shaped_marker (snd (?e p))"
    using assms
    unfolding erase_challenge_def contains_token_shaped_marker.simps list_ex_iff set_map bex_simps
    by blast
  then have "is_ready_token_key (fst p) \<or> is_token_shaped (fst p)
      \<or> contains_token_shaped_marker (snd p)"
    using erase_member_marker [of ready_token_field "snd p"] by (cases "fst p = ''params''") auto
  with \<open>p \<in> set o'\<close> show ?thesis
    unfolding contains_token_shaped_marker.simps list_ex_iff by blast
qed

lemma audit_plain:
  assumes "\<not> raw_marker allow [] v" and "\<not> allow"
  shows "\<not> contains_token_shaped_marker v"
  using assms raw_marker_plain [of allow "[]" v] by (simp only:) simp

lemma audit_erased:
  assumes "\<not> raw_marker allow [] (JObj o')"
  shows "\<not> contains_token_shaped_marker (JObj (erase_challenge o'))"
proof (cases allow)
  case True
  then have allow: "allow = True" by simp
  have "\<not> raw_marker True [] (JObj o')" using assms unfolding allow by assumption
  then show ?thesis unfolding raw_marker_erase by assumption
next
  case False
  show ?thesis
    by (rule contrapos_nn [OF audit_plain [OF assms False] erase_challenge_marker])
qed



lemma negotiate_version_Inr:
  "negotiate_version lM lm ll rM rm rl = Inr s \<longleftrightarrow>
     lM = rM \<and> s = min lm rm \<and> ll \<le> s \<and> rl \<le> s"
  by (auto simp: negotiate_version_def Let_def)

lemma negotiate_version_symmetric:
  "negotiate_version lM lm ll rM rm rl = negotiate_version rM rm rl lM lm ll"
  by (auto simp: negotiate_version_def Let_def min.commute)

end
