(* ===== verification/Ja_Handshake.thy ===== *)
theory Ja_Handshake
  imports Ja_Codec
begin

text \<open>
  The initialize handshake and configuration checks (\<open>agent_process/handshake.rs\<close>). The
  16 random bytes of the operating system are an argument of \<open>generate_ready_token\<close>, the
  clock reading one of \<open>checked_deadline\<close>.
\<close>

subsection \<open>Names and markers\<close>

definition allowed_env_names :: "str list" where
  "allowed_env_names =
     [''JA_LOG_LEVEL'', ''JA_DATA_DIR'', ''RUST_LOG'', ''LANG'', ''LC_ALL'', ''TMPDIR'',
      ''SystemRoot'', ''PATH'', ''ComSpec'', ''SystemDrive'', ''WINDIR'', ''TEMP'', ''TMP'']"

definition allowed_env_name :: "str \<Rightarrow> bool" where
  "allowed_env_name n \<longleftrightarrow> n \<in> set allowed_env_names"

definition contains_secret_marker :: "str \<Rightarrow> bool" where
  "contains_secret_marker v \<longleftrightarrow> list_ex (contains_str (to_ascii_lowercase v))
     [''secret'', ''token'', ''password'', ''api_key'', ''apikey'', ''bearer'', ''cookie'']"

definition valid_schema_id :: "str \<Rightarrow> str \<Rightarrow> nat \<Rightarrow> bool" where
  "valid_schema_id v pre max_len =
     (case strip_prefix v pre of
        None \<Rightarrow> False
      | Some suf \<Rightarrow>
          \<not> (max_len < length v \<or> suf = [] \<or> 96 < length suf)
          \<and> is_ascii_alphanumeric (hd suf) \<and> list_all id_suffix_byte (tl suf))"

definition valid_version :: "str \<Rightarrow> bool" where
  "valid_version v \<longleftrightarrow>
     v \<noteq> [] \<and> length v \<le> 128 \<and> is_ascii_alphanumeric (hd v)
     \<and> list_all (\<lambda>c. is_ascii_alphanumeric c
         \<or> c \<in> {CHR ''.'', CHR ''_'', CHR ''-'', CHR ''+''}) (tl v)"

definition bounded_string :: "json option \<Rightarrow> nat \<Rightarrow> bool" where
  "bounded_string v max_len = opt_ex (\<lambda>t. t \<noteq> [] \<and> length t \<le> max_len) (Option.bind v as_str)"

subsection \<open>Capabilities and limits\<close>

fun check_items :: "nat \<Rightarrow> str list option \<Rightarrow> str set \<Rightarrow> json list \<Rightarrow> agent_error + unit" where
  "check_items max_len allowed unique [] = Inr ()"
| "check_items max_len allowed unique (v # vs) =
     (case as_str v of
        None \<Rightarrow> Inl ProtocolFault
      | Some item \<Rightarrow>
          if item = [] \<or> max_len < length item \<or> item \<in> unique
             \<or> opt_ex (\<lambda>choices. item \<notin> set choices) allowed
          then Inl ProtocolFault
          else check_items max_len allowed (insert item unique) vs)"

definition validate_string_array ::
    "json option \<Rightarrow> nat \<Rightarrow> nat \<Rightarrow> str list option \<Rightarrow> agent_error + unit" where
  "validate_string_array v max_items max_len allowed =
     (case Option.bind v as_array of
        None \<Rightarrow> Inl ProtocolFault
      | Some vs \<Rightarrow>
          if vs = [] then Inr ()
          else if max_items < length vs then Inl ProtocolFault
          else check_items max_len allowed {} vs)"

definition access_modes :: "str list" where
  "access_modes = [''read_only'', ''workspace'', ''full_access'']"

definition validate_capabilities :: "json option \<Rightarrow> agent_error + unit" where
  "validate_capabilities v =
     (case Option.bind v as_object of
        None \<Rightarrow> Inl ProtocolFault
      | Some o' \<Rightarrow>
          and_then (validate_string_array (obj_get o' ''methods'') 256 128 None) (\<lambda>_.
          and_then (validate_string_array (obj_get o' ''events'') 256 128 None) (\<lambda>_.
          and_then (validate_string_array (obj_get o' ''accessModes'') 3 32 (Some access_modes)) (\<lambda>_.
          and_then (validate_string_array (obj_get o' ''itemKinds'') 64 64 None) (\<lambda>_.
          case Option.bind (obj_get o' ''mcp'') as_object of
            None \<Rightarrow> Inl ProtocolFault
          | Some mcp \<Rightarrow>
              and_then (validate_string_array (obj_get mcp ''protocolVersions'') 16 32 None) (\<lambda>_.
              and_then (validate_string_array (obj_get mcp ''transports'') 2 32
                (Some [''stdio'', ''streamable_http''])) (\<lambda>_.
              and_then (validate_string_array (obj_get mcp ''features'') 2 32
                (Some [''tools_list'', ''tools_call''])) (\<lambda>_. Inr ()))))))))"

definition validate_remote_limits :: "json option \<Rightarrow> limits \<Rightarrow> agent_error + unit" where
  "validate_remote_limits v l =
     (case Option.bind v as_object of
        None \<Rightarrow> Inl ProtocolFault
      | Some o' \<Rightarrow>
          let number = \<lambda>k. get_u64 o' k;
              number_usize = \<lambda>k. ok_or (filter_opt (\<lambda>n. n \<le> usize_max) (number k)) ProtocolFault
          in
          and_then (number_usize ''maxFrameBytes'') (\<lambda>max_frame.
          and_then (number_usize ''maxInboundQueueFrames'') (\<lambda>inbound.
          and_then (number_usize ''maxOutboundQueueFrames'') (\<lambda>outbound.
          and_then (number_usize ''maxInFlightRequests'') (\<lambda>in_flight.
          and_then (number_usize ''maxPendingRequests'') (\<lambda>pending.
          and_then (ok_or (number ''maxItemDeltaBytes'') ProtocolFault) (\<lambda>item_delta.
          and_then (ok_or (number ''maxInlineToolOutputBytes'') ProtocolFault) (\<lambda>inline_output.
          and_then (ok_or (number ''maxLogBytes'') ProtocolFault) (\<lambda>logs.
          and_then (ok_or (number ''defaultRequestDeadlineMs'') ProtocolFault) (\<lambda>request_deadline.
          and_then (ok_or (number ''defaultApprovalDeadlineMs'') ProtocolFault) (\<lambda>approval_deadline.
          if \<not> within min_max_frame_bytes max_max_frame_bytes max_frame
            \<or> \<not> within 1 10000 inbound
            \<or> \<not> within 1 10000 outbound
            \<or> \<not> within 1 1024 in_flight
            \<or> \<not> within 1 1024 pending
            \<or> \<not> within 256 1048576 item_delta
            \<or> \<not> within 1024 16777216 inline_output
            \<or> \<not> within 4096 67108864 logs
            \<or> \<not> within 1000 3600000 request_deadline
            \<or> \<not> within 1000 3600000 approval_deadline
            \<or> max_frame \<noteq> max_frame_bytes l
            \<or> inbound \<noteq> inbound_queue_frames l
            \<or> outbound \<noteq> outbound_queue_frames l
            \<or> in_flight \<noteq> max_in_flight_requests l
            \<or> pending \<noteq> max_pending_requests l
            \<or> item_delta \<noteq> 65536
            \<or> inline_output \<noteq> 1048576
            \<or> logs \<noteq> max_log_bytes l
            \<or> request_deadline \<noteq> request_deadline_ms l
            \<or> approval_deadline \<noteq> approval_deadline_ms l
          then Inl ProtocolFault
          else Inr ())))))))))))"

subsection \<open>The initialize parameters\<close>

definition default_initialize_params :: "limits \<Rightarrow> json" where
  "default_initialize_params l = JObj (obj_of
     [(''protocolMajor'', jnat 1),
      (''protocolMinor'', jnat 0),
      (''minimumCompatibleMinor'', jnat 0),
      (''clientVersion'', JStr ''ja-host''),
      (''capabilities'', JObj (obj_of
        [(''methods'', JArr []),
         (''events'', JArr []),
         (''accessModes'', JArr [JStr ''read_only'', JStr ''workspace'', JStr ''full_access'']),
         (''itemKinds'', JArr []),
         (''mcp'', JObj (obj_of
           [(''protocolVersions'', JArr []), (''transports'', JArr []), (''features'', JArr [])]))])),
      (''limits'', limits_to_value l)])"

definition i32_max :: int where "i32_max = 2147483647"

definition validate_initialize_params :: "json \<Rightarrow> limits \<Rightarrow> agent_error + unit" where
  "validate_initialize_params v l =
     and_then (ok_or (as_object v) InvalidConfig) (\<lambda>o'.
       if get_i64 o' ''protocolMajor'' \<noteq> Some 1 then Inl InvalidConfig
       else
         and_then (ok_or (filter_opt (within 0 i32_max) (get_i64 o' ''protocolMinor''))
           InvalidConfig) (\<lambda>minor.
         and_then (ok_or (filter_opt (within 0 minor) (get_i64 o' ''minimumCompatibleMinor''))
           InvalidConfig) (\<lambda>_.
         if \<not> bounded_string (obj_get o' ''clientVersion'') 128 then Inl InvalidConfig
         else
           and_then (validate_capabilities (obj_get o' ''capabilities'')) (\<lambda>_.
             map_err (\<lambda>_. InvalidConfig) (validate_remote_limits (obj_get o' ''limits'') l)))))"

definition error_is_incompatible :: "int \<Rightarrow> json \<Rightarrow> bool" where
  "error_is_incompatible code data \<longleftrightarrow>
     code = - 32003
     \<and> Option.bind (json_get data ''jaCode'') as_str = Some ''PROTOCOL_VERSION_UNSUPPORTED''
     \<and> Option.bind (json_get data ''retryable'') as_bool = Some False"

subsection \<open>The ready challenge\<close>

definition hex_digits :: str where
  "hex_digits = ''0123456789abcdef''"

definition hex_byte :: "char \<Rightarrow> str" where
  "hex_byte b = [hex_digits ! (byte b div 16), hex_digits ! (byte b mod 16)]"

definition ready_token_of :: "bytes \<Rightarrow> str" where
  "ready_token_of bs = concat (map hex_byte bs)"

text \<open>\<open>csprng\<close> is what filling the 16-byte buffer gave, or \<open>None\<close> where it failed.\<close>

definition generate_ready_token :: "bytes option \<Rightarrow> agent_error + str" where
  "generate_ready_token csprng =
     and_then (ok_or csprng AHandshakeFailed) (\<lambda>bs. Inr (ready_token_of bs))"

subsection \<open>RFC 3339 timestamps\<close>

definition ascii_digits :: "bytes \<Rightarrow> nat \<Rightarrow> nat \<Rightarrow> bool" where
  "ascii_digits bs start len \<longleftrightarrow>
     start + len \<le> length bs \<and> list_all is_ascii_digit (take len (drop start bs))"

definition decimal_component :: "bytes \<Rightarrow> nat \<Rightarrow> nat \<Rightarrow> nat" where
  "decimal_component bs start len = decimal_value (take len (drop start bs))"

definition leap_year :: "nat \<Rightarrow> bool" where
  "leap_year y \<longleftrightarrow> 400 dvd y \<or> (4 dvd y \<and> \<not> 100 dvd y)"

definition days_in_month :: "nat \<Rightarrow> nat \<Rightarrow> nat" where
  "days_in_month year month =
     (if month = 2 \<and> leap_year year then 29
      else if month = 2 then 28
      else if month \<in> {4, 6, 9, 11} then 30
      else 31)"

definition valid_zone_at :: "bytes \<Rightarrow> nat \<Rightarrow> bool" where
  "valid_zone_at bs index \<longleftrightarrow>
     (if index < length bs \<and> bs ! index = CHR ''Z'' then index + 1 = length bs
      else if index < length bs \<and> (bs ! index = CHR ''+'' \<or> bs ! index = CHR ''-'') then
        index + 6 = length bs \<and> bs ! (index + 3) = CHR '':''
        \<and> ascii_digits bs (index + 1) 2 \<and> ascii_digits bs (index + 4) 2
        \<and> decimal_component bs (index + 1) 2 \<le> 23 \<and> decimal_component bs (index + 4) 2 \<le> 59
      else False)"

definition valid_timestamp :: "bytes \<Rightarrow> bool" where
  "valid_timestamp bs =
     (if 64 < length bs \<or> length bs < 20 \<or> list_ex is_ascii_whitespace bs
        \<or> bs ! 4 \<noteq> CHR ''-'' \<or> bs ! 7 \<noteq> CHR ''-'' \<or> bs ! 10 \<noteq> CHR ''T''
        \<or> bs ! 13 \<noteq> CHR '':'' \<or> bs ! 16 \<noteq> CHR '':''
        \<or> \<not> ascii_digits bs 0 4 \<or> \<not> ascii_digits bs 5 2 \<or> \<not> ascii_digits bs 8 2
        \<or> \<not> ascii_digits bs 11 2 \<or> \<not> ascii_digits bs 14 2 \<or> \<not> ascii_digits bs 17 2
      then False
      else
        let year = decimal_component bs 0 4;
            month = decimal_component bs 5 2;
            day = decimal_component bs 8 2;
            hour = decimal_component bs 11 2;
            minute = decimal_component bs 14 2;
            second = decimal_component bs 17 2
        in
        if \<not> within 1 12 month \<or> \<not> within 1 (days_in_month year month) day
          \<or> 23 < hour \<or> 59 < minute \<or> 60 < second
        then False
        else if bs ! 19 = CHR ''.'' then
          let fraction = takeWhile is_ascii_digit (drop 20 bs)
          in if fraction = [] then False else valid_zone_at bs (20 + length fraction)
        else valid_zone_at bs 19)"

subsection \<open>The ready notification\<close>

definition params_str :: "rpc_frame \<Rightarrow> str \<Rightarrow> str option" where
  "params_str f k = Option.bind (Option.bind (frame_params f) (\<lambda>p. json_get p k)) as_str"

definition is_runtime_ready_notification :: "rpc_frame \<Rightarrow> bool" where
  "is_runtime_ready_notification f \<longleftrightarrow>
     frame_method f = Some ''runtime/statusChanged'' \<and> params_str f ''status'' = Some ''ready''"

definition is_ready_notification :: "rpc_frame \<Rightarrow> str option \<Rightarrow> bool" where
  "is_ready_notification f expected_instance \<longleftrightarrow>
     frame_method f = Some ''runtime/statusChanged''
     \<and> params_str f ''status'' = Some ''ready''
     \<and> params_str f ''serverInstanceId'' = expected_instance
     \<and> opt_ex (\<lambda>i. valid_schema_id i ''evt_'' 100) (params_str f ''eventId'')
     \<and> opt_ex valid_timestamp (params_str f ''occurredAt'')"

text \<open>\<open>Instant::now().checked_add(timeout)\<close>, for a clock that ends at \<open>clock_limit\<close>.\<close>

definition checked_deadline :: "nat \<Rightarrow> nat \<Rightarrow> nanos \<Rightarrow> nanos \<Rightarrow> agent_error + nat" where
  "checked_deadline clock_limit now timeout maximum =
     (if maximum < timeout then Inl InvalidTimeout
      else if now + timeout \<le> clock_limit then Inr (now + timeout) else Inl InvalidTimeout)"

subsection \<open>Limits are an exact agreement\<close>

lemma get_u64_Some: "get_u64 o' k = Some n \<longleftrightarrow> obj_get o' k = Some (jnat n)"
proof -
  have "as_u64 v = Some n \<longleftrightarrow> v = jnat n" for v
    by (cases v rule: as_u64.cases) auto
  then show ?thesis by (auto simp: get_u64_def bind_eq_Some_conv)
qed

lemma limits_validate_bounds:
  assumes "limits_validate l = Inr ()"
  shows "within min_max_frame_bytes max_max_frame_bytes (max_frame_bytes l)"
    "within 1 10000 (inbound_queue_frames l)" "within 1 10000 (outbound_queue_frames l)"
    "within 1 1024 (max_in_flight_requests l)" "within 1 1024 (max_pending_requests l)"
    "within 1 8192 (max_tombstones l)" "within 1 1048576 (max_stderr_line_bytes l)"
    "within 4096 67108864 (max_log_bytes l)" "within 1000 3600000 (request_deadline_ms l)"
    "within 1000 3600000 (approval_deadline_ms l)"
  using assms by (simp_all add: limits_validate_def split: if_splits)

definition limit_fields :: "limits \<Rightarrow> (str \<times> nat) list" where
  "limit_fields l =
     [(''maxFrameBytes'', max_frame_bytes l),
      (''maxInboundQueueFrames'', inbound_queue_frames l),
      (''maxOutboundQueueFrames'', outbound_queue_frames l),
      (''maxInFlightRequests'', max_in_flight_requests l),
      (''maxPendingRequests'', max_pending_requests l),
      (''maxItemDeltaBytes'', 65536),
      (''maxInlineToolOutputBytes'', 1048576),
      (''maxLogBytes'', max_log_bytes l),
      (''defaultRequestDeadlineMs'', request_deadline_ms l),
      (''defaultApprovalDeadlineMs'', approval_deadline_ms l)]"

lemma limits_to_value_get:
  "\<forall>(k, n) \<in> set (limit_fields l). json_get (limits_to_value l) k = Some (jnat n)"
  by (simp add: limit_fields_def limits_to_value_def obj_of_def)

lemma remote_limits_agree:
  assumes "validate_remote_limits v l = Inr ()"
  shows "\<exists>o'. v = Some (JObj o') \<and> (\<forall>(k, n) \<in> set (limit_fields l). obj_get o' k = Some (jnat n))"
proof -
  obtain o' where v: "v = Some (JObj o')"
    using assms by (cases v) (auto simp: validate_remote_limits_def split: option.splits)
  show ?thesis
    using assms unfolding v
    by (auto simp: validate_remote_limits_def result_iff limit_fields_def get_u64_Some Let_def
        split: prod.splits)
qed

lemma remote_limits_accept:
  assumes "limits_validate l = Inr ()"
    and "\<forall>(k, n) \<in> set (limit_fields l). obj_get o' k = Some (jnat n)"
  shows "validate_remote_limits (Some (JObj o')) l = Inr ()"
proof -
  have "get_u64 o' k = Some n" if "(k, n) \<in> set (limit_fields l)" for k n
    using assms(2) that by (auto simp: get_u64_Some)
  then have g: "get_u64 o' ''maxFrameBytes'' = Some (max_frame_bytes l)"
    "get_u64 o' ''maxInboundQueueFrames'' = Some (inbound_queue_frames l)"
    "get_u64 o' ''maxOutboundQueueFrames'' = Some (outbound_queue_frames l)"
    "get_u64 o' ''maxInFlightRequests'' = Some (max_in_flight_requests l)"
    "get_u64 o' ''maxPendingRequests'' = Some (max_pending_requests l)"
    "get_u64 o' ''maxItemDeltaBytes'' = Some 65536"
    "get_u64 o' ''maxInlineToolOutputBytes'' = Some 1048576"
    "get_u64 o' ''maxLogBytes'' = Some (max_log_bytes l)"
    "get_u64 o' ''defaultRequestDeadlineMs'' = Some (request_deadline_ms l)"
    "get_u64 o' ''defaultApprovalDeadlineMs'' = Some (approval_deadline_ms l)"
    by (simp_all add: limit_fields_def)
  note b = limits_validate_bounds [OF assms(1)]
  have f: "filter_opt (\<lambda>n. n \<le> usize_max) (Some n) = Some n" if "n \<le> 16777216" for n
    using that by (simp add: usize_max_def)
  have small: "max_frame_bytes l \<le> 16777216" "inbound_queue_frames l \<le> 16777216"
    "outbound_queue_frames l \<le> 16777216" "max_in_flight_requests l \<le> 16777216"
    "max_pending_requests l \<le> 16777216"
    using b(1-5) by (simp_all add: within_def max_max_frame_bytes_def)
  show ?thesis
    unfolding validate_remote_limits_def
    using b by (simp add: g f small Let_def) (simp add: within_def)
qed

text \<open>
  The host accepts exactly the limits it announced: a remote limits value passes
  \<open>validate_remote_limits\<close> if and only if it is an object in which each of the ten members
  of the host's own announcement has the announced value.
\<close>

theorem remote_limits_exact:
  assumes "limits_validate l = Inr ()"
  shows "validate_remote_limits v l = Inr () \<longleftrightarrow>
    (\<exists>o'. v = Some (JObj o') \<and> (\<forall>(k, n) \<in> set (limit_fields l).
       obj_get o' k = Some (jnat n) \<and> json_get (limits_to_value l) k = Some (jnat n)))"
  using remote_limits_agree [of v l] remote_limits_accept [OF assms] limits_to_value_get [of l]
  by fastforce

theorem remote_limits_exact_witness:
  "validate_remote_limits (Some (limits_to_value default_limits)) default_limits = Inr ()
   \<and> validate_remote_limits (Some (limits_to_value (default_limits\<lparr>max_log_bytes := 4096\<rparr>)))
       default_limits \<noteq> Inr ()"
  using remote_limits_exact [OF default_limits_valid]
  by (simp add: limit_fields_def limits_to_value_def obj_of_def default_limits_def)

text \<open>
  The host's own initialize parameters pass its own validation, for every set of limits
  it can be configured with.
\<close>

theorem default_initialize_accepted:
  assumes "limits_validate l = Inr ()"
  shows "validate_initialize_params (default_initialize_params l) l = Inr ()"
proof -
  have "validate_remote_limits (Some (limits_to_value l)) l = Inr ()"
    using remote_limits_accept [OF assms, of "obj_of (map (\<lambda>(k, n). (k, jnat n)) (limit_fields l))"]
      limits_to_value_get [of l]
    by (simp add: limits_to_value_def limit_fields_def)
  then show ?thesis
    by (simp add: validate_initialize_params_def default_initialize_params_def obj_of_def
        get_i64_def i64_max_def i32_max_def within_def filter_opt_def bounded_string_def
        validate_capabilities_def validate_string_array_def access_modes_def)
qed

theorem default_initialize_accepted_witness:
  "validate_initialize_params (default_initialize_params default_limits) default_limits = Inr ()"
  by (rule default_initialize_accepted [OF default_limits_valid])

subsection \<open>Challenges\<close>

lemma hex_digits_length: "length hex_digits = 16"
  by (simp add: hex_digits_def)

lemma hex_digits_lower: "i < 16 \<Longrightarrow> is_lower_hex_digit (hex_digits ! i)"
proof -
  have "list_all is_lower_hex_digit hex_digits"
    by (simp add: hex_digits_def byte_defs)
  then show "i < 16 \<Longrightarrow> is_lower_hex_digit (hex_digits ! i)"
    by (simp add: list_all_length hex_digits_length)
qed

lemma hex_digits_inj: "i < 16 \<Longrightarrow> j < 16 \<Longrightarrow> hex_digits ! i = hex_digits ! j \<longleftrightarrow> i = j"
  by (rule nth_eq_iff_index_eq) (simp_all add: hex_digits_def)

lemma byte_nibbles: "byte c div 16 < 16" "byte c mod 16 < 16"
  using nat_of_char_less_256 [of c] by (simp_all add: less_mult_imp_div_less)

lemma hex_byte_inj: "hex_byte a = hex_byte b \<longleftrightarrow> a = b"
proof
  assume "hex_byte a = hex_byte b"
  with byte_nibbles [of a] byte_nibbles [of b]
  have "byte a div 16 = byte b div 16" and "byte a mod 16 = byte b mod 16"
    by (simp_all add: hex_byte_def hex_digits_inj)
  then have "byte a = byte b" by (metis div_mult_mod_eq)
  then show "a = b" by simp
qed simp

lemma ready_token_of_inj: "length bs = length cs \<Longrightarrow> ready_token_of bs = ready_token_of cs \<longleftrightarrow> bs = cs"
proof (induction bs arbitrary: cs)
  case (Cons b bs)
  then obtain c cs' where "cs = c # cs'" and "length bs = length cs'" by (cases cs) auto
  with Cons.IH [of cs'] show ?case
    using hex_byte_inj [of b c] by (auto simp: ready_token_of_def hex_byte_def)
qed simp

lemma ready_token_of_valid: "length bs = 16 \<Longrightarrow> valid_ready_token (ready_token_of bs)"
proof -
  have "length (ready_token_of bs) = 2 * length bs"
    by (induction bs) (auto simp: ready_token_of_def hex_byte_def)
  moreover have "list_all is_lower_hex_digit (hex_byte b)" for b
    using byte_nibbles [of b] by (simp add: hex_byte_def hex_digits_lower)
  then have "list_all is_lower_hex_digit (ready_token_of bs)"
    by (auto simp: ready_token_of_def list_all_iff)
  ultimately show "length bs = 16 \<Longrightarrow> valid_ready_token (ready_token_of bs)"
    by (simp add: valid_ready_token_def)
qed

text \<open>
  A generated challenge is accepted by the protocol's challenge check and caught by every
  token-shape audit, and two generations have the same challenge only if the random source
  gave the same 16 bytes.
\<close>

theorem challenge_fresh:
  assumes "length b1 = 16" and "length b2 = 16"
    and "generate_ready_token (Some b1) = Inr t1" and "generate_ready_token (Some b2) = Inr t2"
  shows "valid_ready_token t1 \<and> is_token_shaped t1 \<and> (t1 = t2 \<longleftrightarrow> b1 = b2)"
  using assms ready_token_of_valid [of b1] valid_token_is_shaped [of t1] ready_token_of_inj [of b1 b2]
  by (auto simp: generate_ready_token_def)

theorem challenge_fresh_witness:
  "valid_ready_token (ready_token_of (replicate 16 CHR 0x0A))
   \<and> ready_token_of (replicate 16 CHR 0x0A) \<noteq> ready_token_of (replicate 15 CHR 0x0A @ [CHR 0x0B])"
  using challenge_fresh [of "replicate 16 CHR 0x0A" "replicate 15 CHR 0x0A @ [CHR 0x0B]"]
  by (simp add: generate_ready_token_def numeral_eq_Suc)

subsection \<open>The timestamp grammar\<close>

definition digits :: "nat \<Rightarrow> str \<Rightarrow> bool" where
  "digits n s \<longleftrightarrow> length s = n \<and> list_all is_ascii_digit s"

definition ts_zone :: "str \<Rightarrow> bool" where
  "ts_zone z \<longleftrightarrow> z = ''Z'' \<or> (\<exists>g h1 h2 m1 m2. z = [g, h1, h2, CHR '':'', m1, m2]
     \<and> (g = CHR ''+'' \<or> g = CHR ''-'') \<and> digits 2 [h1, h2] \<and> digits 2 [m1, m2]
     \<and> decimal_value [h1, h2] \<le> 23 \<and> decimal_value [m1, m2] \<le> 59)"

definition ts_fraction :: "str \<Rightarrow> bool" where
  "ts_fraction f \<longleftrightarrow> f = [] \<or> (\<exists>ds. f = CHR ''.'' # ds \<and> ds \<noteq> [] \<and> list_all is_ascii_digit ds)"

definition ts_date_time :: "str \<Rightarrow> bool" where
  "ts_date_time t \<longleftrightarrow> (\<exists>Y M D h m s.
     t = Y @ CHR ''-'' # M @ CHR ''-'' # D @ CHR ''T'' # h @ CHR '':'' # m @ CHR '':'' # s
     \<and> digits 4 Y \<and> digits 2 M \<and> digits 2 D \<and> digits 2 h \<and> digits 2 m \<and> digits 2 s
     \<and> within 1 12 (decimal_value M)
     \<and> within 1 (days_in_month (decimal_value Y) (decimal_value M)) (decimal_value D)
     \<and> decimal_value h \<le> 23 \<and> decimal_value m \<le> 59 \<and> decimal_value s \<le> 60)"

lemma digits_2: "digits 2 s \<longleftrightarrow> (\<exists>a b. s = [a, b] \<and> is_ascii_digit a \<and> is_ascii_digit b)"
  by (auto simp: digits_def numeral_eq_Suc length_Suc_conv)

lemma digits_4: "digits 4 s \<longleftrightarrow> (\<exists>a b c d. s = [a, b, c, d] \<and> is_ascii_digit a
    \<and> is_ascii_digit b \<and> is_ascii_digit c \<and> is_ascii_digit d)"
  by (auto simp: digits_def numeral_eq_Suc length_Suc_conv)

lemma digit_not: "is_ascii_digit c \<Longrightarrow> \<not> is_ascii_whitespace c"
  by (auto simp: byte_defs)

lemma valid_zone_at_suffix: "valid_zone_at (p @ z) (length p) \<longleftrightarrow> ts_zone z"
proof -
  have nth: "(p @ z) ! (length p + k) = z ! k" for k
    by (simp add: nth_append)
  have six: "length z = 6 \<Longrightarrow> \<exists>a b c d e f. z = [a, b, c, d, e, f]"
    by (auto simp: numeral_eq_Suc length_Suc_conv)
  show ?thesis
  proof (cases z)
    case Nil
    then show ?thesis by (simp add: valid_zone_at_def ts_zone_def)
  next
    case (Cons a r)
    show ?thesis
    proof (cases "length z = 6")
      case True
      then obtain b c d e f where z: "z = [a, b, c, d, e, f]" using six Cons by auto
      show ?thesis
        by (auto simp: valid_zone_at_def ts_zone_def z nth_append ascii_digits_def
            decimal_component_def digits_2)
    next
      case False
      then show ?thesis
        by (auto simp: valid_zone_at_def ts_zone_def Cons digits_2)
    qed
  qed
qed

lemma ts_zone_head: "ts_zone z \<Longrightarrow> z \<noteq> [] \<and> \<not> is_ascii_digit (hd z) \<and> hd z \<noteq> CHR ''.''"
  by (auto simp: ts_zone_def byte_defs)

lemma ts_zone_plain: "ts_zone z \<Longrightarrow> \<not> list_ex is_ascii_whitespace z"
proof -
  have "\<not> is_ascii_whitespace CHR ''-''" "\<not> is_ascii_whitespace CHR '':''"
    "\<not> is_ascii_whitespace CHR ''+''" "\<not> is_ascii_whitespace CHR ''Z''"
    by (simp_all add: byte_defs)
  then show "ts_zone z \<Longrightarrow> \<not> list_ex is_ascii_whitespace z"
    by (auto simp: ts_zone_def digits_2 digit_not)
qed

lemma takeWhile_digits:
  "list_all is_ascii_digit ds \<Longrightarrow> z \<noteq> [] \<Longrightarrow> \<not> is_ascii_digit (hd z) \<Longrightarrow>
     takeWhile is_ascii_digit (ds @ z) = ds"
  by (induction ds) (auto, cases z, auto)

lemma nineteen:
  "19 \<le> length bs \<Longrightarrow> \<exists>b0 b1 b2 b3 b4 b5 b6 b7 b8 b9 b10 b11 b12 b13 b14 b15 b16 b17 b18 r.
     bs = b0 # b1 # b2 # b3 # b4 # b5 # b6 # b7 # b8 # b9 # b10 # b11 # b12 # b13 # b14 # b15
       # b16 # b17 # b18 # r"
  by (auto simp: numeral_eq_Suc Suc_le_length_iff)

text \<open>The part after the seconds: an optional fraction and the zone.\<close>

definition valid_tail :: "str \<Rightarrow> bool" where
  "valid_tail r \<longleftrightarrow> (\<exists>f z. r = f @ z \<and> ts_fraction f \<and> ts_zone z)"

lemma ts_fraction_plain: "ts_fraction f \<Longrightarrow> \<not> list_ex is_ascii_whitespace f"
proof -
  have "\<not> is_ascii_whitespace CHR ''.''" by (simp add: byte_defs)
  then show "ts_fraction f \<Longrightarrow> \<not> list_ex is_ascii_whitespace f"
    using digit_not by (auto simp: ts_fraction_def list_ex_iff list_all_iff)
qed

lemma valid_tail_plain: "valid_tail r \<Longrightarrow> \<not> list_ex is_ascii_whitespace r"
  using ts_fraction_plain ts_zone_plain by (auto simp: valid_tail_def)

lemma valid_tail_iff:
  assumes "length p = 19" and "r \<noteq> []"
  shows "(if (p @ r) ! 19 = CHR ''.'' then
       let fraction = takeWhile is_ascii_digit (drop 20 (p @ r))
       in if fraction = [] then False else valid_zone_at (p @ r) (20 + length fraction)
     else valid_zone_at (p @ r) 19) \<longleftrightarrow> valid_tail r"
proof -
  from assms(2) obtain c r' where r: "r = c # r'" by (cases r) auto
  have at: "(p @ r) ! 19 = c" and rest: "drop 20 (p @ r) = r'"
    using assms(1) by (simp_all add: nth_append r)
  show ?thesis
  proof (cases "c = CHR ''.''")
    case True
    let ?f = "takeWhile is_ascii_digit r'"
    define z where "z = dropWhile is_ascii_digit r'"
    have r': "r' = ?f @ z" by (simp add: z_def)
    have "p @ r = (p @ CHR ''.'' # ?f) @ z"
      using r True r' [symmetric] by simp
    moreover have "20 + length ?f = length (p @ CHR ''.'' # ?f)"
      using assms(1) by simp
    ultimately have zone: "valid_zone_at (p @ r) (20 + length ?f) \<longleftrightarrow> ts_zone z"
      using valid_zone_at_suffix by metis
    have "valid_tail r \<longleftrightarrow> ?f \<noteq> [] \<and> ts_zone z"
    proof
      assume "valid_tail r"
      then obtain f z' where fz: "r = f @ z'" "ts_fraction f" "ts_zone z'"
        by (auto simp: valid_tail_def)
      have "f \<noteq> []"
        using fz ts_zone_head [OF fz(3)] r True by (cases z') auto
      then obtain ds where "f = CHR ''.'' # ds" "ds \<noteq> []" "list_all is_ascii_digit ds"
        using fz(2) by (auto simp: ts_fraction_def)
      then have "r' = ds @ z'" using fz(1) r by simp
      then have "?f = ds"
        using takeWhile_digits [OF \<open>list_all is_ascii_digit ds\<close>] ts_zone_head [OF fz(3)] by simp
      moreover have "?f @ z = ds @ z'" using r' \<open>r' = ds @ z'\<close> by metis
      ultimately have "?f = ds" and "z = z'" by simp_all
      then show "?f \<noteq> [] \<and> ts_zone z" using \<open>ds \<noteq> []\<close> fz(3) by simp
    next
      assume "?f \<noteq> [] \<and> ts_zone z"
      moreover have "list_all is_ascii_digit ?f"
        by (auto simp: list_all_iff dest: set_takeWhileD)
      ultimately show "valid_tail r"
        unfolding valid_tail_def ts_fraction_def
        by (intro exI [of _ "CHR ''.'' # ?f"] exI [of _ z]) (use r' [symmetric] r True in auto)
    qed
    then show ?thesis using zone True unfolding at rest Let_def by simp
  next
    case False
    have "valid_zone_at (p @ r) 19 \<longleftrightarrow> ts_zone r"
      using valid_zone_at_suffix [of p r] assms(1) by simp
    moreover have "valid_tail r \<longleftrightarrow> ts_zone r"
      using False by (auto simp: valid_tail_def ts_fraction_def r)
    ultimately show ?thesis using False by (simp add: at)
  qed
qed

lemma date_time_19:
  "ts_date_time [b0, b1, b2, b3, b4, b5, b6, b7, b8, b9, b10, b11, b12, b13, b14, b15, b16, b17, b18]
   \<longleftrightarrow> b4 = CHR ''-'' \<and> b7 = CHR ''-'' \<and> b10 = CHR ''T'' \<and> b13 = CHR '':'' \<and> b16 = CHR '':''
     \<and> list_all is_ascii_digit [b0, b1, b2, b3, b5, b6, b8, b9, b11, b12, b14, b15, b17, b18]
     \<and> within 1 12 (decimal_value [b5, b6])
     \<and> within 1 (days_in_month (decimal_value [b0, b1, b2, b3]) (decimal_value [b5, b6]))
         (decimal_value [b8, b9])
     \<and> decimal_value [b11, b12] \<le> 23 \<and> decimal_value [b14, b15] \<le> 59
     \<and> decimal_value [b17, b18] \<le> 60" (is "?L \<longleftrightarrow> ?R")
proof
  assume r: "?R"
  show "?L"
    unfolding ts_date_time_def
    by (rule exI [of _ "[b0, b1, b2, b3]"], rule exI [of _ "[b5, b6]"], rule exI [of _ "[b8, b9]"],
        rule exI [of _ "[b11, b12]"], rule exI [of _ "[b14, b15]"], rule exI [of _ "[b17, b18]"])
       (use r in \<open>simp add: digits_def\<close>)
next
  assume "?L"
  then show "?R"
    unfolding ts_date_time_def digits_2 digits_4 by (elim exE conjE) simp
qed

lemma date_time_length: "ts_date_time t \<Longrightarrow> length t = 19"
  by (auto simp: ts_date_time_def digits_def)

lemma date_time_plain: "ts_date_time t \<Longrightarrow> \<not> list_ex is_ascii_whitespace t"
proof -
  have "digits n s \<Longrightarrow> \<not> list_ex is_ascii_whitespace s" for n s
    using digit_not by (auto simp: digits_def list_ex_iff list_all_iff)
  moreover have "\<not> is_ascii_whitespace CHR ''-''" "\<not> is_ascii_whitespace CHR '':''"
    "\<not> is_ascii_whitespace CHR ''T''"
    by (simp_all add: byte_defs)
  ultimately show "ts_date_time t \<Longrightarrow> \<not> list_ex is_ascii_whitespace t"
    by (auto simp: ts_date_time_def)
qed

text \<open>
  The ready event's timestamp check accepts exactly the RFC 3339 date-times of at most 64
  bytes: a date of the Gregorian calendar, a time, an optional non-empty fraction of ASCII
  digits, and \<open>Z\<close> or a numeric offset; nothing may follow.
\<close>

theorem timestamp_grammar:
  "valid_timestamp bs \<longleftrightarrow>
     length bs \<le> 64 \<and> (\<exists>t f z. bs = t @ f @ z \<and> ts_date_time t \<and> ts_fraction f \<and> ts_zone z)"
proof (cases "20 \<le> length bs")
  case False
  have "length (t @ f @ z) \<ge> 20" if "ts_date_time t" "ts_zone z" for t f z
    using date_time_length [OF that(1)] ts_zone_head [OF that(2)] by (cases z) auto
  with False show ?thesis by (auto simp: valid_timestamp_def)
next
  case True
  then obtain b0 b1 b2 b3 b4 b5 b6 b7 b8 b9 b10 b11 b12 b13 b14 b15 b16 b17 b18 r where
    bs: "bs = [b0, b1, b2, b3, b4, b5, b6, b7, b8, b9, b10, b11, b12, b13, b14, b15, b16, b17, b18] @ r"
    using nineteen [of bs] by auto
  define p where "p = [b0, b1, b2, b3, b4, b5, b6, b7, b8, b9, b10, b11, b12, b13, b14, b15, b16, b17, b18]"
  have len: "length p = 19" and r: "r \<noteq> []"
    using True bs by (auto simp: p_def)
  have rhs: "(\<exists>t f z. bs = t @ f @ z \<and> ts_date_time t \<and> ts_fraction f \<and> ts_zone z)
      \<longleftrightarrow> ts_date_time p \<and> valid_tail r"
  proof -
    have "bs = t @ f @ z \<Longrightarrow> ts_date_time t \<Longrightarrow> t = p \<and> r = f @ z" for t f z
      using date_time_length [of t] len bs by (simp add: p_def [symmetric] append_eq_append_conv)
    then show ?thesis
      unfolding valid_tail_def using bs p_def by blast
  qed
  note tail = valid_tail_iff [OF len r]
  have head: "\<not> (b4 \<noteq> CHR ''-'' \<or> b7 \<noteq> CHR ''-'' \<or> b10 \<noteq> CHR ''T'' \<or> b13 \<noteq> CHR '':'' \<or> b16 \<noteq> CHR '':''
        \<or> \<not> ascii_digits bs 0 4 \<or> \<not> ascii_digits bs 5 2 \<or> \<not> ascii_digits bs 8 2
        \<or> \<not> ascii_digits bs 11 2 \<or> \<not> ascii_digits bs 14 2 \<or> \<not> ascii_digits bs 17 2)
      \<and> \<not> (\<not> within 1 12 (decimal_component bs 5 2)
        \<or> \<not> within 1 (days_in_month (decimal_component bs 0 4) (decimal_component bs 5 2))
            (decimal_component bs 8 2)
        \<or> 23 < decimal_component bs 11 2 \<or> 59 < decimal_component bs 14 2
        \<or> 60 < decimal_component bs 17 2)
    \<longleftrightarrow> ts_date_time p"
    unfolding p_def date_time_19 bs ascii_digits_def decimal_component_def
    by (simp add: conj_ac not_less)
  have nth: "bs ! 4 = b4" "bs ! 7 = b7" "bs ! 10 = b10" "bs ! 13 = b13" "bs ! 16 = b16"
    by (simp_all add: bs)
  have white: "ts_date_time p \<Longrightarrow> valid_tail r \<Longrightarrow> \<not> list_ex is_ascii_whitespace bs"
    using date_time_plain [of p] valid_tail_plain [of r] bs by (auto simp: p_def)
  show ?thesis
    unfolding rhs valid_timestamp_def nth Let_def
    using True head tail white bs [folded p_def]
    by (auto simp: Let_def)
qed

end
