(* ===== verification/Ja_Ledger.thy ===== *)
theory Ja_Ledger
  imports Ja_Codec
begin

text \<open>
  The session's two id ledgers and the initialized barrier (\<open>agent_process/session.rs\<close>). A
  \<open>HashSet\<close> of ids is a list without repetition; only membership and length are observed.
\<close>

definition max_inbound_ledger :: nat where "max_inbound_ledger = 8192"
definition max_outbound_ledger :: nat where "max_outbound_ledger = 8192"

subsection \<open>Outbound request ids\<close>

record outbound_ledger =
  out_seen :: "str list"
  out_next :: nat

definition outbound_new :: outbound_ledger where
  "outbound_new = \<lparr>out_seen = [], out_next = 1\<rparr>"

definition request_id :: "nat \<Rightarrow> str" where
  "request_id n = ''c:rpc-'' @ show_nat n"

text \<open>
  The error branches after the counter was stepped leave it stepped, as in the source, so the
  ledger is returned on every branch.
\<close>

definition allocate :: "outbound_ledger \<Rightarrow> (agent_error + str) \<times> outbound_ledger" where
  "allocate l =
     (if max_outbound_ledger \<le> length (out_seen l) then (Inl RequestLedgerExhausted, l)
      else case checked_add64 (out_next l) 1 of
        None \<Rightarrow> (Inl RequestLedgerExhausted, l)
      | Some next \<Rightarrow>
          let i = request_id (out_next l); l' = l\<lparr>out_next := next\<rparr>
          in if i \<in> set (out_seen l) then (Inl RequestLedgerExhausted, l')
             else (Inr i, l'\<lparr>out_seen := i # out_seen l\<rparr>))"

definition outbound_ok :: "outbound_ledger \<Rightarrow> bool" where
  "outbound_ok l \<longleftrightarrow>
     out_seen l = map request_id (rev [1 ..< out_next l]) \<and> 1 \<le> out_next l
     \<and> length (out_seen l) \<le> max_outbound_ledger"

lemma request_id_inject [simp]: "request_id m = request_id n \<longleftrightarrow> m = n"
  by (simp add: request_id_def)

lemma request_id_valid:
  assumes "n \<le> u64_max"
  shows "valid_id (request_id n)"
proof -
  have "n < 10 ^ 20" using assms by (simp add: u64_max_def)
  then have len: "length (show_nat n) \<le> 20" by (rule length_show_nat) simp
  have suffix: "split_once CHR '':'' (request_id n) = Some (''c'', ''rpc-'' @ show_nat n)"
    by (simp add: split_once_Some request_id_def)
  have "list_all id_suffix_byte (show_nat n)"
    using show_nat_digits [of n] by (auto simp: list_all_iff id_suffix_byte_def byte_defs)
  then show ?thesis
    unfolding valid_id_def suffix
    using len by (simp add: request_id_def max_request_id_bytes_def id_suffix_byte_def byte_defs)
qed

lemma outbound_new_ok: "outbound_ok outbound_new"
  by (simp add: outbound_ok_def outbound_new_def)

lemma allocate_fresh:
  assumes "outbound_ok l"
  shows "request_id (out_next l) \<notin> set (out_seen l)"
  using assms by (auto simp: outbound_ok_def)

lemma outbound_next_small: "outbound_ok l \<Longrightarrow> out_next l \<le> Suc max_outbound_ledger"
  unfolding outbound_ok_def by (elim conjE) (drule arg_cong [where f = length], simp)

text \<open>The two inner error branches are unreachable: only the ledger limit refuses an id.\<close>

lemma allocate_eq:
  assumes "outbound_ok l"
  shows "allocate l =
    (if max_outbound_ledger \<le> length (out_seen l) then (Inl RequestLedgerExhausted, l)
     else (Inr (request_id (out_next l)),
       \<lparr>out_seen = request_id (out_next l) # out_seen l, out_next = Suc (out_next l)\<rparr>))"
  using allocate_fresh [OF assms] outbound_next_small [OF assms]
  by (cases l) (simp add: allocate_def Let_def checked_add64_def u64_max_def max_outbound_ledger_def)

lemma allocate_ok: "outbound_ok l \<Longrightarrow> outbound_ok (snd (allocate l))"
  by (auto simp: allocate_eq) (auto simp: outbound_ok_def)

definition outbound_step :: "outbound_ledger \<Rightarrow> unit \<Rightarrow> outbound_ledger" where
  "outbound_step l _ = snd (allocate l)"

interpretation outbound: growing outbound_step outbound_ok "\<lambda>l. set (out_seen l)" "(\<subseteq>)"
  by unfold_locales
     (auto simp: outbound_step_def allocate_ok, auto simp: allocate_eq split: if_splits)

subsection \<open>Inbound server requests\<close>

record inbound_requests =
  in_active :: "str list"
  in_seen :: "str list"
  in_max :: nat

definition inbound_new :: "nat \<Rightarrow> inbound_requests" where
  "inbound_new m = \<lparr>in_active = [], in_seen = [], in_max = m\<rparr>"

definition inbound_register :: "inbound_requests \<Rightarrow> str \<Rightarrow> agent_error + inbound_requests" where
  "inbound_register r i =
     (if i \<in> set (in_seen r) then Inl DuplicateRequest
      else if in_max r \<le> length (in_active r) then Inl PendingLimit
      else if max_inbound_ledger \<le> length (in_seen r) then Inl RequestLedgerExhausted
      else Inr (r\<lparr>in_seen := i # in_seen r, in_active := i # in_active r\<rparr>))"

definition inbound_resolve :: "inbound_requests \<Rightarrow> str \<Rightarrow> agent_error + inbound_requests" where
  "inbound_resolve r i =
     (if i \<notin> set (in_active r) then
        (if i \<in> set (in_seen r) then Inl DuplicateResponse else Inl UnknownRequestId)
      else Inr (r\<lparr>in_active := removeAll i (in_active r)\<rparr>))"

definition inbound_ok :: "inbound_requests \<Rightarrow> bool" where
  "inbound_ok r \<longleftrightarrow>
     distinct (in_seen r) \<and> distinct (in_active r) \<and> set (in_active r) \<subseteq> set (in_seen r)
     \<and> length (in_active r) \<le> in_max r \<and> length (in_seen r) \<le> max_inbound_ledger"

datatype inbound_op = IRegister str | IResolve str

fun inbound_step :: "inbound_requests \<Rightarrow> inbound_op \<Rightarrow> inbound_requests" where
  "inbound_step r (IRegister i) = (case inbound_register r i of Inr r' \<Rightarrow> r' | Inl _ \<Rightarrow> r)"
| "inbound_step r (IResolve i) = (case inbound_resolve r i of Inr r' \<Rightarrow> r' | Inl _ \<Rightarrow> r)"

lemma inbound_step_ok: "inbound_ok r \<Longrightarrow> inbound_ok (inbound_step r x)"
proof (cases x)
  case (IResolve i)
  have "length (in_active r) \<le> m \<Longrightarrow> length (removeAll i (in_active r)) \<le> m" for m
    by (rule order_trans [OF length_removeAll_less_eq])
  then show "inbound_ok r \<Longrightarrow> ?thesis"
    unfolding IResolve
    by (auto simp: inbound_ok_def inbound_resolve_def distinct_removeAll split: if_splits sum.splits)
qed (auto simp: inbound_ok_def inbound_register_def split: if_splits sum.splits)

lemma inbound_new_ok: "inbound_ok (inbound_new m)"
  by (simp add: inbound_ok_def inbound_new_def)

interpretation inbound_ids: ledger inbound_register "\<lambda>r. set (in_seen r)"
  by unfold_locales (auto simp: inbound_register_def split: if_splits)

interpretation inbound: growing inbound_step inbound_ok "\<lambda>r. set (in_seen r)" "(\<subseteq>)"
proof
  fix r x
  show "set (in_seen r) \<subseteq> set (in_seen (inbound_step r x))"
    by (cases x) (auto simp: inbound_register_def inbound_resolve_def split: sum.splits if_splits)
qed (auto intro: inbound_step_ok)

lemma answered_stays:
  "i \<in> set (in_seen r) \<and> i \<notin> set (in_active r) \<Longrightarrow>
     i \<in> set (in_seen (inbound_step r x)) \<and> i \<notin> set (in_active (inbound_step r x))"
  by (cases x) (auto simp: inbound_register_def inbound_resolve_def split: sum.splits if_splits)

lemma resolve_ok: "inbound_ok r \<Longrightarrow> inbound_resolve r i = Inr r' \<Longrightarrow> inbound_ok r'"
  using inbound_step_ok [of r "IResolve i"] by simp

text \<open>
  A server request id is used once in a connection: after an accepted registration every
  later registration of the id is refused, whatever registrations and responses lie between,
  and once it has been answered every further response to it is refused as a duplicate.
\<close>

theorem inbound_id_once:
  assumes "inbound_ok r" and "inbound_register r i = Inr r1"
    and "r2 = foldl inbound_step r1 xs"
  shows "(\<exists>e. inbound_register r2 i = Inl e)
    \<and> (\<forall>r3 ys. inbound_resolve r2 i = Inr r3 \<longrightarrow>
        inbound_resolve (foldl inbound_step r3 ys) i = Inl DuplicateResponse)"
proof -
  have r1: "inbound_ok r1" using inbound_step_ok [of r "IRegister i"] assms(1,2) by simp
  have grow: "set (in_seen r1) \<subseteq> set (in_seen r2)"
    unfolding assms(3) by (rule inbound.run_le [OF r1])
  have r2: "inbound_ok r2"
    unfolding assms(3) by (rule inbound.run_inv [OF r1])
  have "\<exists>e. inbound_register r2 i = Inl e"
    using inbound_ids.admit_twice [OF assms(2) grow] .
  moreover have "inbound_resolve (foldl inbound_step r3 ys) i = Inl DuplicateResponse"
    if "inbound_resolve r2 i = Inr r3" for r3 ys
  proof -
    have r3: "inbound_ok r3" by (rule resolve_ok [OF r2 that])
    have "i \<in> set (in_active r2)" and "r3 = r2\<lparr>in_active := removeAll i (in_active r2)\<rparr>"
      using that by (simp_all add: inbound_resolve_def split: if_splits)
    then have here: "i \<in> set (in_seen r3) \<and> i \<notin> set (in_active r3)"
      using r2 by (auto simp: inbound_ok_def)
    have "i \<in> set (in_seen (foldl inbound_step r3 ys)) \<and> i \<notin> set (in_active (foldl inbound_step r3 ys))"
      by (rule inbound.run_induct_inv
          [where P = "\<lambda>r. i \<in> set (in_seen r) \<and> i \<notin> set (in_active r)", OF r3 here])
         (rule answered_stays)
    then show ?thesis by (simp add: inbound_resolve_def)
  qed
  ultimately show ?thesis by blast
qed

theorem inbound_id_once_witness:
  "\<exists>e. inbound_register (foldl inbound_step
     \<lparr>in_active = [''s:approval-1''], in_seen = [''s:approval-1''], in_max = 4\<rparr>
     [IResolve ''s:approval-1'', IRegister ''s:approval-2'']) ''s:approval-1'' = Inl e"
proof -
  have "inbound_register (inbound_new 4) ''s:approval-1''
      = Inr \<lparr>in_active = [''s:approval-1''], in_seen = [''s:approval-1''], in_max = 4\<rparr>"
    by (simp add: inbound_register_def inbound_new_def max_inbound_ledger_def)
  from inbound_id_once [OF inbound_new_ok this refl] show ?thesis by blast
qed

definition allocations :: "nat \<Rightarrow> outbound_ledger" where
  "allocations n = foldl outbound_step outbound_new (replicate n ())"

lemma allocations_Suc: "allocations (Suc n) = snd (allocate (allocations n))"
proof -
  have "replicate (Suc n) () = replicate n () @ [()]" by (simp add: replicate_append_same)
  then show ?thesis by (simp add: allocations_def outbound_step_def)
qed

lemma allocations_ok: "outbound_ok (allocations n)"
  unfolding allocations_def by (rule outbound.run_inv [OF outbound_new_ok])

lemma allocations_next: "n \<le> max_outbound_ledger \<Longrightarrow>
    out_next (allocations n) = Suc n \<and> length (out_seen (allocations n)) = n"
proof (induction n)
  case 0
  show ?case by (simp add: allocations_def outbound_new_def)
next
  case (Suc n)
  then show ?case
    using allocate_eq [OF allocations_ok, of n] by (simp add: allocations_Suc)
qed

text \<open>
  Request ids are never reused: the first 8192 allocations of a connection succeed and
  give the pairwise different, valid ids \<open>c:rpc-1\<close>, \<open>c:rpc-2\<close>, ...; after that every
  allocation fails and the ledger no longer changes.
\<close>

theorem outbound_ids_fresh:
  "(\<forall>n < max_outbound_ledger. fst (allocate (allocations n)) = Inr (request_id (Suc n))
      \<and> valid_id (request_id (Suc n)) \<and> starts_with (request_id (Suc n)) ''c:'')
   \<and> (\<forall>m n. request_id m = request_id n \<longrightarrow> m = n)
   \<and> allocate (allocations max_outbound_ledger)
       = (Inl RequestLedgerExhausted, allocations max_outbound_ledger)"
proof -
  have "fst (allocate (allocations n)) = Inr (request_id (Suc n))
      \<and> valid_id (request_id (Suc n)) \<and> starts_with (request_id (Suc n)) ''c:''"
    if "n < max_outbound_ledger" for n
    using that allocate_eq [OF allocations_ok, of n] allocations_next [of n]
      request_id_valid [of "Suc n"]
    by (simp add: u64_max_def max_outbound_ledger_def) (simp add: request_id_def starts_with_def)
  moreover have "allocate (allocations max_outbound_ledger)
      = (Inl RequestLedgerExhausted, allocations max_outbound_ledger)"
    using allocate_eq [OF allocations_ok] allocations_next [of max_outbound_ledger] by simp
  ultimately show ?thesis by simp
qed

theorem outbound_ids_fresh_witness:
  "fst (allocate (allocations 6)) = Inr (request_id 7)"
proof -
  have "6 < max_outbound_ledger" by (simp add: max_outbound_ledger_def)
  with outbound_ids_fresh have "fst (allocate (allocations 6)) = Inr (request_id (Suc 6))" by blast
  then show ?thesis by simp
qed

subsection \<open>The initialized barrier\<close>

datatype barrier_state = NotSent | Sending | Confirmed | Failed

definition begin_send :: "barrier_state \<Rightarrow> agent_error + barrier_state" where
  "begin_send b = (if b \<noteq> NotSent then Inl AHandshakeFailed else Inr Sending)"

definition complete_send :: "bool \<Rightarrow> barrier_state" where
  "complete_send confirmed = (if confirmed then Confirmed else Failed)"

definition is_confirmed :: "barrier_state \<Rightarrow> bool" where
  "is_confirmed b \<longleftrightarrow> b = Confirmed"

text \<open>
  What \<open>wait_confirmation\<close> returns in a state, or \<open>None\<close> where it waits on; a wait whose
  time is up returns False there.
\<close>

definition confirmation :: "barrier_state \<Rightarrow> bool option" where
  "confirmation b = (case b of Confirmed \<Rightarrow> Some True | Failed \<Rightarrow> Some False | _ \<Rightarrow> None)"

text \<open>\<open>claim_ready\<close>: the answer and the flag after the compare-and-exchange.\<close>

definition claim_ready :: "barrier_state \<Rightarrow> bool \<Rightarrow> bool \<Rightarrow> bool \<times> bool" where
  "claim_ready b claimed closed =
     (if closed \<or> b \<noteq> Confirmed then (False, claimed)
      else if claimed then (False, claimed)
      else (True, True))"

end
