(* ===== verification/Ja_Pending.thy ===== *)
theory Ja_Pending
  imports Ja_Codec "HOL-Library.Multiset"
begin

text \<open>
  The bounded registry of requests waiting for a response (\<open>agent_process/pending.rs\<close>).

  The \<open>HashMap\<close> of active entries is an association list; its order stands for the map's
  iteration order, and every lemma holds from every state, so in every order. An \<open>Instant\<close>
  is a \<open>nat\<close>. A completion channel is written to at most once and its receiver may be gone:
  the messages sent are recorded in \<open>delivered\<close>, and \<open>issued\<close> records the receivers that
  \<open>register\<close> has handed out.
\<close>

subsection \<open>State and operations\<close>

datatype pending_terminal = TResolved | TTimedOut | TCancelled

datatype resolve_disposition =
  Delivered | DispDuplicateResponse | DispLateResponse | UnknownRequest

record pending_registry =
  active :: "(str \<times> nat) list"
  tombstones :: "(str \<times> pending_terminal) list"
  max_active :: nat
  tomb_limit :: nat
  issued :: "str list"
  delivered :: "(str \<times> (agent_error + rpc_frame)) list"

definition max_pending_entries :: nat where "max_pending_entries = 1024"
definition max_tombstone_entries :: nat where "max_tombstone_entries = 8192"

definition pending_new :: "nat \<Rightarrow> nat \<Rightarrow> pending_register_error + pending_registry" where
  "pending_new ma mt =
     (if ma = 0 \<or> max_pending_entries < ma \<or> mt = 0 \<or> max_tombstone_entries < mt
      then Inl PLimitReached
      else Inr \<lparr>active = [], tombstones = [], max_active = ma, tomb_limit = mt,
                issued = [], delivered = []\<rparr>)"

definition has_key :: "str \<Rightarrow> (str \<times> 'a) list \<Rightarrow> bool" where
  "has_key i xs \<longleftrightarrow> i \<in> fst ` set xs"

definition remove_key :: "str \<Rightarrow> (str \<times> 'a) list \<Rightarrow> (str \<times> 'a) list" where
  "remove_key i xs = filter (\<lambda>p. fst p \<noteq> i) xs"

definition pending_register ::
    "str \<Rightarrow> nat \<Rightarrow> pending_registry \<Rightarrow> pending_register_error + pending_registry" where
  "pending_register i deadline p =
     (if has_key i (active p) \<or> has_key i (tombstones p) then Inl PDuplicateRequest
      else if max_active p \<le> length (active p) then Inl PLimitReached
      else Inr (p\<lparr>active := (i, deadline) # active p, issued := i # issued p\<rparr>))"

fun evict :: "nat \<Rightarrow> 'a list \<Rightarrow> 'a list" where
  "evict m [] = []"
| "evict m (t # ts) = (if m \<le> length (t # ts) then evict m ts else t # ts)"

definition remember :: "str \<Rightarrow> pending_terminal \<Rightarrow> pending_registry \<Rightarrow> pending_registry" where
  "remember i t p =
     p\<lparr>tombstones := evict (tomb_limit p) (remove_key i (tombstones p)) @ [(i, t)]\<rparr>"

text \<open>\<open>active.remove(id)\<close>, one send on the entry's channel, and the tombstone.\<close>

definition finish ::
    "str \<Rightarrow> agent_error + rpc_frame \<Rightarrow> pending_terminal \<Rightarrow> pending_registry \<Rightarrow> pending_registry" where
  "finish i result t p =
     remember i t (p\<lparr>active := remove_key i (active p), delivered := (i, result) # delivered p\<rparr>)"

definition tombstone_disposition :: "str \<Rightarrow> pending_registry \<Rightarrow> resolve_disposition" where
  "tombstone_disposition i p =
     (case map_of (tombstones p) i of
        Some TResolved \<Rightarrow> DispDuplicateResponse
      | Some _ \<Rightarrow> DispLateResponse
      | None \<Rightarrow> UnknownRequest)"

definition pending_resolve ::
    "rpc_frame \<Rightarrow> pending_registry \<Rightarrow> resolve_disposition \<times> pending_registry" where
  "pending_resolve f p =
     (let i = frame_id f
      in if has_key i (active p) then (Delivered, finish i (Inr f) TResolved p)
         else (tombstone_disposition i p, p))"

definition pending_expire :: "nat \<Rightarrow> pending_registry \<Rightarrow> nat \<times> pending_registry" where
  "pending_expire now p =
     (let expired = map fst (filter (\<lambda>e. snd e \<le> now) (active p))
      in (length expired,
          foldl (\<lambda>q i. if has_key i (active q) then finish i (Inl DeadlineExceeded) TTimedOut q else q)
            p expired))"

definition pending_cancel :: "str \<Rightarrow> pending_registry \<Rightarrow> bool \<times> pending_registry" where
  "pending_cancel i p =
     (if has_key i (active p) then (True, finish i (Inl Cancelled) TCancelled p) else (False, p))"

definition pending_close :: "pending_registry \<Rightarrow> nat \<times> pending_registry" where
  "pending_close p =
     (let ids = map fst (active p)
      in (length ids,
          foldl (\<lambda>q i. if has_key i (active q) then finish i (Inl SessionClosed) TCancelled q else q)
            p ids))"

definition active_len :: "pending_registry \<Rightarrow> nat" where
  "active_len p = length (active p)"

definition tombstone_len :: "pending_registry \<Rightarrow> nat" where
  "tombstone_len p = length (tombstones p)"

text \<open>\<open>deadline_after\<close>: \<open>checked_add\<close> on the clock, which ends at \<open>limit\<close>.\<close>

definition deadline_after :: "nat \<Rightarrow> nat \<Rightarrow> nat \<Rightarrow> agent_error + nat" where
  "deadline_after limit now timeout =
     (if now + timeout \<le> limit then Inr (now + timeout) else Inl InvalidTimeout)"

subsection \<open>The invariant\<close>

definition pending_ok :: "pending_registry \<Rightarrow> bool" where
  "pending_ok p \<longleftrightarrow>
     distinct (map fst (active p)) \<and> distinct (map fst (tombstones p))
     \<and> fst ` set (active p) \<inter> fst ` set (tombstones p) = {}
     \<and> length (active p) \<le> max_active p \<and> length (tombstones p) \<le> tomb_limit p
     \<and> 0 < tomb_limit p
     \<and> mset (issued p) = mset (map fst (active p)) + mset (map fst (delivered p))"

lemma length_evict: "0 < m \<Longrightarrow> length (evict m ts) < m"
  by (induction m ts rule: evict.induct) auto

lemma set_evict: "set (evict m ts) \<subseteq> set ts"
  by (induction m ts rule: evict.induct) auto

lemma distinct_evict: "distinct (map fst ts) \<Longrightarrow> distinct (map fst (evict m ts))"
  by (induction m ts rule: evict.induct) auto

lemma remove_key_keys [simp]: "fst ` set (remove_key i xs) = fst ` set xs - {i}"
  by (auto simp: remove_key_def)

lemma distinct_remove_key: "distinct (map fst xs) \<Longrightarrow> distinct (map fst (remove_key i xs))"
  by (induction xs) (auto simp: remove_key_def)

lemma length_remove_key: "length (remove_key i xs) \<le> length xs"
  by (simp add: remove_key_def)

lemma mset_remove_key:
  "distinct (map fst xs) \<Longrightarrow> has_key i xs \<Longrightarrow>
     mset (map fst xs) = add_mset i (mset (map fst (remove_key i xs)))"
proof (induction xs)
  case (Cons x xs)
  show ?case
  proof (cases "fst x = i")
    case True
    then have "i \<notin> fst ` set xs" using Cons.prems(1) by simp
    then have "\<forall>p \<in> set xs. fst p \<noteq> i" by (metis image_eqI)
    then have "remove_key i xs = xs" unfolding remove_key_def by (induction xs) auto
    with True show ?thesis by (simp add: remove_key_def)
  next
    case False
    with Cons show ?thesis by (auto simp: remove_key_def has_key_def)
  qed
qed (simp add: has_key_def)

lemma finish_simps [simp]:
  "active (finish i r t p) = remove_key i (active p)"
  "issued (finish i r t p) = issued p"
  "delivered (finish i r t p) = (i, r) # delivered p"
  "max_active (finish i r t p) = max_active p"
  "tomb_limit (finish i r t p) = tomb_limit p"
  "tombstones (finish i r t p) = evict (tomb_limit p) (remove_key i (tombstones p)) @ [(i, t)]"
  by (simp_all add: finish_def remember_def)

lemma evict_remove_keys: "fst ` set (evict m (remove_key i ts)) \<subseteq> fst ` set ts - {i}"
  using set_evict [of m "remove_key i ts"] remove_key_keys [of i ts] by (metis image_mono)

lemma distinct_evict_remove:
  "distinct (map fst ts) \<Longrightarrow> distinct (map fst (evict m (remove_key i ts) @ [(i, t)]))"
  using distinct_evict [OF distinct_remove_key, of ts m i] evict_remove_keys [of m i ts] by auto

lemma finish_ok:
  assumes "pending_ok p" and key: "has_key i (active p)"
  shows "pending_ok (finish i r t p)"
proof -
  from assms(1) have ok: "distinct (map fst (active p))" "distinct (map fst (tombstones p))"
    "fst ` set (active p) \<inter> fst ` set (tombstones p) = {}" "length (active p) \<le> max_active p"
    "0 < tomb_limit p" "mset (issued p) = mset (map fst (active p)) + mset (map fst (delivered p))"
    by (simp_all add: pending_ok_def)
  have "mset (issued p) = mset (map fst (remove_key i (active p)))
      + add_mset i (mset (map fst (delivered p)))"
    using ok(6) mset_remove_key [OF ok(1) key] by simp
  moreover have "Suc (length (evict (tomb_limit p) (remove_key i (tombstones p)))) \<le> tomb_limit p"
    using length_evict [OF ok(5)] Suc_leI by blast
  moreover have "length (remove_key i (active p)) \<le> max_active p"
    using ok(4) length_remove_key [of i "active p"] by simp
  moreover have "(fst ` set (active p) - {i})
      \<inter> insert i (fst ` set (evict (tomb_limit p) (remove_key i (tombstones p)))) = {}"
    using ok(3) evict_remove_keys [of "tomb_limit p" i "tombstones p"] by blast
  ultimately show ?thesis
    unfolding pending_ok_def finish_simps
    using distinct_remove_key [OF ok(1), of i] distinct_evict_remove [OF ok(2)] ok(5)
    by (simp del: distinct_map map_append)
qed

text \<open>\<open>expire\<close> and \<open>close\<close> finish a list of active ids one after another.\<close>

definition finish_all ::
    "agent_error \<Rightarrow> pending_terminal \<Rightarrow> str list \<Rightarrow> pending_registry \<Rightarrow> pending_registry" where
  "finish_all e t ids p =
     foldl (\<lambda>q i. if has_key i (active q) then finish i (Inl e) t q else q) p ids"

lemma finish_all_simps [simp]:
  "finish_all e t [] p = p"
  "finish_all e t (i # ids) p =
     finish_all e t ids (if has_key i (active p) then finish i (Inl e) t p else p)"
  by (simp_all add: finish_all_def)

lemma finish_all_ok: "pending_ok p \<Longrightarrow> pending_ok (finish_all e t ids p)"
  by (induction ids arbitrary: p) (auto intro: finish_ok)

lemma remove_key_absent: "\<not> has_key i xs \<Longrightarrow> remove_key i xs = xs"
  unfolding remove_key_def has_key_def by (induction xs) auto

lemma finish_all_active:
  "active (finish_all e t ids p) = filter (\<lambda>x. fst x \<notin> set ids) (active p)"
proof (induction ids arbitrary: p)
  case (Cons i ids)
  have "active (finish_all e t (i # ids) p)
      = filter (\<lambda>x. fst x \<notin> set ids) (remove_key i (active p))"
    using Cons.IH remove_key_absent [of i "active p"] by simp
  then show ?case by (simp add: remove_key_def conj_commute)
qed simp

lemma finish_all_fixed [simp]:
  "max_active (finish_all e t ids p) = max_active p"
  "tomb_limit (finish_all e t ids p) = tomb_limit p"
  "issued (finish_all e t ids p) = issued p"
  by (induction ids arbitrary: p) auto

lemma finish_all_delivered:
  "\<exists>new. delivered (finish_all e t ids p) = new @ delivered p"
proof (induction ids arbitrary: p)
  case (Cons i ids)
  from Cons.IH [of "finish i (Inl e) t p"] Cons.IH [of p] show ?case
    by (auto simp: append_assoc [symmetric] simp del: append_assoc)
qed simp

lemma expire_finish_all:
  "snd (pending_expire now p)
     = finish_all DeadlineExceeded TTimedOut (map fst (filter (\<lambda>e. snd e \<le> now) (active p))) p"
  by (simp add: pending_expire_def finish_all_def Let_def)

lemma close_finish_all:
  "snd (pending_close p) = finish_all SessionClosed TCancelled (map fst (active p)) p"
  by (simp add: pending_close_def finish_all_def Let_def)

subsection \<open>Running the registry\<close>

text \<open>The session's calls under its mutex, one after another; refusals change nothing.\<close>

datatype pending_op =
  PRegister str nat | PResolve rpc_frame | PExpire nat | PCancel str | PClose

fun pending_step :: "pending_registry \<Rightarrow> pending_op \<Rightarrow> pending_registry" where
  "pending_step p (PRegister i d) =
     (case pending_register i d p of Inl _ \<Rightarrow> p | Inr q \<Rightarrow> q)"
| "pending_step p (PResolve f) = snd (pending_resolve f p)"
| "pending_step p (PExpire now) = snd (pending_expire now p)"
| "pending_step p (PCancel i) = snd (pending_cancel i p)"
| "pending_step p PClose = snd (pending_close p)"

lemma pending_new_ok: "pending_new ma mt = Inr p \<Longrightarrow> pending_ok p"
  by (auto simp: pending_new_def pending_ok_def split: if_splits)

lemma register_ok:
  assumes "pending_ok p" and "pending_register i d p = Inr q"
  shows "pending_ok q"
proof -
  have "i \<notin> fst ` set (active p)" "i \<notin> fst ` set (tombstones p)"
    "length (active p) < max_active p"
    and q: "q = p\<lparr>active := (i, d) # active p, issued := i # issued p\<rparr>"
    using assms(2) by (simp_all add: pending_register_def has_key_def split: if_splits)
  then show ?thesis
    using assms(1) unfolding pending_ok_def q by simp
qed

lemma pending_step_ok: "pending_ok p \<Longrightarrow> pending_ok (pending_step p x)"
  by (cases x)
     (auto simp: pending_resolve_def pending_cancel_def expire_finish_all close_finish_all Let_def
        intro: register_ok finish_ok finish_all_ok split: sum.splits)

lemma pending_step_delivered: "\<exists>new. delivered (pending_step p x) = new @ delivered p"
  by (cases x)
     (auto simp: pending_resolve_def pending_cancel_def pending_register_def expire_finish_all
        close_finish_all Let_def finish_all_delivered split: sum.splits if_splits)

interpretation pending: stepping pending_step pending_ok
  by unfold_locales (rule pending_step_ok)

interpretation pending_log: growing pending_step pending_ok delivered "\<lambda>old new. suffix old new"
  by unfold_locales (auto simp: suffix_def pending_step_delivered)

text \<open>
  C36. Every receiver the registry hands out gets exactly one message, or its request is still
  active: after any calls, the receivers issued are, with multiplicity, those whose request is
  active and those delivered to. Nothing is delivered twice and nobody is forgotten.
\<close>

theorem pending_exactly_once:
  assumes "pending_new ma mt = Inr p" and "q = foldl pending_step p ops"
  shows "mset (issued q) = mset (map fst (active q)) + mset (map fst (delivered q))
    \<and> distinct (map fst (active q))"
  using pending.run_inv [OF pending_new_ok [OF assms(1)], of ops] assms(2)
  by (simp add: pending_ok_def)

theorem pending_exactly_once_witness:
  "mset (issued (foldl pending_step
      \<lparr>active = [], tombstones = [], max_active = 2, tomb_limit = 2, issued = [], delivered = []\<rparr>
      [PRegister ''c:rpc-1'' 5, PExpire 9]))
   = mset [''c:rpc-1'']"
proof -
  let ?p = "\<lparr>active = [], tombstones = [], max_active = 2, tomb_limit = 2, issued = [],
    delivered = []\<rparr> :: pending_registry"
  have "pending_new 2 2 = Inr ?p"
    by (simp add: pending_new_def max_pending_entries_def max_tombstone_entries_def)
  from pending_exactly_once [OF this refl, of "[PRegister ''c:rpc-1'' 5, PExpire 9]"]
  show ?thesis
    by (simp add: pending_register_def has_key_def pending_expire_def Let_def remove_key_def)
qed

text \<open>
  The registry stays within the two capacities it was made with, however many requests
  pass through it, and an id is never both active and tombstoned.
\<close>

theorem pending_bounded:
  assumes "pending_new ma mt = Inr p"
  shows "active_len (foldl pending_step p ops) \<le> ma \<and> tombstone_len (foldl pending_step p ops) \<le> mt
    \<and> fst ` set (active (foldl pending_step p ops))
       \<inter> fst ` set (tombstones (foldl pending_step p ops)) = {}"
proof -
  have fixed: "max_active (pending_step q x) = max_active q \<and> tomb_limit (pending_step q x) = tomb_limit q"
    for q x
    by (cases x)
       (auto simp: pending_resolve_def pending_cancel_def pending_register_def expire_finish_all
          close_finish_all Let_def split: sum.splits if_splits)
  have "max_active (foldl pending_step q ops) = max_active q
      \<and> tomb_limit (foldl pending_step q ops) = tomb_limit q" for q
    by (induction ops arbitrary: q) (auto simp: fixed)
  then show ?thesis
    using pending.run_inv [OF pending_new_ok [OF assms], of ops] assms
    by (auto simp: pending_ok_def active_len_def tombstone_len_def pending_new_def split: if_splits)
qed

theorem pending_bounded_witness:
  "active_len (foldl pending_step
      \<lparr>active = [], tombstones = [], max_active = 1, tomb_limit = 1, issued = [], delivered = []\<rparr>
      [PRegister ''c:rpc-1'' 5, PRegister ''c:rpc-2'' 5]) \<le> 1"
proof -
  have "pending_new 1 1 = Inr \<lparr>active = [], tombstones = [], max_active = 1, tomb_limit = 1,
      issued = [], delivered = []\<rparr>"
    by (simp add: pending_new_def max_pending_entries_def max_tombstone_entries_def)
  from pending_bounded [OF this] show ?thesis by blast
qed

lemma finish_tombstone: "map_of (tombstones (finish i r t p)) i = Some t"
proof -
  have "i \<notin> fst ` set (evict (tomb_limit p) (remove_key i (tombstones p)))"
    using evict_remove_keys [of "tomb_limit p" i "tombstones p"] by blast
  then have "map_of (evict (tomb_limit p) (remove_key i (tombstones p))) i = None"
    by (simp add: map_of_eq_None_iff)
  then show ?thesis by (simp add: map_add_def)
qed

lemma remove_key_gone: "\<not> has_key i (remove_key i xs)"
  by (simp add: has_key_def)

text \<open>
  Only an active request can be answered: a response is delivered exactly when its id is
  active, as \<open>Ok\<close> of that very frame, and a second response with the id is then classified
  as a duplicate and changes nothing; a response after a cancellation is classified as late,
  and the canceller's waiter has received \<open>Cancelled\<close>.
\<close>

theorem pending_response_once:
  "(fst (pending_resolve f p) = Delivered \<longleftrightarrow> has_key (frame_id f) (active p))
   \<and> (has_key (frame_id f) (active p) \<longrightarrow>
       delivered (snd (pending_resolve f p)) = (frame_id f, Inr f) # delivered p
       \<and> (\<forall>g. frame_id g = frame_id f \<longrightarrow>
           pending_resolve g (snd (pending_resolve f p))
             = (DispDuplicateResponse, snd (pending_resolve f p))))
   \<and> (\<not> has_key (frame_id f) (active p) \<longrightarrow> snd (pending_resolve f p) = p)
   \<and> (has_key (frame_id f) (active p) \<longrightarrow>
       delivered (snd (pending_cancel (frame_id f) p)) = (frame_id f, Inl Cancelled) # delivered p
       \<and> pending_resolve f (snd (pending_cancel (frame_id f) p))
           = (DispLateResponse, snd (pending_cancel (frame_id f) p)))"
  by (auto simp: pending_resolve_def pending_cancel_def Let_def tombstone_disposition_def
      finish_tombstone remove_key_gone simp del: finish_simps(6)
      split: option.splits pending_terminal.splits)

theorem pending_response_once_witness:
  "fst (pending_resolve (sample_notification\<lparr>frame_id_opt := Some ''c:rpc-7''\<rparr>)
     \<lparr>active = [(''c:rpc-7'', 4)], tombstones = [], max_active = 1, tomb_limit = 1,
      issued = [''c:rpc-7''], delivered = []\<rparr>) = Delivered"
  using pending_response_once [of "sample_notification\<lparr>frame_id_opt := Some ''c:rpc-7''\<rparr>"
    "\<lparr>active = [(''c:rpc-7'', 4)], tombstones = [], max_active = 1, tomb_limit = 1,
      issued = [''c:rpc-7''], delivered = []\<rparr>"]
  by (simp add: has_key_def frame_id_def)

text \<open>After \<open>expire\<close> no active deadline has passed; after \<open>close\<close> nothing is active.\<close>

lemma expire_deadlines: "e \<in> set (active (snd (pending_expire now p))) \<Longrightarrow> now < snd e"
  by (auto simp: expire_finish_all finish_all_active)

lemma close_empty: "active (snd (pending_close p)) = []"
  by (auto simp: close_finish_all finish_all_active)

end
