(* ===== verification/Ja_Lanes.thy ===== *)
theory Ja_Lanes
  imports Ja_Prelude
begin

text \<open>
  The interface of a two-lane arbiter, which both the event queue and the stdin writer
  implement: a preferred lane, a waiting lane, and a bound on how many items of the preferred
  lane are served in a row while the other lane waits.
\<close>

datatype 'i lane_op = Feed 'i | Serve

fun lane_outputs ::
    "('s \<Rightarrow> 'e option \<times> 's) \<Rightarrow> ('s \<Rightarrow> 'i \<Rightarrow> 's) \<Rightarrow> 's \<Rightarrow> 'i lane_op list \<Rightarrow> 'e option list" where
  "lane_outputs serve feed s [] = []"
| "lane_outputs serve feed s (Feed i # ops) = lane_outputs serve feed (feed s i) ops"
| "lane_outputs serve feed s (Serve # ops) =
     fst (serve s) # lane_outputs serve feed (snd (serve s)) ops"

fun lane_calm ::
    "('s \<Rightarrow> 'e option \<times> 's) \<Rightarrow> ('s \<Rightarrow> 'i \<Rightarrow> 's) \<Rightarrow> ('s \<Rightarrow> bool) \<Rightarrow> 's \<Rightarrow> 'i lane_op list \<Rightarrow> bool" where
  "lane_calm serve feed calm s [] \<longleftrightarrow> calm s"
| "lane_calm serve feed calm s (Feed i # ops) \<longleftrightarrow> calm s \<and> lane_calm serve feed calm (feed s i) ops"
| "lane_calm serve feed calm s (Serve # ops) \<longleftrightarrow>
     calm s \<and> lane_calm serve feed calm (snd (serve s)) ops"

fun serves :: "'i lane_op list \<Rightarrow> nat" where
  "serves [] = 0"
| "serves (Feed i # ops) = serves ops"
| "serves (Serve # ops) = Suc (serves ops)"

lemma lane_calm_now: "lane_calm serve feed calm s ops \<Longrightarrow> calm s"
  by (cases ops rule: serves.cases) auto

locale fair_lanes =
  fixes serve :: "'s \<Rightarrow> 'e option \<times> 's"
    and feed :: "'s \<Rightarrow> 'i \<Rightarrow> 's"
    and waiting :: "'s \<Rightarrow> 'e list"
    and burst :: "'s \<Rightarrow> nat"
    and limit :: nat
    and calm :: "'s \<Rightarrow> bool"
  assumes serve_waiting: "calm s \<Longrightarrow> waiting s = d # ds \<Longrightarrow>
      fst (serve s) = Some d
      \<or> burst s < limit \<and> burst (snd (serve s)) = Suc (burst s) \<and> waiting (snd (serve s)) = d # ds"
    and feed_waiting: "calm s \<Longrightarrow> calm (feed s i) \<Longrightarrow>
      burst (feed s i) = burst s \<and> prefix (waiting s) (waiting (feed s i))"
begin

text \<open>The item at the head of the waiting lane is served within \<open>limit + 1\<close> services.\<close>

lemma head_served:
  "lane_calm serve feed calm s ops \<Longrightarrow> waiting s = d # ds \<Longrightarrow> limit - burst s < serves ops \<Longrightarrow>
     Some d \<in> set (lane_outputs serve feed s ops)"
proof (induction ops arbitrary: s ds rule: serves.induct)
  case (2 i ops)
  have "calm s" and "calm (feed s i)"
    using 2(2) lane_calm_now by auto
  then obtain ds' where "waiting (feed s i) = d # ds'" and "burst (feed s i) = burst s"
    using feed_waiting [of s i] 2(3) by (auto simp: prefix_def)
  with 2 show ?case by simp
next
  case (3 ops)
  have "calm s" using 3(2) by simp
  with serve_waiting [OF this 3(3)] 3 show ?case
    by (cases "fst (serve s) = Some d") auto
qed simp

end

end
