(* ===== verification/Ja_Event_Queue.thy ===== *)
theory Ja_Event_Queue
  imports Ja_Pending Ja_Lanes
begin

text \<open>
  The session's events (\<open>agent_process/session.rs\<close>) and their bounded queue
  (\<open>agent_process/events.rs\<close>).

  A push or a pop holds the queue's mutex, so the queue is a state and the operations are
  functions on it. A \<open>pop\<close> that has to wait releases the mutex and starts over after the
  next change: \<open>pop_pass\<close> is one pass of its loop, and a pass that would wait ends the call
  when its deadline has been reached. \<open>to_vec\<close> is serde_json's printer, which the size
  estimate of a frame uses through \<open>encode\<close>.
\<close>

subsection \<open>Events\<close>

datatype session_event =
    ServerRequest rpc_frame
  | NotificationEvent rpc_frame
  | StderrLine str
  | StderrTruncated
  | ResponseRejected resolve_disposition
  | ProtocolFaultEvent codec_error
  | WriterTimedOut
  | HandshakeFailedEvent
  | Eof
  | QueueOverflow queue_kind
  | QueueFatalOverflow queue_kind
  | ProcessExitedEvent nat "int option"

datatype event_priority = PControl | PData

definition is_turn_completed :: "rpc_frame \<Rightarrow> bool" where
  "is_turn_completed f \<longleftrightarrow> frame_method f = Some ''turn/completed''"

fun is_terminal_event :: "session_event \<Rightarrow> bool" where
  "is_terminal_event (ProtocolFaultEvent _) = True"
| "is_terminal_event WriterTimedOut = True"
| "is_terminal_event HandshakeFailedEvent = True"
| "is_terminal_event Eof = True"
| "is_terminal_event (QueueFatalOverflow _) = True"
| "is_terminal_event (ProcessExitedEvent _ _) = True"
| "is_terminal_event (ResponseRejected _) = True"
| "is_terminal_event (NotificationEvent f) = is_turn_completed f"
| "is_terminal_event _ = False"

fun is_server_request :: "session_event \<Rightarrow> bool" where
  "is_server_request (ServerRequest _) = True"
| "is_server_request _ = False"

definition control_queue_byte_budget :: "nat \<Rightarrow> nat" where
  "control_queue_byte_budget limit = sat_add limit 1"

definition frame_size :: "(json \<Rightarrow> bytes option) \<Rightarrow> rpc_frame \<Rightarrow> nat \<Rightarrow> nat" where
  "frame_size to_vec f limit =
     (case encode to_vec f limit of Inr b \<Rightarrow> length b | Inl _ \<Rightarrow> sat_add limit 1)"

fun event_size :: "(json \<Rightarrow> bytes option) \<Rightarrow> session_event \<Rightarrow> nat \<Rightarrow> nat" where
  "event_size to_vec (ServerRequest f) limit = frame_size to_vec f limit"
| "event_size to_vec (NotificationEvent f) limit = frame_size to_vec f limit"
| "event_size to_vec (StderrLine l) limit = length l"
| "event_size to_vec (ProtocolFaultEvent _) limit = 128"
| "event_size to_vec _ limit = 64"

subsection \<open>The queue\<close>

record event_queue =
  server_requests :: "session_event list"
  data_events :: "session_event list"
  control_events :: "session_event list"
  server_request_bytes :: nat
  data_bytes :: nat
  control_bytes :: nat
  fatal :: "queue_kind option"
  fatal_reported :: bool
  data_overflow_reported :: bool
  control_burst :: nat
  queue_closed :: bool
  data_capacity :: nat
  control_capacity :: nat
  max_data_bytes :: nat
  max_control_bytes :: nat
  queue_frame_bytes :: nat

definition control_queue_capacity :: nat where "control_queue_capacity = 64"
definition max_event_queue_bytes :: nat where "max_event_queue_bytes = 64 * 1024 * 1024"
definition max_event_control_burst :: nat where "max_event_control_burst = 8"

definition event_queue_new :: "nat \<Rightarrow> nat \<Rightarrow> event_queue" where
  "event_queue_new capacity frame_bytes = \<lparr>
     server_requests = [], data_events = [], control_events = [],
     server_request_bytes = 0, data_bytes = 0, control_bytes = 0,
     fatal = None, fatal_reported = False, data_overflow_reported = False,
     control_burst = 0, queue_closed = False,
     data_capacity = capacity, control_capacity = control_queue_capacity,
     max_data_bytes = max_event_queue_bytes,
     max_control_bytes = control_queue_byte_budget frame_bytes,
     queue_frame_bytes = frame_bytes \<rparr>"

definition control_full :: "nat \<Rightarrow> event_queue \<Rightarrow> bool" where
  "control_full notice_bytes q \<longleftrightarrow>
     control_capacity q \<le> length (control_events q)
     \<or> max_control_bytes q < sat_add (sat_add (server_request_bytes q) (control_bytes q)) notice_bytes"

definition overflow_notice ::
    "(json \<Rightarrow> bytes option) \<Rightarrow> queue_kind \<Rightarrow> event_queue \<Rightarrow> event_queue" where
  "overflow_notice to_vec kind q =
     (let notice = QueueOverflow kind;
          notice_bytes = event_size to_vec notice (queue_frame_bytes q)
      in if control_full notice_bytes q then
           q\<lparr>data_overflow_reported := True,
             fatal := (case fatal q of None \<Rightarrow> Some QControl | Some k \<Rightarrow> Some k)\<rparr>
         else
           q\<lparr>data_overflow_reported := True,
             control_events := control_events q @ [notice],
             control_bytes := sat_add (control_bytes q) notice_bytes\<rparr>)"

text \<open>The capacity and byte test of \<open>push\<close>; a server request counts in its own queue.\<close>

definition push_overflows :: "session_event \<Rightarrow> event_priority \<Rightarrow> nat \<Rightarrow> event_queue \<Rightarrow> bool" where
  "push_overflows e priority bytes q \<longleftrightarrow>
     (let capacity = (case priority of PControl \<Rightarrow> control_capacity q | PData \<Rightarrow> data_capacity q);
          queue_len = (case priority of PControl \<Rightarrow> length (control_events q)
            | PData \<Rightarrow> length (data_events q));
          queue_len = (if is_server_request e then length (server_requests q) else queue_len);
          queue_bytes = (if priority = PControl
            then sat_add (server_request_bytes q) (control_bytes q) else data_bytes q);
          byte_limit = (if priority = PControl then max_control_bytes q else max_data_bytes q)
      in capacity \<le> queue_len \<or> byte_limit < sat_add queue_bytes bytes)"

definition push_event_queue ::
    "(json \<Rightarrow> bytes option) \<Rightarrow> session_event \<Rightarrow> event_priority \<Rightarrow> queue_kind \<Rightarrow> event_queue
      \<Rightarrow> event_queue" where
  "push_event_queue to_vec e priority kind q =
     (let bytes = event_size to_vec e (queue_frame_bytes q)
      in if push_overflows e priority bytes q then
           (if priority = PData then
              (if \<not> data_overflow_reported q then overflow_notice to_vec kind q else q)
            else if fatal q = None then q\<lparr>fatal := Some kind\<rparr>
            else q)
         else if is_server_request e then
           q\<lparr>server_requests := server_requests q @ [e],
             server_request_bytes := sat_add (server_request_bytes q) bytes\<rparr>
         else (case priority of
             PControl \<Rightarrow> q\<lparr>control_events := control_events q @ [e],
               control_bytes := sat_add (control_bytes q) bytes\<rparr>
           | PData \<Rightarrow> q\<lparr>data_events := data_events q @ [e],
               data_bytes := sat_add (data_bytes q) bytes\<rparr>))"

datatype pop_result = Popped session_event | Finished | MustWait

definition pop_data :: "(json \<Rightarrow> bytes option) \<Rightarrow> session_event \<Rightarrow> session_event list \<Rightarrow> event_queue
    \<Rightarrow> event_queue" where
  "pop_data to_vec e es q = q\<lparr>data_events := es,
     data_bytes := data_bytes q - event_size to_vec e (queue_frame_bytes q), control_burst := 0\<rparr>"

definition pop_request :: "(json \<Rightarrow> bytes option) \<Rightarrow> session_event \<Rightarrow> session_event list \<Rightarrow> event_queue
    \<Rightarrow> event_queue" where
  "pop_request to_vec e es q = q\<lparr>server_requests := es,
     server_request_bytes := server_request_bytes q - event_size to_vec e (queue_frame_bytes q),
     control_burst := sat_add (control_burst q) 1\<rparr>"

definition pop_control :: "(json \<Rightarrow> bytes option) \<Rightarrow> session_event \<Rightarrow> session_event list \<Rightarrow> event_queue
    \<Rightarrow> event_queue" where
  "pop_control to_vec e es q = q\<lparr>control_events := es,
     control_bytes := control_bytes q - event_size to_vec e (queue_frame_bytes q),
     control_burst := sat_add (control_burst q) 1\<rparr>"

definition pop_lanes :: "(json \<Rightarrow> bytes option) \<Rightarrow> event_queue \<Rightarrow> pop_result \<times> event_queue" where
  "pop_lanes to_vec q =
     (if max_event_control_burst \<le> control_burst q \<and> data_events q \<noteq> []
      then (Popped (hd (data_events q)), pop_data to_vec (hd (data_events q)) (tl (data_events q)) q)
      else case server_requests q of
        e # es \<Rightarrow> (Popped e, pop_request to_vec e es q)
      | [] \<Rightarrow> (case control_events q of
          e # es \<Rightarrow> (Popped e, pop_control to_vec e es q)
        | [] \<Rightarrow> (case data_events q of
            e # es \<Rightarrow> (Popped e, pop_data to_vec e es q)
          | [] \<Rightarrow> if fatal_reported q \<or> queue_closed q then (Finished, q) else (MustWait, q))))"

text \<open>\<open>fatal.take()\<close> empties the slot even where the report has been made already.\<close>

definition pop_pass :: "(json \<Rightarrow> bytes option) \<Rightarrow> event_queue \<Rightarrow> pop_result \<times> event_queue" where
  "pop_pass to_vec q =
     (case fatal q of
        Some kind \<Rightarrow>
          if \<not> fatal_reported q
          then (Popped (QueueFatalOverflow kind), q\<lparr>fatal := None, fatal_reported := True\<rparr>)
          else pop_lanes to_vec (q\<lparr>fatal := None\<rparr>)
      | None \<Rightarrow> pop_lanes to_vec q)"

text \<open>A \<open>pop\<close> whose deadline has been reached when it would wait.\<close>

definition pop_event ::
    "(json \<Rightarrow> bytes option) \<Rightarrow> event_queue \<Rightarrow> session_event option \<times> event_queue" where
  "pop_event to_vec q = (case pop_pass to_vec q of
     (Popped e, q') \<Rightarrow> (Some e, q')
   | (_, q') \<Rightarrow> (None, q'))"

definition pop_server_request ::
    "(json \<Rightarrow> bytes option) \<Rightarrow> event_queue \<Rightarrow> rpc_frame option \<times> event_queue" where
  "pop_server_request to_vec q =
     (case server_requests q of
        ServerRequest f # es \<Rightarrow> (Some f, pop_request to_vec (ServerRequest f) es q)
      | _ # es \<Rightarrow> (None, q\<lparr>server_requests := es\<rparr>)
      | [] \<Rightarrow> (None, q))"

definition queue_is_fatal :: "event_queue \<Rightarrow> bool" where
  "queue_is_fatal q \<longleftrightarrow> fatal q \<noteq> None"

definition close_event_queue :: "(json \<Rightarrow> bytes option) \<Rightarrow> event_queue \<Rightarrow> event_queue" where
  "close_event_queue to_vec q =
     (let kept = filter is_terminal_event (control_events q)
      in q\<lparr>queue_closed := True, server_requests := [], server_request_bytes := 0,
           data_events := [], data_bytes := 0, control_events := kept,
           control_bytes := sum_list (map (\<lambda>e. event_size to_vec e (queue_frame_bytes q)) kept)\<rparr>)"

subsection \<open>The invariant: exact accounting within the bounds\<close>

definition total_size :: "(json \<Rightarrow> bytes option) \<Rightarrow> nat \<Rightarrow> session_event list \<Rightarrow> nat" where
  "total_size to_vec limit es = sum_list (map (\<lambda>e. event_size to_vec e limit) es)"

definition queue_shape :: "event_queue \<Rightarrow> bool" where
  "queue_shape q \<longleftrightarrow>
     control_capacity q = control_queue_capacity
     \<and> max_control_bytes q = Suc (queue_frame_bytes q)
     \<and> queue_frame_bytes q \<le> max_max_frame_bytes
     \<and> max_data_bytes q = max_event_queue_bytes"

definition queue_ok :: "(json \<Rightarrow> bytes option) \<Rightarrow> event_queue \<Rightarrow> bool" where
  "queue_ok to_vec q \<longleftrightarrow>
     queue_shape q
     \<and> list_all is_server_request (server_requests q)
     \<and> total_size to_vec (queue_frame_bytes q) (server_requests q) = server_request_bytes q
     \<and> total_size to_vec (queue_frame_bytes q) (control_events q) = control_bytes q
     \<and> total_size to_vec (queue_frame_bytes q) (data_events q) = data_bytes q
     \<and> length (server_requests q) \<le> control_capacity q
     \<and> length (control_events q) \<le> control_capacity q
     \<and> length (data_events q) \<le> data_capacity q
     \<and> server_request_bytes q + control_bytes q \<le> max_control_bytes q
     \<and> data_bytes q \<le> max_data_bytes q"

lemma total_size_simps [simp]:
  "total_size to_vec l [] = 0"
  "total_size to_vec l (e # es) = event_size to_vec e l + total_size to_vec l es"
  "total_size to_vec l (es @ fs) = total_size to_vec l es + total_size to_vec l fs"
  by (simp_all add: total_size_def)

lemma total_size_filter: "total_size to_vec l (filter P es) \<le> total_size to_vec l es"
  by (induction es) auto

lemma control_limit_small: "queue_shape q \<Longrightarrow> max_control_bytes q < usize_max"
  by (simp add: queue_shape_def max_max_frame_bytes_def usize_max_def)

lemma data_limit_small: "queue_shape q \<Longrightarrow> max_data_bytes q < usize_max"
  by (simp add: queue_shape_def max_event_queue_bytes_def usize_max_def)

lemma sat_add_within: "sat_add a b \<le> c \<Longrightarrow> c < usize_max \<Longrightarrow> sat_add a b = a + b \<and> a + b \<le> c"
  by (auto simp: sat_add_def min_def split: if_splits)

lemma shape_updates [simp]:
  "queue_shape (q\<lparr>server_requests := a\<rparr>) = queue_shape q"
  "queue_shape (q\<lparr>data_events := a\<rparr>) = queue_shape q"
  "queue_shape (q\<lparr>control_events := a\<rparr>) = queue_shape q"
  "queue_shape (q\<lparr>server_request_bytes := n\<rparr>) = queue_shape q"
  "queue_shape (q\<lparr>data_bytes := n\<rparr>) = queue_shape q"
  "queue_shape (q\<lparr>control_bytes := n\<rparr>) = queue_shape q"
  "queue_shape (q\<lparr>fatal := k\<rparr>) = queue_shape q"
  "queue_shape (q\<lparr>fatal_reported := b\<rparr>) = queue_shape q"
  "queue_shape (q\<lparr>data_overflow_reported := b\<rparr>) = queue_shape q"
  "queue_shape (q\<lparr>control_burst := n\<rparr>) = queue_shape q"
  "queue_shape (q\<lparr>queue_closed := b\<rparr>) = queue_shape q"
  by (simp_all add: queue_shape_def)

lemma overflow_notice_ok:
  assumes "queue_ok to_vec q"
  shows "queue_ok to_vec (overflow_notice to_vec kind q)"
proof -
  have shape: "queue_shape q" using assms by (simp add: queue_ok_def)
  let ?n = "event_size to_vec (QueueOverflow kind) (queue_frame_bytes q)"
  show ?thesis
  proof (cases "control_full ?n q")
    case True
    then show ?thesis
      using assms unfolding overflow_notice_def Let_def if_P [OF True] by (simp add: queue_ok_def)
  next
    case False
    then have "length (control_events q) < control_capacity q"
      and fits: "sat_add (sat_add (server_request_bytes q) (control_bytes q)) ?n \<le> max_control_bytes q"
      by (auto simp: control_full_def)
    have "sat_add (server_request_bytes q) (control_bytes q) \<le> max_control_bytes q"
      using assms sat_add_le [of "server_request_bytes q" "control_bytes q"]
      by (simp add: queue_ok_def)
    then have sum: "server_request_bytes q + control_bytes q + ?n \<le> max_control_bytes q"
      using fits sat_add_within control_limit_small [OF shape] by metis
    then have "sat_add (control_bytes q) ?n = control_bytes q + ?n"
      using control_limit_small [OF shape] by (intro sat_add_eq) simp
    then show ?thesis
      using assms sum \<open>length (control_events q) < control_capacity q\<close>
      unfolding overflow_notice_def Let_def if_not_P [OF False]
      by (simp add: queue_ok_def)
  qed
qed

lemma push_ok:
  assumes ok: "queue_ok to_vec q" and prio: "is_server_request e \<Longrightarrow> p = PControl"
  shows "queue_ok to_vec (push_event_queue to_vec e p kind q)"
proof -
  have shape: "queue_shape q" using ok by (simp add: queue_ok_def)
  note small = control_limit_small [OF shape] data_limit_small [OF shape]
  let ?b = "event_size to_vec e (queue_frame_bytes q)"
  have control: "sat_add (server_request_bytes q) (control_bytes q)
      = server_request_bytes q + control_bytes q"
    using ok small by (intro sat_add_eq) (simp add: queue_ok_def)
  consider (request) "is_server_request e" "p = PControl"
    | (control) "\<not> is_server_request e" "p = PControl"
    | (data) "\<not> is_server_request e" "p = PData"
    using prio by (cases p) auto
  then show ?thesis
  proof cases
    case request
    show ?thesis
    proof (cases "control_capacity q \<le> length (server_requests q)
        \<or> max_control_bytes q < sat_add (server_request_bytes q + control_bytes q) ?b")
      case True
      then show ?thesis
        using ok request by (auto simp: push_event_queue_def push_overflows_def Let_def control queue_ok_def)
    next
      case False
      then have "server_request_bytes q + control_bytes q + ?b \<le> max_control_bytes q"
        using sat_add_within small(1) by (metis not_le)
      moreover from this have "sat_add (server_request_bytes q) ?b = server_request_bytes q + ?b"
        using small(1) by (intro sat_add_eq) simp
      ultimately show ?thesis
        using ok request False by (auto simp: push_event_queue_def push_overflows_def Let_def control queue_ok_def)
    qed
  next
    case control
    show ?thesis
    proof (cases "control_capacity q \<le> length (control_events q)
        \<or> max_control_bytes q < sat_add (server_request_bytes q + control_bytes q) ?b")
      case True
      then show ?thesis
        using ok control \<open>sat_add (server_request_bytes q) (control_bytes q)
          = server_request_bytes q + control_bytes q\<close>
        by (auto simp: push_event_queue_def push_overflows_def Let_def queue_ok_def)
    next
      case False
      then have "server_request_bytes q + control_bytes q + ?b \<le> max_control_bytes q"
        using sat_add_within small(1) by (metis not_le)
      moreover from this have "sat_add (control_bytes q) ?b = control_bytes q + ?b"
        using small(1) by (intro sat_add_eq) simp
      ultimately show ?thesis
        using ok control False \<open>sat_add (server_request_bytes q) (control_bytes q)
          = server_request_bytes q + control_bytes q\<close>
        by (auto simp: push_event_queue_def push_overflows_def Let_def queue_ok_def)
    qed
  next
    case data
    show ?thesis
    proof (cases "data_capacity q \<le> length (data_events q)
        \<or> max_data_bytes q < sat_add (data_bytes q) ?b")
      case True
      then show ?thesis
        using ok data overflow_notice_ok [OF ok, of kind]
        by (auto simp: push_event_queue_def push_overflows_def Let_def)
    next
      case False
      then have "sat_add (data_bytes q) ?b = data_bytes q + ?b \<and> data_bytes q + ?b \<le> max_data_bytes q"
        using sat_add_within small(2) by (metis not_le)
      then show ?thesis
        using ok data False by (auto simp: push_event_queue_def push_overflows_def Let_def queue_ok_def)
    qed
  qed
qed

lemma pop_ok: "queue_ok to_vec q \<Longrightarrow> queue_ok to_vec (snd (pop_pass to_vec q))"
proof -
  have lanes: "queue_ok to_vec q \<Longrightarrow> queue_ok to_vec (snd (pop_lanes to_vec q))" for q
    by (auto simp: pop_lanes_def pop_data_def pop_request_def pop_control_def queue_ok_def
        neq_Nil_conv split: list.splits)
  have "queue_ok to_vec q \<Longrightarrow> queue_ok to_vec (q\<lparr>fatal := None\<rparr>)"
    "queue_ok to_vec q \<Longrightarrow> queue_ok to_vec (q\<lparr>fatal := None, fatal_reported := True\<rparr>)"
    by (simp_all add: queue_ok_def)
  with lanes show "queue_ok to_vec q \<Longrightarrow> queue_ok to_vec (snd (pop_pass to_vec q))"
    by (auto simp: pop_pass_def split: option.splits)
qed

lemma pop_request_ok: "queue_ok to_vec q \<Longrightarrow> queue_ok to_vec (snd (pop_server_request to_vec q))"
  by (auto simp: pop_server_request_def pop_request_def queue_ok_def
      split: list.splits session_event.splits)

lemma close_ok: "queue_ok to_vec q \<Longrightarrow> queue_ok to_vec (close_event_queue to_vec q)"
proof -
  assume ok: "queue_ok to_vec q"
  have "length (filter is_terminal_event (control_events q)) \<le> control_capacity q"
    by (rule order_trans [OF length_filter_le]) (use ok in \<open>simp add: queue_ok_def\<close>)
  then show ?thesis
    using ok total_size_filter [of to_vec "queue_frame_bytes q" is_terminal_event "control_events q"]
    by (simp add: close_event_queue_def queue_ok_def Let_def total_size_def [symmetric])
qed

lemma event_queue_new_ok: "frame_bytes \<le> max_max_frame_bytes \<Longrightarrow> queue_ok to_vec (event_queue_new c frame_bytes)"
  by (simp add: queue_ok_def queue_shape_def event_queue_new_def control_queue_byte_budget_def
      sat_add_def max_max_frame_bytes_def usize_max_def)

text \<open>
  The calls of the session: server requests are pushed at control priority only. A pop is one
  pass of its loop.
\<close>

datatype queue_op =
    QPushRequest rpc_frame queue_kind
  | QPush session_event event_priority queue_kind
  | QPop
  | QPopRequest
  | QClose

fun queue_step :: "(json \<Rightarrow> bytes option) \<Rightarrow> event_queue \<Rightarrow> queue_op \<Rightarrow> event_queue" where
  "queue_step to_vec q (QPushRequest f k) = push_event_queue to_vec (ServerRequest f) PControl k q"
| "queue_step to_vec q (QPush e p k) =
     (if is_server_request e then q else push_event_queue to_vec e p k q)"
| "queue_step to_vec q QPop = snd (pop_pass to_vec q)"
| "queue_step to_vec q QPopRequest = snd (pop_server_request to_vec q)"
| "queue_step to_vec q QClose = close_event_queue to_vec q"

lemma queue_step_ok: "queue_ok to_vec q \<Longrightarrow> queue_ok to_vec (queue_step to_vec q x)"
  by (cases x) (auto intro: push_ok pop_ok pop_request_ok close_ok)

interpretation event_queue: stepping "queue_step to_vec" "queue_ok to_vec" for to_vec
  by unfold_locales (rule queue_step_ok)

lemma push_fixed:
  "data_capacity (push_event_queue to_vec e p k q) = data_capacity q"
  "queue_frame_bytes (push_event_queue to_vec e p k q) = queue_frame_bytes q"
  by (auto simp: push_event_queue_def overflow_notice_def Let_def split: event_priority.split)

lemma pop_lanes_fixed:
  "data_capacity (snd (pop_lanes to_vec q)) = data_capacity q
   \<and> queue_frame_bytes (snd (pop_lanes to_vec q)) = queue_frame_bytes q"
  by (simp add: pop_lanes_def pop_data_def pop_request_def pop_control_def split: list.split)

lemma pop_fixed:
  "data_capacity (snd (pop_pass to_vec q)) = data_capacity q
   \<and> queue_frame_bytes (snd (pop_pass to_vec q)) = queue_frame_bytes q"
  by (simp add: pop_pass_def pop_lanes_fixed split: option.split)

lemma step_fixed:
  "data_capacity (queue_step to_vec q x) = data_capacity q
   \<and> queue_frame_bytes (queue_step to_vec q x) = queue_frame_bytes q"
  by (cases x)
     (simp_all add: push_fixed pop_fixed pop_server_request_def pop_request_def
        close_event_queue_def Let_def split: list.split session_event.split)

lemma run_fixed:
  "data_capacity (foldl (queue_step to_vec) q xs) = data_capacity q
   \<and> queue_frame_bytes (foldl (queue_step to_vec) q xs) = queue_frame_bytes q"
  by (induction xs arbitrary: q) (simp_all add: step_fixed)

text \<open>
  Whatever is pushed, popped and closed, the event queue holds at most 64 server requests,
  64 control events and its data capacity, its byte counters are the exact sums of the sizes
  of what it holds, and these stay within one maximal frame for the control lanes and 64 MiB
  for data.
\<close>

theorem event_queue_bounded:
  assumes "frame_bytes \<le> max_max_frame_bytes"
    and "q = foldl (queue_step to_vec) (event_queue_new capacity frame_bytes) xs"
  shows "length (server_requests q) \<le> 64 \<and> length (control_events q) \<le> 64
    \<and> length (data_events q) \<le> capacity
    \<and> server_request_bytes q = total_size to_vec frame_bytes (server_requests q)
    \<and> control_bytes q = total_size to_vec frame_bytes (control_events q)
    \<and> data_bytes q = total_size to_vec frame_bytes (data_events q)
    \<and> server_request_bytes q + control_bytes q \<le> frame_bytes + 1
    \<and> data_bytes q \<le> 64 * 1024 * 1024"
proof -
  have "queue_ok to_vec q"
    using event_queue.run_inv [OF event_queue_new_ok [OF assms(1)]] assms(2) by simp
  moreover have "data_capacity q = capacity" and "queue_frame_bytes q = frame_bytes"
    using run_fixed [of to_vec "event_queue_new capacity frame_bytes" xs] assms(2)
    by (simp_all add: event_queue_new_def)
  ultimately show ?thesis
    by (simp add: queue_ok_def queue_shape_def control_queue_capacity_def max_event_queue_bytes_def)
qed

theorem event_queue_bounded_witness:
  "length (data_events (foldl (queue_step (\<lambda>_. None)) (event_queue_new 1 1024)
     [QPush (StderrLine ''a'') PData QStderr, QPush (StderrLine ''b'') PData QStderr])) \<le> 1"
  using event_queue_bounded [OF _ refl, of 1024 "\<lambda>_. None" 1
    "[QPush (StderrLine ''a'') PData QStderr, QPush (StderrLine ''b'') PData QStderr]"]
  by (simp add: max_max_frame_bytes_def)

subsection \<open>Fairness\<close>

definition feed_event ::
    "(json \<Rightarrow> bytes option) \<Rightarrow> event_queue \<Rightarrow> session_event \<times> event_priority \<times> queue_kind \<Rightarrow> event_queue"
  where
  "feed_event to_vec q i = (case i of (e, p, k) \<Rightarrow> push_event_queue to_vec e p k q)"

definition queue_calm :: "event_queue \<Rightarrow> bool" where
  "queue_calm q \<longleftrightarrow> fatal q = None"

interpretation event_lanes: fair_lanes "pop_event to_vec" "feed_event to_vec" data_events
  control_burst max_event_control_burst queue_calm for to_vec
proof
  fix to_vec q d ds
  assume "queue_calm q" and data: "data_events q = d # ds"
  then have pass: "pop_pass to_vec q = pop_lanes to_vec q"
    by (simp add: queue_calm_def pop_pass_def)
  have small: "control_burst q < max_event_control_burst \<Longrightarrow> sat_add (control_burst q) 1 = Suc (control_burst q)"
    by (simp add: sat_add_def usize_max_def max_event_control_burst_def)
  show "fst (pop_event to_vec q) = Some d
    \<or> control_burst q < max_event_control_burst
      \<and> control_burst (snd (pop_event to_vec q)) = Suc (control_burst q)
      \<and> data_events (snd (pop_event to_vec q)) = d # ds"
    using small data
    by (cases "max_event_control_burst \<le> control_burst q")
       (auto simp: pop_event_def pass pop_lanes_def pop_request_def pop_control_def
          split: list.splits)
next
  fix to_vec q and i :: "session_event \<times> event_priority \<times> queue_kind"
  obtain e p k where i: "i = (e, p, k)" by (cases i)
  have "control_burst (feed_event to_vec q i) = control_burst q"
    by (auto simp: i feed_event_def push_event_queue_def overflow_notice_def Let_def
        split: event_priority.split)
  moreover have "data_events (feed_event to_vec q i) \<in> {data_events q, data_events q @ [e]}"
    by (auto simp: i feed_event_def push_event_queue_def overflow_notice_def Let_def
        split: event_priority.split)
  ultimately show "control_burst (feed_event to_vec q i) = control_burst q
    \<and> prefix (data_events q) (data_events (feed_event to_vec q i))"
    by auto
qed

text \<open>
  Control traffic cannot starve data: as long as no fatal overflow is pending, the data
  event at the head of its lane is delivered within nine pops, whatever is pushed in between.
\<close>

theorem data_event_served:
  assumes "lane_calm (pop_event to_vec) (feed_event to_vec) queue_calm q ops"
    and "data_events q = d # ds" and "8 < serves ops"
  shows "Some d \<in> set (lane_outputs (pop_event to_vec) (feed_event to_vec) q ops)"
  using event_lanes.head_served [OF assms(1,2)] assms(3)
  by (simp add: max_event_control_burst_def)

theorem data_event_served_witness:
  "Some (StderrLine ''x'') \<in> set (lane_outputs (pop_event (\<lambda>_. None)) (feed_event (\<lambda>_. None))
     (feed_event (\<lambda>_. None) (event_queue_new 4 1024) (StderrLine ''x'', PData, QStderr))
     (replicate 9 Serve))"
proof (rule data_event_served)
  let ?q = "feed_event (\<lambda>_. None) (event_queue_new 4 1024) (StderrLine ''x'', PData, QStderr)"
  have q: "?q = (event_queue_new 4 1024)\<lparr>data_events := [StderrLine ''x''], data_bytes := 1\<rparr>"
    by (simp add: feed_event_def push_event_queue_def push_overflows_def event_queue_new_def Let_def
        max_event_queue_bytes_def sat_add_def usize_max_def)
  then show "data_events ?q = [StderrLine ''x'']" by simp
  show "8 < serves (replicate 9 Serve)" by (simp add: numeral_eq_Suc)
  have "lane_calm (pop_event (\<lambda>_. None)) (feed_event (\<lambda>_. None)) queue_calm s (replicate n Serve)"
    if "queue_calm s" for s n
    using that
  proof (induction n arbitrary: s)
    case (Suc n)
    have "queue_calm (snd (pop_event (\<lambda>_. None) s))"
      using Suc.prems
      by (simp add: queue_calm_def pop_event_def pop_pass_def pop_lanes_def pop_data_def
          pop_request_def pop_control_def split: list.split)
    with Suc show ?case by simp
  qed simp
  moreover have "queue_calm ?q"
    unfolding q by (simp add: queue_calm_def event_queue_new_def)
  ultimately show "lane_calm (pop_event (\<lambda>_. None)) (feed_event (\<lambda>_. None)) queue_calm ?q
      (replicate 9 Serve)"
    by blast
qed

subsection \<open>Overflow is reported, once\<close>

fun is_overflow :: "session_event \<Rightarrow> bool" where
  "is_overflow (QueueOverflow _) = True"
| "is_overflow _ = False"

definition notices :: "session_event list \<Rightarrow> nat" where
  "notices es = length (filter is_overflow es)"

definition notice_budget :: "event_queue \<Rightarrow> nat" where
  "notice_budget q = notices (server_requests q) + notices (control_events q) + notices (data_events q)
     + (if data_overflow_reported q then 0 else 1)"

lemma notices_simps [simp]:
  "notices [] = 0" "notices (e # es) = (if is_overflow e then Suc (notices es) else notices es)"
  "notices (es @ fs) = notices es + notices fs"
  by (simp_all add: notices_def)

lemma push_budget:
  "\<not> is_overflow e \<Longrightarrow> notice_budget (push_event_queue to_vec e p k q) \<le> notice_budget q"
  by (auto simp: notice_budget_def push_event_queue_def overflow_notice_def Let_def
      split: event_priority.split)

lemma pop_budget:
  "notice_budget (snd (pop_event to_vec q))
     + (case fst (pop_event to_vec q) of Some e \<Rightarrow> if is_overflow e then 1 else 0 | None \<Rightarrow> 0)
   \<le> notice_budget q"
proof -
  have lanes: "notice_budget (snd (pop_lanes to_vec q))
     + (case fst (pop_lanes to_vec q) of Popped e \<Rightarrow> if is_overflow e then 1 else 0 | _ \<Rightarrow> 0)
     \<le> notice_budget q" for q
    by (cases "data_events q")
       (simp_all add: pop_lanes_def pop_data_def pop_request_def pop_control_def notice_budget_def
          split: list.split)
  have clear: "notice_budget (q\<lparr>fatal := x\<rparr>) = notice_budget q"
    "notice_budget (q\<lparr>fatal := x, fatal_reported := b\<rparr>) = notice_budget q" for x b
    by (simp_all add: notice_budget_def)
  have pass: "notice_budget (snd (pop_pass to_vec q))
     + (case fst (pop_pass to_vec q) of Popped e \<Rightarrow> if is_overflow e then 1 else 0 | _ \<Rightarrow> 0)
     \<le> notice_budget q"
    using lanes [of q] lanes [of "q\<lparr>fatal := None\<rparr>"]
    by (simp add: pop_pass_def clear split: option.split)
  obtain r q' where "pop_pass to_vec q = (r, q')" by fastforce
  with pass show ?thesis
    by (cases r) (simp_all add: pop_event_def)
qed

text \<open>
  Data overflow is reported at most once: if nobody else publishes overflow notices, the
  consumer sees at most one \<open>QueueOverflow\<close>, however many data events were dropped; and a
  control event that does not fit makes the next pop deliver the fatal overflow of its kind
  before anything else.
\<close>

theorem overflow_reported_once:
  "((\<forall>e p k. Feed (e, p, k) \<in> set ops \<longrightarrow> \<not> is_overflow e) \<longrightarrow>
      length (filter (\<lambda>x. opt_ex is_overflow x)
        (lane_outputs (pop_event to_vec) (feed_event to_vec) (event_queue_new c l) ops)) \<le> 1)
   \<and> (push_overflows e PControl (event_size to_vec e (queue_frame_bytes q)) q \<longrightarrow>
      fatal q = None \<longrightarrow> \<not> fatal_reported q \<longrightarrow>
      fst (pop_event to_vec (push_event_queue to_vec e PControl kind q))
        = Some (QueueFatalOverflow kind))"
proof -
  have "length (filter (\<lambda>x. opt_ex is_overflow x)
      (lane_outputs (pop_event to_vec) (feed_event to_vec) q ops)) \<le> notice_budget q"
    if "\<forall>e p k. Feed (e, p, k) \<in> set ops \<longrightarrow> \<not> is_overflow e" for q
    using that
  proof (induction ops arbitrary: q rule: serves.induct)
    case (2 i ops)
    obtain e p k where i: "i = (e, p, k)" by (cases i)
    then have "notice_budget (feed_event to_vec q i) \<le> notice_budget q"
      using push_budget [of e to_vec p k q] 2(2) by (auto simp: feed_event_def)
    moreover have "length (filter (\<lambda>x. opt_ex is_overflow x)
        (lane_outputs (pop_event to_vec) (feed_event to_vec) (feed_event to_vec q i) ops))
      \<le> notice_budget (feed_event to_vec q i)"
      using 2 by auto
    ultimately show ?case by simp
  next
    case (3 ops)
    have "length (filter (\<lambda>x. opt_ex is_overflow x)
        (lane_outputs (pop_event to_vec) (feed_event to_vec) (snd (pop_event to_vec q)) ops))
      \<le> notice_budget (snd (pop_event to_vec q))"
      using 3 by auto
    then show ?case
      using pop_budget [of to_vec q] by (cases "fst (pop_event to_vec q)") auto
  qed simp
  from this [of "event_queue_new c l"] show ?thesis
    by (auto simp: notice_budget_def event_queue_new_def push_event_queue_def pop_event_def
        pop_pass_def Let_def)
qed

theorem overflow_reported_once_witness:
  "length (filter (\<lambda>x. opt_ex is_overflow x)
     (lane_outputs (pop_event (\<lambda>_. None)) (feed_event (\<lambda>_. None)) (event_queue_new 0 1024)
       [Feed (StderrLine ''a'', PData, QStderr), Feed (StderrLine ''b'', PData, QStderr),
        Serve, Serve])) \<le> 1"
  using overflow_reported_once [of "[Feed (StderrLine ''a'', PData, QStderr),
      Feed (StderrLine ''b'', PData, QStderr), Serve, Serve]" "\<lambda>_. None" 0 1024]
  by simp

end
