(* ===== verification/Ja_Writer.thy ===== *)
theory Ja_Writer
  imports Ja_Event_Queue
begin

text \<open>
  The writer's two bounded lanes (\<open>WriterHandle\<close>, \<open>reserve_bytes\<close>, \<open>next_frame\<close> of
  \<open>agent_process/wire.rs\<close>). A \<open>sync_channel\<close> is the list of the frames queued in it, with
  its capacity; \<open>receivers_gone\<close> is set when the writer thread has dropped the receiving
  ends. The compare-and-exchange loop of \<open>reserve_bytes\<close> makes each reservation atomic.
\<close>

subsection \<open>State and operations\<close>

record writer =
  w_control :: "bytes list"
  w_data :: "bytes list"
  w_control_capacity :: nat
  w_data_capacity :: nat
  w_control_bytes :: nat
  w_data_bytes :: nat
  w_control_max :: nat
  w_data_max :: nat
  w_burst :: nat
  receivers_gone :: bool

definition max_writer_data_queue_bytes :: nat where
  "max_writer_data_queue_bytes = 64 * 1024 * 1024"

definition max_control_burst :: nat where "max_control_burst = 8"

definition writer_new :: "limits \<Rightarrow> writer" where
  "writer_new l = \<lparr>w_control = [], w_data = [],
     w_control_capacity = control_queue_capacity, w_data_capacity = outbound_queue_frames l,
     w_control_bytes = 0, w_data_bytes = 0,
     w_control_max = control_queue_byte_budget (max_frame_bytes l),
     w_data_max = max_writer_data_queue_bytes,
     w_burst = 0, receivers_gone = False\<rparr>"

definition reserve_bytes :: "nat \<Rightarrow> nat \<Rightarrow> nat \<Rightarrow> nat option" where
  "reserve_bytes current bytes limit =
     (if limit - current < bytes then None else Some (sat_add current bytes))"

text \<open>
  The counter is stepped before \<open>try_send\<close> and stepped back when that fails, so a refused
  frame leaves the writer as it was.
\<close>

definition writer_send :: "bool \<Rightarrow> bytes \<Rightarrow> event_priority \<Rightarrow> writer \<Rightarrow> agent_error + writer" where
  "writer_send closed frame priority w =
     (if closed then Inl SessionClosed
      else case priority of
        PControl \<Rightarrow> (case reserve_bytes (w_control_bytes w) (length frame) (w_control_max w) of
            None \<Rightarrow> Inl (QueueFull QControl)
          | Some reserved \<Rightarrow>
              if receivers_gone w then Inl (QueueClosed QControl)
              else if w_control_capacity w \<le> length (w_control w) then Inl (QueueFull QControl)
              else Inr (w\<lparr>w_control := w_control w @ [frame], w_control_bytes := reserved\<rparr>))
      | PData \<Rightarrow> (case reserve_bytes (w_data_bytes w) (length frame) (w_data_max w) of
            None \<Rightarrow> Inl (QueueFull QData)
          | Some reserved \<Rightarrow>
              if receivers_gone w then Inl (QueueClosed QData)
              else if w_data_capacity w \<le> length (w_data w) then Inl (QueueFull QData)
              else Inr (w\<lparr>w_data := w_data w @ [frame], w_data_bytes := reserved\<rparr>)))"

definition next_frame :: "writer \<Rightarrow> (bytes \<times> event_priority) option \<times> writer" where
  "next_frame w =
     (if max_control_burst \<le> w_burst w \<and> w_data w \<noteq> []
      then (Some (hd (w_data w), PData), w\<lparr>w_data := tl (w_data w), w_burst := 0\<rparr>)
      else case w_control w of
        f # fs \<Rightarrow> (Some (f, PControl), w\<lparr>w_control := fs, w_burst := sat_add (w_burst w) 1\<rparr>)
      | [] \<Rightarrow> (case w_data w of
          f # fs \<Rightarrow> (Some (f, PData), w\<lparr>w_data := fs, w_burst := 0\<rparr>)
        | [] \<Rightarrow> (None, w)))"

definition writer_release :: "event_priority \<Rightarrow> nat \<Rightarrow> writer \<Rightarrow> writer" where
  "writer_release priority bytes w =
     (case priority of
        PControl \<Rightarrow> w\<lparr>w_control_bytes := w_control_bytes w - bytes\<rparr>
      | PData \<Rightarrow> w\<lparr>w_data_bytes := w_data_bytes w - bytes\<rparr>)"

text \<open>The head of the writer's loop: the next frame, with its bytes released.\<close>

definition take_frame :: "writer \<Rightarrow> (bytes \<times> event_priority) option \<times> writer" where
  "take_frame w = (case next_frame w of
     (None, w') \<Rightarrow> (None, w')
   | (Some (f, p), w') \<Rightarrow> (Some (f, p), writer_release p (length f) w'))"

subsection \<open>Byte accounting\<close>

definition writer_ok :: "writer \<Rightarrow> bool" where
  "writer_ok w \<longleftrightarrow>
     sum_list (map length (w_control w)) = w_control_bytes w
     \<and> sum_list (map length (w_data w)) = w_data_bytes w
     \<and> w_control_bytes w \<le> w_control_max w \<and> w_data_bytes w \<le> w_data_max w
     \<and> length (w_control w) \<le> w_control_capacity w \<and> length (w_data w) \<le> w_data_capacity w
     \<and> w_control_max w < usize_max \<and> w_data_max w < usize_max"

datatype writer_op = WSend bytes event_priority | WTake

fun writer_step :: "writer \<Rightarrow> writer_op \<Rightarrow> writer" where
  "writer_step w (WSend f p) = (case writer_send False f p w of Inr w' \<Rightarrow> w' | Inl _ \<Rightarrow> w)"
| "writer_step w WTake = snd (take_frame w)"

lemma reserve_Some:
  "reserve_bytes c b m = Some r \<Longrightarrow> c \<le> m \<Longrightarrow> m < usize_max \<Longrightarrow> r = c + b \<and> c + b \<le> m"
  by (auto simp: reserve_bytes_def sat_add_def split: if_splits)

lemma writer_send_ok:
  assumes "writer_ok w" and "writer_send closed f p w = Inr w'"
  shows "writer_ok w'"
  using assms
  by (cases p)
     (auto simp: writer_send_def writer_ok_def split: if_splits option.splits dest!: reserve_Some)

lemma take_frame_ok: "writer_ok w \<Longrightarrow> writer_ok (snd (take_frame w))"
  by (cases "w_data w"; cases "w_control w")
     (auto simp: take_frame_def next_frame_def writer_release_def writer_ok_def)

lemma writer_step_ok: "writer_ok w \<Longrightarrow> writer_ok (writer_step w x)"
  by (cases x) (auto intro: take_frame_ok writer_send_ok split: sum.split)

interpretation writer: stepping writer_step writer_ok
  by unfold_locales (rule writer_step_ok)

lemma writer_new_ok: "max_frame_bytes l \<le> max_max_frame_bytes \<Longrightarrow> writer_ok (writer_new l)"
  by (simp add: writer_ok_def writer_new_def control_queue_byte_budget_def sat_add_def
      max_max_frame_bytes_def max_writer_data_queue_bytes_def usize_max_def)

subsection \<open>Fairness\<close>

definition feed_writer :: "writer \<Rightarrow> bytes \<times> event_priority \<Rightarrow> writer" where
  "feed_writer w i = (case writer_send False (fst i) (snd i) w of Inr w' \<Rightarrow> w' | Inl _ \<Rightarrow> w)"

definition tagged_data :: "writer \<Rightarrow> (bytes \<times> event_priority) list" where
  "tagged_data w = map (\<lambda>f. (f, PData)) (w_data w)"

interpretation writer_lanes: fair_lanes take_frame feed_writer tagged_data w_burst max_control_burst
  "\<lambda>_. True"
proof
  fix w d ds
  assume "tagged_data w = d # ds"
  then obtain f fs where "w_data w = f # fs" and "d = (f, PData)" and "ds = map (\<lambda>f. (f, PData)) fs"
    by (auto simp: tagged_data_def)
  moreover have "w_burst w < max_control_burst \<Longrightarrow> sat_add (w_burst w) 1 = Suc (w_burst w)"
    by (simp add: sat_add_def usize_max_def max_control_burst_def)
  ultimately show "fst (take_frame w) = Some d
    \<or> w_burst w < max_control_burst \<and> w_burst (snd (take_frame w)) = Suc (w_burst w)
      \<and> tagged_data (snd (take_frame w)) = d # ds"
    by (cases "max_control_burst \<le> w_burst w"; cases "w_control w")
       (auto simp: take_frame_def next_frame_def writer_release_def tagged_data_def)
next
  fix w and i :: "bytes \<times> event_priority"
  show "w_burst (feed_writer w i) = w_burst w \<and> prefix (tagged_data w) (tagged_data (feed_writer w i))"
    by (auto simp: feed_writer_def writer_send_def tagged_data_def
        split: event_priority.split option.split sum.split)
qed

text \<open>
  The stdin writer keeps both promises of its two lanes: whatever is sent and taken, the
  byte counters are the exact sizes of the queued frames and stay within one maximal frame
  (control) and 64 MiB (data), so a full data lane never uses up the control reserve; and a
  data frame at the head of its lane is written within nine frames, however many control
  frames keep arriving.
\<close>

theorem writer_lanes_bounded_fair:
  assumes "max_frame_bytes l \<le> max_max_frame_bytes"
    and "w = foldl writer_step (writer_new l) xs"
  shows "sum_list (map length (w_control w)) = w_control_bytes w
    \<and> sum_list (map length (w_data w)) = w_data_bytes w
    \<and> w_control_bytes w \<le> max_frame_bytes l + 1 \<and> w_data_bytes w \<le> 64 * 1024 * 1024
    \<and> (\<forall>f fs ops. w_data w = f # fs \<longrightarrow> 8 < serves ops \<longrightarrow>
        Some (f, PData) \<in> set (lane_outputs take_frame feed_writer w ops))"
proof -
  have fixed: "w_control_max (writer_step w x) = w_control_max w \<and> w_data_max (writer_step w x) = w_data_max w"
    for w x
    by (cases x)
       (auto simp: writer_send_def take_frame_def next_frame_def writer_release_def
          split: event_priority.split option.split sum.split list.split)
  have "w_control_max (foldl writer_step w xs) = w_control_max w
      \<and> w_data_max (foldl writer_step w xs) = w_data_max w" for w
    by (induction xs arbitrary: w) (simp_all add: fixed)
  then have limits: "w_control_max w = max_frame_bytes l + 1" "w_data_max w = 64 * 1024 * 1024"
    using assms by (simp_all add: writer_new_def control_queue_byte_budget_def sat_add_def
        max_max_frame_bytes_def max_writer_data_queue_bytes_def usize_max_def)
  have ok: "writer_ok w"
    using writer.run_inv [OF writer_new_ok [OF assms(1)], of xs] assms(2) by simp
  have calm: "lane_calm take_frame feed_writer (\<lambda>_. True) w ops" for w ops
    by (induction ops arbitrary: w rule: serves.induct) auto
  have "Some (f, PData) \<in> set (lane_outputs take_frame feed_writer w ops)"
    if "w_data w = f # fs" and "8 < serves ops" for f fs ops
    using writer_lanes.head_served [OF calm, of w "(f, PData)" "map (\<lambda>f. (f, PData)) fs" ops] that
    by (simp add: tagged_data_def max_control_burst_def)
  then show ?thesis
    using ok limits by (simp add: writer_ok_def)
qed

theorem writer_lanes_bounded_fair_witness:
  "w_control_bytes (foldl writer_step (writer_new default_limits)
     [WSend ''ab'' PControl, WSend ''c'' PData, WTake]) \<le> max_frame_bytes default_limits + 1"
  using writer_lanes_bounded_fair [OF _ refl, of default_limits
    "[WSend ''ab'' PControl, WSend ''c'' PData, WTake]"]
  by (simp add: default_limits_def max_max_frame_bytes_def)

end
