(* ===== verification/Ja_Session.thy ===== *)
theory Ja_Session
  imports Ja_Handshake Ja_Ledger Ja_Writer
begin

text \<open>
  One sidecar session (\<open>agent_process/session.rs\<close>, the pumps of \<open>agent_process/wire.rs\<close>):
  the shared \<open>SessionInner\<close> and every operation that changes it.

  Each operation is a function on the state, and the threads (callers, reader, writer, stderr
  drain, supervisor) interleave between operations. An operation that blocks, or that other
  threads can cut in two, is split at that point: the reader's turn into \<open>reader_begin\<close> (the
  test of \<open>closed\<close> before the blocking read) and \<open>reader_turn\<close>; the writer's \<open>write + flush\<close>,
  which holds the initialized barrier, into \<open>writer_begin\<close> and \<open>writer_end\<close>; a request into
  \<open>request_admit\<close>, \<open>request_register\<close> and \<open>request_send\<close>, so that the session may close between
  any two of them. \<open>to_vec\<close> and \<open>de\<close> are serde_json's printer and deserializer.
\<close>

subsection \<open>State\<close>

datatype terminal_reason = RFault | RProcessExited | RClosed

datatype reader_state = RIdle | RReading | RStopped

record session =
  s_generation :: nat
  s_limits :: limits
  s_events :: event_queue
  s_pending :: pending_registry
  s_inbound :: inbound_requests
  s_outbound :: outbound_ledger
  s_writer :: writer
  s_in_flight :: "bool option" \<comment> \<open>a frame is being written; is it \<open>initialized\<close>?\<close>
  s_reader :: reader_state
  s_closed :: bool
  s_pump_claimed :: bool
  s_callback :: bool
  s_called :: "terminal_reason list" \<comment> \<open>the calls of the terminal callback\<close>
  s_barrier :: barrier_state
  s_challenge :: "str option"
  s_forbidden :: "str set"
  s_initialized_sent :: bool
  s_ready_claimed :: bool
  s_ready_consumed :: bool
  s_stderr_bytes :: nat
  s_stderr_truncated :: bool
  s_stderr_line :: bytes
  s_stderr_draining :: bool
  s_data_overflow_reported :: bool

definition max_operation_timeout :: nanos where
  "max_operation_timeout = 3600 * 1000000000"

definition session_new :: "nat \<Rightarrow> limits \<Rightarrow> bool \<Rightarrow> agent_error + session" where
  "session_new gen l callback =
     and_then (map_err from_codec (limits_validate l)) (\<lambda>_.
      let max_active_requests = min (max_pending_requests l) (max_in_flight_requests l)
      in and_then (map_err from_pending (pending_new max_active_requests (max_tombstones l)))
        (\<lambda>p. Inr \<lparr>
          s_generation = gen, s_limits = l,
          s_events = event_queue_new (inbound_queue_frames l) (max_frame_bytes l),
          s_pending = p,
          s_inbound = inbound_new max_active_requests,
          s_outbound = outbound_new,
          s_writer = writer_new l,
          s_in_flight = None,
          s_reader = RIdle,
          s_closed = False,
          s_pump_claimed = False,
          s_callback = callback,
          s_called = [],
          s_barrier = NotSent,
          s_challenge = None,
          s_forbidden = {},
          s_initialized_sent = False,
          s_ready_claimed = False,
          s_ready_consumed = False,
          s_stderr_bytes = 0,
          s_stderr_truncated = False,
          s_stderr_line = [],
          s_stderr_draining = False,
          s_data_overflow_reported = False \<rparr>))"

subsection \<open>Closing and events\<close>

definition fail_closed_with_reason ::
    "(json \<Rightarrow> bytes option) \<Rightarrow> terminal_reason \<Rightarrow> session \<Rightarrow> session" where
  "fail_closed_with_reason to_vec reason s =
     (if s_closed s then s
      else s\<lparr>s_closed := True,
             s_events := close_event_queue to_vec (s_events s),
             s_callback := False,
             s_called := (if s_callback s then s_called s @ [reason] else s_called s),
             s_pending := snd (pending_close (s_pending s))\<rparr>)"

definition fail_closed :: "(json \<Rightarrow> bytes option) \<Rightarrow> session \<Rightarrow> session" where
  "fail_closed to_vec s = fail_closed_with_reason to_vec RFault s"

definition push_event ::
    "(json \<Rightarrow> bytes option) \<Rightarrow> session_event \<Rightarrow> event_priority \<Rightarrow> queue_kind \<Rightarrow> session \<Rightarrow> session" where
  "push_event to_vec e p k s =
     (if s_closed s \<and> \<not> is_terminal_event e then s
      else let s' = s\<lparr>s_events := push_event_queue to_vec e p k (s_events s)\<rparr>
        in if queue_is_fatal (s_events s') then fail_closed to_vec s' else s')"

definition push_control :: "(json \<Rightarrow> bytes option) \<Rightarrow> session_event \<Rightarrow> session \<Rightarrow> session" where
  "push_control to_vec e s = push_event to_vec e PControl QControl s"

text \<open>A fault event followed by \<open>fail_closed\<close>, as every protocol error does.\<close>

definition fault :: "(json \<Rightarrow> bytes option) \<Rightarrow> session_event \<Rightarrow> session \<Rightarrow> session" where
  "fault to_vec e s = fail_closed to_vec (push_control to_vec e s)"

definition handle_writer_error ::
    "(json \<Rightarrow> bytes option) \<Rightarrow> agent_error \<Rightarrow> session \<Rightarrow> session" where
  "handle_writer_error to_vec e s =
     (case e of
        QueueFull QData \<Rightarrow>
          if \<not> s_data_overflow_reported s
          then push_control to_vec (QueueOverflow QData) (s\<lparr>s_data_overflow_reported := True\<rparr>)
          else s
      | QueueFull QControl \<Rightarrow> fault to_vec (QueueFatalOverflow QControl) s
      | QueueClosed _ \<Rightarrow> fail_closed to_vec s
      | _ \<Rightarrow> s)"

text \<open>\<open>writer.send\<close> with its error handling.\<close>

definition send_frame ::
    "(json \<Rightarrow> bytes option) \<Rightarrow> bytes \<Rightarrow> event_priority \<Rightarrow> session \<Rightarrow> (agent_error + unit) \<times> session" where
  "send_frame to_vec b p s =
     (case writer_send (s_closed s) b p (s_writer s) of
        Inr w \<Rightarrow> (Inr (), s\<lparr>s_writer := w\<rparr>)
      | Inl e \<Rightarrow> (Inl e, handle_writer_error to_vec e s))"

definition report_process_exit :: "(json \<Rightarrow> bytes option) \<Rightarrow> int option \<Rightarrow> session \<Rightarrow> session" where
  "report_process_exit to_vec code s =
     fail_closed_with_reason to_vec RProcessExited
       (push_control to_vec (ProcessExitedEvent (s_generation s) code) s)"

definition report_process_fault :: "(json \<Rightarrow> bytes option) \<Rightarrow> session \<Rightarrow> session" where
  "report_process_fault to_vec s = fault to_vec (ProtocolFaultEvent Io) s"

text \<open>\<open>joined\<close>: the writer thread ended before the deadline.\<close>

definition close_until :: "(json \<Rightarrow> bytes option) \<Rightarrow> bool \<Rightarrow> session \<Rightarrow> session" where
  "close_until to_vec joined s =
     (let s' = fail_closed_with_reason to_vec RClosed s
      in if joined then s' else push_control to_vec (ProtocolFaultEvent Io) s')"

definition detach_terminal_callback :: "session \<Rightarrow> session" where
  "detach_terminal_callback s = s\<lparr>s_callback := False\<rparr>"

definition take_event_pump :: "session \<Rightarrow> (agent_error + unit) \<times> session" where
  "take_event_pump s =
     (if s_pump_claimed s then (Inl InvalidState, s) else (Inr (), s\<lparr>s_pump_claimed := True\<rparr>))"

subsection \<open>The ready handshake\<close>

definition install_ready_token_challenge :: "str \<Rightarrow> session \<Rightarrow> (agent_error + unit) \<times> session" where
  "install_ready_token_challenge token s =
     (if \<not> valid_ready_token token then (Inl AHandshakeFailed, s)
      else (Inr (), s\<lparr>s_forbidden := {token}, s_challenge := Some token,
        s_initialized_sent := False, s_barrier := NotSent,
        s_ready_claimed := False, s_ready_consumed := False\<rparr>))"

definition validate_initialized_params :: "json \<Rightarrow> session \<Rightarrow> agent_error + unit" where
  "validate_initialized_params params s =
     and_then (ok_or (s_challenge s) AHandshakeFailed) (\<lambda>expected.
       require (opt_ex (\<lambda>o'. length o' = 1 \<and> get_str o' ''readyToken'' = Some expected
           \<and> valid_ready_token expected) (as_object params)) AHandshakeFailed)"

definition initialized_params :: "session \<Rightarrow> agent_error + json" where
  "initialized_params s =
     and_then (ok_or (s_challenge s) AHandshakeFailed) (\<lambda>token.
       Inr (JObj (obj_of [(''readyToken'', JStr token)])))"

definition claim_ready_notification :: "session \<Rightarrow> bool \<times> session" where
  "claim_ready_notification s =
     (case claim_ready (s_barrier s) (s_ready_claimed s) (s_closed s) of
        (r, claimed) \<Rightarrow> (r, s\<lparr>s_ready_claimed := claimed\<rparr>))"

definition ready_after_barrier :: "rpc_frame \<Rightarrow> session \<Rightarrow> bool \<times> session" where
  "ready_after_barrier f s =
     (case frame_params f of
        None \<Rightarrow> (False, s)
      | Some params \<Rightarrow>
          if s_closed s \<or> \<not> is_confirmed (s_barrier s) then (False, s)
          else if \<not> s_ready_claimed s then (False, s)
          else case s_challenge s of
            None \<Rightarrow> (False, s)
          | Some expected \<Rightarrow>
              if Option.bind (json_get params ''readyToken'') as_str \<noteq> Some expected
                 \<or> \<not> valid_ready_token expected
                 \<or> \<not> ready_params_are_safe params expected (s_forbidden s)
              then (False, s)
              else if s_ready_consumed s then (False, s)
              else (True, s\<lparr>s_ready_consumed := True\<rparr>))"

text \<open>\<open>promote\<close> is what the supervisor's commit returns under the gate.\<close>

definition with_ready_promotion ::
    "rpc_frame \<Rightarrow> (agent_error + unit) \<Rightarrow> session \<Rightarrow> (agent_error + unit) \<times> session" where
  "with_ready_promotion f promote s =
     (if s_closed s then (Inl SessionClosed, s)
      else case ready_after_barrier f s of
        (False, s') \<Rightarrow> (Inl AHandshakeFailed, s')
      | (True, s') \<Rightarrow> (promote, s'))"

subsection \<open>Inbound frames\<close>

definition notification_routing :: "rpc_frame \<Rightarrow> event_priority \<times> queue_kind" where
  "notification_routing f =
     (if is_turn_completed f then (PControl, QControl)
      else if opt_ex (\<lambda>m. starts_with m ''runtime/'') (frame_method f) then (PControl, QData)
      else (PData, QData))"

definition frame_payload_is_safe :: "rpc_frame \<Rightarrow> session \<Rightarrow> bool \<Rightarrow> bool" where
  "frame_payload_is_safe f s ready =
     (let F = s_forbidden s in
      if opt_ex (\<lambda>i. i \<in> F) (frame_id_opt f)
         \<or> opt_ex (\<lambda>m. m \<in> F) (frame_method f)
         \<or> opt_ex (\<lambda>e. err_message e \<in> F) (frame_error f)
         \<or> opt_ex (contains_forbidden_token F) (present_value (frame_result f))
         \<or> opt_ex (\<lambda>e. contains_forbidden_token F (err_data e)) (frame_error f)
      then False
      else case frame_params f of
        None \<Rightarrow> \<not> ready
      | Some params \<Rightarrow>
          if \<not> ready then \<not> contains_forbidden_token F params
          else case s_challenge s of
            None \<Rightarrow> False
          | Some expected \<Rightarrow> (case as_object params of
              None \<Rightarrow> False
            | Some o' \<Rightarrow> list_all (\<lambda>(k, v).
                if k = ''readyToken'' then as_str v = Some expected \<and> valid_ready_token expected
                else k \<notin> F \<and> \<not> is_ready_token_key k \<and> \<not> is_token_shaped k
                  \<and> \<not> contains_token_shaped_marker v \<and> \<not> contains_forbidden_token F v) o'))"

definition dispatch_response :: "(json \<Rightarrow> bytes option) \<Rightarrow> rpc_frame \<Rightarrow> session \<Rightarrow> session" where
  "dispatch_response to_vec f s =
     (if \<not> frame_payload_is_safe f s False
      then fault to_vec (ProtocolFaultEvent InvalidEnvelope) s
      else case pending_resolve f (s_pending s) of
        (d, p) \<Rightarrow> let s' = s\<lparr>s_pending := p\<rparr>
          in if d \<noteq> Delivered then fault to_vec (ResponseRejected d) s' else s')"

definition dispatch_server_request :: "(json \<Rightarrow> bytes option) \<Rightarrow> rpc_frame \<Rightarrow> session \<Rightarrow> session" where
  "dispatch_server_request to_vec f s =
     (if \<not> frame_payload_is_safe f s False
      then fault to_vec (ProtocolFaultEvent InvalidEnvelope) s
      else case inbound_register (s_inbound s) (frame_id f) of
        Inl _ \<Rightarrow> fault to_vec (ProtocolFaultEvent InvalidEnvelope) s
      | Inr r \<Rightarrow> push_control to_vec (ServerRequest f) (s\<lparr>s_inbound := r\<rparr>))"

definition dispatch_notification :: "(json \<Rightarrow> bytes option) \<Rightarrow> rpc_frame \<Rightarrow> session \<Rightarrow> session" where
  "dispatch_notification to_vec f s =
     (let is_ready = is_runtime_ready_notification f;
          is_initialized = (frame_method f = Some ''initialized'')
      in if \<not> frame_payload_is_safe f s is_ready
         then fault to_vec (if is_ready \<or> is_initialized then HandshakeFailedEvent
           else ProtocolFaultEvent InvalidEnvelope) s
         else case (if is_ready then claim_ready_notification s else (True, s)) of
           (False, s') \<Rightarrow> fault to_vec HandshakeFailedEvent s'
         | (True, s') \<Rightarrow> (case notification_routing f of
             (p, k) \<Rightarrow> push_event to_vec (NotificationEvent f) p k s'))"

definition dispatch_frame :: "(json \<Rightarrow> bytes option) \<Rightarrow> rpc_frame \<Rightarrow> session \<Rightarrow> session" where
  "dispatch_frame to_vec f s =
     (case validate f of
        Inr Response \<Rightarrow> dispatch_response to_vec f s
      | Inr frame_kind.ServerRequest \<Rightarrow> dispatch_server_request to_vec f s
      | Inr Notification \<Rightarrow> dispatch_notification to_vec f s
      | _ \<Rightarrow> fault to_vec (ProtocolFaultEvent InvalidEnvelope) s)"

text \<open>
  One turn of the reader: the loop's test, then the frame that \<open>read_frame\<close> delivered, or its
  error. A session that closes during the read still gets that frame. A ready notification
  that meets a write in progress waits for the barrier: the turn is not over.
\<close>

definition reader_begin :: "session \<Rightarrow> session" where
  "reader_begin s =
     (if s_reader s = RIdle
      then s\<lparr>s_reader := (if s_closed s then RStopped else RReading)\<rparr> else s)"

definition reader_turn ::
    "(json \<Rightarrow> bytes option) \<Rightarrow> codec_error + rpc_frame \<Rightarrow> session \<Rightarrow> session" where
  "reader_turn to_vec r s =
     (if s_reader s \<noteq> RReading then s
      else case r of
        Inr f \<Rightarrow> if is_runtime_ready_notification f \<and> s_barrier s = Sending then s
                 else dispatch_frame to_vec f (s\<lparr>s_reader := RIdle\<rparr>)
      | Inl UnexpectedEof \<Rightarrow> fault to_vec Eof (s\<lparr>s_reader := RStopped\<rparr>)
      | Inl HandshakeFailed \<Rightarrow> fault to_vec HandshakeFailedEvent (s\<lparr>s_reader := RStopped\<rparr>)
      | Inl e \<Rightarrow> fault to_vec (ProtocolFaultEvent e) (s\<lparr>s_reader := RStopped\<rparr>))"

text \<open>The event pump, and the queue a waiting request with a handler drains.\<close>

definition next_event ::
    "(json \<Rightarrow> bytes option) \<Rightarrow> session \<Rightarrow> session_event option \<times> session" where
  "next_event to_vec s =
     (case pop_event to_vec (s_events s) of (e, q) \<Rightarrow> (e, s\<lparr>s_events := q\<rparr>))"

definition next_server_request ::
    "(json \<Rightarrow> bytes option) \<Rightarrow> session \<Rightarrow> rpc_frame option \<times> session" where
  "next_server_request to_vec s =
     (case pop_server_request to_vec (s_events s) of (f, q) \<Rightarrow> (f, s\<lparr>s_events := q\<rparr>))"

subsection \<open>Outbound calls\<close>

text \<open>\<open>admission\<close> is the stopping flag of the caller's gate, where it has one.\<close>

definition method_priority :: "str \<Rightarrow> str \<Rightarrow> event_priority" where
  "method_priority special m =
     (if m = special \<or> starts_with m ''runtime/'' then PControl else PData)"

definition request_admit ::
    "(json \<Rightarrow> bytes option) \<Rightarrow> bool option \<Rightarrow> nanos \<Rightarrow> str \<Rightarrow> json \<Rightarrow> session
      \<Rightarrow> (agent_error + str \<times> bytes) \<times> session" where
  "request_admit to_vec admission timeout m params s =
     (if max_operation_timeout < timeout then (Inl InvalidTimeout, s)
      else if admission = Some True then (Inl ShuttingDown, s)
      else if s_closed s then (Inl SessionClosed, s)
      else if contains_forbidden_ready_token (s_forbidden s) params then (Inl AHandshakeFailed, s)
      else case allocate (s_outbound s) of
        (Inl e, l) \<Rightarrow> (Inl e, fail_closed to_vec (s\<lparr>s_outbound := l\<rparr>))
      | (Inr i, l) \<Rightarrow>
          let s1 = s\<lparr>s_outbound := l\<rparr> in
          (case client_request i m params of
            Inl e \<Rightarrow> (Inl (from_codec e), s1)
          | Inr f \<Rightarrow>
              (case encode to_vec f (max_frame_bytes (s_limits s)) of
                Inl e \<Rightarrow> (Inl (from_codec e),
                  if m = ''initialized'' then s1\<lparr>s_initialized_sent := False\<rparr> else s1)
              | Inr b \<Rightarrow> (Inr (i, b), s1))))"

definition request_register ::
    "nat \<Rightarrow> nat \<Rightarrow> nanos \<Rightarrow> str \<Rightarrow> session \<Rightarrow> (agent_error + unit) \<times> session" where
  "request_register clock_limit now timeout i s =
     (case deadline_after clock_limit now timeout of
        Inl e \<Rightarrow> (Inl e, s)
      | Inr deadline \<Rightarrow>
          (case pending_register i deadline (s_pending s) of
            Inl e \<Rightarrow> (Inl (from_pending e), s)
          | Inr p \<Rightarrow> (Inr (), s\<lparr>s_pending := p\<rparr>)))"

definition request_send ::
    "(json \<Rightarrow> bytes option) \<Rightarrow> str \<Rightarrow> str \<Rightarrow> bytes \<Rightarrow> session \<Rightarrow> (agent_error + unit) \<times> session" where
  "request_send to_vec m i b s =
     (case send_frame to_vec b (method_priority ''shutdown'' m) s of
        (Inl e, s') \<Rightarrow> (Inl e, s'\<lparr>s_pending := snd (pending_cancel i (s_pending s'))\<rparr>)
      | (Inr _, s') \<Rightarrow> (Inr (), s'))"

text \<open>\<open>request_inner\<close> up to its wait, when no other thread comes between.\<close>

definition request_start ::
    "(json \<Rightarrow> bytes option) \<Rightarrow> bool option \<Rightarrow> nat \<Rightarrow> nat \<Rightarrow> nanos \<Rightarrow> str \<Rightarrow> json \<Rightarrow> session
      \<Rightarrow> (agent_error + str) \<times> session" where
  "request_start to_vec admission clock_limit now timeout m params s =
     (case request_admit to_vec admission timeout m params s of
        (Inl e, s1) \<Rightarrow> (Inl e, s1)
      | (Inr (i, b), s1) \<Rightarrow>
          (case request_register clock_limit now timeout i s1 of
            (Inl e, s2) \<Rightarrow> (Inl e, s2)
          | (Inr _, s2) \<Rightarrow>
              (case request_send to_vec m i b s2 of
                (Inl e, s3) \<Rightarrow> (Inl e, s3)
              | (Inr _, s3) \<Rightarrow> (Inr i, s3))))"

text \<open>The end of a wait without an answer: the deadline has passed at \<open>now\<close>.\<close>

definition request_timeout :: "nat \<Rightarrow> session \<Rightarrow> agent_error \<times> session" where
  "request_timeout now s =
     (DeadlineExceeded, s\<lparr>s_pending := snd (pending_expire now (s_pending s))\<rparr>)"

definition unsent :: "str \<Rightarrow> session \<Rightarrow> session" where
  "unsent m s = (if m = ''initialized'' then s\<lparr>s_initialized_sent := False\<rparr> else s)"

definition notify_inner ::
    "(json \<Rightarrow> bytes option) \<Rightarrow> bool option \<Rightarrow> str \<Rightarrow> json \<Rightarrow> session
      \<Rightarrow> (agent_error + unit) \<times> session" where
  "notify_inner to_vec admission m params s =
     (if admission = Some True then (Inl ShuttingDown, s)
      else case
        (if m = ''initialized'' then
           (case validate_initialized_params params s of
              Inl e \<Rightarrow> (Inl e, s)
            | Inr _ \<Rightarrow> if s_initialized_sent s then (Inl AHandshakeFailed, s)
                else (Inr (), s\<lparr>s_initialized_sent := True, s_ready_consumed := False\<rparr>))
         else if contains_forbidden_ready_token (s_forbidden s) params
           then (Inl AHandshakeFailed, s)
         else (Inr (), s)) of
        (Inl e, s1) \<Rightarrow> (Inl e, s1)
      | (Inr _, s1) \<Rightarrow>
          (case new_notification m params of
            Inl e \<Rightarrow> (Inl (from_codec e), unsent m s1)
          | Inr f \<Rightarrow>
              (case encode to_vec f (max_frame_bytes (s_limits s)) of
                Inl e \<Rightarrow> (Inl (from_codec e), unsent m s1)
              | Inr b \<Rightarrow>
                  (case send_frame to_vec b (method_priority ''initialized'' m) s1 of
                    (Inl e, s2) \<Rightarrow> (Inl e, unsent m s2)
                  | (Inr _, s2) \<Rightarrow> (Inr (), s2)))))"

definition respond ::
    "(json \<Rightarrow> bytes option) \<Rightarrow> rpc_frame \<Rightarrow> session \<Rightarrow> (agent_error + unit) \<times> session" where
  "respond to_vec f s =
     (if s_closed s then (Inl SessionClosed, s)
      else case encode to_vec f (max_frame_bytes (s_limits s)) of
        Inl e \<Rightarrow> (Inl (from_codec e), s)
      | Inr b \<Rightarrow>
          (case inbound_resolve (s_inbound s) (frame_id f) of
            Inl e \<Rightarrow> (Inl e, s)
          | Inr r \<Rightarrow> send_frame to_vec b PControl (s\<lparr>s_inbound := r\<rparr>)))"

definition respond_result ::
    "(json \<Rightarrow> bytes option) \<Rightarrow> str \<Rightarrow> json \<Rightarrow> session \<Rightarrow> (agent_error + unit) \<times> session" where
  "respond_result to_vec i v s =
     (if s_closed s then (Inl SessionClosed, s)
      else if contains_forbidden_ready_token (s_forbidden s) v then (Inl AHandshakeFailed, s)
      else case response_result i v of
        Inl e \<Rightarrow> (Inl (from_codec e), s)
      | Inr f \<Rightarrow> respond to_vec f s)"

definition respond_error ::
    "(json \<Rightarrow> bytes option) \<Rightarrow> str \<Rightarrow> int \<Rightarrow> str \<Rightarrow> str \<Rightarrow> bool \<Rightarrow> session
      \<Rightarrow> (agent_error + unit) \<times> session" where
  "respond_error to_vec i code message ja retryable s =
     (if s_closed s then (Inl SessionClosed, s)
      else case error_catalog code ja retryable of
        None \<Rightarrow> (Inl AInvalidErrorCatalog, s)
      | Some (code', ja', retryable') \<Rightarrow>
          (case response_error i code' message ja' retryable' of
            Inl e \<Rightarrow> (Inl (from_codec e), s)
          | Inr f \<Rightarrow> respond to_vec f s))"

subsection \<open>The writer thread\<close>

text \<open>
  How writing a frame ended: both I/O calls were made while the watchdog stayed quiet, the
  watchdog fired, or its thread could not be started or joined.
\<close>

datatype write_outcome = Written bool | WatchdogFired | WatchdogBroken

definition writer_failed :: "(json \<Rightarrow> bytes option) \<Rightarrow> agent_error \<Rightarrow> session \<Rightarrow> session" where
  "writer_failed to_vec e s =
     (let event = (if e = DeadlineExceeded then WriterTimedOut else ProtocolFaultEvent Io);
          s' = s\<lparr>s_events := push_event_queue to_vec event PControl QControl (s_events s)\<rparr>;
          s'' = fail_closed to_vec s'
      in s''\<lparr>s_writer := (s_writer s'')\<lparr>receivers_gone := True\<rparr>\<rparr>)"

definition writer_exit :: "session \<Rightarrow> session" where
  "writer_exit s = s\<lparr>s_writer := (s_writer s)\<lparr>receivers_gone := True\<rparr>\<rparr>"

definition is_initialized_line :: "(str \<Rightarrow> raw \<times> bool) \<Rightarrow> nat \<Rightarrow> bytes \<Rightarrow> bool" where
  "is_initialized_line de limit b =
     (case decode_frame de b limit of Inr f \<Rightarrow> frame_method f = Some ''initialized'' | Inl _ \<Rightarrow> False)"

definition writer_begin ::
    "(json \<Rightarrow> bytes option) \<Rightarrow> (str \<Rightarrow> raw \<times> bool) \<Rightarrow> session \<Rightarrow> session" where
  "writer_begin to_vec de s =
     (if s_in_flight s \<noteq> None \<or> receivers_gone (s_writer s) then s
      else if s_closed s then writer_exit s
      else case take_frame (s_writer s) of
        (None, _) \<Rightarrow> s
      | (Some (b, _), w) \<Rightarrow>
          let s' = s\<lparr>s_writer := w\<rparr> in
          if is_initialized_line de (max_frame_bytes (s_limits s)) b then
            (case begin_send (s_barrier s') of
               Inl e \<Rightarrow> writer_failed to_vec e s'
             | Inr barrier \<Rightarrow> s'\<lparr>s_barrier := barrier, s_in_flight := Some True\<rparr>)
          else s'\<lparr>s_in_flight := Some False\<rparr>)"

definition writer_end :: "(json \<Rightarrow> bytes option) \<Rightarrow> write_outcome \<Rightarrow> session \<Rightarrow> session" where
  "writer_end to_vec outcome s =
     (case s_in_flight s of
        None \<Rightarrow> s
      | Some init \<Rightarrow>
          let complete = (\<lambda>ok t. if init then t\<lparr>s_barrier := complete_send ok\<rparr> else t);
              s0 = s\<lparr>s_in_flight := None\<rparr>
          in (case outcome of
               Written ok \<Rightarrow>
                 let s1 = complete (ok \<and> \<not> s_closed s) s0
                 in if ok then s1 else writer_failed to_vec SessionClosed s1
             | WatchdogFired \<Rightarrow>
                 writer_failed to_vec DeadlineExceeded (complete False (fail_closed to_vec s0))
             | WatchdogBroken \<Rightarrow> writer_failed to_vec Spawn (complete False s0)))"

subsection \<open>The stderr drain\<close>

definition stderr_redacted_summary :: str where
  "stderr_redacted_summary = ''sidecar stderr output redacted''"

definition emit_stderr_truncated :: "(json \<Rightarrow> bytes option) \<Rightarrow> session \<Rightarrow> session" where
  "emit_stderr_truncated to_vec s =
     (if s_stderr_truncated s then s
      else push_event to_vec StderrTruncated PData QStderr (s\<lparr>s_stderr_truncated := True\<rparr>))"

definition emit_stderr_line :: "(json \<Rightarrow> bytes option) \<Rightarrow> session \<Rightarrow> session" where
  "emit_stderr_line to_vec s =
     push_event to_vec (StderrLine stderr_redacted_summary) PData QStderr (s\<lparr>s_stderr_line := []\<rparr>)"

definition count_stderr :: "session \<Rightarrow> session" where
  "count_stderr s = s\<lparr>s_stderr_bytes := (s_stderr_bytes s + 1) mod 2 ^ 64\<rparr>"

text \<open>One byte of stderr; while draining, the rest of an overlong line is dropped.\<close>

definition stderr_byte :: "(json \<Rightarrow> bytes option) \<Rightarrow> char \<Rightarrow> session \<Rightarrow> session" where
  "stderr_byte to_vec b s =
     (let max_line = max_stderr_line_bytes (s_limits s);
          max_total = max_log_bytes (s_limits s);
          offset = s_stderr_bytes s;
          s1 = count_stderr s
      in if s_stderr_draining s then
           let s2 = (if max_total \<le> offset then emit_stderr_truncated to_vec s1 else s1)
           in if b = CHR 0x0A
              then (emit_stderr_truncated to_vec s2)\<lparr>s_stderr_line := [], s_stderr_draining := False\<rparr>
              else s2
         else if b = CHR 0x0A then
           (if offset < max_total \<and> \<not> s_stderr_truncated s then emit_stderr_line to_vec s1
            else (emit_stderr_truncated to_vec s1)\<lparr>s_stderr_line := []\<rparr>)
         else if max_total \<le> offset then (emit_stderr_truncated to_vec s1)\<lparr>s_stderr_line := []\<rparr>
         else if length (s_stderr_line s) < max_line
           then s1\<lparr>s_stderr_line := s_stderr_line s @ [b]\<rparr>
         else s1\<lparr>s_stderr_draining := True\<rparr>)"

definition stderr_eof :: "(json \<Rightarrow> bytes option) \<Rightarrow> session \<Rightarrow> session" where
  "stderr_eof to_vec s =
     (let s1 = (if s_stderr_draining s
          then (emit_stderr_truncated to_vec s)\<lparr>s_stderr_line := [], s_stderr_draining := False\<rparr>
          else s)
      in if s_stderr_line s1 \<noteq> [] \<and> \<not> s_stderr_truncated s1
            \<and> s_stderr_bytes s1 \<le> max_log_bytes (s_limits s1)
         then emit_stderr_line to_vec s1 else s1)"

end
