(* ===== verification/Ja_Session_Contract.thy ===== *)
theory Ja_Session_Contract
  imports Ja_Session
begin

text \<open>
  The threads of a session as one sequence of operations, and the contract that carries an
  invariant through them: a property that depends on the state an operation shares with the
  other threads, and that closing the session, pushing an allowed event and the calls of the
  ledgers and the registry keep, is kept by every operation.
\<close>

subsection \<open>The threads of a session\<close>

text \<open>
  A request call under way: the locals of its thread between \<open>request_admit\<close> and the end of
  \<open>request_send\<close>, and whether it has registered.
\<close>

record call =
  c_method :: str
  c_id :: str
  c_bytes :: bytes
  c_registered :: bool

record system =
  sys_session :: session
  sys_calls :: "call list"

datatype session_op =
    OReaderBegin | OReaderTurn "codec_error + rpc_frame"
  | OAdmit "bool option" nanos str json | ORegister nat nat nat nanos | OSend nat
  | OTimeout nat
  | ONotify "bool option" str json
  | ORespondResult str json | ORespondError str int str str bool
  | OWriterBegin | OWriterEnd write_outcome
  | OStderr char | OStderrEof
  | OProcessExit "int option" | OProcessFault | OClose bool | ODetach
  | OTakePump | ONextEvent | ONextServerRequest
  | OInstall str | OPromote rpc_frame "agent_error + unit"

definition drop_call :: "nat \<Rightarrow> 'a list \<Rightarrow> 'a list" where
  "drop_call n cs = take n cs @ drop (Suc n) cs"

text \<open>The operations that touch no call.\<close>

fun session_step ::
    "(json \<Rightarrow> bytes option) \<Rightarrow> (str \<Rightarrow> raw \<times> bool) \<Rightarrow> session \<Rightarrow> session_op \<Rightarrow> session" where
  "session_step to_vec de s OReaderBegin = reader_begin s"
| "session_step to_vec de s (OReaderTurn r) = reader_turn to_vec r s"
| "session_step to_vec de s (OTimeout now) = snd (request_timeout now s)"
| "session_step to_vec de s (ONotify a m ps) = snd (notify_inner to_vec a m ps s)"
| "session_step to_vec de s (ORespondResult i v) = snd (respond_result to_vec i v s)"
| "session_step to_vec de s (ORespondError i c m j r) = snd (respond_error to_vec i c m j r s)"
| "session_step to_vec de s OWriterBegin = writer_begin to_vec de s"
| "session_step to_vec de s (OWriterEnd w) = writer_end to_vec w s"
| "session_step to_vec de s (OStderr b) = stderr_byte to_vec b s"
| "session_step to_vec de s OStderrEof = stderr_eof to_vec s"
| "session_step to_vec de s (OProcessExit c) = report_process_exit to_vec c s"
| "session_step to_vec de s OProcessFault = report_process_fault to_vec s"
| "session_step to_vec de s (OClose j) = close_until to_vec j s"
| "session_step to_vec de s ODetach = detach_terminal_callback s"
| "session_step to_vec de s OTakePump = snd (take_event_pump s)"
| "session_step to_vec de s ONextEvent = snd (next_event to_vec s)"
| "session_step to_vec de s ONextServerRequest = snd (next_server_request to_vec s)"
| "session_step to_vec de s (OInstall t) = snd (install_ready_token_challenge t s)"
| "session_step to_vec de s (OPromote f r) = snd (with_ready_promotion f r s)"
| "session_step to_vec de s (OAdmit a t m ps) = snd (request_admit to_vec a t m ps s)"
| "session_step to_vec de s _ = s"

fun system_step ::
    "(json \<Rightarrow> bytes option) \<Rightarrow> (str \<Rightarrow> raw \<times> bool) \<Rightarrow> system \<Rightarrow> session_op \<Rightarrow> system" where
  "system_step to_vec de y (OAdmit a t m ps) =
     (case request_admit to_vec a t m ps (sys_session y) of
        (Inl _, s) \<Rightarrow> y\<lparr>sys_session := s\<rparr>
      | (Inr (i, b), s) \<Rightarrow> y\<lparr>sys_session := s, sys_calls := sys_calls y @
          [\<lparr>c_method = m, c_id = i, c_bytes = b, c_registered = False\<rparr>]\<rparr>)"
| "system_step to_vec de y (ORegister n limit now timeout) =
     (if n < length (sys_calls y) \<and> \<not> c_registered (sys_calls y ! n) then
        (case request_register limit now timeout (c_id (sys_calls y ! n)) (sys_session y) of
           (Inl _, s) \<Rightarrow> y\<lparr>sys_session := s, sys_calls := drop_call n (sys_calls y)\<rparr>
         | (Inr _, s) \<Rightarrow> y\<lparr>sys_session := s,
             sys_calls := (sys_calls y)[n := (sys_calls y ! n)\<lparr>c_registered := True\<rparr>]\<rparr>)
      else y)"
| "system_step to_vec de y (OSend n) =
     (if n < length (sys_calls y) \<and> c_registered (sys_calls y ! n) then
        y\<lparr>sys_session := snd (request_send to_vec (c_method (sys_calls y ! n))
            (c_id (sys_calls y ! n)) (c_bytes (sys_calls y ! n)) (sys_session y)),
          sys_calls := drop_call n (sys_calls y)\<rparr>
      else y)"
| "system_step to_vec de y x = y\<lparr>sys_session := session_step to_vec de (sys_session y) x\<rparr>"

subsection \<open>What may be pushed\<close>

text \<open>
  The events the session's operations push: frames that passed the payload check, and the
  redacted summary instead of a stderr line.
\<close>

fun event_safe :: "session \<Rightarrow> session_event \<Rightarrow> bool" where
  "event_safe s (ServerRequest f) = frame_payload_is_safe f s False"
| "event_safe s (NotificationEvent f) = frame_payload_is_safe f s (is_runtime_ready_notification f)"
| "event_safe s (StderrLine l) = (l = stderr_redacted_summary)"
| "event_safe s e = True"

lemma payload_safe_cong:
  "s_forbidden s' = s_forbidden s \<Longrightarrow> s_challenge s' = s_challenge s
    \<Longrightarrow> frame_payload_is_safe f s' r = frame_payload_is_safe f s r"
  by (simp only: frame_payload_is_safe_def)

lemma event_safe_cong:
  "s_forbidden s' = s_forbidden s \<Longrightarrow> s_challenge s' = s_challenge s
    \<Longrightarrow> event_safe s' e = event_safe s e"
  by (cases e) (simp_all add: payload_safe_cong [of s' s])

text \<open>The state an invariant may speak of: the rest is local to one thread or to the handshake.\<close>

definition shared :: "session \<Rightarrow> _" where
  "shared s = (s_events s, s_pending s, s_inbound s, s_outbound s, s_writer s, s_called s,
     s_callback s, s_closed s, s_forbidden s)"

subsection \<open>The contract\<close>

locale session_contract =
  fixes to_vec :: "json \<Rightarrow> bytes option"
    and inv :: "session \<Rightarrow> bool"
  assumes shared_inv: "shared s' = shared s \<Longrightarrow> inv s \<Longrightarrow> inv s'"
    and close_inv: "inv s \<Longrightarrow> inv (fail_closed_with_reason to_vec r s)"
    and queue_inv: "inv s \<Longrightarrow> event_safe s e \<Longrightarrow> (is_server_request e \<Longrightarrow> p = PControl)
        \<Longrightarrow> (is_terminal_event e \<Longrightarrow> p = PControl) \<Longrightarrow> \<not> s_closed s \<or> is_terminal_event e
        \<Longrightarrow> inv (s\<lparr>s_events := push_event_queue to_vec e p k (s_events s)\<rparr>)"
    and pop_inv: "inv s \<Longrightarrow> inv (s\<lparr>s_events := snd (pop_pass to_vec (s_events s))\<rparr>)"
    and pop_request_inv:
      "inv s \<Longrightarrow> inv (s\<lparr>s_events := snd (pop_server_request to_vec (s_events s))\<rparr>)"
    and resolve_inv: "inv s \<Longrightarrow> frame_payload_is_safe f s False
        \<Longrightarrow> inv (s\<lparr>s_pending := snd (pending_resolve f (s_pending s))\<rparr>)"
    and expire_inv: "inv s \<Longrightarrow> inv (s\<lparr>s_pending := snd (pending_expire now (s_pending s))\<rparr>)"
    and register_inv: "inv s \<Longrightarrow> inbound_register (s_inbound s) i = Inr q
        \<Longrightarrow> inv (s\<lparr>s_inbound := q\<rparr>)"
    and answer_inv: "inv s \<Longrightarrow> inbound_resolve (s_inbound s) i = Inr q
        \<Longrightarrow> inv (s\<lparr>s_inbound := q\<rparr>)"
    and allocate_inv: "inv s \<Longrightarrow> inv (s\<lparr>s_outbound := snd (allocate (s_outbound s))\<rparr>)"
    and writer_inv: "inv s \<Longrightarrow> (writer_ok (s_writer s) \<Longrightarrow> writer_ok w) \<Longrightarrow> inv (s\<lparr>s_writer := w\<rparr>)"
    and detach_inv: "inv s \<Longrightarrow> inv (s\<lparr>s_callback := False\<rparr>)"
begin

lemma local_updates [simp]:
  "inv (s\<lparr>s_in_flight := a\<rparr>) = inv s"
  "inv (s\<lparr>s_reader := b\<rparr>) = inv s"
  "inv (s\<lparr>s_pump_claimed := c\<rparr>) = inv s"
  "inv (s\<lparr>s_barrier := d\<rparr>) = inv s"
  "inv (s\<lparr>s_challenge := e\<rparr>) = inv s"
  "inv (s\<lparr>s_initialized_sent := c\<rparr>) = inv s"
  "inv (s\<lparr>s_ready_claimed := c\<rparr>) = inv s"
  "inv (s\<lparr>s_ready_consumed := c\<rparr>) = inv s"
  "inv (s\<lparr>s_stderr_bytes := n\<rparr>) = inv s"
  "inv (s\<lparr>s_stderr_truncated := c\<rparr>) = inv s"
  "inv (s\<lparr>s_stderr_line := l\<rparr>) = inv s"
  "inv (s\<lparr>s_stderr_draining := c\<rparr>) = inv s"
  "inv (s\<lparr>s_data_overflow_reported := c\<rparr>) = inv s"
  by (auto simp: shared_def intro: shared_inv [rotated])

lemma push_event_inv:
  assumes "inv s" and "event_safe s e" and "is_server_request e \<Longrightarrow> p = PControl"
    and "is_terminal_event e \<Longrightarrow> p = PControl"
  shows "inv (push_event to_vec e p k s)"
proof (cases "s_closed s \<and> \<not> is_terminal_event e")
  case True
  then show ?thesis using assms(1) by (simp add: push_event_def)
next
  case False
  let ?s = "s\<lparr>s_events := push_event_queue to_vec e p k (s_events s)\<rparr>"
  have "inv ?s" using queue_inv [OF assms] False by blast
  then show ?thesis
    unfolding push_event_def if_not_P [OF False] Let_def fail_closed_def
    using close_inv by (cases "queue_is_fatal (s_events ?s)") simp_all
qed

lemma push_control_inv: "inv s \<Longrightarrow> event_safe s e \<Longrightarrow> inv (push_control to_vec e s)"
  unfolding push_control_def by (rule push_event_inv) simp_all

lemma fault_inv: "inv s \<Longrightarrow> event_safe s e \<Longrightarrow> inv (fault to_vec e s)"
  by (simp add: fault_def fail_closed_def close_inv push_control_inv)

lemma handle_writer_error_inv: "inv s \<Longrightarrow> inv (handle_writer_error to_vec e s)"
  by (auto simp: handle_writer_error_def fail_closed_def fault_inv push_control_inv close_inv
      split: agent_error.split queue_kind.split)

lemma send_frame_inv:
  assumes "inv s" and "send_frame to_vec b p s = (r, s')"
  shows "inv s'"
proof (cases "writer_send (s_closed s) b p (s_writer s)")
  case (Inl e)
  then show ?thesis using assms handle_writer_error_inv by (auto simp: send_frame_def)
next
  case (Inr w)
  from writer_send_ok [OF _ Inr] have "inv (s\<lparr>s_writer := w\<rparr>)" by (rule writer_inv [OF assms(1)])
  then show ?thesis using assms(2) Inr by (auto simp: send_frame_def)
qed

lemma dispatch_response_inv: "inv s \<Longrightarrow> inv (dispatch_response to_vec f s)"
  using resolve_inv [of s f]
  by (cases "pending_resolve f (s_pending s)") (simp add: dispatch_response_def fault_inv Let_def)

lemma dispatch_server_request_inv: "inv s \<Longrightarrow> inv (dispatch_server_request to_vec f s)"
  using register_inv [of s "frame_id f"]
  by (cases "inbound_register (s_inbound s) (frame_id f)")
     (auto simp: dispatch_server_request_def fault_inv payload_safe_cong [of "s\<lparr>s_inbound := r\<rparr>" s for r]
        intro!: push_control_inv)

lemma claim_ready_inv: "inv s \<Longrightarrow> inv (snd (claim_ready_notification s))"
  by (simp add: claim_ready_notification_def split: prod.split)

lemma routed_inv:
  "inv s \<Longrightarrow> event_safe s (NotificationEvent f) \<Longrightarrow> notification_routing f = (p, k)
    \<Longrightarrow> inv (push_event to_vec (NotificationEvent f) p k s)"
  by (rule push_event_inv) (auto simp: notification_routing_def split: if_splits)

lemma dispatch_notification_inv:
  assumes "inv s"
  shows "inv (dispatch_notification to_vec f s)"
proof -
  obtain b s' where c:
    "(if is_runtime_ready_notification f then claim_ready_notification s else (True, s)) = (b, s')"
    by fastforce
  then have s': "inv s'" "event_safe s' e = event_safe s e" for e
    using assms claim_ready_inv [OF assms] event_safe_cong [of s' s]
    by (auto simp: claim_ready_notification_def split: if_splits prod.splits)
  show ?thesis
  proof (cases "frame_payload_is_safe f s (is_runtime_ready_notification f)")
    case True
    then have "event_safe s' (NotificationEvent f)" unfolding s'(2) by simp
    then have "inv (push_event to_vec (NotificationEvent f) p k s')"
      if "notification_routing f = (p, k)" for p k
      by (rule routed_inv [OF s'(1) _ that])
    with True s' show ?thesis
      by (cases b) (simp_all add: dispatch_notification_def c fault_inv Let_def split: prod.split)
  qed (use assms in \<open>simp add: dispatch_notification_def fault_inv Let_def\<close>)
qed

lemma dispatch_frame_inv: "inv s \<Longrightarrow> inv (dispatch_frame to_vec f s)"
  by (simp add: dispatch_frame_def fault_inv dispatch_response_inv dispatch_server_request_inv
      dispatch_notification_inv split: sum.split frame_kind.split)

lemma reader_turn_inv: "inv s \<Longrightarrow> inv (reader_turn to_vec r s)"
  by (auto simp: reader_turn_def intro!: fault_inv dispatch_frame_inv
      split: sum.split codec_error.split)

lemma unsent_inv: "inv s \<Longrightarrow> inv (unsent m s)"
  by (simp add: unsent_def)

lemma notify_inv: "inv s \<Longrightarrow> notify_inner to_vec a m ps s = (r, s') \<Longrightarrow> inv s'"
  by (auto simp: notify_inner_def unsent_inv intro!: unsent_inv dest: send_frame_inv [rotated]
      split: if_splits sum.splits prod.splits)

lemma respond_inv:
  assumes "inv s" and "respond to_vec f s = (r, s')"
  shows "inv s'"
  using assms send_frame_inv [OF answer_inv]
  by (auto simp: respond_def split: if_splits sum.splits)

lemma respond_result_inv: "inv s \<Longrightarrow> respond_result to_vec i v s = (r, s') \<Longrightarrow> inv s'"
  by (auto simp: respond_result_def intro: respond_inv split: if_splits sum.splits)

lemma respond_error_inv: "inv s \<Longrightarrow> respond_error to_vec i c m j t s = (r, s') \<Longrightarrow> inv s'"
  by (auto simp: respond_error_def intro: respond_inv split: if_splits sum.splits option.splits)

lemma request_admit_inv:
  assumes "inv s" and "request_admit to_vec a t m ps s = (r, s')"
  shows "inv s'"
proof -
  have "inv (s\<lparr>s_outbound := l\<rparr>)" if "allocate (s_outbound s) = (q, l)" for q l
    using allocate_inv [OF assms(1)] that by simp
  then show ?thesis
    using assms by (auto simp: request_admit_def fail_closed_def Let_def intro: close_inv
        split: if_splits sum.splits prod.splits)
qed

lemma writer_gone_inv: "inv s \<Longrightarrow> inv (s\<lparr>s_writer := (s_writer s)\<lparr>receivers_gone := True\<rparr>\<rparr>)"
  by (rule writer_inv) (simp_all add: writer_ok_def)

lemma writer_failed_inv: "inv s \<Longrightarrow> inv (writer_failed to_vec e s)"
  unfolding writer_failed_def Let_def fail_closed_def
  by (intro writer_gone_inv close_inv queue_inv) simp_all

lemma writer_begin_inv:
  assumes "inv s"
  shows "inv (writer_begin to_vec de s)"
proof -
  obtain x w where t: "take_frame (s_writer s) = (x, w)" by fastforce
  have w: "inv (s\<lparr>s_writer := w\<rparr>)"
    using writer_inv [OF assms, of w] take_frame_ok [of "s_writer s"] t by simp
  show ?thesis
    using assms w writer_gone_inv writer_failed_inv [OF w]
    by (auto simp: writer_begin_def writer_exit_def t Let_def split: option.split sum.split)
qed

lemma writer_end_inv: "inv s \<Longrightarrow> inv (writer_end to_vec w s)"
  by (auto simp: writer_end_def Let_def fail_closed_def intro!: writer_failed_inv close_inv
      split: option.split write_outcome.split)

lemma stderr_events_inv:
  assumes "inv s"
  shows "inv (emit_stderr_truncated to_vec s)" and "inv (emit_stderr_line to_vec s)"
  using assms
  by (auto simp: emit_stderr_truncated_def emit_stderr_line_def intro!: push_event_inv)

lemma stderr_inv:
  assumes "inv s"
  shows "inv (stderr_byte to_vec b s)" and "inv (stderr_eof to_vec s)"
  using assms
  by (simp_all add: stderr_byte_def stderr_eof_def count_stderr_def Let_def stderr_events_inv)

lemma pop_event_snd: "snd (pop_event to_vec q) = snd (pop_pass to_vec q)"
  by (simp add: pop_event_def split: prod.split pop_result.split)

lemma next_inv:
  assumes "inv s"
  shows "inv (snd (next_event to_vec s))" and "inv (snd (next_server_request to_vec s))"
  using pop_inv [OF assms] pop_request_inv [OF assms] pop_event_snd [of "s_events s"]
  by (cases "pop_event to_vec (s_events s)"; cases "pop_server_request to_vec (s_events s)";
      simp add: next_event_def next_server_request_def)+

lemma promotion_inv: "inv s \<Longrightarrow> inv (snd (with_ready_promotion f p s))"
  by (simp add: with_ready_promotion_def ready_after_barrier_def split: option.split)

lemma snd_inv: "(\<And>r s'. x = (r, s') \<Longrightarrow> inv s') \<Longrightarrow> inv (snd x)"
  by (cases x) simp

lemma step_inv:
  assumes "inv s" and "\<And>t. x \<noteq> OInstall t"
  shows "inv (session_step to_vec de s x)"
  using assms
  by (cases x)
     (auto simp: reader_begin_def report_process_exit_def report_process_fault_def
        close_until_def take_event_pump_def request_timeout_def detach_terminal_callback_def Let_def
        reader_turn_inv writer_begin_inv writer_end_inv stderr_inv next_inv promotion_inv expire_inv
        detach_inv close_inv push_control_inv fault_inv
      intro!: snd_inv
      intro: notify_inv respond_result_inv respond_error_inv request_admit_inv)

end

end
