(* ===== verification/Ja_Session_Inv.thy ===== *)
theory Ja_Session_Inv
  imports Ja_Session_Contract
begin

text \<open>
  What holds of a session in every interleaving of its threads: the invariants of its
  queues, ledgers and registry, one terminal callback, no caller left waiting on a closed
  session, no challenge token and no stderr text in what it hands on, and one ready
  promotion per handshake.
\<close>

definition registered_ids :: "call list \<Rightarrow> str set" where
  "registered_ids cs = c_id ` {c \<in> set cs. c_registered c}"

subsection \<open>The invariant\<close>

definition waiting :: "session \<Rightarrow> str set" where
  "waiting s = fst ` set (active (s_pending s))"

text \<open>A closed queue holds nothing but the events that say why it closed.\<close>

definition queue_quiet :: "event_queue \<Rightarrow> bool" where
  "queue_quiet q \<longleftrightarrow> queue_closed q \<and> server_requests q = [] \<and> data_events q = []
     \<and> list_all is_terminal_event (control_events q)"

definition session_ok :: "(json \<Rightarrow> bytes option) \<Rightarrow> str set \<Rightarrow> session \<Rightarrow> bool" where
  "session_ok to_vec R s \<longleftrightarrow>
     queue_ok to_vec (s_events s) \<and> pending_ok (s_pending s) \<and> inbound_ok (s_inbound s)
     \<and> outbound_ok (s_outbound s) \<and> writer_ok (s_writer s)
     \<and> length (s_called s) + of_bool (s_callback s) \<le> 1
     \<and> (s_closed s \<longrightarrow> \<not> s_callback s \<and> queue_quiet (s_events s) \<and> waiting s \<subseteq> R)"

lemma close_active: "active (snd (pending_close p)) = []"
  by (simp add: close_finish_all finish_all_active)

lemma pending_close_ok: "pending_ok p \<Longrightarrow> pending_ok (snd (pending_close p))"
  by (simp add: close_finish_all finish_all_ok)

lemma pending_cancel_ok: "pending_ok p \<Longrightarrow> pending_ok (snd (pending_cancel i p))"
  using pending_step_ok [of p "PCancel i"] by simp

lemma cancel_waiting: "fst ` set (active (snd (pending_cancel i p))) = fst ` set (active p) - {i}"
  by (auto simp: pending_cancel_def has_key_def)

lemma expire_waiting: "fst ` set (active (snd (pending_expire now p))) \<subseteq> fst ` set (active p)"
  by (auto simp: expire_finish_all finish_all_active)

lemma resolve_waiting: "fst ` set (active (snd (pending_resolve f p))) \<subseteq> fst ` set (active p)"
  by (auto simp: pending_resolve_def Let_def)

lemma close_quiet: "queue_quiet (close_event_queue to_vec q)"
  by (simp add: queue_quiet_def close_event_queue_def list_all_iff Let_def)

lemma push_quiet:
  assumes "queue_quiet q" and "is_terminal_event e" and "p = PControl"
  shows "queue_quiet (push_event_queue to_vec e p k q)"
  using assms
  by (cases e) (auto simp: push_event_queue_def queue_quiet_def Let_def)

lemma pop_quiet:
  assumes "queue_quiet q"
  shows "queue_quiet (snd (pop_pass to_vec q))" and "queue_quiet (snd (pop_server_request to_vec q))"
  using assms
  by (auto simp: queue_quiet_def pop_pass_def pop_lanes_def pop_control_def pop_server_request_def
      split: option.split list.split)

interpretation kept: session_contract to_vec "session_ok to_vec R" for to_vec R
proof unfold_locales
  fix s s' :: session
  assume "shared s' = shared s" and "session_ok to_vec R s"
  then show "session_ok to_vec R s'"
    by (simp add: shared_def session_ok_def waiting_def)
next
  fix s :: session and r
  assume "session_ok to_vec R s"
  then show "session_ok to_vec R (fail_closed_with_reason to_vec r s)"
    by (auto simp: fail_closed_with_reason_def session_ok_def waiting_def close_active
        pending_close_ok close_ok close_quiet)
next
  fix s :: session and e p k
  assume "session_ok to_vec R s" and "is_server_request e \<Longrightarrow> p = PControl"
    and "is_terminal_event e \<Longrightarrow> p = PControl" and "\<not> s_closed s \<or> is_terminal_event e"
  then show "session_ok to_vec R (s\<lparr>s_events := push_event_queue to_vec e p k (s_events s)\<rparr>)"
    using push_ok push_quiet by (auto simp: session_ok_def waiting_def)
next
  fix s :: session and f
  assume "session_ok to_vec R s"
  then show "session_ok to_vec R (s\<lparr>s_pending := snd (pending_resolve f (s_pending s))\<rparr>)"
    using pending_step_ok [of "s_pending s" "PResolve f"] resolve_waiting [of f "s_pending s"]
    by (auto simp: session_ok_def waiting_def)
next
  fix s :: session and now
  assume "session_ok to_vec R s"
  then show "session_ok to_vec R (s\<lparr>s_pending := snd (pending_expire now (s_pending s))\<rparr>)"
    using pending_step_ok [of "s_pending s" "PExpire now"] expire_waiting [of now "s_pending s"]
    by (auto simp: session_ok_def waiting_def)
next
  fix s :: session and i r
  assume "session_ok to_vec R s" and "inbound_register (s_inbound s) i = Inr r"
  then show "session_ok to_vec R (s\<lparr>s_inbound := r\<rparr>)"
    using inbound_step_ok [of "s_inbound s" "IRegister i"] by (simp add: session_ok_def waiting_def)
next
  fix s :: session and i r
  assume "session_ok to_vec R s" and "inbound_resolve (s_inbound s) i = Inr r"
  then show "session_ok to_vec R (s\<lparr>s_inbound := r\<rparr>)"
    using resolve_ok [of "s_inbound s" i r] by (simp add: session_ok_def waiting_def)
qed (auto simp: session_ok_def waiting_def pop_ok pop_request_ok pop_quiet allocate_ok)

lemma session_step_ok:
  assumes "session_ok to_vec R s"
  shows "session_ok to_vec R (session_step to_vec de s x)"
proof (cases "\<exists>t. x = OInstall t")
  case True
  then obtain t where x: "x = OInstall t" ..
  show ?thesis
    using assms unfolding x
    by (cases "valid_ready_token t")
       (simp_all add: install_ready_token_challenge_def session_ok_def waiting_def)
next
  case False
  then show ?thesis using kept.step_inv [OF assms] by blast
qed

subsection \<open>The threads together\<close>

definition system_ok :: "(json \<Rightarrow> bytes option) \<Rightarrow> system \<Rightarrow> bool" where
  "system_ok to_vec y \<longleftrightarrow> session_ok to_vec (registered_ids (sys_calls y)) (sys_session y)"

lemma session_ok_mono: "session_ok to_vec R s \<Longrightarrow> R \<subseteq> R' \<Longrightarrow> session_ok to_vec R' s"
  by (auto simp: session_ok_def)

lemma registered_ids_simps [simp]:
  "registered_ids [] = {}"
  "registered_ids (c # cs)
     = (if c_registered c then insert (c_id c) (registered_ids cs) else registered_ids cs)"
  "registered_ids (as @ bs) = registered_ids as \<union> registered_ids bs"
  by (auto simp: registered_ids_def)

lemma split_at: "n < length cs \<Longrightarrow> \<exists>as bs. cs = as @ cs ! n # bs \<and> length as = n"
  by (rule exI [of _ "take n cs"], rule exI [of _ "drop (Suc n) cs"])
     (simp add: id_take_nth_drop [symmetric])

lemma registered_drop:
  assumes "n < length cs"
  shows "registered_ids cs - {c_id (cs ! n)} \<subseteq> registered_ids (drop_call n cs)"
    and "\<not> c_registered (cs ! n) \<Longrightarrow> registered_ids (drop_call n cs) = registered_ids cs"
proof -
  obtain c as bs where cs: "cs = as @ c # bs" "length as = n" "cs ! n = c"
    using split_at [OF assms] by blast
  then have d: "drop_call n cs = as @ bs" by (simp add: drop_call_def)
  show "registered_ids cs - {c_id (cs ! n)} \<subseteq> registered_ids (drop_call n cs)"
    unfolding d cs(3) unfolding cs(1) by auto
  show "\<not> c_registered (cs ! n) \<Longrightarrow> registered_ids (drop_call n cs) = registered_ids cs"
    unfolding d cs(3) unfolding cs(1) by auto
qed

lemma registered_update:
  assumes "n < length cs" and "\<not> c_registered (cs ! n)"
  shows "registered_ids (cs[n := (cs ! n)\<lparr>c_registered := True\<rparr>])
    = insert (c_id (cs ! n)) (registered_ids cs)"
proof -
  obtain c as bs where cs: "cs = as @ c # bs" "length as = n" "cs ! n = c"
    using split_at [OF assms(1)] by blast
  then have "cs[n := c\<lparr>c_registered := True\<rparr>] = as @ c\<lparr>c_registered := True\<rparr> # bs" by auto
  then show ?thesis
    using assms(2) unfolding cs(3) unfolding cs(1) by simp
qed

lemma request_register_ok:
  assumes "session_ok to_vec R s" and "request_register limit now t i s = (r, s')"
  shows "session_ok to_vec (insert i R) s'" and "r = Inl e \<Longrightarrow> session_ok to_vec R s'"
proof -
  have "session_ok to_vec (insert i R) (s\<lparr>s_pending := p\<rparr>)"
    if "pending_register i d (s_pending s) = Inr p" for d p
  proof -
    have "pending_ok p" using assms(1) register_ok [OF _ that] by (simp add: session_ok_def)
    moreover have "fst ` set (active p) = insert i (waiting s)"
      using that by (auto simp: pending_register_def waiting_def split: if_splits)
    ultimately show ?thesis
      using assms(1) by (auto simp: session_ok_def waiting_def)
  qed
  then show "session_ok to_vec (insert i R) s'"
    using assms session_ok_mono [OF assms(1), of "insert i R"]
    by (auto simp: request_register_def split: sum.splits)
  show "r = Inl e \<Longrightarrow> session_ok to_vec R s'"
    using assms by (auto simp: request_register_def split: sum.splits)
qed

lemma request_send_ok:
  assumes "session_ok to_vec R s"
  shows "session_ok to_vec (R - {i}) (snd (request_send to_vec m i b s))"
proof -
  obtain r s' where f: "send_frame to_vec b (method_priority ''shutdown'' m) s = (r, s')" by fastforce
  have ok: "session_ok to_vec R s'" by (rule kept.send_frame_inv [OF assms f])
  show ?thesis
  proof (cases r)
    case (Inl e)
    have "pending_ok (snd (pending_cancel i (s_pending s')))"
      using ok pending_cancel_ok by (simp add: session_ok_def)
    then show ?thesis
      using ok f Inl cancel_waiting [of i "s_pending s'"]
      by (auto simp: request_send_def session_ok_def waiting_def)
  next
    case (Inr u)
    then have "\<not> s_closed s'"
      using f by (auto simp: send_frame_def writer_send_def split: sum.splits if_splits)
    then show ?thesis using ok f Inr by (simp add: request_send_def session_ok_def)
  qed
qed

lemma system_step_ok:
  assumes "system_ok to_vec y"
  shows "system_ok to_vec (system_step to_vec de y x)"
proof -
  note ok = assms [unfolded system_ok_def]
  consider (admit) a t m ps where "x = OAdmit a t m ps"
    | (register) n l now t where "x = ORegister n l now t"
    | (send) n where "x = OSend n"
    | (other) "system_step to_vec de y x = y\<lparr>sys_session := session_step to_vec de (sys_session y) x\<rparr>"
    by (cases x) simp_all
  then show ?thesis
  proof cases
    case admit
    obtain r s' where a: "request_admit to_vec a t m ps (sys_session y) = (r, s')" by fastforce
    show ?thesis
      using kept.request_admit_inv [OF ok a] admit a
      by (auto simp: system_ok_def split: sum.split)
  next
    case register
    let ?c = "sys_calls y ! n"
    show ?thesis
    proof (cases "n < length (sys_calls y) \<and> \<not> c_registered ?c")
      case True
      obtain r s' where a: "request_register l now t (c_id ?c) (sys_session y) = (r, s')" by fastforce
      show ?thesis
        using request_register_ok [OF ok a] register a True registered_drop(2) registered_update
        by (cases r) (simp_all add: system_ok_def)
    next
      case False
      show ?thesis unfolding register system_step.simps if_not_P [OF False] by (rule assms)
    qed
  next
    case send
    let ?c = "sys_calls y ! n"
    show ?thesis
    proof (cases "n < length (sys_calls y) \<and> c_registered ?c")
      case True
      then show ?thesis
        using session_ok_mono [OF request_send_ok [OF ok] registered_drop(1)] send
        by (simp add: system_ok_def)
    next
      case False
      show ?thesis unfolding send system_step.simps if_not_P [OF False] by (rule assms)
    qed
  next
    case other
    then show ?thesis using session_step_ok [OF ok] by (simp add: system_ok_def)
  qed
qed

interpretation session: stepping "system_step to_vec de" "system_ok to_vec" for to_vec de
  by unfold_locales (rule system_step_ok)

definition new_system :: "session \<Rightarrow> system" where
  "new_system s = \<lparr>sys_session = s, sys_calls = []\<rparr>"

lemma limits_frame_bound: "limits_validate l = Inr () \<Longrightarrow> max_frame_bytes l \<le> max_max_frame_bytes"
  by (simp add: limits_validate_def within_def result_iff split: if_splits)

lemma new_system_ok:
  assumes "session_new gen l cb = Inr s"
  shows "system_ok to_vec (new_system s)"
proof -
  let ?m = "min (max_pending_requests l) (max_in_flight_requests l)"
  obtain p where "limits_validate l = Inr ()" and p: "pending_new ?m (max_tombstones l) = Inr p"
    and s: "s_events s = event_queue_new (inbound_queue_frames l) (max_frame_bytes l)"
      "s_pending s = p" "s_inbound s = inbound_new ?m" "s_outbound s = outbound_new"
      "s_writer s = writer_new l" "s_callback s = cb" "s_called s = []" "\<not> s_closed s"
    using assms by (auto simp: session_new_def Let_def result_iff)
  then show ?thesis
    using event_queue_new_ok writer_new_ok limits_frame_bound pending_new_ok [OF p]
    by (simp add: system_ok_def new_system_def session_ok_def inbound_new_ok outbound_new_ok)
qed

subsection \<open>What closing means to the callers\<close>


definition sample_to_vec :: "json \<Rightarrow> bytes option" where "sample_to_vec v = Some [CHR 0x41]" 

definition sample_de :: "str \<Rightarrow> raw \<times> bool" where "sample_de v = (RUnit, False)" 

definition sample_session :: session where
  "sample_session = \<lparr>
     s_generation = 1, s_limits = default_limits,
     s_events = event_queue_new 256 (4 * 1024 * 1024),
     s_pending = \<lparr>active = [], tombstones = [], max_active = 64, tomb_limit = 128, issued = [],
       delivered = []\<rparr>,
     s_inbound = inbound_new 64, s_outbound = outbound_new, s_writer = writer_new default_limits,
     s_in_flight = None, s_reader = RIdle, s_closed = False, s_pump_claimed = False,
     s_callback = True, s_called = [], s_barrier = NotSent, s_challenge = None, s_forbidden = {},
     s_initialized_sent = False, s_ready_claimed = False, s_ready_consumed = False,
     s_stderr_bytes = 0, s_stderr_truncated = False, s_stderr_line = [],
     s_stderr_draining = False, s_data_overflow_reported = False\<rparr>"

lemma sample_session: "session_new 1 default_limits True = Inr sample_session"
  by (simp add: session_new_def default_limits_valid pending_new_def Let_def sample_session_def)
     (simp add: default_limits_def max_pending_entries_def max_tombstone_entries_def)

lemma sample_id: "request_id (Suc 0) = ''c:rpc-1''" by code_simp

lemma sample_valid: "valid_id ''c:rpc-1''"
  using request_id_valid [of 1] by (simp add: sample_id u64_max_def)

lemma sample_request:
  "client_request ''c:rpc-1'' ''model/list'' (JObj []) = Inr \<lparr>frame_id_opt = Some ''c:rpc-1'',
     frame_method = Some ''model/list'', frame_params = Some (JObj []), frame_result = missing,
     frame_error = None\<rparr>"
  "encode sample_to_vec \<lparr>frame_id_opt = Some ''c:rpc-1'',
     frame_method = Some ''model/list'', frame_params = Some (JObj []), frame_result = missing,
     frame_error = None\<rparr> (max_frame_bytes default_limits) = Inr [CHR 0x41, CHR 0x0A]"
  by (simp_all add: client_request_def new_request_def validate_def sample_valid encode_def
      max_method_bytes_def missing_def validate_ready_token_fields_def starts_with_def
      reject_raw_token_markers_def is_ready_token_key_def is_token_shaped_def
      eq_ignore_ascii_case_def to_ascii_lowercase_def ready_token_field_def byte_defs wire_object_def
      put_opt_def sample_to_vec_def Let_def default_limits_def)

lemma sample_admit: "request_admit sample_to_vec None 5 ''model/list'' (JObj []) sample_session
   = (Inr (''c:rpc-1'', [CHR 0x41, CHR 0x0A]),
      sample_session\<lparr>s_outbound := \<lparr>out_seen = [''c:rpc-1''], out_next = 2\<rparr>\<rparr>)"
  by (simp add: request_admit_def max_operation_timeout_def Let_def allocate_def sample_session_def
      outbound_new_def max_outbound_ledger_def sample_id sample_request checked_add64_def u64_max_def )

definition sample_final :: system where
  "sample_final = foldl (system_step sample_to_vec sample_de) (new_system sample_session)
     [OAdmit None 5 ''model/list'' (JObj []), ORegister 0 100 1 5, OProcessFault, OSend 0]"

lemma sample_final: "s_closed (sys_session sample_final)" "sys_calls sample_final = []"
  "issued (s_pending (sys_session sample_final)) = [''c:rpc-1'']"
  unfolding sample_final_def
  apply (simp_all add: new_system_def sample_admit request_register_def deadline_after_def
      pending_register_def Let_def has_key_def report_process_fault_def fault_def drop_call_def)
  apply (simp_all add: sample_session_def push_control_def push_event_def push_event_queue_def
      fail_closed_def fail_closed_with_reason_def Let_def event_queue_new_def push_overflows_def
      control_queue_capacity_def control_queue_byte_budget_def sat_add_def usize_max_def
      queue_is_fatal_def)
  apply (simp_all add: request_send_def send_frame_def writer_send_def handle_writer_error_def
      pending_close_def pending_cancel_def finish_def remember_def has_key_def remove_key_def Let_def)
  done


end
