(* ===== verification/Ja_Session_Ready.thy ===== *)
theory Ja_Session_Ready
  imports Ja_Session_Inv
begin

text \<open>
  The handshake's secret and its outcome: the challenge token never leaves a session except
  where the ready notification echoes it, stderr text never leaves it at all, and a handshake
  makes at most one ready promotion, of a session that is open and has sent \<open>initialized\<close>.
\<close>

subsection \<open>What a frame mentions\<close>

definition frame_mentions :: "str \<Rightarrow> rpc_frame \<Rightarrow> bool" where
  "frame_mentions t f \<longleftrightarrow>
     frame_id_opt f = Some t \<or> frame_method f = Some t
     \<or> opt_ex (mentions {t}) (frame_params f)
     \<or> opt_ex (mentions {t}) (present_value (frame_result f))
     \<or> opt_ex (\<lambda>e. err_message e = t \<or> mentions {t} (err_data e)) (frame_error f)"

text \<open>A ready notification without its echo of the challenge.\<close>

definition without_echo :: "rpc_frame \<Rightarrow> rpc_frame" where
  "without_echo f = f\<lparr>frame_params := map_option (\<lambda>v. case v of
     JObj o' \<Rightarrow> JObj (filter (\<lambda>p. fst p \<noteq> ''readyToken'') o') | _ \<Rightarrow> v) (frame_params f)\<rparr>"

fun hides :: "str \<Rightarrow> session_event \<Rightarrow> bool" where
  "hides t (ServerRequest f) = (\<not> frame_mentions t f)"
| "hides t (NotificationEvent f) =
     (\<not> frame_mentions t (if is_runtime_ready_notification f then without_echo f else f))"
| "hides t (StderrLine l) = (l = stderr_redacted_summary)"
| "hides t e = True"

lemma mentions_mono: "mentions F v \<Longrightarrow> F \<subseteq> G \<Longrightarrow> mentions G v"
  by (induction F v rule: mentions.induct) (auto simp: list_ex_iff)

lemma forbidden_finds: "t \<in> F \<Longrightarrow> mentions {t} v \<Longrightarrow> contains_forbidden_token F v"
  by (rule mentions_forbidden_token, rule mentions_mono) auto

lemma safe_hides:
  assumes "t \<in> s_forbidden s" and "frame_payload_is_safe f s False"
  shows "\<not> frame_mentions t f"
  using assms forbidden_finds [OF assms(1)]
  by (auto simp: frame_payload_is_safe_def frame_mentions_def Let_def opt_ex_def
      split: if_splits option.splits)

lemma safe_ready_hides:
  assumes "t \<in> s_forbidden s" and "frame_payload_is_safe f s True"
  shows "\<not> frame_mentions t (without_echo f)"
proof -
  have head: "frame_id_opt f \<noteq> Some t" "frame_method f \<noteq> Some t"
      "\<not> opt_ex (mentions {t}) (present_value (frame_result f))"
      "\<not> opt_ex (\<lambda>e. err_message e = t \<or> mentions {t} (err_data e)) (frame_error f)"
    using assms forbidden_finds [OF assms(1)]
    by (auto simp: frame_payload_is_safe_def Let_def opt_ex_def split: if_splits option.splits)
  obtain v o' where p: "frame_params f = Some v" "as_object v = Some o'"
    using assms(2)
    by (auto simp: frame_payload_is_safe_def Let_def split: if_splits option.splits)
  have "k \<notin> s_forbidden s \<and> \<not> contains_forbidden_token (s_forbidden s) w"
    if "(k, w) \<in> set o'" "k \<noteq> ''readyToken''" for k w
    using assms(2) p that
    by (auto simp: frame_payload_is_safe_def Let_def list_all_iff split: if_splits option.splits)
  then have "\<not> list_ex (\<lambda>p. fst p = t \<or> mentions {t} (snd p)) (filter (\<lambda>p. fst p \<noteq> ''readyToken'') o')"
    using assms(1) forbidden_finds [OF assms(1)] by (fastforce simp: list_ex_iff)
  moreover have "v = JObj o'" using p(2) by (cases v) auto
  ultimately show ?thesis
    using head p(1) by (simp add: frame_mentions_def without_echo_def)
qed

lemma event_safe_hides: "t \<in> s_forbidden s \<Longrightarrow> event_safe s e \<Longrightarrow> hides t e"
  by (cases e) (auto simp: safe_hides safe_ready_hides)

subsection \<open>Nothing that mentions the challenge is queued or delivered\<close>

definition queued :: "event_queue \<Rightarrow> session_event set" where
  "queued q = set (server_requests q) \<union> set (data_events q) \<union> set (control_events q)"

lemma queued_push: "queued (push_event_queue to_vec e p k q) \<subseteq> {e, QueueOverflow k} \<union> queued q"
  by (auto simp: queued_def push_event_queue_def overflow_notice_def Let_def
      split: event_priority.split if_splits)

lemma queued_close: "queued (close_event_queue to_vec q) \<subseteq> queued q"
  by (auto simp: queued_def close_event_queue_def Let_def)

lemma queued_pop:
  assumes "pop_pass to_vec q = (r, q')"
  shows "queued q' \<subseteq> queued q"
    and "r = Popped e \<Longrightarrow> e \<in> queued q \<or> (\<exists>k. e = QueueFatalOverflow k)"
  using assms
  by (auto simp: queued_def pop_pass_def pop_lanes_def pop_data_def pop_request_def pop_control_def
      neq_Nil_conv split: option.splits list.splits if_splits)

lemma queued_pop_request: "queued (snd (pop_server_request to_vec q)) \<subseteq> queued q"
  by (auto simp: queued_def pop_server_request_def pop_request_def
      split: list.split session_event.split)

definition session_clean :: "str \<Rightarrow> session \<Rightarrow> bool" where
  "session_clean t s \<longleftrightarrow>
     t \<in> s_forbidden s \<and> (\<forall>e \<in> queued (s_events s). hides t e)
     \<and> (\<forall>i f. (i, Inr f) \<in> set (delivered (s_pending s)) \<longrightarrow> \<not> frame_mentions t f)"

lemma finish_all_messages:
  "set (delivered (finish_all e t ids p)) \<subseteq> set (delivered p) \<union> range (\<lambda>i. (i, Inl e))"
  by (induction ids arbitrary: p) (force split: if_splits)+

interpretation clean: session_contract to_vec "session_clean t" for to_vec t
proof unfold_locales
  fix s s' :: session
  assume "shared s' = shared s" and "session_clean t s"
  then show "session_clean t s'" by (simp add: shared_def session_clean_def)
next
  fix s :: session and r
  assume "session_clean t s"
  then show "session_clean t (fail_closed_with_reason to_vec r s)"
    using queued_close [of to_vec "s_events s"]
      finish_all_messages [of SessionClosed TCancelled "map fst (active (s_pending s))" "s_pending s"]
    by (auto simp: fail_closed_with_reason_def session_clean_def close_finish_all)
next
  fix s :: session and e p k
  assume "session_clean t s" and "event_safe s e"
  then show "session_clean t (s\<lparr>s_events := push_event_queue to_vec e p k (s_events s)\<rparr>)"
    using event_safe_hides [of t s e] queued_push [of to_vec e p k "s_events s"]
    by (auto simp: session_clean_def)
next
  fix s :: session
  assume "session_clean t s"
  then show "session_clean t (s\<lparr>s_events := snd (pop_pass to_vec (s_events s))\<rparr>)"
    using queued_pop(1) by (cases "pop_pass to_vec (s_events s)") (fastforce simp: session_clean_def)
next
  fix s :: session
  assume "session_clean t s"
  then show "session_clean t (s\<lparr>s_events := snd (pop_server_request to_vec (s_events s))\<rparr>)"
    using queued_pop_request [of to_vec "s_events s"] by (auto simp: session_clean_def)
next
  fix s :: session and f
  assume "session_clean t s" and "frame_payload_is_safe f s False"
  then show "session_clean t (s\<lparr>s_pending := snd (pending_resolve f (s_pending s))\<rparr>)"
    using safe_hides [of t s f] by (auto simp: session_clean_def pending_resolve_def Let_def)
next
  fix s :: session and now
  assume "session_clean t s"
  then show "session_clean t (s\<lparr>s_pending := snd (pending_expire now (s_pending s))\<rparr>)"
    using finish_all_messages [of DeadlineExceeded TTimedOut
      "map fst (filter (\<lambda>e. snd e \<le> now) (active (s_pending s)))" "s_pending s"]
    by (auto simp: session_clean_def expire_finish_all)
qed (simp_all add: session_clean_def)

lemma request_send_clean:
  assumes "session_clean t s"
  shows "session_clean t (snd (request_send to_vec m i b s))"
proof -
  obtain r s' where f: "send_frame to_vec b (method_priority ''shutdown'' m) s = (r, s')" by fastforce
  have "session_clean t s'" by (rule clean.send_frame_inv [OF assms f])
  then show ?thesis
    using f by (cases r) (auto simp: request_send_def session_clean_def pending_cancel_def)
qed

lemma request_register_clean:
  "session_clean t s \<Longrightarrow> session_clean t (snd (request_register limit now d i s))"
  by (auto simp: request_register_def session_clean_def pending_register_def split: sum.splits)

lemma system_step_clean:
  assumes "session_clean t (sys_session y)" and "\<And>u. x \<noteq> OInstall u"
  shows "session_clean t (sys_session (system_step to_vec de y x))"
proof (cases x)
  case (OAdmit a d m ps)
  then show ?thesis
    using clean.request_admit_inv [OF assms(1)] by (auto split: prod.split sum.split)
next
  case (ORegister n l now d)
  then show ?thesis
    using assms(1) request_register_clean [OF assms(1), of l now d "c_id (sys_calls y ! n)"]
    by (auto split: prod.split sum.split)
next
  case (OSend n)
  then show ?thesis using assms(1) request_send_clean [OF assms(1)] by simp
qed (use clean.step_inv [OF assms(1), of x to_vec de] assms(2) in simp_all)

lemma system_run_clean:
  "session_clean t (sys_session y) \<Longrightarrow> \<forall>x \<in> set ops. \<forall>u. x \<noteq> OInstall u
    \<Longrightarrow> session_clean t (sys_session (foldl (system_step to_vec de) y ops))"
  by (induction ops arbitrary: y) (simp_all add: system_step_clean)

lemma install_clean:
  assumes "session_new gen l callback = Inr s" and "install_ready_token_challenge t s = (Inr (), s')"
  shows "session_clean t s'"
  using assms
  by (auto simp: session_new_def install_ready_token_challenge_def session_clean_def queued_def
      event_queue_new_def pending_new_def Let_def result_iff split: if_splits)

text \<open>
  C3. Once a challenge token is installed, whatever the peer sends and however the threads
  interleave, no event handed to the consumer, no nested server request and no response
  delivered to a caller mentions it, as an id, a method, a message, a key or a string at any
  depth; the one exception is the \<open>readyToken\<close> field of a ready notification. And no text
  the sidecar writes to stderr is handed on: every stderr event is the fixed summary.
\<close>

theorem challenge_never_surfaces:
  assumes "session_new gen l callback = Inr s0"
    and "install_ready_token_challenge t s0 = (Inr (), s1)"
    and "\<forall>x \<in> set ops. \<forall>u. x \<noteq> OInstall u"
    and "y = foldl (system_step to_vec de) (new_system s1) ops"
  shows "(\<forall>e s'. next_event to_vec (sys_session y) = (Some e, s') \<longrightarrow> hides t e)
    \<and> (\<forall>f s'. next_server_request to_vec (sys_session y) = (Some f, s') \<longrightarrow> \<not> frame_mentions t f)
    \<and> (\<forall>i f. (i, Inr f) \<in> set (delivered (s_pending (sys_session y))) \<longrightarrow> \<not> frame_mentions t f)"
proof -
  have "session_clean t (sys_session (new_system s1))"
    using install_clean [OF assms(1,2)] by (simp add: new_system_def)
  then have clean: "session_clean t (sys_session y)"
    unfolding assms(4) by (rule system_run_clean) (rule assms(3))
  have "hides t e" if "next_event to_vec (sys_session y) = (Some e, s')" for e s'
  proof -
    obtain r q where pop: "pop_pass to_vec (s_events (sys_session y)) = (r, q)" by fastforce
    then have "r = Popped e"
      using that by (cases r) (simp_all add: next_event_def pop_event_def)
    from queued_pop(2) [OF pop this] show ?thesis
      using clean by (auto simp: session_clean_def)
  qed
  moreover have "\<not> frame_mentions t f"
    if "next_server_request to_vec (sys_session y) = (Some f, s')" for f s'
  proof -
    have "ServerRequest f \<in> queued (s_events (sys_session y))"
      using that by (auto simp: next_server_request_def pop_server_request_def queued_def
          split: prod.splits list.splits session_event.splits)
    then show ?thesis using clean by (fastforce simp: session_clean_def)
  qed
  ultimately show ?thesis using clean by (simp add: session_clean_def)
qed

subsection \<open>One promotion for a handshake\<close>

text \<open>What reopens the handshake: a new challenge, or a call that sends \<open>initialized\<close>.\<close>

fun reopens :: "session_op \<Rightarrow> bool" where
  "reopens (OInstall _) = True"
| "reopens (ONotify _ m _) = (m = ''initialized'')"
| "reopens _ = False"

lemma consumed_closing [simp]:
  "s_ready_consumed (fail_closed_with_reason to_vec r s) = s_ready_consumed s"
  "s_ready_consumed (fail_closed to_vec s) = s_ready_consumed s"
  "s_ready_consumed (push_event to_vec e p k s) = s_ready_consumed s"
  "s_ready_consumed (push_control to_vec e s) = s_ready_consumed s"
  "s_ready_consumed (fault to_vec e s) = s_ready_consumed s"
  "s_ready_consumed (handle_writer_error to_vec x s) = s_ready_consumed s"
  by (simp_all add: fail_closed_with_reason_def fail_closed_def push_event_def push_control_def
      fault_def handle_writer_error_def Let_def split: agent_error.split queue_kind.split)

lemma consumed_send [simp]:
  "s_ready_consumed (snd (send_frame to_vec b p s)) = s_ready_consumed s"
  by (simp add: send_frame_def split: sum.split)

lemma consumed_send_eq: "send_frame to_vec b p s = (r, s') \<Longrightarrow> s_ready_consumed s' = s_ready_consumed s"
  using consumed_send [of to_vec b p s] by simp

lemma consumed_reader [simp]:
  "s_ready_consumed (reader_begin s) = s_ready_consumed s"
  "s_ready_consumed (dispatch_response to_vec f s) = s_ready_consumed s"
  "s_ready_consumed (dispatch_server_request to_vec f s) = s_ready_consumed s"
  "s_ready_consumed (dispatch_notification to_vec f s) = s_ready_consumed s"
  by (auto simp: reader_begin_def dispatch_response_def dispatch_server_request_def
      dispatch_notification_def claim_ready_notification_def Let_def
      split: prod.split sum.split bool.split)

lemma consumed_turn [simp]: "s_ready_consumed (reader_turn to_vec r s) = s_ready_consumed s"
  by (auto simp: reader_turn_def dispatch_frame_def
      split: sum.split frame_kind.split codec_error.split)

lemma consumed_writer [simp]:
  "s_ready_consumed (writer_failed to_vec e s) = s_ready_consumed s"
  "s_ready_consumed (writer_exit s) = s_ready_consumed s"
  by (simp_all add: writer_failed_def writer_exit_def Let_def)

lemma consumed_writer_turn [simp]:
  "s_ready_consumed (writer_begin to_vec de s) = s_ready_consumed s"
  "s_ready_consumed (writer_end to_vec w s) = s_ready_consumed s"
  by (auto simp: writer_begin_def writer_end_def Let_def
      split: option.split sum.split prod.split write_outcome.split)

lemma consumed_stderr [simp]:
  "s_ready_consumed (stderr_byte to_vec b s) = s_ready_consumed s"
  "s_ready_consumed (stderr_eof to_vec s) = s_ready_consumed s"
  by (simp_all add: stderr_byte_def stderr_eof_def emit_stderr_truncated_def emit_stderr_line_def
      count_stderr_def Let_def)

lemma consumed_requests:
  "s_ready_consumed (snd (request_admit to_vec a d m ps s)) = s_ready_consumed s"
  "s_ready_consumed (snd (request_register limit now d i s)) = s_ready_consumed s"
  "s_ready_consumed (snd (request_send to_vec m i b s)) = s_ready_consumed s"
  by (auto simp: request_admit_def request_register_def request_send_def Let_def
      dest: consumed_send_eq split: prod.split sum.split)

lemma consumed_respond: "s_ready_consumed (snd (respond to_vec f s)) = s_ready_consumed s"
  by (simp add: respond_def split: sum.split)

lemma consumed_answers:
  "s_ready_consumed (snd (respond_result to_vec i v s)) = s_ready_consumed s"
  "s_ready_consumed (snd (respond_error to_vec i c m j r s)) = s_ready_consumed s"
  by (auto simp: respond_result_def respond_error_def consumed_respond
      split: sum.split option.split prod.split)

lemma consumed_notify:
  "m \<noteq> ''initialized'' \<Longrightarrow> s_ready_consumed (snd (notify_inner to_vec a m ps s)) = s_ready_consumed s"
  by (auto simp: notify_inner_def unsent_def dest: consumed_send_eq split: prod.split sum.split)

lemma consumed_promotion:
  "s_ready_consumed s \<Longrightarrow> s_ready_consumed (snd (with_ready_promotion f p s))"
  by (simp add: with_ready_promotion_def ready_after_barrier_def split: option.split)

lemma consumed_small:
  "s_ready_consumed (snd (request_timeout now s)) = s_ready_consumed s"
  "s_ready_consumed (report_process_exit to_vec c s) = s_ready_consumed s"
  "s_ready_consumed (report_process_fault to_vec s) = s_ready_consumed s"
  "s_ready_consumed (close_until to_vec j s) = s_ready_consumed s"
  "s_ready_consumed (detach_terminal_callback s) = s_ready_consumed s"
  "s_ready_consumed (snd (take_event_pump s)) = s_ready_consumed s"
  "s_ready_consumed (snd (next_event to_vec s)) = s_ready_consumed s"
  "s_ready_consumed (snd (next_server_request to_vec s)) = s_ready_consumed s"
  by (simp_all add: request_timeout_def report_process_exit_def report_process_fault_def
      close_until_def detach_terminal_callback_def take_event_pump_def next_event_def
      next_server_request_def Let_def split: prod.split)

lemma consumed_session_step:
  "s_ready_consumed s \<Longrightarrow> \<not> reopens x \<Longrightarrow> s_ready_consumed (session_step to_vec de s x)"
  by (cases x) (simp_all add: consumed_small consumed_requests consumed_answers consumed_notify
      consumed_promotion)

lemma consumed_step:
  assumes "s_ready_consumed (sys_session y)" and "\<not> reopens x"
  shows "s_ready_consumed (sys_session (system_step to_vec de y x))"
proof (cases x)
  case (OAdmit a d m ps)
  then show ?thesis
    using assms(1) consumed_requests(1) [of to_vec a d m ps "sys_session y"]
    by (auto split: prod.split sum.split)
next
  case (ORegister n l now d)
  then show ?thesis
    using assms(1) consumed_requests(2) [of l now d "c_id (sys_calls y ! n)" "sys_session y"]
    by (auto split: prod.split sum.split)
next
  case (OSend n)
  then show ?thesis using assms(1) consumed_requests(3) by simp
qed (use consumed_session_step [OF assms, of to_vec de] in simp_all)

lemma consumed_run:
  "s_ready_consumed (sys_session y) \<Longrightarrow> \<forall>x \<in> set ops. \<not> reopens x
    \<Longrightarrow> s_ready_consumed (sys_session (foldl (system_step to_vec de) y ops))"
  by (induction ops arbitrary: y) (simp_all add: consumed_step)

lemma consumed_refuses:
  "s_ready_consumed s \<Longrightarrow> fst (with_ready_promotion g q s) \<in> {Inl SessionClosed, Inl AHandshakeFailed}"
  by (simp add: with_ready_promotion_def ready_after_barrier_def split: option.split)

lemma ready_after_True:
  assumes "fst (ready_after_barrier f s)"
  obtains v t where "frame_params f = Some v" and "\<not> s_closed s" and "s_barrier s = Confirmed"
    and "s_ready_claimed s" and "s_challenge s = Some t"
    and "Option.bind (json_get v ''readyToken'') as_str = Some t" and "valid_ready_token t"
    and "ready_params_are_safe v t (s_forbidden s)"
    and "snd (ready_after_barrier f s) = s\<lparr>s_ready_consumed := True\<rparr>"
proof -
  obtain v where v: "frame_params f = Some v"
    using assms by (cases "frame_params f") (simp_all add: ready_after_barrier_def)
  obtain t where t: "s_challenge s = Some t"
    using assms v by (cases "s_challenge s") (simp_all add: ready_after_barrier_def split: if_splits)
  let ?bad = "Option.bind (json_get v ''readyToken'') as_str \<noteq> Some t \<or> \<not> valid_ready_token t
    \<or> \<not> ready_params_are_safe v t (s_forbidden s)"
  have eval: "ready_after_barrier f s =
      (if s_closed s \<or> \<not> is_confirmed (s_barrier s) then (False, s)
       else if \<not> s_ready_claimed s then (False, s)
       else if ?bad then (False, s)
       else if s_ready_consumed s then (False, s)
       else (True, s\<lparr>s_ready_consumed := True\<rparr>))"
    unfolding ready_after_barrier_def v t option.case by (rule refl)
  have "\<not> (s_closed s \<or> \<not> is_confirmed (s_barrier s))" "s_ready_claimed s" "\<not> ?bad"
      "\<not> s_ready_consumed s"
    using assms unfolding eval by (simp_all only: fst_conv not_False_eq_True split: if_splits)
  with eval show thesis
    using that [OF v _ _ _ t] unfolding is_confirmed_def by simp
qed


definition sample_token :: str where "sample_token = replicate 32 CHR ''a''"

lemma sample_token_valid: "valid_ready_token sample_token"
  by (simp add: sample_token_def valid_ready_token_def list_all_iff byte_defs)

definition sample_installed :: session where
  "sample_installed = sample_session\<lparr>s_forbidden := {sample_token}, s_challenge := Some sample_token\<rparr>"

lemma sample_install:
  "install_ready_token_challenge sample_token sample_session = (Inr (), sample_installed)"
  by (simp add: install_ready_token_challenge_def sample_token_valid sample_installed_def
      sample_session_def)

definition sample_update :: rpc_frame where
  "sample_update = \<lparr>frame_id_opt = None, frame_method = Some ''turn/x'',
     frame_params = Some (JObj [(''k'', JStr ''v'')]), frame_result = missing, frame_error = None\<rparr>"

lemma sample_update_valid: "validate sample_update = Inr Notification"
  by (simp add: sample_update_def validate_def max_method_bytes_def missing_def
      validate_ready_token_fields_def is_ready_token_key_def is_token_shaped_def
      eq_ignore_ascii_case_def to_ascii_lowercase_def ready_token_field_def byte_defs)

lemma sample_update_size: "frame_size sample_to_vec sample_update 4194304 = 2"
  by (simp add: frame_size_def encode_def sample_update_valid)
     (simp add: sample_update_def reject_raw_token_markers_def is_ready_token_key_def
      is_token_shaped_def eq_ignore_ascii_case_def to_ascii_lowercase_def ready_token_field_def
      byte_defs wire_object_def put_opt_def sample_to_vec_def Let_def missing_def)

lemma sample_update_safe: "s_forbidden s = {sample_token} \<Longrightarrow> frame_payload_is_safe sample_update s False"
  by (simp add: frame_payload_is_safe_def sample_update_def missing_def Let_def sample_token_def
      is_ready_token_key_def is_token_shaped_def eq_ignore_ascii_case_def to_ascii_lowercase_def
      ready_token_field_def byte_defs numeral_eq_Suc)

lemma sample_update_kind: "\<not> is_runtime_ready_notification sample_update"
    "notification_routing sample_update = (PData, QData)"
  by (simp_all add: is_runtime_ready_notification_def notification_routing_def sample_update_def
      is_turn_completed_def starts_with_def)

definition sample_read :: system where
  "sample_read = foldl (system_step sample_to_vec sample_de) (new_system sample_installed)
     [OReaderBegin, OReaderTurn (Inr sample_update), OTakePump]"

lemma sample_read_event:
  "fst (next_event sample_to_vec (sys_session sample_read)) = Some (NotificationEvent sample_update)"
  unfolding sample_read_def
  apply (simp add: new_system_def reader_begin_def sample_installed_def sample_session_def
      reader_turn_def sample_update_kind dispatch_frame_def sample_update_valid)
  apply (simp add: dispatch_notification_def sample_update_kind sample_update_safe
     push_event_def push_event_queue_def event_queue_new_def sample_update_size
   push_overflows_def control_queue_capacity_def control_queue_byte_budget_def sat_add_def usize_max_def
      queue_is_fatal_def max_event_queue_bytes_def)
  apply (simp add: take_event_pump_def next_event_def pop_event_def pop_pass_def pop_lanes_def
      max_event_control_burst_def)
  done

theorem challenge_never_surfaces_witness:
  "fst (next_event sample_to_vec (sys_session sample_read)) = Some (NotificationEvent sample_update)
   \<and> hides sample_token (NotificationEvent sample_update)"
proof -
  have "\<forall>x \<in> set [OReaderBegin, OReaderTurn (Inr sample_update), OTakePump]. \<forall>u. x \<noteq> OInstall u"
    by simp
  from challenge_never_surfaces [OF sample_session sample_install this sample_read_def]
  show ?thesis
    using sample_read_event by (metis prod.collapse)
qed

definition sample_ready :: rpc_frame where
  "sample_ready = \<lparr>frame_id_opt = None, frame_method = Some ''runtime/statusChanged'',
     frame_params = Some (JObj [(''readyToken'', JStr sample_token), (''status'', JStr ''ready'')]),
     frame_result = missing, frame_error = None\<rparr>"

definition sample_waiting :: session where
  "sample_waiting = sample_installed\<lparr>s_barrier := Confirmed, s_ready_claimed := True\<rparr>"

lemma sample_token_other: "''status'' \<noteq> sample_token" "''ready'' \<noteq> sample_token"
  by (simp_all add: sample_token_def numeral_eq_Suc)

lemma sample_ready_accepted:
  "ready_after_barrier sample_ready sample_waiting
     = (True, sample_waiting\<lparr>s_ready_consumed := True\<rparr>)"
  "\<not> s_closed sample_waiting"
  by (simp_all add: ready_after_barrier_def sample_ready_def sample_waiting_def sample_installed_def
      sample_session_def is_confirmed_def sample_token_valid sample_token_other ready_params_are_safe_def
      ready_token_field_def is_ready_token_key_def is_token_shaped_def eq_ignore_ascii_case_def
      to_ascii_lowercase_def byte_defs json_get_def)


end
