(* ===== verification/Ja_Time.thy ===== *)
theory Ja_Time
  imports Ja_Handshake "HOL-Library.Signed_Division"
begin

text \<open>
  The host's clock text (\<open>app_runtime/projection.rs\<close>) and the comparison of expiry times
  (\<open>app_runtime/bridge.rs\<close>): the civil calendar from a day count, the fixed-width UTC
  timestamp, its canonical form, and the string comparison that decides whether an approval
  has expired. Strings compare by bytes, as Rust's do.
\<close>

subsection \<open>Dates\<close>

text \<open>\<open>i64\<close> division truncates; the only quotient of a negative number is the era's.\<close>

definition civil_from_days :: "int \<Rightarrow> int \<times> int \<times> int" where
  "civil_from_days days_since_epoch =
     (let z = days_since_epoch + 719468;
          era = (if 0 \<le> z then z else z - 146096) sdiv 146097;
          doe = z - era * 146097;
          yoe = (doe - doe sdiv 1460 + doe sdiv 36524 - doe sdiv 146096) sdiv 365;
          year = yoe + era * 400;
          doy = doe - (365 * yoe + yoe sdiv 4 - yoe sdiv 100);
          month_part = (5 * doy + 2) sdiv 153;
          day = doy - (153 * month_part + 2) sdiv 5 + 1;
          month = month_part + (if month_part < 10 then 3 else - 9);
          year = year + (if month \<le> 2 then 1 else 0)
      in (year, month, day))"

text \<open>\<open>format!("{n:0k}")\<close> of an unsigned number.\<close>

definition show_pad :: "nat \<Rightarrow> nat \<Rightarrow> str" where
  "show_pad k n = replicate (k - length (show_nat n)) CHR ''0'' @ show_nat n"

text \<open>\<open>secs\<close> and \<open>millis\<close> are \<open>as_secs\<close> and \<open>subsec_millis\<close> of the time since the epoch.\<close>

definition now_timestamp :: "nat \<Rightarrow> nat \<Rightarrow> str" where
  "now_timestamp secs millis =
     (let days = int (secs div 86400);
          seconds = secs mod 86400
      in case civil_from_days days of (year, month, day) \<Rightarrow>
        show_pad 4 (nat year) @ ''-'' @ show_pad 2 (nat month) @ ''-'' @ show_pad 2 (nat day)
        @ ''T'' @ show_pad 2 (seconds div 3600) @ '':'' @ show_pad 2 ((seconds div 60) mod 60)
        @ '':'' @ show_pad 2 (seconds mod 60) @ ''.'' @ show_pad 3 millis @ ''Z'')"

subsection \<open>Expiry\<close>

definition digit_at :: "bytes \<Rightarrow> nat \<Rightarrow> bool" where
  "digit_at bs i \<longleftrightarrow> i < length bs \<and> is_ascii_digit (bs ! i)"

definition byte_at :: "bytes \<Rightarrow> nat \<Rightarrow> char \<Rightarrow> bool" where
  "byte_at bs i c \<longleftrightarrow> i < length bs \<and> bs ! i = c"

definition digit_value_or_0 :: "bytes \<Rightarrow> nat \<Rightarrow> nat" where
  "digit_value_or_0 bs i = (if i < length bs then byte (bs ! i) - 48 else 0)"

definition canonical_timestamp :: "str \<Rightarrow> str option" where
  "canonical_timestamp v =
     (if \<not> within 20 64 (length v) \<or> \<not> ends_with v ''Z''
        \<or> \<not> byte_at v 10 CHR ''T'' \<or> \<not> byte_at v 4 CHR ''-'' \<or> \<not> byte_at v 7 CHR ''-''
        \<or> \<not> byte_at v 13 CHR '':'' \<or> \<not> byte_at v 16 CHR '':''
      then None
      else if \<not> list_all (digit_at v) [0, 1, 2, 3, 5, 6, 8, 9, 11, 12, 14, 15, 17, 18] then None
      else
        let render = (\<lambda>millis. Some (take 19 v @ ''.'' @ show_pad 3 millis @ ''Z'')) in
        if length v = 20 then render 0
        else if v ! 19 \<noteq> CHR ''.'' \<or> length v < 22 then None
        else
          let fraction = take (length v - 1 - 20) (drop 20 v) in
          if fraction = [] \<or> \<not> list_all is_ascii_digit fraction then None
          else render (digit_value_or_0 fraction 0 * 100 + digit_value_or_0 fraction 1 * 10
            + digit_value_or_0 fraction 2))"

definition approval_expired :: "str \<Rightarrow> str \<Rightarrow> bool" where
  "approval_expired now expires_at =
     (case canonical_timestamp expires_at of
        None \<Rightarrow> True
      | Some normal \<Rightarrow> normal \<le> now)"

subsection \<open>The calendar\<close>

text \<open>The day after a date, by the rules of the Gregorian calendar.\<close>

fun next_day :: "int \<times> int \<times> int \<Rightarrow> int \<times> int \<times> int" where
  "next_day (y, m, d) =
     (if d < int (days_in_month (nat y) (nat m)) then (y, m, d + 1)
      else if m < 12 then (y, m + 1, 1)
      else (y + 1, 1, 1))"

definition valid_date :: "int \<times> int \<times> int \<Rightarrow> bool" where
  "valid_date = (\<lambda>(y, m, d). 0 \<le> y \<and> 1 \<le> m \<and> m \<le> 12 \<and> 1 \<le> d
     \<and> d \<le> int (days_in_month (nat y) (nat m)))"

text \<open>Days since 1970-01-01, counted in years that begin in March.\<close>

definition days_from_civil :: "int \<times> int \<times> int \<Rightarrow> int" where
  "days_from_civil = (\<lambda>(y, m, d).
     let y' = (if m \<le> 2 then y - 1 else y);
         mp = (if 2 < m then m - 3 else m + 9);
         doy = (153 * mp + 2) div 5 + d - 1
     in 365 * y' + y' div 4 - y' div 100 + y' div 400 + doy - 719468)"

subsection \<open>The arithmetic of the calendar\<close>

lemma div_exact: "a = b * q + r \<Longrightarrow> 0 \<le> r \<Longrightarrow> r < b \<Longrightarrow> a div b = (q::int)"
  by (rule int_div_pos_eq)

lemma sdiv_pos: "0 \<le> a \<Longrightarrow> 0 < b \<Longrightarrow> a sdiv b = (a::int) div b"
  by (cases "a = 0") (simp_all add: signed_divide_int_def)

lemma year_of_era:
  fixes a b c doy :: int
  assumes "0 \<le> a" "a \<le> 3" "0 \<le> b" "b \<le> 24" "0 \<le> c" "c \<le> 3" "0 \<le> doy"
    and "doy \<le> 364 \<or> doy = 365 \<and> c = 3 \<and> (b \<noteq> 24 \<or> a = 3)"
  defines "doe \<equiv> 36524 * a + 1461 * b + 365 * c + doy"
  shows "(doe - doe div 1460 + doe div 36524 - doe div 146096) div 365 = 100 * a + 4 * b + c"
proof -
  define q where "q = 1461 * b + 365 * c + doy"
  have small: "doy \<le> 364 \<Longrightarrow> q \<le> 36523" "b \<noteq> 24 \<Longrightarrow> doy \<le> 365 \<Longrightarrow> q \<le> 36523" "doy \<le> 365 \<Longrightarrow> q \<le> 36524"
    using assms(3-6) unfolding q_def by linarith+
  have q: "0 \<le> q" "q \<le> 36524" "q = 36524 \<longrightarrow> a = 3"
    using assms(3,5,7) assms(8) small unfolding q_def by auto
  have doe: "doe = 36524 * a + q" by (simp add: doe_def q_def)
  have century: "doe div 36524 - doe div 146096 = a"
  proof (cases "q = 36524")
    case True
    then have "doe = 146096" using q(3) doe by simp
    then show ?thesis using True q(3) by simp
  next
    case False
    then have "doe div 36524 = a" using doe q by (intro div_exact [where r = q]) auto
    moreover have "doe div 146096 = 0" using doe q False assms(1,2) by (intro div_pos_pos_trivial) auto
    ultimately show ?thesis by simp
  qed
  define e :: int where "e = (if 1460 \<le> b + 24 * a + 365 * c + doy then 1 else 0)"
  have e: "doe div 1460 = 25 * a + b + e"
    using assms(1-8) unfolding e_def doe_def
    by (intro div_exact [where r = "b + 24 * a + 365 * c + doy - 1460 * e"]) (auto simp: e_def)
  have "doe - doe div 1460 + (doe div 36524 - doe div 146096)
      = 365 * (100 * a + 4 * b + c) + (doy - e)"
    unfolding century e by (simp add: doe_def)
  moreover have "0 \<le> doy - e" "doy - e < 365" using assms(1-8) unfolding e_def by auto
  ultimately have "(doe - doe div 1460 + (doe div 36524 - doe div 146096)) div 365 = 100 * a + 4 * b + c"
    by (rule div_exact)
  then show ?thesis by (simp add: algebra_simps)
qed

lemma era_split:
  fixes y :: int
  assumes "0 \<le> y"
  obtains e a b c where "y = 400 * e + (100 * a + 4 * b + c)" "0 \<le> e" "0 \<le> a" "a \<le> 3" "0 \<le> b" "b \<le> 24"
    "0 \<le> c" "c \<le> 3"
proof
  define r s where "r = y mod 400" and "s = r mod 100"
  have r: "0 \<le> r" "r < 400" and s: "0 \<le> s" "s < 100" by (simp_all add: r_def s_def)
  show "y = 400 * (y div 400) + (100 * (r div 100) + 4 * (s div 4) + s mod 4)"
    using mult_div_mod_eq [of 400 y] mult_div_mod_eq [of 100 r] mult_div_mod_eq [of 4 s]
    by (simp add: r_def s_def)
  show "0 \<le> r div 100" "0 \<le> s div 4" using r s by (simp_all add: pos_imp_zdiv_nonneg_iff)
  show "r div 100 \<le> 3" using zdiv_mono1 [of r 399 100] r(2) by simp
  show "s div 4 \<le> 24" using zdiv_mono1 [of s 99 4] s(2) by simp
  show "0 \<le> s mod 4" by simp
  show "s mod 4 \<le> 3" using pos_mod_bound [of 4 s] by linarith
  show "0 \<le> y div 400" using assms by (simp add: pos_imp_zdiv_nonneg_iff)
qed

lemma leap_year_int: "0 \<le> x \<Longrightarrow> leap_year (nat x) \<longleftrightarrow> 400 dvd x \<or> 4 dvd x \<and> \<not> 100 dvd x"
  using int_dvd_int_iff [of 400 "nat x"] int_dvd_int_iff [of 4 "nat x"] int_dvd_int_iff [of 100 "nat x"]
  by (simp add: leap_year_def)

lemma dvd_shift: "(k::int) dvd m \<Longrightarrow> k dvd (m + r) \<longleftrightarrow> k dvd r"
  by (rule dvd_add_right_iff)

lemma dvd_small: "0 < r \<Longrightarrow> r \<le> k \<Longrightarrow> (k::int) dvd r \<longleftrightarrow> r = k"
  by (auto dest: zdvd_imp_le)

lemma leap_split:
  fixes e a b c :: int
  assumes "0 \<le> e" "0 \<le> a" "a \<le> 3" "0 \<le> b" "b \<le> 24" "0 \<le> c" "c \<le> 3"
  shows "leap_year (nat (400 * e + (100 * a + 4 * b + c) + 1)) \<longleftrightarrow> c = 3 \<and> (b \<noteq> 24 \<or> a = 3)"
proof -
  let ?y = "400 * e + (100 * a + 4 * b + c) + 1"
  have "4 dvd ?y \<longleftrightarrow> c + 1 = 4"
    using dvd_shift [of 4 "400 * e + 100 * a + 4 * b" "c + 1"] dvd_small [of "c + 1" 4] assms(6,7)
    by (simp add: algebra_simps)
  moreover have "100 dvd ?y \<longleftrightarrow> 4 * b + c + 1 = 100"
    using dvd_shift [of 100 "400 * e + 100 * a" "4 * b + c + 1"] dvd_small [of "4 * b + c + 1" 100] assms(4-7)
    by (simp add: algebra_simps)
  moreover have "400 dvd ?y \<longleftrightarrow> 100 * a + 4 * b + c + 1 = 400"
    using dvd_shift [of 400 "400 * e" "100 * a + 4 * b + c + 1"]
      dvd_small [of "100 * a + 4 * b + c + 1" 400] assms(2-7)
    by (simp add: algebra_simps)
  ultimately show ?thesis
    using assms leap_year_int [of ?y] by auto
qed

lemma month_part:
  fixes m d :: int
  assumes "1 \<le> m" "m \<le> 12" "1 \<le> d" "d \<le> int (days_in_month n (nat m))"
  defines "mp \<equiv> (if 2 < m then m - 3 else m + 9)"
  defines "doy \<equiv> (153 * mp + 2) div 5 + d - 1"
  shows "(5 * doy + 2) div 153 = mp" "0 \<le> doy" "doy \<le> 364 \<or> doy \<le> 365 \<and> m = 2 \<and> leap_year n"
    "0 \<le> mp"
proof -
  have "m = 1 \<or> m = 2 \<or> m = 3 \<or> m = 4 \<or> m = 5 \<or> m = 6 \<or> m = 7 \<or> m = 8 \<or> m = 9 \<or> m = 10 \<or> m = 11 \<or> m = 12"
    using assms(1,2) by presburger
  then have "(5 * doy + 2) div 153 = mp \<and> 0 \<le> doy \<and> (doy \<le> 364 \<or> doy \<le> 365 \<and> m = 2 \<and> leap_year n)
    \<and> 0 \<le> mp"
    by (elim disjE) (use assms(3,4) in \<open>simp_all add: mp_def doy_def days_in_month_def div_exact [where r = "5 * doy + 2 - 153 * mp"] split: if_splits\<close>)
  then show "(5 * doy + 2) div 153 = mp" "0 \<le> doy" "doy \<le> 364 \<or> doy \<le> 365 \<and> m = 2 \<and> leap_year n"
    "0 \<le> mp" by blast+
qed

lemma valid_date_days:
  assumes "1 \<le> y" "valid_date (y, m, d)"
  shows "civil_from_days (days_from_civil (y, m, d)) = (y, m, d)"
proof -
  define y' where "y' = (if m \<le> 2 then y - 1 else y)"
  define mp where "mp = (if 2 < m then m - 3 else m + 9)"
  define doy where "doy = (153 * mp + 2) div 5 + d - 1"
  have date: "1 \<le> m" "m \<le> 12" "1 \<le> d" "d \<le> int (days_in_month (nat y) (nat m))"
    using assms(2) by (auto simp: valid_date_def)
  note mon = month_part [OF date, folded mp_def, folded doy_def]
  have "0 \<le> y'" using assms(1) by (simp add: y'_def)
  then obtain e a b c where y': "y' = 400 * e + (100 * a + 4 * b + c)" and e: "0 \<le> e"
    and r: "0 \<le> a" "a \<le> 3" "0 \<le> b" "b \<le> 24" "0 \<le> c" "c \<le> 3"
    by (rule era_split)
  have leap: "doy \<le> 364 \<or> doy = 365 \<and> c = 3 \<and> (b \<noteq> 24 \<or> a = 3)"
    using mon(3) leap_split [OF e r] y' by (cases "doy \<le> 364") (auto simp: y'_def algebra_simps)
  define yoe where "yoe = 100 * a + 4 * b + c"
  define doe where "doe = 36524 * a + 1461 * b + 365 * c + doy"
  have yoe: "yoe div 4 = 25 * a + b" "yoe div 100 = a"
    using r by (auto simp: yoe_def intro: div_exact [where r = c] div_exact [where r = "4 * b + c"])
  have "y' div 4 = 100 * e + (25 * a + b)" "y' div 100 = 4 * e + a" "y' div 400 = e"
    unfolding y' using r
    by (auto intro: div_exact [where r = c] div_exact [where r = "4 * b + c"]
        div_exact [where r = "100 * a + 4 * b + c"])
  then have z: "days_from_civil (y, m, d) + 719468 = 146097 * e + doe"
    unfolding days_from_civil_def Let_def split y'_def [symmetric] mp_def [symmetric] doe_def y'
    by (simp add: doy_def)
  have doe: "0 \<le> doe" "doe < 146097" using r mon(2) leap by (auto simp: doe_def)
  have era: "(146097 * e + doe) sdiv 146097 = e"
    using doe e by (subst sdiv_pos) (auto intro: div_exact)
  have doe': "doe - doe sdiv 1460 + doe sdiv 36524 - doe sdiv 146096 =
      doe - doe div 1460 + doe div 36524 - doe div 146096"
    using doe by (simp add: sdiv_pos)
  have yoe_eq: "(doe - doe sdiv 1460 + doe sdiv 36524 - doe sdiv 146096) sdiv 365 = yoe"
    using year_of_era [OF r mon(2) leap] r unfolding doe' doe_def [symmetric] yoe_def [symmetric]
    by (subst sdiv_pos) (auto simp: yoe_def)
  have doy_eq: "doe - (365 * yoe + yoe sdiv 4 - yoe sdiv 100) = doy"
    using r yoe by (simp add: sdiv_pos yoe_def doe_def)
  have mp_eq: "(5 * doy + 2) sdiv 153 = mp" "(153 * mp + 2) sdiv 5 = (153 * mp + 2) div 5"
    using mon by (simp_all add: sdiv_pos)
  have year: "yoe + e * 400 = y'" unfolding y' yoe_def by simp
  have nonneg: "0 \<le> 146097 * e + doe" using e doe by simp
  show ?thesis
    unfolding civil_from_days_def z Let_def if_P [OF nonneg] era
    using date(1,2) by (simp add: yoe_eq doy_eq mp_eq year) (simp add: doy_def mp_def y'_def)
qed

lemma div_step:
  fixes y k :: int
  assumes "0 < k"
  shows "y div k = (y - 1) div k + (if k dvd y then 1 else 0)"
proof (cases "k dvd y")
  case True
  then obtain q where y: "y = k * q" ..
  have "(k * q - 1) div k = q - 1"
    using assms by (intro div_exact [where r = "k - 1"]) (auto simp: algebra_simps)
  then show ?thesis using True y assms by simp
next
  case False
  then have "0 < y mod k" using assms pos_mod_sign [of k y] by (auto simp: dvd_eq_mod_eq_0 less_le)
  then have "(y - 1) div k = y div k"
    using mult_div_mod_eq [of k y] pos_mod_bound [OF assms, of y]
    by (intro div_exact [where r = "y mod k - 1"]) linarith+
  then show ?thesis using False by simp
qed

lemma month_cases:
  fixes m :: int
  assumes "1 \<le> m" "m \<le> 12"
  shows "m = 1 \<or> m = 2 \<or> m = 3 \<or> m = 4 \<or> m = 5 \<or> m = 6 \<or> m = 7 \<or> m = 8 \<or> m = 9 \<or> m = 10 \<or> m = 11 \<or> m = 12"
  using assms by presburger

lemma march_days:
  assumes "1 \<le> y"
  shows "days_from_civil (y, 3, 1) = days_from_civil (y, 2, int (days_in_month (nat y) 2)) + 1"
proof -
  have leap: "leap_year (nat y) \<longleftrightarrow> 400 dvd y \<or> 4 dvd y \<and> \<not> 100 dvd y"
    using assms by (intro leap_year_int) simp
  have "400 dvd y \<Longrightarrow> 100 dvd y" "100 dvd y \<Longrightarrow> 4 dvd y"
    by (auto intro: dvd_trans [of 100 400] dvd_trans [of 4 100])
  then have "int (days_in_month (nat y) 2) = 28 + (if 4 dvd y then 1 else 0)
      - (if 100 dvd y then 1 else 0) + (if 400 dvd y then 1 else 0)"
    using leap by (simp add: days_in_month_def)
  moreover have "days_from_civil (y, 3, 1) = 365 * y + y div 4 - y div 100 + y div 400 - 719468"
    by (simp add: days_from_civil_def Let_def)
  moreover have "days_from_civil (y, 2, d) = 365 * (y - 1) + (y - 1) div 4 - (y - 1) div 100
      + (y - 1) div 400 + 336 + d - 719468" for d
    by (simp add: days_from_civil_def Let_def)
  ultimately show ?thesis
    using div_step [of 4 y] div_step [of 100 y] div_step [of 400 y] by (simp only:) simp
qed

lemma year_days:
  "days_from_civil (y + 1, 1, 1) = days_from_civil (y, 12, 31) + 1"
  by (simp add: days_from_civil_def Let_def)

lemma next_day_days:
  assumes "1 \<le> y" "valid_date (y, m, d)"
  shows "days_from_civil (next_day (y, m, d)) = days_from_civil (y, m, d) + 1"
proof (cases "d < int (days_in_month (nat y) (nat m))")
  case True
  then show ?thesis by (simp add: days_from_civil_def Let_def)
next
  case False
  then have d: "d = int (days_in_month (nat y) (nat m))" and m: "1 \<le> m" "m \<le> 12"
    using assms(2) by (auto simp: valid_date_def)
  have plain: "days_from_civil (y, m + 1, 1) = days_from_civil (y, m, d) + 1" if "m \<noteq> 2" "m < 12"
    using month_cases [OF m]
    by (elim disjE) (use d that in \<open>simp_all add: days_from_civil_def days_in_month_def Let_def\<close>)
  show ?thesis
  proof (cases "m = 12")
    case True
    then show ?thesis using d year_days by (simp add: days_in_month_def)
  next
    case False
    then show ?thesis using d m plain march_days [OF assms(1)] by (cases "m = 2") simp_all
  qed
qed

lemma next_day_valid:
  assumes "1 \<le> y" "valid_date (y, m, d)"
  shows "valid_date (next_day (y, m, d)) \<and> y \<le> fst (next_day (y, m, d))"
proof -
  have "1 \<le> days_in_month n k" for n k by (simp add: days_in_month_def)
  then show ?thesis using assms by (auto simp: valid_date_def le_Suc_eq)
qed

definition calendar :: "nat \<Rightarrow> int \<times> int \<times> int" where
  "calendar n = (next_day ^^ n) (1970, 1, 1)"

lemma calendar_days:
  "valid_date (calendar n) \<and> 1970 \<le> fst (calendar n) \<and> days_from_civil (calendar n) = int n"
proof (induction n)
  case 0
  show ?case by (simp add: calendar_def valid_date_def days_in_month_def days_from_civil_def Let_def)
next
  case (Suc n)
  obtain y m d where c: "calendar n = (y, m, d)" by (cases "calendar n")
  have "calendar (Suc n) = next_day (y, m, d)" using c by (simp add: calendar_def)
  then show ?case
    using Suc c next_day_days [of y m d] next_day_valid [of y m d] by simp
qed

text \<open>
  C35. The date the host computes for a day count is the one the calendar gives: starting at
  1970-01-01 and stepping to the next day that many times, with months and leap years by the
  Gregorian rules.
\<close>

theorem calendar_exact: "civil_from_days (int n) = (next_day ^^ n) (1970, 1, 1)"
proof -
  obtain y m d where c: "calendar n = (y, m, d)" by (cases "calendar n")
  then show ?thesis
    using calendar_days [of n] valid_date_days [of y m d] by (simp add: calendar_def)
qed

subsection \<open>Timestamps in order\<close>

lemma lex_append:
  fixes a b c d :: str
  assumes "length a = length c"
  shows "a @ b \<le> c @ d \<longleftrightarrow> a < c \<or> a = c \<and> b \<le> d"
  using assms by (induction a c rule: list_induct2) auto

lemma decimal_value_Cons:
  "decimal_value (c # s) = (byte c - 48) * 10 ^ length s + decimal_value s"
  by (induction s rule: rev_induct) (simp_all add: decimal_value_def algebra_simps)

lemma decimal_value_bound: "list_all is_ascii_digit s \<Longrightarrow> decimal_value s < 10 ^ length s"
proof (induction s)
  case (Cons c s)
  then have "byte c - 48 \<le> 9" "decimal_value s < 10 ^ length s" by (auto simp: byte_defs)
  then have "(byte c - 48) * 10 ^ length s + decimal_value s < 9 * 10 ^ length s + 10 ^ length s"
    by (meson add_le_less_mono mult_le_mono1)
  then show ?case by (simp add: decimal_value_Cons)
qed (simp add: decimal_value_def)

lemma digits_less:
  assumes "length s = length t" "list_all is_ascii_digit s" "list_all is_ascii_digit t"
  shows "s < t \<longleftrightarrow> decimal_value s < decimal_value t"
  using assms
proof (induction s t rule: list_induct2)
  case (Cons c s d t)
  have digits: "48 \<le> byte c" "48 \<le> byte d"
    using Cons.prems by (simp_all add: is_ascii_digit_def)
  have small: "decimal_value s < 10 ^ length t" "decimal_value t < 10 ^ length t"
    using Cons decimal_value_bound [of s] decimal_value_bound [of t] by simp_all
  have step: "(byte x - 48) * 10 ^ length t + u < (byte y - 48) * 10 ^ length t + v"
    if "byte x < byte y" "48 \<le> byte x" "u < 10 ^ length t" for x y :: char and u v :: nat
  proof -
    have "Suc (byte x - 48) * 10 ^ length t \<le> (byte y - 48) * 10 ^ length t"
      using that by (intro mult_le_mono1) simp
    then show ?thesis using that(3) by simp
  qed
  show ?case
  proof (cases "byte c" "byte d" rule: linorder_cases)
    case less
    then show ?thesis using step [OF less digits(1) small(1), of "decimal_value t"] Cons.hyps
      by (simp add: decimal_value_Cons less_char_def)
  next
    case equal
    then show ?thesis using Cons by (simp add: decimal_value_Cons less_char_def)
  next
    case greater
    then show ?thesis using step [OF greater digits(2) small(2), of "decimal_value s"] Cons.hyps
      by (auto simp: decimal_value_Cons less_char_def)
  qed
qed simp

lemma show_pad_length: "n < 10 ^ k \<Longrightarrow> 0 < k \<Longrightarrow> length (show_pad k n) = k"
  using length_show_nat [of n k] by (simp add: show_pad_def)

lemma show_pad_digits: "list_all is_ascii_digit (show_pad k n)"
  using show_nat_digits [of n] by (auto simp: show_pad_def list_all_iff byte_defs)

lemma decimal_value_zeros: "decimal_value (replicate k CHR ''0'' @ s) = decimal_value s"
  by (induction k) (simp_all add: decimal_value_Cons)

lemma show_pad_value [simp]: "decimal_value (show_pad k n) = n"
  by (simp add: show_pad_def decimal_value_zeros)

lemma show_pad_less:
  "m < 10 ^ k \<Longrightarrow> n < 10 ^ k \<Longrightarrow> 0 < k \<Longrightarrow> show_pad k m < show_pad k n \<longleftrightarrow> m < n"
  by (simp add: digits_less show_pad_length show_pad_digits)

lemma show_pad_inject: "show_pad k m = show_pad k n \<longleftrightarrow> m = n"
  by (metis show_pad_value)

lemma block_le:
  "m < 10 ^ k \<Longrightarrow> n < 10 ^ k \<Longrightarrow> 0 < k \<Longrightarrow>
    show_pad k m @ s \<le> show_pad k n @ t \<longleftrightarrow> m < n \<or> m = n \<and> s \<le> t"
  by (simp add: lex_append show_pad_length show_pad_less show_pad_inject)

text \<open>Later days have later dates, in the order of year, month and day.\<close>

definition date_key :: "int \<times> int \<times> int \<Rightarrow> int" where
  "date_key = (\<lambda>(y, m, d). 10000 * y + 100 * m + d)"

lemma days_in_month_le: "days_in_month y m \<le> 31"
  by (simp add: days_in_month_def)

lemma valid_date_bounds: "valid_date (y, m, d) \<Longrightarrow> 1 \<le> m \<and> m \<le> 12 \<and> 1 \<le> d \<and> d \<le> 31"
  using days_in_month_le [of "nat y" "nat m"] by (simp add: valid_date_def)

lemma next_day_key: "valid_date x \<Longrightarrow> date_key x < date_key (next_day x)"
  using valid_date_bounds [of "fst x" "fst (snd x)" "snd (snd x)"]
  by (cases x) (auto simp: date_key_def)

lemma calendar_key_mono: "m < n \<Longrightarrow> date_key (calendar m) < date_key (calendar n)"
proof (induction n)
  case (Suc n)
  have "date_key (calendar n) < date_key (calendar (Suc n))"
    using next_day_key [of "calendar n"] calendar_days [of n] by (simp add: calendar_def)
  then show ?case using Suc by (cases "m = n") auto
qed simp

lemma civil_calendar: "civil_from_days (int n) = calendar n"
proof -
  obtain y m d where c: "calendar n = (y, m, d)" by (cases "calendar n")
  then show ?thesis
    using calendar_days [of n] valid_date_days [of y m d] by simp
qed


definition last_day :: nat where "last_day = 2932896" \<comment> \<open>9999-12-31\<close>

lemma calendar_bounds:
  assumes "n \<le> last_day" and c: "calendar n = (y, m, d)"
  shows "1970 \<le> y" "y \<le> 9999" "1 \<le> m" "m \<le> 12" "1 \<le> d" "d \<le> 31"
proof -
  have valid: "valid_date (y, m, d)" "1970 \<le> y" using calendar_days [of n] c by simp_all
  then show "1970 \<le> y" "1 \<le> m" "m \<le> 12" "1 \<le> d" "d \<le> 31" using valid_date_bounds by auto
  have "days_from_civil (10000, 1, 1) = int (Suc last_day)"
    by (simp add: days_from_civil_def last_day_def)
  moreover have "civil_from_days (days_from_civil (10000, 1, 1)) = (10000, 1, 1)"
    by (rule valid_date_days) (simp_all add: valid_date_def days_in_month_def)
  ultimately have "calendar (Suc last_day) = (10000, 1, 1)"
    using civil_calendar [of "Suc last_day"] by simp
  then have "date_key (y, m, d) < date_key (10000, 1, 1)"
    using calendar_key_mono [of n "Suc last_day"] assms by simp
  then show "y \<le> 9999" using \<open>1 \<le> m\<close> \<open>1 \<le> d\<close> by (simp add: date_key_def)
qed

text \<open>The date and time blocks of a timestamp, as numbers.\<close>

definition date_less :: "int \<times> int \<times> int \<Rightarrow> int \<times> int \<times> int \<Rightarrow> bool" where
  "date_less = (\<lambda>(y, m, d) (y', m', d'). y < y' \<or> y = y' \<and> (m < m' \<or> m = m' \<and> d < d'))"

lemma date_less_key:
  assumes "0 \<le> m" "m \<le> 12" "0 \<le> d" "d \<le> 31" "0 \<le> m'" "m' \<le> 12" "0 \<le> d'" "d' \<le> 31"
  shows "date_less (y, m, d) (y', m', d') \<longleftrightarrow> date_key (y, m, d) < date_key (y', m', d')"
proof -
  have "y < y' \<Longrightarrow> date_key (y, m, d) < date_key (y', m', d')"
    using assms by (simp add: date_key_def)
  moreover have "y' < y \<Longrightarrow> \<not> date_key (y, m, d) < date_key (y', m', d')"
    using assms by (simp add: date_key_def)
  moreover have "m < m' \<Longrightarrow> y = y' \<Longrightarrow> date_key (y, m, d) < date_key (y', m', d')"
    using assms by (simp add: date_key_def)
  moreover have "m' < m \<Longrightarrow> y = y' \<Longrightarrow> \<not> date_key (y, m, d) < date_key (y', m', d')"
    using assms by (simp add: date_key_def)
  moreover have "m = m' \<Longrightarrow> y = y' \<Longrightarrow> date_key (y, m, d) < date_key (y', m', d') \<longleftrightarrow> d < d'"
    by (simp add: date_key_def)
  ultimately show ?thesis
    unfolding date_less_def split
    by (cases y y' rule: linorder_cases; cases m m' rule: linorder_cases) simp_all
qed

lemma calendar_less_iff:
  assumes "k \<le> last_day" "n \<le> last_day"
  shows "date_less (calendar k) (calendar n) \<longleftrightarrow> k < n"
proof -
  obtain y m d y' m' d' where c: "calendar k = (y, m, d)" "calendar n = (y', m', d')"
    by (metis prod_cases3)
  have "date_less (calendar k) (calendar n) \<longleftrightarrow> date_key (calendar k) < date_key (calendar n)"
    unfolding c by (rule date_less_key)
      (use calendar_bounds [OF assms(1) c(1)] calendar_bounds [OF assms(2) c(2)] in simp_all)
  also have "\<dots> \<longleftrightarrow> k < n"
    using calendar_key_mono [of k n] calendar_key_mono [of n k] by (cases k n rule: linorder_cases) auto
  finally show ?thesis .
qed

lemma calendar_inject: "k \<le> last_day \<Longrightarrow> n \<le> last_day \<Longrightarrow> calendar k = calendar n \<longleftrightarrow> k = n"
  using calendar_days [of k] calendar_days [of n] by (metis of_nat_eq_iff)

definition time_block :: "nat \<Rightarrow> nat \<Rightarrow> str" where
  "time_block seconds millis =
     show_pad 2 (seconds div 3600) @ '':'' @ show_pad 2 ((seconds div 60) mod 60)
        @ '':'' @ show_pad 2 (seconds mod 60) @ ''.'' @ show_pad 3 millis @ ''Z''"

lemma hour_minute_second:
  fixes s :: nat
  shows "s = 3600 * (s div 3600) + 60 * ((s div 60) mod 60) + s mod 60"
proof -
  have "s = 60 * (s div 60) + s mod 60" and "s div 60 = 60 * (s div 3600) + (s div 60) mod 60"
    using div_mult2_eq [of s 60 60] mult_div_mod_eq [of 60 "s div 60"] by simp_all
  then show ?thesis by linarith
qed

lemma time_block_le:
  assumes "s < 86400" "t < 86400" "m < 1000" "n < 1000"
  shows "time_block s m \<le> time_block t n \<longleftrightarrow> 1000 * s + m \<le> 1000 * t + n"
proof -
  define hs ms ss where "hs = s div 3600" and "ms = (s div 60) mod 60" and "ss = s mod 60"
  define ht mt st where "ht = t div 3600" and "mt = (t div 60) mod 60" and "st = t mod 60"
  have s: "s = 3600 * hs + 60 * ms + ss" "ms < 60" "ss < 60"
    using hour_minute_second [of s] by (simp_all add: hs_def ms_def ss_def)
  have t: "t = 3600 * ht + 60 * mt + st" "mt < 60" "st < 60"
    using hour_minute_second [of t] by (simp_all add: ht_def mt_def st_def)
  have small: "hs < 100" "ht < 100" "ms < 100" "mt < 100" "ss < 100" "st < 100"
    using assms(1,2) s t by linarith+
  have "time_block s m \<le> time_block t n \<longleftrightarrow>
      hs < ht \<or> hs = ht \<and> (ms < mt \<or> ms = mt \<and> (ss < st \<or> ss = st \<and> m \<le> n))"
    using small assms(3,4) unfolding time_block_def hs_def [symmetric] ms_def [symmetric]
      ss_def [symmetric] ht_def [symmetric] mt_def [symmetric] st_def [symmetric]
    by (simp add: block_le le_eq_less_or_eq)
  also have "\<dots> \<longleftrightarrow> 1000 * s + m \<le> 1000 * t + n"
    using s t assms(3,4)
    by (cases hs ht rule: linorder_cases; cases ms mt rule: linorder_cases;
        cases ss st rule: linorder_cases) auto
  finally show ?thesis .
qed

definition date_block :: "int \<times> int \<times> int \<Rightarrow> str \<Rightarrow> str" where
  "date_block = (\<lambda>(year, month, day) rest. show_pad 4 (nat year) @ ''-'' @ show_pad 2 (nat month)
     @ ''-'' @ show_pad 2 (nat day) @ ''T'' @ rest)"

lemma now_timestamp_blocks:
  "now_timestamp secs millis = date_block (calendar (secs div 86400)) (time_block (secs mod 86400) millis)"
  by (cases "calendar (secs div 86400)")
     (simp add: now_timestamp_def date_block_def time_block_def civil_calendar Let_def)

lemma date_block_le:
  assumes "k \<le> last_day" "n \<le> last_day"
  shows "date_block (calendar k) r \<le> date_block (calendar n) t \<longleftrightarrow> k < n \<or> k = n \<and> r \<le> t"
proof -
  obtain y m d y' m' d' where c: "calendar k = (y, m, d)" "calendar n = (y', m', d')"
    by (metis prod_cases3)
  note b = calendar_bounds [OF assms(1) c(1)] calendar_bounds [OF assms(2) c(2)]
  have "date_block (calendar k) r \<le> date_block (calendar n) t \<longleftrightarrow>
      nat y < nat y' \<or> nat y = nat y' \<and> (nat m < nat m' \<or> nat m = nat m'
        \<and> (nat d < nat d' \<or> nat d = nat d' \<and> r \<le> t))"
    unfolding c using b by (simp add: date_block_def block_le)
  also have "\<dots> \<longleftrightarrow> date_less (calendar k) (calendar n) \<or> calendar k = calendar n \<and> r \<le> t"
    unfolding c using b by (auto simp: date_less_def)
  finally show ?thesis using calendar_less_iff [OF assms] calendar_inject [OF assms] by simp
qed

lemma now_timestamp_le:
  assumes "s div 86400 \<le> last_day" "t div 86400 \<le> last_day" "m < 1000" "n < 1000"
  shows "now_timestamp s m \<le> now_timestamp t n \<longleftrightarrow> 1000 * s + m \<le> 1000 * t + n"
proof -
  define sd sr td tr where "sd = s div 86400" and "sr = s mod 86400" and "td = t div 86400" and "tr = t mod 86400"
  have st: "s = 86400 * sd + sr" "sr < 86400" "t = 86400 * td + tr" "tr < 86400"
    by (simp_all add: sd_def sr_def td_def tr_def)
  have small: "sd \<le> last_day" "td \<le> last_day" using assms(1,2) by (simp_all only: sd_def td_def)
  have "now_timestamp s m \<le> now_timestamp t n \<longleftrightarrow>
      sd < td \<or> sd = td \<and> 1000 * sr + m \<le> 1000 * tr + n"
    unfolding now_timestamp_blocks sd_def [symmetric] sr_def [symmetric] td_def [symmetric] tr_def [symmetric]
    using small assms(3,4) st(2,4) by (simp add: date_block_le time_block_le)
  also have "\<dots> \<longleftrightarrow> 1000 * s + m \<le> 1000 * t + n"
    using st assms(3,4) by (cases sd td rule: linorder_cases) auto
  finally show ?thesis .
qed

lemma list4: "length xs = 4 \<Longrightarrow> \<exists>a b c d. xs = [a, b, c, d]"
  by (simp add: numeral_eq_Suc length_Suc_conv) blast

lemma list2: "length xs = 2 \<Longrightarrow> \<exists>a b. xs = [a, b]"
  by (simp add: numeral_eq_Suc length_Suc_conv) blast

lemma pad4: "n < 10000 \<Longrightarrow> \<exists>a b c d. show_pad 4 n = [a, b, c, d] \<and> list_all is_ascii_digit [a, b, c, d]"
  using list4 [of "show_pad 4 n"] show_pad_digits [of 4 n] by (auto simp: show_pad_length)

lemma pad2: "n < 100 \<Longrightarrow> \<exists>a b. show_pad 2 n = [a, b] \<and> list_all is_ascii_digit [a, b]"
  using list2 [of "show_pad 2 n"] show_pad_digits [of 2 n] by (auto simp: show_pad_length)

text \<open>The shape of a timestamp: nineteen fixed bytes, of which fourteen are digits.\<close>

definition stamp_prefix :: "str \<Rightarrow> bool" where
  "stamp_prefix p \<longleftrightarrow> (\<exists>y1 y2 y3 y4 o1 o2 d1 d2 h1 h2 i1 i2 s1 s2.
     p = [y1, y2, y3, y4, CHR ''-'', o1, o2, CHR ''-'', d1, d2, CHR ''T'',
       h1, h2, CHR '':'', i1, i2, CHR '':'', s1, s2]
     \<and> list_all is_ascii_digit [y1, y2, y3, y4, o1, o2, d1, d2, h1, h2, i1, i2, s1, s2])"

definition stamp_of :: "nat \<Rightarrow> str" where "stamp_of s = take 19 (now_timestamp s 0)"

lemma now_timestamp_stamp:
  assumes "s div 86400 \<le> last_day"
  shows "stamp_prefix (stamp_of s)" and "now_timestamp s m = stamp_of s @ ''.'' @ show_pad 3 m @ ''Z''"
proof -
  obtain y mo d where c: "calendar (s div 86400) = (y, mo, d)" by (metis prod_cases3)
  note b = calendar_bounds [OF assms c]
  have hour: "s mod 86400 div 3600 < 100"
    using less_mult_imp_div_less [of "s mod 86400" 24 3600] by simp
  have sixty: "n mod 60 < 100" for n :: nat by (rule less_trans [OF mod_less_divisor]) simp_all
  define q where "q = show_pad 4 (nat y) @ ''-'' @ show_pad 2 (nat mo) @ ''-'' @ show_pad 2 (nat d) @ ''T''
    @ show_pad 2 (s mod 86400 div 3600) @ '':'' @ show_pad 2 ((s mod 86400 div 60) mod 60)
    @ '':'' @ show_pad 2 (s mod 86400 mod 60)"
  have now: "now_timestamp s m = q @ ''.'' @ show_pad 3 m @ ''Z''" for m
    by (simp add: now_timestamp_blocks c date_block_def time_block_def q_def)
  have "nat y < 10000" "nat mo < 100" "nat d < 100" using b by simp_all
  then have "stamp_prefix q"
    using pad4 [of "nat y"] pad2 [of "nat mo"] pad2 [of "nat d"] pad2 [OF hour]
      pad2 [OF sixty, of "s mod 86400 div 60"] pad2 [OF sixty, of "s mod 86400"]
    unfolding stamp_prefix_def q_def by clarsimp
  moreover have "length q = 19" using \<open>stamp_prefix q\<close> by (auto simp: stamp_prefix_def)
  then have "stamp_of s = q" by (simp add: stamp_of_def now)
  ultimately show "stamp_prefix (stamp_of s)" and "now_timestamp s m = stamp_of s @ ''.'' @ show_pad 3 m @ ''Z''"
    by (simp_all add: now)
qed

definition fraction_millis :: "str \<Rightarrow> nat" where
  "fraction_millis fraction = digit_value_or_0 fraction 0 * 100 + digit_value_or_0 fraction 1 * 10
     + digit_value_or_0 fraction 2"

lemma canonical_stamp:
  assumes "stamp_prefix p" and "list_all is_ascii_digit fraction" and "length fraction \<le> 43"
  shows "canonical_timestamp (p @ (if fraction = [] then [] else CHR ''.'' # fraction) @ ''Z'')
    = Some (p @ ''.'' @ show_pad 3 (fraction_millis fraction) @ ''Z'')"
proof -
  obtain y1 y2 y3 y4 o1 o2 d1 d2 h1 h2 i1 i2 s1 s2 where p:
    "p = [y1, y2, y3, y4, CHR ''-'', o1, o2, CHR ''-'', d1, d2, CHR ''T'',
       h1, h2, CHR '':'', i1, i2, CHR '':'', s1, s2]"
    "list_all is_ascii_digit [y1, y2, y3, y4, o1, o2, d1, d2, h1, h2, i1, i2, s1, s2]"
    using assms(1) by (auto simp: stamp_prefix_def)
  show ?thesis
  proof (cases fraction)
    case Nil
    then show ?thesis using p(2) unfolding p(1)
      by (simp add: canonical_timestamp_def within_def ends_with_def byte_at_def digit_at_def
          fraction_millis_def digit_value_or_0_def)
  next
    case (Cons f fs)
    then show ?thesis using p(2) assms(2,3) unfolding p(1)
      by (simp add: canonical_timestamp_def within_def ends_with_def byte_at_def digit_at_def
          fraction_millis_def Let_def)
  qed
qed
lemma fraction_millis_small: "list_all is_ascii_digit fraction \<Longrightarrow> fraction_millis fraction < 1000"
proof -
  assume "list_all is_ascii_digit fraction"
  then have "digit_value_or_0 fraction i \<le> 9" for i
    by (auto simp: digit_value_or_0_def list_all_length is_ascii_digit_def)
  from this [of 0] this [of 1] this [of 2] show ?thesis by (simp add: fraction_millis_def)
qed

text \<open>
  Comparing timestamps as strings decides expiry exactly. For an expiry instant up to the
  year 9999, written the way Java writes one (whole seconds, or any number of fraction
  digits), and a clock reading in that range, the approval counts as expired exactly when the
  instant, cut to milliseconds, is not after the clock.
\<close>

theorem approval_expiry_exact:
  assumes "expiry div 86400 \<le> last_day" and "clock div 86400 \<le> last_day" and "millis < 1000"
    and "list_all is_ascii_digit fraction" and "length fraction \<le> 43"
  shows "approval_expired (now_timestamp clock millis)
      (stamp_of expiry @ (if fraction = [] then [] else CHR ''.'' # fraction) @ ''Z'')
    \<longleftrightarrow> 1000 * expiry + fraction_millis fraction \<le> 1000 * clock + millis"
proof -
  note stamp = now_timestamp_stamp [OF assms(1)]
  have "canonical_timestamp (stamp_of expiry @ (if fraction = [] then [] else CHR ''.'' # fraction) @ ''Z'')
      = Some (now_timestamp expiry (fraction_millis fraction))"
    unfolding stamp(2) by (rule canonical_stamp [OF stamp(1) assms(4,5)])
  then show ?thesis
    using now_timestamp_le [OF assms(1,2) fraction_millis_small [OF assms(4)] assms(3)]
    by (simp add: approval_expired_def)
qed

theorem approval_expiry_exact_witness:
  "\<not> approval_expired (now_timestamp 86399 499) (stamp_of 86399 @ ''.5Z'')
   \<and> approval_expired (now_timestamp 86400 0) (stamp_of 86399 @ ''.5Z'')"
  using approval_expiry_exact [of 86399 86399 499 "''5''"] approval_expiry_exact [of 86399 86400 0 "''5''"]
  by (simp add: last_day_def is_ascii_digit_def fraction_millis_def digit_value_or_0_def)

end
