(* ===== verification/Ja_Command_Error.thy ===== *)
theory Ja_Command_Error
  imports Ja_Handshake Ja_Error_Text
begin

text \<open>
  The error envelope of the desktop commands (\<open>app_runtime/config.rs\<close>) and the two
  mappings into it: of a process error, and of an error object the sidecar answered with
  (\<open>app_runtime/bridge.rs\<close>). An envelope holds literals only.
\<close>

record command_error =
  ce_code :: str
  ce_message :: str
  ce_retryable :: bool

abbreviation cmd_err :: "str \<Rightarrow> str \<Rightarrow> bool \<Rightarrow> command_error" where
  "cmd_err c m r \<equiv> \<lparr>ce_code = c, ce_message = m, ce_retryable = r\<rparr>"

definition err_configuration :: command_error where
  "err_configuration = cmd_err ''RUNTIME_CONFIG_INVALID'' ''runtime configuration is invalid'' False"

definition err_invalid_params :: command_error where
  "err_invalid_params = cmd_err ''INVALID_PARAMS'' ''runtime request parameters are invalid'' False"

definition err_unavailable :: command_error where
  "err_unavailable = cmd_err ''RUNTIME_UNAVAILABLE'' ''runtime bridge is unavailable'' True"

definition err_profile_unavailable :: command_error where
  "err_profile_unavailable =
     cmd_err ''PROFILE_UNAVAILABLE'' ''active model profile is unavailable'' False"

definition err_queue_full :: command_error where
  "err_queue_full = cmd_err ''RUNTIME_QUEUE_FULL'' ''runtime bridge queue is full'' True"

definition err_deadline :: command_error where
  "err_deadline = cmd_err ''RUNTIME_COMMAND_DEADLINE'' ''runtime request deadline exceeded'' True"

definition err_event_delivery :: command_error where
  "err_event_delivery =
     cmd_err ''RUNTIME_EVENT_DELIVERY_FAILED'' ''runtime event delivery failed'' True"

definition err_shutdown_timeout :: command_error where
  "err_shutdown_timeout =
     cmd_err ''RUNTIME_SHUTDOWN_TIMEOUT'' ''runtime shutdown timed out'' True"

definition err_recovery_required :: command_error where
  "err_recovery_required =
     cmd_err ''RECOVERY_REQUIRED'' ''manual runtime recovery is required'' False"

definition err_recovery_stale :: command_error where
  "err_recovery_stale = cmd_err ''RECOVERY_STALE'' ''runtime recovery confirmation is stale'' False"

definition err_not_ready :: command_error where
  "err_not_ready = cmd_err ''RUNTIME_NOT_READY'' ''runtime is not ready'' True"

definition err_sensitive_event :: command_error where
  "err_sensitive_event =
     cmd_err ''SENSITIVE_EVENT_BLOCKED'' ''runtime event contains protected data'' False"

fun from_process :: "agent_error \<Rightarrow> command_error" where
  "from_process InvalidConfig = err_configuration"
| "from_process Incompatible =
     cmd_err ''PROTOCOL_INCOMPATIBLE'' ''sidecar protocol is incompatible'' False"
| "from_process Faulted = cmd_err ''RUNTIME_FAULTED'' ''runtime is faulted'' False"
| "from_process (Backoff _) = cmd_err ''RUNTIME_BACKOFF'' ''runtime restart is cooling down'' True"
| "from_process ShuttingDown = cmd_err ''SHUTTING_DOWN'' ''runtime is shutting down'' True"
| "from_process NotReady = err_not_ready"
| "from_process InvalidState = err_not_ready"
| "from_process DeadlineExceeded = cmd_err ''RUNTIME_TIMEOUT'' ''runtime operation timed out'' True"
| "from_process ShutdownTimeout = cmd_err ''RUNTIME_TIMEOUT'' ''runtime operation timed out'' True"
| "from_process ProcessExited =
     cmd_err ''SIDECAR_CRASHED'' ''sidecar process is unavailable'' True"
| "from_process ProcessTree = cmd_err ''SIDECAR_CRASHED'' ''sidecar process is unavailable'' True"
| "from_process Spawn = cmd_err ''SIDECAR_CRASHED'' ''sidecar process is unavailable'' True"
| "from_process SessionClosed = cmd_err ''SIDECAR_CRASHED'' ''sidecar process is unavailable'' True"
| "from_process _ = cmd_err ''RUNTIME_PROTOCOL_ERROR'' ''runtime protocol operation failed'' False"

definition command_error_from_rpc :: "json \<Rightarrow> command_error" where
  "command_error_from_rpc v =
     (case Option.bind (Option.bind (json_get v ''data'') (\<lambda>d. json_get d ''jaCode'')) as_str of
        None \<Rightarrow> err_unavailable
      | Some c \<Rightarrow>
          if c = ''WORKSPACE_NOT_FOUND'' then cmd_err c ''workspace was not found'' False
          else if c = ''THREAD_NOT_FOUND'' then cmd_err c ''thread was not found'' False
          else if c = ''THREAD_READ_ONLY'' then cmd_err c ''thread is read-only'' False
          else if c = ''CONFLICT'' then cmd_err c ''runtime state conflict'' True
          else if c = ''THREAD_BUSY'' then cmd_err c ''thread is busy'' True
          else if c = ''REQUEST_DEADLINE_EXCEEDED'' then err_deadline
          else if c = ''INVALID_PARAMS'' then err_invalid_params
          else err_unavailable)"

subsection \<open>Identifiers\<close>

definition text_id_byte :: "char \<Rightarrow> bool" where
  "text_id_byte c \<longleftrightarrow> is_ascii_alphanumeric c \<or> c \<in> {CHR ''_'', CHR ''-'', CHR ''.'', CHR '':''}"

definition valid_text_id :: "str \<Rightarrow> nat \<Rightarrow> bool" where
  "valid_text_id v m \<longleftrightarrow> v \<noteq> [] \<and> length v \<le> m \<and> list_all text_id_byte v"

definition protocol_id_byte :: "char \<Rightarrow> bool" where
  "protocol_id_byte c \<longleftrightarrow> is_ascii_alphanumeric c \<or> c \<in> {CHR ''_'', CHR ''-'', CHR ''.''}"

definition valid_protocol_id :: "str \<Rightarrow> str \<Rightarrow> nat \<Rightarrow> bool" where
  "valid_protocol_id v pre m =
     (case strip_prefix v pre of
        None \<Rightarrow> False
      | Some suf \<Rightarrow> length v \<le> m \<and> suf \<noteq> [] \<and> is_ascii_alphanumeric (hd suf)
          \<and> list_all protocol_id_byte suf)"

definition valid_frozen_turn_id :: "str \<Rightarrow> bool" where
  "valid_frozen_turn_id v =
     (case strip_prefix v ''turn_'' of
        None \<Rightarrow> False
      | Some suf \<Rightarrow> length v \<le> 101 \<and> suf \<noteq> [] \<and> length suf \<le> 96
          \<and> is_ascii_alphanumeric (hd suf) \<and> list_all protocol_id_byte suf)"

lemma frozen_turn_id_text: "valid_frozen_turn_id v \<Longrightarrow> valid_text_id v 101"
  by (auto simp: valid_frozen_turn_id_def valid_text_id_def strip_prefix_Some list_all_iff
      protocol_id_byte_def text_id_byte_def byte_defs split: option.splits)

subsection \<open>The sidecar's retry advice\<close>

definition mapped_codes :: "str set" where
  "mapped_codes = {''WORKSPACE_NOT_FOUND'', ''THREAD_NOT_FOUND'', ''THREAD_READ_ONLY'', ''CONFLICT'',
     ''THREAD_BUSY'', ''REQUEST_DEADLINE_EXCEEDED'', ''INVALID_PARAMS''}"

lemma catalog_retry:
  assumes "(code, j, r, m) \<in> set catalog"
  shows "j \<in> mapped_codes \<Longrightarrow>
    r = (j \<in> {''CONFLICT'', ''THREAD_BUSY'', ''REQUEST_DEADLINE_EXCEEDED''})"
proof -
  have "list_all (\<lambda>(code, j, r, m). j \<in> mapped_codes \<longrightarrow>
      r = (j \<in> {''CONFLICT'', ''THREAD_BUSY'', ''REQUEST_DEADLINE_EXCEEDED''})) catalog"
    by (simp add: catalog_def mapped_codes_def)
  then show "j \<in> mapped_codes \<Longrightarrow>
      r = (j \<in> {''CONFLICT'', ''THREAD_BUSY'', ''REQUEST_DEADLINE_EXCEEDED''})"
    using assms by (auto simp: list_all_iff)
qed

lemma command_error_retry:
  assumes "Option.bind (Option.bind (json_get v ''data'') (\<lambda>d. json_get d ''jaCode'')) as_str = Some j"
  shows "j \<in> mapped_codes \<Longrightarrow> ce_retryable (command_error_from_rpc v)
      = (j \<in> {''CONFLICT'', ''THREAD_BUSY'', ''REQUEST_DEADLINE_EXCEEDED''})"
    and "j \<notin> mapped_codes \<Longrightarrow> command_error_from_rpc v = err_unavailable"
  using assms
  by (auto simp: command_error_from_rpc_def mapped_codes_def err_deadline_def err_invalid_params_def)

lemma error_object_ja:
  "json_get (error_object e) ''data'' = Some (err_data e)"
  by (simp add: error_object_def)

text \<open>
  A catalogued error of the sidecar reaches the user interface with the catalog's own
  retry flag when its code is one of the seven the bridge tells apart, and as the generic,
  retryable unavailability otherwise; so the desktop never says that retrying is pointless
  where the sidecar said it may help.
\<close>

theorem sidecar_retry_advice:
  assumes "validate_error e = Inr ()" and "err_data e = JObj d"
    and "get_str d ''jaCode'' = Some j" and "get_bool d ''retryable'' = Some r"
  shows "(j \<in> mapped_codes \<longrightarrow> ce_retryable (command_error_from_rpc (error_object e)) = r)
    \<and> (j \<notin> mapped_codes \<longrightarrow> command_error_from_rpc (error_object e) = err_unavailable)
    \<and> (r \<longrightarrow> ce_retryable (command_error_from_rpc (error_object e)))"
proof -
  obtain j' m where "catalog_entry (err_code e) j r = Some (j', m)"
    using assms by (auto simp: validate_error_def result_iff)
  then have retry: "j \<in> mapped_codes \<Longrightarrow>
      r = (j \<in> {''CONFLICT'', ''THREAD_BUSY'', ''REQUEST_DEADLINE_EXCEEDED''})"
    using catalog_entry_Some catalog_retry by blast
  have ja: "Option.bind (Option.bind (json_get (error_object e) ''data'') (\<lambda>d. json_get d ''jaCode'')) as_str
      = Some j"
    using assms(2,3) by (simp add: error_object_ja get_str_def)
  show ?thesis
    using command_error_retry [OF ja] retry
    by (cases "j \<in> mapped_codes") (simp_all add: err_unavailable_def)
qed

theorem sidecar_retry_advice_witness:
  "ce_retryable (command_error_from_rpc (error_object
     \<lparr>err_code = -32030, err_message = ''thread busy'', err_data = error_data ''THREAD_BUSY'' True\<rparr>))"
proof -
  let ?e = "\<lparr>err_code = -32030, err_message = ''thread busy'', err_data = error_data ''THREAD_BUSY'' True\<rparr>"
  have "valid_error_message ''thread busy''" by (simp add: scan_defs)
  moreover have "valid_ja_code ''THREAD_BUSY''" by (simp add: valid_ja_code_def byte_defs)
  moreover have "catalog_entry (-32030) ''THREAD_BUSY'' True \<noteq> None"
    by (simp add: catalog_entry_def catalog_def)
  ultimately have ok: "validate_error ?e = Inr ()"
    by (auto simp: validate_error_def error_code_range_def error_data_def obj_of_def get_str_def
        get_bool_def filter_opt_def)
  show ?thesis
    using sidecar_retry_advice [OF ok, of "obj_of [(''jaCode'', JStr ''THREAD_BUSY''), (''retryable'', JBool True)]"
        "''THREAD_BUSY''" True]
    by (simp add: error_data_def obj_of_def get_str_def get_bool_def)
qed

end
