(* ===== verification/Ja_Lifecycle.thy ===== *)
theory Ja_Lifecycle
  imports Ja_Error
begin

text \<open>
  The sidecar's lifecycle state machine (\<open>agent_process/lifecycle.rs\<close>). The clock is read by
  the operations, so every reading is an argument (\<open>now\<close>, milliseconds, a \<open>u64\<close>);
  \<open>Duration\<close>s are nanoseconds. \<open>generation\<close> is a \<open>u64\<close> that wraps past 0.
\<close>

subsection \<open>State and operations\<close>

datatype lifecycle_state =
  LStarting | LReady | LBusy | LStopping | LExited | LBackoff | LIncompatible | LFaulted

record restart_policy =
  max_attempts :: nat
  base_delay :: nanos
  max_delay :: nanos

record lifecycle =
  lc_state :: lifecycle_state
  generation :: nat
  restart_attempt :: nat
  next_retry :: "millis option"
  ready_since :: "millis option"
  policy :: restart_policy

definition nanos_per_milli :: nat where "nanos_per_milli = 1000000"
definition nanos_per_sec :: nat where "nanos_per_sec = 1000000000"
definition u32_max :: nat where "u32_max = 2 ^ 32 - 1"
definition stable_window_millis :: nat where "stable_window_millis = 30000"

text \<open>The largest \<open>Duration\<close>: \<open>u64::MAX\<close> seconds and 999999999 nanoseconds.\<close>

definition duration_max :: nanos where "duration_max = 2 ^ 64 * nanos_per_sec - 1"

definition default_policy :: restart_policy where
  "default_policy = \<lparr>max_attempts = 3, base_delay = 100 * nanos_per_milli,
     max_delay = 5 * nanos_per_sec\<rparr>"

definition policy_validate :: "restart_policy \<Rightarrow> agent_error + unit" where
  "policy_validate p =
     (if max_attempts p = 0 \<or> base_delay p = 0 \<or> max_delay p < base_delay p
        \<or> 3600 * nanos_per_sec < max_delay p
      then Inl InvalidConfig else Inr ())"

definition lifecycle_new :: "restart_policy \<Rightarrow> agent_error + lifecycle" where
  "lifecycle_new p = and_then (policy_validate p) (\<lambda>_. Inr
     \<lparr>lc_state = LExited, generation = 0, restart_attempt = 0, next_retry = None,
      ready_since = None, policy = p\<rparr>)"

definition backoff_due :: "millis \<Rightarrow> lifecycle \<Rightarrow> bool" where
  "backoff_due now m = (case next_retry m of None \<Rightarrow> True | Some deadline \<Rightarrow> deadline \<le> now)"

definition retry_after :: "millis \<Rightarrow> lifecycle \<Rightarrow> nanos" where
  "retry_after now m = (case next_retry m of None \<Rightarrow> 0
     | Some deadline \<Rightarrow> (deadline - now) * nanos_per_milli)"

definition next_generation :: "nat \<Rightarrow> nat" where
  "next_generation g = max 1 ((g + 1) mod 2 ^ 64)"

definition begin_start :: "millis \<Rightarrow> millis \<Rightarrow> lifecycle \<Rightarrow> agent_error + nat \<times> lifecycle" where
  "begin_start now now' m =
     and_then
       (case lc_state m of
          LExited \<Rightarrow> Inr ()
        | LBackoff \<Rightarrow> if backoff_due now m then Inr () else Inl (Backoff (retry_after now' m))
        | LIncompatible \<Rightarrow> Inl Incompatible
        | LFaulted \<Rightarrow> Inl Faulted
        | _ \<Rightarrow> Inl InvalidState)
       (\<lambda>_. let g = next_generation (generation m)
             in Inr (g, m\<lparr>generation := g, lc_state := LStarting, next_retry := None,
                         ready_since := None\<rparr>))"

definition mark_ready :: "nat \<Rightarrow> millis \<Rightarrow> lifecycle \<Rightarrow> agent_error + lifecycle" where
  "mark_ready g now m =
     (if g \<noteq> generation m \<or> lc_state m \<noteq> LStarting then Inl InvalidState
      else Inr (m\<lparr>lc_state := LReady, ready_since := Some now\<rparr>))"

definition mark_busy :: "nat \<Rightarrow> lifecycle \<Rightarrow> agent_error + lifecycle" where
  "mark_busy g m =
     (if g \<noteq> generation m \<or> lc_state m \<noteq> LReady then Inl InvalidState
      else Inr (m\<lparr>lc_state := LBusy\<rparr>))"

definition mark_ready_again :: "nat \<Rightarrow> lifecycle \<Rightarrow> agent_error + lifecycle" where
  "mark_ready_again g m =
     (if g \<noteq> generation m \<or> lc_state m \<noteq> LBusy then Inl InvalidState
      else Inr (m\<lparr>lc_state := LReady\<rparr>))"

definition begin_stop :: "nat \<Rightarrow> lifecycle \<Rightarrow> agent_error + lifecycle" where
  "begin_stop g m =
     (if g \<noteq> generation m \<or> lc_state m \<notin> {LStarting, LReady, LBusy} then Inl InvalidState
      else Inr (m\<lparr>lc_state := LStopping\<rparr>))"

definition mark_exited :: "nat \<Rightarrow> lifecycle \<Rightarrow> bool \<times> lifecycle" where
  "mark_exited g m =
     (if g \<noteq> generation m \<or> lc_state m \<in> {LFaulted, LIncompatible} then (False, m)
      else (True, m\<lparr>lc_state := LExited\<rparr>))"

definition mark_incompatible :: "nat \<Rightarrow> lifecycle \<Rightarrow> bool \<times> lifecycle" where
  "mark_incompatible g m =
     (if g \<noteq> generation m then (False, m)
      else (True, m\<lparr>lc_state := LIncompatible, next_retry := None, ready_since := None\<rparr>))"

definition mark_faulted :: "nat \<Rightarrow> lifecycle \<Rightarrow> bool \<times> lifecycle" where
  "mark_faulted g m =
     (if g \<noteq> generation m then (False, m)
      else (True, m\<lparr>lc_state := LFaulted, next_retry := None, ready_since := None\<rparr>))"

text \<open>The bounded exponential delay before restart attempt \<open>k\<close>.\<close>

definition restart_delay :: "restart_policy \<Rightarrow> nat \<Rightarrow> nanos" where
  "restart_delay p k =
     (let shift = min (k - 1) 31; multiplier = 2 ^ shift
      in min (min duration_max (base_delay p * multiplier)) (max_delay p))"

definition attempt_after_crash :: "millis \<Rightarrow> lifecycle \<Rightarrow> nat" where
  "attempt_after_crash now m =
     (let attempt = (case ready_since m of
            Some since \<Rightarrow> if stable_window_millis \<le> now - since then 0 else restart_attempt m
          | None \<Rightarrow> restart_attempt m)
      in min u32_max (attempt + 1))"

definition retry_deadline :: "millis \<Rightarrow> nanos \<Rightarrow> millis" where
  "retry_deadline now delay = min u64_max (now + min (delay div nanos_per_milli) u64_max)"

definition record_crash ::
    "nat \<Rightarrow> millis \<Rightarrow> millis \<Rightarrow> lifecycle \<Rightarrow> lifecycle_state \<times> lifecycle" where
  "record_crash g now now' m =
     (if g \<noteq> generation m \<or> lc_state m \<in> {LExited, LFaulted, LIncompatible} then (lc_state m, m)
      else if lc_state m \<in> {LStopping, LBackoff} then (lc_state m, m)
      else let attempt = attempt_after_crash now m
        in if max_attempts (policy m) < attempt
           then (LFaulted, m\<lparr>restart_attempt := attempt, lc_state := LFaulted, next_retry := None\<rparr>)
           else (LBackoff, m\<lparr>restart_attempt := attempt,
             next_retry := Some (retry_deadline now' (restart_delay (policy m) attempt)),
             lc_state := LBackoff\<rparr>))"

definition is_current :: "nat \<Rightarrow> lifecycle \<Rightarrow> bool" where
  "is_current g m \<longleftrightarrow> g = generation m"

subsection \<open>Running the machine\<close>

datatype lifecycle_op =
    BeginStart millis millis
  | MarkReady nat millis
  | MarkBusy nat
  | MarkReadyAgain nat
  | BeginStop nat
  | MarkExited nat
  | MarkIncompatible nat
  | MarkFaulted nat
  | RecordCrash nat millis millis

definition keep :: "lifecycle \<Rightarrow> agent_error + lifecycle \<Rightarrow> lifecycle" where
  "keep m r = (case r of Inl _ \<Rightarrow> m | Inr m' \<Rightarrow> m')"

fun lifecycle_step :: "lifecycle \<Rightarrow> lifecycle_op \<Rightarrow> lifecycle" where
  "lifecycle_step m (BeginStart now now') =
     (case begin_start now now' m of Inl _ \<Rightarrow> m | Inr (_, m') \<Rightarrow> m')"
| "lifecycle_step m (MarkReady g now) = keep m (mark_ready g now m)"
| "lifecycle_step m (MarkBusy g) = keep m (mark_busy g m)"
| "lifecycle_step m (MarkReadyAgain g) = keep m (mark_ready_again g m)"
| "lifecycle_step m (BeginStop g) = keep m (begin_stop g m)"
| "lifecycle_step m (MarkExited g) = snd (mark_exited g m)"
| "lifecycle_step m (MarkIncompatible g) = snd (mark_incompatible g m)"
| "lifecycle_step m (MarkFaulted g) = snd (mark_faulted g m)"
| "lifecycle_step m (RecordCrash g now now') = snd (record_crash g now now' m)"

fun reports :: "lifecycle_op \<Rightarrow> nat option" where
  "reports (BeginStart _ _) = None"
| "reports (MarkReady g _) = Some g"
| "reports (MarkBusy g) = Some g"
| "reports (MarkReadyAgain g) = Some g"
| "reports (BeginStop g) = Some g"
| "reports (MarkExited g) = Some g"
| "reports (MarkIncompatible g) = Some g"
| "reports (MarkFaulted g) = Some g"
| "reports (RecordCrash g _ _) = Some g"

lemmas lifecycle_defs = begin_start_def mark_ready_def mark_busy_def mark_ready_again_def
  begin_stop_def mark_exited_def mark_incompatible_def mark_faulted_def record_crash_def keep_def

text \<open>The transition diagram, without the data.\<close>

inductive edge :: "lifecycle_state \<Rightarrow> lifecycle_state \<Rightarrow> bool" where
  start: "edge LExited LStarting"
| restart: "edge LBackoff LStarting"
| ready: "edge LStarting LReady"
| busy: "edge LReady LBusy"
| idle: "edge LBusy LReady"
| stop: "s \<in> {LStarting, LReady, LBusy} \<Longrightarrow> edge s LStopping"
| crash: "s \<in> {LStarting, LReady, LBusy} \<Longrightarrow> edge s LBackoff"
| exit: "s \<notin> {LFaulted, LIncompatible} \<Longrightarrow> edge s LExited"
| incompatible: "edge s LIncompatible"
| fault: "edge s LFaulted"

code_pred edge .

inductive_cases edge_ready: "edge s LReady"
inductive_cases edge_starting: "edge s LStarting"
inductive_cases edge_from_faulted: "edge LFaulted s"

definition lifecycle_ok :: "lifecycle \<Rightarrow> bool" where
  "lifecycle_ok m \<longleftrightarrow>
     policy_validate (policy m) = Inr ()
     \<and> (lc_state m \<noteq> LFaulted \<and> lc_state m \<noteq> LIncompatible \<longrightarrow>
          restart_attempt m \<le> max_attempts (policy m))
     \<and> (lc_state m = LBackoff \<longrightarrow> next_retry m \<noteq> None)
     \<and> (lc_state m \<in> {LReady, LBusy} \<longrightarrow> ready_since m \<noteq> None)"

lemma and_then_start:
  "begin_start now now' m = Inr r \<longleftrightarrow>
     (lc_state m = LExited \<or> lc_state m = LBackoff \<and> backoff_due now m)
     \<and> r = (next_generation (generation m), m\<lparr>generation := next_generation (generation m),
         lc_state := LStarting, next_retry := None, ready_since := None\<rparr>)"
  by (cases "lc_state m") (auto simp: begin_start_def Let_def split: if_splits)

lemma step_start:
  "lifecycle_step m (BeginStart now now') =
     (if lc_state m = LExited \<or> lc_state m = LBackoff \<and> backoff_due now m
      then m\<lparr>generation := next_generation (generation m), lc_state := LStarting,
             next_retry := None, ready_since := None\<rparr>
      else m)"
  by (cases "lc_state m") (simp_all add: begin_start_def Let_def)

lemma step_edge:
  "lifecycle_step m x = m \<or> edge (lc_state m) (lc_state (lifecycle_step m x))"
proof (cases x)
  case (BeginStart now now')
  then show ?thesis by (auto simp: step_start simp del: lifecycle_step.simps intro: edge.intros)
next
  case (RecordCrash g now now')
  then show ?thesis
    by (cases "lc_state m") (auto simp: record_crash_def Let_def intro: edge.intros)
qed (auto simp: lifecycle_defs intro: edge.intros)

lemma step_policy [simp]: "policy (lifecycle_step m x) = policy m"
proof (cases x)
  case (BeginStart now now')
  then show ?thesis by (simp add: step_start del: lifecycle_step.simps)
qed (auto simp: lifecycle_defs Let_def)

lemma lifecycle_step_ok: "lifecycle_ok m \<Longrightarrow> lifecycle_ok (lifecycle_step m x)"
proof (cases x)
  case (BeginStart now now')
  then show "lifecycle_ok m \<Longrightarrow> ?thesis"
    by (auto simp: step_start lifecycle_ok_def simp del: lifecycle_step.simps)
qed (auto simp: lifecycle_ok_def lifecycle_defs Let_def)

lemma lifecycle_new_ok: "lifecycle_new p = Inr m \<Longrightarrow> lifecycle_ok m"
  by (auto simp: lifecycle_new_def lifecycle_ok_def result_iff)

interpretation lifecycle: stepping lifecycle_step lifecycle_ok
  by unfold_locales (rule lifecycle_step_ok)

definition gave_up :: "lifecycle \<Rightarrow> bool" where
  "gave_up m \<longleftrightarrow> lc_state m \<in> {LFaulted, LIncompatible}"

lemma gave_up_step: "gave_up m \<Longrightarrow> gave_up (lifecycle_step m x)"
proof (cases x)
  case (BeginStart now now')
  then show "gave_up m \<Longrightarrow> ?thesis"
    by (auto simp: step_start gave_up_def simp del: lifecycle_step.simps)
qed (auto simp: gave_up_def lifecycle_defs)

interpretation lifecycle_verdict: growing lifecycle_step lifecycle_ok gave_up "\<lambda>a b. a \<longrightarrow> b"
  by unfold_locales (auto intro: gave_up_step)

lemma next_generation_pos: "0 < next_generation g"
  by (simp add: next_generation_def)

lemma next_generation_fresh: "next_generation g \<noteq> g"
proof
  assume eq: "next_generation g = g"
  show False
  proof (cases "(g + 1) mod 2 ^ 64 = 0")
    case True
    with eq have "g = 1" by (simp add: next_generation_def)
    with True show False by simp
  next
    case False
    with eq have g: "(g + 1) mod 2 ^ 64 = g" by (simp add: next_generation_def)
    then have "g < 2 ^ 64" using mod_less_divisor [of "2 ^ 64" "g + 1"] by simp
    then consider "g + 1 < 2 ^ 64" | "g + 1 = 2 ^ 64" by linarith
    then show False using g False by cases simp_all
  qed
qed

subsection \<open>Properties\<close>

text \<open>
  A fact reported by another generation changes nothing, and a successful start changes
  the generation: what a replaced sidecar still reports (exits, crashes, ready) never moves the
  state of its successor.
\<close>

theorem stale_generation_ignored:
  assumes "begin_start now now' m = Inr (g, m')" and "reports x = Some (generation m)"
  shows "lifecycle_step m' x = m' \<and> g = generation m' \<and> g \<noteq> generation m"
proof -
  have m': "generation m' = next_generation (generation m)" "g = generation m'"
    using assms(1) by (auto simp: and_then_start)
  have "generation m \<noteq> generation m'"
    using next_generation_fresh [of "generation m"] m'(1) by simp
  then show ?thesis
    using assms(2) m'(2) by (cases x) (auto simp: lifecycle_defs)
qed

definition fresh_machine :: lifecycle where
  "fresh_machine = \<lparr>lc_state = LExited, generation = 0, restart_attempt = 0, next_retry = None,
     ready_since = None, policy = default_policy\<rparr>"

lemma fresh_machine_new: "lifecycle_new default_policy = Inr fresh_machine"
  by (simp add: lifecycle_new_def fresh_machine_def policy_validate_def default_policy_def
      nanos_per_milli_def nanos_per_sec_def)

theorem stale_generation_ignored_witness:
  "lifecycle_step (fresh_machine\<lparr>generation := 1, lc_state := LStarting\<rparr>) (MarkReady 0 3)
     = fresh_machine\<lparr>generation := 1, lc_state := LStarting\<rparr>"
proof -
  have "begin_start 5 5 fresh_machine = Inr (1, fresh_machine\<lparr>generation := 1, lc_state := LStarting\<rparr>)"
    by (simp add: and_then_start fresh_machine_def next_generation_def)
  moreover have "reports (MarkReady 0 3) = Some (generation fresh_machine)"
    by (simp add: fresh_machine_def)
  ultimately show ?thesis using stale_generation_ignored by blast
qed

text \<open>
  Every change of state follows the diagram \<open>edge\<close>, and a machine that has faulted or is
  incompatible stays so under any further operations: it is never started again.
\<close>

theorem lifecycle_diagram:
  "(lifecycle_step m x = m \<or> edge (lc_state m) (lc_state (lifecycle_step m x)))
   \<and> (gave_up m \<longrightarrow> gave_up (foldl lifecycle_step m xs)
        \<and> generation (foldl lifecycle_step m xs) = generation m)"
proof -
  have "gave_up m \<Longrightarrow> generation (lifecycle_step m x) = generation m" for m x
    by (cases x) (auto simp: gave_up_def lifecycle_defs Let_def)
  then have "gave_up m \<Longrightarrow> gave_up (foldl lifecycle_step m xs)
      \<and> generation (foldl lifecycle_step m xs) = generation m"
    by (induction xs arbitrary: m) (auto simp: gave_up_step)
  then show ?thesis using step_edge by blast
qed

theorem lifecycle_diagram_witness:
  "gave_up (foldl lifecycle_step (fresh_machine\<lparr>lc_state := LFaulted\<rparr>) [BeginStart 9 9, MarkReady 0 9])"
  using lifecycle_diagram [of "fresh_machine\<lparr>lc_state := LFaulted\<rparr>" "MarkBusy 0"
    "[BeginStart 9 9, MarkReady 0 9]"]
  by (simp add: gave_up_def)

text \<open>The delays double from the base delay and stop at the maximum.\<close>

lemma restart_delay_first: "policy_validate p = Inr () \<Longrightarrow> restart_delay p 1 = base_delay p"
  by (auto simp: restart_delay_def policy_validate_def duration_max_def nanos_per_sec_def
      split: if_splits)

lemma restart_delay_le: "restart_delay p k \<le> max_delay p"
  by (simp add: restart_delay_def Let_def)

lemma restart_delay_mono: "j \<le> k \<Longrightarrow> restart_delay p j \<le> restart_delay p k"
proof -
  assume "j \<le> k"
  then have "(2 :: nat) ^ min (j - 1) 31 \<le> 2 ^ min (k - 1) 31"
    by (intro power_increasing) auto
  then have "base_delay p * 2 ^ min (j - 1) 31 \<le> base_delay p * 2 ^ min (k - 1) 31"
    by (rule mult_le_mono2)
  then show ?thesis
    unfolding restart_delay_def Let_def by (intro min.mono order_refl)
qed

text \<open>
  A crash that leads to a backoff schedules the retry no later than the policy's maximum
  delay (at most one hour) after the clock reading, and a start before that moment is refused
  with the remaining time.
\<close>

theorem crash_backoff_bounded:
  assumes "lifecycle_ok m" and "record_crash g now now' m = (LBackoff, m')" and "m' \<noteq> m"
  shows "\<exists>deadline. next_retry m' = Some deadline
    \<and> deadline \<le> now' + max_delay (policy m) div nanos_per_milli
    \<and> deadline \<le> now' + 3600000
    \<and> (\<forall>t < deadline. \<forall>t'. begin_start t t' m' = Inl (Backoff (retry_after t' m')))
    \<and> (\<forall>t \<ge> deadline. \<forall>t'. is_ok (begin_start t t' m'))"
proof -
  from assms(2,3) have st: "lc_state m' = LBackoff" and
    retry: "next_retry m' = Some (retry_deadline now' (restart_delay (policy m) (attempt_after_crash now m)))"
    by (auto simp: record_crash_def Let_def split: if_splits)
  let ?delay = "restart_delay (policy m) (attempt_after_crash now m)"
  have hour: "max_delay (policy m) \<le> 3600 * nanos_per_sec"
    using assms(1) by (simp add: lifecycle_ok_def policy_validate_def split: if_splits)
  have le: "?delay div nanos_per_milli \<le> max_delay (policy m) div nanos_per_milli"
    by (rule div_le_mono [OF restart_delay_le])
  moreover have "max_delay (policy m) div nanos_per_milli \<le> 3600 * nanos_per_sec div nanos_per_milli"
    using hour by (rule div_le_mono)
  moreover have "3600 * nanos_per_sec div nanos_per_milli = 3600000"
    by (simp add: nanos_per_sec_def nanos_per_milli_def)
  ultimately have "retry_deadline now' ?delay \<le> now' + max_delay (policy m) div nanos_per_milli"
    and "retry_deadline now' ?delay \<le> now' + 3600000"
    by (simp_all add: retry_deadline_def)
  then show ?thesis
    by (intro exI [of _ "retry_deadline now' ?delay"])
       (auto simp: begin_start_def st backoff_due_def retry Let_def)
qed

theorem crash_backoff_bounded_witness:
  "\<exists>m'. record_crash 0 7 7 (fresh_machine\<lparr>lc_state := LStarting\<rparr>) = (LBackoff, m')
    \<and> (\<exists>deadline. next_retry m' = Some deadline \<and> deadline \<le> 7 + 3600000)"
proof -
  let ?m = "fresh_machine\<lparr>lc_state := LStarting\<rparr>"
  have ok: "lifecycle_ok ?m"
    using lifecycle_new_ok [OF fresh_machine_new] by (simp add: lifecycle_ok_def fresh_machine_def)
  obtain m' where m': "record_crash 0 7 7 ?m = (LBackoff, m')" and "m' \<noteq> ?m"
    by (simp add: record_crash_def fresh_machine_def attempt_after_crash_def Let_def
        default_policy_def u32_max_def)
  with crash_backoff_bounded [OF ok m'] show ?thesis by blast
qed

subsection \<open>Crash loops end\<close>

fun successful_starts :: "lifecycle \<Rightarrow> lifecycle_op list \<Rightarrow> nat" where
  "successful_starts m [] = 0"
| "successful_starts m (x # xs) =
     (if generation (lifecycle_step m x) \<noteq> generation m then 1 else 0)
     + successful_starts (lifecycle_step m x) xs"

fun crash_or_start :: "lifecycle_op \<Rightarrow> bool" where
  "crash_or_start (BeginStart _ _) = True"
| "crash_or_start (RecordCrash _ _ _) = True"
| "crash_or_start _ = False"

definition starts_left :: "lifecycle \<Rightarrow> nat" where
  "starts_left m =
     (if lc_state m \<in> {LExited, LBackoff} then Suc (max_attempts (policy m) - restart_attempt m)
      else if lc_state m = LStarting then max_attempts (policy m) - restart_attempt m
      else 0)"

definition never_ready :: "lifecycle \<Rightarrow> bool" where
  "never_ready m \<longleftrightarrow> lifecycle_ok m \<and> gave_up m
     \<or> lifecycle_ok m \<and> lc_state m \<in> {LExited, LBackoff}
     \<or> lifecycle_ok m \<and> lc_state m = LStarting \<and> ready_since m = None"

lemma never_ready_step:
  assumes "never_ready m" and "crash_or_start x" and "max_attempts (policy m) < u32_max"
  shows "never_ready (lifecycle_step m x)
    \<and> (if generation (lifecycle_step m x) \<noteq> generation m then 1 else 0)
       + starts_left (lifecycle_step m x) \<le> starts_left m"
proof -
  have ok: "lifecycle_ok (lifecycle_step m x)"
    using assms(1) lifecycle_step_ok by (auto simp: never_ready_def)
  have bound: "lc_state m \<notin> {LFaulted, LIncompatible} \<Longrightarrow>
      restart_attempt m \<le> max_attempts (policy m)"
    using assms(1) by (auto simp: never_ready_def lifecycle_ok_def)
  show ?thesis
  proof (cases x)
    case (BeginStart now now')
    have gen: "next_generation (generation m) \<noteq> generation m" by (rule next_generation_fresh)
    show ?thesis
      using assms(1) ok gen bound unfolding BeginStart step_start
      by (auto simp: never_ready_def starts_left_def gave_up_def)
  next
    case (RecordCrash g now now')
    then show ?thesis
      using assms(1,3) ok bound
      by (cases "lc_state m")
         (auto simp: never_ready_def starts_left_def gave_up_def record_crash_def Let_def
           attempt_after_crash_def)
  qed (use assms(2) in auto)
qed

text \<open>
  C37. Crash loops end: a sidecar that never becomes ready is started at most
  \<open>max_attempts + 1\<close> times, whatever the interleaving of start requests, crash reports and
  clock readings; then the machine refuses every start.
\<close>

theorem crash_loop_bounded:
  assumes "lifecycle_new p = Inr m" and "max_attempts p < u32_max"
    and "list_all crash_or_start xs"
  shows "successful_starts m xs \<le> max_attempts p + 1"
proof -
  have run: "never_ready m \<Longrightarrow> policy m = p \<Longrightarrow> list_all crash_or_start xs \<Longrightarrow>
      successful_starts m xs \<le> starts_left m" for m
  proof (induction xs arbitrary: m)
    case (Cons x xs)
    have step: "never_ready (lifecycle_step m x)
      \<and> (if generation (lifecycle_step m x) \<noteq> generation m then 1 else 0)
         + starts_left (lifecycle_step m x) \<le> starts_left m"
      using never_ready_step [of m x] Cons.prems assms(2) by simp
    then have "successful_starts (lifecycle_step m x) xs \<le> starts_left (lifecycle_step m x)"
      using Cons.IH [of "lifecycle_step m x"] Cons.prems by simp
    with step show ?case by simp
  qed simp
  have "never_ready m" and "policy m = p" and "starts_left m \<le> max_attempts p + 1"
    using assms(1) lifecycle_new_ok [OF assms(1)]
    by (auto simp: lifecycle_new_def never_ready_def starts_left_def result_iff)
  with run [OF _ _ assms(3)] show ?thesis by (metis le_trans)
qed

theorem crash_loop_bounded_witness:
  "successful_starts fresh_machine
     (concat (replicate 9 [BeginStart 100000 100000, RecordCrash 1 0 0])) \<le> 4"
proof (rule order_trans [OF crash_loop_bounded [OF fresh_machine_new]])
  show "max_attempts default_policy < u32_max"
    by (simp add: default_policy_def u32_max_def)
  show "list_all crash_or_start (concat (replicate 9 [BeginStart 100000 100000, RecordCrash 1 0 0]))"
    by (auto simp: list_all_iff)
  show "max_attempts default_policy + 1 \<le> 4" by (simp add: default_policy_def)
qed

end
