(* ===== verification/Ja_Projection.thy ===== *)
theory Ja_Projection
  imports Ja_Time Ja_Command_Error Ja_Lifecycle Ja_Codec
begin

text \<open>
  What the desktop shows its WebView (\<open>app_runtime/projection.rs\<close>): a frame of the sidecar,
  re-encoded and scrubbed, and the host's own status events. \<open>to_vec\<close> and \<open>of_vec\<close> are
  serde_json's printer and parser of values, \<open>sink\<close> the emitter's answer to one value; the
  values handed to it are the second component of a result.
\<close>

subsection \<open>Statuses\<close>

datatype runtime_status_kind =
  SkStarting | SkReady | SkBusy | SkStopping | SkStopped | SkRecoveryRequired | SkCrashed
  | SkIncompatible | SkFaulted

fun from_lifecycle :: "lifecycle_state \<Rightarrow> runtime_status_kind" where
  "from_lifecycle LStarting = SkStarting"
| "from_lifecycle LReady = SkReady"
| "from_lifecycle LBusy = SkBusy"
| "from_lifecycle LStopping = SkStopping"
| "from_lifecycle LExited = SkStopped"
| "from_lifecycle LBackoff = SkStopped"
| "from_lifecycle LIncompatible = SkIncompatible"
| "from_lifecycle LFaulted = SkFaulted"

fun protocol_name :: "runtime_status_kind \<Rightarrow> str" where
  "protocol_name SkStarting = ''starting''"
| "protocol_name SkReady = ''ready''"
| "protocol_name SkBusy = ''ready''"
| "protocol_name SkStopping = ''shutting_down''"
| "protocol_name SkStopped = ''stopped''"
| "protocol_name SkRecoveryRequired = ''recovery_required''"
| "protocol_name SkCrashed = ''crashed''"
| "protocol_name SkIncompatible = ''crashed''"
| "protocol_name SkFaulted = ''crashed''"

subsection \<open>Scrubbing\<close>

definition shows_ready :: "obj \<Rightarrow> bool" where
  "shows_ready o' \<longleftrightarrow> get_str o' ''status'' = Some ''ready''"

fun scrub_tokens :: "str list \<Rightarrow> json \<Rightarrow> command_error + json"
  and scrub_members :: "bool \<Rightarrow> str list \<Rightarrow> obj \<Rightarrow> command_error + obj"
  and scrub_items :: "str list \<Rightarrow> json list \<Rightarrow> command_error + json list" where
  "scrub_tokens path (JObj o') =
     (case scrub_members (shows_ready o') path o' of Inl e \<Rightarrow> Inl e | Inr q \<Rightarrow> Inr (JObj q))"
| "scrub_tokens path (JArr vs) =
     (case scrub_items path vs of Inl e \<Rightarrow> Inl e | Inr ws \<Rightarrow> Inr (JArr ws))"
| "scrub_tokens path (JStr s) =
     (if length s = 32 \<and> list_all is_ascii_hexdigit s then Inl err_sensitive_event else Inr (JStr s))"
| "scrub_tokens path JNull = Inr JNull"
| "scrub_tokens path (JBool b) = Inr (JBool b)"
| "scrub_tokens path (JNum n) = Inr (JNum n)"
| "scrub_members ready path [] = Inr []"
| "scrub_members ready path ((k, v) # es) =
     (if k = ''readyToken'' then
        (if path = [''params''] \<and> ready then scrub_members ready path es
         else Inl err_sensitive_event)
      else if contains_str (to_ascii_lowercase k) ''token'' then Inl err_sensitive_event
      else case scrub_tokens (path @ [k]) v of
        Inl e \<Rightarrow> Inl e
      | Inr w \<Rightarrow> (case scrub_members ready path es of
          Inl e \<Rightarrow> Inl e
        | Inr q \<Rightarrow> Inr ((k, w) # q)))"
| "scrub_items path [] = Inr []"
| "scrub_items path (v # vs) =
     (case scrub_tokens path v of
        Inl e \<Rightarrow> Inl e
      | Inr w \<Rightarrow> (case scrub_items path vs of Inl e \<Rightarrow> Inl e | Inr ws \<Rightarrow> Inr (w # ws)))"

definition sanitize_webview_value :: "json \<Rightarrow> command_error + json" where
  "sanitize_webview_value v = scrub_tokens [] v"

definition frame_to_value ::
    "(json \<Rightarrow> bytes option) \<Rightarrow> (bytes \<Rightarrow> json option) \<Rightarrow> rpc_frame \<Rightarrow> codec_error + json" where
  "frame_to_value to_vec of_vec f =
     and_then (encode to_vec f (max_frame_bytes default_limits)) (\<lambda>encoded.
       ok_or (of_vec (take (length encoded - 1) encoded)) InvalidJson)"

subsection \<open>Emitting\<close>

definition emit :: "(json \<Rightarrow> bool) \<Rightarrow> json \<Rightarrow> (command_error + unit) \<times> json list" where
  "emit sink v = (if sink v then Inr () else Inl err_event_delivery, [v])"

definition emit_frame ::
    "(json \<Rightarrow> bytes option) \<Rightarrow> (bytes \<Rightarrow> json option) \<Rightarrow> (json \<Rightarrow> bool) \<Rightarrow> rpc_frame
      \<Rightarrow> (command_error + unit) \<times> json list" where
  "emit_frame to_vec of_vec sink f =
     (case frame_to_value to_vec of_vec f of
        Inl _ \<Rightarrow> (Inl err_unavailable, [])
      | Inr v \<Rightarrow> (case sanitize_webview_value v of
          Inl e \<Rightarrow> (Inl e, [])
        | Inr w \<Rightarrow> emit sink w))"

definition status_event ::
    "str \<Rightarrow> runtime_status_kind \<Rightarrow> nat \<Rightarrow> str option \<Rightarrow> str \<Rightarrow> json" where
  "status_event now status gen instance reason =
     JObj (obj_of [
       (''jsonrpc'', JStr ''2.0''),
       (''method'', JStr ''runtime/statusChanged''),
       (''params'', JObj (obj_of [
          (''serverInstanceId'', JStr (case instance of None \<Rightarrow> ''srv_host'' | Some i \<Rightarrow> i)),
          (''eventId'', JStr (''evt_host_'' @ show_nat gen @ ''_'' @ reason)),
          (''occurredAt'', JStr now),
          (''status'', JStr (protocol_name status)),
          (''health'', JObj (obj_of [(''generation'', JNum (PosInt gen)), (''reason'', JStr reason)]))]))])"

definition emit_status ::
    "(json \<Rightarrow> bool) \<Rightarrow> str \<Rightarrow> runtime_status_kind \<Rightarrow> nat \<Rightarrow> str option \<Rightarrow> str
      \<Rightarrow> (command_error + unit) \<times> json list" where
  "emit_status sink now status gen instance reason =
     emit sink (status_event now status gen instance reason)"

subsection \<open>What the scrubber lets through\<close>

text \<open>
  The value without the one legal challenge field, and what a value shown to the WebView may
  hold: no key with the word, no string of the token's shape.
\<close>

fun visible :: "str list \<Rightarrow> json \<Rightarrow> json" where
  "visible path (JObj o') = JObj (map (\<lambda>p. (fst p, visible (path @ [fst p]) (snd p)))
     (filter (\<lambda>p. \<not> (fst p = ''readyToken'' \<and> path = [''params''] \<and> shows_ready o')) o'))"
| "visible path (JArr vs) = JArr (map (visible path) vs)"
| "visible path v = v"

definition token_key :: "str \<Rightarrow> bool" where
  "token_key k \<longleftrightarrow> sublist ''token'' (to_ascii_lowercase k)"

fun token_free :: "json \<Rightarrow> bool" where
  "token_free (JObj o') = list_all (\<lambda>p. \<not> token_key (fst p) \<and> token_free (snd p)) o'"
| "token_free (JArr vs) = list_all token_free vs"
| "token_free (JStr s) = (\<not> is_token_shaped s)"
| "token_free _ = True"

lemma ready_token_key: "token_key ''readyToken''"
proof -
  have "contains_str (to_ascii_lowercase ''readyToken'') ''token''"
    by code_simp
  then show ?thesis by (simp add: token_key_def contains_str_iff_sublist)
qed

lemma scrub_exact:
  "scrub_tokens path v =
     (if token_free (visible path v) then Inr (visible path v) else Inl err_sensitive_event)"
  "scrub_members ready path es =
     (let q = map (\<lambda>p. (fst p, visible (path @ [fst p]) (snd p)))
          (filter (\<lambda>p. \<not> (fst p = ''readyToken'' \<and> path = [''params''] \<and> ready)) es)
      in if list_all (\<lambda>p. \<not> token_key (fst p) \<and> token_free (snd p)) q then Inr q
         else Inl err_sensitive_event)"
  "scrub_items path vs =
     (if list_all token_free (map (visible path) vs) then Inr (map (visible path) vs)
      else Inl err_sensitive_event)"
proof (induction path v and ready path es and path vs
    rule: scrub_tokens_scrub_members_scrub_items.induct)
  case (1 path o')
  then show ?case by (simp add: Let_def)
next
  case (3 path s)
  then show ?case by (simp add: is_token_shaped_def)
next
  case (8 ready path k v es)
  show ?case
  proof (cases "k = ''readyToken''")
    case True
    then show ?thesis using 8 by (simp add: ready_token_key Let_def)
  next
    case False
    then show ?thesis
      using 8 by (simp add: token_key_def contains_str_iff_sublist Let_def)
  qed
qed (simp_all add: Let_def)

lemma visible_marker:
  "contains_token_shaped_marker (visible path v) \<Longrightarrow> contains_token_shaped_marker v"
proof (induction path v rule: visible.induct)
  case (1 path o')
  then obtain p where "p \<in> set o'" "is_ready_token_key (fst p) \<or> is_token_shaped (fst p)
      \<or> contains_token_shaped_marker (visible (path @ [fst p]) (snd p))"
    "\<not> (fst p = ''readyToken'' \<and> path = [''params''] \<and> shows_ready o')"
    by (auto simp: list_ex_iff simp del: visible.simps(2,3) split_paired_All split_paired_Ex)
  with "1.IH" [of p] show ?case by (auto simp: list_ex_iff intro!: bexI [of _ p])
qed (auto simp: list_ex_iff)

lemma visible_mentions: "mentions F (visible path v) \<Longrightarrow> mentions F v"
proof (induction path v rule: visible.induct)
  case (1 path o')
  then obtain p where "p \<in> set o'" "fst p \<in> F \<or> mentions F (visible (path @ [fst p]) (snd p))"
    "\<not> (fst p = ''readyToken'' \<and> path = [''params''] \<and> shows_ready o')"
    by (auto simp: list_ex_iff simp del: visible.simps(2,3))
  with "1.IH" [of p] show ?case by (auto simp: list_ex_iff intro!: bexI [of _ p])
qed (auto simp: list_ex_iff)

lemma get_filter: "k \<noteq> k' \<Longrightarrow> get_str (filter (\<lambda>p. fst p \<noteq> k') o') k = get_str o' k"
  by (induction o') (auto simp: get_str_def)

lemma visible_erase_params:
  assumes "token_free (visible [''params''] v)"
  shows "visible [''params''] (erase_member ready_token_field v) = visible [''params''] v"
proof (cases v)
  case (JObj ps)
  have ready: "shows_ready (filter (\<lambda>p. fst p \<noteq> ''readyToken'') ps) = shows_ready ps"
    by (simp add: shows_ready_def get_filter)
  show ?thesis
  proof (cases "shows_ready ps")
    case True
    then show ?thesis by (simp add: JObj erase_member_def ready_token_field_def ready)
  next
    case False
    then have "\<forall>p \<in> set ps. \<not> token_key (fst p)"
      using assms by (simp add: JObj list_all_iff)
    then have "filter (\<lambda>p. fst p \<noteq> ''readyToken'') ps = ps"
      using ready_token_key by (intro filter_True) fastforce
    then show ?thesis by (simp add: JObj erase_member_def ready_token_field_def)
  qed
qed (simp_all add: erase_member_def)

lemma visible_erase:
  assumes "token_free (visible [] (JObj o'))"
  shows "visible [] (JObj (erase_challenge o')) = visible [] (JObj o')"
proof -
  have "token_free (visible [fst p] (snd p))" if "p \<in> set o'" for p
    using assms that by (auto simp: list_all_iff)
  then show ?thesis
    by (auto simp: erase_challenge_def visible_erase_params)
qed

lemma free_marker:
  assumes "\<not> raw_marker allow [] (JObj o')" and "token_free (visible [] (JObj o'))"
  shows "\<not> contains_token_shaped_marker (visible [] (JObj o'))"
proof (cases allow)
  case True
  then show ?thesis
    using assms visible_marker [of "[]" "JObj (erase_challenge o')"]
    by (simp only: raw_marker_erase visible_erase) blast
next
  case False
  then show ?thesis
    using assms(1) visible_marker [of "[]" "JObj o'"] raw_marker_plain [of allow "[]" "JObj o'"]
    by blast
qed

lemma token_mentions:
  "valid_ready_token t \<Longrightarrow> mentions {t} v \<Longrightarrow> contains_token_shaped_marker v"
  using valid_token_is_shaped [of t]
  by (induction "{t}" v rule: mentions.induct) (force simp: list_ex_iff)+

lemma emitted_value:
  assumes "\<And>v b. to_vec v = Some b \<Longrightarrow> of_vec b = Some v"
    and "emit_frame to_vec of_vec sink f = (r, ws)" and "w \<in> set ws"
  shows "w = visible [] (JObj (wire_object f))" and "token_free w"
    and "\<not> contains_token_shaped_marker w"
proof -
  obtain v where v: "frame_to_value to_vec of_vec f = Inr v" "sanitize_webview_value v = Inr w"
    using assms(2,3) by (auto simp: emit_frame_def emit_def split: sum.splits)
  then obtain allow b where e: "\<not> raw_marker allow [] (JObj (wire_object f))"
      "to_vec (JObj (wire_object f)) = Some b" "v = JObj (wire_object f)"
    using assms(1)
    by (auto simp: frame_to_value_def encode_def reject_raw_token_markers_def Let_def result_iff
        split: if_splits)
  from v(2) show w: "w = visible [] (JObj (wire_object f))"
    by (simp add: sanitize_webview_value_def scrub_exact(1) e(3) del: visible.simps split: if_splits)
  from v(2) show "token_free w" unfolding w
    by (simp add: sanitize_webview_value_def scrub_exact(1) e(3)
        del: visible.simps token_free.simps split: if_splits)
  then show "\<not> contains_token_shaped_marker w"
    unfolding w by (rule free_marker [OF e(1)])
qed

subsection \<open>Properties\<close>

text \<open>
  C34. The scrubber accepts a value exactly when, apart from the challenge field of a ready
  notification, no key holds the word in any letter case and no string has the shape of a
  token; then the WebView gets the value without that field and with nothing else changed.
\<close>

theorem webview_scrub_exact:
  "sanitize_webview_value v =
     (if token_free (visible [] v) then Inr (visible [] v) else Inl err_sensitive_event)"
  by (simp add: sanitize_webview_value_def scrub_exact)

text \<open>
  C28. Whatever frame the event loop forwards, and whether or not the emitter accepts it, the
  value it hands over is the frame's own wire object without the challenge of a ready
  notification; it holds no string and no key of a token's shape, no key with the word in it,
  and so no challenge the host ever generated, at any depth. serde_json is taken to read back
  the value it printed.
\<close>

theorem webview_never_sees_token:
  assumes "\<And>v b. to_vec v = Some b \<Longrightarrow> of_vec b = Some v"
    and "emit_frame to_vec of_vec sink f = (r, ws)"
  shows "length ws \<le> 1 \<and> (\<forall>w \<in> set ws.
    w = visible [] (JObj (wire_object f)) \<and> token_free w \<and> \<not> contains_token_shaped_marker w
    \<and> (\<forall>t. valid_ready_token t \<longrightarrow> \<not> mentions {t} w))"
proof -
  have "length ws \<le> 1"
    using assms(2) by (auto simp: emit_frame_def emit_def split: sum.splits)
  then show ?thesis
    using emitted_value [OF assms] token_mentions by blast
qed

definition sample_echo :: rpc_frame where
  "sample_echo = \<lparr>frame_id_opt = None, frame_method = Some ''runtime/statusChanged'',
     frame_params = Some (JObj [(''readyToken'', JStr ''0123456789abcdef0123456789abcdef''),
       (''status'', JStr ''ready'')]),
     frame_result = missing, frame_error = None\<rparr>"

theorem webview_never_sees_token_witness:
  "\<exists>w. emit_frame (\<lambda>v. if v = JObj (wire_object sample_echo) then Some ''A'' else None)
       (\<lambda>_. Some (JObj (wire_object sample_echo))) (\<lambda>_. True) sample_echo = (Inr (), [w])
     \<and> \<not> mentions {''0123456789abcdef0123456789abcdef''} w"
proof -
  let ?to = "\<lambda>v. if v = JObj (wire_object sample_echo) then Some ''A'' else None"
  let ?of = "\<lambda>_ :: bytes. Some (JObj (wire_object sample_echo))"
  obtain r ws where e: "emit_frame ?to ?of (\<lambda>_. True) sample_echo = (r, ws)" by fastforce
  have tok: "valid_ready_token ''0123456789abcdef0123456789abcdef''" by code_simp
  have "\<not> raw_marker True [] (JObj (wire_object sample_echo))" by code_simp
  moreover have "validate sample_echo = Inr Notification" by code_simp
  moreover have "params_status_ready (frame_params sample_echo)" by code_simp
  ultimately have v: "frame_to_value ?to ?of sample_echo = Inr (JObj (wire_object sample_echo))"
    by (simp add: frame_to_value_def encode_def reject_raw_token_markers_def sample_echo_def
        default_limits_def Let_def)
  have "token_free (visible [] (JObj (wire_object sample_echo)))" by code_simp
  then have "sanitize_webview_value (JObj (wire_object sample_echo))
      = Inr (visible [] (JObj (wire_object sample_echo)))"
    by (simp add: sanitize_webview_value_def scrub_exact(1))
  with v have "emit_frame ?to ?of (\<lambda>_. True) sample_echo
      = (Inr (), [visible [] (JObj (wire_object sample_echo))])"
    by (simp only: emit_frame_def emit_def) simp
  moreover have "length ws \<le> 1 \<and> (\<forall>w \<in> set ws.
      w = visible [] (JObj (wire_object sample_echo)) \<and> token_free w
      \<and> \<not> contains_token_shaped_marker w \<and> (\<forall>t. valid_ready_token t \<longrightarrow> \<not> mentions {t} w))"
    by (rule webview_never_sees_token [OF _ e]) (simp split: if_splits)
  then have "\<forall>w \<in> set ws. \<not> mentions {''0123456789abcdef0123456789abcdef''} w" using tok by blast
  ultimately show ?thesis using e by simp
qed

end
