(* ===== verification/Ja_Supervisor.thy ===== *)
theory Ja_Supervisor
  imports Ja_Session_Inv Ja_Lifecycle
begin

text \<open>
  The owner of one sidecar at a time (\<open>agent_process/supervisor.rs\<close>): the lifecycle, the
  process, the session and its event pump, and the operations start, client, request, restart
  and shutdown with their cleanup.

  The operating system and the other threads are arguments: what spawning gave, how far a
  cleanup got, and at every point where an operation waits a function that takes the session to
  where the other threads have left it.
\<close>

subsection \<open>State\<close>

record terminal_signal =
  ts_generation :: nat
  ts_reason :: terminal_reason

record supervisor =
  su_initialize_params :: json
  su_limits :: limits
  su_lifecycle :: lifecycle
  su_process :: bool
  su_session :: "session option"
  su_event_pump :: bool
  su_instance :: "str option"
  su_signals :: "terminal_signal list"
  su_stopping :: bool

definition supervisor_new :: "json \<Rightarrow> limits \<Rightarrow> restart_policy \<Rightarrow> agent_error + supervisor" where
  "supervisor_new params l p =
     and_then (lifecycle_new p) (\<lambda>m. Inr \<lparr>su_initialize_params = params, su_limits = l,
       su_lifecycle = m, su_process = False, su_session = None, su_event_pump = False,
       su_instance = None, su_signals = [], su_stopping = False\<rparr>)"

definition owns_resources :: "supervisor \<Rightarrow> bool" where
  "owns_resources v \<longleftrightarrow> su_process v \<or> su_session v \<noteq> None \<or> su_event_pump v"

abbreviation on_lifecycle :: "(lifecycle \<Rightarrow> lifecycle) \<Rightarrow> supervisor \<Rightarrow> supervisor" where
  "on_lifecycle g v \<equiv> v\<lparr>su_lifecycle := g (su_lifecycle v)\<rparr>"

subsection \<open>Terminal signals\<close>

definition sync_signal :: "millis \<Rightarrow> millis \<Rightarrow> terminal_signal \<Rightarrow> supervisor \<Rightarrow> supervisor" where
  "sync_signal now now' sig v =
     (let m = su_lifecycle v; g = ts_generation sig in
      if \<not> is_current g m then v
      else case ts_reason sig of
        RClosed \<Rightarrow>
          if lc_state m = LStopping \<and> \<not> owns_resources v
          then on_lifecycle (\<lambda>m. snd (mark_exited g m)) v else v
      | _ \<Rightarrow>
          if lc_state m \<in> {LStarting, LReady, LBusy}
          then on_lifecycle (\<lambda>m. snd (record_crash g now now' m)) v
          else if lc_state m = LStopping \<and> \<not> owns_resources v
          then on_lifecycle (\<lambda>m. snd (mark_exited g m)) v
          else v)"

definition sync_terminal_signals :: "millis \<Rightarrow> millis \<Rightarrow> supervisor \<Rightarrow> supervisor" where
  "sync_terminal_signals now now' v =
     fold (sync_signal now now') (su_signals v) (v\<lparr>su_signals := []\<rparr>)"

subsection \<open>Cleanup\<close>

text \<open>How the writer join and the termination of the process tree ended.\<close>

record cleanup_outcome =
  co_join :: "agent_error + unit"
  co_terminate :: "agent_error + unit"

definition cleanup_owner_until ::
    "(json \<Rightarrow> bytes option) \<Rightarrow> cleanup_outcome \<Rightarrow> supervisor \<Rightarrow> (agent_error + unit) \<times> supervisor" where
  "cleanup_owner_until to_vec c v =
     (let v1 = v\<lparr>su_session := map_option (\<lambda>s.
              detach_terminal_callback (close_until to_vec (is_ok (co_join c)) s)) (su_session v)\<rparr>;
          first = (if su_session v \<noteq> None then co_join c else Inr ());
          second = (if su_process v then co_terminate c else Inr ())
      in case first of
           Inl e \<Rightarrow> (Inl e, v1)
         | Inr _ \<Rightarrow> (case second of
             Inl e \<Rightarrow> (Inl e, v1)
           | Inr _ \<Rightarrow> (Inr (), v1\<lparr>su_event_pump := False, su_session := None, su_process := False\<rparr>)))"

definition fail_process_only ::
    "(json \<Rightarrow> bytes option) \<Rightarrow> cleanup_outcome \<Rightarrow> supervisor \<Rightarrow> supervisor" where
  "fail_process_only to_vec c v = snd (cleanup_owner_until to_vec c v)"

definition fail_generation ::
    "(json \<Rightarrow> bytes option) \<Rightarrow> cleanup_outcome \<Rightarrow> nat \<Rightarrow> supervisor \<Rightarrow> supervisor" where
  "fail_generation to_vec c g v =
     on_lifecycle (\<lambda>m. snd (mark_faulted g m)) (fail_process_only to_vec c v)"

definition fail_incompatible ::
    "(json \<Rightarrow> bytes option) \<Rightarrow> cleanup_outcome \<Rightarrow> nat \<Rightarrow> supervisor \<Rightarrow> supervisor" where
  "fail_incompatible to_vec c g v =
     on_lifecycle (\<lambda>m. snd (mark_incompatible g m)) (fail_process_only to_vec c v)"

subsection \<open>The client\<close>

definition not_ready_error :: "lifecycle_state \<Rightarrow> agent_error" where
  "not_ready_error st = (if st = LStopping then ShuttingDown else NotReady)"

text \<open>A client is the session, its generation and the shared stopping flag.\<close>

definition supervisor_client ::
    "millis \<Rightarrow> millis \<Rightarrow> supervisor \<Rightarrow> (agent_error + session \<times> nat) \<times> supervisor" where
  "supervisor_client now now' v =
     (let v1 = sync_terminal_signals now now' v; st = lc_state (su_lifecycle v1) in
      if su_stopping v1 then (Inl ShuttingDown, v1)
      else if st \<notin> {LReady, LBusy} then (Inl (not_ready_error st), v1)
      else (and_then (ok_or (su_session v1) NotReady) (\<lambda>s. Inr (s, generation (su_lifecycle v1))), v1))"

subsection \<open>The handshake\<close>

definition check_initialize_result ::
    "json \<Rightarrow> supervisor \<Rightarrow> agent_error + str" where
  "check_initialize_result result v =
     and_then (ok_or (as_object result) ProtocolFault) (\<lambda>o'.
     and_then (ok_or (get_i64 o' ''protocolMajor'') ProtocolFault) (\<lambda>major.
     and_then (ok_or (filter_opt (\<lambda>m. 0 \<le> m \<and> m \<le> 2 ^ 31 - 1) (get_i64 o' ''protocolMinor''))
         ProtocolFault) (\<lambda>minor.
     and_then (ok_or (as_object (su_initialize_params v)) InvalidConfig) (\<lambda>l.
     and_then (ok_or (get_i64 l ''protocolMajor'') InvalidConfig) (\<lambda>local_major.
     and_then (ok_or (get_i64 l ''protocolMinor'') InvalidConfig) (\<lambda>local_minor.
     and_then (ok_or (get_i64 l ''minimumCompatibleMinor'') InvalidConfig) (\<lambda>local_minimum.
     and_then (ok_or (filter_opt (\<lambda>m. 0 \<le> m \<and> m \<le> minor) (get_i64 o' ''minimumCompatibleMinor''))
         ProtocolFault) (\<lambda>minimum.
     and_then (map_err (\<lambda>_. Incompatible)
         (negotiate_version local_major local_minor local_minimum major minor minimum)) (\<lambda>_.
     if \<not> opt_ex valid_version (get_str o' ''serverVersion'') then Inl ProtocolFault
     else and_then (ok_or (get_str o' ''serverInstanceId'') ProtocolFault) (\<lambda>instance_id.
     if \<not> valid_schema_id instance_id ''srv_'' 101 then Inl ProtocolFault
     else and_then (ok_or (Option.bind (obj_get o' ''runtime'') as_object) ProtocolFault) (\<lambda>runtime.
     if get_str runtime ''kind'' \<noteq> Some ''native-image''
        \<or> \<not> bounded_string (obj_get runtime ''agentScopeVersion'') 128
        \<or> \<not> bounded_string (obj_get runtime ''javaVersion'') 128
     then Inl ProtocolFault
     else and_then (validate_capabilities (obj_get o' ''capabilities'')) (\<lambda>_.
     and_then (validate_remote_limits (obj_get o' ''limits'') (su_limits v)) (\<lambda>_.
     Inr instance_id)))))))))))))"

text \<open>
  What a start meets outside: the clocks, spawning, the random bytes, whether the deadline had
  passed before \<open>initialize\<close>, its answer with the session as the wait left it, and for every
  turn of the last loop where the other threads had taken the session. The list ends where the
  deadline passes. \<open>st_cleanup\<close> is how a cleanup on a failing path ends.
\<close>

record start_env =
  st_sync :: "millis \<times> millis"
  st_pre_cleanup :: cleanup_outcome
  st_begin :: "millis \<times> millis"
  st_spawn :: "nat \<Rightarrow> agent_error + session"
  st_random :: "bytes option"
  st_late :: bool
  st_initialize :: "session \<Rightarrow> (agent_error + rpc_frame) \<times> session"
  st_turns :: "(session \<Rightarrow> session) list"
  st_ready_at :: millis
  st_cleanup :: cleanup_outcome

definition set_session :: "session \<Rightarrow> supervisor \<Rightarrow> supervisor" where
  "set_session s v = v\<lparr>su_session := Some s\<rparr>"

definition promote_ready ::
    "(json \<Rightarrow> bytes option) \<Rightarrow> cleanup_outcome \<Rightarrow> nat \<Rightarrow> millis \<Rightarrow> rpc_frame \<Rightarrow> session \<Rightarrow> supervisor
      \<Rightarrow> (agent_error + unit) \<times> supervisor" where
  "promote_ready to_vec c g now f s v =
     (if \<not> is_ready_notification f (su_instance v)
      then (Inl AHandshakeFailed, fail_generation to_vec c g (set_session s v))
      else case with_ready_promotion f
          (and_then (mark_ready g now (su_lifecycle v)) (\<lambda>_. Inr ())) s of
        (Inl e, s') \<Rightarrow> (Inl e, fail_generation to_vec c g (set_session s' v))
      | (Inr _, s') \<Rightarrow> (Inr (), set_session s' (on_lifecycle (\<lambda>m.
          case mark_ready g now m of Inr m' \<Rightarrow> m' | Inl _ \<Rightarrow> m) v)))"

fun await_ready ::
    "(json \<Rightarrow> bytes option) \<Rightarrow> cleanup_outcome \<Rightarrow> nat \<Rightarrow> millis \<Rightarrow> (session \<Rightarrow> session) list
      \<Rightarrow> session \<Rightarrow> supervisor \<Rightarrow> (agent_error + unit) \<times> supervisor" where
  "await_ready to_vec c g now [] s v =
     (Inl DeadlineExceeded, fail_generation to_vec c g (set_session s v))"
| "await_ready to_vec c g now (move # moves) s v =
     (case next_event to_vec (move s) of
        (None, s1) \<Rightarrow> (Inl DeadlineExceeded, fail_generation to_vec c g (set_session s1 v))
      | (Some e, s1) \<Rightarrow> (case e of
          NotificationEvent f \<Rightarrow>
            if is_runtime_ready_notification f then promote_ready to_vec c g now f s1 v
            else await_ready to_vec c g now moves s1 v
        | ServerRequest f \<Rightarrow>
            await_ready to_vec c g now moves
              (snd (respond_error to_vec (frame_id f) (-32004) ''not initialized''
                 ''NOT_INITIALIZED'' False s1)) v
        | ProcessExitedEvent _ _ \<Rightarrow> (Inl ProcessExited, fail_generation to_vec c g (set_session s1 v))
        | Eof \<Rightarrow> (Inl ProcessExited, fail_generation to_vec c g (set_session s1 v))
        | HandshakeFailedEvent \<Rightarrow>
            (Inl AHandshakeFailed, fail_generation to_vec c g (set_session s1 v))
        | WriterTimedOut \<Rightarrow> (Inl DeadlineExceeded, fail_generation to_vec c g (set_session s1 v))
        | ProtocolFaultEvent _ \<Rightarrow> (Inl ProtocolFault, fail_generation to_vec c g (set_session s1 v))
        | QueueFatalOverflow _ \<Rightarrow> (Inl ProtocolFault, fail_generation to_vec c g (set_session s1 v))
        | ResponseRejected _ \<Rightarrow> (Inl ProtocolFault, fail_generation to_vec c g (set_session s1 v))
        | _ \<Rightarrow> await_ready to_vec c g now moves s1 v))"

text \<open>The part after \<open>begin_start\<close>; every failure in it fails the generation.\<close>

definition initialize_failure ::
    "(json \<Rightarrow> bytes option) \<Rightarrow> cleanup_outcome \<Rightarrow> nat \<Rightarrow> agent_error \<Rightarrow> supervisor
      \<Rightarrow> (agent_error + unit) \<times> supervisor" where
  "initialize_failure to_vec c g e v =
     (Inl e, if e = Incompatible then fail_incompatible to_vec c g v
             else fail_generation to_vec c g v)"

definition after_initialize ::
    "(json \<Rightarrow> bytes option) \<Rightarrow> start_env \<Rightarrow> nat \<Rightarrow> rpc_frame \<Rightarrow> session \<Rightarrow> supervisor
      \<Rightarrow> (agent_error + unit) \<times> supervisor" where
  "after_initialize to_vec en g f s v =
     (case frame_error f of
        Some e \<Rightarrow>
          if error_is_incompatible (err_code e) (err_data e)
          then (Inl Incompatible, fail_incompatible to_vec (st_cleanup en) g v)
          else (Inl ProtocolFault, fail_generation to_vec (st_cleanup en) g v)
      | None \<Rightarrow>
          (case and_then (ok_or (present_value (frame_result f)) ProtocolFault)
              (\<lambda>r. check_initialize_result r v) of
             Inl e \<Rightarrow> initialize_failure to_vec (st_cleanup en) g e v
           | Inr instance_id \<Rightarrow>
               let v1 = v\<lparr>su_instance := Some instance_id\<rparr> in
               (case initialized_params s of
                  Inl e \<Rightarrow> (Inl e, fail_generation to_vec (st_cleanup en) g v1)
                | Inr params \<Rightarrow>
                    (case notify_inner to_vec None ''initialized'' params s of
                       (Inl e, s1) \<Rightarrow> (Inl e, fail_generation to_vec (st_cleanup en) g (set_session s1 v1))
                     | (Inr _, s1) \<Rightarrow> await_ready to_vec (st_cleanup en) g (st_ready_at en)
                         (st_turns en) s1 v1))))"

definition start_session ::
    "(json \<Rightarrow> bytes option) \<Rightarrow> start_env \<Rightarrow> nat \<Rightarrow> session \<Rightarrow> supervisor
      \<Rightarrow> (agent_error + unit) \<times> supervisor" where
  "start_session to_vec en g s0 v0 =
     (case take_event_pump s0 of
        (Inl e, s1) \<Rightarrow>
          (Inl e, fail_generation to_vec (st_cleanup en) g (set_session s1 v0))
      | (Inr _, s1) \<Rightarrow>
          let v = v0\<lparr>su_event_pump := True\<rparr> in
          (case generate_ready_token (st_random en) of
             Inl e \<Rightarrow> (Inl e, fail_generation to_vec (st_cleanup en) g (set_session s1 v))
           | Inr token \<Rightarrow>
               (case install_ready_token_challenge token s1 of
                  (Inl e, s2) \<Rightarrow> (Inl e, fail_generation to_vec (st_cleanup en) g (set_session s2 v))
                | (Inr _, s2) \<Rightarrow>
                    if st_late en
                    then (Inl DeadlineExceeded, fail_generation to_vec (st_cleanup en) g (set_session s2 v))
                    else (case st_initialize en s2 of
                        (Inl e, s3) \<Rightarrow> (Inl e, fail_generation to_vec (st_cleanup en) g (set_session s3 v))
                      | (Inr f, s3) \<Rightarrow> after_initialize to_vec en g f s3 (set_session s3 v)))))"

definition start_generation ::
    "(json \<Rightarrow> bytes option) \<Rightarrow> start_env \<Rightarrow> supervisor \<Rightarrow> (agent_error + unit) \<times> supervisor" where
  "start_generation to_vec en v =
     (case begin_start (fst (st_begin en)) (snd (st_begin en)) (su_lifecycle v) of
        Inl e \<Rightarrow> (Inl e, v)
      | Inr (g, m) \<Rightarrow>
          let v1 = v\<lparr>su_lifecycle := m, su_instance := None\<rparr> in
          (case st_spawn en g of
             Inl e \<Rightarrow> (Inl e, on_lifecycle (\<lambda>m. snd (mark_faulted g m)) v1)
           | Inr s0 \<Rightarrow> start_session to_vec en g s0 (set_session s0 (v1\<lparr>su_process := True\<rparr>))))"

definition supervisor_start ::
    "(json \<Rightarrow> bytes option) \<Rightarrow> start_env \<Rightarrow> supervisor \<Rightarrow> (agent_error + unit) \<times> supervisor" where
  "supervisor_start to_vec en v =
     (let v1 = (sync_terminal_signals (fst (st_sync en)) (snd (st_sync en)) v)\<lparr>su_stopping := False\<rparr>
      in if lc_state (su_lifecycle v1) \<in> {LExited, LBackoff} \<and> (su_process v1 \<or> su_session v1 \<noteq> None)
         then let v2 = fail_process_only to_vec (st_pre_cleanup en) v1 in
           if owns_resources v2 then (Inl ProcessTree, v2) else start_generation to_vec en v2
         else start_generation to_vec en v1)"

subsection \<open>Requests, restart and shutdown\<close>

text \<open>
  \<open>wait\<close> is the request on the session with the nested requests and the other threads' work
  up to its answer; \<open>clock\<close> gives the times of the two synchronisations.
\<close>

definition supervisor_request ::
    "(session \<Rightarrow> (agent_error + rpc_frame) \<times> session) \<Rightarrow> terminal_signal list
      \<Rightarrow> (millis \<times> millis) \<times> (millis \<times> millis) \<Rightarrow> supervisor
      \<Rightarrow> (agent_error + rpc_frame) \<times> supervisor" where
  "supervisor_request wait raised clock v =
     (let v1 = sync_terminal_signals (fst (fst clock)) (snd (fst clock)) v;
          st = lc_state (su_lifecycle v1); g = generation (su_lifecycle v1) in
      if su_stopping v1 then (Inl ShuttingDown, v1)
      else if st \<noteq> LReady then (Inl (not_ready_error st), v1)
      else case mark_busy g (su_lifecycle v1) of
        Inl e \<Rightarrow> (Inl e, v1)
      | Inr m \<Rightarrow>
          let v2 = v1\<lparr>su_lifecycle := m\<rparr> in
          (case su_session v2 of
             None \<Rightarrow> (Inl NotReady, v2)
           | Some s \<Rightarrow>
               (case wait s of
                  (r, s') \<Rightarrow>
                    let v3 = (set_session s' v2)\<lparr>su_signals := su_signals v2 @ raised\<rparr>;
                        v4 = on_lifecycle (\<lambda>m. case mark_ready_again g m of Inr m' \<Rightarrow> m' | Inl _ \<Rightarrow> m) v3
                    in (r, sync_terminal_signals (fst (snd clock)) (snd (snd clock)) v4))))"

definition schedule_restart ::
    "(json \<Rightarrow> bytes option) \<Rightarrow> cleanup_outcome \<Rightarrow> (millis \<times> millis) \<times> (millis \<times> millis) \<Rightarrow> supervisor
      \<Rightarrow> lifecycle_state \<times> supervisor" where
  "schedule_restart to_vec c clock v =
     (let v1 = sync_terminal_signals (fst (fst clock)) (snd (fst clock)) v;
          g = generation (su_lifecycle v1) in
      case record_crash g (fst (snd clock)) (snd (snd clock)) (su_lifecycle v1) of
        (st, m) \<Rightarrow> (st, fail_process_only to_vec c (v1\<lparr>su_lifecycle := m\<rparr>)))"

definition supervisor_restart ::
    "(json \<Rightarrow> bytes option) \<Rightarrow> (millis \<times> millis) \<Rightarrow> millis \<Rightarrow> start_env \<Rightarrow> supervisor
      \<Rightarrow> (agent_error + unit) \<times> supervisor" where
  "supervisor_restart to_vec clock now en v =
     (let v1 = sync_terminal_signals (fst clock) (snd clock) v; m = su_lifecycle v1 in
      if lc_state m = LBackoff \<and> \<not> backoff_due now m
      then (Inl (Backoff (retry_after now m)), v1)
      else supervisor_start to_vec en (v1\<lparr>su_stopping := False\<rparr>))"

text \<open>
  \<open>farewell\<close> is the \<open>shutdown\<close> request on the session, skipped when no time is left; what its
  threads do to the session is all that is seen of it.
\<close>

definition supervisor_shutdown ::
    "(json \<Rightarrow> bytes option) \<Rightarrow> (session \<Rightarrow> session) option \<Rightarrow> cleanup_outcome
      \<Rightarrow> (millis \<times> millis) \<times> (millis \<times> millis) \<Rightarrow> supervisor \<Rightarrow> (agent_error + unit) \<times> supervisor" where
  "supervisor_shutdown to_vec farewell c clock v =
     (let v1 = sync_terminal_signals (fst (fst clock)) (snd (fst clock)) (v\<lparr>su_stopping := True\<rparr>);
          m = su_lifecycle v1; g = generation m; st = lc_state m;
          already_stopping = (st = LStopping); active = (st \<in> {LStarting, LReady, LBusy}) in
      if \<not> active \<and> \<not> already_stopping \<and> \<not> owns_resources v1 then (Inr (), v1)
      else case (if active then begin_stop g m else Inr m) of
        Inl e \<Rightarrow> (Inl e, v1)
      | Inr m' \<Rightarrow>
          let v2 = v1\<lparr>su_lifecycle := m'\<rparr>;
              v3 = (case farewell of
                Some go \<Rightarrow> if active then v2\<lparr>su_session := map_option go (su_session v2)\<rparr> else v2
              | None \<Rightarrow> v2) in
          (case cleanup_owner_until to_vec c v3 of
             (Inl e, v4) \<Rightarrow> (Inl e, v4)
           | (Inr _, v4) \<Rightarrow> (Inr (), on_lifecycle (\<lambda>m. snd (mark_exited g m))
               (sync_terminal_signals (fst (snd clock)) (snd (snd clock)) v4))))"

definition supervisor_take_event_pump ::
    "millis \<Rightarrow> millis \<Rightarrow> supervisor \<Rightarrow> (agent_error + unit) \<times> supervisor" where
  "supervisor_take_event_pump now now' v =
     (let v1 = sync_terminal_signals now now' v in
      if su_event_pump v1 then (Inr (), v1\<lparr>su_event_pump := False\<rparr>) else (Inl InvalidState, v1))"

definition supervisor_drop ::
    "(json \<Rightarrow> bytes option) \<Rightarrow> cleanup_outcome \<Rightarrow> supervisor \<Rightarrow> supervisor" where
  "supervisor_drop to_vec c v =
     (let v1 = fail_process_only to_vec c (v\<lparr>su_stopping := True\<rparr>);
          g = generation (su_lifecycle v1) in
      if \<not> owns_resources v1 then on_lifecycle (\<lambda>m. snd (mark_exited g m)) v1 else v1)"

definition supervisor_state :: "millis \<Rightarrow> millis \<Rightarrow> supervisor \<Rightarrow> lifecycle_state \<times> supervisor" where
  "supervisor_state now now' v =
     (let v1 = sync_terminal_signals now now' v in (lc_state (su_lifecycle v1), v1))"

definition supervisor_next_event ::
    "(json \<Rightarrow> bytes option) \<Rightarrow> (millis \<times> millis) \<times> (millis \<times> millis) \<Rightarrow> supervisor
      \<Rightarrow> session_event option \<times> supervisor" where
  "supervisor_next_event to_vec clock v =
     (let v1 = sync_terminal_signals (fst (fst clock)) (snd (fst clock)) v;
          (e, v2) = (if su_event_pump v1 then
              (case su_session v1 of
                 None \<Rightarrow> (None, v1)
               | Some s \<Rightarrow> (case next_event to_vec s of (e, s') \<Rightarrow> (e, set_session s' v1)))
            else (None, v1))
      in (e, sync_terminal_signals (fst (snd clock)) (snd (snd clock)) v2))"

subsection \<open>The owner's operations together\<close>

text \<open>\<open>SWorld\<close> is what happens outside: signals raised, and the session's threads.\<close>

datatype supervisor_op =
    SWorld "terminal_signal list" "session \<Rightarrow> session"
  | SStart start_env
  | SClient millis millis
  | SState millis millis
  | SRequest "session \<Rightarrow> (agent_error + rpc_frame) \<times> session" "terminal_signal list"
      "(millis \<times> millis) \<times> (millis \<times> millis)"
  | SNextEvent "(millis \<times> millis) \<times> (millis \<times> millis)"
  | STakePump millis millis
  | SSchedule cleanup_outcome "(millis \<times> millis) \<times> (millis \<times> millis)"
  | SRestart "millis \<times> millis" millis start_env
  | SShutdown "(session \<Rightarrow> session) option" cleanup_outcome "(millis \<times> millis) \<times> (millis \<times> millis)"
  | SDrop cleanup_outcome

fun supervisor_step :: "(json \<Rightarrow> bytes option) \<Rightarrow> supervisor \<Rightarrow> supervisor_op \<Rightarrow> supervisor" where
  "supervisor_step to_vec v (SWorld raised go) =
     v\<lparr>su_signals := su_signals v @ raised, su_session := map_option go (su_session v)\<rparr>"
| "supervisor_step to_vec v (SStart en) = snd (supervisor_start to_vec en v)"
| "supervisor_step to_vec v (SClient n n') = snd (supervisor_client n n' v)"
| "supervisor_step to_vec v (SState n n') = snd (supervisor_state n n' v)"
| "supervisor_step to_vec v (SRequest wait raised clock) = snd (supervisor_request wait raised clock v)"
| "supervisor_step to_vec v (SNextEvent clock) = snd (supervisor_next_event to_vec clock v)"
| "supervisor_step to_vec v (STakePump n n') = snd (supervisor_take_event_pump n n' v)"
| "supervisor_step to_vec v (SSchedule c clock) = snd (schedule_restart to_vec c clock v)"
| "supervisor_step to_vec v (SRestart clock now en) = snd (supervisor_restart to_vec clock now en v)"
| "supervisor_step to_vec v (SShutdown farewell c clock) = snd (supervisor_shutdown to_vec farewell c clock v)"
| "supervisor_step to_vec v (SDrop c) = supervisor_drop to_vec c v"

text \<open>
  Between two operations the lifecycle is never starting or busy, a ready one has its process
  and session, an exited one owns nothing, and process and session come and go together.
\<close>

definition owners_ok :: "supervisor \<Rightarrow> bool" where
  "owners_ok v \<longleftrightarrow> (su_process v \<longleftrightarrow> su_session v \<noteq> None) \<and> (su_event_pump v \<longrightarrow> su_session v \<noteq> None)"

definition supervisor_ok :: "supervisor \<Rightarrow> bool" where
  "supervisor_ok v \<longleftrightarrow> owners_ok v \<and> lc_state (su_lifecycle v) \<notin> {LStarting, LBusy}
     \<and> (lc_state (su_lifecycle v) = LReady \<longrightarrow> su_session v \<noteq> None)
     \<and> (lc_state (su_lifecycle v) = LExited \<longrightarrow> \<not> owns_resources v)"

lemma owners_simps [simp]:
  "owners_ok (v\<lparr>su_lifecycle := m\<rparr>) = owners_ok v" "owners_ok (v\<lparr>su_signals := q\<rparr>) = owners_ok v"
  "owners_ok (v\<lparr>su_stopping := b\<rparr>) = owners_ok v" "owners_ok (v\<lparr>su_instance := i\<rparr>) = owners_ok v"
  "owns_resources (v\<lparr>su_lifecycle := m\<rparr>) = owns_resources v"
  "owns_resources (v\<lparr>su_signals := q\<rparr>) = owns_resources v"
  "owns_resources (v\<lparr>su_stopping := b\<rparr>) = owns_resources v"
  "owns_resources (v\<lparr>su_instance := i\<rparr>) = owns_resources v"
  by (simp_all add: owners_ok_def owns_resources_def)

lemma supervisor_ok_simps [simp]:
  "supervisor_ok (v\<lparr>su_signals := q\<rparr>) = supervisor_ok v"
  "supervisor_ok (v\<lparr>su_stopping := b\<rparr>) = supervisor_ok v"
  by (simp_all add: supervisor_ok_def)

lemma sync_signal_owners:
  "owners_ok v \<Longrightarrow> owners_ok (sync_signal n n' sig v)"
  "owns_resources (sync_signal n n' sig v) = owns_resources v"
  "su_session (sync_signal n n' sig v) = su_session v"
  by (simp_all add: sync_signal_def Let_def split: terminal_reason.split)

lemma record_crash_live:
  "lc_state m \<in> {LStarting, LReady, LBusy} \<Longrightarrow> lc_state (snd (record_crash (generation m) n n' m)) \<in> {LBackoff, LFaulted}"
  by (auto simp: record_crash_def Let_def)

text \<open>A signal moves a live lifecycle to backoff or fault, or an abandoned stop to its end.\<close>

lemma sync_signal_state:
  "lc_state (su_lifecycle (sync_signal n n' sig v)) = lc_state (su_lifecycle v)
   \<or> lc_state (su_lifecycle (sync_signal n n' sig v)) \<in> {LBackoff, LFaulted}
   \<or> (lc_state (su_lifecycle (sync_signal n n' sig v)) = LExited \<and> \<not> owns_resources v)"
  using record_crash_live [of "su_lifecycle v" n n']
  by (auto simp: sync_signal_def Let_def is_current_def mark_exited_def split: terminal_reason.split)

lemma sync_signal_ok: "supervisor_ok v \<Longrightarrow> supervisor_ok (sync_signal n n' sig v)"
  using sync_signal_state [of n n' sig v] sync_signal_owners(1) [of v n n' sig]
    sync_signal_owners(2,3) [of n n' sig v]
  by (auto simp: supervisor_ok_def)

lemma sync_ok: "supervisor_ok v \<Longrightarrow> supervisor_ok (sync_terminal_signals n n' v)"
  unfolding sync_terminal_signals_def
  by (rule fold_invariant [where Q = "\<lambda>_. True"]) (auto intro: sync_signal_ok)

text \<open>The same without the claim that the state is settled, for use inside an operation.\<close>

lemma sync_keeps:
  "su_session (sync_terminal_signals n n' v) = su_session v"
  "owners_ok v \<Longrightarrow> owners_ok (sync_terminal_signals n n' v)"
  "owns_resources (sync_terminal_signals n n' v) = owns_resources v"
proof -
  have *: "su_session (fold (sync_signal n n') sigs w) = su_session w
      \<and> (owners_ok w \<longrightarrow> owners_ok (fold (sync_signal n n') sigs w))
      \<and> owns_resources (fold (sync_signal n n') sigs w) = owns_resources w" for sigs w
    by (induction sigs arbitrary: w) (auto simp: sync_signal_owners)
  show "su_session (sync_terminal_signals n n' v) = su_session v"
    "owners_ok v \<Longrightarrow> owners_ok (sync_terminal_signals n n' v)"
    "owns_resources (sync_terminal_signals n n' v) = owns_resources v"
    using * [of "su_signals v" "v\<lparr>su_signals := []\<rparr>"] by (simp_all add: sync_terminal_signals_def)
qed

lemma cleanup_cases:
  assumes "cleanup_owner_until to_vec c v = (r, v')"
  shows "su_lifecycle v' = su_lifecycle v" and "su_signals v' = su_signals v"
    and "owners_ok v \<Longrightarrow> owners_ok v'"
    and "is_ok r \<Longrightarrow> \<not> owns_resources v'"
    and "\<not> is_ok r \<Longrightarrow> (su_session v' = None) = (su_session v = None)
      \<and> su_process v' = su_process v \<and> su_event_pump v' = su_event_pump v"
    and "\<not> owns_resources v \<Longrightarrow> \<not> owns_resources v'"
proof -
  define first where "first = (if su_session v \<noteq> None then co_join c else Inr ())"
  define second where "second = (if su_process v then co_terminate c else Inr ())"
  define v1 where "v1 = v\<lparr>su_session := map_option (\<lambda>s.
      detach_terminal_callback (close_until to_vec (is_ok (co_join c)) s)) (su_session v)\<rparr>"
  have step: "(r, v') = (case first of Inl e \<Rightarrow> (Inl e, v1)
      | Inr _ \<Rightarrow> (case second of Inl e \<Rightarrow> (Inl e, v1)
         | Inr _ \<Rightarrow> (Inr (), v1\<lparr>su_event_pump := False, su_session := None, su_process := False\<rparr>)))"
    unfolding assms [symmetric] cleanup_owner_until_def Let_def first_def second_def v1_def by (rule refl)
  consider "\<not> is_ok r" "v' = v1"
    | "is_ok r" "v' = v1\<lparr>su_event_pump := False, su_session := None, su_process := False\<rparr>"
    using step by (cases first; cases second) simp_all
  then have "su_lifecycle v' = su_lifecycle v \<and> su_signals v' = su_signals v
      \<and> (owners_ok v \<longrightarrow> owners_ok v') \<and> (is_ok r \<longrightarrow> \<not> owns_resources v')
      \<and> (\<not> is_ok r \<longrightarrow> (su_session v' = None) = (su_session v = None)
        \<and> su_process v' = su_process v \<and> su_event_pump v' = su_event_pump v)
      \<and> (\<not> owns_resources v \<longrightarrow> \<not> owns_resources v')"
    by cases (auto simp: owners_ok_def owns_resources_def v1_def)
  then show "su_lifecycle v' = su_lifecycle v" "su_signals v' = su_signals v"
    "owners_ok v \<Longrightarrow> owners_ok v'" "is_ok r \<Longrightarrow> \<not> owns_resources v'"
    "\<not> is_ok r \<Longrightarrow> (su_session v' = None) = (su_session v = None)
      \<and> su_process v' = su_process v \<and> su_event_pump v' = su_event_pump v"
    "\<not> owns_resources v \<Longrightarrow> \<not> owns_resources v'"
    by blast+
qed

subsection \<open>How a start ends\<close>

definition starting :: "nat \<Rightarrow> supervisor \<Rightarrow> bool" where
  "starting g v \<longleftrightarrow> owners_ok v \<and> su_process v \<and> lc_state (su_lifecycle v) = LStarting
     \<and> generation (su_lifecycle v) = g"

definition start_result :: "nat \<Rightarrow> agent_error + unit \<Rightarrow> supervisor \<Rightarrow> bool" where
  "start_result g r v \<longleftrightarrow> owners_ok v \<and> generation (su_lifecycle v) = g
     \<and> (case r of
          Inl _ \<Rightarrow> lc_state (su_lifecycle v) \<in> {LFaulted, LIncompatible}
        | Inr _ \<Rightarrow> lc_state (su_lifecycle v) = LReady
            \<and> (\<exists>s i. su_session v = Some s \<and> s_ready_consumed s \<and> \<not> s_closed s
                 \<and> su_instance v = Some i \<and> valid_schema_id i ''srv_'' 101))"

lemma starting_set [simp]:
  "starting g v \<Longrightarrow> starting g (set_session s v)"
  "starting g (v\<lparr>su_instance := i\<rparr>) = starting g v"
  "starting g v \<Longrightarrow> starting g (v\<lparr>su_event_pump := True\<rparr>)"
  "su_instance (set_session s v) = su_instance v"
  "su_lifecycle (set_session s v) = su_lifecycle v"
  by (auto simp: starting_def set_session_def owners_ok_def)

lemma fail_result:
  assumes "starting g v"
  shows "start_result g (Inl e) (fail_generation to_vec c g v)"
    and "start_result g (Inl e) (fail_incompatible to_vec c g v)"
proof -
  obtain r v' where c: "cleanup_owner_until to_vec c v = (r, v')" by fastforce
  show "start_result g (Inl e) (fail_generation to_vec c g v)"
    "start_result g (Inl e) (fail_incompatible to_vec c g v)"
    using assms cleanup_cases(1,3) [OF c]
    by (simp_all add: start_result_def fail_generation_def fail_incompatible_def
        fail_process_only_def c starting_def mark_faulted_def mark_incompatible_def)
qed

lemma promotion_done:
  assumes "with_ready_promotion f (Inr ()) s = (Inr w, s')"
  shows "s_ready_consumed s' \<and> \<not> s_closed s'"
  using assms
  by (auto simp: with_ready_promotion_def ready_after_barrier_def
      split: if_splits option.splits prod.splits)

lemma promote_result:
  assumes "starting g v" and "su_instance v = Some i" and "valid_schema_id i ''srv_'' 101"
    and "promote_ready to_vec c g now f s v = (r, v')"
  shows "start_result g r v'"
proof (cases "is_ready_notification f (su_instance v)")
  case True
  have ready: "mark_ready g now (su_lifecycle v)
      = Inr ((su_lifecycle v)\<lparr>lc_state := LReady, ready_since := Some now\<rparr>)"
    using assms(1) by (simp add: starting_def mark_ready_def)
  obtain q s' where p: "with_ready_promotion f (Inr ()) s = (q, s')" by fastforce
  show ?thesis
  proof (cases q)
    case (Inl e)
    then show ?thesis
      using assms(4) True p fail_result(1) [OF starting_set(1) [OF assms(1)]]
      by (auto simp: promote_ready_def ready)
  next
    case (Inr w)
    then have "r = Inr ()" "v' = set_session s' (v\<lparr>su_lifecycle :=
        (su_lifecycle v)\<lparr>lc_state := LReady, ready_since := Some now\<rparr>\<rparr>)"
      using assms(4) True p by (simp_all add: promote_ready_def ready)
    then show ?thesis
      using assms(1,2,3) promotion_done [of f s w s'] p Inr
      by (auto simp: start_result_def starting_def set_session_def owners_ok_def)
  qed
next
  case False
  then show ?thesis
    using assms(4) fail_result(1) [OF starting_set(1) [OF assms(1)]]
    by (auto simp: promote_ready_def)
qed

lemma await_result:
  assumes "starting g v" and "su_instance v = Some i" and "valid_schema_id i ''srv_'' 101"
    and "await_ready to_vec c g now moves s v = (r, v')"
  shows "start_result g r v'"
  using assms(4)
proof (induction moves arbitrary: s)
  case Nil
  then show ?case using fail_result(1) [OF starting_set(1) [OF assms(1)]] by auto
next
  case (Cons move moves)
  note failed = fail_result(1) [OF starting_set(1) [OF assms(1)]]
  obtain e s1 where n: "next_event to_vec (move s) = (e, s1)" by fastforce
  show ?case
  proof (cases e)
    case None
    then show ?thesis using Cons.prems n failed by auto
  next
    case (Some ev)
    show ?thesis
    proof (cases "\<exists>f. ev = NotificationEvent f \<and> is_runtime_ready_notification f")
      case True
      then show ?thesis
        using Cons.prems n Some promote_result [OF assms(1,2,3)] by auto
    next
      case False
      then show ?thesis
        using Cons.prems n Some failed Cons.IH by (cases ev) auto
    qed
  qed
qed

lemma check_result_instance:
  "check_initialize_result j v = Inr i \<Longrightarrow> valid_schema_id i ''srv_'' 101"
  by (auto simp: check_initialize_result_def result_iff split: if_splits)

lemma after_initialize_result:
  assumes "starting g v" and "after_initialize to_vec en g f s v = (r, v')"
  shows "start_result g r v'"
proof (cases "frame_error f")
  case (Some e)
  then show ?thesis
    using assms(2) fail_result [OF assms(1)]
    by (cases "error_is_incompatible (err_code e) (err_data e)") (auto simp: after_initialize_def)
next
  case None
  let ?check = "and_then (ok_or (present_value (frame_result f)) ProtocolFault)
      (\<lambda>r. check_initialize_result r v)"
  show ?thesis
  proof (cases ?check)
    case (Inl e)
    then show ?thesis
      using assms(2) None fail_result [OF assms(1)]
      by (cases "e = Incompatible") (auto simp: after_initialize_def initialize_failure_def)
  next
    case (Inr i)
    then have i: "valid_schema_id i ''srv_'' 101"
      by (auto simp: result_iff dest: check_result_instance)
    let ?v = "v\<lparr>su_instance := Some i\<rparr>"
    have st: "starting g ?v" using assms(1) by simp
    show ?thesis
    proof (cases "initialized_params s")
      case (Inl e)
      then show ?thesis
        using assms(2) None Inr fail_result(1) [OF st] by (auto simp: after_initialize_def Let_def)
    next
      case (Inr params)
      obtain q s1 where q: "notify_inner to_vec None ''initialized'' params s = (q, s1)" by fastforce
      show ?thesis
      proof (cases q)
        case (Inl e)
        then show ?thesis
          using assms(2) None Inr q \<open>?check = Inr i\<close> fail_result(1) [OF starting_set(1) [OF st]]
          by (auto simp: after_initialize_def Let_def)
      next
        case (Inr w)
        then have "await_ready to_vec (st_cleanup en) g (st_ready_at en) (st_turns en) s1 ?v = (r, v')"
          using assms(2) None q \<open>?check = Inr i\<close> \<open>initialized_params s = Inr params\<close>
          by (simp add: after_initialize_def Let_def)
        then show ?thesis using await_result [OF st _ i] by simp
      qed
    qed
  qed
qed

lemma start_session_result:
  assumes "starting g v" and "start_session to_vec en g s v = (r, v')"
  shows "start_result g r v'"
proof -
  note st = starting_set(1) [OF assms(1)]
  note stp = starting_set(1) [OF starting_set(3) [OF assms(1)]]
  show ?thesis
    using assms(2) fail_result(1) [OF st] fail_result(1) [OF stp] after_initialize_result [OF stp]
    by (auto simp: start_session_def Let_def split: sum.splits prod.splits if_splits)
qed

lemma start_generation_result:
  assumes "owners_ok v" and "\<not> owns_resources v" and "start_generation to_vec en v = (r, v')"
  shows "(\<exists>e. r = Inl e) \<and> v' = v \<or> start_result (next_generation (generation (su_lifecycle v))) r v'"
proof (cases "begin_start (fst (st_begin en)) (snd (st_begin en)) (su_lifecycle v)")
  case (Inl e)
  then show ?thesis using assms(3) by (auto simp: start_generation_def)
next
  case (Inr gm)
  obtain g m where gm: "gm = (g, m)" by fastforce
  have m: "g = next_generation (generation (su_lifecycle v))" "generation m = g" "lc_state m = LStarting"
    using Inr gm by (auto simp: begin_start_def Let_def result_iff)
  let ?v = "v\<lparr>su_lifecycle := m, su_instance := None\<rparr>"
  have "\<not> su_process v" "su_session v = None" using assms(2) by (auto simp: owns_resources_def)
  then have st: "starting g (set_session s (?v\<lparr>su_process := True\<rparr>))" for s
    using assms(1) m by (simp add: starting_def set_session_def owners_ok_def)
  show ?thesis
  proof (cases "st_spawn en g")
    case (Inl e)
    then show ?thesis
      using assms(1,3) Inr gm m
      by (auto simp: start_generation_def Let_def start_result_def mark_faulted_def)
  next
    case (Inr s0)
    then have "start_session to_vec en g s0 (set_session s0 (?v\<lparr>su_process := True\<rparr>)) = (r, v')"
      using assms(3) \<open>begin_start _ _ _ = Inr gm\<close> gm by (simp add: start_generation_def Let_def)
    from start_session_result [OF st this] show ?thesis using m(1) by simp
  qed
qed

lemma start_generation_refused:
  assumes "lc_state (su_lifecycle v) \<notin> {LExited, LBackoff}" and "start_generation to_vec en v = (r, v')"
  shows "(\<exists>e. r = Inl e) \<and> v' = v"
  using assms
  by (cases "lc_state (su_lifecycle v)") (auto simp: start_generation_def begin_start_def)

text \<open>A start either leaves the settled state it found, or ends its own generation's handshake.\<close>

lemma supervisor_start_result:
  assumes "supervisor_ok v" and "supervisor_start to_vec en v = (r, v')"
  shows "((\<exists>e. r = Inl e) \<and> supervisor_ok v' \<and> su_lifecycle v' = su_lifecycle
         (sync_terminal_signals (fst (st_sync en)) (snd (st_sync en)) v))
    \<or> start_result (next_generation (generation (su_lifecycle
         (sync_terminal_signals (fst (st_sync en)) (snd (st_sync en)) v)))) r v'"
proof -
  let ?v = "(sync_terminal_signals (fst (st_sync en)) (snd (st_sync en)) v)\<lparr>su_stopping := False\<rparr>"
  have ok: "supervisor_ok ?v" using sync_ok [OF assms(1)] by simp
  then have own: "owners_ok ?v" by (simp only: supervisor_ok_def)
  show ?thesis
  proof (cases "lc_state (su_lifecycle ?v) \<in> {LExited, LBackoff} \<and> (su_process ?v \<or> su_session ?v \<noteq> None)")
    case True
    obtain q w where c: "cleanup_owner_until to_vec (st_pre_cleanup en) ?v = (q, w)" by fastforce
    have w: "fail_process_only to_vec (st_pre_cleanup en) ?v = w" by (simp add: fail_process_only_def c)
    have ow: "owners_ok w" "su_lifecycle w = su_lifecycle ?v" using cleanup_cases(1,3) [OF c] own by auto
    have okw: "supervisor_ok w"
      using ok True ow cleanup_cases(6) [OF c] by (auto simp: supervisor_ok_def)
    show ?thesis
    proof (cases "owns_resources w")
      case owns: True
      then show ?thesis
        using assms(2) True okw ow(2) unfolding supervisor_start_def Let_def if_P [OF True] w by auto
    next
      case False
      then have "start_generation to_vec en w = (r, v')"
        using assms(2) unfolding supervisor_start_def Let_def if_P [OF True] w by simp
      from start_generation_result [OF ow(1) False this] show ?thesis
        using okw ow(2) by auto
    qed
  next
    case False
    then have g: "start_generation to_vec en ?v = (r, v')"
      using assms(2) unfolding supervisor_start_def Let_def if_not_P [OF False] by simp
    show ?thesis
    proof (cases "lc_state (su_lifecycle ?v) \<in> {LExited, LBackoff}")
      case True
      then have "\<not> owns_resources ?v"
        using False own unfolding owns_resources_def owners_ok_def by blast
      from start_generation_result [OF own this g] show ?thesis using ok by auto
    next
      case other: False
      from start_generation_refused [OF other g] show ?thesis using ok by simp
    qed
  qed
qed

lemma start_result_ok: "start_result g r v \<Longrightarrow> supervisor_ok v"
  by (auto simp: start_result_def supervisor_ok_def split: sum.splits)

lemma start_ok: "supervisor_ok v \<Longrightarrow> supervisor_ok (snd (supervisor_start to_vec en v))"
  using supervisor_start_result [of v to_vec en] start_result_ok
  by (metis prod.collapse)

lemma request_ok:
  assumes "supervisor_ok v"
  shows "supervisor_ok (snd (supervisor_request wait raised clock v))"
proof -
  let ?v = "sync_terminal_signals (fst (fst clock)) (snd (fst clock)) v"
  have ok: "supervisor_ok ?v" by (rule sync_ok [OF assms])
  show ?thesis
  proof (cases "su_stopping ?v \<or> lc_state (su_lifecycle ?v) \<noteq> LReady")
    case True
    then show ?thesis using ok by (auto simp: supervisor_request_def Let_def)
  next
    case False
    then obtain s where s: "su_session ?v = Some s"
      using ok by (auto simp: supervisor_ok_def)
    obtain r s' where w: "wait s = (r, s')" by fastforce
    let ?w = "(set_session s' (?v\<lparr>su_lifecycle := (su_lifecycle ?v)\<lparr>lc_state := LBusy\<rparr>\<rparr>))
        \<lparr>su_signals := su_signals ?v @ raised\<rparr>"
    have "supervisor_ok (?w\<lparr>su_lifecycle := (su_lifecycle ?v)\<lparr>lc_state := LReady\<rparr>\<rparr>)"
      using ok s by (auto simp: supervisor_ok_def set_session_def owners_ok_def)
    then have "supervisor_ok (sync_terminal_signals (fst (snd clock)) (snd (snd clock))
        (?w\<lparr>su_lifecycle := (su_lifecycle ?v)\<lparr>lc_state := LReady\<rparr>\<rparr>))" by (rule sync_ok)
    then show ?thesis
      using False s w
      by (simp add: supervisor_request_def Let_def mark_busy_def mark_ready_again_def set_session_def)
  qed
qed

lemma next_event_ok:
  assumes "supervisor_ok v"
  shows "supervisor_ok (snd (supervisor_next_event to_vec clock v))"
proof -
  let ?v = "sync_terminal_signals (fst (fst clock)) (snd (fst clock)) v"
  have ok: "supervisor_ok ?v" by (rule sync_ok [OF assms])
  then have "su_session ?v = Some s \<Longrightarrow> supervisor_ok (set_session s' ?v)" for s s'
    by (auto simp: supervisor_ok_def set_session_def owners_ok_def owns_resources_def)
  with ok show ?thesis
    by (auto simp: supervisor_next_event_def Let_def intro!: sync_ok split: prod.split option.split)
qed

lemma cleanup_ok:
  assumes "owners_ok v" and "lc_state (su_lifecycle v) \<in> {LStopping, LBackoff, LFaulted, LIncompatible}
      \<or> (lc_state (su_lifecycle v) = LExited \<and> \<not> owns_resources v)"
  shows "supervisor_ok (fail_process_only to_vec c v)"
proof -
  obtain q w where c: "cleanup_owner_until to_vec c v = (q, w)" by fastforce
  show ?thesis
    using assms cleanup_cases(1,3,6) [OF c] by (auto simp: fail_process_only_def c supervisor_ok_def)
qed

lemma record_crash_settles:
  "lc_state m \<notin> {LStarting, LBusy} \<Longrightarrow> record_crash (generation m) n n' m = (st, m')
    \<Longrightarrow> lc_state m' \<in> {LStopping, LBackoff, LFaulted, LIncompatible}
      \<or> (lc_state m' = LExited \<and> lc_state m = LExited)"
  by (cases "lc_state m") (auto simp: record_crash_def Let_def split: if_splits)

lemma schedule_ok:
  assumes "supervisor_ok v"
  shows "supervisor_ok (snd (schedule_restart to_vec c clock v))"
proof -
  let ?v = "sync_terminal_signals (fst (fst clock)) (snd (fst clock)) v"
  have ok: "supervisor_ok ?v" by (rule sync_ok [OF assms])
  obtain st m where r: "record_crash (generation (su_lifecycle ?v)) (fst (snd clock)) (snd (snd clock))
      (su_lifecycle ?v) = (st, m)" by fastforce
  have "supervisor_ok (fail_process_only to_vec c (?v\<lparr>su_lifecycle := m\<rparr>))"
    using record_crash_settles [OF _ r] ok by (intro cleanup_ok) (auto simp: supervisor_ok_def)
  then show ?thesis by (simp add: schedule_restart_def Let_def r)
qed

lemma mark_exited_ok:
  assumes "owners_ok v" and "\<not> owns_resources v" and "lc_state (su_lifecycle v) \<notin> {LStarting, LBusy, LReady}"
  shows "supervisor_ok (on_lifecycle (\<lambda>m. snd (mark_exited g m)) v)"
  using assms by (auto simp: supervisor_ok_def mark_exited_def)

lemma shutdown_ok:
  assumes "supervisor_ok v"
  shows "supervisor_ok (snd (supervisor_shutdown to_vec farewell c clock v))"
proof -
  let ?v = "sync_terminal_signals (fst (fst clock)) (snd (fst clock)) (v\<lparr>su_stopping := True\<rparr>)"
  have ok: "supervisor_ok ?v" using assms by (intro sync_ok) simp
  let ?m = "su_lifecycle ?v"
  let ?active = "lc_state ?m \<in> {LStarting, LReady, LBusy}"
  show ?thesis
  proof (cases "\<not> ?active \<and> lc_state ?m \<noteq> LStopping \<and> \<not> owns_resources ?v")
    case True
    then show ?thesis using ok by (simp add: supervisor_shutdown_def Let_def)
  next
    case False
    define m' where "m' = (if ?active then ?m\<lparr>lc_state := LStopping\<rparr> else ?m)"
    define v3 where "v3 = (case farewell of
        Some go \<Rightarrow> if ?active then (?v\<lparr>su_lifecycle := m'\<rparr>)
            \<lparr>su_session := map_option go (su_session (?v\<lparr>su_lifecycle := m'\<rparr>))\<rparr>
          else ?v\<lparr>su_lifecycle := m'\<rparr>
      | None \<Rightarrow> ?v\<lparr>su_lifecycle := m'\<rparr>)"
    have stop: "(if ?active then begin_stop (generation ?m) ?m else Inr ?m) = Inr m'"
      by (simp add: m'_def begin_stop_def)
    obtain q w where c: "cleanup_owner_until to_vec c v3 = (q, w)" by fastforce
    have state: "su_lifecycle v3 = m'" by (simp add: v3_def split: option.split)
    have settled: "lc_state m' \<notin> {LStarting, LBusy, LReady}"
      using ok by (auto simp: m'_def supervisor_ok_def)
    have exited: "lc_state m' \<noteq> LExited"
      using False ok by (auto simp: m'_def supervisor_ok_def)
    have own: "owners_ok v3"
      using ok by (auto simp: v3_def supervisor_ok_def owners_ok_def split: option.split)
    then have w: "owners_ok w" "su_lifecycle w = m'" using cleanup_cases(1,3) [OF c] state by auto
    then have okw: "supervisor_ok w" using settled exited by (auto simp: supervisor_ok_def)
    have res: "supervisor_shutdown to_vec farewell c clock v = (case q of Inl e \<Rightarrow> (Inl e, w)
        | Inr _ \<Rightarrow> (Inr (), on_lifecycle (\<lambda>m. snd (mark_exited (generation ?m) m))
            (sync_terminal_signals (fst (snd clock)) (snd (snd clock)) w)))"
      unfolding supervisor_shutdown_def Let_def if_not_P [OF False] stop sum.case
        v3_def [symmetric] c prod.case by (rule refl)
    show ?thesis
    proof (cases q)
      case (Inl e)
      then show ?thesis using okw res by simp
    next
      case (Inr u)
      let ?s = "sync_terminal_signals (fst (snd clock)) (snd (snd clock)) w"
      have s: "supervisor_ok ?s" by (rule sync_ok [OF okw])
      have none: "\<not> owns_resources ?s" using cleanup_cases(4) [OF c] Inr sync_keeps(3) by simp
      then have "su_session ?s = None" by (simp add: owns_resources_def)
      then have "lc_state (su_lifecycle ?s) \<notin> {LStarting, LBusy, LReady}"
        using s by (auto simp: supervisor_ok_def)
      then have "supervisor_ok (on_lifecycle (\<lambda>m. snd (mark_exited (generation ?m) m)) ?s)"
        using s none by (intro mark_exited_ok) (auto simp: supervisor_ok_def)
      then show ?thesis using res Inr by simp
    qed
  qed
qed

lemma drop_ok:
  assumes "supervisor_ok v"
  shows "supervisor_ok (supervisor_drop to_vec c v)"
proof -
  obtain q w where c: "cleanup_owner_until to_vec c (v\<lparr>su_stopping := True\<rparr>) = (q, w)" by fastforce
  have v: "supervisor_ok (v\<lparr>su_stopping := True\<rparr>)" using assms by simp
  have w: "owners_ok w" "su_lifecycle w = su_lifecycle v"
    using cleanup_cases(1,3) [OF c] v by (auto simp: supervisor_ok_def)
  show ?thesis
  proof (cases "owns_resources w")
    case True
    then have "\<not> is_ok q" using cleanup_cases(4) [OF c] by blast
    then have "supervisor_ok w"
      using cleanup_cases(5,6) [OF c] w True assms by (auto simp: supervisor_ok_def)
    then show ?thesis using True by (simp add: supervisor_drop_def fail_process_only_def c)
  next
    case False
    have "supervisor_ok (on_lifecycle (\<lambda>m. snd (mark_exited (generation (su_lifecycle w)) m)) w)"
      using w False assms by (auto simp: supervisor_ok_def mark_exited_def)
    then show ?thesis using False by (simp add: supervisor_drop_def fail_process_only_def c Let_def)
  qed
qed

lemma supervisor_step_ok:
  assumes "supervisor_ok v"
  shows "supervisor_ok (supervisor_step to_vec v x)"
proof (cases x)
  case (SWorld raised go)
  then show ?thesis using assms by (auto simp: supervisor_ok_def owners_ok_def owns_resources_def)
next
  case (STakePump n n')
  then show ?thesis
    using sync_ok [OF assms, of n n']
    by (auto simp: supervisor_take_event_pump_def Let_def supervisor_ok_def owners_ok_def
        owns_resources_def)
next
  case (SRestart clock now en)
  have "supervisor_ok ((sync_terminal_signals (fst clock) (snd clock) v)\<lparr>su_stopping := False\<rparr>)"
    using sync_ok [OF assms] by simp
  then show ?thesis
    using SRestart start_ok sync_ok [OF assms] by (simp add: supervisor_restart_def Let_def)
qed (use assms in \<open>simp_all add: start_ok request_ok next_event_ok schedule_ok shutdown_ok drop_ok
      supervisor_client_def supervisor_state_def sync_ok Let_def\<close>)

interpretation supervisor: stepping "supervisor_step to_vec" supervisor_ok for to_vec
  by unfold_locales (rule supervisor_step_ok)

lemma supervisor_new_ok: "supervisor_new params l p = Inr v \<Longrightarrow> supervisor_ok v"
  by (auto simp: supervisor_new_def lifecycle_new_def result_iff supervisor_ok_def owners_ok_def
      owns_resources_def)

subsection \<open>Properties\<close>

text \<open>
  C6. Between operations, however starts, requests, crashes, failed cleanups, restarts and
  shutdowns interleave, the supervisor is settled: never left starting or busy, ready only with
  its process and session, exited only when nothing is owned any more; and a client is handed
  out only for the ready generation and is that generation's session.
\<close>

theorem supervisor_settled:
  assumes "supervisor_new params l p = Inr v0" and "v = foldl (supervisor_step to_vec) v0 xs"
  shows "lc_state (su_lifecycle v) \<notin> {LStarting, LBusy}
    \<and> (lc_state (su_lifecycle v) = LReady \<longrightarrow> su_process v \<and> su_session v \<noteq> None)
    \<and> (lc_state (su_lifecycle v) = LExited \<longrightarrow> \<not> owns_resources v)
    \<and> (\<forall>n n' s g v'. supervisor_client n n' v = (Inr (s, g), v') \<longrightarrow>
         lc_state (su_lifecycle v') = LReady \<and> g = generation (su_lifecycle v')
         \<and> su_session v' = Some s \<and> \<not> su_stopping v')"
proof -
  have ok: "supervisor_ok v"
    unfolding assms(2) by (rule supervisor.run_inv [OF supervisor_new_ok [OF assms(1)]])
  have "lc_state (su_lifecycle v') = LReady \<and> g = generation (su_lifecycle v')
      \<and> su_session v' = Some s \<and> \<not> su_stopping v'"
    if "supervisor_client n n' v = (Inr (s, g), v')" for n n' s g v'
    using that sync_ok [OF ok, of n n']
    by (auto simp: supervisor_client_def Let_def supervisor_ok_def result_iff split: if_splits)
  with ok show ?thesis by (auto simp: supervisor_ok_def owners_ok_def)
qed

text \<open>
  A start that returns success has made its own, new generation ready, with an open session
  whose ready notification was consumed and a valid server instance; a start that returns an
  error either left the lifecycle where the pending signals had put it, or has given its new
  generation up as faulted or incompatible. No failing handshake leaves a generation that looks
  alive.
\<close>

theorem supervisor_start_outcome:
  assumes "supervisor_ok v" and "supervisor_start to_vec en v = (r, v')"
    and "m = su_lifecycle (sync_terminal_signals (fst (st_sync en)) (snd (st_sync en)) v)"
  shows "case r of
       Inr _ \<Rightarrow> lc_state (su_lifecycle v') = LReady
         \<and> generation (su_lifecycle v') = next_generation (generation m)
         \<and> (\<exists>s i. su_session v' = Some s \<and> s_ready_consumed s \<and> \<not> s_closed s
              \<and> su_instance v' = Some i \<and> valid_schema_id i ''srv_'' 101)
     | Inl _ \<Rightarrow> su_lifecycle v' = m
         \<or> (lc_state (su_lifecycle v') \<in> {LFaulted, LIncompatible}
            \<and> generation (su_lifecycle v') = next_generation (generation m))"
  using supervisor_start_result [OF assms(1,2)]
  by (auto simp: start_result_def assms(3) split: sum.splits)

definition sample_supervisor :: supervisor where
  "sample_supervisor = \<lparr>su_initialize_params = JNull, su_limits = default_limits,
     su_lifecycle = \<lparr>lc_state = LExited, generation = 0, restart_attempt = 0, next_retry = None,
       ready_since = None, policy = default_policy\<rparr>,
     su_process = False, su_session = None, su_event_pump = False, su_instance = None,
     su_signals = [], su_stopping = False\<rparr>"

definition sample_start :: start_env where
  "sample_start = \<lparr>st_sync = (0, 0),
     st_pre_cleanup = \<lparr>co_join = Inr (), co_terminate = Inr ()\<rparr>, st_begin = (0, 0),
     st_spawn = (\<lambda>_. Inr sample_session), st_random = None, st_late = False,
     st_initialize = (\<lambda>s. (Inl SessionClosed, s)), st_turns = [], st_ready_at = 0,
     st_cleanup = \<lparr>co_join = Inl ShutdownTimeout, co_terminate = Inr ()\<rparr>\<rparr>"

lemma sample_supervisor_new: "supervisor_new JNull default_limits default_policy = Inr sample_supervisor"
  by (simp add: supervisor_new_def lifecycle_new_def policy_validate_def default_policy_def
      sample_supervisor_def nanos_per_milli_def nanos_per_sec_def)

theorem supervisor_settled_witness:
  "lc_state (su_lifecycle (foldl (supervisor_step sample_to_vec) sample_supervisor
     [SStart sample_start, SShutdown None \<lparr>co_join = Inr (), co_terminate = Inr ()\<rparr> ((0, 0), (0, 0))]))
     \<notin> {LStarting, LBusy}"
  using supervisor_settled [OF sample_supervisor_new refl] by blast

theorem supervisor_start_outcome_witness:
  "\<exists>v'. supervisor_start sample_to_vec sample_start sample_supervisor = (Inl AHandshakeFailed, v')
     \<and> lc_state (su_lifecycle v') \<in> {LFaulted, LIncompatible}
     \<and> generation (su_lifecycle v') = 1 \<and> su_process v'"
proof -
  obtain r v' where st: "supervisor_start sample_to_vec sample_start sample_supervisor = (r, v')" by fastforce
  then have r: "r = Inl AHandshakeFailed" and p: "su_process v'" and l: "lc_state (su_lifecycle v') = LFaulted"
    by (auto simp: supervisor_start_def sample_start_def sample_supervisor_def sample_session_def
        sync_terminal_signals_def start_generation_def begin_start_def start_session_def
        take_event_pump_def generate_ready_token_def fail_generation_def fail_process_only_def
        cleanup_owner_until_def set_session_def mark_faulted_def Let_def)
  have "supervisor_ok sample_supervisor" by (rule supervisor_new_ok [OF sample_supervisor_new])
  from supervisor_start_outcome [OF this st refl] r l p st show ?thesis
    by (auto simp: sample_supervisor_def sample_start_def sync_terminal_signals_def next_generation_def)
qed

end
