(* ===== verification/Ja_Settings_Model.thy ===== *)
theory Ja_Settings_Model
  imports Ja_Codec
begin

text \<open>
  The persisted settings (\<open>settings/model.rs\<close>): the document, its profiles and MCP servers, and
  the validation every load, save and configuration goes through. \<open>parse_url\<close> stands for the
  \<open>url\<close> crate's parser. A \<open>BTreeMap\<close> is the association list of its entries in key order.
\<close>

subsection \<open>Data\<close>

datatype settings_model_error =
    InvalidCredentialRef | InvalidText | InvalidUrl | InvalidWindowSize | TooManyEntries
  | UnsupportedProtocol | UnsupportedSchema

fun show_model_error :: "settings_model_error \<Rightarrow> str" where
  "show_model_error InvalidCredentialRef = ''invalid credential reference''"
| "show_model_error InvalidText = ''invalid settings text''"
| "show_model_error InvalidUrl = ''invalid provider URL''"
| "show_model_error InvalidWindowSize = ''invalid window size''"
| "show_model_error TooManyEntries = ''too many settings entries''"
| "show_model_error UnsupportedProtocol = ''settings protocol is not available in this release''"
| "show_model_error UnsupportedSchema = ''unsupported settings schema''"

datatype api_protocol = AnthropicMessages | OpenAiChatCompletions | OpenAiResponses
datatype access_mode = AmReadOnly | AmWorkspace | AmFullAccess
datatype mcp_auth_kind = AkNone | AkBearer | AkHeader | AkEnv
datatype theme_preference = ThSystem | ThLight | ThDark

type_synonym credential_ref = str
type_synonym str_map = "(str \<times> str) list"

record mcp_auth_setting =
  au_kind :: mcp_auth_kind
  au_name :: "str option"
  au_credential_ref :: "credential_ref option"

record profile_setting =
  pr_revision :: str
  pr_name :: str
  pr_provider :: str
  pr_protocol :: api_protocol
  pr_model :: str
  pr_base_url :: "str option"
  pr_credential_ref :: "credential_ref option"
  pr_supports_vision :: bool
  pr_access_mode :: access_mode
  pr_skill_revisions :: "str list"
  pr_mcp_revisions :: "str list option"

record mcp_server_setting =
  mc_revision :: str
  mc_name :: str
  mc_transport :: str
  mc_endpoint :: str
  mc_protocol_version :: str
  mc_args :: "str list"
  mc_env :: str_map
  mc_headers :: str_map
  mc_query_params :: str_map
  mc_auth :: "mcp_auth_setting option"
  mc_credential_ref :: "credential_ref option"
  mc_enabled :: bool

record window_settings =
  win_width :: nat
  win_height :: nat
  win_maximized :: bool

record settings_document =
  sd_schema_version :: nat
  sd_revision :: nat
  sd_theme :: theme_preference
  sd_active_profile_revision :: "str option"
  sd_profiles :: "profile_setting list"
  sd_mcp_servers :: "mcp_server_setting list"
  sd_window :: window_settings

record url =
  url_scheme :: str
  url_username :: str
  url_password :: "str option"
  url_query :: "str option"
  url_fragment :: "str option"

definition settings_schema_version :: nat where "settings_schema_version = 1"
definition max_profiles :: nat where "max_profiles = 128"
definition max_mcp_servers :: nat where "max_mcp_servers = 128"
definition max_settings_string :: nat where "max_settings_string = 512"

definition default_window :: window_settings where
  "default_window = \<lparr>win_width = 1280, win_height = 820, win_maximized = False\<rparr>"

definition default_document :: settings_document where
  "default_document = \<lparr>sd_schema_version = settings_schema_version, sd_revision = 0,
     sd_theme = ThSystem, sd_active_profile_revision = None, sd_profiles = [],
     sd_mcp_servers = [], sd_window = default_window\<rparr>"

subsection \<open>Identifiers and text\<close>

definition revision_byte :: "char \<Rightarrow> bool" where
  "revision_byte c \<longleftrightarrow> is_ascii_alphanumeric c \<or> c \<in> {CHR ''.'', CHR ''_'', CHR ''-''}"

definition credential_parse :: "str \<Rightarrow> settings_model_error + credential_ref" where
  "credential_parse v =
     (if 100 < length v \<or> \<not> starts_with v ''cred_'' \<or> length v \<le> 5
         \<or> \<not> list_all revision_byte (drop 5 v)
      then Inl InvalidCredentialRef else Inr v)"

definition validate_text :: "str \<Rightarrow> settings_model_error + unit" where
  "validate_text v =
     (if v = [] \<or> max_settings_string < length v \<or> has_control v then Inl InvalidText else Inr ())"

definition validate_url :: "(str \<Rightarrow> url option) \<Rightarrow> str \<Rightarrow> settings_model_error + unit" where
  "validate_url parse_url v =
     (if max_settings_string < length v then Inl InvalidUrl
      else and_then (ok_or (parse_url v) InvalidUrl) (\<lambda>u.
        if url_scheme u \<notin> {''http'', ''https''} \<or> url_username u \<noteq> [] \<or> url_password u \<noteq> None
           \<or> url_query u \<noteq> None \<or> url_fragment u \<noteq> None
        then Inl InvalidUrl else Inr ()))"

definition revision_shape :: "str \<Rightarrow> str \<Rightarrow> bool" where
  "revision_shape v pre \<longleftrightarrow>
     length pre + 1 \<le> length v \<and> length v \<le> 128 \<and> starts_with v pre
     \<and> list_all revision_byte (drop (length pre) v)"

fun check_revisions :: "str \<Rightarrow> str set \<Rightarrow> str list \<Rightarrow> settings_model_error + unit" where
  "check_revisions pre seen [] = Inr ()"
| "check_revisions pre seen (v # vs) =
     (if \<not> revision_shape v pre \<or> v \<in> seen then Inl InvalidText
      else check_revisions pre (insert v seen) vs)"

definition validate_revision_list :: "str list \<Rightarrow> str \<Rightarrow> settings_model_error + unit" where
  "validate_revision_list vs pre =
     (if 128 < length vs then Inl TooManyEntries else check_revisions pre {} vs)"

definition validate_revision_identifier :: "str \<Rightarrow> str \<Rightarrow> settings_model_error + unit" where
  "validate_revision_identifier v pre =
     (if \<not> revision_shape v pre then Inl InvalidText else Inr ())"

subsection \<open>Secrets in plain text\<close>

definition sensitive_keys :: "str list" where
  "sensitive_keys = [''api_key'', ''apikey'', ''access_token'', ''accesstoken'', ''authorization'',
     ''credential'', ''password'', ''secret'', ''token'']"

definition contains_sensitive_config_key :: "str \<Rightarrow> bool" where
  "contains_sensitive_config_key v =
     list_ex (contains_str (to_ascii_lowercase v)) sensitive_keys"

definition sensitive_assignments :: "str list" where
  "sensitive_assignments = [''token:'', ''token='', ''secret:'', ''secret='', ''password:'',
     ''password='', ''apikey:'', ''apikey='', ''authorization:'', ''authorization='', ''bearer:'']"

definition normalized_text :: "str \<Rightarrow> str" where
  "normalized_text v = to_ascii_lowercase
     (filter (\<lambda>c. is_ascii_alphanumeric c \<or> c \<in> {CHR '':'', CHR ''=''}) v)"

definition contains_sensitive_text :: "str \<Rightarrow> bool" where
  "contains_sensitive_text v =
     (list_ex (contains_str (normalized_text v)) sensitive_assignments
      \<or> contains_str (normalized_text v) ''apikey'')"

definition validate_mcp_value :: "str \<Rightarrow> settings_model_error + unit" where
  "validate_mcp_value v =
     (if v = [] \<or> 4096 < length v \<or> CHR 0x00 \<in> set v \<or> has_control v
         \<or> contains_sensitive_text v
      then Inl InvalidText else Inr ())"

definition env_name_byte :: "char \<Rightarrow> bool" where
  "env_name_byte c \<longleftrightarrow> is_ascii_alphanumeric c \<or> c = CHR ''_''"

definition valid_env_name :: "str option \<Rightarrow> bool" where
  "valid_env_name v =
     (case v of
        None \<Rightarrow> False
      | Some n \<Rightarrow> \<not> (n = [] \<or> 128 < length n)
          \<and> (is_ascii_alphabetic (hd n) \<or> hd n = CHR ''_'')
          \<and> list_all env_name_byte (tl n))"

definition header_name_byte :: "char \<Rightarrow> bool" where
  "header_name_byte c \<longleftrightarrow> is_ascii_alphanumeric c
     \<or> c \<in> set ''!#$%&'' \<union> {CHR 0x27} \<union> set ''*+-.^_'' \<union> {CHR 0x60} \<union> set ''|~''"

definition valid_header_name :: "str option \<Rightarrow> bool" where
  "valid_header_name v =
     opt_ex (\<lambda>n. n \<noteq> [] \<and> length n \<le> 128 \<and> list_all header_name_byte n) v"

subsection \<open>MCP servers\<close>

definition validate_mcp_entry :: "str \<times> str \<Rightarrow> settings_model_error + unit" where
  "validate_mcp_entry p =
     (case p of (k, v) \<Rightarrow>
        if k = [] \<or> 128 < length k \<or> contains_sensitive_config_key k \<or> contains_sensitive_text v
        then Inl InvalidText else validate_mcp_value v)"

definition has_key_ignoring_case :: "str_map \<Rightarrow> str \<Rightarrow> bool" where
  "has_key_ignoring_case m n = list_ex (\<lambda>p. eq_ignore_ascii_case (fst p) n) m"

definition validate_mcp_auth ::
    "mcp_server_setting \<Rightarrow> mcp_auth_setting \<Rightarrow> settings_model_error + unit" where
  "validate_mcp_auth server auth =
     (if mc_credential_ref server \<noteq> None then Inl InvalidCredentialRef
      else and_then
        (case au_kind auth of
           AkNone \<Rightarrow>
             if au_name auth \<noteq> None \<or> au_credential_ref auth \<noteq> None
             then Inl InvalidCredentialRef else Inr ()
         | AkEnv \<Rightarrow>
             if mc_transport server \<noteq> ''stdio'' \<or> \<not> valid_env_name (au_name auth)
                \<or> au_credential_ref auth = None
                \<or> opt_ex (\<lambda>n. n \<in> fst ` set (mc_env server)) (au_name auth)
             then Inl InvalidText else Inr ()
         | AkBearer \<Rightarrow>
             if mc_transport server \<noteq> ''streamable_http'' \<or> au_name auth \<noteq> None
                \<or> au_credential_ref auth = None
                \<or> has_key_ignoring_case (mc_headers server) ''authorization''
             then Inl InvalidText else Inr ()
         | AkHeader \<Rightarrow>
             if mc_transport server \<noteq> ''streamable_http'' \<or> \<not> valid_header_name (au_name auth)
                \<or> au_credential_ref auth = None
                \<or> opt_ex (has_key_ignoring_case (mc_headers server)) (au_name auth)
             then Inl InvalidText else Inr ())
        (\<lambda>_. case au_credential_ref auth of
           None \<Rightarrow> Inr ()
         | Some r \<Rightarrow> and_then (credential_parse r) (\<lambda>_. Inr ())))"

definition validate_mcp_shape :: "mcp_server_setting \<Rightarrow> settings_model_error + unit" where
  "validate_mcp_shape server =
     (if 64 < length (mc_args server) \<or> 64 < length (mc_env server)
         \<or> 64 < length (mc_headers server) then Inl TooManyEntries
      else if 64 < length (mc_query_params server) then Inl TooManyEntries
      else and_then (for_each validate_mcp_value (mc_args server)) (\<lambda>_.
        and_then (for_each validate_mcp_entry
            (mc_env server @ mc_headers server @ mc_query_params server)) (\<lambda>_.
          if mc_transport server = ''stdio''
             \<and> (mc_headers server \<noteq> [] \<or> mc_query_params server \<noteq> []) then Inl InvalidText
          else if mc_transport server = ''streamable_http''
             \<and> (mc_args server \<noteq> [] \<or> mc_env server \<noteq> []) then Inl InvalidText
          else case mc_auth server of
            None \<Rightarrow> Inr ()
          | Some auth \<Rightarrow> validate_mcp_auth server auth)))"

definition mcp_protocol_versions :: "str list" where
  "mcp_protocol_versions = [''2024-11-05'', ''2025-03-26'', ''2025-06-18'']"

definition validate_mcp_server ::
    "(str \<Rightarrow> url option) \<Rightarrow> mcp_server_setting \<Rightarrow> settings_model_error + unit" where
  "validate_mcp_server parse_url server =
     and_then (validate_revision_identifier (mc_revision server) ''mcp_'') (\<lambda>_.
     and_then (validate_text (mc_name server)) (\<lambda>_.
     if mc_transport server \<notin> {''stdio'', ''streamable_http''} then Inl InvalidText
     else and_then (validate_text (mc_endpoint server)) (\<lambda>_.
     and_then (validate_text (mc_protocol_version server)) (\<lambda>_.
     if mc_protocol_version server \<notin> set mcp_protocol_versions then Inl InvalidText
     else if contains_sensitive_text (mc_endpoint server) then Inl InvalidText
     else and_then
       (if opt_ex (\<lambda>u. url_scheme u \<in> {''http'', ''https''}) (parse_url (mc_endpoint server))
        then validate_url parse_url (mc_endpoint server) else Inr ()) (\<lambda>_.
     and_then (case mc_credential_ref server of None \<Rightarrow> Inr ()
       | Some r \<Rightarrow> and_then (credential_parse r) (\<lambda>_. Inr ())) (\<lambda>_.
     validate_mcp_shape server))))))"

subsection \<open>Profiles and the document\<close>

definition find_mcp :: "str \<Rightarrow> mcp_server_setting list \<Rightarrow> mcp_server_setting option" where
  "find_mcp revision servers = List.find (\<lambda>m. mc_revision m = revision) servers"

definition validate_selection ::
    "mcp_server_setting list \<Rightarrow> str \<Rightarrow> settings_model_error + unit" where
  "validate_selection servers revision =
     and_then (ok_or (find_mcp revision servers) InvalidText) (\<lambda>selected.
       if \<not> mc_enabled selected then Inl InvalidText else Inr ())"

definition validate_profile ::
    "(str \<Rightarrow> url option) \<Rightarrow> mcp_server_setting list \<Rightarrow> profile_setting
      \<Rightarrow> settings_model_error + unit" where
  "validate_profile parse_url servers p =
     and_then (validate_revision_identifier (pr_revision p) ''profile_'') (\<lambda>_.
     and_then (validate_text (pr_name p)) (\<lambda>_.
     and_then (validate_text (pr_provider p)) (\<lambda>_.
     and_then (validate_text (pr_model p)) (\<lambda>_.
     and_then (validate_revision_list (pr_skill_revisions p) ''skill_'') (\<lambda>_.
     and_then (case pr_mcp_revisions p of
         None \<Rightarrow> Inr ()
       | Some rs \<Rightarrow> and_then (validate_revision_list rs ''mcp_'') (\<lambda>_.
           for_each (validate_selection servers) rs)) (\<lambda>_.
     if pr_protocol p = OpenAiResponses then Inl UnsupportedProtocol
     else and_then (case pr_base_url p of None \<Rightarrow> Inr () | Some u \<Rightarrow> validate_url parse_url u) (\<lambda>_.
     case pr_credential_ref p of
       None \<Rightarrow> Inr ()
     | Some r \<Rightarrow> and_then (credential_parse r) (\<lambda>_. Inr ()))))))))"

definition window_validate :: "window_settings \<Rightarrow> settings_model_error + unit" where
  "window_validate w =
     (if \<not> (640 \<le> win_width w \<and> win_width w \<le> 16384)
         \<or> \<not> (480 \<le> win_height w \<and> win_height w \<le> 16384)
      then Inl InvalidWindowSize else Inr ())"

definition document_validate ::
    "(str \<Rightarrow> url option) \<Rightarrow> settings_document \<Rightarrow> settings_model_error + unit" where
  "document_validate parse_url d =
     (if sd_schema_version d \<noteq> settings_schema_version then Inl UnsupportedSchema
      else if max_profiles < length (sd_profiles d) \<or> max_mcp_servers < length (sd_mcp_servers d)
        then Inl TooManyEntries
      else and_then (case sd_active_profile_revision d of None \<Rightarrow> Inr () | Some a \<Rightarrow> validate_text a)
        (\<lambda>_. and_then (for_each (validate_profile parse_url (sd_mcp_servers d)) (sd_profiles d))
        (\<lambda>_. and_then (for_each (validate_mcp_server parse_url) (sd_mcp_servers d))
        (\<lambda>_. window_validate (sd_window d)))))"

end
