(* ===== verification/Ja_Atomic.thy ===== *)
theory Ja_Atomic
  imports Ja_Prelude
begin

text \<open>
  Replacing a file through a temporary one (\<open>settings/atomic.rs\<close>), over a directory of named
  entries. Every system call may fail: the outcomes are arguments, one for each call in the
  order the code makes them, and a failed call leaves the directory as it was.
\<close>

subsection \<open>A directory\<close>

text \<open>
  An entry is a regular file, a regular file that cannot be opened, or something else; of the
  last kind \<open>exists\<close> may say no (a dangling link).
\<close>

datatype entry = Regular bytes | Unreadable | Irregular bool

type_synonym dir = "str \<Rightarrow> entry option"

datatype io_error = InvalidData | OtherIo

definition path_exists :: "dir \<Rightarrow> str \<Rightarrow> bool" where
  "path_exists d n = (case d n of None \<Rightarrow> False | Some (Irregular e) \<Rightarrow> e | Some _ \<Rightarrow> True)"

definition rename_entry :: "str \<Rightarrow> str \<Rightarrow> dir \<Rightarrow> dir" where
  "rename_entry source target d = (d(target := d source))(source := None)"

definition remove_entry :: "str \<Rightarrow> dir \<Rightarrow> dir" where
  "remove_entry n d = d(n := None)"

subsection \<open>Replacing\<close>

record replace_calls =
  rp_direct :: bool \<comment> \<open>the first rename\<close>
  rp_displace :: bool \<comment> \<open>moving the old target aside\<close>
  rp_second :: bool \<comment> \<open>the rename after that\<close>
  rp_cleanup :: bool \<comment> \<open>removing or restoring the displaced file\<close>

definition replace_existing ::
    "replace_calls \<Rightarrow> str \<Rightarrow> str \<Rightarrow> str \<Rightarrow> dir \<Rightarrow> (io_error + unit) \<times> dir" where
  "replace_existing c displaced source target d =
     (if rp_direct c then (Inr (), rename_entry source target d)
      else
        let had_target = path_exists d target in
        if had_target \<and> \<not> rp_displace c then (Inl OtherIo, d)
        else
          let d1 = (if had_target then rename_entry target displaced d else d) in
          if rp_second c then
            (Inr (), (let d2 = rename_entry source target d1 in
               if had_target \<and> rp_cleanup c then remove_entry displaced d2 else d2))
          else
            (Inl OtherIo,
              (if had_target \<and> \<not> path_exists d1 target \<and> rp_cleanup c
               then rename_entry displaced target d1 else d1)))"

text \<open>
  The rest of \<open>atomic_replace\<close>: how much of the payload was written when a call failed, and
  the two names with a fresh suffix.
\<close>

record atomic_calls =
  at_create_dir :: bool
  at_open :: bool
  at_write :: "nat option" \<comment> \<open>the bytes written by a failing write, flush or sync\<close>
  at_replace :: replace_calls
  at_sync_parent :: bool
  at_remove :: bool
  at_temp_id :: str
  at_displaced_id :: str

definition temporary_path :: "str \<Rightarrow> str \<Rightarrow> str" where
  "temporary_path name i = ''.'' @ name @ ''.tmp-'' @ i"

definition displaced_path :: "str \<Rightarrow> str \<Rightarrow> str" where
  "displaced_path name i = ''.'' @ name @ ''.old-'' @ i"

definition write_temp :: "atomic_calls \<Rightarrow> str \<Rightarrow> bytes \<Rightarrow> dir \<Rightarrow> (io_error + unit) \<times> dir" where
  "write_temp c temp b d =
     (if \<not> at_open c \<or> d temp \<noteq> None then (Inl OtherIo, d)
      else case at_write c of
        Some n \<Rightarrow> (Inl OtherIo, d(temp \<mapsto> Regular (take n b)))
      | None \<Rightarrow> (Inr (), d(temp \<mapsto> Regular b)))"

definition atomic_replace :: "atomic_calls \<Rightarrow> str \<Rightarrow> bytes \<Rightarrow> dir \<Rightarrow> (io_error + unit) \<times> dir" where
  "atomic_replace c name b d =
     (if \<not> at_create_dir c then (Inl OtherIo, d)
      else
        let temp = temporary_path name (at_temp_id c);
            (r, d') = (case write_temp c temp b d of
                (Inl e, d1) \<Rightarrow> (Inl e, d1)
              | (Inr _, d1) \<Rightarrow>
                  (case replace_existing (at_replace c)
                      (displaced_path name (at_displaced_id c)) temp name d1 of
                    (Inl e, d2) \<Rightarrow> (Inl e, d2)
                  | (Inr _, d2) \<Rightarrow> (if at_sync_parent c then Inr () else Inl OtherIo, d2)))
        in (r, if is_ok r \<or> \<not> at_remove c then d' else remove_entry temp d'))"

definition read_bounded :: "str \<Rightarrow> nat \<Rightarrow> dir \<Rightarrow> io_error + bytes" where
  "read_bounded n limit d =
     (case d n of
        None \<Rightarrow> Inl OtherIo
      | Some (Irregular _) \<Rightarrow> Inl InvalidData
      | Some Unreadable \<Rightarrow> Inl OtherIo
      | Some (Regular b) \<Rightarrow> if limit < length b then Inl InvalidData else Inr b)"

definition atomic_copy ::
    "atomic_calls \<Rightarrow> str \<Rightarrow> str \<Rightarrow> nat \<Rightarrow> dir \<Rightarrow> (io_error + unit) \<times> dir" where
  "atomic_copy c source target limit d =
     (case read_bounded source limit d of
        Inl e \<Rightarrow> (Inl e, d)
      | Inr b \<Rightarrow> atomic_replace c target b d)"

subsection \<open>What a replacement leaves behind\<close>

lemma names_differ [simp]:
  "temporary_path n i \<noteq> n" "displaced_path n j \<noteq> n" "n \<noteq> temporary_path n i"
  "n \<noteq> displaced_path n j"
  by (auto simp: temporary_path_def displaced_path_def dest: arg_cong [where f = length])

lemma temp_not_displaced [simp]:
  "temporary_path n i \<noteq> displaced_path n j" "displaced_path n j \<noteq> temporary_path n i"
  by (simp_all add: temporary_path_def displaced_path_def)

text \<open>The names a replacement of \<open>n\<close> may touch.\<close>

definition touched :: "atomic_calls \<Rightarrow> str \<Rightarrow> str set" where
  "touched c n = {n, temporary_path n (at_temp_id c), displaced_path n (at_displaced_id c)}"

definition old_or_new :: "atomic_calls \<Rightarrow> str \<Rightarrow> bytes \<Rightarrow> dir \<Rightarrow> dir \<Rightarrow> bool" where
  "old_or_new c n b d d' \<longleftrightarrow>
     d' n = d n \<or> d' n = Some (Regular b)
     \<or> (d' n = None \<and> path_exists d n \<and> d' (displaced_path n (at_displaced_id c)) = d n
        \<and> \<not> rp_direct (at_replace c))"

lemma replace_existing_cases:
  assumes "replace_existing c q t n d = (r, d')" and "d t = Some (Regular b)"
    and "t \<noteq> n" "q \<noteq> n" "t \<noteq> q"
  shows "d' n = d n \<or> d' n = Some (Regular b)
      \<or> (d' n = None \<and> path_exists d n \<and> d' q = d n \<and> \<not> rp_direct c)"
    and "r = Inr () \<Longrightarrow> d' n = Some (Regular b) \<and> d' t = None"
    and "m \<notin> {n, t, q} \<Longrightarrow> d' m = d m"
  using assms
  by (auto simp: replace_existing_def rename_entry_def remove_entry_def Let_def path_exists_def
      split: if_splits)

text \<open>What happened before the removal of the temporary file.\<close>

lemma replacement_cases:
  assumes "write_temp c (temporary_path n (at_temp_id c)) b d = (w, d1)"
    and "(case w of Inl e \<Rightarrow> (Inl e, d1)
      | Inr _ \<Rightarrow> (case replace_existing (at_replace c) (displaced_path n (at_displaced_id c))
            (temporary_path n (at_temp_id c)) n d1 of
          (Inl e, d2) \<Rightarrow> (Inl e, d2)
        | (Inr _, d2) \<Rightarrow> (if at_sync_parent c then Inr () else Inl OtherIo, d2))) = (r, d')"
  shows "old_or_new c n b d d'"
    and "r = Inr () \<Longrightarrow> d' n = Some (Regular b) \<and> d' (temporary_path n (at_temp_id c)) = None"
    and "m \<notin> touched c n \<Longrightarrow> d' m = d m"
proof -
  have d1: "d1 m = d m" if "m \<noteq> temporary_path n (at_temp_id c)" for m
    using assms(1) that by (auto simp: write_temp_def split: if_splits option.splits)
  show "old_or_new c n b d d'"
    "r = Inr () \<Longrightarrow> d' n = Some (Regular b) \<and> d' (temporary_path n (at_temp_id c)) = None"
    "m \<notin> touched c n \<Longrightarrow> d' m = d m"
  proof (atomize (full), cases w)
    case (Inl e)
    then show "old_or_new c n b d d'
        \<and> (r = Inr () \<longrightarrow> d' n = Some (Regular b) \<and> d' (temporary_path n (at_temp_id c)) = None)
        \<and> (m \<notin> touched c n \<longrightarrow> d' m = d m)"
      using assms(2) d1 by (auto simp: old_or_new_def touched_def)
  next
    case (Inr u)
    obtain r2 d2 where rep: "replace_existing (at_replace c) (displaced_path n (at_displaced_id c))
        (temporary_path n (at_temp_id c)) n d1 = (r2, d2)" by fastforce
    have temp: "d1 (temporary_path n (at_temp_id c)) = Some (Regular b)"
      using assms(1) Inr by (auto simp: write_temp_def split: if_splits option.splits)
    have exists: "path_exists d1 n = path_exists d n"
      by (simp add: path_exists_def d1)
    have d': "d' = d2" "r = Inr () \<Longrightarrow> r2 = Inr ()"
      using assms(2) Inr rep by (auto split: sum.splits if_splits)
    note cases = replace_existing_cases [OF rep temp]
    show "old_or_new c n b d d'
        \<and> (r = Inr () \<longrightarrow> d' n = Some (Regular b) \<and> d' (temporary_path n (at_temp_id c)) = None)
        \<and> (m \<notin> touched c n \<longrightarrow> d' m = d m)"
      using cases(1) cases(2) cases(3) [of m] d1 exists
      by (auto simp: d' old_or_new_def touched_def)
  qed
qed

lemma removal_keeps:
  assumes "old_or_new c n b d d'"
  shows "old_or_new c n b d (remove_entry (temporary_path n (at_temp_id c)) d')"
  using assms by (auto simp: old_or_new_def remove_entry_def)

lemma replacement_outcome:
  assumes "atomic_replace c n b d = (r, d')"
  shows "old_or_new c n b d d' \<and> (r = Inr () \<longrightarrow> d' n = Some (Regular b)
      \<and> d' (temporary_path n (at_temp_id c)) = None)
    \<and> (\<forall>m. m \<notin> touched c n \<longrightarrow> d' m = d m)"
proof -
  obtain w d1 where w: "write_temp c (temporary_path n (at_temp_id c)) b d = (w, d1)" by fastforce
  obtain r' d2 where r': "(case w of Inl e \<Rightarrow> (Inl e, d1)
      | Inr _ \<Rightarrow> (case replace_existing (at_replace c) (displaced_path n (at_displaced_id c))
            (temporary_path n (at_temp_id c)) n d1 of
          (Inl e, d2) \<Rightarrow> (Inl e, d2)
        | (Inr _, d2) \<Rightarrow> (if at_sync_parent c then Inr () else Inl OtherIo, d2))) = (r', d2)"
    by fastforce
  note steps = replacement_cases [OF w r']
  show ?thesis
  proof (cases "at_create_dir c")
    case True
    then have "r = r'" "d' = (if is_ok r' \<or> \<not> at_remove c then d2
        else remove_entry (temporary_path n (at_temp_id c)) d2)"
      using assms w r' by (auto simp: atomic_replace_def Let_def split: sum.splits)
    then show ?thesis
      using steps removal_keeps [OF steps(1)]
      by (auto simp: touched_def remove_entry_def is_ok_iff)
  next
    case False
    then show ?thesis using assms by (auto simp: atomic_replace_def old_or_new_def)
  qed
qed

text \<open>
  C29. Replacing a file leaves, however many of its system calls fail, the complete old
  content or the complete new content under its name, never a part of either; only where the
  system cannot rename over an existing file may the name be missing, and then the old content
  is kept under the displaced name. Success means the new content is in place and the
  temporary file is gone; no other entry changes.
\<close>

theorem replacement_is_atomic:
  assumes "atomic_replace c n b d = (r, d')"
  shows "old_or_new c n b d d' \<and> (r = Inr () \<longrightarrow> d' n = Some (Regular b)
      \<and> d' (temporary_path n (at_temp_id c)) = None)
    \<and> (\<forall>m. m \<notin> touched c n \<longrightarrow> d' m = d m)"
  by (rule replacement_outcome [OF assms])

definition sample_calls :: atomic_calls where
  "sample_calls = \<lparr>at_create_dir = True, at_open = True, at_write = None,
     at_replace = \<lparr>rp_direct = False, rp_displace = True, rp_second = False, rp_cleanup = False\<rparr>,
     at_sync_parent = True, at_remove = True, at_temp_id = ''1'', at_displaced_id = ''2''\<rparr>"

theorem replacement_is_atomic_witness:
  "\<exists>r d'. atomic_replace sample_calls ''a'' ''new'' [''a'' \<mapsto> Regular ''old''] = (r, d')
     \<and> old_or_new sample_calls ''a'' ''new'' [''a'' \<mapsto> Regular ''old''] d'
     \<and> d' (displaced_path ''a'' ''2'') = Some (Regular ''old'')"
proof -
  obtain r d' where a: "atomic_replace sample_calls ''a'' ''new'' [''a'' \<mapsto> Regular ''old''] = (r, d')"
    by fastforce
  then have "d' (displaced_path ''a'' ''2'') = Some (Regular ''old'')"
    by (auto simp: atomic_replace_def sample_calls_def write_temp_def replace_existing_def Let_def
        rename_entry_def remove_entry_def path_exists_def temporary_path_def displaced_path_def)
  with a replacement_is_atomic [OF a] show ?thesis by blast
qed

end
