(* ===== verification/Ja_Settings_Store.thy ===== *)
theory Ja_Settings_Store
  imports Ja_Settings_Model Ja_Atomic
begin

text \<open>
  The settings file and its one backup (\<open>settings/store.rs\<close>): the bounded strict parser, the
  migration of the prototype schema, loading with recovery, and the two saves. serde's part is
  the record \<open>settings_serde\<close>: JSON text to values, values to the derived structures, and the
  pretty printer. The mutex serialises the operations, so each is a function on the directory;
  \<open>poisoned\<close> says that a thread has panicked with the lock held.
\<close>

subsection \<open>Data\<close>

datatype load_source = FromDefault | FromPrimary | FromBackup

record loaded_settings =
  ls_document :: settings_document
  ls_source :: load_source
  ls_recovered :: bool
  ls_migrated :: bool

datatype settings_error =
    SInvalidRoot | SIo | STooLarge | SInvalidJson | STooDeep | SUnknownField | SSecretField
  | SUnsupportedSchema | SInvalidDocument | SCorruptRecovery | SRevisionConflict | SUnavailable

fun show_settings_error :: "settings_error \<Rightarrow> str" where
  "show_settings_error SInvalidRoot = ''invalid settings root''"
| "show_settings_error SIo = ''settings I/O failed''"
| "show_settings_error STooLarge = ''settings document too large''"
| "show_settings_error SInvalidJson = ''settings JSON invalid''"
| "show_settings_error STooDeep = ''settings JSON too deep''"
| "show_settings_error SUnknownField = ''settings field unknown''"
| "show_settings_error SSecretField = ''secret field is not allowed in settings''"
| "show_settings_error SUnsupportedSchema = ''settings schema unsupported''"
| "show_settings_error SInvalidDocument = ''settings document invalid''"
| "show_settings_error SCorruptRecovery = ''settings recovery failed''"
| "show_settings_error SRevisionConflict = ''settings revision conflict''"
| "show_settings_error SUnavailable = ''settings store unavailable''"

record legacy_settings =
  lg_revision :: "nat option"
  lg_theme :: "theme_preference option"
  lg_active_profile_revision :: "str option"
  lg_profiles :: "profile_setting list"
  lg_mcp_servers :: "mcp_server_setting list"
  lg_window :: "window_settings option"

text \<open>A failing conversion says whether its message has \<open>unknown field\<close> in it.\<close>

record settings_serde =
  de_value :: "bytes \<Rightarrow> json option"
  de_document :: "json \<Rightarrow> bool + settings_document"
  de_legacy :: "json \<Rightarrow> bool + legacy_settings"
  ser_pretty :: "settings_document \<Rightarrow> bytes option"

definition settings_file :: str where "settings_file = ''settings.json''"
definition settings_backup_file :: str where "settings_backup_file = ''settings.json.bak''"
definition max_settings_bytes :: nat where "max_settings_bytes = 256 * 1024"
definition max_json_depth :: nat where "max_json_depth = 16"
definition max_secret_key_length :: nat where "max_secret_key_length = 96"

subsection \<open>Walking a value\<close>

definition children :: "json \<Rightarrow> json list" where
  "children v = (case v of JArr vs \<Rightarrow> vs | JObj o' \<Rightarrow> map snd o' | _ \<Rightarrow> [])"

fun nodes :: "json \<Rightarrow> nat" where
  "nodes (JArr vs) = Suc (sum_list (map nodes vs))"
| "nodes (JObj o') = Suc (sum_list (map (\<lambda>p. nodes (snd p)) o'))"
| "nodes _ = 1"

lemma nodes_children: "nodes v = Suc (sum_list (map nodes (children v)))"
  by (cases v) (simp_all add: children_def comp_def)

lemma children_less [simp]: "sum_list (map nodes (children v)) < nodes v"
  by (simp add: nodes_children [of v] less_Suc_eq_le)

text \<open>Both walks keep a stack, so the children of a node are taken last first.\<close>

function json_depth_loop :: "(json \<times> nat) list \<Rightarrow> nat \<Rightarrow> nat" where
  "json_depth_loop [] m = m"
| "json_depth_loop ((v, depth) # pending) m =
     json_depth_loop (rev (map (\<lambda>c. (c, depth + 1)) (children v)) @ pending) (max m depth)"
  by pat_completeness auto
termination
  by (relation "measure (\<lambda>(ps, _). sum_list (map (nodes \<circ> fst) ps))")
     (auto simp: rev_map [symmetric] comp_def sum_list_rev)

definition json_depth :: "json \<Rightarrow> nat \<Rightarrow> nat" where
  "json_depth v current = json_depth_loop [(v, current)] current"

definition sensitive_names :: "str list" where
  "sensitive_names = [''secret'', ''secretvalue'', ''password'', ''apikey'', ''token'',
     ''accesstoken'', ''refreshtoken'', ''authorization'', ''bearer'', ''privatekey'']"

definition is_sensitive_key :: "str \<Rightarrow> bool" where
  "is_sensitive_key k =
     (let normalized = to_ascii_lowercase (filter is_ascii_alphanumeric k) in
      normalized \<in> set sensitive_names
      \<or> list_ex (contains_str normalized)
          [''secret'', ''password'', ''token'', ''apikey'', ''authorization''])"

definition refused_key :: "str \<Rightarrow> bool" where
  "refused_key k \<longleftrightarrow> max_secret_key_length < length k \<or> is_sensitive_key k"

function reject_pending :: "json list \<Rightarrow> settings_error + unit" where
  "reject_pending [] = Inr ()"
| "reject_pending (v # pending) =
     (if list_ex (\<lambda>p. refused_key (fst p)) (case v of JObj o' \<Rightarrow> o' | _ \<Rightarrow> [])
      then Inl SSecretField
      else reject_pending (rev (children v) @ pending))"
  by pat_completeness auto
termination
  by (relation "measure (\<lambda>ps. sum_list (map nodes ps))")
     (auto simp: rev_map [symmetric] sum_list_rev)

definition reject_sensitive_keys :: "json \<Rightarrow> settings_error + unit" where
  "reject_sensitive_keys v = reject_pending [v]"

subsection \<open>Parsing and migration\<close>

fun map_model_error :: "settings_model_error \<Rightarrow> settings_error" where
  "map_model_error UnsupportedSchema = SUnsupportedSchema"
| "map_model_error _ = SInvalidDocument"

definition map_serde_error :: "bool \<Rightarrow> settings_error" where
  "map_serde_error unknown_field = (if unknown_field then SUnknownField else SInvalidDocument)"

definition migrate_v0 ::
    "settings_serde \<Rightarrow> (str \<Rightarrow> url option) \<Rightarrow> json \<Rightarrow> settings_error + settings_document \<times> bool" where
  "migrate_v0 sd parse_url v =
     (case v of
        JObj o' \<Rightarrow>
          and_then (map_err map_serde_error
              (de_legacy sd (JObj (filter (\<lambda>p. fst p \<noteq> ''schemaVersion'') o')))) (\<lambda>legacy.
            let document = \<lparr>sd_schema_version = settings_schema_version,
                  sd_revision = (case lg_revision legacy of None \<Rightarrow> 0 | Some r \<Rightarrow> r),
                  sd_theme = (case lg_theme legacy of None \<Rightarrow> ThSystem | Some t \<Rightarrow> t),
                  sd_active_profile_revision = lg_active_profile_revision legacy,
                  sd_profiles = lg_profiles legacy,
                  sd_mcp_servers = lg_mcp_servers legacy,
                  sd_window = (case lg_window legacy of None \<Rightarrow> default_window | Some w \<Rightarrow> w)\<rparr>
            in and_then (map_err map_model_error (document_validate parse_url document)) (\<lambda>_.
                 Inr (document, True)))
      | _ \<Rightarrow> Inl SInvalidDocument)"

text \<open>A version above 32 bits counts as the largest one.\<close>

definition parse_document ::
    "settings_serde \<Rightarrow> (str \<Rightarrow> url option) \<Rightarrow> bytes \<Rightarrow> settings_error + settings_document \<times> bool" where
  "parse_document sd parse_url b =
     (if max_settings_bytes < length b then Inl STooLarge
      else and_then (ok_or (de_value sd b) SInvalidJson) (\<lambda>v.
        if max_json_depth < json_depth v 0 then Inl STooDeep
        else and_then (reject_sensitive_keys v) (\<lambda>_.
          let version = (case Option.bind (json_get v ''schemaVersion'') as_u64 of
                None \<Rightarrow> 0 | Some n \<Rightarrow> if n < 2 ^ 32 then n else 2 ^ 32 - 1)
          in if version = settings_schema_version then
               and_then (map_err map_serde_error (de_document sd v)) (\<lambda>document. Inr (document, False))
             else if version = 0 then migrate_v0 sd parse_url v
             else Inl SUnsupportedSchema)))"

definition load_file ::
    "settings_serde \<Rightarrow> (str \<Rightarrow> url option) \<Rightarrow> str \<Rightarrow> dir
      \<Rightarrow> settings_error + settings_document \<times> bool \<times> bytes" where
  "load_file sd parse_url name d =
     and_then (map_err (\<lambda>e. if e = InvalidData then STooLarge else SIo)
         (read_bounded name max_settings_bytes d)) (\<lambda>b.
       and_then (parse_document sd parse_url b) (\<lambda>(document, migrated).
         Inr (document, migrated, b)))"

subsection \<open>The store\<close>

definition is_settings_temp :: "str \<Rightarrow> bool" where
  "is_settings_temp name \<longleftrightarrow>
     starts_with name ''.settings.json.tmp-'' \<or> starts_with name ''.settings.json.old-''"

text \<open>The directory listing, each entry with whether its type could be read and it be removed.\<close>

fun cleanup_temp_files ::
    "(str \<times> bool \<times> bool) list \<Rightarrow> dir \<Rightarrow> (settings_error + unit) \<times> dir" where
  "cleanup_temp_files [] d = (Inr (), d)"
| "cleanup_temp_files ((name, typed, removed) # entries) d =
     (if is_settings_temp name then
        (if \<not> typed then (Inl SIo, d)
         else if (case d name of Some (Regular _) \<Rightarrow> True | Some Unreadable \<Rightarrow> True | _ \<Rightarrow> False) then
           (if removed then cleanup_temp_files entries (remove_entry name d) else (Inl SIo, d))
         else cleanup_temp_files entries d)
      else cleanup_temp_files entries d)"

definition backup_primary_locked :: "atomic_calls \<Rightarrow> bytes \<Rightarrow> dir \<Rightarrow> (settings_error + unit) \<times> dir" where
  "backup_primary_locked c old d =
     (case atomic_replace c settings_backup_file old d of (r, d') \<Rightarrow> (map_err (\<lambda>_. SIo) r, d'))"

definition persist_document_locked ::
    "settings_serde \<Rightarrow> atomic_calls \<Rightarrow> atomic_calls \<Rightarrow> settings_document \<Rightarrow> bool \<Rightarrow> dir
      \<Rightarrow> (settings_error + unit) \<times> dir" where
  "persist_document_locked sd cb cp document backup_current d =
     (case ser_pretty sd document of
        None \<Rightarrow> (Inl SInvalidDocument, d)
      | Some b \<Rightarrow>
          if max_settings_bytes < length b then (Inl STooLarge, d)
          else case (if backup_current \<and> path_exists d settings_file
              then atomic_copy cb settings_file settings_backup_file max_settings_bytes d
              else (Inr (), d)) of
            (Inl _, d1) \<Rightarrow> (Inl SIo, d1)
          | (Inr _, d1) \<Rightarrow>
              (case atomic_replace cp settings_file b d1 of (r, d2) \<Rightarrow> (map_err (\<lambda>_. SIo) r, d2)))"

definition load_current_locked ::
    "settings_serde \<Rightarrow> (str \<Rightarrow> url option) \<Rightarrow> dir \<Rightarrow> settings_error + settings_document option" where
  "load_current_locked sd parse_url d =
     (case load_file sd parse_url settings_file d of
        Inr (document, _, _) \<Rightarrow> Inr (Some document)
      | Inl _ \<Rightarrow>
          if path_exists d settings_file then Inl SCorruptRecovery
          else case load_file sd parse_url settings_backup_file d of
            Inr (document, _, _) \<Rightarrow> Inr (Some document)
          | Inl _ \<Rightarrow>
              if \<not> path_exists d settings_backup_file then Inr None else Inl SCorruptRecovery)"

definition load ::
    "settings_serde \<Rightarrow> (str \<Rightarrow> url option) \<Rightarrow> bool \<Rightarrow> atomic_calls \<Rightarrow> atomic_calls \<Rightarrow> dir
      \<Rightarrow> (settings_error + loaded_settings) \<times> dir" where
  "load sd parse_url poisoned cb cp d =
     (if poisoned then (Inl SUnavailable, d)
      else case load_file sd parse_url settings_file d of
        Inr (document, migrated, old) \<Rightarrow>
          let loaded = \<lparr>ls_document = document, ls_source = FromPrimary, ls_recovered = False,
                ls_migrated = migrated\<rparr> in
          if \<not> migrated then (Inr loaded, d)
          else (case backup_primary_locked cb old d of
              (Inl e, d1) \<Rightarrow> (Inl e, d1)
            | (Inr _, d1) \<Rightarrow> (case persist_document_locked sd cb cp document False d1 of
                  (Inl e, d2) \<Rightarrow> (Inl e, d2)
                | (Inr _, d2) \<Rightarrow> (Inr loaded, d2)))
      | Inl _ \<Rightarrow>
          (case load_file sd parse_url settings_backup_file d of
            Inr (document, migrated, _) \<Rightarrow>
              (case persist_document_locked sd cb cp document False d of
                 (Inl e, d1) \<Rightarrow> (Inl e, d1)
               | (Inr _, d1) \<Rightarrow> (Inr \<lparr>ls_document = document, ls_source = FromBackup,
                   ls_recovered = True, ls_migrated = migrated\<rparr>, d1))
          | Inl _ \<Rightarrow>
              if \<not> path_exists d settings_file \<and> \<not> path_exists d settings_backup_file
              then (Inr \<lparr>ls_document = default_document, ls_source = FromDefault,
                  ls_recovered = False, ls_migrated = False\<rparr>, d)
              else (Inl SCorruptRecovery, d)))"

definition save ::
    "settings_serde \<Rightarrow> (str \<Rightarrow> url option) \<Rightarrow> bool \<Rightarrow> atomic_calls \<Rightarrow> atomic_calls
      \<Rightarrow> settings_document \<Rightarrow> dir \<Rightarrow> (settings_error + unit) \<times> dir" where
  "save sd parse_url poisoned cb cp document d =
     (if poisoned then (Inl SUnavailable, d)
      else case map_err map_model_error (document_validate parse_url document) of
        Inl e \<Rightarrow> (Inl e, d)
      | Inr _ \<Rightarrow>
          if path_exists d settings_file \<or> path_exists d settings_backup_file then
            (case load_current_locked sd parse_url d of
               Inl e \<Rightarrow> (Inl e, d)
             | Inr None \<Rightarrow> (Inl SCorruptRecovery, d)
             | Inr (Some current) \<Rightarrow>
                 (case checked_add64 (sd_revision current) 1 of
                    None \<Rightarrow> (Inl SRevisionConflict, d)
                  | Some expected \<Rightarrow>
                      if sd_revision document \<noteq> expected then (Inl SRevisionConflict, d)
                      else persist_document_locked sd cb cp document
                             (path_exists d settings_file) d))
          else if 1 < sd_revision document then (Inl SRevisionConflict, d)
          else persist_document_locked sd cb cp document False d)"

definition compare_and_save ::
    "settings_serde \<Rightarrow> (str \<Rightarrow> url option) \<Rightarrow> bool \<Rightarrow> atomic_calls \<Rightarrow> atomic_calls
      \<Rightarrow> nat \<Rightarrow> settings_document \<Rightarrow> dir \<Rightarrow> (settings_error + settings_document) \<times> dir" where
  "compare_and_save sd parse_url poisoned cb cp expected document d =
     (if poisoned then (Inl SUnavailable, d)
      else case load_current_locked sd parse_url d of
        Inl e \<Rightarrow> (Inl e, d)
      | Inr current \<Rightarrow>
          let current_revision = (case current of None \<Rightarrow> 0 | Some v \<Rightarrow> sd_revision v) in
          (case checked_add64 expected 1 of
             None \<Rightarrow> (Inl SRevisionConflict, d)
           | Some next \<Rightarrow>
               if current_revision \<noteq> expected \<or> sd_revision document \<noteq> next
               then (Inl SRevisionConflict, d)
               else case map_err map_model_error (document_validate parse_url document) of
                 Inl e \<Rightarrow> (Inl e, d)
               | Inr _ \<Rightarrow>
                   (case persist_document_locked sd cb cp document (current \<noteq> None) d of
                      (Inl e, d1) \<Rightarrow> (Inl e, d1)
                    | (Inr _, d1) \<Rightarrow> (Inr document, d1))))"

end
