(* ===== verification/Ja_Settings_Cas.thy ===== *)
theory Ja_Settings_Cas
  imports Ja_Settings_Store
begin

text \<open>
  What the settings store promises: a saved document is read back, and \<open>compare_and_save\<close> is a
  compare-and-swap on the current document whatever the file system does.
\<close>

subsection \<open>The two walks\<close>

fun shallow :: "nat \<Rightarrow> nat \<Rightarrow> json \<Rightarrow> bool" where
  "shallow k d (JArr vs) \<longleftrightarrow> d \<le> k \<and> list_all (shallow k (d + 1)) vs"
| "shallow k d (JObj o') \<longleftrightarrow> d \<le> k \<and> list_all (\<lambda>p. shallow k (d + 1) (snd p)) o'"
| "shallow k d _ \<longleftrightarrow> d \<le> k"

lemma shallow_children:
  "shallow k d v \<longleftrightarrow> d \<le> k \<and> list_all (shallow k (d + 1)) (children v)"
  by (cases v) (auto simp: children_def list_all_iff)

lemma json_depth_loop_le:
  "json_depth_loop ps m \<le> k \<longleftrightarrow> m \<le> k \<and> (\<forall>p \<in> set ps. shallow k (snd p) (fst p))"
proof (induction ps m rule: json_depth_loop.induct)
  case (2 v d pending m)
  have "(\<forall>p \<in> set (rev (map (\<lambda>c. (c, d + 1)) (children v)) @ pending). shallow k (snd p) (fst p))
      \<longleftrightarrow> list_all (shallow k (d + 1)) (children v) \<and> (\<forall>p \<in> set pending. shallow k (snd p) (fst p))"
    by (auto simp: list_all_iff ball_Un)
  then show ?case
    unfolding json_depth_loop.simps 2 using shallow_children [of k d v] by fastforce
qed simp

lemma json_depth_le: "json_depth v 0 \<le> k \<longleftrightarrow> shallow k 0 v"
  using shallow_children [of k 0 v] by (auto simp: json_depth_def json_depth_loop_le list_all_iff)

fun any_key :: "(str \<Rightarrow> bool) \<Rightarrow> json \<Rightarrow> bool" where
  "any_key P (JArr vs) \<longleftrightarrow> list_ex (any_key P) vs"
| "any_key P (JObj o') \<longleftrightarrow> list_ex (\<lambda>p. P (fst p) \<or> any_key P (snd p)) o'"
| "any_key P _ \<longleftrightarrow> False"

lemma any_key_children:
  "any_key P v \<longleftrightarrow> list_ex (\<lambda>p. P (fst p)) (case v of JObj o' \<Rightarrow> o' | _ \<Rightarrow> [])
     \<or> list_ex (any_key P) (children v)"
  by (cases v) (auto simp: children_def list_ex_iff)

lemma reject_pending_exact:
  "reject_pending ps = (if list_ex (any_key refused_key) ps then Inl SSecretField else Inr ())"
proof (induction ps rule: reject_pending.induct)
  case (2 v pending)
  then show ?case
    using any_key_children [of refused_key v] by (auto simp: list_ex_iff)
qed simp

lemma reject_sensitive_keys_exact:
  "reject_sensitive_keys v = (if any_key refused_key v then Inl SSecretField else Inr ())"
  by (simp add: reject_sensitive_keys_def reject_pending_exact)

subsection \<open>What serde writes\<close>

lemma set_obj_insert_new: "k \<notin> fst ` set o' \<Longrightarrow> set (obj_insert k v o') = insert (k, v) (set o')"
  by (induction k v o' rule: obj_insert.induct) auto

lemma obj_of_snoc: "obj_of (kvs @ [(k, v)]) = obj_insert k v (obj_of kvs)"
  by (simp add: obj_of_def)

lemma set_obj_of_distinct: "distinct (map fst kvs) \<Longrightarrow> set (obj_of kvs) = set kvs"
proof (induction kvs rule: rev_induct)
  case (snoc p kvs)
  then have "fst p \<notin> fst ` set (obj_of kvs)" by auto
  then show ?case
    using snoc set_obj_insert_new [of "fst p" "obj_of kvs" "snd p"]
    by (cases p) (simp add: obj_of_snoc insert_commute)
qed (simp add: obj_of_def)

lemma obj_get_of: "obj_get (obj_of kvs) k = map_of (rev kvs) k"
proof (induction kvs rule: rev_induct)
  case (snoc p kvs)
  then show ?case by (cases p) (simp add: obj_of_snoc obj_get_insert)
qed (simp add: obj_of_def)

definition opt_value :: "str option \<Rightarrow> json" where
  "opt_value x = (case x of None \<Rightarrow> JNull | Some s \<Rightarrow> JStr s)"

definition strings_value :: "str list \<Rightarrow> json" where
  "strings_value xs = JArr (map JStr xs)"

definition map_value :: "str_map \<Rightarrow> json" where
  "map_value m = JObj (map (\<lambda>p. (fst p, JStr (snd p))) m)"

fun protocol_name_of :: "api_protocol \<Rightarrow> str" where
  "protocol_name_of AnthropicMessages = ''anthropic_messages''"
| "protocol_name_of OpenAiChatCompletions = ''openai_chat_completions''"
| "protocol_name_of OpenAiResponses = ''openai_responses''"

fun access_mode_name :: "access_mode \<Rightarrow> str" where
  "access_mode_name AmReadOnly = ''read_only''"
| "access_mode_name AmWorkspace = ''workspace''"
| "access_mode_name AmFullAccess = ''full_access''"

fun auth_kind_name :: "mcp_auth_kind \<Rightarrow> str" where
  "auth_kind_name AkNone = ''none''"
| "auth_kind_name AkBearer = ''bearer''"
| "auth_kind_name AkHeader = ''header''"
| "auth_kind_name AkEnv = ''env''"

fun theme_name :: "theme_preference \<Rightarrow> str" where
  "theme_name ThSystem = ''system''"
| "theme_name ThLight = ''light''"
| "theme_name ThDark = ''dark''"

definition auth_fields :: "mcp_auth_setting \<Rightarrow> (str \<times> json) list" where
  "auth_fields a = [(''kind'', JStr (auth_kind_name (au_kind a))), (''name'', opt_value (au_name a)),
     (''credentialRef'', opt_value (au_credential_ref a))]"

definition profile_fields :: "profile_setting \<Rightarrow> (str \<times> json) list" where
  "profile_fields p = [(''profileRevision'', JStr (pr_revision p)), (''name'', JStr (pr_name p)),
     (''provider'', JStr (pr_provider p)), (''protocol'', JStr (protocol_name_of (pr_protocol p))),
     (''model'', JStr (pr_model p)), (''baseUrl'', opt_value (pr_base_url p)),
     (''credentialRef'', opt_value (pr_credential_ref p)),
     (''supportsVision'', JBool (pr_supports_vision p)),
     (''accessMode'', JStr (access_mode_name (pr_access_mode p))),
     (''skillRevisions'', strings_value (pr_skill_revisions p)),
     (''mcpRevisions'', case pr_mcp_revisions p of None \<Rightarrow> JNull | Some rs \<Rightarrow> strings_value rs)]"

definition server_fields :: "mcp_server_setting \<Rightarrow> (str \<times> json) list" where
  "server_fields m = [(''mcpRevision'', JStr (mc_revision m)), (''name'', JStr (mc_name m)),
     (''transport'', JStr (mc_transport m)), (''endpoint'', JStr (mc_endpoint m)),
     (''protocolVersion'', JStr (mc_protocol_version m)), (''args'', strings_value (mc_args m)),
     (''env'', map_value (mc_env m)), (''headers'', map_value (mc_headers m)),
     (''queryParams'', map_value (mc_query_params m)),
     (''auth'', case mc_auth m of None \<Rightarrow> JNull | Some a \<Rightarrow> JObj (obj_of (auth_fields a))),
     (''credentialRef'', opt_value (mc_credential_ref m)), (''enabled'', JBool (mc_enabled m))]"

definition window_fields :: "window_settings \<Rightarrow> (str \<times> json) list" where
  "window_fields w = [(''width'', JNum (PosInt (win_width w))),
     (''height'', JNum (PosInt (win_height w))), (''maximized'', JBool (win_maximized w))]"

definition document_fields :: "settings_document \<Rightarrow> (str \<times> json) list" where
  "document_fields d = [(''schemaVersion'', JNum (PosInt (sd_schema_version d))),
     (''revision'', JNum (PosInt (sd_revision d))), (''theme'', JStr (theme_name (sd_theme d))),
     (''activeProfileRevision'', opt_value (sd_active_profile_revision d)),
     (''profiles'', JArr (map (\<lambda>p. JObj (obj_of (profile_fields p))) (sd_profiles d))),
     (''mcpServers'', JArr (map (\<lambda>m. JObj (obj_of (server_fields m))) (sd_mcp_servers d))),
     (''window'', JObj (obj_of (window_fields (sd_window d))))]"

definition document_value :: "settings_document \<Rightarrow> json" where
  "document_value d = JObj (obj_of (document_fields d))"

definition user_keys :: "settings_document \<Rightarrow> str set" where
  "user_keys d = (\<Union>m \<in> set (sd_mcp_servers d).
     fst ` (set (mc_env m) \<union> set (mc_headers m) \<union> set (mc_query_params m)))"

text \<open>No field name of the document itself is refused.\<close>

definition field_names :: "str list" where
  "field_names = [''kind'', ''name'', ''credentialRef'', ''profileRevision'', ''provider'',
     ''protocol'', ''model'', ''baseUrl'', ''supportsVision'', ''accessMode'', ''skillRevisions'',
     ''mcpRevisions'', ''mcpRevision'', ''transport'', ''endpoint'', ''protocolVersion'', ''args'',
     ''env'', ''headers'', ''queryParams'', ''auth'', ''enabled'', ''width'', ''height'',
     ''maximized'', ''schemaVersion'', ''revision'', ''theme'', ''activeProfileRevision'',
     ''profiles'', ''mcpServers'', ''window'']"

lemma field_names_allowed: "list_all (\<lambda>k. \<not> refused_key k) field_names"
  unfolding refused_key_def max_secret_key_length_def by code_simp

lemma field_name_allowed: "k \<in> set field_names \<Longrightarrow> \<not> refused_key k"
  using field_names_allowed by (simp add: list_all_iff)

lemma any_key_fields:
  assumes "distinct (map fst kvs)" and "set (map fst kvs) \<subseteq> set field_names"
  shows "any_key refused_key (JObj (obj_of kvs)) \<longleftrightarrow> list_ex (any_key refused_key) (map snd kvs)"
proof -
  have "\<not> refused_key (fst p)" if "p \<in> set kvs" for p
    using that assms(2) by (intro field_name_allowed) auto
  then show ?thesis by (auto simp: set_obj_of_distinct [OF assms(1)] list_ex_iff)
qed

lemma shallow_fields:
  assumes "distinct (map fst kvs)"
  shows "shallow k d (JObj (obj_of kvs)) \<longleftrightarrow> d \<le> k \<and> list_all (shallow k (d + 1)) (map snd kvs)"
  by (auto simp: set_obj_of_distinct [OF assms] list_all_iff)

lemma fields_distinct [simp]:
  "distinct (map fst (auth_fields a))" "distinct (map fst (profile_fields p))"
  "distinct (map fst (server_fields m))" "distinct (map fst (window_fields w))"
  "distinct (map fst (document_fields d))"
  by (simp_all add: auth_fields_def profile_fields_def server_fields_def window_fields_def
      document_fields_def)

lemma fields_named [simp]:
  "set (map fst (auth_fields a)) \<subseteq> set field_names"
  "set (map fst (profile_fields p)) \<subseteq> set field_names"
  "set (map fst (server_fields m)) \<subseteq> set field_names"
  "set (map fst (window_fields w)) \<subseteq> set field_names"
  "set (map fst (document_fields d)) \<subseteq> set field_names"
  by (simp_all add: auth_fields_def profile_fields_def server_fields_def window_fields_def
      document_fields_def field_names_def)

lemma plain_values [simp]:
  "\<not> any_key P (opt_value x)" "\<not> any_key P (strings_value xs)"
  "any_key P (map_value m) \<longleftrightarrow> (\<exists>k \<in> fst ` set m. P k)"
  "shallow k d (opt_value x) \<longleftrightarrow> d \<le> k"
  "Suc d \<le> k \<Longrightarrow> shallow k d (strings_value xs)"
  "Suc d \<le> k \<Longrightarrow> shallow k d (map_value m)"
  by (auto simp: opt_value_def strings_value_def map_value_def list_ex_iff list_all_iff
      split: option.split)

lemma any_key_auth: "\<not> any_key refused_key (JObj (obj_of (auth_fields a)))"
  by (subst any_key_fields) (simp_all add: auth_fields_def field_names_def)

lemma any_key_profile: "\<not> any_key refused_key (JObj (obj_of (profile_fields p)))"
  by (subst any_key_fields)
     (simp_all only: fields_distinct fields_named, simp add: profile_fields_def split: option.split)

lemma any_key_window: "\<not> any_key refused_key (JObj (obj_of (window_fields w)))"
  by (subst any_key_fields) (simp_all only: fields_distinct fields_named, simp add: window_fields_def)

lemma any_key_server:
  "any_key refused_key (JObj (obj_of (server_fields m)))
     \<longleftrightarrow> (\<exists>k \<in> fst ` (set (mc_env m) \<union> set (mc_headers m) \<union> set (mc_query_params m)). refused_key k)"
  by (subst any_key_fields)
     (simp_all only: fields_distinct fields_named,
      auto simp: server_fields_def any_key_auth simp del: any_key.simps(2) split: option.split)

lemma any_key_document:
  "any_key refused_key (document_value d) \<longleftrightarrow> (\<exists>k \<in> user_keys d. refused_key k)"
  unfolding document_value_def
  by (subst any_key_fields)
     (simp_all only: fields_distinct fields_named,
      auto simp: document_fields_def any_key_profile any_key_window any_key_server list_ex_iff
        user_keys_def simp del: any_key.simps(2))

lemma shallow_document: "shallow max_json_depth 0 (document_value d)"
  by (simp add: document_value_def shallow_fields document_fields_def profile_fields_def
      server_fields_def window_fields_def auth_fields_def max_json_depth_def list_all_iff
      del: shallow.simps(2) split: option.split)

lemma document_version:
  "json_get (document_value d) ''schemaVersion'' = Some (JNum (PosInt (sd_schema_version d)))"
  by (simp add: document_value_def obj_get_of document_fields_def)

subsection \<open>Reading back\<close>

text \<open>
  What the code relies on of serde: a document it wrote is read back as the value its derived
  structure describes, and that value decodes to the document.
\<close>

definition serde_laws :: "settings_serde \<Rightarrow> (str \<Rightarrow> url option) \<Rightarrow> bool" where
  "serde_laws sd parse_url \<longleftrightarrow> (\<forall>d b. document_validate parse_url d = Inr () \<longrightarrow> ser_pretty sd d = Some b
     \<longrightarrow> de_value sd b = Some (document_value d) \<and> de_document sd (document_value d) = Inr d)"

lemma validated_schema: "document_validate u d = Inr () \<Longrightarrow> sd_schema_version d = 1"
  by (auto simp: document_validate_def settings_schema_version_def split: if_splits)

definition unreadable :: "settings_document \<Rightarrow> bool" where
  "unreadable d \<longleftrightarrow> (\<exists>k \<in> user_keys d. refused_key k)"

lemma parse_written:
  assumes "serde_laws sd u" and "document_validate u d = Inr ()" and "ser_pretty sd d = Some b"
    and "length b \<le> max_settings_bytes"
  shows "parse_document sd u b = (if unreadable d then Inl SSecretField else Inr (d, False))"
proof -
  have laws: "de_value sd b = Some (document_value d)" "de_document sd (document_value d) = Inr d"
    using assms by (auto simp: serde_laws_def)
  have depth: "\<not> max_json_depth < json_depth (document_value d) 0"
    using json_depth_le [of "document_value d" max_json_depth] shallow_document by simp
  have keys: "reject_sensitive_keys (document_value d)
      = (if unreadable d then Inl SSecretField else Inr ())"
    by (simp add: reject_sensitive_keys_exact any_key_document unreadable_def)
  show ?thesis
    using laws depth assms(4) keys
    by (simp add: parse_document_def document_version validated_schema [OF assms(2)]
        settings_schema_version_def)
qed

lemma load_file_cong: "d' n = d n \<Longrightarrow> load_file sd u n d' = load_file sd u n d"
  by (simp add: load_file_def read_bounded_def)

lemma path_exists_cong: "d' n = d n \<Longrightarrow> path_exists d' n = path_exists d n"
  by (simp add: path_exists_def)

lemma load_regular:
  "d n = Some (Regular b) \<Longrightarrow> length b \<le> max_settings_bytes
    \<Longrightarrow> load_file sd u n d = and_then (parse_document sd u b) (\<lambda>(x, m). Inr (x, m, b))"
  by (simp add: load_file_def read_bounded_def)

lemma load_okD:
  assumes "load_file sd u n d = Inr (x, m, b)"
  shows "d n = Some (Regular b)" "length b \<le> max_settings_bytes" "parse_document sd u b = Inr (x, m)"
  using assms
  by (auto simp: load_file_def read_bounded_def result_iff split: option.splits entry.splits if_splits)

lemma current_cong:
  "d' settings_file = d settings_file \<Longrightarrow> d' settings_backup_file = d settings_backup_file
    \<Longrightarrow> load_current_locked sd u d' = load_current_locked sd u d"
  by (simp only: load_current_locked_def load_file_cong [of d' settings_file d]
      load_file_cong [of d' settings_backup_file d] path_exists_cong [of d' settings_file d]
      path_exists_cong [of d' settings_backup_file d])

lemma current_primary:
  "load_file sd u settings_file d = Inr (x, m, b) \<Longrightarrow> load_current_locked sd u d = Inr (Some x)"
  by (simp add: load_current_locked_def)

lemma current_of_primary:
  "d' settings_file = d settings_file \<Longrightarrow> load_file sd u settings_file d = Inr (x, m, b)
    \<Longrightarrow> load_current_locked sd u d' = Inr (Some x)"
  using current_primary load_file_cong by metis

lemma current_of_backup:
  assumes "d' settings_file = None" and "d' settings_backup_file = Some (Regular b)"
    and "load_file sd u settings_file d = Inr (x, m, b)"
  shows "load_current_locked sd u d' = Inr (Some x)"
proof -
  have "load_file sd u settings_backup_file d' = Inr (x, m, b)"
    using load_regular [of d' settings_backup_file b, OF assms(2)] load_okD [OF assms(3)] by simp
  moreover have "load_file sd u settings_file d' = Inl SIo"
    by (simp add: load_file_def read_bounded_def assms(1))
  ultimately show ?thesis
    by (simp add: load_current_locked_def path_exists_def assms(1))
qed

lemma current_exists:
  assumes "load_current_locked sd u d = Inr cur" and "path_exists d settings_file"
  obtains x m b where "cur = Some x" "load_file sd u settings_file d = Inr (x, m, b)"
  using assms by (auto simp: load_current_locked_def split: sum.splits prod.splits)

lemma store_names [simp]:
  "settings_backup_file \<notin> touched c settings_file" "settings_file \<notin> touched c settings_backup_file"
  by (simp_all add: touched_def settings_file_def settings_backup_file_def temporary_path_def
      displaced_path_def)

subsection \<open>Writing\<close>

text \<open>
  What the directory holds after a write that was asked to keep the current document: the
  current document, or the new one, and after a success the new one.
\<close>

lemma persist_current:
  assumes "load_current_locked sd u d = Inr cur"
    and "persist_document_locked sd cb cp doc (cur \<noteq> None) d = (r, d')"
    and "ser_pretty sd doc = Some b" and "length b \<le> max_settings_bytes"
  shows "load_current_locked sd u d' = Inr cur
      \<or> d' settings_file = Some (Regular b)"
    and "r = Inr () \<Longrightarrow> d' settings_file = Some (Regular b)"
    and "r = Inr () \<or> r = Inl SIo"
proof -
  define copies where "copies \<longleftrightarrow> cur \<noteq> None \<and> path_exists d settings_file"
  obtain r1 d1 where one: "(if copies
      then atomic_copy cb settings_file settings_backup_file max_settings_bytes d
      else (Inr (), d)) = (r1, d1)" by fastforce
  obtain r2 d2 where two: "atomic_replace cp settings_file b d1 = (r2, d2)" by fastforce
  have step: "(r, d') = (case r1 of Inl _ \<Rightarrow> (Inl SIo, d1) | Inr _ \<Rightarrow> (map_err (\<lambda>_. SIo) r2, d2))"
    using assms(2,3,4) one two
    by (simp add: persist_document_locked_def copies_def split: sum.splits)
  note rep = replacement_outcome [OF two]
  have "(load_current_locked sd u d' = Inr cur \<or> d' settings_file = Some (Regular b))
      \<and> (r = Inr () \<longrightarrow> d' settings_file = Some (Regular b)) \<and> (r = Inr () \<or> r = Inl SIo)"
  proof (cases copies)
    case True
    then obtain x m ob where old: "cur = Some x" "load_file sd u settings_file d = Inr (x, m, ob)"
      using current_exists [OF assms(1)] unfolding copies_def by metis
    note ok = load_okD [OF old(2)]
    have "atomic_replace cb settings_backup_file ob d = (r1, d1)"
      using one True ok by (simp add: atomic_copy_def read_bounded_def)
    note first = replacement_outcome [OF this]
    have d1: "d1 settings_file = d settings_file" using first by simp
    show ?thesis
    proof (cases r1)
      case (Inl e)
      then show ?thesis using step current_of_primary [of d1 d, OF d1 old(2)] old(1) by simp
    next
      case (Inr w)
      then have bak: "d2 settings_backup_file = Some (Regular ob)" using first rep by auto
      have "d' = d2" "r = map_err (\<lambda>_. SIo) r2" using step Inr by simp_all
      moreover have "load_current_locked sd u d2 = Inr (Some x)" if "d2 settings_file = d1 settings_file"
        using current_of_primary [of d2 d, OF _ old(2)] that d1 by simp
      moreover have "load_current_locked sd u d2 = Inr (Some x)" if "d2 settings_file = None"
        using current_of_backup [of d2, OF that bak old(2)] .
      ultimately show ?thesis
        using rep old(1) by (cases r2) (auto simp: old_or_new_def)
    qed
  next
    case False
    then have d1: "r1 = Inr ()" "d1 = d" using one by auto
    have "\<not> path_exists d settings_file"
      using current_exists [OF assms(1)] False unfolding copies_def by (metis option.discI)
    then have keep: "load_current_locked sd u d2 = Inr cur \<or> d2 settings_file = Some (Regular b)"
      using rep assms(1) current_cong [of d2 d] by (auto simp: d1 old_or_new_def)
    then show ?thesis using step rep by (cases r2) (auto simp: d1)
  qed
  then show "load_current_locked sd u d' = Inr cur \<or> d' settings_file = Some (Regular b)"
    "r = Inr () \<Longrightarrow> d' settings_file = Some (Regular b)" "r = Inr () \<or> r = Inl SIo" by auto
qed

subsection \<open>The store as a compare-and-swap\<close>

text \<open>
  The abstract register: the current document or none, replaced when the caller names its
  revision and the new document is its successor and passes \<open>check\<close>.
\<close>

definition revision_of :: "settings_document option \<Rightarrow> nat" where
  "revision_of cur = (case cur of None \<Rightarrow> 0 | Some d \<Rightarrow> sd_revision d)"

definition cas ::
    "(settings_document \<Rightarrow> settings_error + unit) \<Rightarrow> nat \<Rightarrow> settings_document
      \<Rightarrow> settings_document option
      \<Rightarrow> (settings_error + settings_document) \<times> settings_document option" where
  "cas check expected document cur =
     (if expected = u64_max \<or> revision_of cur \<noteq> expected \<or> sd_revision document \<noteq> expected + 1
      then (Inl SRevisionConflict, cur)
      else case check document of
        Inl e \<Rightarrow> (Inl e, cur)
      | Inr _ \<Rightarrow> (Inr document, Some document))"

text \<open>Validation, then what the writer can refuse before it touches a file.\<close>

definition storable ::
    "settings_serde \<Rightarrow> (str \<Rightarrow> url option) \<Rightarrow> settings_document \<Rightarrow> settings_error + unit" where
  "storable sd parse_url document =
     and_then (map_err map_model_error (document_validate parse_url document)) (\<lambda>_.
       case ser_pretty sd document of
         None \<Rightarrow> Inl SInvalidDocument
       | Some b \<Rightarrow> if max_settings_bytes < length b then Inl STooLarge else Inr ())"

lemma compare_and_save_storable:
  assumes "load_current_locked sd u d = Inr cur" and "expected \<le> u64_max"
  shows "compare_and_save sd u False cb cp expected doc d =
     (if expected = u64_max \<or> revision_of cur \<noteq> expected \<or> sd_revision doc \<noteq> expected + 1
      then (Inl SRevisionConflict, d)
      else case storable sd u doc of
        Inl e \<Rightarrow> (Inl e, d)
      | Inr _ \<Rightarrow> (case persist_document_locked sd cb cp doc (cur \<noteq> None) d of
            (Inl e, d1) \<Rightarrow> (Inl e, d1) | (Inr _, d1) \<Rightarrow> (Inr doc, d1)))"
  using assms
  by (auto simp: compare_and_save_def storable_def revision_of_def checked_add64_def
      persist_document_locked_def Let_def split: sum.splits option.splits prod.splits)

lemma storable_ok:
  assumes "storable sd u doc = Inr w"
  obtains b where "document_validate u doc = Inr ()" "ser_pretty sd doc = Some b"
    "length b \<le> max_settings_bytes"
  using assms by (auto simp: storable_def result_iff split: option.splits if_splits)

lemma current_written:
  assumes "serde_laws sd u" and "document_validate u doc = Inr ()" and "ser_pretty sd doc = Some b"
    and "length b \<le> max_settings_bytes" and "d settings_file = Some (Regular b)"
  shows "load_file sd u settings_file d
      = (if unreadable doc then Inl SSecretField else Inr (doc, False, b))"
  using load_regular [of d settings_file b, OF assms(5,4)] parse_written [OF assms(1-4)] by simp

text \<open>
  C27. On a store whose current document can be read, \<open>compare_and_save\<close> of a document that
  every later load accepts is a compare-and-swap on the current document, even if any of its
  system calls fails: it answers and leaves what the abstract register does, or it answers an
  I/O error with the old or the new document current; a conflicting revision is never stored
  and the old document is never lost.
\<close>

theorem settings_cas_refines:
  assumes "serde_laws sd u" and "load_current_locked sd u d = Inr cur"
    and "expected \<le> u64_max" and "\<not> unreadable doc"
    and "compare_and_save sd u False cb cp expected doc d = (r, d')"
  shows "(r, load_current_locked sd u d') = map_prod id Inr (cas (storable sd u) expected doc cur)
    \<or> (r = Inl SIo \<and> snd (cas (storable sd u) expected doc cur) = Some doc
        \<and> load_current_locked sd u d' \<in> {Inr cur, Inr (Some doc)})"
proof (cases "expected = u64_max \<or> revision_of cur \<noteq> expected \<or> sd_revision doc \<noteq> expected + 1")
  case True
  then show ?thesis
    using assms(2,5) compare_and_save_storable [OF assms(2,3)] by (auto simp: cas_def)
next
  case False
  show ?thesis
  proof (cases "storable sd u doc")
    case (Inl e)
    then show ?thesis
      using False assms(2,5) compare_and_save_storable [OF assms(2,3)] by (auto simp: cas_def)
  next
    case (Inr w)
    then obtain b where b: "document_validate u doc = Inr ()" "ser_pretty sd doc = Some b"
      "length b \<le> max_settings_bytes" by (rule storable_ok)
    obtain r1 d1 where p: "persist_document_locked sd cb cp doc (cur \<noteq> None) d = (r1, d1)"
      by fastforce
    note kept = persist_current [OF assms(2) p b(2,3)]
    have new: "load_current_locked sd u d1 = Inr (Some doc)" if "d1 settings_file = Some (Regular b)"
      using current_written [of sd u doc b d1, OF assms(1) b that] assms(4) current_primary by simp
    have "d' = d1" "r = (case r1 of Inl e \<Rightarrow> Inl e | Inr _ \<Rightarrow> Inr doc)"
      using assms(5) False Inr p compare_and_save_storable [OF assms(2,3)]
      by (auto split: sum.splits)
    moreover have "cas (storable sd u) expected doc cur = (Inr doc, Some doc)"
      using False Inr by (simp add: cas_def)
    ultimately show ?thesis using kept new by (cases r1) auto
  qed
qed

text \<open>
  C31. What a successful save leaves in the settings file is read back as that very document,
  except when a key of an MCP server's environment, headers or query parameters is one the
  loader's key scan refuses: then no later load accepts the file. Validation lets such keys
  pass (a header \<open>X-Api-Key\<close>, a key of 97 bytes).
\<close>

theorem settings_saved_read_back:
  assumes "serde_laws sd u" and "load_current_locked sd u d = Inr cur" and "expected \<le> u64_max"
    and "compare_and_save sd u False cb cp expected doc d = (Inr doc', d')"
  shows "doc' = doc \<and> (\<exists>b. ser_pretty sd doc = Some b \<and> load_file sd u settings_file d'
      = (if unreadable doc then Inl SSecretField else Inr (doc, False, b)))"
proof -
  obtain w r1 d1 where s: "storable sd u doc = Inr w" "doc' = doc"
    "persist_document_locked sd cb cp doc (cur \<noteq> None) d = (Inr (), d')"
    using assms(4) compare_and_save_storable [OF assms(2,3)]
    by (auto split: if_splits sum.splits prod.splits)
  obtain b where b: "document_validate u doc = Inr ()" "ser_pretty sd doc = Some b"
      "length b \<le> max_settings_bytes" using s(1) by (rule storable_ok)
  have "d' settings_file = Some (Regular b)"
    using persist_current(2) [OF assms(2) s(3) b(2,3)] by simp
  then show ?thesis
    using current_written [of sd u doc b d', OF assms(1) b] s(2) b(2) by auto
qed

definition sample_server :: mcp_server_setting where
  "sample_server = \<lparr>mc_revision = ''mcp_a'', mc_name = ''a'', mc_transport = ''stdio'',
     mc_endpoint = ''run'', mc_protocol_version = ''2025-06-18'', mc_args = [],
     mc_env = [(''API-KEY'', ''x'')], mc_headers = [], mc_query_params = [], mc_auth = None,
     mc_credential_ref = None, mc_enabled = True\<rparr>"

definition sample_doc :: "mcp_server_setting list \<Rightarrow> settings_document" where
  "sample_doc ms = default_document\<lparr>sd_revision := 1, sd_mcp_servers := ms\<rparr>"

definition sample_serde :: "settings_document \<Rightarrow> settings_serde" where
  "sample_serde d = \<lparr>de_value = \<lambda>_. Some (document_value d), de_document = \<lambda>_. Inr d,
     de_legacy = \<lambda>_. Inl False, ser_pretty = \<lambda>x. if x = d then Some ''A'' else None\<rparr>"

definition good_calls :: atomic_calls where
  "good_calls = \<lparr>at_create_dir = True, at_open = True, at_write = None,
     at_replace = \<lparr>rp_direct = True, rp_displace = True, rp_second = True, rp_cleanup = True\<rparr>,
     at_sync_parent = True, at_remove = True, at_temp_id = ''1'', at_displaced_id = ''2''\<rparr>"

lemma sample_laws: "serde_laws (sample_serde d) u"
  by (simp add: serde_laws_def sample_serde_def)

lemma empty_current: "load_current_locked sd u (\<lambda>_. None) = Inr None"
  by (simp add: load_current_locked_def load_file_def read_bounded_def path_exists_def)

lemma sample_saved:
  assumes "document_validate u (sample_doc ms) = Inr ()"
  shows "compare_and_save (sample_serde (sample_doc ms)) u False good_calls good_calls 0 (sample_doc ms)
    (\<lambda>_. None) = (Inr (sample_doc ms), [settings_file \<mapsto> Regular ''A''])"
proof -
  have "atomic_replace good_calls settings_file ''A'' (\<lambda>_. None) = (Inr (), [settings_file \<mapsto> Regular ''A''])"
    by (auto simp: atomic_replace_def write_temp_def replace_existing_def good_calls_def Let_def
        rename_entry_def)
  then have "persist_document_locked (sample_serde (sample_doc ms)) good_calls good_calls (sample_doc ms)
      False (\<lambda>_. None) = (Inr (), [settings_file \<mapsto> Regular ''A''])"
    by (simp add: persist_document_locked_def sample_serde_def max_settings_bytes_def)
  moreover have "storable (sample_serde (sample_doc ms)) u (sample_doc ms) = Inr ()"
    using assms by (simp add: storable_def sample_serde_def max_settings_bytes_def)
  moreover have "sd_revision (sample_doc ms) = 1" by (simp add: sample_doc_def)
  ultimately show ?thesis
    using compare_and_save_storable [OF empty_current, of 0 _ _ good_calls good_calls "sample_doc ms"]
    by (simp add: revision_of_def u64_max_def)
qed

lemma sample_valid_server: "validate_mcp_server (\<lambda>_. None) sample_server = Inr ()"
  by (simp add: validate_mcp_server_def sample_server_def validate_revision_identifier_def
      revision_shape_def starts_with_def revision_byte_def validate_text_def max_settings_string_def
      mcp_protocol_versions_def contains_sensitive_text_def sensitive_assignments_def
      normalized_text_def to_ascii_lowercase_def validate_mcp_shape_def validate_mcp_entry_def
      contains_sensitive_config_key_def sensitive_keys_def validate_mcp_value_def byte_defs)

lemma sample_doc_valid:
  "document_validate (\<lambda>_. None) (sample_doc [])= Inr ()"
  "document_validate (\<lambda>_. None) (sample_doc [sample_server]) = Inr ()"
  by (simp_all add: document_validate_def sample_doc_def default_document_def max_profiles_def
      max_mcp_servers_def window_validate_def default_window_def sample_valid_server)

theorem settings_cas_refines_witness:
  "load_current_locked (sample_serde (sample_doc [])) (\<lambda>_. None) [settings_file \<mapsto> Regular ''A'']
     = Inr (Some (sample_doc []))"
proof -
  have "\<not> unreadable (sample_doc [])"
    by (simp add: unreadable_def user_keys_def sample_doc_def default_document_def)
  from settings_cas_refines [OF sample_laws empty_current _ this sample_saved [OF sample_doc_valid(1)]]
  show ?thesis
    by (auto simp: cas_def u64_max_def split: if_splits sum.splits)
qed

theorem settings_saved_read_back_witness:
  "load_file (sample_serde (sample_doc [sample_server])) (\<lambda>_. None) settings_file
     [settings_file \<mapsto> Regular ''A''] = Inl SSecretField"
proof -
  have "is_sensitive_key ''API-KEY''" by code_simp
  then have "unreadable (sample_doc [sample_server])"
    by (simp add: unreadable_def user_keys_def sample_doc_def sample_server_def refused_key_def)
  then show ?thesis
    using settings_saved_read_back [OF sample_laws empty_current _ sample_saved [OF sample_doc_valid(2)]]
    by simp
qed

end
