(* ===== verification/Ja_Secrets.thy ===== *)
theory Ja_Secrets
  imports Ja_Settings_Cas Ja_Command_Error
begin

text \<open>
  Credentials and who may have them: the keyring adapter and the expiring delivery
  (\<open>settings/credentials.rs\<close>), the frozen workspace and profile with its projection to the
  sidecar (\<open>app_runtime/config.rs\<close>), and the nested \<open>secret/resolve\<close> request
  (\<open>app_runtime/bridge.rs\<close>). The native keyring is a map of accounts, \<open>up\<close> whether it answers.
\<close>

subsection \<open>The keyring\<close>

datatype credential_purpose = PurposeModel | PurposeMcp

fun as_key_prefix :: "credential_purpose \<Rightarrow> str" where
  "as_key_prefix PurposeModel = ''model''"
| "as_key_prefix PurposeMcp = ''mcp''"

datatype secret_error =
    SeInvalidReference | SeEmptySecret | SeSecretTooLarge | SeNotFound | SeStoreUnavailable
  | SeDeliveryExpired | SeDeliveryFailed

datatype secret_delivery_error = DeClosed | DeRejected | DeIo

record runtime_secret_delivery =
  dl_bytes :: bytes
  dl_expires_at :: nanos

definition max_secret_bytes :: nat where "max_secret_bytes = 1048576"
definition delivery_ttl :: nanos where "delivery_ttl = 60 * 1000000000"

type_synonym keyring = "str \<Rightarrow> str option"

definition account_name :: "credential_purpose \<Rightarrow> credential_ref \<Rightarrow> str" where
  "account_name p r = as_key_prefix p @ '':'' @ r"

definition validate_reference :: "credential_ref \<Rightarrow> secret_error + unit" where
  "validate_reference r = map_err (\<lambda>_. SeInvalidReference) (and_then (credential_parse r) (\<lambda>_. Inr ()))"

definition validate_secret_input :: "credential_ref \<Rightarrow> str \<Rightarrow> secret_error + unit" where
  "validate_secret_input r secret =
     and_then (validate_reference r) (\<lambda>_.
       if secret = [] then Inl SeEmptySecret
       else if max_secret_bytes < length secret then Inl SeSecretTooLarge
       else Inr ())"

definition delivery_new :: "nanos \<Rightarrow> str \<Rightarrow> secret_error + runtime_secret_delivery" where
  "delivery_new now secret =
     (if secret = [] then Inl SeEmptySecret
      else if max_secret_bytes < length secret then Inl SeSecretTooLarge
      else Inr \<lparr>dl_bytes = secret, dl_expires_at = now + delivery_ttl\<rparr>)"

definition deliver ::
    "nanos \<Rightarrow> runtime_secret_delivery \<Rightarrow> (bytes \<Rightarrow> secret_delivery_error + 'a) \<Rightarrow> secret_error + 'a" where
  "deliver now d channel =
     (if dl_expires_at d \<le> now then Inl SeDeliveryExpired
      else map_err (\<lambda>_. SeDeliveryFailed) (channel (dl_bytes d)))"

definition keyring_set ::
    "bool \<Rightarrow> credential_purpose \<Rightarrow> credential_ref \<Rightarrow> str \<Rightarrow> keyring \<Rightarrow> (secret_error + unit) \<times> keyring" where
  "keyring_set up p r secret k =
     (case validate_secret_input r secret of
        Inl e \<Rightarrow> (Inl e, k)
      | Inr _ \<Rightarrow> if up then (Inr (), k(account_name p r \<mapsto> secret)) else (Inl SeStoreUnavailable, k))"

definition keyring_get ::
    "bool \<Rightarrow> nanos \<Rightarrow> credential_purpose \<Rightarrow> credential_ref \<Rightarrow> keyring
      \<Rightarrow> secret_error + runtime_secret_delivery" where
  "keyring_get up now p r k =
     and_then (validate_reference r) (\<lambda>_.
       if \<not> up then Inl SeStoreUnavailable
       else and_then (ok_or (k (account_name p r)) SeNotFound) (delivery_new now))"

definition keyring_delete ::
    "bool \<Rightarrow> credential_purpose \<Rightarrow> credential_ref \<Rightarrow> keyring \<Rightarrow> (secret_error + unit) \<times> keyring" where
  "keyring_delete up p r k =
     (case validate_reference r of
        Inl e \<Rightarrow> (Inl e, k)
      | Inr _ \<Rightarrow> if up then (Inr (), k(account_name p r := None)) else (Inl SeStoreUnavailable, k))"

text \<open>The two commands of the user interface.\<close>

definition set_credential ::
    "bool \<Rightarrow> credential_purpose \<Rightarrow> str \<Rightarrow> str \<Rightarrow> keyring \<Rightarrow> (secret_error + unit) \<times> keyring" where
  "set_credential up p reference secret k =
     (case credential_parse reference of
        Inl _ \<Rightarrow> (Inl SeInvalidReference, k)
      | Inr r \<Rightarrow> keyring_set up p r secret k)"

definition delete_credential ::
    "bool \<Rightarrow> credential_purpose \<Rightarrow> str \<Rightarrow> keyring \<Rightarrow> (secret_error + unit) \<times> keyring" where
  "delete_credential up p reference k =
     (case credential_parse reference of
        Inl _ \<Rightarrow> (Inl SeInvalidReference, k)
      | Inr r \<Rightarrow> keyring_delete up p r k)"

subsection \<open>The frozen configuration\<close>

record runtime_replay_config =
  rc_workspace_id :: str
  rc_root_path :: str
  rc_display_name :: "str option"
  rc_trust :: str
  rc_profile :: profile_setting
  rc_skill_revisions :: "str list"
  rc_mcp_servers :: "mcp_server_setting list"

record runtime_configure_input =
  ci_workspace_id :: str
  ci_root_path :: str
  ci_display_name :: "str option"
  ci_trust :: str
  ci_settings :: settings_document

text \<open>What the file system says of the selected path.\<close>

record path_metadata =
  pm_symlink :: bool
  pm_reparse_point :: bool
  pm_dir :: bool

definition select_mcp_servers ::
    "profile_setting \<Rightarrow> mcp_server_setting list \<Rightarrow> mcp_server_setting list" where
  "select_mcp_servers profile servers =
     (let enabled = filter mc_enabled servers in
      case pr_mcp_revisions profile of
        None \<Rightarrow> enabled
      | Some revisions \<Rightarrow> List.map_filter (\<lambda>r. find_mcp r enabled) revisions)"

definition replay_from_input ::
    "(str \<Rightarrow> url option) \<Rightarrow> (str \<Rightarrow> path_metadata option) \<Rightarrow> (str \<Rightarrow> str option)
      \<Rightarrow> runtime_configure_input \<Rightarrow> command_error + runtime_replay_config" where
  "replay_from_input parse_url metadata canonicalize input =
     and_then (map_err (\<lambda>_. err_invalid_params) (document_validate parse_url (ci_settings input))) (\<lambda>_.
     if \<not> starts_with (ci_workspace_id input) ''ws_'' \<or> \<not> valid_text_id (ci_workspace_id input) 128
        \<or> ci_trust input \<notin> {''untrusted'', ''trusted''}
        \<or> ci_root_path input = [] \<or> 4096 < length (ci_root_path input)
        \<or> has_control (ci_root_path input)
        \<or> opt_ex (\<lambda>v. v = [] \<or> 256 < length v \<or> has_control v) (ci_display_name input)
     then Inl err_invalid_params
     else and_then (ok_or (metadata (ci_root_path input)) err_configuration) (\<lambda>m.
     if pm_symlink m \<or> pm_reparse_point m \<or> \<not> pm_dir m then Inl err_configuration
     else and_then (ok_or (canonicalize (ci_root_path input)) err_configuration) (\<lambda>root.
     and_then (ok_or (sd_active_profile_revision (ci_settings input)) err_profile_unavailable) (\<lambda>active.
     and_then (ok_or (List.find (\<lambda>p. pr_revision p = active) (sd_profiles (ci_settings input)))
         err_profile_unavailable) (\<lambda>profile.
     let servers = select_mcp_servers profile (sd_mcp_servers (ci_settings input)) in
     if list_ex (\<lambda>s. \<not> valid_text_id (mc_revision s) 128) servers then Inl err_invalid_params
     else Inr \<lparr>rc_workspace_id = ci_workspace_id input, rc_root_path = root,
            rc_display_name = ci_display_name input, rc_trust = ci_trust input,
            rc_profile = profile, rc_skill_revisions = pr_skill_revisions profile,
            rc_mcp_servers = servers\<rparr>)))))"

definition model_credential :: "runtime_replay_config \<Rightarrow> credential_ref option" where
  "model_credential cfg = pr_credential_ref (rc_profile cfg)"

definition replay_mcp :: "runtime_replay_config \<Rightarrow> str \<Rightarrow> mcp_server_setting option" where
  "replay_mcp cfg revision = find_mcp revision (rc_mcp_servers cfg)"

definition mcp_credential :: "mcp_server_setting \<Rightarrow> credential_ref option" where
  "mcp_credential server =
     (case Option.bind (mc_auth server) au_credential_ref of
        Some r \<Rightarrow> Some r
      | None \<Rightarrow> mc_credential_ref server)"

definition opt_field :: "str \<Rightarrow> str option \<Rightarrow> (str \<times> json) list" where
  "opt_field k x = (case x of None \<Rightarrow> [] | Some v \<Rightarrow> [(k, JStr v)])"

definition profile_params :: "runtime_replay_config \<Rightarrow> json" where
  "profile_params cfg =
     (let p = rc_profile cfg;
          model = JObj (obj_of ([(''provider'', JStr (pr_provider p)),
              (''protocol'', JStr (protocol_name_of (pr_protocol p))),
              (''model'', JStr (pr_model p)), (''supportsVision'', JBool (pr_supports_vision p))]
            @ opt_field ''baseUrl'' (pr_base_url p)
            @ opt_field ''credentialRef'' (pr_credential_ref p)))
      in JObj (obj_of [(''profileRevision'', JStr (pr_revision p)), (''name'', JStr (pr_name p)),
           (''accessMode'', JStr (access_mode_name (pr_access_mode p))),
           (''skillRevisions'', strings_value (rc_skill_revisions cfg)),
           (''mcpRevisions'', strings_value (map mc_revision (rc_mcp_servers cfg))),
           (''model'', model)]))"

definition mcp_auth_params :: "mcp_server_setting \<Rightarrow> json" where
  "mcp_auth_params server =
     (case mc_auth server of
        Some auth \<Rightarrow> JObj (obj_of ([(''kind'', JStr (auth_kind_name (au_kind auth)))]
          @ opt_field ''name'' (au_name auth)
          @ opt_field ''credentialRef'' (au_credential_ref auth)))
      | None \<Rightarrow> (case mc_credential_ref server of
          Some r \<Rightarrow> if mc_transport server = ''stdio''
            then JObj (obj_of [(''kind'', JStr ''env''), (''name'', JStr ''JA_MCP_SECRET''),
              (''credentialRef'', JStr r)])
            else JObj (obj_of [(''kind'', JStr ''bearer''), (''credentialRef'', JStr r)])
        | None \<Rightarrow> JObj (obj_of [(''kind'', JStr ''none'')])))"

definition mcp_params :: "mcp_server_setting \<Rightarrow> json" where
  "mcp_params server =
     JObj (obj_of ([(''mcpRevision'', JStr (mc_revision server)), (''name'', JStr (mc_name server)),
         (''transport'', JStr (mc_transport server)), (''endpoint'', JStr (mc_endpoint server)),
         (''protocolVersion'', JStr (mc_protocol_version server)),
         (''enabled'', JBool (mc_enabled server))]
       @ (if mc_transport server = ''stdio'' then
            (if mc_args server \<noteq> [] then [(''args'', strings_value (mc_args server))] else [])
            @ (if mc_env server \<noteq> [] then [(''env'', map_value (mc_env server))] else [])
          else
            (if mc_headers server \<noteq> [] then [(''headers'', map_value (mc_headers server))] else [])
            @ (if mc_query_params server \<noteq> []
               then [(''queryParams'', map_value (mc_query_params server))] else []))
       @ [(''auth'', mcp_auth_params server)]))"

subsection \<open>Resolving a secret\<close>

datatype secret_response_error = SecretNotFound | SecretDenied

text \<open>\<open>SecretStringChannel\<close>: the secret has to be UTF-8.\<close>

definition string_channel :: "bytes \<Rightarrow> secret_delivery_error + str" where
  "string_channel b = (if utf8_valid b then Inr b else Inl DeRejected)"

definition requested_purpose :: "obj \<Rightarrow> secret_response_error + credential_purpose" where
  "requested_purpose params =
     (case get_str params ''purpose'' of
        Some p \<Rightarrow> if p = ''model'' then Inr PurposeModel
          else if p = ''mcp'' then Inr PurposeMcp else Inl SecretDenied
      | None \<Rightarrow> Inl SecretDenied)"

definition requested_ref :: "obj \<Rightarrow> secret_response_error + credential_ref" where
  "requested_ref params =
     ok_or (Option.bind (get_str params ''credentialRef'')
        (\<lambda>v. case credential_parse v of Inl _ \<Rightarrow> None | Inr r \<Rightarrow> Some r)) SecretDenied"

definition authorized ::
    "runtime_replay_config \<Rightarrow> obj \<Rightarrow> credential_purpose \<Rightarrow> credential_ref
      \<Rightarrow> secret_response_error + unit" where
  "authorized cfg params purpose r =
     (case purpose of
        PurposeModel \<Rightarrow>
          if obj_get params ''mcpRevision'' \<noteq> None \<or> model_credential cfg \<noteq> Some r
          then Inl SecretDenied else Inr ()
      | PurposeMcp \<Rightarrow>
          and_then (ok_or (filter_opt (\<lambda>v. valid_text_id v 128) (get_str params ''mcpRevision''))
              SecretDenied) (\<lambda>revision.
            and_then (ok_or (replay_mcp cfg revision) SecretDenied) (\<lambda>server.
              if mcp_credential server \<noteq> Some r then Inl SecretDenied else Inr ())))"

definition resolve_secret ::
    "runtime_replay_config option
      \<Rightarrow> (credential_purpose \<Rightarrow> credential_ref \<Rightarrow> secret_error + runtime_secret_delivery)
      \<Rightarrow> nanos \<Rightarrow> rpc_frame \<Rightarrow> secret_response_error + str" where
  "resolve_secret replay backend now f =
     and_then (ok_or (Option.bind (frame_params f) as_object) SecretDenied) (\<lambda>params.
     and_then (requested_purpose params) (\<lambda>purpose.
     and_then (requested_ref params) (\<lambda>r.
     and_then (ok_or (filter_opt (\<lambda>v. valid_text_id v 128) (get_str params ''profileRevision''))
         SecretDenied) (\<lambda>profile_revision.
     and_then (ok_or replay SecretDenied) (\<lambda>cfg.
     if pr_revision (rc_profile cfg) \<noteq> profile_revision then Inl SecretDenied
     else and_then (authorized cfg params purpose r) (\<lambda>_.
     and_then (map_err (\<lambda>e. if e = SeNotFound then SecretNotFound else SecretDenied)
         (backend purpose r)) (\<lambda>delivery.
     map_err (\<lambda>_. SecretDenied) (deliver now delivery string_channel))))))))"

subsection \<open>Accounts\<close>

lemma account_name_inj: "account_name p r = account_name p' r' \<longleftrightarrow> p = p' \<and> r = r'"
  by (cases p; cases p') (auto simp: account_name_def)

lemma set_get:
  assumes "keyring_set up p r s k = (Inr (), k')"
  shows "keyring_get True now p' r' k' =
    (if p' = p \<and> r' = r then Inr \<lparr>dl_bytes = s, dl_expires_at = now + delivery_ttl\<rparr>
     else keyring_get True now p' r' k)"
proof -
  have ok: "validate_secret_input r s = Inr ()" and k': "k' = k(account_name p r \<mapsto> s)"
    using assms by (auto simp: keyring_set_def split: sum.splits if_splits)
  from ok have "validate_reference r = Inr ()" "s \<noteq> []" "length s \<le> max_secret_bytes"
    by (auto simp: validate_secret_input_def result_iff)
  then show ?thesis by (simp add: keyring_get_def k' account_name_inj delivery_new_def)
qed

subsection \<open>What validation promises of a configuration\<close>

lemma revision_text_id: "revision_shape v pre \<Longrightarrow> valid_text_id v 128 \<longleftrightarrow> list_all text_id_byte pre \<and> v \<noteq> []"
  by (auto simp: revision_shape_def valid_text_id_def starts_with_iff_prefix prefix_def list_all_iff
      revision_byte_def text_id_byte_def)

lemma validated_profile:
  assumes "document_validate u d = Inr ()" and "p \<in> set (sd_profiles d)"
  shows "validate_profile u (sd_mcp_servers d) p = Inr ()"
  using assms by (auto simp: document_validate_def result_iff)

lemma validated_server:
  assumes "document_validate u d = Inr ()" and "m \<in> set (sd_mcp_servers d)"
  shows "validate_mcp_server u m = Inr ()"
  using assms by (auto simp: document_validate_def result_iff)

lemma profileD:
  assumes "validate_profile u ms p = Inr ()"
  shows "valid_text_id (pr_revision p) 128"
    and "pr_credential_ref p = Some r \<Longrightarrow> credential_parse r = Inr r"
    and "pr_mcp_revisions p = Some rs \<Longrightarrow> q \<in> set rs
      \<Longrightarrow> \<exists>m. find_mcp q ms = Some m \<and> mc_enabled m"
proof -
  have "revision_shape (pr_revision p) ''profile_''"
    using assms by (auto simp: validate_profile_def result_iff validate_revision_identifier_def)
  then show "valid_text_id (pr_revision p) 128"
    using revision_text_id [of "pr_revision p" "''profile_''"]
    by (auto simp: text_id_byte_def byte_defs revision_shape_def)
  show "credential_parse r = Inr r" if "pr_credential_ref p = Some r"
    using assms that by (auto simp: validate_profile_def result_iff credential_parse_def split: if_splits)
  show "\<exists>m. find_mcp q ms = Some m \<and> mc_enabled m" if "pr_mcp_revisions p = Some rs" "q \<in> set rs"
    using assms that by (auto simp: validate_profile_def result_iff validate_selection_def)
qed

lemma serverD:
  assumes "validate_mcp_server u m = Inr ()"
  shows "valid_text_id (mc_revision m) 128"
    and "mcp_credential m = Some r \<Longrightarrow> credential_parse r = Inr r"
    and "mc_auth m \<noteq> None \<Longrightarrow> mc_credential_ref m = None"
proof -
  have "revision_shape (mc_revision m) ''mcp_''"
    using assms by (auto simp: validate_mcp_server_def result_iff validate_revision_identifier_def)
  then show "valid_text_id (mc_revision m) 128"
    using revision_text_id [of "mc_revision m" "''mcp_''"]
    by (auto simp: text_id_byte_def byte_defs revision_shape_def)
  have auth: "validate_mcp_auth m a = Inr ()" if "mc_auth m = Some a" for a
    using assms that by (auto simp: validate_mcp_server_def validate_mcp_shape_def result_iff)
  then show "mc_auth m \<noteq> None \<Longrightarrow> mc_credential_ref m = None"
    by (auto simp: validate_mcp_auth_def split: if_splits)
  have top: "credential_parse q = Inr q" if "mc_credential_ref m = Some q" for q
    using assms that by (auto simp: validate_mcp_server_def result_iff credential_parse_def split: if_splits)
  have "credential_parse q = Inr q" if "mc_auth m = Some a" "au_credential_ref a = Some q" for a q
    using auth [OF that(1)] that(2)
    by (auto simp: validate_mcp_auth_def result_iff credential_parse_def split: if_splits)
  with top show "credential_parse r = Inr r" if "mcp_credential m = Some r"
    using that by (auto simp: mcp_credential_def bind_eq_Some_conv split: option.splits)
qed

lemma find_mcp_Some: "find_mcp q ms = Some m \<Longrightarrow> m \<in> set ms \<and> mc_revision m = q"
  unfolding find_mcp_def by (drule find_member) auto

lemma find_mcp_enabled:
  "find_mcp q ms = Some m \<Longrightarrow> mc_enabled m \<Longrightarrow> find_mcp q (filter mc_enabled ms) = Some m"
  by (induction ms) (auto simp: find_mcp_def split: if_splits)

lemma replayD:
  assumes "replay_from_input u metadata canon input = Inr cfg"
  shows "document_validate u (ci_settings input) = Inr ()"
    and "rc_profile cfg \<in> set (sd_profiles (ci_settings input))"
    and "rc_mcp_servers cfg = select_mcp_servers (rc_profile cfg) (sd_mcp_servers (ci_settings input))"
    and "sd_active_profile_revision (ci_settings input) = Some (pr_revision (rc_profile cfg))"
proof -
  obtain profile where p: "List.find (\<lambda>p. Some (pr_revision p) = sd_active_profile_revision (ci_settings input))
      (sd_profiles (ci_settings input)) = Some profile" "rc_profile cfg = profile"
    and rest: "document_validate u (ci_settings input) = Inr ()"
      "rc_mcp_servers cfg = select_mcp_servers profile (sd_mcp_servers (ci_settings input))"
    using assms by (auto simp: replay_from_input_def result_iff Let_def)
  show "document_validate u (ci_settings input) = Inr ()"
    "rc_mcp_servers cfg = select_mcp_servers (rc_profile cfg) (sd_mcp_servers (ci_settings input))"
    using rest p by simp_all
  show "rc_profile cfg \<in> set (sd_profiles (ci_settings input))"
    "sd_active_profile_revision (ci_settings input) = Some (pr_revision (rc_profile cfg))"
    using find_member [OF p(1)] p(2) by simp_all
qed

lemma map_filter_member: "y \<in> set (List.map_filter f xs) \<Longrightarrow> \<exists>x. f x = Some y"
  by (induction xs) (auto simp: map_filter_simps split: option.splits)

lemma selected_member:
  assumes "m \<in> set (select_mcp_servers p ms)"
  shows "m \<in> set ms \<and> mc_enabled m"
proof (cases "pr_mcp_revisions p")
  case None
  then show ?thesis using assms by (simp add: select_mcp_servers_def)
next
  case (Some rs)
  then obtain q where "find_mcp q (filter mc_enabled ms) = Some m"
    using assms map_filter_member by (fastforce simp: select_mcp_servers_def)
  then show ?thesis using find_mcp_Some by fastforce
qed

lemma selected_all:
  assumes "\<And>q. q \<in> set rs \<Longrightarrow> \<exists>m. find_mcp q ms = Some m \<and> mc_enabled m"
  shows "map mc_revision (List.map_filter (\<lambda>q. find_mcp q (filter mc_enabled ms)) rs) = rs"
  using assms
proof (induction rs)
  case (Cons q rs)
  then obtain m where "find_mcp q ms = Some m" "mc_enabled m" by auto
  then show ?case
    using Cons find_mcp_enabled [of q ms m] find_mcp_Some [of q ms m]
    by (simp add: map_filter_simps)
qed (simp add: map_filter_simps)

lemma replay_server:
  assumes "replay_from_input u metadata canon input = Inr cfg" and "m \<in> set (rc_mcp_servers cfg)"
  shows "validate_mcp_server u m = Inr ()"
  using validated_server [OF replayD(1) [OF assms(1)]] selected_member assms(2)
  unfolding replayD(3) [OF assms(1)] by blast

subsection \<open>What the wire shows\<close>

definition wire_model_ref :: "runtime_replay_config \<Rightarrow> str option" where
  "wire_model_ref cfg = Option.bind (Option.bind (json_get (profile_params cfg) ''model'')
     (\<lambda>m. json_get m ''credentialRef'')) as_str"

definition wire_mcp_ref :: "mcp_server_setting \<Rightarrow> str option" where
  "wire_mcp_ref m = Option.bind (Option.bind (json_get (mcp_params m) ''auth'')
     (\<lambda>a. json_get a ''credentialRef'')) as_str"

lemma wire_model: "wire_model_ref cfg = model_credential cfg"
  by (simp add: wire_model_ref_def profile_params_def obj_get_of model_credential_def Let_def
      opt_field_def split: option.split)

lemma wire_mcp:
  "mc_auth m \<noteq> None \<Longrightarrow> mc_credential_ref m = None \<Longrightarrow> wire_mcp_ref m = mcp_credential m"
  "mc_auth m = None \<Longrightarrow> wire_mcp_ref m = mcp_credential m"
  by (auto simp: wire_mcp_ref_def mcp_params_def obj_get_of mcp_auth_params_def mcp_credential_def
      opt_field_def split: option.split)

text \<open>The requests that the projected configuration grants.\<close>

definition wire_grants ::
    "runtime_replay_config \<Rightarrow> obj \<Rightarrow> credential_purpose \<Rightarrow> credential_ref \<Rightarrow> bool" where
  "wire_grants cfg params p r \<longleftrightarrow>
     (case p of
        PurposeModel \<Rightarrow> get_str params ''purpose'' = Some ''model''
          \<and> obj_get params ''mcpRevision'' = None \<and> wire_model_ref cfg = Some r
      | PurposeMcp \<Rightarrow> get_str params ''purpose'' = Some ''mcp''
          \<and> (\<exists>q m. get_str params ''mcpRevision'' = Some q
               \<and> find_mcp q (rc_mcp_servers cfg) = Some m \<and> wire_mcp_ref m = Some r))"

lemma authorized_wire:
  assumes "replay_from_input u metadata canon input = Inr cfg"
  shows "requested_purpose params = Inr p \<and> authorized cfg params p r = Inr ()
    \<longleftrightarrow> wire_grants cfg params p r"
proof (cases p)
  case PurposeModel
  then show ?thesis
    by (auto simp: requested_purpose_def authorized_def wire_grants_def wire_model split: option.splits)
next
  case PurposeMcp
  have m: "wire_mcp_ref m = mcp_credential m \<and> valid_text_id q 128"
    if "find_mcp q (rc_mcp_servers cfg) = Some m" for q m
  proof -
    have m: "m \<in> set (rc_mcp_servers cfg)" "mc_revision m = q" using find_mcp_Some [OF that] by simp_all
    note ok = serverD(1,3) [OF replay_server [OF assms m(1)]]
    show ?thesis
      using ok m(2) wire_mcp [of m] by (cases "mc_auth m = None") simp_all
  qed
  show ?thesis
    using m by (auto simp: PurposeMcp requested_purpose_def authorized_def wire_grants_def
        replay_mcp_def result_iff split: option.splits)
qed

lemma granted_parses:
  assumes "replay_from_input u metadata canon input = Inr cfg" and "wire_grants cfg params p r"
  shows "credential_parse r = Inr r"
proof (cases p)
  case PurposeModel
  then show ?thesis
    using assms(2) profileD(2) [OF validated_profile [OF replayD(1,2) [OF assms(1)]]]
    by (simp add: wire_grants_def wire_model model_credential_def)
next
  case PurposeMcp
  then obtain q m where m: "find_mcp q (rc_mcp_servers cfg) = Some m" "wire_mcp_ref m = Some r"
    using assms(2) by (auto simp: wire_grants_def)
  then have "validate_mcp_server u m = Inr ()"
    using find_mcp_Some replay_server [OF assms(1)] by blast
  then show ?thesis using serverD(2,3) [of u m] wire_mcp [of m] m(2) by fastforce
qed

subsection \<open>Properties\<close>

text \<open>
  C5. A secret is released exactly for a request that the projection of the frozen
  configuration grants: it names the active profile's revision and either the model credential
  the profile shows on the wire, without an MCP revision, or the credential a selected MCP
  server shows on the wire under its own revision; and then it is the bytes the vault delivers
  for that very purpose and reference, if they are UTF-8 and the delivery has not expired.
\<close>

theorem secret_release_exact:
  assumes "replay_from_input u metadata canon input = Inr cfg"
  shows "resolve_secret (Some cfg) backend now f = Inr secret \<longleftrightarrow>
    (\<exists>params p r d. frame_params f = Some (JObj params)
       \<and> get_str params ''profileRevision'' = Some (pr_revision (rc_profile cfg))
       \<and> get_str params ''credentialRef'' = Some r \<and> wire_grants cfg params p r
       \<and> backend p r = Inr d \<and> now < dl_expires_at d \<and> utf8_valid (dl_bytes d)
       \<and> secret = dl_bytes d)"
proof -
  have profile: "valid_text_id (pr_revision (rc_profile cfg)) 128"
    by (rule profileD(1) [OF validated_profile [OF replayD(1,2) [OF assms]]])
  have parse: "requested_ref params = Inr r \<longleftrightarrow>
      get_str params ''credentialRef'' = Some r \<and> credential_parse r = Inr r" for params r
    by (auto simp: requested_ref_def result_iff bind_eq_Some_conv credential_parse_def
        split: sum.splits if_splits)
  have give: "deliver now d string_channel = Inr secret \<longleftrightarrow>
      now < dl_expires_at d \<and> utf8_valid (dl_bytes d) \<and> secret = dl_bytes d" for d
    by (auto simp: deliver_def string_channel_def)
  have "resolve_secret (Some cfg) backend now f = Inr secret \<longleftrightarrow>
    (\<exists>params p r d. frame_params f = Some (JObj params)
       \<and> get_str params ''profileRevision'' = Some (pr_revision (rc_profile cfg))
       \<and> requested_ref params = Inr r
       \<and> (requested_purpose params = Inr p \<and> authorized cfg params p r = Inr ())
       \<and> backend p r = Inr d \<and> deliver now d string_channel = Inr secret)"
    using profile
    by (auto simp: resolve_secret_def result_iff bind_eq_Some_conv)
  then show ?thesis
    unfolding authorized_wire [OF assms] parse give using granted_parses [OF assms] by blast
qed

text \<open>
  A configuration keeps exactly the MCP servers its active profile asks for: the listed
  revisions, all of them, in the listed order, or every enabled server when the profile has no
  list; and each of them is an enabled server of the settings. The filter that skips a missing
  revision never drops one.
\<close>

theorem replay_selection_exact:
  assumes "replay_from_input u metadata canon input = Inr cfg"
  shows "(case pr_mcp_revisions (rc_profile cfg) of
       None \<Rightarrow> rc_mcp_servers cfg = filter mc_enabled (sd_mcp_servers (ci_settings input))
     | Some rs \<Rightarrow> map mc_revision (rc_mcp_servers cfg) = rs)
    \<and> (\<forall>m \<in> set (rc_mcp_servers cfg). m \<in> set (sd_mcp_servers (ci_settings input)) \<and> mc_enabled m)
    \<and> sd_active_profile_revision (ci_settings input) = Some (pr_revision (rc_profile cfg))"
proof -
  let ?p = "rc_profile cfg" and ?ms = "sd_mcp_servers (ci_settings input)"
  have all: "map mc_revision (select_mcp_servers ?p ?ms) = rs" if "pr_mcp_revisions ?p = Some rs" for rs
  proof -
    have "\<exists>m. find_mcp q ?ms = Some m \<and> mc_enabled m" if "q \<in> set rs" for q
      using profileD(3) [OF validated_profile [OF replayD(1,2) [OF assms]]] \<open>pr_mcp_revisions ?p = Some rs\<close> that
      by blast
    then show ?thesis using selected_all that by (simp add: select_mcp_servers_def Let_def)
  qed
  have members: "\<forall>m \<in> set (select_mcp_servers ?p ?ms). m \<in> set ?ms \<and> mc_enabled m"
    using selected_member by blast
  have none: "select_mcp_servers ?p ?ms = filter mc_enabled ?ms" if "pr_mcp_revisions ?p = None"
    using that by (simp add: select_mcp_servers_def)
  have "case pr_mcp_revisions ?p of
       None \<Rightarrow> select_mcp_servers ?p ?ms = filter mc_enabled ?ms
     | Some rs \<Rightarrow> map mc_revision (select_mcp_servers ?p ?ms) = rs"
    using all none by (simp split: option.split)
  then show ?thesis
    unfolding replayD(3) [OF assms] using members replayD(4) [OF assms] by blast
qed

text \<open>
  The keyring keeps accounts apart: what \<open>set\<close> stored is delivered for that purpose and
  reference, once and for at most a minute, and nothing another purpose or another reference
  delivers has changed.
\<close>

theorem credentials_kept_apart:
  assumes "keyring_set up p r secret k = (Inr (), k')"
  shows "keyring_get True now p' r' k' =
      (if p' = p \<and> r' = r then Inr \<lparr>dl_bytes = secret, dl_expires_at = now + delivery_ttl\<rparr>
       else keyring_get True now p' r' k)
    \<and> (\<forall>t d. keyring_get True now p r k' = Inr d \<longrightarrow>
         deliver t d string_channel =
           (if t < now + delivery_ttl \<and> utf8_valid secret then Inr secret
            else Inl (if now + delivery_ttl \<le> t then SeDeliveryExpired else SeDeliveryFailed)))"
  using set_get [OF assms, of now] by (auto simp: deliver_def string_channel_def)

subsection \<open>Witnesses\<close>

definition sample_profile :: profile_setting where
  "sample_profile = \<lparr>pr_revision = ''profile_a'', pr_name = ''a'', pr_provider = ''p'',
     pr_protocol = AnthropicMessages, pr_model = ''m'', pr_base_url = None,
     pr_credential_ref = Some ''cred_a'', pr_supports_vision = False,
     pr_access_mode = AmWorkspace, pr_skill_revisions = [], pr_mcp_revisions = Some [''mcp_a'']\<rparr>"

definition sample_configure :: runtime_configure_input where
  "sample_configure = \<lparr>ci_workspace_id = ''ws_a'', ci_root_path = ''/w'', ci_display_name = None,
     ci_trust = ''trusted'', ci_settings = (sample_doc [sample_server])
       \<lparr>sd_active_profile_revision := Some ''profile_a'', sd_profiles := [sample_profile]\<rparr>\<rparr>"

definition sample_cfg :: runtime_replay_config where
  "sample_cfg = \<lparr>rc_workspace_id = ''ws_a'', rc_root_path = ''/w'', rc_display_name = None,
     rc_trust = ''trusted'', rc_profile = sample_profile, rc_skill_revisions = [],
     rc_mcp_servers = [sample_server]\<rparr>"

lemma sample_profile_valid:
  "validate_profile (\<lambda>_. None) [sample_server] sample_profile = Inr ()"
  by (simp add: validate_profile_def sample_profile_def validate_revision_identifier_def
      revision_shape_def starts_with_def revision_byte_def validate_text_def max_settings_string_def
      validate_revision_list_def validate_selection_def find_mcp_def sample_server_def
      credential_parse_def byte_defs)

lemma sample_settings_valid:
  "document_validate (\<lambda>_. None) (ci_settings sample_configure) = Inr ()"
  by (simp add: sample_configure_def document_validate_def sample_doc_def default_document_def
      max_profiles_def max_mcp_servers_def window_validate_def default_window_def
      sample_valid_server sample_profile_valid validate_text_def max_settings_string_def)

lemma sample_replay:
  "replay_from_input (\<lambda>_. None)
     (\<lambda>_. Some \<lparr>pm_symlink = False, pm_reparse_point = False, pm_dir = True\<rparr>) Some sample_configure
     = Inr sample_cfg"
  unfolding replay_from_input_def sample_settings_valid
  by (simp add: sample_configure_def sample_cfg_def starts_with_def valid_text_id_def
      text_id_byte_def sample_doc_def default_document_def sample_profile_def select_mcp_servers_def
      map_filter_simps find_mcp_def sample_server_def byte_defs)

definition sample_secret_request :: rpc_frame where
  "sample_secret_request = \<lparr>frame_id_opt = Some ''s:1'', frame_method = Some ''secret/resolve'',
     frame_params = Some (JObj [(''credentialRef'', JStr ''cred_a''),
       (''profileRevision'', JStr ''profile_a''), (''purpose'', JStr ''model'')]),
     frame_result = missing, frame_error = None\<rparr>"

theorem secret_release_exact_witness:
  "resolve_secret (Some sample_cfg) (\<lambda>p r. Inr \<lparr>dl_bytes = ''key'', dl_expires_at = 10\<rparr>) 5
     sample_secret_request = Inr ''key'' \<longleftrightarrow> utf8_valid ''key''"
proof -
  have "wire_grants sample_cfg [(''credentialRef'', JStr ''cred_a''),
       (''profileRevision'', JStr ''profile_a''), (''purpose'', JStr ''model'')] p r
     \<longleftrightarrow> p = PurposeModel \<and> r = ''cred_a''" for p r
    by (cases p) (auto simp: wire_grants_def wire_model model_credential_def sample_cfg_def
        sample_profile_def get_str_def)
  then show ?thesis
    unfolding secret_release_exact [OF sample_replay]
    by (auto simp: sample_secret_request_def sample_cfg_def sample_profile_def get_str_def)
qed

theorem replay_selection_exact_witness:
  "map mc_revision (rc_mcp_servers sample_cfg) = [''mcp_a'']"
  using replay_selection_exact [OF sample_replay]
  by (simp add: sample_cfg_def sample_profile_def)

theorem credentials_kept_apart_witness:
  "keyring_get True 7 PurposeMcp ''cred_a'' [account_name PurposeModel ''cred_a'' \<mapsto> ''key'']
     = Inl SeNotFound"
proof -
  have ok: "validate_reference ''cred_a'' = Inr ()"
    by (simp add: validate_reference_def credential_parse_def starts_with_def revision_byte_def byte_defs)
  then have "keyring_set True PurposeModel ''cred_a'' ''key'' (\<lambda>_. None)
      = (Inr (), [account_name PurposeModel ''cred_a'' \<mapsto> ''key''])"
    by (simp add: keyring_set_def validate_secret_input_def max_secret_bytes_def)
  from credentials_kept_apart [OF this, of 7 PurposeMcp "''cred_a''"] ok
  show ?thesis by (simp add: keyring_get_def)
qed

end
