(* ===== verification/Ja_Approvals.thy ===== *)
theory Ja_Approvals
  imports Ja_Supervisor Ja_Secrets Ja_Time
begin

text \<open>
  Tool approvals (\<open>app_runtime/bridge.rs\<close>): the private requests of the sidecar that wait for a
  decision of the user, who may answer them and when, and the nested secret requests that
  arrive on the same lane. A running generation is its supervisor with the map of waiting
  approvals and the bounded memory of retired ones. The map's iteration order is that of the
  list.
\<close>

subsection \<open>State\<close>

record pending_approval =
  pa_request_id :: str
  pa_thread_id :: str
  pa_turn_id :: str
  pa_expires_at :: str

record running_runtime =
  rt_supervisor :: supervisor
  rt_generation :: nat
  rt_instance :: str
  rt_pending :: "(str \<times> pending_approval) list"
  rt_retired :: "str set"
  rt_retired_order :: "str list"

record approval_response_input =
  ar_approval_id :: str
  ar_decision :: str
  ar_resolved_at :: str

datatype bridge_signal =
    SigServerRequest nat rpc_frame
  | SigApprovalRequest nat rpc_frame
  | SigTurnTerminal nat str str

definition max_pending_approvals :: nat where "max_pending_approvals = 1024"
definition max_retired_approvals :: nat where "max_retired_approvals = 1024"

definition decisions :: "str set" where
  "decisions = {''allow_once'', ''allow_session'', ''deny'', ''expired'', ''disconnected''}"

definition approval_input_validate :: "approval_response_input \<Rightarrow> command_error + unit" where
  "approval_input_validate input =
     (if \<not> starts_with (ar_approval_id input) ''appr_'' \<or> \<not> valid_text_id (ar_approval_id input) 128
         \<or> ar_decision input \<notin> decisions
         \<or> ar_resolved_at input = [] \<or> 64 < length (ar_resolved_at input)
         \<or> has_control (ar_resolved_at input) \<or> CHR ''T'' \<notin> set (ar_resolved_at input)
      then Inl err_invalid_params else Inr ())"

definition approval_input_result :: "approval_response_input \<Rightarrow> json" where
  "approval_input_result input =
     JObj (obj_of [(''decision'', JStr (ar_decision input)), (''resolvedAt'', JStr (ar_resolved_at input))])"

subsection \<open>Answering through the client\<close>

text \<open>
  \<open>clock\<close> is when the supervisor's signals are read. A client answers on the session it was
  taken from.
\<close>

definition on_supervisor :: "(supervisor \<Rightarrow> supervisor) \<Rightarrow> running_runtime \<Rightarrow> running_runtime" where
  "on_supervisor g c = c\<lparr>rt_supervisor := g (rt_supervisor c)\<rparr>"

definition runtime_client ::
    "millis \<times> millis \<Rightarrow> running_runtime \<Rightarrow> (agent_error + unit) \<times> running_runtime" where
  "runtime_client clock c =
     (case supervisor_client (fst clock) (snd clock) (rt_supervisor c) of
        (r, v) \<Rightarrow> (and_then r (\<lambda>_. Inr ()), c\<lparr>rt_supervisor := v\<rparr>))"

definition answer ::
    "(session \<Rightarrow> (agent_error + unit) \<times> session) \<Rightarrow> running_runtime
      \<Rightarrow> (agent_error + unit) \<times> running_runtime" where
  "answer respond_on c =
     (case su_session (rt_supervisor c) of
        None \<Rightarrow> (Inl NotReady, c)
      | Some s \<Rightarrow> (case respond_on s of (r, s') \<Rightarrow> (r, on_supervisor (set_session s') c)))"

definition answer_error ::
    "(json \<Rightarrow> bytes option) \<Rightarrow> str \<Rightarrow> int \<Rightarrow> str \<Rightarrow> str \<Rightarrow> running_runtime \<Rightarrow> running_runtime" where
  "answer_error to_vec i code message ja c =
     snd (answer (respond_error to_vec i code message ja False) c)"

subsection \<open>The private request\<close>

definition required_approval_id :: "json \<Rightarrow> str \<Rightarrow> str option" where
  "required_approval_id v pre =
     Option.bind (as_str v) (\<lambda>text.
       if starts_with text pre \<and> length pre < length text \<and> length text \<le> 128
          \<and> list_all protocol_id_byte (drop (length pre) text)
       then Some text else None)"

definition bounded_text :: "json \<Rightarrow> bool" where
  "bounded_text v = opt_ex (\<lambda>t. length t \<le> 4096 \<and> \<not> has_control t) (as_str v)"

definition approval_kinds :: "str list" where
  "approval_kinds = [''file_read'', ''file_write'', ''file_delete'', ''shell'', ''mcp_tool'',
     ''external_tool'']"

definition valid_approval_action :: "json \<Rightarrow> bool" where
  "valid_approval_action v =
     (case as_object v of
        None \<Rightarrow> False
      | Some action \<Rightarrow>
          opt_ex (\<lambda>k. k \<in> set approval_kinds) (get_str action ''kind'')
          \<and> list_all (\<lambda>key. opt_all bounded_text (obj_get action key)) [''command'', ''cwd'']
          \<and> (case obj_get action ''relativePaths'' of
               None \<Rightarrow> True
             | Some paths \<Rightarrow> (case as_array paths of
                 None \<Rightarrow> False
               | Some ps \<Rightarrow> length ps \<le> 128 \<and> list_all bounded_text ps)))"

definition pending_approval_from_request :: "rpc_frame \<Rightarrow> (str \<times> pending_approval) option" where
  "pending_approval_from_request f =
     (if frame_method f \<noteq> Some ''approval/request'' \<or> \<not> starts_with (frame_id f) ''s:''
         \<or> length (frame_id f) \<le> 2 \<or> \<not> valid_text_id (frame_id f) 128
      then None
      else Option.bind (Option.bind (frame_params f) as_object) (\<lambda>params.
        Option.bind (Option.bind (obj_get params ''approvalId'') (\<lambda>v. required_approval_id v ''appr_''))
          (\<lambda>approval_id.
        Option.bind (Option.bind (obj_get params ''threadId'') (\<lambda>v. required_approval_id v ''thr_''))
          (\<lambda>thread_id.
        Option.bind (Option.bind (obj_get params ''turnId'') (\<lambda>v. required_approval_id v ''turn_''))
          (\<lambda>turn_id.
        Option.bind (Option.bind (obj_get params ''itemId'') (\<lambda>v. required_approval_id v ''item_''))
          (\<lambda>_.
        Option.bind (obj_get params ''action'') (\<lambda>action.
          if \<not> valid_approval_action action
             \<or> \<not> opt_ex (\<lambda>r. r \<in> {''low'', ''medium'', ''high'', ''critical''}) (get_str params ''risk'')
             \<or> \<not> opt_ex (\<lambda>m. m \<in> {''read_only'', ''workspace'', ''full_access''})
                 (get_str params ''accessMode'')
             \<or> opt_all (\<lambda>t. canonical_timestamp t = None) (get_str params ''expiresAt'')
          then None
          else Option.bind (get_str params ''expiresAt'') (\<lambda>expires.
            Some (approval_id, \<lparr>pa_request_id = frame_id f, pa_thread_id = thread_id,
              pa_turn_id = turn_id, pa_expires_at = expires\<rparr>)))))))))"

subsection \<open>Retiring\<close>

fun trim_retired :: "str set \<Rightarrow> str list \<Rightarrow> str set \<times> str list" where
  "trim_retired retired [] = (retired, [])"
| "trim_retired retired (oldest # order) =
     (if max_retired_approvals < Suc (length order)
      then trim_retired (retired - {oldest}) order else (retired, oldest # order))"

definition record_retired_approval :: "str set \<Rightarrow> str list \<Rightarrow> str \<Rightarrow> str set \<times> str list" where
  "record_retired_approval retired order i =
     (if i \<in> retired then trim_retired retired order
      else trim_retired (insert i retired) (order @ [i]))"

definition retire_approval :: "str \<Rightarrow> running_runtime \<Rightarrow> running_runtime" where
  "retire_approval i c =
     (case record_retired_approval (rt_retired c) (rt_retired_order c) i of
        (retired, order) \<Rightarrow> c\<lparr>rt_retired := retired, rt_retired_order := order\<rparr>)"

definition retire_pending_approval :: "str \<Rightarrow> running_runtime \<Rightarrow> running_runtime" where
  "retire_pending_approval i c =
     retire_approval i (c\<lparr>rt_pending := filter (\<lambda>p. fst p \<noteq> i) (rt_pending c)\<rparr>)"

text \<open>Retiring several approvals with one error, as expiry, a closed turn and a stop do.\<close>

definition retire_with_error ::
    "(json \<Rightarrow> bytes option) \<Rightarrow> bool \<Rightarrow> int \<Rightarrow> str \<Rightarrow> str \<Rightarrow> str \<Rightarrow> running_runtime \<Rightarrow> running_runtime" where
  "retire_with_error to_vec client code message ja i c =
     (let request_id = map_option pa_request_id (map_of (rt_pending c) i);
          c1 = retire_pending_approval i c
      in case request_id of
           Some r \<Rightarrow> if client then answer_error to_vec r code message ja c1 else c1
         | None \<Rightarrow> c1)"

definition retire_all ::
    "(json \<Rightarrow> bytes option) \<Rightarrow> millis \<times> millis \<Rightarrow> int \<Rightarrow> str \<Rightarrow> str \<Rightarrow> str list \<Rightarrow> running_runtime
      \<Rightarrow> running_runtime" where
  "retire_all to_vec clock code message ja ids c =
     (case runtime_client clock c of
        (r, c1) \<Rightarrow> fold (retire_with_error to_vec (is_ok r) code message ja) ids c1)"

definition purge_expired_approvals ::
    "(json \<Rightarrow> bytes option) \<Rightarrow> millis \<times> millis \<Rightarrow> str \<Rightarrow> running_runtime \<Rightarrow> running_runtime" where
  "purge_expired_approvals to_vec clock now c =
     (let expired = map fst (filter (\<lambda>p. approval_expired now (pa_expires_at (snd p))) (rt_pending c))
      in if expired = [] then c
         else retire_all to_vec clock (-32041) ''approval expired'' ''APPROVAL_EXPIRED'' expired c)"

definition clear_turn_approvals ::
    "(json \<Rightarrow> bytes option) \<Rightarrow> millis \<times> millis \<Rightarrow> str \<Rightarrow> str \<Rightarrow> running_runtime \<Rightarrow> running_runtime" where
  "clear_turn_approvals to_vec clock thread_id turn_id c =
     retire_all to_vec clock (-32040) ''approval request was not found'' ''APPROVAL_NOT_FOUND''
       (map fst (filter (\<lambda>p. pa_thread_id (snd p) = thread_id \<and> pa_turn_id (snd p) = turn_id)
          (rt_pending c))) c"

definition clear_generation_approvals ::
    "(json \<Rightarrow> bytes option) \<Rightarrow> millis \<times> millis \<Rightarrow> running_runtime \<Rightarrow> running_runtime" where
  "clear_generation_approvals to_vec clock c =
     retire_all to_vec clock (-32040) ''approval request was not found'' ''APPROVAL_NOT_FOUND''
       (map fst (rt_pending c)) c"

subsection \<open>Registering and responding\<close>

definition already_resolved ::
    "(json \<Rightarrow> bytes option) \<Rightarrow> rpc_frame \<Rightarrow> running_runtime \<Rightarrow> bool \<times> running_runtime" where
  "already_resolved to_vec f c =
     (False, answer_error to_vec (frame_id f) (-32042) ''approval already resolved''
        ''APPROVAL_ALREADY_RESOLVED'' c)"

definition register_approval_request ::
    "(json \<Rightarrow> bytes option) \<Rightarrow> millis \<times> millis \<Rightarrow> rpc_frame \<Rightarrow> running_runtime
      \<Rightarrow> bool \<times> running_runtime" where
  "register_approval_request to_vec clock f c =
     (case runtime_client clock c of
        (Inl _, c1) \<Rightarrow> (False, c1)
      | (Inr _, c1) \<Rightarrow>
          if max_pending_approvals \<le> length (rt_pending c1) then already_resolved to_vec f c1
          else (case pending_approval_from_request f of
              None \<Rightarrow> (False, answer_error to_vec (frame_id f) (-32007) ''invalid params''
                  ''INVALID_PARAMS'' c1)
            | Some (i, details) \<Rightarrow>
                if i \<in> fst ` set (rt_pending c1) \<or> i \<in> rt_retired c1
                then already_resolved to_vec f c1
                else (True, c1\<lparr>rt_pending := rt_pending c1 @ [(i, details)]\<rparr>)))"

definition respond_approval ::
    "(json \<Rightarrow> bytes option) \<Rightarrow> bool \<Rightarrow> millis \<times> millis \<Rightarrow> str \<Rightarrow> approval_response_input
      \<Rightarrow> running_runtime option \<Rightarrow> (command_error + unit) \<times> running_runtime option" where
  "respond_approval to_vec cancelled clock now input runtime =
     (if cancelled then (Inl err_shutdown_timeout, runtime)
      else case runtime of
        None \<Rightarrow> (Inl err_unavailable, None)
      | Some c \<Rightarrow>
          let c1 = purge_expired_approvals to_vec clock now c; i = ar_approval_id input in
          (case map_of (rt_pending c1) i of
             None \<Rightarrow> (Inl (if i \<in> rt_retired c1
                 then cmd_err ''APPROVAL_ALREADY_RESOLVED'' ''approval request was already resolved'' False
                 else cmd_err ''APPROVAL_NOT_FOUND'' ''approval request was not found'' False), Some c1)
           | Some pending \<Rightarrow>
               (case runtime_client clock c1 of
                  (Inl e, c2) \<Rightarrow> (Inl (from_process e), Some c2)
                | (Inr _, c2) \<Rightarrow>
                    (case answer (respond_result to_vec (pa_request_id pending)
                        (approval_input_result input)) c2 of
                       (Inl e, c3) \<Rightarrow> (Inl (from_process e), Some c3)
                     | (Inr _, c3) \<Rightarrow> (Inr (), Some (retire_pending_approval i c3))))))"

subsection \<open>The actor's lane\<close>

definition respond_secret_request ::
    "(json \<Rightarrow> bytes option) \<Rightarrow> runtime_replay_config option
      \<Rightarrow> (credential_purpose \<Rightarrow> credential_ref \<Rightarrow> secret_error + runtime_secret_delivery)
      \<Rightarrow> nanos \<Rightarrow> rpc_frame \<Rightarrow> session \<Rightarrow> session" where
  "respond_secret_request to_vec replay backend at f s =
     (case resolve_secret replay backend at f of
        Inr secret \<Rightarrow> snd (respond_result to_vec (frame_id f)
          (JObj (obj_of [(''secretValue'', JStr secret)])) s)
      | Inl SecretNotFound \<Rightarrow> snd (respond_error to_vec (frame_id f) (-32050) ''secret not found''
          ''SECRET_NOT_FOUND'' False s)
      | Inl SecretDenied \<Rightarrow> snd (respond_error to_vec (frame_id f) (-32051) ''secret access denied''
          ''SECRET_ACCESS_DENIED'' False s))"

text \<open>
  One signal; the second component is the acknowledgement the event thread waits for. The
  lane's environment is the frozen configuration, the vault and the clocks.
\<close>

record lane_env =
  le_replay :: "runtime_replay_config option"
  le_backend :: "credential_purpose \<Rightarrow> credential_ref \<Rightarrow> secret_error + runtime_secret_delivery"
  le_instant :: nanos
  le_clock :: "millis \<times> millis"
  le_now :: str

definition drain_signal ::
    "(json \<Rightarrow> bytes option) \<Rightarrow> lane_env \<Rightarrow> bridge_signal \<Rightarrow> running_runtime option
      \<Rightarrow> running_runtime option \<times> bool option" where
  "drain_signal to_vec en sig runtime =
     (case sig of
        SigServerRequest g f \<Rightarrow>
          (case runtime of
             None \<Rightarrow> (None, None)
           | Some c \<Rightarrow>
               if rt_generation c \<noteq> g then (Some c, None)
               else (case runtime_client (le_clock en) c of
                   (Inl _, c1) \<Rightarrow> (Some c1, None)
                 | (Inr _, c1) \<Rightarrow>
                     if frame_method f = Some ''secret/resolve'' then
                       (Some (snd (answer (\<lambda>s. (Inr (), respond_secret_request to_vec (le_replay en)
                          (le_backend en) (le_instant en) f s)) c1)), None)
                     else if frame_method f = Some ''approval/request'' then
                       (Some (snd (register_approval_request to_vec (le_clock en) f c1)), None)
                     else (Some (answer_error to_vec (frame_id f) (-32006) ''method not found''
                        ''METHOD_NOT_FOUND'' c1), None)))
      | SigApprovalRequest g f \<Rightarrow>
          (case runtime of
             None \<Rightarrow> (None, Some False)
           | Some c \<Rightarrow>
               if rt_generation c = g then
                 (case register_approval_request to_vec (le_clock en) f c of
                    (accepted, c1) \<Rightarrow> (Some c1, Some accepted))
               else (Some c, Some False))
      | SigTurnTerminal g thread_id turn_id \<Rightarrow>
          (case runtime of
             None \<Rightarrow> (None, None)
           | Some c \<Rightarrow>
               (Some (if rt_generation c = g
                  then clear_turn_approvals to_vec (le_clock en) thread_id turn_id c else c), None)))"

fun drain_queue ::
    "(json \<Rightarrow> bytes option) \<Rightarrow> lane_env \<Rightarrow> bridge_signal list \<Rightarrow> running_runtime option
      \<Rightarrow> running_runtime option \<times> bool option list" where
  "drain_queue to_vec en [] runtime = (runtime, [])"
| "drain_queue to_vec en (sig # sigs) runtime =
     (case drain_signal to_vec en sig runtime of
        (runtime', ack) \<Rightarrow> (case drain_queue to_vec en sigs runtime' of
          (runtime'', acks) \<Rightarrow> (runtime'', ack # acks)))"

definition drain_signals ::
    "(json \<Rightarrow> bytes option) \<Rightarrow> lane_env \<Rightarrow> bridge_signal list \<Rightarrow> running_runtime option
      \<Rightarrow> running_runtime option \<times> bool option list" where
  "drain_signals to_vec en sigs runtime =
     drain_queue to_vec en sigs
       (map_option (purge_expired_approvals to_vec (le_clock en) (le_now en)) runtime)"

text \<open>The turn a completion notification closes.\<close>

definition either_get :: "obj \<Rightarrow> obj option \<Rightarrow> str \<Rightarrow> json option" where
  "either_get params turn k =
     (case obj_get params k of Some v \<Rightarrow> Some v | None \<Rightarrow> Option.bind turn (\<lambda>t. obj_get t k))"

definition terminal_turn_identity :: "rpc_frame \<Rightarrow> (str \<times> str) option" where
  "terminal_turn_identity f =
     (if frame_method f \<noteq> Some ''turn/completed'' then None
      else Option.bind (Option.bind (frame_params f) as_object) (\<lambda>params.
        let turn = Option.bind (obj_get params ''turn'') as_object in
        Option.bind (filter_opt (\<lambda>v. starts_with v ''thr_'' \<and> valid_text_id v 128)
            (Option.bind (either_get params turn ''threadId'') as_str)) (\<lambda>thread_id.
        Option.bind (filter_opt (\<lambda>v. starts_with v ''turn_'' \<and> valid_text_id v 128)
            (Option.bind (either_get params turn ''turnId'') as_str)) (\<lambda>turn_id.
          Some (thread_id, turn_id)))))"

end
