(* ===== verification/Ja_Approval_Contract.thy ===== *)
theory Ja_Approval_Contract
  imports Ja_Approvals
begin

text \<open>
  What holds of the approvals whatever the sidecar, the user and the clock do: the tables stay
  bounded and disjoint, and a decision reaches the sidecar at most once, for the one live
  private request it belongs to. Both go through one contract over the operations of a running
  generation.
\<close>

subsection \<open>Answered requests of a session\<close>

definition answered :: "str set \<Rightarrow> session \<Rightarrow> bool" where
  "answered A s \<longleftrightarrow> inbound_ok (s_inbound s)
     \<and> (\<forall>i \<in> A. i \<in> set (in_seen (s_inbound s)) \<and> i \<notin> set (in_active (s_inbound s)))"

lemma answered_cong: "s_inbound s' = s_inbound s \<Longrightarrow> answered A s' = answered A s"
  by (simp add: answered_def)

lemma answered_updates [simp]:
  "answered A (s\<lparr>s_events := q\<rparr>) = answered A s" "answered A (s\<lparr>s_pending := p\<rparr>) = answered A s"
  "answered A (s\<lparr>s_outbound := l\<rparr>) = answered A s" "answered A (s\<lparr>s_writer := w\<rparr>) = answered A s"
  "answered A (s\<lparr>s_callback := b\<rparr>) = answered A s" "answered A (s\<lparr>s_closed := b\<rparr>) = answered A s"
  "answered A (s\<lparr>s_called := c\<rparr>) = answered A s"
  by (simp_all add: answered_def)

lemma answered_ledger:
  "answered A s \<Longrightarrow> inbound_register (s_inbound s) i = Inr q \<Longrightarrow> answered A (s\<lparr>s_inbound := q\<rparr>)"
  "answered A s \<Longrightarrow> inbound_resolve (s_inbound s) i = Inr q \<Longrightarrow> answered A (s\<lparr>s_inbound := q\<rparr>)"
  using inbound_step_ok [of "s_inbound s" "IRegister i"] answered_stays [of _ "s_inbound s" "IRegister i"]
    inbound_step_ok [of "s_inbound s" "IResolve i"] answered_stays [of _ "s_inbound s" "IResolve i"]
  by (auto simp: answered_def)

interpretation answers: session_contract to_vec "answered A" for to_vec A
proof unfold_locales
  fix s s' :: session
  assume "shared s' = shared s" and "answered A s"
  then show "answered A s'" by (simp add: shared_def answered_def)
qed (simp_all add: answered_ledger fail_closed_with_reason_def)

lemma answered_session_step: "answered A s \<Longrightarrow> answered A (session_step to_vec de s x)"
proof (cases "\<exists>t. x = OInstall t")
  case True
  then show "answered A s \<Longrightarrow> ?thesis"
    by (auto simp: install_ready_token_challenge_def answered_def split: if_splits)
qed (use answers.step_inv in blast)

lemma answered_system_step:
  assumes "answered A (sys_session y)"
  shows "answered A (sys_session (system_step to_vec de y x))"
proof (cases x)
  case (OAdmit a t m ps)
  obtain r s where q: "request_admit to_vec a t m ps (sys_session y) = (r, s)" by fastforce
  then show ?thesis
    using OAdmit answers.request_admit_inv [OF assms q] by (cases r) auto
next
  case (ORegister n l now t)
  have "answered A s" if "request_register l now t i (sys_session y) = (r, s)" for i r s
    using that assms by (auto simp: request_register_def split: sum.splits)
  then show ?thesis using ORegister assms by (auto split: sum.splits prod.splits)
next
  case (OSend n)
  have "answered A (snd (request_send to_vec m i b (sys_session y)))" for m i b
  proof -
    obtain r s where q: "send_frame to_vec b (method_priority ''shutdown'' m) (sys_session y) = (r, s)"
      by fastforce
    from answers.send_frame_inv [OF assms q] show ?thesis
      by (cases r) (simp_all add: request_send_def q)
  qed
  then show ?thesis using OSend assms by auto
qed (use answered_session_step [OF assms] in \<open>simp_all del: session_step.simps\<close>)

lemma answered_system_run:
  "answered A (sys_session y) \<Longrightarrow> answered A (sys_session (foldl (system_step to_vec de) y xs))"
  by (induction xs arbitrary: y) (simp_all add: answered_system_step)

subsection \<open>The operations on a running generation\<close>

text \<open>
  \<open>RThreads\<close> is what the session's threads do in between, with the request calls under way;
  \<open>RSignals\<close> what the process monitor reports.
\<close>

datatype runtime_op =
    RThreads "str \<Rightarrow> raw \<times> bool" "call list" "session_op list"
  | RSignals "terminal_signal list"
  | RDrain lane_env "bridge_signal list"
  | RRespond bool "millis \<times> millis" str approval_response_input
  | RClear "millis \<times> millis"

definition run_threads ::
    "(json \<Rightarrow> bytes option) \<Rightarrow> (str \<Rightarrow> raw \<times> bool) \<Rightarrow> call list \<Rightarrow> session_op list
      \<Rightarrow> session \<Rightarrow> session" where
  "run_threads to_vec de calls ops s =
     sys_session (foldl (system_step to_vec de) \<lparr>sys_session = s, sys_calls = calls\<rparr> ops)"

definition in_session :: "(session \<Rightarrow> session) \<Rightarrow> running_runtime \<Rightarrow> running_runtime" where
  "in_session g c = on_supervisor (\<lambda>v. v\<lparr>su_session := map_option g (su_session v)\<rparr>) c"

definition raise_signals :: "terminal_signal list \<Rightarrow> running_runtime \<Rightarrow> running_runtime" where
  "raise_signals raised c = on_supervisor (\<lambda>v. v\<lparr>su_signals := su_signals v @ raised\<rparr>) c"

fun runtime_step :: "(json \<Rightarrow> bytes option) \<Rightarrow> running_runtime \<Rightarrow> runtime_op \<Rightarrow> running_runtime" where
  "runtime_step to_vec c (RThreads de calls ops) = in_session (run_threads to_vec de calls ops) c"
| "runtime_step to_vec c (RSignals raised) = raise_signals raised c"
| "runtime_step to_vec c (RDrain en sigs) =
     (case drain_signals to_vec en sigs (Some c) of (Some c', _) \<Rightarrow> c' | _ \<Rightarrow> c)"
| "runtime_step to_vec c (RRespond cancelled clock now input) =
     (case respond_approval to_vec cancelled clock now input (Some c) of (_, Some c') \<Rightarrow> c' | _ \<Rightarrow> c)"
| "runtime_step to_vec c (RClear clock) = clear_generation_approvals to_vec clock c"

subsection \<open>The contract\<close>

locale approval_contract =
  fixes to_vec :: "json \<Rightarrow> bytes option"
    and inv :: "running_runtime \<Rightarrow> bool"
  assumes client_inv: "inv c \<Longrightarrow> inv (snd (runtime_client clock c))"
    and error_inv: "inv c \<Longrightarrow> inv (answer_error to_vec i code m ja c)"
    and result_inv: "inv c \<Longrightarrow> inv (snd (answer (respond_result to_vec i v) c))"
    and threads_inv: "inv c \<Longrightarrow> inv (in_session (run_threads to_vec de calls ops) c)"
    and signals_inv: "inv c \<Longrightarrow> inv (raise_signals raised c)"
    and retire_inv: "inv c \<Longrightarrow> inv (retire_pending_approval i c)"
    and insert_inv: "inv c \<Longrightarrow> pending_approval_from_request f = Some (i, p)
        \<Longrightarrow> length (rt_pending c) < max_pending_approvals \<Longrightarrow> i \<notin> fst ` set (rt_pending c)
        \<Longrightarrow> i \<notin> rt_retired c \<Longrightarrow> inv (c\<lparr>rt_pending := rt_pending c @ [(i, p)]\<rparr>)"
begin

lemma retire_error_inv: "inv c \<Longrightarrow> inv (retire_with_error to_vec b code m ja i c)"
  by (auto simp: retire_with_error_def Let_def retire_inv error_inv split: option.split)

lemma fold_retire_inv: "inv c \<Longrightarrow> inv (fold (retire_with_error to_vec b code m ja) ids c)"
  by (induction ids arbitrary: c) (simp_all add: retire_error_inv)

lemma retire_all_inv: "inv c \<Longrightarrow> inv (retire_all to_vec clock code m ja ids c)"
  by (cases "runtime_client clock c")
    (use client_inv [of c clock] in \<open>auto simp: retire_all_def fold_retire_inv\<close>)

lemma purge_inv: "inv c \<Longrightarrow> inv (purge_expired_approvals to_vec clock now c)"
  by (simp add: purge_expired_approvals_def Let_def retire_all_inv)

lemma register_inv:
  assumes "inv c"
  shows "inv (snd (register_approval_request to_vec clock f c))"
proof -
  obtain r c1 where c1: "runtime_client clock c = (r, c1)" by fastforce
  then have i1: "inv c1" using client_inv [OF assms, of clock] by simp
  then show ?thesis
    using insert_inv [OF i1, of f]
    by (auto simp: register_approval_request_def c1 already_resolved_def error_inv
        split: sum.split option.split)
qed

lemma respond_inv:
  assumes "inv c" and "respond_approval to_vec cancelled clock now input (Some c) = (r, Some c')"
  shows "inv c'"
proof (cases cancelled)
  case True
  then show ?thesis using assms by (simp add: respond_approval_def)
next
  case False
  let ?c = "purge_expired_approvals to_vec clock now c"
  have p: "inv ?c" by (rule purge_inv [OF assms(1)])
  obtain q c2 where c2: "runtime_client clock ?c = (q, c2)" by fastforce
  then have i2: "inv c2" using client_inv [OF p, of clock] by simp
  show ?thesis
  proof (cases "map_of (rt_pending ?c) (ar_approval_id input)")
    case None
    then show ?thesis using assms(2) False p by (simp add: respond_approval_def Let_def)
  next
    case (Some pending)
    obtain a c3 where c3: "answer (respond_result to_vec (pa_request_id pending)
        (approval_input_result input)) c2 = (a, c3)" by fastforce
    then have "inv c3" using result_inv [OF i2] by (metis snd_conv)
    then show ?thesis
      using assms(2) False Some c2 c3 i2 retire_inv
      by (cases q; cases a) (auto simp: respond_approval_def Let_def)
  qed
qed

lemma secret_inv:
  assumes "inv c"
  shows "inv (snd (answer (\<lambda>s. (Inr (), respond_secret_request to_vec replay backend at f s)) c))"
proof -
  have same: "snd (answer (\<lambda>s. (Inr (), snd (g s))) c) = snd (answer g c)" for g
    by (simp add: answer_def split: option.split prod.split)
  show ?thesis
  proof (cases "resolve_secret replay backend at f")
    case (Inr secret)
    have "(\<lambda>s. (Inr (), respond_secret_request to_vec replay backend at f s))
        = (\<lambda>s. (Inr () :: agent_error + unit, snd (respond_result to_vec (frame_id f)
            (JObj (obj_of [(''secretValue'', JStr secret)])) s)))"
      by (simp add: respond_secret_request_def Inr)
    then show ?thesis using same result_inv [OF assms] by simp
  next
    case (Inl e)
    obtain code m ja where "(\<lambda>s. (Inr (), respond_secret_request to_vec replay backend at f s))
        = (\<lambda>s. (Inr () :: agent_error + unit, snd (respond_error to_vec (frame_id f) code m ja False s)))"
      by (cases e) (auto simp: respond_secret_request_def Inl)
    then show ?thesis using same error_inv [OF assms] by (simp add: answer_error_def)
  qed
qed

lemma drain_one_inv:
  assumes "inv c" and "drain_signal to_vec en sig (Some c) = (Some c', ack)"
  shows "inv c'"
proof (cases sig)
  case (SigServerRequest g f)
  obtain r c1 where c1: "runtime_client (le_clock en) c = (r, c1)" by fastforce
  then have i1: "inv c1" using client_inv [OF assms(1), of "le_clock en"] by simp
  show ?thesis
    using assms SigServerRequest c1 secret_inv [OF i1] register_inv [OF i1, of "le_clock en" f] error_inv [OF i1] i1
    by (auto simp: drain_signal_def split: if_splits sum.splits)
next
  case (SigApprovalRequest g f)
  then show ?thesis
    using assms register_inv [OF assms(1), of "le_clock en" f]
    by (auto simp: drain_signal_def split: if_splits prod.splits)
next
  case (SigTurnTerminal g a b)
  then show ?thesis
    using assms retire_all_inv [OF assms(1), of "le_clock en"]
    by (auto simp: drain_signal_def clear_turn_approvals_def split: if_splits)
qed

lemma drain_one_Some: "\<exists>c' ack. drain_signal to_vec en sig (Some c) = (Some c', ack)"
  by (auto simp: drain_signal_def split: bridge_signal.split sum.split prod.split)

lemma drain_queue_inv:
  "inv c \<Longrightarrow> \<exists>c'. fst (drain_queue to_vec en sigs (Some c)) = Some c' \<and> inv c'"
proof (induction sigs arbitrary: c)
  case (Cons sig sigs)
  obtain c1 ack where d: "drain_signal to_vec en sig (Some c) = (Some c1, ack)"
    using drain_one_Some by blast
  from Cons.IH [OF drain_one_inv [OF Cons.prems d]] show ?case
    by (auto simp: d split: prod.split)
qed simp

lemma step_inv: "inv c \<Longrightarrow> inv (runtime_step to_vec c x)"
proof (cases x)
  case (RDrain en sigs)
  assume "inv c"
  from drain_queue_inv [OF purge_inv [OF this], of en sigs "le_clock en" "le_now en"] show ?thesis
    by (auto simp: RDrain drain_signals_def split: prod.splits option.splits)
next
  case (RRespond b clock now input)
  assume "inv c"
  then show ?thesis
    using respond_inv by (auto simp: RRespond split: prod.split option.split)
qed (simp_all add: threads_inv signals_inv clear_generation_approvals_def retire_all_inv)

lemma run_inv: "inv c \<Longrightarrow> inv (foldl (runtime_step to_vec) c xs)"
  by (induction xs arbitrary: c) (simp_all add: step_inv del: runtime_step.simps)

end

end
