(* ===== verification/Ja_Approval_Safety.thy ===== *)
theory Ja_Approval_Safety
  imports Ja_Approval_Contract
begin

text \<open>
  The two invariants of the approvals, each one interpretation of the contract, and what they
  give: the tables are bounded, disjoint and hold valid entries, and a decision is delivered
  once.
\<close>

subsection \<open>The tables\<close>

definition entry_ok :: "pending_approval \<Rightarrow> bool" where
  "entry_ok p \<longleftrightarrow> starts_with (pa_request_id p) ''s:'' \<and> canonical_timestamp (pa_expires_at p) \<noteq> None"

definition retired_ok :: "str set \<Rightarrow> str list \<Rightarrow> bool" where
  "retired_ok retired order \<longleftrightarrow>
     set order = retired \<and> distinct order \<and> length order \<le> max_retired_approvals"

definition tables_ok :: "running_runtime \<Rightarrow> bool" where
  "tables_ok c \<longleftrightarrow>
     distinct (map fst (rt_pending c)) \<and> length (rt_pending c) \<le> max_pending_approvals
     \<and> (\<forall>(i, p) \<in> set (rt_pending c). starts_with i ''appr_'' \<and> entry_ok p)
     \<and> retired_ok (rt_retired c) (rt_retired_order c)
     \<and> fst ` set (rt_pending c) \<inter> rt_retired c = {}"

definition tables ::
    "running_runtime \<Rightarrow> (str \<times> pending_approval) list \<times> str set \<times> str list" where
  "tables c = (rt_pending c, rt_retired c, rt_retired_order c)"

lemma tables_ok_cong: "tables c = tables c' \<Longrightarrow> tables_ok c = tables_ok c'"
  by (simp add: tables_def tables_ok_def)

lemma tables_keep [simp]:
  "tables (on_supervisor g c) = tables c" "tables (snd (runtime_client clock c)) = tables c"
  "tables (snd (answer g' c)) = tables c" "tables (answer_error to_vec i code m ja c) = tables c"
  "tables (in_session h c) = tables c" "tables (raise_signals raised c) = tables c"
  by (simp_all add: tables_def on_supervisor_def runtime_client_def answer_def answer_error_def
      in_session_def raise_signals_def split: prod.split option.split)

lemma trim_retired_keeps:
  "distinct order \<Longrightarrow> set order = retired \<Longrightarrow>
     retired_ok (fst (trim_retired retired order)) (snd (trim_retired retired order))
     \<and> fst (trim_retired retired order) \<subseteq> retired"
proof (induction retired order rule: trim_retired.induct)
  case (2 retired oldest order)
  have "set order = retired - {oldest}" and "distinct order" using 2(2,3) by auto
  then show ?case
    using 2 by (auto simp: retired_ok_def simp del: set_simps)
qed (simp add: retired_ok_def)

lemma record_retired_keeps:
  assumes "retired_ok retired order" and "record_retired_approval retired order i = (retired', order')"
  shows "retired_ok retired' order' \<and> retired' \<subseteq> insert i retired"
proof -
  let ?r = "insert i retired" and ?o = "if i \<in> retired then order else order @ [i]"
  have t: "trim_retired ?r ?o = (retired', order')"
    using assms(2) by (auto simp: record_retired_approval_def insert_absorb split: if_splits)
  have "set ?o = ?r" "distinct ?o" using assms(1) by (auto simp: retired_ok_def)
  from trim_retired_keeps [OF this(2,1)] show ?thesis by (simp add: t)
qed

lemma retire_tables_ok:
  assumes "tables_ok c"
  shows "tables_ok (retire_pending_approval i c)"
proof -
  obtain retired order where r:
    "record_retired_approval (rt_retired c) (rt_retired_order c) i = (retired, order)" by fastforce
  let ?p = "filter (\<lambda>p. fst p \<noteq> i) (rt_pending c)"
  have "distinct (map fst ?p)"
    using assms by (auto simp: tables_ok_def intro: distinct_map_filter)
  moreover have "length ?p \<le> max_pending_approvals"
    using assms order_trans [OF length_filter_le] by (auto simp: tables_ok_def)
  moreover have "retired_ok retired order \<and> retired \<subseteq> insert i (rt_retired c)"
    using record_retired_keeps [OF _ r] assms by (auto simp: tables_ok_def)
  ultimately show ?thesis
    using assms by (auto simp: tables_ok_def retire_pending_approval_def retire_approval_def r)
qed

lemma register_entry:
  "pending_approval_from_request f = Some (i, p) \<Longrightarrow>
     starts_with i ''appr_'' \<and> entry_ok p \<and> pa_request_id p = frame_id f"
  by (auto simp: pending_approval_from_request_def bind_eq_Some_conv required_approval_id_def
      entry_ok_def split: if_splits)

interpretation table_contract: approval_contract to_vec tables_ok for to_vec
proof unfold_locales
  fix c f i p
  assume "tables_ok c" "pending_approval_from_request f = Some (i, p)"
    "length (rt_pending c) < max_pending_approvals" "i \<notin> fst ` set (rt_pending c)" "i \<notin> rt_retired c"
  then show "tables_ok (c\<lparr>rt_pending := rt_pending c @ [(i, p)]\<rparr>)"
    using register_entry [of f i p] by (auto simp: tables_ok_def)
qed (rule tables_ok_cong [THEN iffD1, rotated], assumption, simp
    | rule retire_tables_ok, assumption)+

subsection \<open>Answered requests\<close>

definition answered_in :: "str set \<Rightarrow> running_runtime \<Rightarrow> bool" where
  "answered_in A c \<longleftrightarrow> opt_all (answered A) (su_session (rt_supervisor c))"

lemma sync_signal_session [simp]: "su_session (sync_signal now now' sig v) = su_session v"
  by (simp add: sync_signal_def Let_def split: terminal_reason.split)

lemma sync_terminal_session [simp]: "su_session (sync_terminal_signals now now' v) = su_session v"
proof -
  have "su_session (fold (sync_signal now now') sigs v) = su_session v" for sigs v
    by (induction sigs arbitrary: v) simp_all
  then show ?thesis by (simp add: sync_terminal_signals_def)
qed

lemma runtime_client_session [simp]:
  "su_session (rt_supervisor (snd (runtime_client clock c))) = su_session (rt_supervisor c)"
  by (simp add: runtime_client_def supervisor_client_def Let_def)

lemma retire_supervisor [simp]: "rt_supervisor (retire_pending_approval i c) = rt_supervisor c"
  by (simp add: retire_pending_approval_def retire_approval_def split: prod.split)

lemma answer_answered:
  assumes "\<And>s r s'. answered A s \<Longrightarrow> respond_on s = (r, s') \<Longrightarrow> answered A s'"
    and "answered_in A c"
  shows "answered_in A (snd (answer respond_on c))"
  using assms by (auto simp: answered_in_def answer_def on_supervisor_def set_session_def
      split: option.splits prod.splits)

interpretation answered_contract: approval_contract to_vec "answered_in A" for to_vec A
proof unfold_locales
  fix c de calls ops
  assume "answered_in A c"
  then show "answered_in A (in_session (run_threads to_vec de calls ops) c)"
    using answered_system_run by (cases "su_session (rt_supervisor c)")
      (auto simp: answered_in_def in_session_def on_supervisor_def run_threads_def)
next
  fix c i code m ja
  assume "answered_in A c"
  then show "answered_in A (answer_error to_vec i code m ja c)"
    unfolding answer_error_def
    by (elim answer_answered [rotated]) (rule answers.respond_error_inv)
next
  fix c i v
  assume "answered_in A c"
  then show "answered_in A (snd (answer (respond_result to_vec i v) c))"
    by (elim answer_answered [rotated]) (rule answers.respond_result_inv)
qed (simp_all add: answered_in_def raise_signals_def on_supervisor_def)

lemma answer_success:
  assumes "answer (respond_result to_vec i v) c = (Inr u, c')" and "answered_in {} c"
  shows "answered_in {i} c'"
proof -
  obtain s s' where s: "su_session (rt_supervisor c) = Some s"
    and r: "respond_result to_vec i v s = (Inr u, s')" and c': "c' = on_supervisor (set_session s') c"
    using assms(1) by (auto simp: answer_def split: option.splits prod.splits)
  have id: "response_result i v = Inr f \<Longrightarrow> frame_id f = i" for f
    by (auto simp: response_result_def Let_def frame_id_def result_iff)
  obtain q w where q: "inbound_resolve (s_inbound s) i = Inr q" and s': "s' = s\<lparr>s_inbound := q, s_writer := w\<rparr>"
    using r id by (auto simp: respond_result_def respond_def send_frame_def
        split: if_splits sum.splits)
  have "answered {i} s'"
    using resolve_ok [OF _ q] q assms(2)
    by (auto simp: s' answered_def answered_in_def s opt_all_def inbound_resolve_def inbound_ok_def
        split: if_splits)
  then show ?thesis by (simp add: c' answered_in_def on_supervisor_def set_session_def opt_all_def)
qed

lemma answered_refused:
  assumes "answered A s" and "i \<in> A"
  shows "\<not> is_ok (fst (respond_result to_vec i v s))" "\<not> is_ok (fst (respond_error to_vec i code m ja b s))"
proof -
  have refused: "\<exists>e. inbound_resolve (s_inbound s) i = Inl e"
    using assms by (auto simp: answered_def inbound_resolve_def)
  have "response_result i v = Inr f \<Longrightarrow> frame_id f = i"
    "response_error i code m ja b = Inr f \<Longrightarrow> frame_id f = i" for f code ja b
    by (auto simp: response_result_def response_error_def Let_def frame_id_def result_iff)
  with refused show "\<not> is_ok (fst (respond_result to_vec i v s))"
    "\<not> is_ok (fst (respond_error to_vec i code m ja b s))"
    by (auto simp: respond_result_def respond_error_def respond_def split: sum.splits option.splits)
qed

subsection \<open>What purging leaves\<close>

lemma retire_all_pending:
  "rt_pending (retire_all to_vec clock code m ja ids c) = filter (\<lambda>p. fst p \<notin> set ids) (rt_pending c)"
proof -
  have one: "rt_pending (retire_with_error to_vec b code m ja i c) = filter (\<lambda>p. fst p \<noteq> i) (rt_pending c)"
    for b i c
  proof -
    have "rt_pending (answer_error to_vec r code m ja c') = rt_pending c'" for r c'
      using tables_keep(4) [of to_vec r code m ja c'] by (simp add: tables_def)
    then show ?thesis
      by (simp add: retire_with_error_def Let_def retire_pending_approval_def retire_approval_def
          split: option.split prod.split)
  qed
  have "rt_pending (fold (retire_with_error to_vec b code m ja) ids c)
      = filter (\<lambda>p. fst p \<notin> set ids) (rt_pending c)" for b c
    by (induction ids arbitrary: c) (auto simp: one intro: filter_cong)
  moreover have "rt_pending (snd (runtime_client clock c)) = rt_pending c"
    using tables_keep(2) [of clock c] by (simp add: tables_def)
  ultimately show ?thesis by (cases "runtime_client clock c") (simp add: retire_all_def)
qed

lemma purge_unexpired:
  "(i, p) \<in> set (rt_pending (purge_expired_approvals to_vec clock now c)) \<Longrightarrow>
     (i, p) \<in> set (rt_pending c) \<and> \<not> approval_expired now (pa_expires_at p)"
  by (force simp: purge_expired_approvals_def Let_def retire_all_pending filter_empty_conv
      split: if_splits)

subsection \<open>Properties\<close>

text \<open>
  However requests of the sidecar, decisions, expiries, closed turns and crashes follow one
  another, at most 1,024 approvals wait and at most 1,024 retired ones are remembered, no
  approval is both, none waits twice, and each waiting one has an identifier of its kind, the
  id of a server request and an expiry that can be read.
\<close>

theorem approvals_bounded:
  assumes "tables_ok c" and "c' = foldl (runtime_step to_vec) c xs"
  shows "length (rt_pending c') \<le> 1024 \<and> card (rt_retired c') \<le> 1024
    \<and> distinct (map fst (rt_pending c')) \<and> fst ` set (rt_pending c') \<inter> rt_retired c' = {}
    \<and> (\<forall>(i, p) \<in> set (rt_pending c'). starts_with i ''appr_'' \<and> starts_with (pa_request_id p) ''s:''
         \<and> canonical_timestamp (pa_expires_at p) \<noteq> None)"
proof -
  have "tables_ok c'" unfolding assms(2) by (rule table_contract.run_inv [OF assms(1)])
  then show ?thesis
    using card_length [of "rt_retired_order c'"]
    by (auto simp: tables_ok_def entry_ok_def retired_ok_def max_pending_approvals_def
        max_retired_approvals_def)
qed

text \<open>
  C4. A decision is delivered once, and only to its own live request. When \<open>respond_approval\<close>
  succeeds, the approval was waiting and not expired, and it is retired afterwards; and however
  the generation goes on, neither a second decision nor the error of an expiry, a closed turn
  or a stop is ever accepted by the session for that request again.
\<close>

theorem approval_answered_once:
  assumes "tables_ok c" and "answered_in {} c"
    and "respond_approval to_vec cancelled clock now input (Some c) = (Inr (), Some c')"
  shows "\<exists>p. (ar_approval_id input, p) \<in> set (rt_pending c) \<and> \<not> approval_expired now (pa_expires_at p)
    \<and> ar_approval_id input \<notin> fst ` set (rt_pending c')
    \<and> (\<forall>xs s v code m ja b. su_session (rt_supervisor (foldl (runtime_step to_vec) c' xs)) = Some s \<longrightarrow>
         \<not> is_ok (fst (respond_result to_vec (pa_request_id p) v s))
         \<and> \<not> is_ok (fst (respond_error to_vec (pa_request_id p) code m ja b s)))"
proof -
  let ?c = "purge_expired_approvals to_vec clock now c" and ?i = "ar_approval_id input"
  obtain p c2 c3 where p: "map_of (rt_pending ?c) ?i = Some p"
    and c2: "c2 = snd (runtime_client clock ?c)"
    and c3: "answer (respond_result to_vec (pa_request_id p) (approval_input_result input)) c2 = (Inr (), c3)"
    and c': "c' = retire_pending_approval ?i c3"
    using assms(3) by (auto simp: respond_approval_def Let_def split: if_splits option.splits prod.splits sum.splits)
  have "answered_in {} c2"
    unfolding c2 by (intro answered_contract.client_inv answered_contract.purge_inv assms(2))
  from answer_success [OF c3 this] have c'_ok: "answered_in {pa_request_id p} c'"
    unfolding c' by (rule answered_contract.retire_inv)
  have "\<not> is_ok (fst (respond_result to_vec (pa_request_id p) v s))
      \<and> \<not> is_ok (fst (respond_error to_vec (pa_request_id p) code m ja b s))"
    if "su_session (rt_supervisor (foldl (runtime_step to_vec) c' xs)) = Some s" for xs s v code m ja b
    using answered_contract.run_inv [OF c'_ok, of to_vec xs] that answered_refused
    by (auto simp: answered_in_def opt_all_def)
  moreover have "?i \<notin> fst ` set (rt_pending c')"
    by (auto simp: c' retire_pending_approval_def retire_approval_def split: prod.splits)
  ultimately show ?thesis using purge_unexpired [OF map_of_SomeD [OF p]] by blast
qed

definition sample_approval :: pending_approval where
  "sample_approval = \<lparr>pa_request_id = ''s:1'', pa_thread_id = ''thr_1'', pa_turn_id = ''turn_1'',
     pa_expires_at = ''2099-01-01T00:00:00Z''\<rparr>"

definition sample_runtime :: running_runtime where
  "sample_runtime = \<lparr>rt_supervisor = sample_supervisor\<lparr>
       su_lifecycle := (su_lifecycle sample_supervisor)\<lparr>lc_state := LReady, generation := 1\<rparr>,
       su_process := True, su_session := Some (sample_session\<lparr>s_inbound :=
         \<lparr>in_active = [''s:1''], in_seen = [''s:1''], in_max = 4\<rparr>\<rparr>)\<rparr>,
     rt_generation = 1, rt_instance = ''srv_1'', rt_pending = [(''appr_1'', sample_approval)],
     rt_retired = {}, rt_retired_order = []\<rparr>"

lemma sample_expiry: "canonical_timestamp ''2099-01-01T00:00:00Z'' = Some ''2099-01-01T00:00:00.000Z''"
  by code_simp

lemma sample_tables: "tables_ok sample_runtime"
  by (simp add: tables_ok_def sample_runtime_def sample_approval_def entry_ok_def sample_expiry
      retired_ok_def starts_with_def max_pending_approvals_def)

lemma sample_answers: "answered_in {} sample_runtime"
  by (simp add: answered_in_def opt_all_def sample_runtime_def sample_session_def answered_def
      inbound_ok_def max_inbound_ledger_def)

definition sample_decision :: approval_response_input where
  "sample_decision = \<lparr>ar_approval_id = ''appr_1'', ar_decision = ''deny'',
     ar_resolved_at = ''2026-01-01T00:00:00Z''\<rparr>"

lemma sample_lookup: "map_of (rt_pending sample_runtime) ''appr_1'' = Some sample_approval"
    "ar_approval_id sample_decision = ''appr_1''" "pa_request_id sample_approval = ''s:1''"
  by (simp_all add: sample_runtime_def sample_decision_def sample_approval_def)

lemma sample_live: "\<not> approval_expired ''2026-01-01T00:00:00.000Z'' ''2099-01-01T00:00:00Z''"
  by code_simp

lemma sample_purge:
  "purge_expired_approvals to_vec clock ''2026-01-01T00:00:00.000Z'' sample_runtime = sample_runtime"
  by (simp add: purge_expired_approvals_def sample_runtime_def sample_approval_def sample_live)

lemma sample_client: "runtime_client clock sample_runtime = (Inr (), sample_runtime)"
  by (simp add: runtime_client_def supervisor_client_def sync_terminal_signals_def sample_runtime_def
      sample_supervisor_def Let_def)

definition sample_answer :: rpc_frame where
  "sample_answer = \<lparr>frame_id_opt = Some ''s:1'', frame_method = None, frame_params = None,
     frame_result = present_some (JObj
       [(''decision'', JStr ''deny''), (''resolvedAt'', JStr ''2026-01-01T00:00:00Z'')]),
     frame_error = None\<rparr>"

lemma sample_result: "approval_input_result sample_decision
    = JObj [(''decision'', JStr ''deny''), (''resolvedAt'', JStr ''2026-01-01T00:00:00Z'')]"
  by code_simp

lemmas sample_marker_defs = is_ready_token_key_def is_token_shaped_def eq_ignore_ascii_case_def
  to_ascii_lowercase_def ready_token_field_def byte_defs

lemma sample_id_valid: "valid_id ''s:1''"
  by code_simp

lemma sample_answer_valid: "validate sample_answer = Inr Response"
  by (simp add: sample_answer_def validate_def sample_id_valid present_some_def starts_with_def
      sample_marker_defs)

lemma sample_frame:
  "\<not> contains_forbidden_ready_token {} (approval_input_result sample_decision)"
  "response_result ''s:1'' (approval_input_result sample_decision) = Inr sample_answer"
proof -
  show "\<not> contains_forbidden_ready_token {} (approval_input_result sample_decision)"
    by (simp add: sample_result sample_marker_defs)
  show "response_result ''s:1'' (approval_input_result sample_decision) = Inr sample_answer"
    using sample_answer_valid by (simp add: sample_result response_result_def sample_answer_def)
qed

lemma sample_encode: "encode sample_to_vec sample_answer (max_frame_bytes default_limits)
    = Inr [CHR 0x41, CHR 0x0A]"
  unfolding encode_def sample_answer_valid
  by (simp add: sample_answer_def present_some_def reject_raw_token_markers_def wire_object_def
      put_opt_def sample_to_vec_def Let_def default_limits_def sample_marker_defs)

lemma sample_answered:
  obtains c' where "respond_approval sample_to_vec False clock ''2026-01-01T00:00:00.000Z''
    sample_decision (Some sample_runtime) = (Inr (), Some c')"
proof -
  let ?s = "sample_session\<lparr>s_inbound := \<lparr>in_active = [''s:1''], in_seen = [''s:1''], in_max = 4\<rparr>\<rparr>"
  have "fst (respond_result sample_to_vec ''s:1'' (approval_input_result sample_decision) ?s) = Inr ()"
    using sample_encode
    by (simp add: respond_result_def sample_frame respond_def sample_session_def)
      (simp add: sample_answer_def frame_id_def inbound_resolve_def send_frame_def writer_send_def
        writer_new_def reserve_bytes_def control_queue_capacity_def control_queue_byte_budget_def
        sat_add_def usize_max_def default_limits_def)
  then obtain c' where "answer (respond_result sample_to_vec ''s:1'' (approval_input_result sample_decision))
      sample_runtime = (Inr (), c')"
    by (cases "respond_result sample_to_vec ''s:1'' (approval_input_result sample_decision) ?s")
      (auto simp: answer_def sample_runtime_def)
  then have "respond_approval sample_to_vec False clock ''2026-01-01T00:00:00.000Z''
      sample_decision (Some sample_runtime) = (Inr (), Some (retire_pending_approval ''appr_1'' c'))"
    by (simp add: respond_approval_def Let_def sample_purge sample_client sample_lookup)
  then show ?thesis by (rule that)
qed

theorem approvals_bounded_witness:
  "card (rt_retired (foldl (runtime_step sample_to_vec) sample_runtime
     [RRespond False (0, 0) ''2026-01-01T00:00:00.000Z'' sample_decision, RClear (0, 0)])) \<le> 1024"
  using approvals_bounded [OF sample_tables refl] by blast

theorem approval_answered_once_witness:
  "\<exists>c'. respond_approval sample_to_vec False (0, 0) ''2026-01-01T00:00:00.000Z'' sample_decision
       (Some sample_runtime) = (Inr (), Some c')
     \<and> (\<forall>s. su_session (rt_supervisor (foldl (runtime_step sample_to_vec) c' [RClear (0, 0)])) = Some s
          \<longrightarrow> \<not> is_ok (fst (respond_result sample_to_vec ''s:1'' JNull s)))"
proof -
  obtain c' where c': "respond_approval sample_to_vec False (0, 0) ''2026-01-01T00:00:00.000Z''
      sample_decision (Some sample_runtime) = (Inr (), Some c')"
    by (rule sample_answered)
  obtain p where "(ar_approval_id sample_decision, p) \<in> set (rt_pending sample_runtime)"
    and refused: "su_session (rt_supervisor (foldl (runtime_step sample_to_vec) c' xs)) = Some s \<Longrightarrow>
      \<not> is_ok (fst (respond_result sample_to_vec (pa_request_id p) v s))" for xs s v
    using approval_answered_once [OF sample_tables sample_answers c'] by blast
  then have "pa_request_id p = ''s:1''"
    by (simp add: sample_decision_def sample_runtime_def sample_approval_def)
  with c' refused show ?thesis by metis
qed

end
