(* ===== verification/Ja_Terminal_Queue.thy ===== *)
theory Ja_Terminal_Queue
  imports Ja_Prelude
begin

text \<open>
  The pseudo-terminal's data model (\<open>terminal/model.rs\<close>, \<open>terminal/error.rs\<close>) and its two
  queues (\<open>terminal/queue.rs\<close>): the input a caller appends and the writer thread takes, and
  the bounded event stream of one session, whose terminal event evicts as much of the oldest
  output as it needs. The operations hold the queue's mutex, so each is a function of the
  state; \<open>push_terminal\<close> swaps its atomic flag before it takes the mutex and is two of them.
  A pass of a waiting loop says with \<open>Waits\<close> that it blocks on the condition variable.
\<close>

subsection \<open>Data\<close>

text \<open>A session id is a 128-bit random UUID; the model only compares ids.\<close>

type_synonym terminal_id = nat

datatype terminal_error =
    TInvalidConfig | TInvalidShell | TInvalidCwd | TCwdOutsideWorkspace
  | TEnvironmentNotAllowed | TEnvironmentSecret | TInvalidSize | TSessionLimit
  | TSessionNotFound | TStaleGeneration | TSessionClosed | TQueueFull | TQueueClosed
  | TInputTooLarge | TOutputLimitExceeded | TDeadlineExceeded | TCancelled | TSpawnFailed
  | TPtyFailed | TProcessCleanupFailed | TWorkerShutdownTimeout | TUnsupportedPlatform
  | TEnvironmentLimit | TEnvironmentDangerous

fun terminal_error_code :: "terminal_error \<Rightarrow> nat" where
  "terminal_error_code TInvalidConfig = 1"
| "terminal_error_code TInvalidShell = 2"
| "terminal_error_code TInvalidCwd = 3"
| "terminal_error_code TCwdOutsideWorkspace = 4"
| "terminal_error_code TEnvironmentNotAllowed = 5"
| "terminal_error_code TEnvironmentSecret = 6"
| "terminal_error_code TInvalidSize = 7"
| "terminal_error_code TSessionLimit = 8"
| "terminal_error_code TSessionNotFound = 9"
| "terminal_error_code TStaleGeneration = 10"
| "terminal_error_code TSessionClosed = 11"
| "terminal_error_code TQueueFull = 12"
| "terminal_error_code TQueueClosed = 13"
| "terminal_error_code TInputTooLarge = 14"
| "terminal_error_code TOutputLimitExceeded = 15"
| "terminal_error_code TDeadlineExceeded = 16"
| "terminal_error_code TCancelled = 17"
| "terminal_error_code TSpawnFailed = 18"
| "terminal_error_code TPtyFailed = 19"
| "terminal_error_code TProcessCleanupFailed = 20"
| "terminal_error_code TWorkerShutdownTimeout = 21"
| "terminal_error_code TUnsupportedPlatform = 22"
| "terminal_error_code TEnvironmentLimit = 26"
| "terminal_error_code TEnvironmentDangerous = 27"

datatype shell_profile =
  ShellDefault | ShellPowerShell | ShellCmd | ShellBash | ShellZsh | ShellFish

datatype close_reason =
  CloseUser | CloseShutdown | CloseTimeout | CloseQueueOverflow | CloseProcessExited | CloseFault

record terminal_size =
  size_rows :: nat
  size_cols :: nat
  pixel_width :: nat
  pixel_height :: nat

definition terminal_size_default :: terminal_size where
  "terminal_size_default =
     \<lparr>size_rows = 24, size_cols = 80, pixel_width = 0, pixel_height = 0\<rparr>"

definition size_validate :: "terminal_size \<Rightarrow> bool" where
  "size_validate z \<longleftrightarrow>
     1 \<le> size_rows z \<and> size_rows z \<le> 4096 \<and> 1 \<le> size_cols z \<and> size_cols z \<le> 4096"

datatype terminal_event_kind =
    TOutput bytes
  | TResized terminal_size
  | TExited nat "str option"
  | TClosed close_reason
  | TError nat
  | TOutputDropped nat

record terminal_event =
  te_session :: terminal_id
  te_generation :: nat
  te_sequence :: nat
  te_kind :: terminal_event_kind

fun terminal_kind :: "terminal_event_kind \<Rightarrow> bool" where
  "terminal_kind (TExited _ _) = True"
| "terminal_kind (TClosed _) = True"
| "terminal_kind (TError _) = True"
| "terminal_kind _ = False"

text \<open>What one pass of a waiting loop under the mutex comes to.\<close>

datatype 'a popped = Popped 'a | Finished | Waits

subsection \<open>Input queue\<close>

record input_queue =
  input_chunks :: "bytes list"
  input_bytes :: nat
  input_closed :: bool
  input_max :: nat

definition input_new :: "nat \<Rightarrow> input_queue" where
  "input_new max_bytes =
     \<lparr>input_chunks = [], input_bytes = 0, input_closed = False, input_max = max_bytes\<rparr>"

definition input_push :: "bytes \<Rightarrow> input_queue \<Rightarrow> terminal_error + input_queue" where
  "input_push data q =
     (if input_closed q then Inl TQueueClosed
      else if input_max q - input_bytes q < length data then Inl TQueueFull
      else Inr (q\<lparr>input_bytes := sat_add (input_bytes q) (length data),
                 input_chunks := input_chunks q @ [data]\<rparr>))"

definition input_pop :: "input_queue \<Rightarrow> bytes popped \<times> input_queue" where
  "input_pop q =
     (case input_chunks q of
        data # rest \<Rightarrow>
          (Popped data, q\<lparr>input_chunks := rest, input_bytes := input_bytes q - length data\<rparr>)
      | [] \<Rightarrow> (if input_closed q then Finished else Waits, q))"

definition input_close :: "input_queue \<Rightarrow> input_queue" where
  "input_close q = q\<lparr>input_closed := True, input_chunks := [], input_bytes := 0\<rparr>"

subsection \<open>Event queue\<close>

record terminal_queue =
  tq_queue :: "terminal_event list"
  tq_bytes :: nat
  tq_next_sequence :: nat
  tq_closed :: bool
  tq_session :: terminal_id
  tq_generation :: nat
  tq_max_bytes :: nat
  tq_max_count :: nat
  tq_terminal :: bool

definition terminal_queue_new :: "terminal_id \<Rightarrow> nat \<Rightarrow> nat \<Rightarrow> nat \<Rightarrow> terminal_queue" where
  "terminal_queue_new session generation max_bytes max_count =
     \<lparr>tq_queue = [], tq_bytes = 0, tq_next_sequence = 1, tq_closed = False,
      tq_session = session, tq_generation = generation, tq_max_bytes = max_bytes,
      tq_max_count = max_count, tq_terminal = False\<rparr>"

fun terminal_event_size :: "terminal_event_kind \<Rightarrow> nat" where
  "terminal_event_size (TOutput data) = sat_add (length data) 64"
| "terminal_event_size (TOutputDropped _) = 64"
| "terminal_event_size (TExited _ signal) =
     sat_add 96 (case signal of None \<Rightarrow> 0 | Some s \<Rightarrow> length s)"
| "terminal_event_size (TResized _) = 64"
| "terminal_event_size (TClosed _) = 64"
| "terminal_event_size (TError _) = 64"

abbreviation stored_size :: "terminal_event \<Rightarrow> nat" where
  "stored_size e \<equiv> terminal_event_size (te_kind e)"

definition make_event ::
    "terminal_event_kind \<Rightarrow> terminal_queue \<Rightarrow> terminal_event \<times> terminal_queue" where
  "make_event kind q =
     (\<lparr>te_session = tq_session q, te_generation = tq_generation q,
       te_sequence = tq_next_sequence q, te_kind = kind\<rparr>,
      q\<lparr>tq_next_sequence := sat_add (tq_next_sequence q) 1\<rparr>)"

definition push_kind :: "terminal_event_kind \<Rightarrow> terminal_queue \<Rightarrow> bool \<times> terminal_queue" where
  "push_kind kind q =
     (if tq_closed q \<or> tq_terminal q \<or> tq_max_count q \<le> length (tq_queue q) then (False, q)
      else let (event, q1) = make_event kind q; need = stored_size event
           in if tq_max_bytes q1 < sat_add (tq_bytes q1) need then (False, q1)
              else (True, q1\<lparr>tq_bytes := sat_add (tq_bytes q1) need,
                            tq_queue := tq_queue q1 @ [event]\<rparr>))"

definition push_output :: "bytes \<Rightarrow> terminal_queue \<Rightarrow> bool \<times> terminal_queue" where
  "push_output data q = push_kind (TOutput data) q"

definition push_control_kind :: "terminal_event_kind \<Rightarrow> terminal_queue \<Rightarrow> bool \<times> terminal_queue" where
  "push_control_kind kind q = push_kind kind q"

text \<open>The eviction loop: the oldest events go until the new one fits or none is left.\<close>

fun evict_events :: "nat \<Rightarrow> nat \<Rightarrow> nat \<Rightarrow> nat \<Rightarrow> terminal_event list \<Rightarrow> nat \<times> terminal_event list" where
  "evict_events max_bytes max_count need bytes [] = (bytes, [])"
| "evict_events max_bytes max_count need bytes (e # es) =
     (if max_bytes < sat_add bytes need \<or> max_count \<le> length (e # es)
      then evict_events max_bytes max_count need (bytes - stored_size e) es
      else (bytes, e # es))"

definition terminal_claim :: "terminal_queue \<Rightarrow> bool \<times> terminal_queue" where
  "terminal_claim q = (\<not> tq_terminal q, q\<lparr>tq_terminal := True\<rparr>)"

definition terminal_store ::
    "terminal_event_kind \<Rightarrow> terminal_queue \<Rightarrow> bool \<times> terminal_queue" where
  "terminal_store kind q =
     (if tq_closed q then (False, q)
      else let (event, q1) = make_event kind q; need = stored_size event
           in if tq_max_bytes q1 < need \<or> tq_max_count q1 = 0 then
                (False, q1\<lparr>tq_closed := True\<rparr>)
              else let (bytes, queue) =
                         evict_events (tq_max_bytes q1) (tq_max_count q1) need (tq_bytes q1) (tq_queue q1);
                       q2 = q1\<lparr>tq_bytes := bytes, tq_queue := queue\<rparr>
                   in if tq_max_bytes q2 < sat_add (tq_bytes q2) need
                         \<or> tq_max_count q2 \<le> length (tq_queue q2)
                      then (False, q2\<lparr>tq_closed := True\<rparr>)
                      else (True, q2\<lparr>tq_bytes := sat_add (tq_bytes q2) need,
                                    tq_queue := tq_queue q2 @ [event]\<rparr>))"

definition push_terminal :: "terminal_event_kind \<Rightarrow> terminal_queue \<Rightarrow> bool \<times> terminal_queue" where
  "push_terminal kind q =
     (let (won, q1) = terminal_claim q in if won then terminal_store kind q1 else (False, q1))"

text \<open>
  A pass of \<open>recv_until\<close>, where \<open>expired\<close> says that no time remains, and the pass after a
  wait, which a timed-out wait ends.
\<close>

definition recv_pass :: "bool \<Rightarrow> terminal_queue \<Rightarrow> terminal_event popped \<times> terminal_queue" where
  "recv_pass expired q =
     (case tq_queue q of
        event # rest \<Rightarrow>
          (Popped event, q\<lparr>tq_queue := rest, tq_bytes := tq_bytes q - stored_size event\<rparr>)
      | [] \<Rightarrow> (if tq_closed q \<or> expired then Finished else Waits, q))"

definition recv_woken ::
    "bool \<Rightarrow> bool \<Rightarrow> terminal_queue \<Rightarrow> terminal_event popped \<times> terminal_queue" where
  "recv_woken timed_out expired q = (if timed_out then (Finished, q) else recv_pass expired q)"

definition events_close :: "terminal_queue \<Rightarrow> terminal_queue" where
  "events_close q = q\<lparr>tq_closed := True\<rparr>"

subsection \<open>The bounds of the input queue\<close>

definition input_ok :: "input_queue \<Rightarrow> bool" where
  "input_ok q \<longleftrightarrow> input_bytes q = sum_list (map length (input_chunks q))
     \<and> input_bytes q \<le> input_max q \<and> input_max q < usize_max
     \<and> (input_closed q \<longrightarrow> input_chunks q = [])"

lemma input_new_ok: "n < usize_max \<Longrightarrow> input_ok (input_new n)"
  by (simp add: input_ok_def input_new_def)

lemma input_push_ok: "input_ok q \<Longrightarrow> input_push d q = Inr q' \<Longrightarrow> input_ok q'"
  by (auto simp: input_ok_def input_push_def sat_add_def split: if_splits)

lemma input_pop_ok: "input_ok q \<Longrightarrow> input_ok (snd (input_pop q))"
  by (auto simp: input_ok_def input_pop_def split: list.splits)

lemma input_close_ok: "input_ok q \<Longrightarrow> input_ok (input_close q)"
  by (simp add: input_ok_def input_close_def)

text \<open>A chunk is refused exactly when it does not fit; chunks leave in the order they came.\<close>

lemma input_push_exact:
  "input_ok q \<Longrightarrow> input_push d q =
     (if input_closed q then Inl TQueueClosed
      else if input_max q < input_bytes q + length d then Inl TQueueFull
      else Inr (q\<lparr>input_bytes := input_bytes q + length d,
                 input_chunks := input_chunks q @ [d]\<rparr>))"
  by (auto simp: input_ok_def input_push_def sat_add_def)

subsection \<open>The bounds of the event queue\<close>

definition sizes :: "terminal_event list \<Rightarrow> nat" where
  "sizes es = sum_list (map stored_size es)"

lemma sizes_simps [simp]:
  "sizes [] = 0" "sizes (e # es) = stored_size e + sizes es" "sizes (es @ fs) = sizes es + sizes fs"
  by (simp_all add: sizes_def)

definition tqueue_ok :: "terminal_queue \<Rightarrow> bool" where
  "tqueue_ok q \<longleftrightarrow> tq_bytes q = sizes (tq_queue q) \<and> tq_bytes q \<le> tq_max_bytes q
     \<and> tq_max_bytes q < usize_max \<and> length (tq_queue q) \<le> tq_max_count q"

lemma queue_new_ok: "n < usize_max \<Longrightarrow> tqueue_ok (terminal_queue_new i g n c)"
  by (simp add: tqueue_ok_def terminal_queue_new_def)

lemma push_kind_ok: "tqueue_ok q \<Longrightarrow> tqueue_ok (snd (push_kind k q))"
  by (simp add: tqueue_ok_def push_kind_def make_event_def sat_add_le_iff sat_add_less_iff
      sat_add_eq Let_def not_less not_le)

lemma evict_events_spec:
  assumes "evict_events mb mc n b es = (b', es')" and "b = sizes es"
  shows "b' = sizes es'" and "suffix es' es"
    and "mb < usize_max \<Longrightarrow> es' = [] \<or> (b' + n \<le> mb \<and> length es' < mc)"
proof -
  have "b' = sizes es' \<and> suffix es' es
      \<and> (mb < usize_max \<longrightarrow> es' = [] \<or> (b' + n \<le> mb \<and> length es' < mc))"
    using assms
  proof (induction es arbitrary: b)
    case Nil
    then show ?case by simp
  next
    case (Cons e es)
    show ?case
    proof (cases "mb < sat_add b n \<or> mc \<le> length (e # es)")
      case True
      then have "evict_events mb mc n (b - stored_size e) es = (b', es')"
        using Cons.prems(1) by simp
      with Cons.IH [OF this] Cons.prems(2) show ?thesis
        by (auto intro: suffix_ConsI)
    next
      case False
      with Cons.prems show ?thesis
        by (auto simp: sat_add_less_iff)
    qed
  qed
  then show "b' = sizes es'" and "suffix es' es"
    and "mb < usize_max \<Longrightarrow> es' = [] \<or> (b' + n \<le> mb \<and> length es' < mc)"
    by auto
qed

lemma terminal_store_cases:
  assumes "tqueue_ok q" and "terminal_store k q = (b, q')"
  obtains (shut) "\<not> b" and "tq_queue q' = tq_queue q" and "tq_closed q'" and "q' = q \<or> q' =
      q\<lparr>tq_next_sequence := sat_add (tq_next_sequence q) 1, tq_closed := True\<rparr>"
    | (stored) es where "b" and "\<not> tq_closed q" and "suffix es (tq_queue q)"
      and "q' = q\<lparr>tq_next_sequence := sat_add (tq_next_sequence q) 1,
        tq_bytes := sizes es + terminal_event_size k, tq_queue := es @ [fst (make_event k q)]\<rparr>"
      and "sizes es + terminal_event_size k \<le> tq_max_bytes q" and "length es < tq_max_count q"
proof (cases "tq_closed q \<or> tq_max_bytes q < terminal_event_size k \<or> tq_max_count q = 0")
  case True
  with assms(2) show ?thesis
    by (intro shut) (auto simp: terminal_store_def make_event_def Let_def split: if_splits)
next
  case False
  obtain n es where ev: "evict_events (tq_max_bytes q) (tq_max_count q) (terminal_event_size k)
      (tq_bytes q) (tq_queue q) = (n, es)"
    by fastforce
  have limit: "tq_max_bytes q < usize_max" and bytes: "tq_bytes q = sizes (tq_queue q)"
    using assms(1) by (auto simp: tqueue_ok_def)
  note spec = evict_events_spec [OF ev bytes]
  have fits: "n + terminal_event_size k \<le> tq_max_bytes q" "length es < tq_max_count q"
    using spec(1) spec(3) [OF limit] False by auto
  then have "sat_add n (terminal_event_size k) = n + terminal_event_size k"
    using limit by (simp add: sat_add_def)
  with assms(2) False ev fits show ?thesis
    by (intro stored [of es]) (auto simp: terminal_store_def make_event_def Let_def spec)
qed

lemma stored_size_make [simp]: "stored_size (fst (make_event k q)) = terminal_event_size k"
  by (simp add: make_event_def)

lemma terminal_store_ok:
  assumes "tqueue_ok q"
  shows "tqueue_ok (snd (terminal_store k q))"
proof (cases "terminal_store k q")
  case (Pair b q')
  from assms Pair show ?thesis
    by (cases rule: terminal_store_cases) (use assms Pair in \<open>auto simp: tqueue_ok_def\<close>)
qed

text \<open>An open queue with room for the event itself always takes a terminal event.\<close>

lemma terminal_store_succeeds:
  assumes "tqueue_ok q" and "\<not> tq_closed q" and "terminal_event_size k \<le> tq_max_bytes q"
    and "0 < tq_max_count q"
  shows "fst (terminal_store k q)"
proof (cases "terminal_store k q")
  case (Pair b q')
  obtain n es where ev: "evict_events (tq_max_bytes q) (tq_max_count q) (terminal_event_size k)
      (tq_bytes q) (tq_queue q) = (n, es)"
    by fastforce
  have limit: "tq_max_bytes q < usize_max" and bytes: "tq_bytes q = sizes (tq_queue q)"
    using assms(1) by (auto simp: tqueue_ok_def)
  note spec = evict_events_spec [OF ev bytes]
  have "n + terminal_event_size k \<le> tq_max_bytes q" "length es < tq_max_count q"
    using spec(1) spec(3) [OF limit] assms(3,4) by auto
  with assms(2-4) ev limit show ?thesis
    by (simp add: terminal_store_def make_event_def sat_add_less_iff)
qed

lemma recv_pass_ok: "tqueue_ok q \<Longrightarrow> tqueue_ok (snd (recv_pass x q))"
  by (auto simp: tqueue_ok_def recv_pass_def split: list.splits)

subsection \<open>The event stream\<close>

text \<open>
  The stream a session's reader sees is what it has received followed by what is queued. Its
  sequence numbers grow (until the 64-bit counter saturates), every event carries the session's
  identity, and nothing follows a terminal event.
\<close>

definition sequence_before :: "nat \<Rightarrow> nat \<Rightarrow> bool" where
  "sequence_before m n \<longleftrightarrow> m < n \<or> (m = usize_max \<and> n = usize_max)"

definition is_terminal :: "terminal_event \<Rightarrow> bool" where
  "is_terminal e = terminal_kind (te_kind e)"

definition event_before :: "terminal_event \<Rightarrow> terminal_event \<Rightarrow> bool" where
  "event_before a b \<longleftrightarrow> sequence_before (te_sequence a) (te_sequence b) \<and> \<not> is_terminal a"

definition stream_ok :: "terminal_event list \<Rightarrow> terminal_queue \<Rightarrow> bool" where
  "stream_ok received q \<longleftrightarrow>
     sorted_wrt event_before (received @ tq_queue q)
     \<and> (\<forall>e \<in> set (received @ tq_queue q).
          te_session e = tq_session q \<and> te_generation e = tq_generation q
          \<and> sequence_before (te_sequence e) (tq_next_sequence q)
          \<and> (is_terminal e \<longrightarrow> tq_terminal q))
     \<and> tq_next_sequence q \<le> usize_max"

lemma sequence_before_next: "n \<le> usize_max \<Longrightarrow> sequence_before n (sat_add n (Suc 0))"
  by (auto simp: sequence_before_def sat_add_def)

lemma sequence_before_step: "n \<le> usize_max \<Longrightarrow> sequence_before m n \<Longrightarrow> sequence_before m (sat_add n (Suc 0))"
  by (auto simp: sequence_before_def sat_add_def)

lemma sat_add_usize [simp]: "sat_add m n \<le> usize_max"
  by (simp add: sat_add_def)

lemma stream_new: "stream_ok [] (terminal_queue_new i g n c)"
  by (simp add: stream_ok_def terminal_queue_new_def usize_max_def)

lemma stream_skip:
  "stream_ok r q \<Longrightarrow> stream_ok r (q\<lparr>tq_next_sequence := sat_add (tq_next_sequence q) 1\<rparr>)"
  by (auto simp: stream_ok_def intro: sequence_before_step)

lemma stream_append:
  assumes "stream_ok r q" and "\<forall>e \<in> set (r @ tq_queue q). \<not> is_terminal e"
    and "suffix es (tq_queue q)" and "terminal_kind k \<Longrightarrow> tq_terminal q"
    and "tq_queue q' = es @ [fst (make_event k q)]"
    and "tq_next_sequence q' = sat_add (tq_next_sequence q) 1"
    and "tq_session q' = tq_session q" and "tq_generation q' = tq_generation q"
    and "tq_terminal q' = tq_terminal q"
  shows "stream_ok r q'"
proof -
  obtain zs where zs: "tq_queue q = zs @ es"
    using assms(3) by (auto simp: suffix_def)
  let ?e = "fst (make_event k q)"
  have e: "te_session ?e = tq_session q" "te_generation ?e = tq_generation q"
      "te_sequence ?e = tq_next_sequence q" "te_kind ?e = k"
    by (simp_all add: make_event_def)
  have old: "sorted_wrt event_before (r @ es)"
    using assms(1) zs by (auto simp: stream_ok_def sorted_wrt_append)
  have before: "event_before a ?e" if "a \<in> set (r @ es)" for a
    using that assms(1,2) zs e by (auto simp: event_before_def stream_ok_def)
  have "sorted_wrt event_before (r @ es @ [?e])"
    using old before by (auto simp: sorted_wrt_append)
  then show ?thesis
    using assms(1,4-) zs e
    by (auto simp: stream_ok_def is_terminal_def intro: sequence_before_step sequence_before_next)
qed

lemma push_kind_stream:
  assumes "stream_ok r q" and "\<not> terminal_kind k"
  shows "stream_ok r (snd (push_kind k q))"
proof (cases "tq_closed q \<or> tq_terminal q \<or> tq_max_count q \<le> length (tq_queue q)")
  case True
  with assms show ?thesis by (simp add: push_kind_def)
next
  case False
  then have "\<forall>e \<in> set (r @ tq_queue q). \<not> is_terminal e"
    using assms(1) by (auto simp: stream_ok_def)
  note app = stream_append [OF assms(1) this suffix_order.order_refl, of k]
  show ?thesis
  proof (cases "tq_max_bytes q < sat_add (tq_bytes q) (terminal_event_size k)")
    case True
    with False stream_skip [OF assms(1)] show ?thesis
      by (simp add: push_kind_def make_event_def)
  next
    case fits: False
    show ?thesis
      by (rule app) (use False fits assms(2) in \<open>simp_all add: push_kind_def make_event_def\<close>)
  qed
qed

lemma claim_stream: "stream_ok r q \<Longrightarrow> stream_ok r (snd (terminal_claim q))"
  by (auto simp: stream_ok_def terminal_claim_def)

lemma close_stream: "stream_ok r q \<Longrightarrow> stream_ok r (events_close q)"
  by (auto simp: stream_ok_def events_close_def)

lemma store_stream:
  assumes "tqueue_ok q" and "stream_ok r q" and "tq_terminal q"
    and "\<forall>e \<in> set (r @ tq_queue q). \<not> is_terminal e"
  shows "stream_ok r (snd (terminal_store k q))"
proof (cases "terminal_store k q")
  case (Pair b q')
  from assms(1) Pair show ?thesis
  proof (cases rule: terminal_store_cases)
    case shut
    then show ?thesis
      using assms(2) stream_skip [OF assms(2)] Pair by (auto simp: stream_ok_def)
  next
    case (stored es)
    then show ?thesis
      using stream_append [OF assms(2,4) stored(3), of k q'] assms(3) Pair by simp
  qed
qed

lemma recv_stream:
  "stream_ok r q \<Longrightarrow> recv_pass x q = (Popped e, q') \<Longrightarrow> stream_ok (r @ [e]) q'"
  by (auto simp: stream_ok_def recv_pass_def split: list.splits if_splits)

lemma recv_nothing: "recv_pass x q = (r, q') \<Longrightarrow> r = Finished \<or> r = Waits \<Longrightarrow> q' = q"
  by (auto simp: recv_pass_def split: list.splits if_splits)

end
