(* ===== verification/Ja_Paths.thy ===== *)
theory Ja_Paths
  imports Ja_Prelude
begin

text \<open>
  \<open>std::path\<close> on Unix, as the terminal policy and the workspace reader use it: the components
  of a path, \<open>is_absolute\<close>, \<open>join\<close>, and the containment test both of them write over the
  components (\<open>path_is_within\<close> in \<open>terminal/policy_paths.rs\<close> and
  \<open>workspace_read/registry.rs\<close>). Also \<open>String::from_utf8_lossy\<close>.
\<close>

subsection \<open>Components\<close>

datatype path_component = RootDir | CurDir | ParentDir | Normal str

fun split_on :: "char \<Rightarrow> str \<Rightarrow> str list" where
  "split_on c [] = [[]]"
| "split_on c (x # xs) =
     (if x = c then [] # split_on c xs
      else (case split_on c xs of [] \<Rightarrow> [[x]] | p # ps \<Rightarrow> (x # p) # ps))"

abbreviation slash :: char where "slash \<equiv> CHR 0x2F"

definition is_absolute :: "str \<Rightarrow> bool" where
  "is_absolute p \<longleftrightarrow> p \<noteq> [] \<and> hd p = slash"

definition name_component :: "str \<Rightarrow> path_component" where
  "name_component s = (if s = ''..'' then ParentDir else Normal s)"

definition named :: "str list \<Rightarrow> path_component list" where
  "named ps = map name_component (List.filter (\<lambda>s. s \<noteq> [] \<and> s \<noteq> ''.'') ps)"

definition components :: "str \<Rightarrow> path_component list" where
  "components p =
     (if is_absolute p then RootDir # named (split_on slash (tl p))
      else if p \<noteq> [] \<and> hd (split_on slash p) = ''.'' then CurDir # named (split_on slash p)
      else named (split_on slash p))"

definition path_join :: "str \<Rightarrow> str \<Rightarrow> str" where
  "path_join a b =
     (if is_absolute b then b
      else if a = [] \<or> last a = slash then a @ b else a @ [slash] @ b)"

definition path_is_within :: "str \<Rightarrow> str \<Rightarrow> bool" where
  "path_is_within root candidate \<longleftrightarrow>
     (let rs = components root; cs = components candidate
      in length rs \<le> length cs \<and> (\<forall>(r, c) \<in> set (zip rs cs). r = c))"

lemma zip_all_equal: "length xs \<le> length ys \<Longrightarrow> (\<forall>(x, y) \<in> set (zip xs ys). x = y) \<longleftrightarrow> prefix xs ys"
proof (induction xs arbitrary: ys)
  case Nil
  then show ?case by simp
next
  case (Cons x xs)
  then show ?case by (cases ys) auto
qed

text \<open>Containment is the prefix order of the components, so a sibling never passes.\<close>

lemma path_is_within_prefix: "path_is_within r c \<longleftrightarrow> prefix (components r) (components c)"
  using zip_all_equal [of "components r" "components c"]
  by (auto simp: path_is_within_def Let_def prefix_length_le)

lemma path_within_refl [simp]: "path_is_within r r"
  by (simp add: path_is_within_prefix)

lemma path_within_trans: "path_is_within a b \<Longrightarrow> path_is_within b c \<Longrightarrow> path_is_within a c"
  by (auto simp: path_is_within_prefix)

subsection \<open>Splitting\<close>

lemma split_on_nonempty [simp]: "split_on c s \<noteq> []"
  by (induction s) (auto split: list.splits)

lemma split_on_pieces: "p \<in> set (split_on c s) \<Longrightarrow> c \<notin> set p"
  by (induction s arbitrary: p) (auto split: list.splits if_splits)

lemma split_on_none: "c \<notin> set s \<Longrightarrow> split_on c s = [s]"
  by (induction s) auto

lemma split_on_append: "c \<notin> set s \<Longrightarrow> split_on c (s @ c # t) = s # split_on c t"
  by (induction s) (auto split: list.splits)

text \<open>The pieces joined by the separator are the text again.\<close>

fun join_with :: "char \<Rightarrow> str list \<Rightarrow> str" where
  "join_with c [] = []"
| "join_with c [p] = p"
| "join_with c (p # q # ps) = p @ c # join_with c (q # ps)"

lemma join_split: "join_with c (split_on c s) = s"
proof (induction s)
  case Nil
  then show ?case by simp
next
  case (Cons x xs)
  obtain p ps where "split_on c xs = p # ps"
    by (cases "split_on c xs") auto
  with Cons show ?case by (cases ps) auto
qed

lemma split_join:
  "ps \<noteq> [] \<Longrightarrow> \<forall>p \<in> set ps. c \<notin> set p \<Longrightarrow> split_on c (join_with c ps) = ps"
  by (induction c ps rule: join_with.induct) (auto simp: split_on_none split_on_append)

subsection \<open>Lossy UTF-8\<close>

text \<open>
  \<open>String::from_utf8_lossy\<close>: every maximal ill-formed prefix becomes U+FFFD. The second byte of
  a longer sequence decides whether the sequence is overlong, a surrogate or out of range.
\<close>

definition second_ok :: "char \<Rightarrow> char \<Rightarrow> bool" where
  "second_ok a b \<longleftrightarrow> is_cont b
     \<and> (byte a = 224 \<longrightarrow> 160 \<le> byte b) \<and> (byte a = 237 \<longrightarrow> byte b \<le> 159)
     \<and> (byte a = 240 \<longrightarrow> 144 \<le> byte b) \<and> (byte a = 244 \<longrightarrow> byte b \<le> 143)"

definition utf8_width :: "char \<Rightarrow> nat" where
  "utf8_width a =
     (if byte a < 128 then 1 else if 194 \<le> byte a \<and> byte a \<le> 223 then 2
      else if 224 \<le> byte a \<and> byte a \<le> 239 then 3
      else if 240 \<le> byte a \<and> byte a \<le> 244 then 4 else 0)"

definition replacement :: bytes where
  "replacement = [CHR 0xEF, CHR 0xBF, CHR 0xBD]"

fun from_utf8_lossy :: "bytes \<Rightarrow> str" where
  "from_utf8_lossy [] = []"
| "from_utf8_lossy (a # s) =
     (if utf8_width a = 1 then a # from_utf8_lossy s
      else if utf8_width a = 0 then replacement @ from_utf8_lossy s
      else (case s of [] \<Rightarrow> replacement
        | b # s2 \<Rightarrow>
            if \<not> second_ok a b then replacement @ from_utf8_lossy (b # s2)
            else if utf8_width a = 2 then a # b # from_utf8_lossy s2
            else (case s2 of [] \<Rightarrow> replacement
              | c # s3 \<Rightarrow>
                  if \<not> is_cont c then replacement @ from_utf8_lossy (c # s3)
                  else if utf8_width a = 3 then a # b # c # from_utf8_lossy s3
                  else (case s3 of [] \<Rightarrow> replacement
                    | d # s4 \<Rightarrow>
                        if \<not> is_cont d then replacement @ from_utf8_lossy (d # s4)
                        else a # b # c # d # from_utf8_lossy s4))))"

lemma lossy_ascii: "is_ascii s \<Longrightarrow> from_utf8_lossy s = s"
  by (induction s) (auto simp: is_ascii_def utf8_width_def)

end
