(* ===== verification/Ja_Terminal_Policy.thy ===== *)
theory Ja_Terminal_Policy
  imports Ja_Terminal_Queue Ja_Paths
begin

text \<open>
  The terminal's launch policy (\<open>terminal/policy.rs\<close>, \<open>policy_env.rs\<close>, \<open>policy_paths.rs\<close>) as
  it is compiled for Unix: the resource limits, the working directory confined to the workspace,
  the shell of a profile and the allow-listed environment. The host (its file system, its
  environment, its current directory) is an argument.
\<close>

subsection \<open>Limits\<close>

record terminal_limits =
  max_sessions :: nat
  max_input_chunk_bytes :: nat
  max_input_queue_bytes :: nat
  max_output_batch_bytes :: nat
  max_output_queue_bytes :: nat
  max_terminal_event_count :: nat
  max_scrollback_bytes :: nat
  max_env_vars :: nat
  max_env_key_bytes :: nat
  max_env_value_bytes :: nat
  max_env_total_bytes :: nat
  terminal_operation_timeout :: nanos

definition env_vars_cap :: nat where "env_vars_cap = 64"
definition env_key_cap :: nat where "env_key_cap = 128"
definition env_value_cap :: nat where "env_value_cap = 16 * 1024"
definition env_total_cap :: nat where "env_total_cap = 256 * 1024"
definition terminal_max_timeout :: nanos where "terminal_max_timeout = 120 * 10 ^ 9"
definition min_terminal_event_bytes :: nat where "min_terminal_event_bytes = 64"

definition terminal_limits_default :: terminal_limits where
  "terminal_limits_default = \<lparr>
     max_sessions = 8, max_input_chunk_bytes = 64 * 1024, max_input_queue_bytes = 1024 * 1024,
     max_output_batch_bytes = 64 * 1024, max_output_queue_bytes = 8 * 1024 * 1024,
     max_terminal_event_count = 2048, max_scrollback_bytes = 4 * 1024 * 1024,
     max_env_vars = env_vars_cap, max_env_key_bytes = env_key_cap,
     max_env_value_bytes = env_value_cap, max_env_total_bytes = env_total_cap,
     terminal_operation_timeout = 30 * 10 ^ 9 \<rparr>"

definition terminal_limits_validate :: "terminal_limits \<Rightarrow> terminal_error + terminal_limits" where
  "terminal_limits_validate l =
     (if 0 < max_sessions l \<and> max_sessions l \<le> 64
         \<and> 0 < max_input_chunk_bytes l \<and> max_input_chunk_bytes l \<le> 4 * 1024 * 1024
         \<and> max_input_chunk_bytes l \<le> max_input_queue_bytes l
         \<and> max_input_queue_bytes l \<le> 64 * 1024 * 1024
         \<and> 0 < max_output_batch_bytes l \<and> max_output_batch_bytes l \<le> 4 * 1024 * 1024
         \<and> max_output_batch_bytes l \<le> max_output_queue_bytes l
         \<and> min_terminal_event_bytes \<le> max_output_queue_bytes l
         \<and> max_output_queue_bytes l \<le> 256 * 1024 * 1024
         \<and> 0 < max_terminal_event_count l \<and> max_terminal_event_count l \<le> 65536
         \<and> max_output_batch_bytes l \<le> max_scrollback_bytes l
         \<and> max_scrollback_bytes l \<le> 256 * 1024 * 1024
         \<and> 0 < max_env_vars l \<and> max_env_vars l \<le> env_vars_cap
         \<and> 0 < max_env_key_bytes l \<and> max_env_key_bytes l \<le> env_key_cap
         \<and> 0 < max_env_value_bytes l \<and> max_env_value_bytes l \<le> env_value_cap
         \<and> max_env_value_bytes l \<le> max_env_total_bytes l \<and> max_env_total_bytes l \<le> env_total_cap
         \<and> terminal_operation_timeout l \<noteq> 0 \<and> terminal_operation_timeout l \<le> terminal_max_timeout
      then Inr l else Inl TInvalidConfig)"

subsection \<open>The host\<close>

datatype unix_platform = MacOS | OtherUnix

record terminal_host =
  host_platform :: unix_platform
  host_canonicalize :: "str \<Rightarrow> str option"
  host_is_dir :: "str \<Rightarrow> bool option"
  host_is_file :: "str \<Rightarrow> bool"
  host_env :: "str \<Rightarrow> bytes option"
  host_current_dir :: "str option"

text \<open>\<open>fs::canonicalize\<close> and \<open>fs::metadata\<close> fail with None; every failure is \<open>InvalidCwd\<close>.\<close>

definition terminal_absolute_path :: "terminal_host \<Rightarrow> str \<Rightarrow> str option" where
  "terminal_absolute_path h p =
     (if is_absolute p then Some p
      else map_option (\<lambda>d. path_join d p) (host_current_dir h))"

definition canonical_directory :: "terminal_host \<Rightarrow> str \<Rightarrow> terminal_error + str" where
  "canonical_directory h p =
     and_then (ok_or (host_canonicalize h p) TInvalidCwd) (\<lambda>canonical.
     and_then (ok_or (host_is_dir h canonical) TInvalidCwd) (\<lambda>dir.
     if dir then Inr canonical else Inl TInvalidCwd))"

subsection \<open>The environment\<close>

definition safe_override_env :: "str list" where
  "safe_override_env =
     [''COLORTERM'', ''CLICOLOR'', ''LANG'', ''LC_ALL'', ''LC_CTYPE'', ''NO_COLOR'', ''TERM'',
      ''TERM_PROGRAM'', ''TZ'']"

definition base_env :: "str list" where
  "base_env =
     [''COLORTERM'', ''HOME'', ''HOMEDRIVE'', ''HOMEPATH'', ''LANG'', ''LC_ALL'', ''LC_CTYPE'',
      ''LOGNAME'', ''PATH'', ''PATHEXT'', ''SHELL'', ''SystemRoot'', ''TEMP'', ''TERM'',
      ''TERM_PROGRAM'', ''TMP'', ''USER'', ''USERPROFILE'', ''WINDIR'']"

definition sensitive_env_markers :: "str list" where
  "sensitive_env_markers =
     [''TOKEN'', ''SECRET'', ''PASSWORD'', ''PASSWD'', ''API_KEY'', ''APIKEY'', ''PRIVATE_KEY'',
      ''CREDENTIAL'', ''COOKIE'', ''AUTH'']"

definition dangerous_env_keys :: "str list" where
  "dangerous_env_keys =
     [''LD_PRELOAD'', ''LD_LIBRARY_PATH'', ''DYLD_INSERT_LIBRARIES'', ''DYLD_LIBRARY_PATH'',
      ''DYLD_FRAMEWORK_PATH'', ''DYLD_FALLBACK_LIBRARY_PATH'', ''BASH_ENV'', ''ENV'', ''ZDOTDIR'',
      ''PROMPT_COMMAND'']"

definition validate_env_key :: "str \<Rightarrow> terminal_error + unit" where
  "validate_env_key key =
     require (key \<noteq> [] \<and> length key \<le> 128
       \<and> (\<forall>c \<in> set key. is_ascii_alphanumeric c \<or> c = CHR ''_'')) TEnvironmentNotAllowed"

definition is_sensitive_env_key :: "str \<Rightarrow> bool" where
  "is_sensitive_env_key key \<longleftrightarrow>
     (\<exists>marker \<in> set sensitive_env_markers. contains_str (to_ascii_uppercase key) marker)"

definition is_dangerous_env_key :: "str \<Rightarrow> bool" where
  "is_dangerous_env_key key \<longleftrightarrow>
     (\<exists>marker \<in> set dangerous_env_keys. to_ascii_uppercase key = marker)"

text \<open>A \<open>BTreeMap\<close> is an association list sorted by key.\<close>

type_synonym env_map = "(str \<times> bytes) list"

fun env_insert :: "str \<Rightarrow> bytes \<Rightarrow> env_map \<Rightarrow> env_map" where
  "env_insert k v [] = [(k, v)]"
| "env_insert k v ((k', v') # m) =
     (if k < k' then (k, v) # (k', v') # m
      else if k = k' then (k, v) # m
      else (k', v') # env_insert k v m)"

fun validate_env_entries :: "nat \<Rightarrow> env_map \<Rightarrow> terminal_error + unit" where
  "validate_env_entries so_far [] = Inr ()"
| "validate_env_entries so_far ((key, value) # rest) =
     (let key_text = from_utf8_lossy key;
          key_bytes = length key_text;
          value_bytes = length (from_utf8_lossy value)
      in and_then (validate_env_key key_text) (\<lambda>_.
         if is_sensitive_env_key key_text then Inl TEnvironmentSecret
         else if is_dangerous_env_key key_text then Inl TEnvironmentDangerous
         else if key_text \<notin> set base_env \<and> key_text \<notin> set safe_override_env
           then Inl TEnvironmentNotAllowed
         else if env_key_cap < key_bytes \<or> env_value_cap < value_bytes then Inl TEnvironmentLimit
         else (case Option.bind (checked_add64 so_far key_bytes) (\<lambda>t. checked_add64 t value_bytes) of
             None \<Rightarrow> Inl TEnvironmentLimit
           | Some now \<Rightarrow>
               if env_total_cap < now then Inl TEnvironmentLimit
               else validate_env_entries now rest)))"

definition validate_environment_map :: "env_map \<Rightarrow> terminal_error + unit" where
  "validate_environment_map m =
     (if env_vars_cap < length m then Inl TEnvironmentLimit else validate_env_entries 0 m)"

fun inherit_env :: "(str \<Rightarrow> bytes option) \<Rightarrow> str list \<Rightarrow> env_map \<Rightarrow> env_map" where
  "inherit_env lookup [] m = m"
| "inherit_env lookup (key # keys) m =
     inherit_env lookup keys (case lookup key of Some value \<Rightarrow> env_insert key value m | None \<Rightarrow> m)"

fun override_env :: "env_map \<Rightarrow> env_map \<Rightarrow> terminal_error + env_map" where
  "override_env [] m = Inr m"
| "override_env ((key, value) # rest) m =
     and_then (validate_env_key key) (\<lambda>_.
       if is_sensitive_env_key key then Inl TEnvironmentSecret
       else if key \<notin> set safe_override_env then Inl TEnvironmentNotAllowed
       else if env_value_cap < length value \<or> CHR 0x00 \<in> set value then Inl TEnvironmentNotAllowed
       else override_env rest (env_insert key value m))"

definition build_environment ::
    "(str \<Rightarrow> bytes option) \<Rightarrow> env_map \<Rightarrow> str \<Rightarrow> terminal_error + env_map" where
  "build_environment lookup overrides shell =
     (let m = env_insert ''SHELL'' shell (inherit_env lookup base_env [])
      in and_then (override_env overrides m) (\<lambda>env.
         and_then (validate_environment_map env) (\<lambda>_. Inr env)))"

subsection \<open>Launching\<close>

record launch_request =
  launch_profile :: shell_profile
  launch_cwd :: "str option"
  launch_env :: env_map
  launch_size :: terminal_size

record resolved_shell =
  shell_program :: str
  shell_args :: "str list"

record prepared_launch =
  prepared_shell :: resolved_shell
  prepared_cwd :: str
  prepared_environment :: env_map
  prepared_size :: terminal_size

record terminal_policy =
  workspace_root :: str
  policy_limits :: terminal_limits

definition terminal_policy_with_limits ::
    "terminal_host \<Rightarrow> str \<Rightarrow> terminal_limits \<Rightarrow> terminal_error + terminal_policy" where
  "terminal_policy_with_limits h root limits =
     and_then (terminal_limits_validate limits) (\<lambda>limits.
     and_then (ok_or (terminal_absolute_path h root) TInvalidCwd) (\<lambda>root.
     and_then (canonical_directory h root) (\<lambda>canonical.
     Inr \<lparr>workspace_root = canonical, policy_limits = limits\<rparr>)))"

definition terminal_policy_new :: "terminal_host \<Rightarrow> str \<Rightarrow> terminal_error + terminal_policy" where
  "terminal_policy_new h root = terminal_policy_with_limits h root terminal_limits_default"

definition resolve_cwd ::
    "terminal_host \<Rightarrow> terminal_policy \<Rightarrow> str option \<Rightarrow> terminal_error + str" where
  "resolve_cwd h p requested =
     (let raw = (case requested of
          Some path \<Rightarrow> if is_absolute path then path else path_join (workspace_root p) path
        | None \<Rightarrow> workspace_root p)
      in and_then (canonical_directory h raw) (\<lambda>canonical.
         if \<not> path_is_within (workspace_root p) canonical then Inl TCwdOutsideWorkspace
         else Inr canonical))"

definition resolve_shell :: "terminal_host \<Rightarrow> shell_profile \<Rightarrow> terminal_error + resolved_shell" where
  "resolve_shell h profile =
     (let profile = (if profile = ShellDefault
        then (case host_platform h of MacOS \<Rightarrow> ShellZsh | OtherUnix \<Rightarrow> ShellBash) else profile)
      in and_then (case profile of
             ShellBash \<Rightarrow> Inr ''/bin/bash''
           | ShellZsh \<Rightarrow> Inr ''/bin/zsh''
           | ShellFish \<Rightarrow> Inr ''/usr/bin/fish''
           | _ \<Rightarrow> Inl TInvalidShell) (\<lambda>program.
         if \<not> host_is_file h program then Inl TInvalidShell
         else Inr \<lparr>shell_program = program, shell_args = [''-i'']\<rparr>))"

definition prepare_launch ::
    "terminal_host \<Rightarrow> terminal_policy \<Rightarrow> launch_request \<Rightarrow> terminal_error + prepared_launch" where
  "prepare_launch h p r =
     (if \<not> size_validate (launch_size r) then Inl TInvalidSize
      else and_then (resolve_cwd h p (launch_cwd r)) (\<lambda>cwd.
           and_then (resolve_shell h (launch_profile r)) (\<lambda>shell.
           and_then (build_environment (host_env h) (launch_env r) (shell_program shell)) (\<lambda>env.
           Inr \<lparr>prepared_shell = shell, prepared_cwd = cwd, prepared_environment = env,
                prepared_size = launch_size r\<rparr>))))"

subsection \<open>What a launch may see\<close>

lemma env_insert_keys: "fst ` set (env_insert k v m) = insert k (fst ` set m)"
  by (induction k v m rule: env_insert.induct) auto

lemma env_insert_entries: "set (env_insert k v m) \<subseteq> insert (k, v) (set m)"
  by (induction k v m rule: env_insert.induct) auto

lemma env_insert_get: "map_of (env_insert k v m) k' = (if k' = k then Some v else map_of m k')"
  by (induction k v m rule: env_insert.induct) auto

lemma env_insert_sorted:
  "sorted_wrt (<) (map fst m) \<Longrightarrow> sorted_wrt (<) (map fst (env_insert k v m))"
proof (induction k v m rule: env_insert.induct)
  case (2 k v k' v' m)
  have keys: "fst ` set (env_insert k v m) = insert k (fst ` set m)"
    by (rule env_insert_keys)
  with 2 show ?case by (auto dest: less_trans)
qed simp

lemma inherit_env_get:
  "map_of (inherit_env lookup keys m) k =
     (if k \<in> set keys \<and> lookup k \<noteq> None then lookup k else map_of m k)"
  by (induction keys arbitrary: m) (auto simp: env_insert_get split: option.splits)

lemma inherit_env_sorted:
  "sorted_wrt (<) (map fst m) \<Longrightarrow> sorted_wrt (<) (map fst (inherit_env lookup keys m))"
  by (induction keys arbitrary: m) (auto simp: env_insert_sorted split: option.splits)

lemma override_env_get:
  "override_env os m = Inr env \<Longrightarrow> map_of env k = Some v \<Longrightarrow>
     map_of m k = Some v \<or> ((k, v) \<in> set os \<and> k \<in> set safe_override_env)"
proof (induction os arbitrary: m)
  case Nil
  then show ?case by simp
next
  case (Cons o' os)
  obtain a b where o': "o' = (a, b)" by (cases o')
  with Cons.prems(1) have safe: "a \<in> set safe_override_env"
    and rest: "override_env os (env_insert a b m) = Inr env"
    by (auto simp: result_iff split: if_splits)
  from Cons.IH [OF rest Cons.prems(2)] safe o' show ?case
    by (auto simp: env_insert_get split: if_splits)
qed

lemma override_env_keeps:
  "override_env os m = Inr env \<Longrightarrow> k \<notin> set safe_override_env \<Longrightarrow> map_of env k = map_of m k"
proof (induction os arbitrary: m)
  case Nil
  then show ?case by simp
next
  case (Cons o' os)
  obtain a b where o': "o' = (a, b)" by (cases o')
  with Cons.prems(1) have "a \<in> set safe_override_env"
    and rest: "override_env os (env_insert a b m) = Inr env"
    by (auto simp: result_iff split: if_splits)
  with Cons.IH [OF rest] Cons.prems(2) show ?case
    by (auto simp: env_insert_get)
qed

lemma override_env_sorted:
  "override_env os m = Inr env \<Longrightarrow> sorted_wrt (<) (map fst m) \<Longrightarrow> sorted_wrt (<) (map fst env)"
proof (induction os arbitrary: m)
  case (Cons o' os)
  then show ?case
    by (cases o') (auto simp: result_iff env_insert_sorted split: if_splits)
qed simp

definition env_entry_ok :: "str \<times> bytes \<Rightarrow> bool" where
  "env_entry_ok e \<longleftrightarrow>
     (let key = from_utf8_lossy (fst e)
      in \<not> is_sensitive_env_key key \<and> \<not> is_dangerous_env_key key
         \<and> (key \<in> set base_env \<or> key \<in> set safe_override_env)
         \<and> length (from_utf8_lossy (snd e)) \<le> env_value_cap)"

definition env_bytes :: "env_map \<Rightarrow> nat" where
  "env_bytes m = sum_list (map (\<lambda>(k, v).
     length (from_utf8_lossy k) + length (from_utf8_lossy v)) m)"

lemma validate_env_entries_ok:
  "validate_env_entries t m = Inr u \<Longrightarrow> t \<le> env_total_cap \<Longrightarrow>
     (\<forall>e \<in> set m. env_entry_ok e) \<and> t + env_bytes m \<le> env_total_cap"
proof (induction m arbitrary: t)
  case Nil
  then show ?case by (simp add: env_bytes_def)
next
  case (Cons e m)
  obtain k v where e: "e = (k, v)" by (cases e)
  let ?t = "t + length (from_utf8_lossy k) + length (from_utf8_lossy v)"
  have step: "env_entry_ok e" "?t \<le> env_total_cap" "validate_env_entries ?t m = Inr u"
    using Cons.prems(1) e
    by (auto simp: Let_def result_iff env_entry_ok_def checked_add64_Some bind_eq_Some_conv
        split: if_splits option.splits)
  from Cons.IH [OF step(3,2)] step(1) e show ?case
    by (simp add: env_bytes_def)
qed

lemma sorted_env_map_of: "sorted_wrt (<) (map fst (m :: env_map)) \<Longrightarrow> (k, v) \<in> set m \<Longrightarrow> map_of m k = Some v"
  by (rule map_of_is_SomeI) (auto simp: strict_sorted_iff)

lemma build_environment_ok:
  assumes "build_environment lookup os shell = Inr env"
  shows "length env \<le> env_vars_cap" and "env_bytes env \<le> env_total_cap"
    and "e \<in> set env \<Longrightarrow> env_entry_ok e"
    and "map_of env ''SHELL'' = Some shell"
    and "(k, v) \<in> set env \<Longrightarrow> k \<noteq> ''SHELL'' \<Longrightarrow>
      (k \<in> set base_env \<and> lookup k = Some v) \<or> (k \<in> set safe_override_env \<and> (k, v) \<in> set os)"
proof -
  let ?m = "env_insert ''SHELL'' shell (inherit_env lookup base_env [])"
  have over: "override_env os ?m = Inr env" and valid: "validate_environment_map env = Inr ()"
    using assms by (auto simp: build_environment_def Let_def result_iff)
  have entries: "validate_env_entries 0 env = Inr ()" and len: "length env \<le> env_vars_cap"
    using valid by (auto simp: validate_environment_map_def split: if_splits)
  show "length env \<le> env_vars_cap" by (rule len)
  note ok = validate_env_entries_ok [OF entries]
  show "env_bytes env \<le> env_total_cap" and "e \<in> set env \<Longrightarrow> env_entry_ok e"
    using ok by auto
  have "''SHELL'' \<notin> set safe_override_env"
    by (simp add: safe_override_env_def)
  from override_env_keeps [OF over this] show "map_of env ''SHELL'' = Some shell"
    by (simp add: env_insert_get)
  have sorted: "sorted_wrt (<) (map fst env)"
    by (rule override_env_sorted [OF over]) (simp add: env_insert_sorted inherit_env_sorted)
  show "(k \<in> set base_env \<and> lookup k = Some v) \<or> (k \<in> set safe_override_env \<and> (k, v) \<in> set os)"
    if "(k, v) \<in> set env" and "k \<noteq> ''SHELL''"
    using override_env_get [OF over sorted_env_map_of [OF sorted that(1)]] that(2)
    by (auto simp: env_insert_get inherit_env_get split: if_splits)
qed

lemma canonical_directory_Inr:
  "canonical_directory h p = Inr c \<longleftrightarrow> host_canonicalize h p = Some c \<and> host_is_dir h c = Some True"
  by (auto simp: canonical_directory_def result_iff)

lemma resolve_cwd_Inr:
  "resolve_cwd h p r = Inr c \<Longrightarrow> path_is_within (workspace_root p) c \<and> host_is_dir h c = Some True"
  by (auto simp: resolve_cwd_def Let_def result_iff canonical_directory_Inr split: if_splits)

lemma resolve_shell_Inr:
  "resolve_shell h s = Inr sh \<Longrightarrow> shell_program sh \<in> {''/bin/bash'', ''/bin/zsh'', ''/usr/bin/fish''}
     \<and> host_is_file h (shell_program sh) \<and> shell_args sh = [''-i'']"
  by (auto simp: resolve_shell_def Let_def result_iff
      split: if_splits shell_profile.splits unix_platform.splits)


definition sample_host :: terminal_host where
  "sample_host = \<lparr>host_platform = OtherUnix, host_canonicalize = Some,
     host_is_dir = (\<lambda>_. Some True), host_is_file = (\<lambda>_. True),
     host_env = (\<lambda>k. if k = ''HOME'' then Some ''/home/u'' else None), host_current_dir = None\<rparr>"

definition sample_launch :: launch_request where
  "sample_launch = \<lparr>launch_profile = ShellDefault, launch_cwd = Some ''src'',
     launch_env = [(''TERM'', ''xterm'')], launch_size = terminal_size_default\<rparr>"

definition sample_policy :: terminal_policy where
  "sample_policy = \<lparr>workspace_root = ''/w'', policy_limits = terminal_limits_default\<rparr>"

definition sample_prepared :: prepared_launch where
  "sample_prepared = \<lparr>
     prepared_shell = \<lparr>shell_program = ''/bin/bash'', shell_args = [''-i'']\<rparr>,
     prepared_cwd = ''/w/src'',
     prepared_environment = [(''HOME'', ''/home/u''), (''SHELL'', ''/bin/bash''), (''TERM'', ''xterm'')],
     prepared_size = terminal_size_default\<rparr>"

lemma sample_inherit:
  "inherit_env (host_env sample_host) base_env [] = [(''HOME'', ''/home/u'')]"
  by (simp add: sample_host_def base_env_def)

lemma sample_overrides:
  "override_env [(''TERM'', ''xterm'')] (env_insert ''SHELL'' ''/bin/bash'' [(''HOME'', ''/home/u'')])
     = Inr (prepared_environment sample_prepared)"
  by (simp add: validate_env_key_def byte_defs is_sensitive_env_key_def sensitive_env_markers_def
      to_ascii_uppercase_def starts_with_def safe_override_env_def env_value_cap_def
      sample_prepared_def less_char_def)

lemma sample_environment:
  "validate_environment_map (prepared_environment sample_prepared) = Inr ()"
  by (simp add: validate_environment_map_def env_vars_cap_def sample_prepared_def lossy_ascii
      is_ascii_def validate_env_key_def byte_defs is_sensitive_env_key_def
      sensitive_env_markers_def to_ascii_uppercase_def starts_with_def is_dangerous_env_key_def
      dangerous_env_keys_def base_env_def env_key_cap_def env_value_cap_def checked_add64_def
      u64_max_def env_total_cap_def Let_def del: from_utf8_lossy.simps)

lemma sample_prepare: "prepare_launch sample_host sample_policy sample_launch = Inr sample_prepared"
proof -
  have "build_environment (host_env sample_host) [(''TERM'', ''xterm'')] ''/bin/bash''
      = Inr (prepared_environment sample_prepared)"
    by (simp add: build_environment_def sample_inherit sample_overrides sample_environment del: env_insert.simps override_env.simps)
  moreover have "resolve_shell sample_host ShellDefault = Inr (prepared_shell sample_prepared)"
    by (simp add: resolve_shell_def sample_host_def sample_prepared_def)
  moreover have "resolve_cwd sample_host sample_policy (Some ''src'') = Inr ''/w/src''"
    by (simp add: resolve_cwd_def is_absolute_def path_join_def sample_policy_def
        canonical_directory_def sample_host_def path_is_within_def components_def named_def
        name_component_def)
  ultimately show ?thesis
    by (simp add: prepare_launch_def sample_launch_def size_validate_def terminal_size_default_def
        sample_prepared_def)
qed


end
