(* ===== verification/Ja_Terminal_Session.thy ===== *)
theory Ja_Terminal_Session
  imports Ja_Terminal_Policy
begin

text \<open>
  One terminal session (\<open>terminal/session.rs\<close>, \<open>terminal/session_workers.rs\<close>): its shared
  state and the threads on it. A section under one mutex, or one atomic access, is an \<open>action\<close>;
  \<open>act\<close> says what it does to the shared state and which actions its thread goes on with.
  Between two actions of a thread any other thread may run. The results of the operating
  system's calls (reads, writes, resizing, process-tree termination, thread creation) are
  arguments of the actions.
\<close>

subsection \<open>State\<close>

record lifecycle_flags =
  terminal_sent :: bool
  life_closed :: bool
  reader_done :: bool
  exit_status :: "(nat \<times> str option) option"

record scrollback =
  sb_chunks :: "bytes list"
  sb_bytes :: nat
  sb_limit :: nat

record resize_queue =
  resize_pending :: "terminal_size option"
  resize_closed :: bool

text \<open>A join handle is known by whether its thread has returned and whether it panicked.\<close>

record worker_tracker =
  workers_remaining :: nat
  worker_handles :: "(bool \<times> bool) list"

record terminal =
  tm_id :: terminal_id
  tm_generation :: nat
  tm_limits :: terminal_limits
  tm_input :: input_queue
  tm_events :: terminal_queue
  tm_resize :: resize_queue
  tm_master :: bool
  tm_stop :: bool
  tm_life :: lifecycle_flags
  tm_scrollback :: scrollback
  tm_workers :: worker_tracker

definition worker_count :: nat where "worker_count = 4"

definition resize_new :: resize_queue where
  "resize_new = \<lparr>resize_pending = None, resize_closed = False\<rparr>"

definition resize_set :: "terminal_size \<Rightarrow> resize_queue \<Rightarrow> terminal_error + resize_queue" where
  "resize_set z q =
     (if resize_closed q then Inl TQueueClosed else Inr (q\<lparr>resize_pending := Some z\<rparr>))"

definition resize_pop :: "resize_queue \<Rightarrow> terminal_size popped \<times> resize_queue" where
  "resize_pop q =
     (case resize_pending q of
        Some z \<Rightarrow> (Popped z, q\<lparr>resize_pending := None\<rparr>)
      | None \<Rightarrow> (if resize_closed q then Finished else Waits, q))"

definition resize_close :: "resize_queue \<Rightarrow> resize_queue" where
  "resize_close q = q\<lparr>resize_closed := True, resize_pending := None\<rparr>"

definition tracker_new :: "nat \<Rightarrow> worker_tracker" where
  "tracker_new n = \<lparr>workers_remaining = n, worker_handles = []\<rparr>"

definition tracker_register :: "bool \<times> bool \<Rightarrow> worker_tracker \<Rightarrow> worker_tracker" where
  "tracker_register h w = w\<lparr>worker_handles := worker_handles w @ [h]\<rparr>"

definition tracker_done :: "worker_tracker \<Rightarrow> worker_tracker" where
  "tracker_done w =
     (if workers_remaining w \<noteq> 0 then w\<lparr>workers_remaining := workers_remaining w - 1\<rparr> else w)"

fun complete_slots :: "nat \<Rightarrow> worker_tracker \<Rightarrow> worker_tracker" where
  "complete_slots 0 w = w"
| "complete_slots (Suc n) w = complete_slots n (tracker_done w)"

datatype worker_reap = ReapComplete | ReapTimeout | ReapJoinFailed

text \<open>
  A look at the tracker by \<open>wait_until\<close>: it keeps waiting while a worker runs or has not
  returned, gives up when no time remains, and otherwise joins every handle.
\<close>

definition wait_workers :: "bool \<Rightarrow> worker_tracker \<Rightarrow> worker_reap popped \<times> worker_tracker" where
  "wait_workers expired w =
     (if workers_remaining w \<noteq> 0 \<or> \<not> list_all fst (worker_handles w) then
        (if expired then Popped ReapTimeout else Waits, w)
      else (Popped (if list_ex snd (worker_handles w) then ReapJoinFailed else ReapComplete),
            w\<lparr>worker_handles := []\<rparr>))"

definition is_reaped :: "worker_tracker \<Rightarrow> bool" where
  "is_reaped w \<longleftrightarrow> workers_remaining w = 0 \<and> worker_handles w = []"

text \<open>
  \<open>spawn_workers\<close>: the four threads in order; the first that cannot be created gives its slot
  and those after it back.
\<close>

fun spawn_workers :: "bool list \<Rightarrow> worker_tracker \<Rightarrow> bool \<times> worker_tracker" where
  "spawn_workers [] w = (True, w)"
| "spawn_workers (started # later) w =
     (if started then spawn_workers later (tracker_register (False, False) w)
      else (False, complete_slots (length (started # later)) w))"

subsection \<open>Scrollback\<close>

definition scrollback_new :: "nat \<Rightarrow> scrollback" where
  "scrollback_new limit = \<lparr>sb_chunks = [], sb_bytes = 0, sb_limit = limit\<rparr>"

fun trim_chunks :: "nat \<Rightarrow> nat \<Rightarrow> bytes list \<Rightarrow> nat \<times> bytes list" where
  "trim_chunks limit n [] = (if limit < n then 0 else n, [])"
| "trim_chunks limit n (c # cs) =
     (if limit < n then trim_chunks limit (n - length c) cs else (n, c # cs))"

definition scrollback_append :: "bytes \<Rightarrow> scrollback \<Rightarrow> scrollback" where
  "scrollback_append data s =
     (let (data, chunks, n) =
            (if sb_limit s \<le> length data then (drop (length data - sb_limit s) data, [], 0)
             else (data, sb_chunks s, sb_bytes s));
          n = sat_add n (length data);
          (n, chunks) = trim_chunks (sb_limit s) n (chunks @ [data])
      in s\<lparr>sb_chunks := chunks, sb_bytes := n\<rparr>)"

definition scrollback_snapshot :: "scrollback \<Rightarrow> bytes" where
  "scrollback_snapshot s = concat (sb_chunks s)"

subsection \<open>Actions\<close>

datatype action =
    ReaderEof | ReaderRead bytes | ReaderError bool | ReaderCheck
  | OutputCheck bytes | OutputKeep bytes | OutputPush bytes | ReaderFinished
  | WriterPop bool | WriterWrite bytes bool | WriterError
  | ResizePop bool | ResizeApply terminal_size bool | ResizeMaster terminal_size bool
  | ControlPush terminal_size
  | ChildExited nat "str option" | ChildWaitError | ChildDeadline
  | FailMark terminal_error | CloseMark close_reason nat
  | ClaimEvent terminal_event_kind | StoreEvent terminal_event_kind
  | StopSwap bool | InputClose | ResizeClose | Terminate | MasterTake | EventsClose
  | WaitWorkers nat | WorkerDone
  | SendInput bytes | InputPush bytes | SendResize terminal_size | ResizeSet terminal_size

definition reader_break :: "action list" where
  "reader_break = [ReaderFinished, WorkerDone]"

definition fail_mark :: "terminal_error \<Rightarrow> terminal \<Rightarrow> terminal \<times> action list" where
  "fail_mark code t =
     (if terminal_sent (tm_life t) then (t, [StopSwap True, EventsClose])
      else (t\<lparr>tm_life := (tm_life t)\<lparr>terminal_sent := True, life_closed := True\<rparr>\<rparr>,
            [ClaimEvent (TError (terminal_error_code code)), StopSwap True, EventsClose]))"

definition close_mark :: "close_reason \<Rightarrow> nat \<Rightarrow> terminal \<Rightarrow> terminal \<times> action list" where
  "close_mark reason looks t =
     (let rest = [StopSwap True, WaitWorkers looks, EventsClose]
      in if terminal_sent (tm_life t) then (t\<lparr>tm_life := (tm_life t)\<lparr>life_closed := True\<rparr>\<rparr>, rest)
         else (t\<lparr>tm_life := (tm_life t)\<lparr>terminal_sent := True, life_closed := True\<rparr>\<rparr>,
               ClaimEvent (TClosed reason) # rest))"

text \<open>The result of \<open>close_until\<close>, from the clean-up's and the workers' outcomes.\<close>

definition close_result :: "bool \<Rightarrow> worker_reap \<Rightarrow> terminal_error + unit" where
  "close_result cleaned reaped =
     (if \<not> cleaned then Inl TProcessCleanupFailed
      else if reaped = ReapComplete then Inr () else Inl TWorkerShutdownTimeout)"

definition child_exited :: "nat \<Rightarrow> str option \<Rightarrow> terminal \<Rightarrow> terminal \<times> action list" where
  "child_exited code signal t =
     (let l = tm_life t; stop = [Terminate, StopSwap False]; rest = [MasterTake, WorkerDone]
      in if terminal_sent l then (t, stop @ rest)
         else if reader_done l then
           (t\<lparr>tm_life := l\<lparr>terminal_sent := True\<rparr>\<rparr>,
            stop @ [ClaimEvent (TExited code signal), EventsClose] @ rest)
         else (t\<lparr>tm_life := l\<lparr>exit_status := Some (code, signal)\<rparr>\<rparr>, stop @ rest))"

definition reader_finished :: "terminal \<Rightarrow> terminal \<times> action list" where
  "reader_finished t =
     (let l = (tm_life t)\<lparr>reader_done := True\<rparr>
      in if terminal_sent l then (t\<lparr>tm_life := l\<rparr>, [MasterTake])
         else (case exit_status l of
             Some (code, signal) \<Rightarrow>
               (t\<lparr>tm_life := l\<lparr>exit_status := None, terminal_sent := True\<rparr>\<rparr>,
                [ClaimEvent (TExited code signal), EventsClose, MasterTake])
           | None \<Rightarrow> (t\<lparr>tm_life := l\<rparr>, [MasterTake])))"

definition reader_can_finish :: "terminal \<Rightarrow> bool" where
  "reader_can_finish t \<longleftrightarrow>
     terminal_sent (tm_life t) \<or> life_closed (tm_life t) \<or> exit_status (tm_life t) \<noteq> None"

definition output_allowed :: "terminal \<Rightarrow> bool" where
  "output_allowed t \<longleftrightarrow> \<not> life_closed (tm_life t) \<and> \<not> terminal_sent (tm_life t)
     \<and> (\<not> tm_stop t \<or> exit_status (tm_life t) \<noteq> None)"

definition validate_token :: "nat \<Rightarrow> terminal \<Rightarrow> terminal_error + unit" where
  "validate_token generation t = require (generation = tm_generation t) TStaleGeneration"

definition validate_open :: "nat \<Rightarrow> terminal \<Rightarrow> terminal_error + unit" where
  "validate_open generation t =
     and_then (validate_token generation t) (\<lambda>_.
       if life_closed (tm_life t) \<or> terminal_sent (tm_life t) then Inl TSessionClosed else Inr ())"

text \<open>\<open>send_input_until\<close> and \<open>resize\<close> up to the push; \<open>expired\<close> is the deadline test.\<close>

definition send_input_check :: "nat \<Rightarrow> bool \<Rightarrow> bytes \<Rightarrow> terminal \<Rightarrow> terminal_error + unit" where
  "send_input_check generation expired data t =
     and_then (validate_open generation t) (\<lambda>_.
       if expired then Inl TDeadlineExceeded
       else if data = [] \<or> max_input_chunk_bytes (tm_limits t) < length data then Inl TInputTooLarge
       else Inr ())"

definition resize_check :: "nat \<Rightarrow> terminal_size \<Rightarrow> terminal \<Rightarrow> terminal_error + unit" where
  "resize_check generation z t =
     and_then (validate_open generation t) (\<lambda>_. require (size_validate z) TInvalidSize)"

definition request_stop :: "bool \<Rightarrow> terminal \<Rightarrow> terminal \<times> action list" where
  "request_stop drop_master t =
     (t\<lparr>tm_stop := True\<rparr>,
      (if \<not> tm_stop t then [InputClose, ResizeClose] else [])
      @ [Terminate] @ (if drop_master then [MasterTake] else []))"

definition publish_output :: "bytes \<Rightarrow> terminal \<Rightarrow> terminal \<times> action list" where
  "publish_output d t =
     (let (ok, q) = push_output d (tm_events t)
      in (t\<lparr>tm_events := q\<rparr>, if ok then [] else FailMark TOutputLimitExceeded # reader_break))"

definition publish_control :: "terminal_size \<Rightarrow> terminal \<Rightarrow> terminal \<times> action list" where
  "publish_control z t =
     (let (ok, q) = push_control_kind (TResized z) (tm_events t)
      in (t\<lparr>tm_events := q\<rparr>, if ok then [] else [FailMark TOutputLimitExceeded]))"

text \<open>
  \<open>OutputCheck\<close>, \<open>OutputKeep\<close> and \<open>OutputPush\<close> are the three sections of \<open>publish_output\<close>.
\<close>

fun act :: "action \<Rightarrow> terminal \<Rightarrow> terminal \<times> action list" where
  "act ReaderEof t = (t, if reader_can_finish t then reader_break else [])"
| "act (ReaderRead d) t = (t, [OutputCheck d])"
| "act (ReaderError interrupted) t =
     (t, if tm_stop t then reader_break else if interrupted then [] else [ReaderCheck])"
| "act ReaderCheck t =
     (t, if reader_can_finish t then reader_break else FailMark TPtyFailed # reader_break)"
| "act (OutputCheck d) t = (t, if output_allowed t then [OutputKeep d] else reader_break)"
| "act (OutputKeep d) t =
     (t\<lparr>tm_scrollback := scrollback_append d (tm_scrollback t)\<rparr>, [OutputPush d])"
| "act (OutputPush d) t = publish_output d t"
| "act ReaderFinished t = reader_finished t"
| "act (WriterPop ok) t =
     (case input_pop (tm_input t) of
        (Popped d, q) \<Rightarrow> (t\<lparr>tm_input := q\<rparr>, [WriterWrite d ok])
      | (Finished, q) \<Rightarrow> (t\<lparr>tm_input := q\<rparr>, [WorkerDone])
      | (Waits, q) \<Rightarrow> (t\<lparr>tm_input := q\<rparr>, []))"
| "act (WriterWrite d ok) t =
     (t, if tm_stop t then [WorkerDone] else if ok then [] else [WriterError])"
| "act WriterError t =
     (t, if tm_stop t then [WorkerDone] else [FailMark TPtyFailed, WorkerDone])"
| "act (ResizePop ok) t =
     (case resize_pop (tm_resize t) of
        (Popped z, q) \<Rightarrow> (t\<lparr>tm_resize := q\<rparr>, [ResizeApply z ok])
      | (Finished, q) \<Rightarrow> (t\<lparr>tm_resize := q\<rparr>, [WorkerDone])
      | (Waits, q) \<Rightarrow> (t\<lparr>tm_resize := q\<rparr>, []))"
| "act (ResizeApply z ok) t = (t, if tm_stop t then [WorkerDone] else [ResizeMaster z ok])"
| "act (ResizeMaster z ok) t =
     (t, if \<not> tm_master t then [WorkerDone]
         else if ok then [ControlPush z] else [FailMark TPtyFailed, WorkerDone])"
| "act (ControlPush z) t = publish_control z t"
| "act (ChildExited code signal) t = child_exited code signal t"
| "act ChildWaitError t = (t, [FailMark TPtyFailed, WorkerDone])"
| "act ChildDeadline t = (t, if tm_stop t then [FailMark TWorkerShutdownTimeout, WorkerDone] else [])"
| "act (FailMark code) t = fail_mark code t"
| "act (CloseMark reason looks) t = close_mark reason looks t"
| "act (ClaimEvent kind) t =
     (let (won, q) = terminal_claim (tm_events t)
      in (t\<lparr>tm_events := q\<rparr>, if won then [StoreEvent kind] else []))"
| "act (StoreEvent kind) t = (t\<lparr>tm_events := snd (terminal_store kind (tm_events t))\<rparr>, [])"
| "act (StopSwap drop_master) t = request_stop drop_master t"
| "act InputClose t = (t\<lparr>tm_input := input_close (tm_input t)\<rparr>, [])"
| "act ResizeClose t = (t\<lparr>tm_resize := resize_close (tm_resize t)\<rparr>, [])"
| "act Terminate t = (t, [])"
| "act MasterTake t = (t\<lparr>tm_master := False\<rparr>, [])"
| "act EventsClose t = (t\<lparr>tm_events := events_close (tm_events t)\<rparr>, [])"
| "act (WaitWorkers looks) t =
     (case wait_workers (looks = 0) (tm_workers t) of
        (Waits, w) \<Rightarrow> (t\<lparr>tm_workers := w\<rparr>, [WaitWorkers (looks - 1)])
      | (_, w) \<Rightarrow> (t\<lparr>tm_workers := w\<rparr>, []))"
| "act WorkerDone t = (t\<lparr>tm_workers := tracker_done (tm_workers t)\<rparr>, [])"
| "act (SendInput d) t =
     (t, if send_input_check (tm_generation t) False d t = Inr () then [InputPush d] else [])"
| "act (InputPush d) t =
     (case input_push d (tm_input t) of
        Inl _ \<Rightarrow> (t, []) | Inr q \<Rightarrow> (t\<lparr>tm_input := q\<rparr>, []))"
| "act (SendResize z) t =
     (t, if resize_check (tm_generation t) z t = Inr () then [ResizeSet z] else [])"
| "act (ResizeSet z) t =
     (case resize_set z (tm_resize t) of
        Inl _ \<Rightarrow> (t, []) | Inr q \<Rightarrow> (t\<lparr>tm_resize := q\<rparr>, []))"

subsection \<open>The threads\<close>

text \<open>
  Threads 0 to 3 are the reader, the writer, the resize and the child worker; each starts the
  next turn of its loop only when the last is done, and none after its \<open>WorkerDone\<close>. Calls of the
  session handle are further threads. \<open>received\<close> is what the reader of the events has got.
\<close>

record terminal_system =
  ty_terminal :: terminal
  ty_threads :: "action list list"
  ty_ended :: "nat list"
  ty_received :: "terminal_event list"

fun worker_turn :: "nat \<Rightarrow> action \<Rightarrow> bool" where
  "worker_turn w ReaderEof = (w = 0)"
| "worker_turn w (ReaderRead _) = (w = 0)"
| "worker_turn w (ReaderError _) = (w = 0)"
| "worker_turn w (WriterPop _) = (w = 1)"
| "worker_turn w (ResizePop _) = (w = 2)"
| "worker_turn w (ChildExited _ _) = (w = 3)"
| "worker_turn w ChildWaitError = (w = 3)"
| "worker_turn w ChildDeadline = (w = 3)"
| "worker_turn w _ = False"

fun handle_call :: "action \<Rightarrow> bool" where
  "handle_call (CloseMark _ _) = True"
| "handle_call (SendInput _) = True"
| "handle_call (SendResize _) = True"
| "handle_call _ = False"

datatype terminal_op = Turn nat action | Call action | Run nat | Receive bool | Return nat bool

fun terminal_step :: "terminal_system \<Rightarrow> terminal_op \<Rightarrow> terminal_system" where
  "terminal_step y (Turn w a) =
     (if w < length (ty_threads y) \<and> ty_threads y ! w = [] \<and> w \<notin> set (ty_ended y) \<and> worker_turn w a
      then y\<lparr>ty_threads := (ty_threads y)[w := [a]]\<rparr> else y)"
| "terminal_step y (Call a) =
     (if handle_call a then y\<lparr>ty_threads := ty_threads y @ [[a]]\<rparr> else y)"
| "terminal_step y (Run i) =
     (if i < length (ty_threads y) then
        (case ty_threads y ! i of
           [] \<Rightarrow> y
         | a # rest \<Rightarrow>
             let (t, more) = act a (ty_terminal y)
             in y\<lparr>ty_terminal := t, ty_threads := (ty_threads y)[i := more @ rest],
                  ty_ended := (if a = WorkerDone then i # ty_ended y else ty_ended y)\<rparr>)
      else y)"
| "terminal_step y (Receive expired) =
     (case recv_pass expired (tm_events (ty_terminal y)) of
        (Popped e, q) \<Rightarrow> y\<lparr>ty_terminal := (ty_terminal y)\<lparr>tm_events := q\<rparr>,
                           ty_received := ty_received y @ [e]\<rparr>
      | _ \<Rightarrow> y)"
| "terminal_step y (Return n panicked) =
     (let w = tm_workers (ty_terminal y)
      in if n < length (worker_handles w)
         then y\<lparr>ty_terminal := (ty_terminal y)\<lparr>tm_workers :=
                w\<lparr>worker_handles := (worker_handles w)[n := (True, panicked)]\<rparr>\<rparr>\<rparr>
         else y)"

text \<open>\<open>TerminalRuntime::spawn\<close> once the pseudo-terminal and the child are there.\<close>

definition terminal_new :: "terminal_id \<Rightarrow> nat \<Rightarrow> terminal_limits \<Rightarrow> terminal" where
  "terminal_new i generation l = \<lparr>
     tm_id = i, tm_generation = generation, tm_limits = l,
     tm_input = input_new (max_input_queue_bytes l),
     tm_events = terminal_queue_new i generation (max_output_queue_bytes l)
       (max_terminal_event_count l),
     tm_resize = resize_new, tm_master = True, tm_stop = False,
     tm_life = \<lparr>terminal_sent = False, life_closed = False, reader_done = False, exit_status = None\<rparr>,
     tm_scrollback = scrollback_new (max_scrollback_bytes l),
     tm_workers = tracker_new worker_count \<rparr>"

definition terminal_open :: "terminal_id \<Rightarrow> nat \<Rightarrow> terminal_limits \<Rightarrow> terminal_system" where
  "terminal_open i generation l =
     (let t = terminal_new i generation l
      in \<lparr>ty_terminal =
            t\<lparr>tm_workers := snd (spawn_workers (replicate worker_count True) (tm_workers t))\<rparr>,
          ty_threads = replicate worker_count [], ty_ended = [], ty_received = []\<rparr>)"

end
