(* ===== verification/Ja_Terminal_Safety.thy ===== *)
theory Ja_Terminal_Safety
  imports Ja_Terminal_Session
begin

text \<open>
  What holds of a terminal session in every interleaving of its threads: the queues are bounded,
  the event stream is ordered and ends with at most one terminal event, and the scrollback is the
  newest part of the output. A terminal event is delivered whenever the thread that published it
  stores it before another thread closes the queue; a second failing worker can close it first,
  and then the session ends without one.
\<close>

subsection \<open>The event invariant\<close>

fun is_claim :: "action \<Rightarrow> bool" where
  "is_claim (ClaimEvent _) = True"
| "is_claim (StoreEvent _) = True"
| "is_claim _ = False"

fun is_store :: "action \<Rightarrow> bool" where
  "is_store (StoreEvent _) = True"
| "is_store _ = False"

definition pending :: "(action \<Rightarrow> bool) \<Rightarrow> action list \<Rightarrow> nat" where
  "pending p as = length (List.filter p as)"

lemma pending_simps [simp]:
  "pending p [] = 0"
  "pending p (a # as) = (if p a then Suc (pending p as) else pending p as)"
  "pending p (as @ bs) = pending p as + pending p bs"
  by (simp_all add: pending_def)

definition pending_all :: "(action \<Rightarrow> bool) \<Rightarrow> action list list \<Rightarrow> nat" where
  "pending_all p ts = sum_list (map (pending p) ts)"

lemma pending_all_update:
  assumes "i < length ts"
  obtains n where "pending_all p ts = pending p (ts ! i) + n"
    and "\<And>as. pending_all p (ts[i := as]) = pending p as + n"
proof
  let ?n = "pending_all p (ts[i := []])"
  have split: "ts[i := as] = take i ts @ as # drop (Suc i) ts" for as
    using assms by (rule upd_conv_take_nth_drop)
  then show "pending_all p (ts[i := as]) = pending p as + ?n" for as
    by (simp add: pending_all_def)
  from this [of "ts ! i"] show "pending_all p ts = pending p (ts ! i) + ?n"
    by simp
qed

definition terminals :: "terminal_event list \<Rightarrow> terminal_queue \<Rightarrow> nat" where
  "terminals r q = length (List.filter is_terminal (r @ tq_queue q))"

lemma terminals_0: "terminals r q = 0 \<longleftrightarrow> (\<forall>e \<in> set (r @ tq_queue q). \<not> is_terminal e)"
  by (auto simp: terminals_def filter_empty_conv)

lemma terminals_unclaimed: "stream_ok r q \<Longrightarrow> \<not> tq_terminal q \<Longrightarrow> terminals r q = 0"
  by (auto simp: terminals_0 stream_ok_def)

lemma push_kind_queue:
  "tq_queue (snd (push_kind k q)) = tq_queue q \<or> tq_queue (snd (push_kind k q)) =
     tq_queue q @ [fst (make_event k q)]"
  by (auto simp: push_kind_def make_event_def Let_def)

lemma push_kind_flags:
  "tq_terminal (snd (push_kind k q)) = tq_terminal q" "tq_closed (snd (push_kind k q)) = tq_closed q"
  by (auto simp: push_kind_def make_event_def Let_def)

lemma push_kind_terminals: "\<not> terminal_kind k \<Longrightarrow> terminals r (snd (push_kind k q)) = terminals r q"
  using push_kind_queue [of k q] by (auto simp: terminals_def is_terminal_def make_event_def)

lemma store_flags: "tq_terminal (snd (terminal_store k q)) = tq_terminal q"
  by (auto simp: terminal_store_def make_event_def Let_def split: prod.splits)

lemma store_terminals:
  assumes "tqueue_ok q" and "terminals r q = 0"
  shows "terminals r (snd (terminal_store k q)) \<le> 1"
proof (cases "terminal_store k q")
  case (Pair b q')
  from assms(1) Pair show ?thesis
  proof (cases rule: terminal_store_cases)
    case shut
    with assms(2) Pair show ?thesis by (simp add: terminals_def)
  next
    case (stored es)
    have "List.filter is_terminal (r @ es) = []"
      using assms(2) stored(3) by (auto simp: terminals_0 suffix_def filter_empty_conv)
    then have none: "List.filter is_terminal r = []" "List.filter is_terminal es = []"
      by simp_all
    have queue: "tq_queue q' = es @ [fst (make_event k q)]"
      using stored(4) by simp
    have "List.filter is_terminal (r @ tq_queue q') = List.filter is_terminal [fst (make_event k q)]"
      by (simp add: queue none)
    then have "terminals r q' = length (List.filter is_terminal [fst (make_event k q)])"
      by (simp add: terminals_def)
    also have "\<dots> \<le> length [fst (make_event k q)]"
      by (rule length_filter_le)
    finally show ?thesis
      using Pair by simp
  qed
qed

text \<open>
  The part of the invariant that one action touches: \<open>n\<close> claims, \<open>s\<close> of them past the flag, and
  \<open>c\<close> closings are still to be run by all threads.
\<close>

definition event_inv ::
    "terminal \<Rightarrow> terminal_event list \<Rightarrow> nat \<Rightarrow> nat \<Rightarrow> nat \<Rightarrow> bool" where
  "event_inv t r n s c \<longleftrightarrow>
     tqueue_ok (tm_events t) \<and> stream_ok r (tm_events t)
     \<and> n + terminals r (tm_events t) \<le> 1 \<and> s \<le> n
     \<and> (0 < s \<longrightarrow> tq_terminal (tm_events t))
     \<and> (\<not> terminal_sent (tm_life t) \<longrightarrow>
          n = 0 \<and> c = 0 \<and> \<not> tq_terminal (tm_events t) \<and> \<not> tq_closed (tm_events t))"

abbreviation is_closing :: "action \<Rightarrow> bool" where
  "is_closing a \<equiv> a = EventsClose"

abbreviation event_inv_with ::
    "terminal \<Rightarrow> terminal_event list \<Rightarrow> action list \<Rightarrow> nat \<Rightarrow> nat \<Rightarrow> nat \<Rightarrow> bool" where
  "event_inv_with t r as n s c \<equiv>
     event_inv t r (pending is_claim as + n) (pending is_store as + s) (pending is_closing as + c)"

lemma event_inv_push:
  assumes "event_inv t r n s c" and "\<not> terminal_kind k"
  shows "event_inv (t\<lparr>tm_events := snd (push_kind k (tm_events t))\<rparr>) r n s c"
  using assms push_kind_ok push_kind_stream
  by (simp add: event_inv_def push_kind_terminals push_kind_flags)

lemma event_inv_mark:
  assumes "event_inv t r n s c" and "\<not> terminal_sent (tm_life t)" and "terminal_sent l"
  shows "event_inv (t\<lparr>tm_life := l\<rparr>) r (Suc n) s c'"
  using assms terminals_unclaimed by (auto simp: event_inv_def)

lemma event_inv_closing:
  "event_inv t r n s c \<Longrightarrow> terminal_sent (tm_life t) \<Longrightarrow> event_inv t r n s c'"
  by (simp add: event_inv_def)

lemma event_inv_life:
  "event_inv t r n s c \<Longrightarrow> terminal_sent l = terminal_sent (tm_life t) \<Longrightarrow>
     event_inv (t\<lparr>tm_life := l\<rparr>) r n s c"
  by (simp add: event_inv_def)

lemma event_inv_claim:
  assumes "event_inv t r (Suc n) s c" and "terminal_claim (tm_events t) = (won, q)"
  shows "event_inv (t\<lparr>tm_events := q\<rparr>) r (if won then Suc n else n) (if won then Suc s else min s n) c"
proof -
  have q: "q = (tm_events t)\<lparr>tq_terminal := True\<rparr>" and won: "won = (\<not> tq_terminal (tm_events t))"
    using assms(2) by (auto simp: terminal_claim_def)
  have "stream_ok r q"
    using claim_stream [of r "tm_events t"] assms by (simp add: event_inv_def)
  moreover have "tqueue_ok q"
    using assms(1) q by (simp add: event_inv_def tqueue_ok_def)
  moreover have "terminals r q = terminals r (tm_events t)"
    using q by (simp add: terminals_def)
  ultimately show ?thesis
    using assms(1) won q by (auto simp: event_inv_def)
qed

lemma event_inv_store:
  assumes "event_inv t r (Suc n) (Suc s) c"
  shows "event_inv (t\<lparr>tm_events := snd (terminal_store k (tm_events t))\<rparr>) r n s c"
proof -
  let ?q = "tm_events t"
  have q: "tqueue_ok ?q" "stream_ok r ?q" "tq_terminal ?q" "terminals r ?q = 0" "n = 0" "s = 0"
    using assms by (auto simp: event_inv_def)
  have "terminal_sent (tm_life t)"
    using assms by (auto simp: event_inv_def)
  then show ?thesis
    using q terminal_store_ok [OF q(1)] store_terminals [OF q(1,4), of k] store_flags [of k ?q]
      store_stream [OF q(1-3), of k] terminals_0 [of r ?q]
    by (auto simp: event_inv_def)
qed

lemma event_inv_other:
  "tm_events t' = tm_events t \<Longrightarrow> tm_life t' = tm_life t \<Longrightarrow> event_inv t r n s c \<Longrightarrow> event_inv t' r n s c"
  by (simp add: event_inv_def)

lemma event_inv_close:
  assumes "event_inv t r n s (Suc c)"
  shows "event_inv (t\<lparr>tm_events := events_close (tm_events t)\<rparr>) r n s c"
proof -
  have "terminal_sent (tm_life t)"
    using assms by (auto simp: event_inv_def)
  then show ?thesis
    using assms close_stream [of r "tm_events t"]
    by (simp add: event_inv_def events_close_def tqueue_ok_def terminals_def)
qed

lemma event_inv_sent:
  "event_inv t r n s c \<Longrightarrow> 0 < n \<or> 0 < c \<Longrightarrow> terminal_sent (tm_life t)"
  by (auto simp: event_inv_def)

text \<open>What an action does to the lifecycle and which event actions its thread goes on with.\<close>

definition lifecycle_action :: "action \<Rightarrow> bool" where
  "lifecycle_action a \<longleftrightarrow> (\<exists>code. a = FailMark code) \<or> (\<exists>reason looks. a = CloseMark reason looks)
     \<or> (\<exists>code signal. a = ChildExited code signal) \<or> a = ReaderFinished"

definition queue_action :: "action \<Rightarrow> bool" where
  "queue_action a \<longleftrightarrow> is_claim a \<or> a = EventsClose \<or> (\<exists>d. a = OutputPush d) \<or> (\<exists>z. a = ControlPush z)"

lemma lifecycle_action_shape:
  assumes "act a t = (t', as)" and "lifecycle_action a"
  shows "tm_events t' = tm_events t \<and> pending is_store as = 0
    \<and> (if terminal_sent (tm_life t) then terminal_sent (tm_life t') \<and> pending is_claim as = 0
       else if terminal_sent (tm_life t') then pending is_claim as = 1
       else pending is_claim as = 0 \<and> pending is_closing as = 0)"
  using assms(2) unfolding lifecycle_action_def
proof (elim disjE exE)
  fix code assume "a = FailMark code"
  with assms(1) show ?thesis by (auto simp: fail_mark_def)
next
  fix reason looks assume "a = CloseMark reason looks"
  with assms(1) show ?thesis by (auto simp: close_mark_def Let_def split: if_splits)
next
  fix code signal assume "a = ChildExited code signal"
  with assms(1) show ?thesis by (auto simp: child_exited_def Let_def split: if_splits)
next
  assume "a = ReaderFinished"
  with assms(1) show ?thesis
    by (auto simp: reader_finished_def Let_def split: if_splits option.splits)
qed

lemma plain_action_shape:
  assumes "act a t = (t', as)" and "\<not> lifecycle_action a" and "\<not> queue_action a"
  shows "tm_events t' = tm_events t \<and> tm_life t' = tm_life t
    \<and> pending is_claim as = 0 \<and> pending is_store as = 0 \<and> pending is_closing as = 0"
  using assms
  by (cases a) (auto simp: lifecycle_action_def queue_action_def reader_break_def request_stop_def
      split: if_splits popped.splits prod.splits sum.splits)

lemma lifecycle_action_inv:
  assumes inv: "event_inv t r n s c" and step: "act a t = (t', as)" and "lifecycle_action a"
  shows "event_inv_with t' r as n s c"
proof -
  note shape = lifecycle_action_shape [OF step assms(3)]
  consider (sent) "terminal_sent (tm_life t)"
    | (mark) "\<not> terminal_sent (tm_life t)" "terminal_sent (tm_life t')"
    | (keep) "\<not> terminal_sent (tm_life t)" "\<not> terminal_sent (tm_life t')"
    by blast
  then show ?thesis
  proof cases
    case sent
    with inv shape show ?thesis by (simp add: event_inv_def)
  next
    case mark
    with inv shape terminals_unclaimed show ?thesis by (auto simp: event_inv_def)
  next
    case keep
    with inv shape show ?thesis by (simp add: event_inv_def)
  qed
qed

lemma act_inv:
  assumes inv: "event_inv_with t r [a] n s c" and "s \<le> n" and step: "act a t = (t', as)"
  shows "event_inv_with t' r as n s c"
proof (cases "lifecycle_action a \<or> \<not> queue_action a")
  case True
  show ?thesis
  proof (cases "lifecycle_action a")
    case life: True
    then have "event_inv t r n s c"
      using inv by (auto simp: lifecycle_action_def)
    then show ?thesis
      by (rule lifecycle_action_inv [OF _ step life])
  next
    case False
    with True have plain: "\<not> queue_action a" by blast
    then have "event_inv t r n s c"
      using inv by (cases a) (auto simp: queue_action_def)
    with plain_action_shape [OF step False plain] show ?thesis
      by (simp add: event_inv_def)
  qed
next
  case False
  then have "queue_action a" by blast
  then consider (claim) k where "a = ClaimEvent k"
    | (store) k where "a = StoreEvent k"
    | (shut) "a = EventsClose"
    | (outp) d where "a = OutputPush d"
    | (ctrl) z where "a = ControlPush z"
    by (cases a) (auto simp: queue_action_def)
  then show ?thesis
  proof cases
    case (claim k)
    obtain won q where q: "terminal_claim (tm_events t) = (won, q)"
      by (cases "terminal_claim (tm_events t)")
    have "min s n = s" using assms(2) by simp
    with event_inv_claim [OF _ q, of r n s c] claim inv step q show ?thesis
      by (auto split: if_splits)
  next
    case (store k)
    with inv step event_inv_store [of t r n s c k] show ?thesis by auto
  next
    case shut
    with inv step event_inv_close [of t r n s c] show ?thesis by auto
  next
    case (outp d)
    with inv step event_inv_push [of t r n s c "TOutput d"] show ?thesis
      by (auto simp: publish_output_def push_output_def reader_break_def split: prod.splits)
  next
    case (ctrl z)
    with inv step event_inv_push [of t r n s c "TResized z"] show ?thesis
      by (auto simp: publish_control_def push_control_kind_def split: prod.splits)
  qed
qed

subsection \<open>The scrollback\<close>

definition scrollback_ok :: "scrollback \<Rightarrow> bool" where
  "scrollback_ok s \<longleftrightarrow> sb_bytes s = length (concat (sb_chunks s)) \<and> sb_bytes s \<le> sb_limit s"

lemma trim_chunks_spec:
  assumes "trim_chunks limit n cs = (m, ds)" and "n = length (concat cs)"
  shows "m = length (concat ds) \<and> m \<le> limit \<and> suffix (concat ds) (concat cs)
    \<and> (n \<le> limit \<longrightarrow> ds = cs)"
  using assms
proof (induction limit n cs rule: trim_chunks.induct)
  case (1 limit n)
  then show ?case by auto
next
  case (2 limit n c cs)
  show ?case
  proof (cases "limit < n")
    case True
    with 2 show ?thesis by (auto intro: suffix_appendI)
  next
    case False
    with 2 show ?thesis by auto
  qed
qed

lemma scrollback_append_spec:
  assumes "scrollback_ok s" and "sb_limit s < 2 ^ 63" and "length d < 2 ^ 63"
  shows "scrollback_ok (scrollback_append d s)"
    and "sb_limit (scrollback_append d s) = sb_limit s"
    and "suffix (scrollback_snapshot (scrollback_append d s)) (scrollback_snapshot s @ d)"
    and "length (scrollback_snapshot s @ d) \<le> sb_limit s \<Longrightarrow>
      scrollback_snapshot (scrollback_append d s) = scrollback_snapshot s @ d"
proof -
  let ?big = "sb_limit s \<le> length d"
  define d' where "d' = (if ?big then drop (length d - sb_limit s) d else d)"
  define cs where "cs = (if ?big then [] else sb_chunks s)"
  define n where "n = (if ?big then 0 else sb_bytes s)"
  obtain m ds where trim: "trim_chunks (sb_limit s) (sat_add n (length d')) (cs @ [d']) = (m, ds)"
    by fastforce
  have eq: "scrollback_append d s = s\<lparr>sb_chunks := ds, sb_bytes := m\<rparr>"
    using trim by (simp add: scrollback_append_def d'_def cs_def n_def split: if_splits)
  have n: "n = length (concat cs)" and small: "n \<le> sb_limit s"
    using assms(1) by (auto simp: n_def cs_def scrollback_ok_def)
  have "length d' \<le> length d" by (simp add: d'_def)
  then have sum: "sat_add n (length d') = n + length d'"
    using small assms(2,3) by (simp add: sat_add_def usize_max_def)
  have total: "n + length d' = length (concat (cs @ [d']))"
    using n by simp
  note spec = trim_chunks_spec [OF trim [unfolded sum] total]
  show "scrollback_ok (scrollback_append d s)" "sb_limit (scrollback_append d s) = sb_limit s"
    using spec by (simp_all add: eq scrollback_ok_def)
  have "suffix (concat (cs @ [d'])) (concat (sb_chunks s) @ d)"
    by (auto simp: cs_def d'_def suffix_drop intro: suffix_appendI)
  moreover have "suffix (concat ds) (concat (cs @ [d']))"
    using spec by blast
  ultimately show "suffix (scrollback_snapshot (scrollback_append d s)) (scrollback_snapshot s @ d)"
    by (auto simp: eq scrollback_snapshot_def dest: suffix_order.trans)
  assume room: "length (scrollback_snapshot s @ d) \<le> sb_limit s"
  have "concat (cs @ [d']) = concat (sb_chunks s) @ d"
  proof (cases ?big)
    case True
    have "length (concat (sb_chunks s)) + length d \<le> sb_limit s"
      using room by (simp add: scrollback_snapshot_def)
    with True have "length (concat (sb_chunks s)) = 0" and len: "length d = sb_limit s"
      by linarith+
    then have "concat (sb_chunks s) = []"
      by (simp only: length_0_conv)
    with True len show ?thesis by (simp add: cs_def d'_def)
  next
    case False
    then show ?thesis by (simp add: cs_def d'_def)
  qed
  moreover from this have "ds = cs @ [d']"
    using spec room total by (simp add: scrollback_snapshot_def)
  ultimately show "scrollback_snapshot (scrollback_append d s) = scrollback_snapshot s @ d"
    by (simp add: eq scrollback_snapshot_def)
qed

lemma scrollback_new_ok: "scrollback_ok (scrollback_new n)"
  by (simp add: scrollback_ok_def scrollback_new_def)

text \<open>Folding reads into a scrollback: it holds the newest part, all of it while there is room.\<close>

lemma scrollback_fold:
  assumes "scrollback_ok s" and "sb_limit s < 2 ^ 63" and "\<forall>d \<in> set ds. length d < 2 ^ 63"
  shows "scrollback_ok (foldl (\<lambda>s d. scrollback_append d s) s ds)
    \<and> sb_limit (foldl (\<lambda>s d. scrollback_append d s) s ds) = sb_limit s
    \<and> suffix (scrollback_snapshot (foldl (\<lambda>s d. scrollback_append d s) s ds))
        (scrollback_snapshot s @ concat ds)
    \<and> (length (scrollback_snapshot s @ concat ds) \<le> sb_limit s \<longrightarrow>
        scrollback_snapshot (foldl (\<lambda>s d. scrollback_append d s) s ds)
          = scrollback_snapshot s @ concat ds)"
  using assms
proof (induction ds arbitrary: s)
  case Nil
  then show ?case by simp
next
  case (Cons d ds)
  let ?s = "scrollback_append d s"
  note app = scrollback_append_spec [OF Cons.prems(1,2), of d]
  have len: "length d < 2 ^ 63" using Cons.prems(3) by simp
  note IH = Cons.IH [OF app(1) [OF len]]
  have lim: "sb_limit ?s = sb_limit s" by (rule app(2) [OF len])
  have ih: "scrollback_ok (foldl (\<lambda>s d. scrollback_append d s) ?s ds)"
    "sb_limit (foldl (\<lambda>s d. scrollback_append d s) ?s ds) = sb_limit s"
    "suffix (scrollback_snapshot (foldl (\<lambda>s d. scrollback_append d s) ?s ds))
       (scrollback_snapshot ?s @ concat ds)"
    "length (scrollback_snapshot ?s @ concat ds) \<le> sb_limit s \<longrightarrow>
      scrollback_snapshot (foldl (\<lambda>s d. scrollback_append d s) ?s ds)
        = scrollback_snapshot ?s @ concat ds"
    using IH lim Cons.prems(2,3) by auto
  have "suffix (scrollback_snapshot ?s @ concat ds) ((scrollback_snapshot s @ d) @ concat ds)"
    using app(3) [OF len] by (simp add: suffix_def)
  with ih(3) have suf: "suffix (scrollback_snapshot (foldl (\<lambda>s d. scrollback_append d s) ?s ds))
      (scrollback_snapshot s @ concat (d # ds))"
    by (auto dest: suffix_order.trans)
  have "scrollback_snapshot (foldl (\<lambda>s d. scrollback_append d s) ?s ds)
      = scrollback_snapshot s @ concat (d # ds)"
    if "length (scrollback_snapshot s @ concat (d # ds)) \<le> sb_limit s"
    using app(4) [OF len] ih(4) that by simp
  with ih(1,2) suf show ?case by simp
qed

end
