(* ===== verification/Ja_Terminal_System.thy ===== *)
theory Ja_Terminal_System
  imports Ja_Terminal_Safety
begin

text \<open>
  The invariant of a terminal session's threads, as an instance of the stepping contract, and
  what it gives: the properties of the event stream, of the scrollback and of the terminal event.
\<close>

subsection \<open>The invariant of the threads\<close>

definition bounds_inv :: "terminal_id \<Rightarrow> nat \<Rightarrow> terminal_limits \<Rightarrow> terminal \<Rightarrow> bool" where
  "bounds_inv i g l t \<longleftrightarrow>
     tm_limits t = l \<and> tm_generation t = g \<and> input_ok (tm_input t)
     \<and> input_max (tm_input t) = max_input_queue_bytes l
     \<and> tq_session (tm_events t) = i \<and> tq_generation (tm_events t) = g
     \<and> tq_max_bytes (tm_events t) = max_output_queue_bytes l
     \<and> tq_max_count (tm_events t) = max_terminal_event_count l"

definition system_inv :: "terminal_id \<Rightarrow> nat \<Rightarrow> terminal_limits \<Rightarrow> terminal_system \<Rightarrow> bool" where
  "system_inv i g l y \<longleftrightarrow>
     bounds_inv i g l (ty_terminal y)
     \<and> event_inv (ty_terminal y) (ty_received y) (pending_all is_claim (ty_threads y))
         (pending_all is_store (ty_threads y)) (pending_all is_closing (ty_threads y))"

lemma push_kind_fixed:
  "tq_session (snd (push_kind k q)) = tq_session q"
  "tq_generation (snd (push_kind k q)) = tq_generation q"
  "tq_max_bytes (snd (push_kind k q)) = tq_max_bytes q"
  "tq_max_count (snd (push_kind k q)) = tq_max_count q"
  by (simp_all add: push_kind_def make_event_def Let_def)

lemma store_fixed:
  "tq_session (snd (terminal_store k q)) = tq_session q"
  "tq_generation (snd (terminal_store k q)) = tq_generation q"
  "tq_max_bytes (snd (terminal_store k q)) = tq_max_bytes q"
  "tq_max_count (snd (terminal_store k q)) = tq_max_count q"
  by (simp_all add: terminal_store_def make_event_def Let_def split: prod.splits)

lemma input_push_max: "input_push d q = Inr q' \<Longrightarrow> input_max q' = input_max q"
  by (auto simp: input_push_def split: if_splits)

lemma input_pop_max: "input_max (snd (input_pop q)) = input_max q"
  by (simp add: input_pop_def split: list.splits)

lemma act_bounds_queue:
  assumes "bounds_inv i g l t" and "act a t = (t', as)" and "queue_action a"
  shows "bounds_inv i g l t'"
proof -
  from assms(3) consider (claim) k where "a = ClaimEvent k"
    | (store) k where "a = StoreEvent k"
    | (shut) "a = EventsClose"
    | (outp) d where "a = OutputPush d"
    | (ctrl) z where "a = ControlPush z"
    by (cases a) (auto simp: queue_action_def)
  then show ?thesis
  proof cases
    case (claim k)
    with assms(1,2) show ?thesis
      by (auto simp: bounds_inv_def terminal_claim_def)
  next
    case (store k)
    with assms(1,2) show ?thesis
      by (auto simp: bounds_inv_def store_fixed)
  next
    case shut
    with assms(1,2) show ?thesis
      by (auto simp: bounds_inv_def events_close_def)
  next
    case (outp d)
    with assms(1,2) push_kind_fixed [of "TOutput d" "tm_events t"] show ?thesis
      by (auto simp: bounds_inv_def publish_output_def push_output_def split: prod.splits)
  next
    case (ctrl z)
    with assms(1,2) push_kind_fixed [of "TResized z" "tm_events t"] show ?thesis
      by (auto simp: bounds_inv_def publish_control_def push_control_kind_def split: prod.splits)
  qed
qed

lemma act_bounds_life:
  assumes "bounds_inv i g l t" and "act a t = (t', as)" and "lifecycle_action a"
  shows "bounds_inv i g l t'"
proof -
  from assms(3) consider (failing) code where "a = FailMark code"
    | (closing) reason looks where "a = CloseMark reason looks"
    | (exited) code signal where "a = ChildExited code signal"
    | (finished) "a = ReaderFinished"
    by (auto simp: lifecycle_action_def)
  then show ?thesis
    using assms(1,2)
    by cases (auto simp: bounds_inv_def fail_mark_def close_mark_def child_exited_def
        reader_finished_def Let_def split: if_splits option.splits)
qed

lemma act_bounds_plain:
  assumes "bounds_inv i g l t" and "act a t = (t', as)" and "\<not> queue_action a"
    and "\<not> lifecycle_action a"
  shows "bounds_inv i g l t'"
proof -
  have ev: "tm_events t' = tm_events t"
    using plain_action_shape [OF assms(2,4,3)] by blast
  have rest: "tm_limits t' = tm_limits t \<and> tm_generation t' = tm_generation t
      \<and> (tm_input t' = tm_input t \<or> tm_input t' = snd (input_pop (tm_input t))
         \<or> tm_input t' = input_close (tm_input t) \<or> (\<exists>d. input_push d (tm_input t) = Inr (tm_input t')))"
    using assms(2-4)
    by (cases a) (auto simp: lifecycle_action_def queue_action_def request_stop_def
        split: if_splits popped.splits prod.splits sum.splits)
  have input: "input_ok (tm_input t) \<Longrightarrow> input_ok (tm_input t')
      \<and> input_max (tm_input t') = input_max (tm_input t)"
    using rest input_pop_ok [of "tm_input t"] input_pop_max [of "tm_input t"] input_push_ok
      input_push_max input_close_ok [of "tm_input t"]
    by (elim conjE disjE exE) (auto simp: input_close_def)
  show ?thesis
    using assms(1) ev rest input by (simp add: bounds_inv_def)
qed

lemma act_bounds: "bounds_inv i g l t \<Longrightarrow> act a t = (t', as) \<Longrightarrow> bounds_inv i g l t'"
  using act_bounds_queue act_bounds_life act_bounds_plain by metis

lemma pending_store_claim: "pending is_store as \<le> pending is_claim as"
  by (induction as) (auto elim: is_store.elims)

lemma stores_le_claims: "pending_all is_store ts \<le> pending_all is_claim ts"
  unfolding pending_all_def by (rule sum_list_mono) (rule pending_store_claim)

lemma run_system_inv:
  assumes inv: "system_inv i g l y"
  shows "system_inv i g l (terminal_step y (Run n))"
proof (cases "n < length (ty_threads y) \<and> ty_threads y ! n \<noteq> []")
  case False
  with inv show ?thesis by (auto split: list.splits)
next
  case True
  then obtain a rest where a: "ty_threads y ! n = a # rest" and n: "n < length (ty_threads y)"
    by (cases "ty_threads y ! n") auto
  obtain t as where step: "act a (ty_terminal y) = (t, as)"
    by (cases "act a (ty_terminal y)")
  let ?ts = "ty_threads y"
  obtain nc where nc: "pending_all is_claim ?ts = pending is_claim (?ts ! n) + nc"
    "\<And>as. pending_all is_claim (?ts[n := as]) = pending is_claim as + nc"
    using pending_all_update [OF n, where p = is_claim] by blast
  obtain ns where ns: "pending_all is_store ?ts = pending is_store (?ts ! n) + ns"
    "\<And>as. pending_all is_store (?ts[n := as]) = pending is_store as + ns"
    using pending_all_update [OF n, where p = is_store] by blast
  obtain ne where ne: "pending_all is_closing ?ts = pending is_closing (?ts ! n) + ne"
    "\<And>as. pending_all is_closing (?ts[n := as]) = pending is_closing as + ne"
    using pending_all_update [OF n, where p = is_closing] by blast
  let ?c = "pending is_claim rest + nc" and ?s = "pending is_store rest + ns"
    and ?e = "pending is_closing rest + ne"
  have "ns \<le> nc"
    using stores_le_claims [of "?ts[n := []]"] nc(2) [of "[]"] ns(2) [of "[]"] by simp
  then have le: "?s \<le> ?c"
    using pending_store_claim [of rest] by linarith
  have split: "pending_all is_claim ?ts = pending is_claim [a] + ?c"
    "pending_all is_store ?ts = pending is_store [a] + ?s"
    "pending_all is_closing ?ts = pending is_closing [a] + ?e"
    unfolding nc(1) ns(1) ne(1) a by simp_all
  have "event_inv_with (ty_terminal y) (ty_received y) [a] ?c ?s ?e"
    using inv unfolding system_inv_def split by blast
  from act_inv [OF this le step]
  have "event_inv_with t (ty_received y) as ?c ?s ?e" .
  then have "event_inv t (ty_received y) (pending_all is_claim (?ts[n := as @ rest]))
      (pending_all is_store (?ts[n := as @ rest])) (pending_all is_closing (?ts[n := as @ rest]))"
    by (simp add: nc(2) ns(2) ne(2) add.assoc)
  moreover have "bounds_inv i g l t"
    using act_bounds [OF _ step] inv by (simp add: system_inv_def)
  ultimately show ?thesis
    using n a step by (simp add: system_inv_def)
qed

lemma pending_all_harmless:
  assumes "\<not> p a" and "w < length ts" and "ts ! w = []"
  shows "pending_all p (ts[w := [a]]) = pending_all p ts"
proof -
  obtain n where "pending_all p ts = pending p (ts ! w) + n"
    and "\<And>as. pending_all p (ts[w := as]) = pending p as + n"
    using pending_all_update [OF assms(2)] by blast
  with assms(1,3) show ?thesis by simp
qed

lemma turn_harmless: "worker_turn w a \<Longrightarrow> \<not> is_claim a \<and> \<not> is_store a \<and> \<not> is_closing a"
  by (cases a) auto

lemma call_harmless: "handle_call a \<Longrightarrow> \<not> is_claim a \<and> \<not> is_store a \<and> \<not> is_closing a"
  by (cases a) auto

lemma receive_inv:
  assumes inv: "system_inv i g l y"
  shows "system_inv i g l (terminal_step y (Receive x))"
proof (cases "recv_pass x (tm_events (ty_terminal y))")
  case (Pair r q)
  show ?thesis
  proof (cases r)
    case (Popped e)
    have ok: "tqueue_ok (tm_events (ty_terminal y))"
      and st: "stream_ok (ty_received y) (tm_events (ty_terminal y))"
      using inv by (auto simp: system_inv_def event_inv_def)
    have q: "tqueue_ok q" "stream_ok (ty_received y @ [e]) q"
      using recv_pass_ok [OF ok, of x] recv_stream [OF st] Pair Popped by auto
    have same: "tq_terminal q = tq_terminal (tm_events (ty_terminal y))"
      "tq_closed q = tq_closed (tm_events (ty_terminal y))"
      "tq_session q = tq_session (tm_events (ty_terminal y))"
      "tq_generation q = tq_generation (tm_events (ty_terminal y))"
      "tq_max_bytes q = tq_max_bytes (tm_events (ty_terminal y))"
      "tq_max_count q = tq_max_count (tm_events (ty_terminal y))"
      "tq_queue (tm_events (ty_terminal y)) = e # tq_queue q"
      using Pair Popped by (auto simp: recv_pass_def split: list.splits if_splits)
    have "terminals (ty_received y @ [e]) q = terminals (ty_received y) (tm_events (ty_terminal y))"
      by (simp add: terminals_def same)
    with inv q same Pair Popped show ?thesis
      by (simp add: system_inv_def event_inv_def bounds_inv_def)
  qed (use inv Pair in auto)
qed

lemma system_step_inv: "system_inv i g l y \<Longrightarrow> system_inv i g l (terminal_step y x)"
proof (cases x)
  case (Turn w a)
  assume "system_inv i g l y"
  with Turn show ?thesis
    using turn_harmless [of w a] pending_all_harmless by (auto simp: system_inv_def)
next
  case (Call a)
  assume "system_inv i g l y"
  with Call show ?thesis
    using call_harmless [of a] by (auto simp: system_inv_def pending_all_def)
next
  case (Run n)
  assume "system_inv i g l y"
  with Run show ?thesis using run_system_inv by blast
next
  case (Receive e)
  assume "system_inv i g l y"
  with Receive show ?thesis using receive_inv by blast
next
  case (Return n p)
  assume "system_inv i g l y"
  with Return show ?thesis
    by (auto simp: system_inv_def event_inv_def bounds_inv_def Let_def)
qed

text \<open>The limits a session runs with have been validated by the policy.\<close>

definition limits_ok :: "terminal_limits \<Rightarrow> bool" where
  "limits_ok l \<longleftrightarrow> terminal_limits_validate l = Inr l"

lemma limits_ok_bounds:
  assumes "limits_ok l"
  shows "64 \<le> max_output_queue_bytes l" "max_output_queue_bytes l < usize_max"
    "0 < max_terminal_event_count l" "max_input_queue_bytes l < usize_max"
    "max_scrollback_bytes l < 2 ^ 63" "max_output_queue_bytes l \<le> 2 ^ 28"
    "max_input_queue_bytes l \<le> 2 ^ 26" "max_terminal_event_count l \<le> 65536"
proof -
  have raw: "min_terminal_event_bytes \<le> max_output_queue_bytes l"
    "max_output_queue_bytes l \<le> 256 * 1024 * 1024" "0 < max_terminal_event_count l"
    "max_terminal_event_count l \<le> 65536" "max_input_queue_bytes l \<le> 64 * 1024 * 1024"
    "max_scrollback_bytes l \<le> 256 * 1024 * 1024"
    using assms unfolding limits_ok_def terminal_limits_validate_def guard_Inr' by blast+
  then show "64 \<le> max_output_queue_bytes l" "max_output_queue_bytes l < usize_max"
    "0 < max_terminal_event_count l" "max_input_queue_bytes l < usize_max"
    "max_scrollback_bytes l < 2 ^ 63" "max_output_queue_bytes l \<le> 2 ^ 28"
    "max_input_queue_bytes l \<le> 2 ^ 26" "max_terminal_event_count l \<le> 65536"
    by (simp_all add: usize_max_def min_terminal_event_bytes_def)
qed

lemma open_fields [simp]:
  "ty_threads (terminal_open i g l) = replicate worker_count []"
  "ty_received (terminal_open i g l) = []"
  "tm_events (ty_terminal (terminal_open i g l)) = terminal_queue_new i g (max_output_queue_bytes l)
     (max_terminal_event_count l)"
  "tm_input (ty_terminal (terminal_open i g l)) = input_new (max_input_queue_bytes l)"
  "tm_limits (ty_terminal (terminal_open i g l)) = l"
  "tm_generation (ty_terminal (terminal_open i g l)) = g"
  "tm_life (ty_terminal (terminal_open i g l)) =
     \<lparr>terminal_sent = False, life_closed = False, reader_done = False, exit_status = None\<rparr>"
  by (simp_all add: terminal_open_def terminal_new_def Let_def del: spawn_workers.simps)

lemma pending_all_idle [simp]: "pending_all p (replicate n []) = 0"
  by (simp add: pending_all_def sum_list_replicate)

lemma open_inv:
  assumes "limits_ok l"
  shows "system_inv i g l (terminal_open i g l)"
proof -
  note b = limits_ok_bounds(2,4) [OF assms]
  have "event_inv (ty_terminal (terminal_open i g l)) [] 0 0 0"
    by (simp add: event_inv_def queue_new_ok [OF b(1)] stream_new)
      (simp add: terminals_def terminal_queue_new_def)
  moreover have "bounds_inv i g l (ty_terminal (terminal_open i g l))"
    by (simp add: bounds_inv_def input_new_ok [OF b(2)])
      (simp add: input_new_def terminal_queue_new_def)
  ultimately show ?thesis by (simp add: system_inv_def)
qed

text \<open>The session's threads keep the invariant: an instance of the stepping contract.\<close>

interpretation session_threads: stepping terminal_step "system_inv i g l"
  by unfold_locales (rule system_step_inv)

subsection \<open>The stream once it is finished\<close>

definition stream :: "terminal_system \<Rightarrow> terminal_event list" where
  "stream y = ty_received y @ tq_queue (tm_events (ty_terminal y))"

lemma receive_stream: "stream (terminal_step y (Receive x)) = stream y"
  by (auto simp: stream_def recv_pass_def split: list.splits)

lemma push_refused:
  "tq_terminal q \<or> tq_closed q \<Longrightarrow> push_kind k q = (False, q)"
  by (auto simp: push_kind_def)

lemma act_refused:
  assumes "tq_terminal (tm_events t) \<or> tq_closed (tm_events t)"
    and "is_store a \<longrightarrow> tq_closed (tm_events t)" and "act a t = (t', as)"
  shows "tq_queue (tm_events t') = tq_queue (tm_events t)
    \<and> (tq_terminal (tm_events t) \<longrightarrow> tq_terminal (tm_events t'))
    \<and> (tq_closed (tm_events t) \<longrightarrow> tq_closed (tm_events t'))"
proof (cases "queue_action a")
  case False
  then have "tm_events t' = tm_events t"
    using lifecycle_action_shape [OF assms(3)] plain_action_shape [OF assms(3)] by blast
  then show ?thesis by simp
next
  case True
  with assms show ?thesis
    by (cases a) (auto simp: queue_action_def publish_output_def push_output_def publish_control_def push_control_kind_def push_refused
        terminal_claim_def terminal_store_def events_close_def)
qed

lemma run_cases:
  obtains (idle) "terminal_step y (Run n) = y"
    | (acts) a rest t as where "n < length (ty_threads y)" "ty_threads y ! n = a # rest"
      "act a (ty_terminal y) = (t, as)"
      "terminal_step y (Run n) = y\<lparr>ty_terminal := t, ty_threads := (ty_threads y)[n := as @ rest],
         ty_ended := (if a = WorkerDone then n # ty_ended y else ty_ended y)\<rparr>"
proof (cases "n < length (ty_threads y) \<and> ty_threads y ! n \<noteq> []")
  case False
  then have "terminal_step y (Run n) = y" by (auto split: list.splits)
  then show ?thesis by (rule idle)
next
  case True
  then obtain a rest where a: "ty_threads y ! n = a # rest"
    by (cases "ty_threads y ! n") auto
  obtain t as where "act a (ty_terminal y) = (t, as)"
    by (cases "act a (ty_terminal y)")
  with True a show ?thesis by (intro acts) auto
qed

lemma finished_step:
  assumes inv: "system_inv i g l y" and "terminals (ty_received y) (tm_events (ty_terminal y)) = 1"
  shows "stream (terminal_step y x) = stream y"
    and "terminals (ty_received (terminal_step y x)) (tm_events (ty_terminal (terminal_step y x))) = 1"
proof -
  let ?q = "tm_events (ty_terminal y)"
  have claimed: "tq_terminal ?q"
    using inv assms(2) terminals_unclaimed by (fastforce simp: system_inv_def event_inv_def)
  have none: "pending_all is_claim (ty_threads y) = 0"
    using inv assms(2) by (simp add: system_inv_def event_inv_def)
  have same: "stream (terminal_step y x) = stream y"
  proof (cases x)
    case (Run n)
    show ?thesis
    proof (cases rule: run_cases [of y n])
      case idle
      with Run show ?thesis by simp
    next
      case (acts a rest t as)
      have "pending is_claim (ty_threads y ! n) = 0"
        using pending_all_update [OF acts(1), where p = is_claim] none by (metis add_is_0)
      then have "\<not> is_store a"
        using acts(2) by (auto elim: is_store.elims split: if_splits)
      with act_refused [OF _ _ acts(3)] claimed acts(4) Run show ?thesis
        by (simp add: stream_def)
    qed
  next
    case (Receive e)
    then show ?thesis using receive_stream by blast
  qed (auto simp: stream_def Let_def)
  show "stream (terminal_step y x) = stream y" by (rule same)
  with assms(2) show "terminals (ty_received (terminal_step y x))
      (tm_events (ty_terminal (terminal_step y x))) = 1"
    by (simp add: terminals_def stream_def)
qed

lemma finished_run:
  assumes "system_inv i g l y" and "terminals (ty_received y) (tm_events (ty_terminal y)) = 1"
  shows "stream (foldl terminal_step y ops) = stream y"
  using assms
proof (induction ops arbitrary: y)
  case Nil
  then show ?case by simp
next
  case (Cons x ops)
  from Cons.IH [OF system_step_inv [OF Cons.prems(1)] finished_step(2) [OF Cons.prems]]
    finished_step(1) [OF Cons.prems]
  show ?case by simp
qed

lemma closed_step:
  assumes "tq_closed (tm_events (ty_terminal y))"
  shows "stream (terminal_step y x) = stream y"
    and "tq_closed (tm_events (ty_terminal (terminal_step y x)))"
proof -
  have both: "stream (terminal_step y x) = stream y
      \<and> tq_closed (tm_events (ty_terminal (terminal_step y x)))"
  proof (cases x)
    case (Run n)
    show ?thesis
    proof (cases rule: run_cases [of y n])
      case idle
      with Run assms show ?thesis by simp
    next
      case (acts a rest t as)
      with act_refused [OF _ _ acts(3)] assms Run show ?thesis
        by (simp add: stream_def)
    qed
  next
    case (Receive e)
    with assms show ?thesis
      using receive_stream [of y e] by (auto simp: recv_pass_def split: list.splits)
  qed (use assms in \<open>auto simp: stream_def Let_def\<close>)
  then show "stream (terminal_step y x) = stream y"
    and "tq_closed (tm_events (ty_terminal (terminal_step y x)))" by auto
qed

lemma closed_run:
  "tq_closed (tm_events (ty_terminal y)) \<Longrightarrow> stream (foldl terminal_step y ops) = stream y"
proof (induction ops arbitrary: y)
  case (Cons x ops)
  from Cons.IH [OF closed_step(2) [OF Cons.prems]] closed_step(1) [OF Cons.prems]
  show ?case by simp
qed simp

text \<open>Enough receives drain the queue.\<close>

lemma drain:
  "length (tq_queue (tm_events (ty_terminal y))) \<le> m \<Longrightarrow>
     ty_received (foldl terminal_step y (replicate m (Receive x))) = stream y"
proof (induction m arbitrary: y)
  case 0
  then show ?case by (simp add: stream_def)
next
  case (Suc m)
  have "length (tq_queue (tm_events (ty_terminal (terminal_step y (Receive x))))) \<le> m"
    using Suc.prems by (auto simp: recv_pass_def split: list.splits)
  from Suc.IH [OF this] show ?case
    by (simp add: receive_stream del: terminal_step.simps)
qed

lemma stream_terminals: "terminals (ty_received y) (tm_events (ty_terminal y)) = length (List.filter is_terminal (stream y))"
  by (simp add: terminals_def stream_def)

end
