(* ===== verification/Ja_Terminal_Claims.thy ===== *)
theory Ja_Terminal_Claims
  imports Ja_Terminal_System
begin

text \<open>
  The properties of a terminal session that span its threads: the shape of the event stream, the
  delivery and the loss of the terminal event, the scrollback, and the room a terminal event
  needs.
\<close>

text \<open>
  C7. However the reader, the writer, the resize and the child worker, the calls of the session
  handle and the receiver interleave, the events received so far followed by those queued carry
  the session's identity and growing sequence numbers, a terminal event is the last of them, and
  the queues hold no more than their limits.
\<close>

theorem terminal_stream_ordered:
  assumes "limits_ok l"
  shows "let y = foldl terminal_step (terminal_open i g l) ops; t = ty_terminal y; q = tm_events t;
             es = ty_received y @ tq_queue q
         in (\<forall>e \<in> set es. te_session e = i \<and> te_generation e = g)
            \<and> sorted_wrt (\<lambda>a b. sequence_before (te_sequence a) (te_sequence b)) es
            \<and> (\<forall>n < length es. is_terminal (es ! n) \<longrightarrow> n = length es - 1)
            \<and> sizes (tq_queue q) \<le> max_output_queue_bytes l
            \<and> length (tq_queue q) \<le> max_terminal_event_count l
            \<and> sum_list (map length (input_chunks (tm_input t))) \<le> max_input_queue_bytes l"
proof -
  define y where "y = foldl terminal_step (terminal_open i g l) ops"
  define q where "q = tm_events (ty_terminal y)"
  define es where "es = ty_received y @ tq_queue q"
  have inv: "system_inv i g l y"
    unfolding y_def by (rule session_threads.run_inv [OF open_inv [OF assms]])
  then have st: "stream_ok (ty_received y) q" and ok: "tqueue_ok q"
    and bounds: "bounds_inv i g l (ty_terminal y)"
    by (simp_all add: system_inv_def event_inv_def q_def)
  have order: "sorted_wrt event_before es"
    using st by (simp add: stream_ok_def es_def)
  have "sorted_wrt (\<lambda>a b. sequence_before (te_sequence a) (te_sequence b)) es"
    by (rule sorted_wrt_mono_rel [OF _ order]) (simp add: event_before_def)
  moreover have "n = length es - 1" if "n < length es" "is_terminal (es ! n)" for n
  proof (rule ccontr)
    assume "n \<noteq> length es - 1"
    with that(1) have "Suc n < length es" by simp
    then have "event_before (es ! n) (es ! Suc n)"
      using order by (simp add: sorted_wrt_iff_nth_less)
    with that(2) show False by (simp add: event_before_def)
  qed
  moreover have "\<forall>e \<in> set es. te_session e = i \<and> te_generation e = g"
    using st bounds by (auto simp: stream_ok_def es_def bounds_inv_def q_def)
  moreover have "sizes (tq_queue q) \<le> max_output_queue_bytes l"
      "length (tq_queue q) \<le> max_terminal_event_count l"
    using ok bounds by (auto simp: tqueue_ok_def bounds_inv_def q_def)
  moreover have "sum_list (map length (input_chunks (tm_input (ty_terminal y)))) \<le> max_input_queue_bytes l"
    using bounds by (auto simp: bounds_inv_def input_ok_def)
  ultimately show ?thesis
    unfolding Let_def y_def [symmetric] q_def [symmetric] es_def [symmetric] by blast
qed

lemma default_limits_ok: "limits_ok terminal_limits_default"
  by (simp add: limits_ok_def terminal_limits_validate_def terminal_limits_default_def env_vars_cap_def
      env_key_cap_def env_value_cap_def env_total_cap_def terminal_max_timeout_def
      min_terminal_event_bytes_def)

text \<open>A reader turn of one read, then the child exits and the reader finds the end.\<close>

definition sample_session_ops :: "terminal_op list" where
  "sample_session_ops = [Turn 0 (ReaderRead ''hi''), Run 0, Run 0, Run 0, Run 0]"

theorem terminal_stream_ordered_witness:
  "let y = foldl terminal_step (terminal_open 7 1 terminal_limits_default) sample_session_ops
   in sorted_wrt (\<lambda>a b. sequence_before (te_sequence a) (te_sequence b))
        (ty_received y @ tq_queue (tm_events (ty_terminal y)))"
  using terminal_stream_ordered [OF default_limits_ok, of 7 1 sample_session_ops]
  by (simp add: Let_def del: foldl.simps)

subsection \<open>The terminal event\<close>

fun marks_with :: "action \<Rightarrow> terminal_event_kind \<Rightarrow> bool" where
  "marks_with (FailMark code) k = (k = TError (terminal_error_code code))"
| "marks_with (CloseMark reason looks) k = (k = TClosed reason)"
| "marks_with _ k = False"

lemma marks_small: "marks_with a k \<Longrightarrow> terminal_event_size k = 64 \<and> terminal_kind k"
  by (cases a) auto

lemma mark_step:
  assumes "marks_with a k" and "\<not> terminal_sent (tm_life t)"
  obtains t' as where "act a t = (t', ClaimEvent k # as)" and "tm_events t' = tm_events t"
  using assms by (cases a) (auto simp: fail_mark_def close_mark_def Let_def)

lemma run_thread:
  assumes "n < length (ty_threads y)" and "ty_threads y ! n = a # rest"
    and "act a (ty_terminal y) = (t, as)"
  shows "ty_terminal (terminal_step y (Run n)) = t"
    and "ty_threads (terminal_step y (Run n)) = (ty_threads y)[n := as @ rest]"
    and "ty_received (terminal_step y (Run n)) = ty_received y"
  using assms by simp_all

lemma publish_three:
  assumes inv: "system_inv i g l y" and lim: "limits_ok l"
    and "\<not> terminal_sent (tm_life (ty_terminal y))"
    and n: "n < length (ty_threads y)" "ty_threads y ! n = a # rest" and mark: "marks_with a k"
  shows "\<exists>zs e. te_kind e = k \<and> stream (foldl terminal_step y [Run n, Run n, Run n]) = zs @ [e]"
proof -
  let ?q = "tm_events (ty_terminal y)"
  have open_queue: "\<not> tq_terminal ?q" "\<not> tq_closed ?q" "tqueue_ok ?q"
    using inv assms(3) by (auto simp: system_inv_def event_inv_def)
  have room: "terminal_event_size k \<le> tq_max_bytes ?q" "0 < tq_max_count ?q"
    using marks_small [OF mark] limits_ok_bounds(1,3) [OF lim] inv
    by (auto simp: system_inv_def bounds_inv_def)
  obtain t1 as where mk: "act a (ty_terminal y) = (t1, ClaimEvent k # as)" "tm_events t1 = ?q"
    using mark_step [OF mark assms(3)] by blast
  define y1 where "y1 = terminal_step y (Run n)"
  note r1 = run_thread [OF n mk(1), folded y1_def]
  have n1: "n < length (ty_threads y1)" "ty_threads y1 ! n = ClaimEvent k # as @ rest"
    using n r1 by simp_all
  have cl: "act (ClaimEvent k) (ty_terminal y1) = (t1\<lparr>tm_events := ?q\<lparr>tq_terminal := True\<rparr>\<rparr>, [StoreEvent k])"
    using open_queue r1 mk(2) by (simp add: terminal_claim_def)
  define y2 where "y2 = terminal_step y1 (Run n)"
  note r2 = run_thread [OF n1 cl, folded y2_def]
  have n2: "n < length (ty_threads y2)" "ty_threads y2 ! n = StoreEvent k # as @ rest"
    using n1 r2 by simp_all
  let ?q2 = "?q\<lparr>tq_terminal := True\<rparr>"
  obtain b q' where store: "terminal_store k ?q2 = (b, q')"
    by (cases "terminal_store k ?q2")
  have st: "act (StoreEvent k) (ty_terminal y2) = ((ty_terminal y2)\<lparr>tm_events := q'\<rparr>, [])"
    using r2 store by simp
  note r3 = run_thread [OF n2 st]
  have q2: "tqueue_ok ?q2" "\<not> tq_closed ?q2" "terminal_event_size k \<le> tq_max_bytes ?q2"
    "0 < tq_max_count ?q2"
    using open_queue room by (auto simp: tqueue_ok_def)
  have "b" using terminal_store_succeeds [OF q2] store by simp
  from q2(1) store obtain zs where "tq_queue q' = zs @ [fst (make_event k ?q2)]"
  proof (cases rule: terminal_store_cases)
    case shut
    with \<open>b\<close> show ?thesis by simp
  next
    case (stored es)
    then show ?thesis by (intro that [of es]) simp
  qed
  then have "stream (terminal_step y2 (Run n)) = (ty_received y @ zs) @ [fst (make_event k ?q2)]"
    using r1(3) r2(3) r3 by (simp add: stream_def del: terminal_step.simps)
  moreover have "te_kind (fst (make_event k ?q2)) = k"
    by (simp add: make_event_def)
  ultimately show ?thesis
    by (simp add: y1_def y2_def del: terminal_step.simps)
qed

text \<open>
  C9. A thread that ends a session publishes: in every reachable state in which the session has no
  terminal event yet, a worker's failure or a close that marks the lifecycle, claims and stores
  without another thread in between makes its event the one terminal event, and whatever all
  threads do afterwards, a receiver that keeps receiving gets it as the last event.
\<close>

theorem terminal_event_delivered:
  assumes "limits_ok l"
    and "y = foldl terminal_step (terminal_open i g l) before"
    and "\<not> terminal_sent (tm_life (ty_terminal y))"
    and "n < length (ty_threads y)" and "ty_threads y ! n = a # rest" and "marks_with a k"
  shows "\<exists>zs e. te_kind e = k \<and> (\<forall>z \<in> set zs. \<not> is_terminal z) \<and>
    (\<forall>ops m. max_terminal_event_count l \<le> m \<longrightarrow>
      ty_received (foldl terminal_step y ([Run n, Run n, Run n] @ ops @ replicate m (Receive True)))
        = zs @ [e])"
proof -
  have inv: "system_inv i g l y"
    unfolding assms(2) by (rule session_threads.run_inv [OF open_inv [OF assms(1)]])
  let ?y = "foldl terminal_step y [Run n, Run n, Run n]"
  obtain zs e where e: "te_kind e = k" and str: "stream ?y = zs @ [e]"
    using publish_three [OF inv assms(1,3-6)] by blast
  have inv3: "system_inv i g l ?y"
    by (rule session_threads.run_inv [OF inv])
  have "is_terminal e"
    using marks_small [OF assms(6)] e by (simp add: is_terminal_def)
  moreover have "terminals (ty_received ?y) (tm_events (ty_terminal ?y)) \<le> 1"
    using inv3 unfolding system_inv_def event_inv_def by linarith
  then have "length (List.filter is_terminal (zs @ [e])) \<le> 1"
    unfolding stream_terminals str .
  ultimately have none: "List.filter is_terminal zs = []" and one: "length (List.filter is_terminal (zs @ [e])) = 1"
    by simp_all
  have "ty_received (foldl terminal_step y ([Run n, Run n, Run n] @ ops @ replicate m (Receive True)))
      = zs @ [e]" if m: "max_terminal_event_count l \<le> m" for ops m
  proof -
    let ?z = "foldl terminal_step ?y ops"
    have "terminals (ty_received ?y) (tm_events (ty_terminal ?y)) = 1"
      using one by (simp add: stream_terminals str del: terminal_step.simps foldl.simps)
    from finished_run [OF inv3 this, of ops] have zstr: "stream ?z = zs @ [e]"
      using str by simp
    have "system_inv i g l ?z"
      by (rule session_threads.run_inv [OF inv3])
    then have "length (tq_queue (tm_events (ty_terminal ?z))) \<le> m"
      using m by (simp add: system_inv_def event_inv_def tqueue_ok_def bounds_inv_def)
    from drain [OF this, of True] zstr show ?thesis
      by (simp del: terminal_step.simps)
  qed
  moreover have "\<forall>z \<in> set zs. \<not> is_terminal z"
    using none by (simp add: filter_empty_conv)
  ultimately show ?thesis using e by blast
qed

definition closing_system :: terminal_system where
  "closing_system = foldl terminal_step (terminal_open 7 1 terminal_limits_default)
     [Call (CloseMark CloseUser 3)]"

theorem terminal_event_delivered_witness:
  "\<exists>zs e. te_kind e = TClosed CloseUser \<and> (\<forall>z \<in> set zs. \<not> is_terminal z) \<and>
    (\<forall>ops m. 2048 \<le> m \<longrightarrow>
      ty_received (foldl terminal_step closing_system
        ([Run 4, Run 4, Run 4] @ ops @ replicate m (Receive True))) = zs @ [e])"
proof -
  have count: "max_terminal_event_count terminal_limits_default = 2048"
    by (simp add: terminal_limits_default_def)
  have threads: "ty_threads closing_system = [[], [], [], [], [CloseMark CloseUser 3]]"
    and life: "\<not> terminal_sent (tm_life (ty_terminal closing_system))"
    by (simp_all add: closing_system_def worker_count_def numeral_eq_Suc)
  show ?thesis
    using terminal_event_delivered [OF default_limits_ok closing_system_def life,
        of 4 "CloseMark CloseUser 3" "[]" "TClosed CloseUser"]
    unfolding count by (simp add: threads del: foldl_append)
qed

text \<open>
  The reader and the writer both fail on a dead pseudo-terminal. The reader marks the lifecycle;
  before it claims its event the writer, which finds the mark set, stops the session and closes
  the event queue.
\<close>

definition losing_ops :: "terminal_op list" where
  "losing_ops =
     [Turn 0 (ReaderError False), Run 0, Run 0, Call (SendInput ''x''), Run 4, Run 4,
      Turn 1 (WriterPop False), Run 1, Run 1, Run 1,
      Run 0, Run 1, Run 1, Run 1, Run 1, Run 1, Run 1, Run 1, Run 1,
      Run 0, Run 0, Run 0, Run 0, Run 0, Run 0, Run 0, Run 0, Run 0,
      Turn 2 (ResizePop True), Run 2, Run 2,
      Turn 3 (ChildExited 1 None), Run 3, Run 3, Run 3, Run 3, Run 3, Run 3]"

definition lost_system :: terminal_system where
  "lost_system = foldl terminal_step (terminal_open 7 1 terminal_limits_default) losing_ops"

lemma upd_numeral: "(x # xs)[numeral k := y] = x # xs[pred_numeral k := y]"
  by (simp add: numeral_eq_Suc)

lemma replicate_4: "replicate 4 x = [x, x, x, x]"
  by (simp add: numeral_eq_Suc)

lemmas open_eval = terminal_open_def terminal_new_def Let_def worker_count_def replicate_4
  tracker_new_def tracker_register_def terminal_limits_default_def input_new_def
  terminal_queue_new_def resize_new_def scrollback_new_def

lemmas stepping_eval = upd_numeral request_stop_def reader_can_finish_def send_input_check_def validate_open_def
  validate_token_def input_push_def sat_add_def usize_max_def input_pop_def fail_mark_def
  reader_break_def terminal_claim_def terminal_store_def input_close_def resize_close_def
  resize_pop_def child_exited_def tracker_done_def reader_finished_def events_close_def

lemma lost_result:
  "stream lost_system = [] \<and> tq_closed (tm_events (ty_terminal lost_system))
   \<and> terminal_sent (tm_life (ty_terminal lost_system)) \<and> list_all (\<lambda>as. as = []) (ty_threads lost_system)
   \<and> workers_remaining (tm_workers (ty_terminal lost_system)) = 0"
  by (simp add: lost_system_def losing_ops_def open_eval stepping_eval stream_def)

text \<open>
  C8. A terminal event can be lost: with the default limits there is an interleaving of two failing
  workers after which the session is marked as ended, every worker is done and nothing is left to
  run, and in which the receiver has not got and will never get any event, the terminal one
  included.
\<close>

theorem terminal_event_can_be_lost:
  "\<exists>ops. let y = foldl terminal_step (terminal_open 7 1 terminal_limits_default) ops
     in terminal_sent (tm_life (ty_terminal y)) \<and> workers_remaining (tm_workers (ty_terminal y)) = 0
        \<and> list_all (\<lambda>as. as = []) (ty_threads y)
        \<and> (\<forall>later. ty_received (foldl terminal_step y later) = [])"
proof -
  have "ty_received (foldl terminal_step lost_system later) = []" for later
    using closed_run [of lost_system later] lost_result by (simp add: stream_def)
  then show ?thesis
    using lost_result unfolding Let_def lost_system_def by blast
qed

subsection \<open>Room and scrollback\<close>

text \<open>
  On an open queue without a terminal event, of a size the policy admits, a terminal event is
  stored exactly when the event alone fits: a close or an error always does, an exit of a queue
  of fewer than 96 bytes does not, and the queue is then closed.
\<close>

theorem terminal_event_room:
  assumes "tqueue_ok q" and "64 \<le> tq_max_bytes q" and "0 < tq_max_count q"
    and "\<not> tq_closed q" and "\<not> tq_terminal q"
  shows "(\<forall>k. fst (push_terminal k q) \<longleftrightarrow> terminal_event_size k \<le> tq_max_bytes q)
    \<and> (\<forall>k. fst (push_terminal k q) \<or> tq_closed (snd (push_terminal k q)))
    \<and> (\<forall>reason. fst (push_terminal (TClosed reason) q))
    \<and> (\<forall>code. fst (push_terminal (TError code) q))
    \<and> (\<forall>status. fst (push_terminal (TExited status None) q) \<longleftrightarrow> 96 \<le> tq_max_bytes q)"
proof -
  let ?q = "q\<lparr>tq_terminal := True\<rparr>"
  have q: "tqueue_ok ?q" "\<not> tq_closed ?q" "0 < tq_max_count ?q"
    using assms by (simp_all add: tqueue_ok_def)
  have push: "push_terminal k q = terminal_store k ?q" for k
    using assms(5) by (simp add: push_terminal_def terminal_claim_def)
  have exact: "fst (push_terminal k q) \<longleftrightarrow> terminal_event_size k \<le> tq_max_bytes q" for k
    using terminal_store_succeeds [OF q(1,2) _ q(3)] assms(4)
    by (auto simp: push) (auto simp: terminal_store_def make_event_def Let_def not_le split: if_splits)
  have shut: "fst (push_terminal k q) \<or> tq_closed (snd (push_terminal k q))" for k
    using assms(4) exact [of k] by (auto simp: push terminal_store_def make_event_def Let_def)
  have small: "fst (push_terminal (TClosed reason) q)" "fst (push_terminal (TError code) q)"
    "fst (push_terminal (TExited status None) q) \<longleftrightarrow> 96 \<le> tq_max_bytes q" for reason code status
    using exact assms(2) by (simp_all add: sat_add_def usize_max_def)
  show ?thesis
    using exact shut small by blast
qed

theorem terminal_event_room_witness:
  "\<not> fst (push_terminal (TExited 0 None) (terminal_queue_new 7 1 64 8))"
proof -
  have "tqueue_ok (terminal_queue_new 7 1 64 8)"
    by (rule queue_new_ok) (simp add: usize_max_def)
  from terminal_event_room [OF this] show ?thesis
    by (simp add: terminal_queue_new_def sat_add_def usize_max_def)
qed

text \<open>
  Whatever is read, the scrollback is the newest part of the output, never longer than its
  limit, and all of the output as long as that fits.
\<close>

theorem scrollback_newest:
  assumes "limits_ok l" and "\<forall>d \<in> set ds. length d \<le> max_output_batch_bytes l"
  shows "let s = foldl (\<lambda>s d. scrollback_append d s) (scrollback_new (max_scrollback_bytes l)) ds
    in suffix (scrollback_snapshot s) (concat ds)
       \<and> length (scrollback_snapshot s) \<le> max_scrollback_bytes l
       \<and> sb_bytes s = length (scrollback_snapshot s)
       \<and> (length (concat ds) \<le> max_scrollback_bytes l \<longrightarrow> scrollback_snapshot s = concat ds)"
proof -
  let ?s = "scrollback_new (max_scrollback_bytes l)"
  have "max_output_batch_bytes l \<le> 4 * 1024 * 1024"
    using assms(1) unfolding limits_ok_def terminal_limits_validate_def guard_Inr' by blast
  then have "\<forall>d \<in> set ds. length d < 2 ^ 63"
    using assms(2) by fastforce
  moreover have "sb_limit ?s < 2 ^ 63" and new: "scrollback_snapshot ?s = []"
      "sb_limit ?s = max_scrollback_bytes l"
    using limits_ok_bounds(5) [OF assms(1)] by (simp_all add: scrollback_new_def scrollback_snapshot_def)
  ultimately show ?thesis
    using scrollback_fold [OF scrollback_new_ok, of "max_scrollback_bytes l" ds]
    by (simp add: Let_def new scrollback_ok_def) (simp add: scrollback_snapshot_def)
qed

theorem scrollback_newest_witness:
  "let s = foldl (\<lambda>s d. scrollback_append d s) (scrollback_new (max_scrollback_bytes terminal_limits_default))
       [''ab'', ''cd'']
    in scrollback_snapshot s = ''abcd''"
  using scrollback_newest [OF default_limits_ok, of "[''ab'', ''cd'']"]
  by (simp add: terminal_limits_default_def Let_def)

end
