(* ===== verification/Ja_Terminal_Supervisor.thy ===== *)
theory Ja_Terminal_Supervisor
  imports Ja_Terminal_Claims
begin

text \<open>
  The owner of the terminal sessions (\<open>TerminalSupervisor\<close> in \<open>terminal/session.rs\<close>) and the
  command host's workspace slot (\<open>terminal/commands.rs\<close>). The map of sessions is an association
  list from ids to runtimes; what the operating system answers when a session is spawned or closed
  and the random id of a new session are arguments.
\<close>

type_synonym terminal_sessions = "(terminal_id \<times> terminal) list"

definition is_reclaimable :: "terminal \<Rightarrow> bool" where
  "is_reclaimable t \<longleftrightarrow> terminal_sent (tm_life t) \<and> is_reaped (tm_workers t)"

text \<open>
  \<open>TerminalRuntime::spawn\<close>: \<open>pty\<close> is the outcome of opening the pseudo-terminal, taking its two
  ends, starting the shell and attaching its process tree; \<open>started\<close> of creating the threads.
\<close>

definition runtime_spawn ::
    "terminal_host \<Rightarrow> terminal_policy \<Rightarrow> terminal_id \<Rightarrow> terminal_error + unit \<Rightarrow> bool list
      \<Rightarrow> launch_request \<Rightarrow> terminal_error + terminal" where
  "runtime_spawn h p i pty started request =
     and_then (prepare_launch h p request) (\<lambda>_.
     and_then pty (\<lambda>_.
       let t = terminal_new i 1 (policy_limits p);
           (all_started, w) = spawn_workers started (tm_workers t)
       in if all_started then Inr (t\<lparr>tm_workers := w\<rparr>) else Inl TSpawnFailed))"

definition terminal_active_count :: "terminal_sessions \<Rightarrow> nat" where
  "terminal_active_count ss = length ss"

definition supervisor_open ::
    "terminal_host \<Rightarrow> terminal_policy \<Rightarrow> terminal_id \<Rightarrow> terminal_error + unit \<Rightarrow> bool list
      \<Rightarrow> launch_request \<Rightarrow> terminal_sessions
      \<Rightarrow> (terminal_error + terminal_id \<times> nat) \<times> terminal_sessions" where
  "supervisor_open h p i pty started request sessions =
     (let ss = List.filter (\<lambda>(_, t). \<not> is_reclaimable t) sessions
      in if max_sessions (policy_limits p) \<le> length ss then (Inl TSessionLimit, ss)
         else (case runtime_spawn h p i pty started request of
             Inl e \<Rightarrow> (Inl e, ss)
           | Inr t \<Rightarrow> (Inr (i, 1), ss @ [(i, t)])))"

definition terminal_get ::
    "terminal_id \<Rightarrow> nat \<Rightarrow> terminal_sessions \<Rightarrow> terminal_error + terminal" where
  "terminal_get i generation ss =
     and_then (ok_or (map_of ss i) TSessionNotFound) (\<lambda>t.
     and_then (validate_token generation t) (\<lambda>_. Inr t))"

definition remove_terminal :: "terminal_id \<Rightarrow> terminal_sessions \<Rightarrow> terminal_sessions" where
  "remove_terminal i ss = List.filter (\<lambda>(j, _). j \<noteq> i) ss"

text \<open>\<open>close\<close>, where \<open>result\<close> is what \<open>TerminalRuntime::close\<close> returns.\<close>

definition terminal_close ::
    "terminal_id \<Rightarrow> nat \<Rightarrow> terminal_error + unit \<Rightarrow> terminal_sessions
      \<Rightarrow> (terminal_error + unit) \<times> terminal_sessions" where
  "terminal_close i generation result ss =
     (case terminal_get i generation ss of
        Inl e \<Rightarrow> (Inl e, ss)
      | Inr t \<Rightarrow> (result, if result = Inr () then remove_terminal i ss else ss))"

text \<open>\<open>shutdown_until\<close>: the sessions of a snapshot in turn, with the outcome of each close.\<close>

fun shutdown_terminals ::
    "(terminal_id \<times> (terminal_error + unit)) list \<Rightarrow> terminal_sessions \<Rightarrow> bool \<times> terminal_sessions" where
  "shutdown_terminals [] ss = (False, ss)"
| "shutdown_terminals ((i, result) # rest) ss =
     (let (failed, ss') = shutdown_terminals rest (if result = Inr () then remove_terminal i ss else ss)
      in (result \<noteq> Inr () \<or> failed, ss'))"

definition terminal_shutdown ::
    "(terminal_id \<Rightarrow> terminal_error + unit) \<Rightarrow> terminal_sessions
      \<Rightarrow> (terminal_error + unit) \<times> terminal_sessions" where
  "terminal_shutdown outcome ss =
     (let (failed, ss') = shutdown_terminals (map (\<lambda>(i, _). (i, outcome i)) ss) ss
      in (if failed then Inl TWorkerShutdownTimeout else Inr (), ss'))"

subsection \<open>The command host\<close>

text \<open>\<open>configure\<close>: a workspace is chosen while no session of another one is left.\<close>

type_synonym terminal_slot = "(terminal_policy \<times> terminal_sessions) option"

definition terminal_configure ::
    "terminal_host \<Rightarrow> str \<Rightarrow> terminal_slot \<Rightarrow> (terminal_error + unit) \<times> terminal_slot" where
  "terminal_configure h workspace slot =
     (case terminal_policy_new h workspace of
        Inl e \<Rightarrow> (Inl e, slot)
      | Inr p \<Rightarrow>
          (case slot of
             Some (_, ss) \<Rightarrow>
               if terminal_active_count ss \<noteq> 0 then (Inl TInvalidConfig, slot) else (Inr (), Some (p, []))
           | None \<Rightarrow> (Inr (), Some (p, []))))"

definition host_shutdown ::
    "(terminal_id \<Rightarrow> terminal_error + unit) \<Rightarrow> terminal_slot \<Rightarrow> (terminal_error + unit) \<times> terminal_slot" where
  "host_shutdown outcome slot =
     (case slot of
        None \<Rightarrow> (Inr (), None)
      | Some (p, ss) \<Rightarrow>
          let (r, ss') = terminal_shutdown outcome ss in (r, Some (p, ss')))"

definition host_is_empty :: "terminal_slot \<Rightarrow> bool" where
  "host_is_empty slot =
     (case slot of None \<Rightarrow> True | Some (_, ss) \<Rightarrow> terminal_active_count ss = 0)"

definition with_supervisor ::
    "(terminal_policy \<Rightarrow> terminal_sessions \<Rightarrow> (terminal_error + 'a) \<times> terminal_sessions)
      \<Rightarrow> terminal_slot \<Rightarrow> (terminal_error + 'a) \<times> terminal_slot" where
  "with_supervisor operation slot =
     (case slot of
        None \<Rightarrow> (Inl TInvalidConfig, None)
      | Some (p, ss) \<Rightarrow> let (r, ss') = operation p ss in (r, Some (p, ss')))"

definition terminal_open_command ::
    "terminal_host \<Rightarrow> terminal_id \<Rightarrow> terminal_error + unit \<Rightarrow> bool list \<Rightarrow> launch_request
      \<Rightarrow> terminal_slot \<Rightarrow> (terminal_error + terminal_id \<times> nat) \<times> terminal_slot" where
  "terminal_open_command h i pty started request =
     with_supervisor (\<lambda>p. supervisor_open h p i pty started request)"

definition terminal_close_command ::
    "terminal_id \<Rightarrow> nat \<Rightarrow> terminal_error + unit \<Rightarrow> terminal_slot \<Rightarrow> (terminal_error + unit) \<times> terminal_slot" where
  "terminal_close_command i generation result =
     with_supervisor (\<lambda>_. terminal_close i generation result)"

subsection \<open>Any history of the host\<close>

text \<open>
  \<open>HostRun\<close> is a session's own threads at work, for any number of steps from any state of its
  threads and its receiver.
\<close>

datatype host_op =
    HostConfigure str
  | HostOpen terminal_id "terminal_error + unit" "bool list" launch_request
  | HostClose terminal_id nat "terminal_error + unit"
  | HostShutdown "terminal_id \<Rightarrow> terminal_error + unit"
  | HostRun terminal_id "terminal_op list" "terminal_event list" "action list list"

fun session_runs ::
    "terminal_id \<Rightarrow> terminal_op list \<Rightarrow> terminal_event list \<Rightarrow> action list list
      \<Rightarrow> terminal_sessions \<Rightarrow> terminal_sessions" where
  "session_runs i ops received threads [] = []"
| "session_runs i ops received threads ((j, t) # ss) =
     (if i = j then
        (j, ty_terminal (foldl terminal_step
          \<lparr>ty_terminal = t, ty_threads = threads, ty_ended = [], ty_received = received\<rparr> ops)) # ss
      else (j, t) # session_runs i ops received threads ss)"

fun host_step :: "terminal_host \<Rightarrow> terminal_slot \<Rightarrow> host_op \<Rightarrow> terminal_slot" where
  "host_step h slot (HostConfigure w) = snd (terminal_configure h w slot)"
| "host_step h slot (HostOpen i pty started request) =
     (case slot of
        Some (p, ss) \<Rightarrow> if i \<in> fst ` set ss then slot
          else snd (terminal_open_command h i pty started request slot)
      | None \<Rightarrow> slot)"
| "host_step h slot (HostClose i g result) = snd (terminal_close_command i g result slot)"
| "host_step h slot (HostShutdown outcome) = snd (host_shutdown outcome slot)"
| "host_step h slot (HostRun i ops received threads) =
     map_option (\<lambda>(p, ss). (p, session_runs i ops received threads ss)) slot"

definition host_inv :: "terminal_host \<Rightarrow> terminal_slot \<Rightarrow> bool" where
  "host_inv h slot \<longleftrightarrow>
     (\<forall>p ss. slot = Some (p, ss) \<longrightarrow>
        limits_ok (policy_limits p) \<and> distinct (map fst ss)
        \<and> length ss \<le> max_sessions (policy_limits p)
        \<and> host_is_dir h (workspace_root p) = Some True)"

lemma remove_terminal_good:
  "distinct (map fst ss) \<Longrightarrow> distinct (map fst (remove_terminal i ss))
     \<and> length (remove_terminal i ss) \<le> length ss"
  by (simp add: remove_terminal_def distinct_map_filter)

lemma shutdown_good:
  "shutdown_terminals rs ss = (b, ss') \<Longrightarrow> distinct (map fst ss) \<Longrightarrow>
     distinct (map fst ss') \<and> length ss' \<le> length ss"
proof (induction rs arbitrary: ss b)
  case Nil
  then show ?case by simp
next
  case (Cons r rs)
  obtain i result where r: "r = (i, result)" by (cases r)
  let ?ss = "if result = Inr () then remove_terminal i ss else ss"
  obtain b' where rec: "shutdown_terminals rs ?ss = (b', ss')"
    using Cons.prems(1) r by (auto simp: Let_def split: prod.splits if_splits)
  have good: "distinct (map fst ?ss)" "length ?ss \<le> length ss"
    using Cons.prems(2) remove_terminal_good [of ss i] by auto
  from Cons.IH [OF rec good(1)] good(2) show ?case by auto
qed

lemma session_runs_keys [simp]:
  "map fst (session_runs i ops received threads ss) = map fst ss"
  "length (session_runs i ops received threads ss) = length ss"
  by (induction i ops received threads ss rule: session_runs.induct) simp_all

lemma open_good:
  assumes "distinct (map fst ss)" and "length ss \<le> max_sessions (policy_limits p)"
    and "i \<notin> fst ` set ss"
  shows "distinct (map fst (snd (supervisor_open h p i pty started request ss)))
    \<and> length (snd (supervisor_open h p i pty started request ss)) \<le> max_sessions (policy_limits p)"
proof -
  let ?ss = "List.filter (\<lambda>(_, t). \<not> is_reclaimable t) ss"
  have "distinct (map fst ?ss)" "i \<notin> fst ` set ?ss"
    using assms(1,3) by (auto simp: distinct_map_filter)
  moreover have "length ?ss \<le> max_sessions (policy_limits p)"
    using assms(2) length_filter_le [of "\<lambda>(_, t). \<not> is_reclaimable t" ss] by linarith
  ultimately show ?thesis
    by (auto simp: supervisor_open_def Let_def split: sum.splits)
qed

lemma policy_new_good:
  "terminal_policy_new h w = Inr p \<Longrightarrow>
     policy_limits p = terminal_limits_default \<and> host_is_dir h (workspace_root p) = Some True"
  using default_limits_ok
  by (auto simp: terminal_policy_new_def terminal_policy_with_limits_def result_iff
      canonical_directory_Inr limits_ok_def)

lemma host_step_inv: "host_inv h slot \<Longrightarrow> host_inv h (host_step h slot x)"
proof (cases x)
  case (HostConfigure w)
  assume "host_inv h slot"
  with HostConfigure show ?thesis
    using policy_new_good [of h w] default_limits_ok
    by (auto simp: host_inv_def terminal_configure_def split: sum.splits option.splits if_splits)
next
  case (HostOpen i pty started request)
  assume "host_inv h slot"
  with HostOpen show ?thesis
    using open_good [where i = i and h = h and pty = pty and started = started and request = request]
    by (fastforce simp: host_inv_def terminal_open_command_def with_supervisor_def
        split: option.splits prod.splits if_splits)
next
  case (HostClose i g result)
  assume inv: "host_inv h slot"
  show ?thesis
  proof (cases slot)
    case None
    with HostClose inv show ?thesis
      by (simp add: terminal_close_command_def with_supervisor_def)
  next
    case (Some ps)
    obtain p ss where ps: "ps = (p, ss)" by (cases ps)
    have "distinct (map fst ss)" using inv Some ps by (simp add: host_inv_def)
    note good = remove_terminal_good [OF this, of i]
    show ?thesis
      using HostClose inv Some ps good
      by (auto simp: host_inv_def terminal_close_command_def with_supervisor_def
          terminal_close_def split: sum.splits if_splits)
  qed
next
  case (HostShutdown outcome)
  assume inv: "host_inv h slot"
  show ?thesis
  proof (cases slot)
    case None
    with HostShutdown inv show ?thesis by (simp add: host_shutdown_def)
  next
    case (Some ps)
    obtain p ss where ps: "ps = (p, ss)" by (cases ps)
    obtain b ss' where shut: "shutdown_terminals (map (\<lambda>(i, _). (i, outcome i)) ss) ss = (b, ss')"
      by fastforce
    have "distinct (map fst ss)" using inv Some ps by (simp add: host_inv_def)
    with shutdown_good [OF shut] HostShutdown inv Some ps shut show ?thesis
      by (auto simp: host_inv_def host_shutdown_def terminal_shutdown_def)
  qed
next
  case (HostRun i ops received threads)
  assume "host_inv h slot"
  with HostRun show ?thesis by (auto simp: host_inv_def)
qed

interpretation terminal_hosts: stepping "host_step h" "host_inv h"
  by unfold_locales (rule host_step_inv)

text \<open>
  In every history of choosing a workspace, opening, running, closing and shutting down, the
  command host owns at most the eight sessions of its policy, each under an id of its own, in a
  workspace that is an existing directory; and it changes the workspace only when it owns none.
\<close>

theorem terminal_host_bounded:
  assumes "slot = foldl (host_step h) None ops" and "slot = Some (p, ss)"
  shows "length ss \<le> max_sessions (policy_limits p) \<and> max_sessions (policy_limits p) \<le> 64
    \<and> distinct (map fst ss) \<and> host_is_dir h (workspace_root p) = Some True
    \<and> (ss \<noteq> [] \<longrightarrow> (\<forall>w. snd (terminal_configure h w slot) = slot))"
proof -
  have "host_inv h None" by (simp add: host_inv_def)
  then have inv: "host_inv h slot"
    unfolding assms(1) by (rule terminal_hosts.run_inv)
  then have "max_sessions (policy_limits p) \<le> 64"
    using assms(2) unfolding host_inv_def limits_ok_def terminal_limits_validate_def guard_Inr'
    by blast
  with inv assms(2) show ?thesis
    by (auto simp: host_inv_def terminal_configure_def terminal_active_count_def split: sum.splits)
qed

lemma sample_policy_new: "terminal_policy_new sample_host ''/w'' = Inr sample_policy"
  using default_limits_ok
  by (simp add: terminal_policy_new_def terminal_policy_with_limits_def limits_ok_def
      terminal_absolute_path_def is_absolute_def canonical_directory_def sample_host_def
      sample_policy_def)

theorem terminal_host_bounded_witness:
  "length ([] :: terminal_sessions) \<le> max_sessions (policy_limits sample_policy)
    \<and> host_is_dir sample_host (workspace_root sample_policy) = Some True"
proof -
  have "Some (sample_policy, []) = foldl (host_step sample_host) None [HostConfigure ''/w'']"
    by (simp add: terminal_configure_def sample_policy_new)
  from terminal_host_bounded [OF this refl] show ?thesis by simp
qed

end
