(* ===== verification/Ja_Preview_Url.thy ===== *)
theory Ja_Preview_Url
  imports Ja_Prelude
begin

text \<open>
  The address policy of the preview window (\<open>preview/policy.rs\<close>), its budgets and errors
  (\<open>preview/model.rs\<close>, \<open>preview/error.rs\<close>). The parser of the \<open>url\<close> crate is an argument:
  None is a parse error, and a result gives the parts the policy looks at.
\<close>

subsection \<open>Errors and budgets\<close>

datatype preview_error =
    PInvalidConfig | PUrlTooLong | PUrlControlCharacter | PUrlInvalid | PSchemeNotAllowed
  | PHostMissing | PUserInfoNotAllowed | PPercentEscapeInvalid | PSessionLimit | PSessionNotFound
  | PSessionClosed | PStaleGeneration | PGenerationExhausted | PSequenceExhausted
  | PEventPayloadTooLarge | PEventQueueFull | PTitleTooLong | PErrorTooLong | PNavigationBlocked
  | PDependencyRequest | PInternalStateUnavailable

record preview_limits =
  pl_max_sessions :: nat
  pl_max_url_bytes :: nat
  pl_max_title_bytes :: nat
  pl_max_error_bytes :: nat
  pl_max_event_count :: nat
  pl_max_payload_bytes :: nat
  pl_max_queue_bytes :: nat

definition preview_limits_default :: preview_limits where
  "preview_limits_default = \<lparr>
     pl_max_sessions = 8, pl_max_url_bytes = 8 * 1024, pl_max_title_bytes = 1024,
     pl_max_error_bytes = 4 * 1024, pl_max_event_count = 512,
     pl_max_payload_bytes = 64 * 1024, pl_max_queue_bytes = 2 * 1024 * 1024 \<rparr>"

definition preview_limits_validate :: "preview_limits \<Rightarrow> preview_error + preview_limits" where
  "preview_limits_validate l =
     (if 0 < pl_max_sessions l \<and> pl_max_sessions l \<le> 64
         \<and> 64 \<le> pl_max_url_bytes l \<and> pl_max_url_bytes l \<le> 64 * 1024
         \<and> 0 < pl_max_title_bytes l \<and> pl_max_title_bytes l \<le> 64 * 1024
         \<and> 0 < pl_max_error_bytes l \<and> pl_max_error_bytes l \<le> 256 * 1024
         \<and> 0 < pl_max_event_count l \<and> pl_max_event_count l \<le> 65536
         \<and> 128 \<le> pl_max_payload_bytes l \<and> pl_max_payload_bytes l \<le> 4 * 1024 * 1024
         \<and> pl_max_payload_bytes l \<le> pl_max_queue_bytes l
         \<and> pl_max_queue_bytes l \<le> 64 * 1024 * 1024
      then Inr l else Inl PInvalidConfig)"

subsection \<open>Characters\<close>

text \<open>
  \<open>char::is_whitespace\<close> is the Unicode property White_Space; beyond ASCII it has U+0085, U+00A0,
  U+1680, U+2000 to U+200A, U+2028, U+2029, U+202F, U+205F and U+3000, written here in UTF-8.
\<close>

definition space_at :: "str \<Rightarrow> bool" where
  "space_at s \<longleftrightarrow>
     (case s of
        [] \<Rightarrow> False
      | a # cs \<Rightarrow>
          (9 \<le> byte a \<and> byte a \<le> 13) \<or> byte a = 32
          \<or> (case cs of
               [] \<Rightarrow> False
             | b # ds \<Rightarrow>
                 (byte a = 194 \<and> (byte b = 133 \<or> byte b = 160))
                 \<or> (case ds of
                      [] \<Rightarrow> False
                    | d # _ \<Rightarrow>
                        (byte a = 225 \<and> byte b = 154 \<and> byte d = 128)
                        \<or> (byte a = 226 \<and> byte b = 128 \<and>
                            ((128 \<le> byte d \<and> byte d \<le> 138) \<or> byte d = 168 \<or> byte d = 169 \<or> byte d = 175))
                        \<or> (byte a = 226 \<and> byte b = 129 \<and> byte d = 159)
                        \<or> (byte a = 227 \<and> byte b = 128 \<and> byte d = 128))))"

fun has_whitespace :: "str \<Rightarrow> bool" where
  "has_whitespace [] = False"
| "has_whitespace (c # cs) \<longleftrightarrow> space_at (c # cs) \<or> has_whitespace cs"

definition hex_value :: "char \<Rightarrow> nat option" where
  "hex_value c =
     (if is_ascii_digit c then Some (byte c - 48)
      else if 97 \<le> byte c \<and> byte c \<le> 102 then Some (byte c - 97 + 10)
      else if 65 \<le> byte c \<and> byte c \<le> 70 then Some (byte c - 65 + 10)
      else None)"

text \<open>The bytes an escape must not stand for: controls, DEL and the backslash.\<close>

definition forbidden_escape :: "nat \<Rightarrow> bool" where
  "forbidden_escape n \<longleftrightarrow> n < 32 \<or> n = 127 \<or> n = 92"

fun validate_percent_escapes :: "str \<Rightarrow> preview_error + unit" where
  "validate_percent_escapes [] = Inr ()"
| "validate_percent_escapes (c # cs) =
     (if c = CHR 0x25 then
        (case cs of
           h # l # rest \<Rightarrow>
             (case hex_value h of
                None \<Rightarrow> Inl PPercentEscapeInvalid
              | Some high \<Rightarrow>
                  (case hex_value l of
                     None \<Rightarrow> Inl PPercentEscapeInvalid
                   | Some low \<Rightarrow>
                       if forbidden_escape (16 * high + low) then Inl PUrlControlCharacter
                       else validate_percent_escapes rest))
         | _ \<Rightarrow> Inl PPercentEscapeInvalid)
      else validate_percent_escapes cs)"

fun after_authority_mark :: "str \<Rightarrow> str option" where
  "after_authority_mark [] = None"
| "after_authority_mark (c # cs) =
     (if starts_with (c # cs) ''://'' then Some (drop 3 (c # cs)) else after_authority_mark cs)"

definition authority_has_userinfo :: "str \<Rightarrow> bool" where
  "authority_has_userinfo raw =
     (case after_authority_mark raw of
        None \<Rightarrow> False
      | Some rest \<Rightarrow> CHR ''@'' \<in> set (takeWhile (\<lambda>c. c \<notin> {CHR 0x2F, CHR 0x3F, CHR 0x23}) rest))"

definition strict_http_prefix :: "str \<Rightarrow> nat option" where
  "strict_http_prefix raw =
     (if 7 \<le> length raw \<and> eq_ignore_ascii_case (take 7 raw) ''http://'' then Some 7
      else if 8 \<le> length raw \<and> eq_ignore_ascii_case (take 8 raw) ''https://'' then Some 8
      else None)"

subsection \<open>The policy\<close>

record parsed_url =
  pu_scheme :: str
  pu_host :: "str option"
  pu_username :: str
  pu_password :: "str option"
  pu_text :: str

definition http_scheme :: "parsed_url \<Rightarrow> bool" where
  "http_scheme u \<longleftrightarrow> pu_scheme u \<in> {''http'', ''https''}"

definition validate_preview_url ::
    "(str \<Rightarrow> parsed_url option) \<Rightarrow> preview_limits \<Rightarrow> str \<Rightarrow> preview_error + str" where
  "validate_preview_url parse l raw =
     (if pl_max_url_bytes l < length raw then Inl PUrlTooLong
      else if raw = [] then Inl PUrlInvalid
      else if has_control raw \<or> has_whitespace raw \<or> CHR 0x5C \<in> set raw then Inl PUrlControlCharacter
      else (case strict_http_prefix raw of
          None \<Rightarrow>
            (case parse raw of
               Some u \<Rightarrow> if \<not> http_scheme u then Inl PSchemeNotAllowed else Inl PUrlInvalid
             | None \<Rightarrow> Inl PUrlInvalid)
        | Some n \<Rightarrow>
            if n < length raw \<and> raw ! n = CHR 0x2F then Inl PUrlInvalid
            else and_then (validate_percent_escapes raw) (\<lambda>_.
                 and_then (ok_or (parse raw) PUrlInvalid) (\<lambda>u.
                 if \<not> http_scheme u then Inl PSchemeNotAllowed
                 else if pu_host u = None \<or> pu_host u = Some [] then Inl PHostMissing
                 else if pu_username u \<noteq> [] \<or> pu_password u \<noteq> None \<or> authority_has_userinfo raw
                   then Inl PUserInfoNotAllowed
                 else if pl_max_url_bytes l < length (pu_text u) then Inl PUrlTooLong
                 else Inr (pu_text u)))))"

subsection \<open>What the policy admits\<close>

text \<open>The escape grammar without a scanner: every percent sign starts a good escape.\<close>

definition escape_ok_at :: "str \<Rightarrow> nat \<Rightarrow> bool" where
  "escape_ok_at raw i \<longleftrightarrow>
     i + 2 < length raw
     \<and> (\<exists>high low. hex_value (raw ! (i + 1)) = Some high \<and> hex_value (raw ! (i + 2)) = Some low
          \<and> \<not> forbidden_escape (16 * high + low))"

definition escapes_ok :: "str \<Rightarrow> bool" where
  "escapes_ok raw \<longleftrightarrow> (\<forall>i < length raw. raw ! i = CHR 0x25 \<longrightarrow> escape_ok_at raw i)"

lemma hex_not_percent: "hex_value c = Some n \<Longrightarrow> c \<noteq> CHR 0x25"
  by (auto simp: hex_value_def byte_defs)

lemma escapes_ok_Nil [simp]: "escapes_ok []"
  by (simp add: escapes_ok_def)

lemma escape_at_Suc: "escape_ok_at (c # cs) (Suc i) = escape_ok_at cs i"
  by (simp add: escape_ok_at_def)

lemma escapes_ok_Cons:
  "escapes_ok (c # cs) \<longleftrightarrow> (c = CHR 0x25 \<longrightarrow> escape_ok_at (c # cs) 0) \<and> escapes_ok cs"
  by (auto simp: escapes_ok_def escape_at_Suc less_Suc_eq_0_disj)

lemma validate_percent_iff: "validate_percent_escapes raw = Inr () \<longleftrightarrow> escapes_ok raw"
proof (induction raw rule: validate_percent_escapes.induct)
  case 1
  then show ?case by simp
next
  case (2 c cs)
  show ?case
  proof (cases "c = CHR 0x25")
    case False
    with 2 show ?thesis by (simp add: escapes_ok_Cons)
  next
    case True
    show ?thesis
    proof (cases "\<exists>h l rest. cs = h # l # rest")
      case False
      then have "length cs \<le> 1"
        by (cases cs; cases "tl cs") auto
      with False True show ?thesis
        by (auto simp: escapes_ok_Cons escape_ok_at_def split: list.splits)
    next
      case shape: True
      then obtain h l rest where cs: "cs = h # l # rest" by blast
      show ?thesis
      proof (cases "escape_ok_at (c # cs) 0")
        case False
        with True cs show ?thesis
          by (auto simp: escapes_ok_Cons escape_ok_at_def split: option.splits)
      next
        case ok: True
        then obtain high low where hex: "hex_value h = Some high" "hex_value l = Some low"
            "\<not> forbidden_escape (16 * high + low)"
          by (auto simp: escape_ok_at_def cs)
        have "validate_percent_escapes rest = Inr () \<longleftrightarrow> escapes_ok rest"
          using 2 True cs hex by auto
        with True cs hex ok show ?thesis
          using hex_not_percent [OF hex(1)] hex_not_percent [OF hex(2)]
          by (simp add: escapes_ok_Cons)
      qed
    qed
  qed
qed

lemma has_whitespace_space: "\<not> has_whitespace s \<Longrightarrow> CHR 0x20 \<notin> set s"
  by (induction s) (auto simp: space_at_def)

text \<open>
  A URL the preview may open is an HTTP or HTTPS URL of the parser with a host and without
  user information, its text starts with one of the two schemes, holds no control character, white
  space or backslash, every percent sign starts an escape of two hexadecimal digits that stands for
  no control or backslash either, and both it and the normalized text are within the length limit.
\<close>

theorem preview_url_safe:
  assumes "validate_preview_url parse l raw = Inr text"
  shows "\<exists>u. parse raw = Some u \<and> text = pu_text u \<and> pu_scheme u \<in> {''http'', ''https''}
    \<and> pu_host u \<noteq> None \<and> pu_host u \<noteq> Some [] \<and> pu_username u = [] \<and> pu_password u = None
    \<and> \<not> authority_has_userinfo raw
    \<and> (eq_ignore_ascii_case (take 7 raw) ''http://'' \<or> eq_ignore_ascii_case (take 8 raw) ''https://'')
    \<and> \<not> has_control raw \<and> \<not> has_whitespace raw \<and> CHR 0x5C \<notin> set raw
    \<and> (\<forall>i < length raw. raw ! i = CHR 0x25 \<longrightarrow> escape_ok_at raw i)
    \<and> length raw \<le> pl_max_url_bytes l \<and> length text \<le> pl_max_url_bytes l"
proof -
  from assms obtain u n where "parse raw = Some u" "strict_http_prefix raw = Some n"
    and esc: "validate_percent_escapes raw = Inr ()"
    and rest: "http_scheme u" "pu_host u \<noteq> None" "pu_host u \<noteq> Some []" "pu_username u = []"
      "pu_password u = None" "\<not> authority_has_userinfo raw" "text = pu_text u"
      "length (pu_text u) \<le> pl_max_url_bytes l" "length raw \<le> pl_max_url_bytes l"
      "\<not> has_control raw" "\<not> has_whitespace raw" "CHR 0x5C \<notin> set raw"
    by (auto simp: validate_preview_url_def result_iff split: if_splits option.splits)
  moreover have "eq_ignore_ascii_case (take 7 raw) ''http://''
      \<or> eq_ignore_ascii_case (take 8 raw) ''https://''"
    using calculation(2) by (auto simp: strict_http_prefix_def split: if_splits)
  moreover have "\<forall>i < length raw. raw ! i = CHR 0x25 \<longrightarrow> escape_ok_at raw i"
    using esc by (simp add: validate_percent_iff escapes_ok_def)
  ultimately show ?thesis
    by (auto simp: http_scheme_def)
qed

definition sample_url :: parsed_url where
  "sample_url = \<lparr>pu_scheme = ''http'', pu_host = Some ''h'', pu_username = [],
     pu_password = None, pu_text = ''http://h/''\<rparr>"

lemma upper_http: "eq_ignore_ascii_case ''HTTP://'' ''http://''"
  by code_simp

lemma sample_url_valid:
  "validate_preview_url (\<lambda>_. Some sample_url) preview_limits_default ''HTTP://h/%20'' = Inr ''http://h/''"
  by (simp add: validate_preview_url_def preview_limits_default_def space_at_def
      strict_http_prefix_def upper_http byte_defs hex_value_def
      forbidden_escape_def sample_url_def http_scheme_def authority_has_userinfo_def starts_with_def)

theorem preview_url_safe_witness:
  "pu_scheme sample_url \<in> {''http'', ''https''} \<and> pu_host sample_url \<noteq> None"
  using preview_url_safe [OF sample_url_valid] by auto

text \<open>
  The scanner of percent escapes accepts exactly the texts in which every percent sign is
  followed by two hexadecimal digits that do not stand for a control, DEL or backslash byte.
\<close>

theorem percent_escapes_exact:
  "validate_percent_escapes raw = Inr () \<longleftrightarrow>
     (\<forall>i < length raw. raw ! i = CHR 0x25 \<longrightarrow>
        i + 2 < length raw
        \<and> (\<exists>high low. hex_value (raw ! (i + 1)) = Some high \<and> hex_value (raw ! (i + 2)) = Some low
             \<and> \<not> forbidden_escape (16 * high + low)))"
  by (simp add: validate_percent_iff escapes_ok_def escape_ok_at_def)

text \<open>The witness that the equivalence has both sides.\<close>

theorem percent_escapes_exact_witness:
  "validate_percent_escapes ''a%41'' = Inr () \<and> validate_percent_escapes ''a%4'' \<noteq> Inr ()"
proof
  show "validate_percent_escapes ''a%41'' = Inr ()"
    by (simp add: hex_value_def byte_defs forbidden_escape_def)
  show "validate_percent_escapes ''a%4'' \<noteq> Inr ()"
    unfolding percent_escapes_exact by (intro notI) (erule allE [of _ 1], simp)
qed

end
