(* ===== verification/Ja_Preview.thy ===== *)
theory Ja_Preview
  imports Ja_Preview_Url Ja_Json
begin

text \<open>
  The preview sessions (\<open>preview/session.rs\<close>, \<open>preview/model.rs\<close>): one registry of sessions with
  a generation that counts navigations, and per session a bounded list of events. Every method
  takes the registry's mutex once for what it changes, so it is a function of the registry. The
  URL parser, serde_json's printer, the texts of an id and the random id of a new session are
  arguments; a method that fails after it has changed the session returns the changed session.
\<close>

subsection \<open>Data\<close>

type_synonym preview_id = nat

datatype navigation_source = NavUser | NavRedirect

datatype preview_status = PreviewOpen | PreviewShut

datatype preview_event_kind =
    PvOpened str
  | PvNavigated navigation_source str
  | PvTitle str
  | PvLoadFailed str
  | PvClosed

record preview_event =
  pe_session :: preview_id
  pe_generation :: nat
  pe_sequence :: nat
  pe_kind :: preview_event_kind

record preview_session =
  ps_id :: preview_id
  ps_generation :: nat
  ps_status :: preview_status
  ps_url :: str
  ps_title :: str
  ps_events :: "preview_event list"
  ps_event_bytes :: nat
  ps_next_sequence :: nat
  ps_dropped :: nat

record preview_window =
  window_label :: str
  window_url :: str

record preview_snapshot =
  snap_id :: preview_id
  snap_generation :: nat
  snap_status :: preview_status
  snap_url :: str
  snap_title :: str
  snap_window :: preview_window
  snap_dropped :: nat

record navigation_request =
  nav_session :: preview_id
  nav_generation :: nat
  nav_source :: navigation_source
  nav_url :: str

text \<open>What the code takes from outside: the two printed forms of a UUID, parser and printer.\<close>

record preview_env =
  pv_parse :: "str \<Rightarrow> parsed_url option"
  pv_to_vec :: "json \<Rightarrow> bytes option"
  pv_uuid :: "preview_id \<Rightarrow> str"
  pv_uuid_simple :: "preview_id \<Rightarrow> str"
  pv_limits :: preview_limits

type_synonym preview_registry = "(preview_id \<times> preview_session) list"

fun source_name :: "navigation_source \<Rightarrow> str" where
  "source_name NavUser = ''user''"
| "source_name NavRedirect = ''redirect''"

fun kind_value :: "preview_event_kind \<Rightarrow> json" where
  "kind_value (PvOpened url) = JObj (obj_of [(''type'', JStr ''opened''), (''url'', JStr url)])"
| "kind_value (PvNavigated source url) = JObj (obj_of [(''type'', JStr ''navigation_committed''),
     (''source'', JStr (source_name source)), (''url'', JStr url)])"
| "kind_value (PvTitle title) = JObj (obj_of [(''type'', JStr ''title_changed''), (''title'', JStr title)])"
| "kind_value (PvLoadFailed m) = JObj (obj_of [(''type'', JStr ''load_failed''), (''message'', JStr m)])"
| "kind_value PvClosed = JObj (obj_of [(''type'', JStr ''closed'')])"

definition preview_event_value :: "preview_env \<Rightarrow> preview_event \<Rightarrow> json" where
  "preview_event_value en e = JObj (obj_of
     [(''session_id'', JStr (pv_uuid en (pe_session e))),
      (''generation'', JNum (PosInt (pe_generation e))),
      (''sequence'', JNum (PosInt (pe_sequence e))),
      (''kind'', kind_value (pe_kind e))])"

definition encoded_bytes :: "preview_env \<Rightarrow> preview_event \<Rightarrow> nat" where
  "encoded_bytes en e =
     (case pv_to_vec en (preview_event_value en e) of None \<Rightarrow> usize_max | Some b \<Rightarrow> length b)"

definition window_spec :: "preview_env \<Rightarrow> preview_id \<Rightarrow> str \<Rightarrow> preview_window" where
  "window_spec en i url = \<lparr>window_label = ''preview_'' @ pv_uuid_simple en i, window_url = url\<rparr>"

definition snapshot_state :: "preview_env \<Rightarrow> preview_session \<Rightarrow> preview_snapshot" where
  "snapshot_state en s = \<lparr>snap_id = ps_id s, snap_generation = ps_generation s,
     snap_status = ps_status s, snap_url = ps_url s, snap_title = ps_title s,
     snap_window = window_spec en (ps_id s) (ps_url s), snap_dropped = ps_dropped s\<rparr>"

subsection \<open>Events of a session\<close>

fun drop_oldest ::
    "preview_env \<Rightarrow> nat \<Rightarrow> nat \<Rightarrow> nat \<Rightarrow> preview_event list \<Rightarrow> nat \<times> nat \<times> preview_event list" where
  "drop_oldest en payload bytes dropped [] = (bytes, dropped, [])"
| "drop_oldest en payload bytes dropped (e # es) =
     (if pl_max_event_count (pv_limits en) \<le> length (e # es)
         \<or> pl_max_queue_bytes (pv_limits en) < sat_add bytes payload
      then drop_oldest en payload (bytes - encoded_bytes en e) (sat_add dropped 1) es
      else (bytes, dropped, e # es))"

definition push_preview_event ::
    "preview_env \<Rightarrow> preview_event_kind \<Rightarrow> preview_session
      \<Rightarrow> (preview_error + preview_event) \<times> preview_session" where
  "push_preview_event en kind s =
     (case checked_add64 (ps_next_sequence s) 1 of
        None \<Rightarrow> (Inl PSequenceExhausted, s)
      | Some sequence \<Rightarrow>
          let event = \<lparr>pe_session = ps_id s, pe_generation = ps_generation s,
                pe_sequence = ps_next_sequence s, pe_kind = kind\<rparr>;
              payload = encoded_bytes en event
          in if pl_max_payload_bytes (pv_limits en) < payload then (Inl PEventPayloadTooLarge, s)
             else let (bytes, dropped, events) =
                        drop_oldest en payload (ps_event_bytes s) (ps_dropped s) (ps_events s);
                      s1 = s\<lparr>ps_next_sequence := sequence, ps_event_bytes := bytes,
                        ps_dropped := dropped, ps_events := events\<rparr>
                  in if pl_max_queue_bytes (pv_limits en) < sat_add bytes payload
                     then (Inl PEventQueueFull, s1)
                     else (Inr event, s1\<lparr>ps_event_bytes := sat_add bytes payload,
                                        ps_events := events @ [event]\<rparr>))"

text \<open>\<open>truncate_utf8\<close>: back to the last character boundary.\<close>

fun boundary_at_most :: "str \<Rightarrow> nat \<Rightarrow> nat" where
  "boundary_at_most s 0 = 0"
| "boundary_at_most s (Suc n) = (if is_char_boundary s (Suc n) then Suc n else boundary_at_most s n)"

definition truncate_utf8 :: "str \<Rightarrow> nat \<Rightarrow> str" where
  "truncate_utf8 value max_bytes =
     (if length value \<le> max_bytes then value else take (boundary_at_most value max_bytes) value)"

definition preview_next_generation :: "nat \<Rightarrow> preview_error + nat" where
  "preview_next_generation current = ok_or (checked_add64 current 1) PGenerationExhausted"

subsection \<open>The registry\<close>

definition put_session :: "preview_session \<Rightarrow> preview_registry \<Rightarrow> preview_registry" where
  "put_session s r = map (\<lambda>(i, t). if i = ps_id s then (i, s) else (i, t)) r"

definition active_previews :: "preview_registry \<Rightarrow> nat" where
  "active_previews r = length (List.filter (\<lambda>(i, s). ps_status s = PreviewOpen) r)"

definition open_session ::
    "preview_id \<Rightarrow> nat \<Rightarrow> preview_registry \<Rightarrow> preview_error + preview_session" where
  "open_session i generation r =
     and_then (ok_or (map_of r i) PSessionNotFound) (\<lambda>s.
       if ps_status s = PreviewShut then Inl PSessionClosed
       else if ps_generation s \<noteq> generation then Inl PStaleGeneration
       else Inr s)"

definition preview_open ::
    "preview_env \<Rightarrow> preview_id \<Rightarrow> str \<Rightarrow> preview_registry
      \<Rightarrow> (preview_error + preview_snapshot \<times> preview_window) \<times> preview_registry" where
  "preview_open en i raw r =
     (case validate_preview_url (pv_parse en) (pv_limits en) raw of
        Inl e \<Rightarrow> (Inl e, r)
      | Inr url \<Rightarrow>
          if pl_max_sessions (pv_limits en) \<le> active_previews r then (Inl PSessionLimit, r)
          else (case push_preview_event en (PvOpened url)
                  \<lparr>ps_id = i, ps_generation = 1, ps_status = PreviewOpen, ps_url = url,
                   ps_title = [], ps_events = [], ps_event_bytes = 0, ps_next_sequence = 1,
                   ps_dropped = 0\<rparr> of
              (Inl e, _) \<Rightarrow> (Inl e, r)
            | (Inr _, s) \<Rightarrow> (Inr (snapshot_state en s, window_spec en i url), r @ [(i, s)])))"

definition preview_navigation_request ::
    "preview_env \<Rightarrow> preview_id \<Rightarrow> nat \<Rightarrow> navigation_source \<Rightarrow> str \<Rightarrow> preview_registry
      \<Rightarrow> preview_error + navigation_request" where
  "preview_navigation_request en i generation source raw r =
     and_then (validate_preview_url (pv_parse en) (pv_limits en) raw) (\<lambda>url.
     and_then (open_session i generation r) (\<lambda>_.
     Inr \<lparr>nav_session = i, nav_generation = generation, nav_source = source, nav_url = url\<rparr>))"

definition commit_navigation_event ::
    "preview_env \<Rightarrow> navigation_request \<Rightarrow> preview_registry
      \<Rightarrow> (preview_error + preview_event) \<times> preview_registry" where
  "commit_navigation_event en req r =
     (case open_session (nav_session req) (nav_generation req) r of
        Inl e \<Rightarrow> (Inl e, r)
      | Inr s \<Rightarrow>
          (case preview_next_generation (ps_generation s) of
             Inl e \<Rightarrow> (Inl e, r)
           | Inr generation \<Rightarrow>
               let (result, s') = push_preview_event en (PvNavigated (nav_source req) (nav_url req))
                     (s\<lparr>ps_generation := generation, ps_url := nav_url req, ps_title := []\<rparr>)
               in (result, put_session s' r)))"

definition preview_snapshot_of ::
    "preview_env \<Rightarrow> preview_id \<Rightarrow> preview_registry \<Rightarrow> preview_error + preview_snapshot" where
  "preview_snapshot_of en i r =
     and_then (ok_or (map_of r i) PSessionNotFound) (\<lambda>s. Inr (snapshot_state en s))"

definition preview_navigate ::
    "preview_env \<Rightarrow> preview_id \<Rightarrow> nat \<Rightarrow> navigation_source \<Rightarrow> str \<Rightarrow> preview_registry
      \<Rightarrow> (preview_error + preview_snapshot) \<times> preview_registry" where
  "preview_navigate en i generation source raw r =
     (case preview_navigation_request en i generation source raw r of
        Inl e \<Rightarrow> (Inl e, r)
      | Inr req \<Rightarrow>
          (case commit_navigation_event en req r of
             (Inl e, r') \<Rightarrow> (Inl e, r')
           | (Inr _, r') \<Rightarrow> (preview_snapshot_of en i r', r')))"

definition callback_navigation ::
    "preview_env \<Rightarrow> preview_id \<Rightarrow> nat \<Rightarrow> str \<Rightarrow> preview_registry
      \<Rightarrow> (preview_error + preview_event) \<times> preview_registry" where
  "callback_navigation en i generation raw r =
     (case preview_navigation_request en i generation NavRedirect raw r of
        Inl e \<Rightarrow> (Inl e, r)
      | Inr req \<Rightarrow> commit_navigation_event en req r)"

definition callback_title ::
    "preview_env \<Rightarrow> preview_id \<Rightarrow> nat \<Rightarrow> str \<Rightarrow> preview_registry
      \<Rightarrow> (preview_error + preview_event) \<times> preview_registry" where
  "callback_title en i generation title r =
     (case open_session i generation r of
        Inl e \<Rightarrow> (Inl e, r)
      | Inr s \<Rightarrow>
          let title = truncate_utf8 title (pl_max_title_bytes (pv_limits en));
              (result, s') = push_preview_event en (PvTitle title) (s\<lparr>ps_title := title\<rparr>)
          in (result, put_session s' r))"

definition callback_load_error ::
    "preview_env \<Rightarrow> preview_id \<Rightarrow> nat \<Rightarrow> str \<Rightarrow> preview_registry
      \<Rightarrow> (preview_error + preview_event) \<times> preview_registry" where
  "callback_load_error en i generation m r =
     (case open_session i generation r of
        Inl e \<Rightarrow> (Inl e, r)
      | Inr s \<Rightarrow>
          let (result, s') = push_preview_event en
                (PvLoadFailed (truncate_utf8 m (pl_max_error_bytes (pv_limits en)))) s
          in (result, put_session s' r))"

definition preview_close ::
    "preview_env \<Rightarrow> preview_id \<Rightarrow> preview_registry
      \<Rightarrow> (preview_error + preview_snapshot) \<times> preview_registry" where
  "preview_close en i r =
     (case map_of r i of
        None \<Rightarrow> (Inl PSessionNotFound, r)
      | Some s \<Rightarrow>
          if ps_status s = PreviewOpen then
            (case push_preview_event en PvClosed (s\<lparr>ps_status := PreviewShut\<rparr>) of
               (Inl e, s') \<Rightarrow> (Inl e, put_session s' r)
             | (Inr _, s') \<Rightarrow> (Inr (snapshot_state en s'), put_session s' r))
          else (Inr (snapshot_state en s), r))"

fun take_events ::
    "preview_env \<Rightarrow> nat \<Rightarrow> nat \<Rightarrow> preview_event list \<Rightarrow> preview_event list \<times> nat \<times> preview_event list" where
  "take_events en 0 bytes es = ([], bytes, es)"
| "take_events en (Suc n) bytes [] = ([], bytes, [])"
| "take_events en (Suc n) bytes (e # es) =
     (let (taken, bytes', rest) = take_events en n (bytes - encoded_bytes en e) es
      in (e # taken, bytes', rest))"

definition drain_events ::
    "preview_env \<Rightarrow> preview_id \<Rightarrow> nat \<Rightarrow> preview_registry
      \<Rightarrow> (preview_error + preview_event list) \<times> preview_registry" where
  "drain_events en i max_events r =
     (case map_of r i of
        None \<Rightarrow> (Inl PSessionNotFound, r)
      | Some s \<Rightarrow>
          let count = min max_events (pl_max_event_count (pv_limits en));
              (taken, bytes, rest) = take_events en count (ps_event_bytes s) (ps_events s)
          in (Inr taken, put_session (s\<lparr>ps_events := rest, ps_event_bytes := bytes\<rparr>) r))"

fun close_previews ::
    "preview_env \<Rightarrow> preview_id list \<Rightarrow> preview_registry \<Rightarrow> (preview_error + unit) \<times> preview_registry" where
  "close_previews en [] r = (Inr (), r)"
| "close_previews en (i # rest) r =
     (case preview_close en i r of
        (Inl e, r') \<Rightarrow> (Inl e, r')
      | (Inr _, r') \<Rightarrow> close_previews en rest r')"

definition preview_shutdown ::
    "preview_env \<Rightarrow> preview_registry \<Rightarrow> (preview_error + unit) \<times> preview_registry" where
  "preview_shutdown en r =
     close_previews en (map fst (List.filter (\<lambda>(i, s). ps_status s = PreviewOpen) r)) r"

end
