(* ===== verification/Ja_Preview_Safety.thy ===== *)
theory Ja_Preview_Safety
  imports Ja_Preview
begin

text \<open>
  What holds of the preview registry whatever the user, the pages and the clock do: its bounds and
  the order of each session's events, that every address it holds has passed the policy, and that
  a callback of a page the session has left changes nothing.
\<close>

subsection \<open>Sessions\<close>

definition event_bytes :: "preview_env \<Rightarrow> preview_event list \<Rightarrow> nat" where
  "event_bytes en es = sum_list (map (encoded_bytes en) es)"

lemma event_bytes_simps [simp]:
  "event_bytes en [] = 0" "event_bytes en (e # es) = encoded_bytes en e + event_bytes en es"
  "event_bytes en (es @ fs) = event_bytes en es + event_bytes en fs"
  by (simp_all add: event_bytes_def)

definition admitted :: "preview_env \<Rightarrow> str \<Rightarrow> bool" where
  "admitted en url \<longleftrightarrow> (\<exists>raw. validate_preview_url (pv_parse en) (pv_limits en) raw = Inr url)"

fun kind_admitted :: "preview_env \<Rightarrow> preview_event_kind \<Rightarrow> bool" where
  "kind_admitted en (PvOpened url) = admitted en url"
| "kind_admitted en (PvNavigated _ url) = admitted en url"
| "kind_admitted en _ = True"

definition preview_limits_ok :: "preview_limits \<Rightarrow> bool" where
  "preview_limits_ok l \<longleftrightarrow> preview_limits_validate l = Inr l"

lemma preview_limits_bounds:
  assumes "preview_limits_ok l"
  shows "0 < pl_max_sessions l" "0 < pl_max_event_count l" "pl_max_queue_bytes l < usize_max"
    "pl_max_payload_bytes l \<le> pl_max_queue_bytes l" "pl_max_queue_bytes l \<le> 64 * 1024 * 1024"
proof -
  have raw: "0 < pl_max_sessions l" "0 < pl_max_event_count l" "pl_max_queue_bytes l \<le> 64 * 1024 * 1024"
    "pl_max_payload_bytes l \<le> pl_max_queue_bytes l"
    using assms unfolding preview_limits_ok_def preview_limits_validate_def guard_Inr' by blast+
  then show "0 < pl_max_sessions l" "0 < pl_max_event_count l" "pl_max_queue_bytes l < usize_max"
    "pl_max_payload_bytes l \<le> pl_max_queue_bytes l" "pl_max_queue_bytes l \<le> 64 * 1024 * 1024"
    by (simp_all add: usize_max_def)
qed

definition session_good :: "preview_env \<Rightarrow> preview_id \<Rightarrow> preview_session \<Rightarrow> bool" where
  "session_good en i s \<longleftrightarrow>
     ps_id s = i \<and> ps_event_bytes s = event_bytes en (ps_events s)
     \<and> ps_event_bytes s \<le> pl_max_queue_bytes (pv_limits en)
     \<and> length (ps_events s) \<le> pl_max_event_count (pv_limits en)
     \<and> sorted_wrt (\<lambda>a b. pe_sequence a < pe_sequence b) (ps_events s)
     \<and> (\<forall>e \<in> set (ps_events s). pe_session e = i \<and> pe_sequence e < ps_next_sequence s
          \<and> pe_generation e \<le> ps_generation s \<and> kind_admitted en (pe_kind e))
     \<and> admitted en (ps_url s)"

lemma drop_oldest_spec:
  assumes "drop_oldest en p b d es = (b', d', es')" and "b = event_bytes en es"
    and "pl_max_queue_bytes (pv_limits en) < usize_max"
  shows "b' = event_bytes en es' \<and> suffix es' es \<and> (es' = [] \<or>
    (length es' < pl_max_event_count (pv_limits en) \<and> b' + p \<le> pl_max_queue_bytes (pv_limits en)))"
  using assms
proof (induction es arbitrary: b d)
  case Nil
  then show ?case by simp
next
  case (Cons e es)
  show ?case
  proof (cases "pl_max_event_count (pv_limits en) \<le> length (e # es)
      \<or> pl_max_queue_bytes (pv_limits en) < sat_add b p")
    case True
    then have "drop_oldest en p (b - encoded_bytes en e) (sat_add d 1) es = (b', d', es')"
      using Cons.prems(1) by simp
    from Cons.IH [OF this] Cons.prems(2,3) show ?thesis
      by (auto intro: suffix_ConsI)
  next
    case False
    with Cons.prems show ?thesis by (auto simp: sat_add_less_iff)
  qed
qed

text \<open>A push keeps the session good and fails only for the sequence or the payload.\<close>

lemma push_preview_spec:
  assumes "session_good en i s" and "preview_limits_ok (pv_limits en)" and "kind_admitted en k"
    and "push_preview_event en k s = (r, s')"
  shows "session_good en i s'" and "ps_generation s' = ps_generation s"
    and "ps_status s' = ps_status s" and "ps_next_sequence s \<le> ps_next_sequence s'"
    and "r = Inl e \<Longrightarrow> e = PSequenceExhausted \<or> e = PEventPayloadTooLarge"
proof -
  have lim: "0 < pl_max_event_count (pv_limits en)" "pl_max_queue_bytes (pv_limits en) < usize_max"
    "pl_max_payload_bytes (pv_limits en) \<le> pl_max_queue_bytes (pv_limits en)"
    using preview_limits_bounds [OF assms(2)] by blast+
  let ?e = "\<lparr>pe_session = ps_id s, pe_generation = ps_generation s,
    pe_sequence = ps_next_sequence s, pe_kind = k\<rparr>"
  let ?p = "encoded_bytes en ?e"
  obtain b d es where dr: "drop_oldest en ?p (ps_event_bytes s) (ps_dropped s) (ps_events s) = (b, d, es)"
    by (cases "drop_oldest en ?p (ps_event_bytes s) (ps_dropped s) (ps_events s)")
  have bytes: "ps_event_bytes s = event_bytes en (ps_events s)"
    using assms(1) by (simp add: session_good_def)
  note spec = drop_oldest_spec [OF dr bytes lim(2)]
  consider (exhausted) "r = Inl PSequenceExhausted" "s' = s"
    | (large) "r = Inl PEventPayloadTooLarge" "s' = s"
    | (pushed) "r = Inr ?e" "?p \<le> pl_max_payload_bytes (pv_limits en)"
        "s' = s\<lparr>ps_next_sequence := ps_next_sequence s + 1, ps_event_bytes := b + ?p,
          ps_dropped := d, ps_events := es @ [?e]\<rparr>"
        "b + ?p \<le> pl_max_queue_bytes (pv_limits en)"
  proof (cases "checked_add64 (ps_next_sequence s) 1")
    case None
    with assms(4) show ?thesis by (intro exhausted) (simp_all add: push_preview_event_def)
  next
    case (Some n)
    then have n: "n = ps_next_sequence s + 1" by (simp add: checked_add64_Some)
    show ?thesis
    proof (cases "pl_max_payload_bytes (pv_limits en) < ?p")
      case True
      with Some assms(4) show ?thesis
        by (intro large) (simp_all add: push_preview_event_def Let_def)
    next
      case False
      have room: "b + ?p \<le> pl_max_queue_bytes (pv_limits en)"
        using spec False lim(3) by auto
      then have sum: "sat_add b ?p = b + ?p"
        using lim(2) by (simp add: sat_add_def)
      have "push_preview_event en k s = (Inr ?e, s\<lparr>ps_next_sequence := ps_next_sequence s + 1,
          ps_event_bytes := b + ?p, ps_dropped := d, ps_events := es @ [?e]\<rparr>)"
        using False Some dr room n sum by (simp add: push_preview_event_def Let_def)
      with assms(4) False room show ?thesis
        by (intro pushed) simp_all
    qed
  qed
  then have all: "session_good en i s' \<and> ps_generation s' = ps_generation s
      \<and> ps_status s' = ps_status s \<and> ps_next_sequence s \<le> ps_next_sequence s'
      \<and> (r = Inl e \<longrightarrow> e = PSequenceExhausted \<or> e = PEventPayloadTooLarge)"
  proof cases
    case pushed
    have sub: "set es \<subseteq> set (ps_events s)"
      using spec by (auto dest: set_mono_suffix)
    have sorted: "sorted_wrt (\<lambda>a b. pe_sequence a < pe_sequence b) es"
      using spec assms(1) by (auto simp: session_good_def suffix_def sorted_wrt_append)
    have len: "length es < pl_max_event_count (pv_limits en)"
      using spec lim(1) by auto
    have good: "\<forall>x \<in> set es. pe_session x = i \<and> pe_sequence x < ps_next_sequence s
        \<and> pe_generation x \<le> ps_generation s \<and> kind_admitted en (pe_kind x)"
      using sub assms(1) by (auto simp: session_good_def)
    have "session_good en i s'"
      using assms(1,3) pushed spec sorted len good
      by (auto simp: session_good_def sorted_wrt_append)
    then show ?thesis using pushed by simp
  qed (use assms(1) in auto)
  then show "session_good en i s'" "ps_generation s' = ps_generation s" "ps_status s' = ps_status s"
    "ps_next_sequence s \<le> ps_next_sequence s'"
    "r = Inl e \<Longrightarrow> e = PSequenceExhausted \<or> e = PEventPayloadTooLarge"
    by auto
qed

lemma take_events_spec:
  "take_events en n b es = (xs, b', ys) \<Longrightarrow> b = event_bytes en es \<Longrightarrow>
     es = xs @ ys \<and> b' = event_bytes en ys \<and> xs = take n es"
proof (induction n arbitrary: b es xs b' ys)
  case 0
  then show ?case by auto
next
  case (Suc n)
  then show ?case
  proof (cases es)
    case (Cons e es')
    obtain xs' b1 ys' where rec: "take_events en n (b - encoded_bytes en e) es' = (xs', b1, ys')"
      by (cases "take_events en n (b - encoded_bytes en e) es'")
    have "b - encoded_bytes en e = event_bytes en es'"
      using Suc.prems(2) Cons by simp
    note ih = Suc.IH [OF rec this]
    have new: "xs = e # xs'" "b' = b1" "ys = ys'"
      using Suc.prems(1) rec unfolding Cons by simp_all
    show ?thesis
      unfolding Cons new using ih by (metis append_Cons take_Suc_Cons)
  qed (use Suc.prems in auto)
qed

subsection \<open>The registry\<close>

definition registry_good :: "preview_env \<Rightarrow> preview_registry \<Rightarrow> bool" where
  "registry_good en r \<longleftrightarrow> distinct (map fst r) \<and> (\<forall>(i, s) \<in> set r. session_good en i s)
     \<and> active_previews r \<le> pl_max_sessions (pv_limits en)"

text \<open>The order in which a registry grows: sessions stay, generations rise, closed ones stay closed.\<close>

definition registry_le :: "preview_registry \<Rightarrow> preview_registry \<Rightarrow> bool" where
  "registry_le r r' \<longleftrightarrow>
     (\<forall>i s. map_of r i = Some s \<longrightarrow> (\<exists>s'. map_of r' i = Some s' \<and> ps_generation s \<le> ps_generation s'
        \<and> ps_next_sequence s \<le> ps_next_sequence s'
        \<and> (ps_status s = PreviewShut \<longrightarrow> ps_status s' = PreviewShut)))"

lemma registry_le_refl [simp]: "registry_le r r"
  by (auto simp: registry_le_def)

lemma registry_le_trans: "registry_le a b \<Longrightarrow> registry_le b c \<Longrightarrow> registry_le a c"
  unfolding registry_le_def by (meson order.trans)

lemma put_session_keys [simp]: "map fst (put_session s r) = map fst r"
  by (auto simp: put_session_def)

lemma put_session_get:
  "map_of (put_session s r) i = (if i = ps_id s \<and> map_of r i \<noteq> None then Some s else map_of r i)"
  by (induction r) (auto simp: put_session_def)

lemma put_session_mem: "(i, t) \<in> set (put_session s r) \<Longrightarrow> (i, t) \<in> set r \<or> (i = ps_id s \<and> t = s)"
  by (auto simp: put_session_def split: if_splits)

lemma put_session_active:
  assumes "distinct (map fst r)" and "map_of r (ps_id s) = Some t"
    and "ps_status s = PreviewOpen \<Longrightarrow> ps_status t = PreviewOpen"
  shows "active_previews (put_session s r) \<le> active_previews r"
  using assms
proof (induction r)
  case Nil
  then show ?case by simp
next
  case (Cons x r)
  obtain i u where x: "x = (i, u)" by (cases x)
  show ?case
  proof (cases "i = ps_id s")
    case True
    then have "ps_id s \<notin> fst ` set r" and "t = u"
      using Cons.prems x by auto
    then have "put_session s r = r"
      by (force simp: put_session_def intro!: map_idI)
    then have "put_session s (x # r) = (i, s) # r"
      using x True by (simp add: put_session_def)
    then show ?thesis
      using Cons.prems(3) \<open>t = u\<close> x by (auto simp: active_previews_def)
  next
    case False
    then have "put_session s (x # r) = x # put_session s r"
      using x by (simp add: put_session_def)
    moreover have "active_previews (put_session s r) \<le> active_previews r"
      using Cons False x by auto
    ultimately show ?thesis by (simp add: active_previews_def)
  qed
qed

lemma put_good:
  assumes "registry_good en r" and "map_of r i = Some t" and "session_good en i s"
    and "ps_generation t \<le> ps_generation s" and "ps_next_sequence t \<le> ps_next_sequence s"
    and "ps_status t = PreviewShut \<Longrightarrow> ps_status s = PreviewShut"
  shows "registry_good en (put_session s r) \<and> registry_le r (put_session s r)"
proof
  have id: "ps_id s = i" using assms(3) by (simp add: session_good_def)
  have "ps_status t = PreviewOpen" if "ps_status s = PreviewOpen"
    using assms(6) that by (cases "ps_status t") auto
  then have "active_previews (put_session s r) \<le> active_previews r"
    using assms(1,2) id by (intro put_session_active) (auto simp: registry_good_def)
  then show "registry_good en (put_session s r)"
    using assms(1,3) id put_session_mem [of _ _ s r] by (fastforce simp: registry_good_def)
  show "registry_le r (put_session s r)"
    using assms(2,4-6) id by (auto simp: registry_le_def put_session_get)
qed

lemma registry_member: "registry_good en r \<Longrightarrow> map_of r i = Some s \<Longrightarrow> session_good en i s"
  by (auto simp: registry_good_def dest: map_of_SomeD)

lemma open_session_Inr:
  "open_session i g r = Inr s \<longleftrightarrow>
     map_of r i = Some s \<and> ps_status s = PreviewOpen \<and> ps_generation s = g"
proof (cases "map_of r i")
  case None
  then show ?thesis by (simp add: open_session_def)
next
  case (Some t)
  then show ?thesis
    by (cases "ps_status t") (auto simp: open_session_def)
qed

subsection \<open>The operations\<close>

abbreviation grown :: "preview_env \<Rightarrow> preview_registry \<Rightarrow> preview_registry \<Rightarrow> bool" where
  "grown en r r' \<equiv> registry_good en r' \<and> registry_le r r'"

text \<open>What most methods do: change a session and push an event to it.\<close>

lemma push_put:
  assumes "registry_good en r" and "preview_limits_ok (pv_limits en)" and "map_of r i = Some t"
    and "session_good en i s" and "kind_admitted en k"
    and "ps_generation t \<le> ps_generation s" and "ps_next_sequence t \<le> ps_next_sequence s"
    and "ps_status t = PreviewShut \<Longrightarrow> ps_status s = PreviewShut"
    and "push_preview_event en k s = (x, s')"
  shows "grown en r (put_session s' r)"
proof -
  note p = push_preview_spec [OF assms(4,2,5,9)]
  show ?thesis
    by (rule put_good [OF assms(1,3) p(1)]) (use assms(6-8) p(2-4) in auto)
qed

lemma commit_grown:
  assumes "registry_good en r" and "preview_limits_ok (pv_limits en)" and "admitted en (nav_url req)"
    and "commit_navigation_event en req r = (x, r')"
  shows "grown en r r'"
proof (cases "open_session (nav_session req) (nav_generation req) r")
  case (Inl e)
  with assms show ?thesis by (auto simp: commit_navigation_event_def)
next
  case (Inr s)
  then have s: "map_of r (nav_session req) = Some s" "ps_status s = PreviewOpen"
    by (simp_all add: open_session_Inr)
  show ?thesis
  proof (cases "preview_next_generation (ps_generation s)")
    case Inl
    with Inr assms(1,4) show ?thesis by (auto simp: commit_navigation_event_def)
  next
    case (Inr g)
    then have g: "g = ps_generation s + 1"
      by (auto simp: preview_next_generation_def result_iff checked_add64_Some)
    let ?s = "s\<lparr>ps_generation := g, ps_url := nav_url req, ps_title := []\<rparr>"
    let ?k = "PvNavigated (nav_source req) (nav_url req)"
    obtain y s' where push: "push_preview_event en ?k ?s = (y, s')"
      by (cases "push_preview_event en ?k ?s")
    have "session_good en (nav_session req) ?s"
      using registry_member [OF assms(1) s(1)] g assms(3) by (auto simp: session_good_def)
    from push_put [OF assms(1,2) s(1) this _ _ _ _ push] g s(2) assms(3)
    have "grown en r (put_session s' r)" by simp
    moreover have "r' = put_session s' r"
      using assms(4) push s Inr \<open>open_session (nav_session req) (nav_generation req) r = Inr s\<close>
      by (simp add: commit_navigation_event_def)
    ultimately show ?thesis by simp
  qed
qed

lemma request_admitted:
  "preview_navigation_request en i g source raw r = Inr req \<Longrightarrow>
     admitted en (nav_url req) \<and> nav_session req = i \<and> nav_generation req = g"
  by (auto simp: preview_navigation_request_def result_iff admitted_def)

lemma callback_grown:
  assumes "registry_good en r" and "preview_limits_ok (pv_limits en)"
  shows "grown en r (snd (callback_navigation en i g raw r))"
proof (cases "preview_navigation_request en i g NavRedirect raw r")
  case (Inl e)
  with assms show ?thesis by (simp add: callback_navigation_def)
next
  case (Inr req)
  obtain x r' where c: "commit_navigation_event en req r = (x, r')"
    by (cases "commit_navigation_event en req r")
  from request_admitted [OF Inr] commit_grown [OF assms _ c] Inr c show ?thesis
    by (simp add: callback_navigation_def)
qed

lemma navigate_grown:
  assumes "registry_good en r" and "preview_limits_ok (pv_limits en)"
  shows "grown en r (snd (preview_navigate en i g source raw r))"
proof (cases "preview_navigation_request en i g source raw r")
  case (Inl e)
  with assms show ?thesis by (simp add: preview_navigate_def)
next
  case (Inr req)
  obtain x r' where c: "commit_navigation_event en req r = (x, r')"
    by (cases "commit_navigation_event en req r")
  from request_admitted [OF Inr] commit_grown [OF assms _ c] Inr c show ?thesis
    by (cases x) (simp_all add: preview_navigate_def)
qed

lemma title_grown:
  assumes "registry_good en r" and "preview_limits_ok (pv_limits en)"
  shows "grown en r (snd (callback_title en i g title r))"
proof (cases "open_session i g r")
  case (Inl e)
  with assms show ?thesis by (simp add: callback_title_def)
next
  case (Inr s)
  then have s: "map_of r i = Some s" by (simp add: open_session_Inr)
  let ?t = "truncate_utf8 title (pl_max_title_bytes (pv_limits en))"
  obtain y s' where push: "push_preview_event en (PvTitle ?t) (s\<lparr>ps_title := ?t\<rparr>) = (y, s')"
    by (cases "push_preview_event en (PvTitle ?t) (s\<lparr>ps_title := ?t\<rparr>)")
  have "session_good en i (s\<lparr>ps_title := ?t\<rparr>)"
    using registry_member [OF assms(1) s] by (simp add: session_good_def)
  from push_put [OF assms s this _ _ _ _ push] Inr push show ?thesis
    by (simp add: callback_title_def)
qed

lemma load_error_grown:
  assumes "registry_good en r" and "preview_limits_ok (pv_limits en)"
  shows "grown en r (snd (callback_load_error en i g m r))"
proof (cases "open_session i g r")
  case (Inl e)
  with assms show ?thesis by (simp add: callback_load_error_def)
next
  case (Inr s)
  then have s: "map_of r i = Some s" by (simp add: open_session_Inr)
  let ?k = "PvLoadFailed (truncate_utf8 m (pl_max_error_bytes (pv_limits en)))"
  obtain y s' where push: "push_preview_event en ?k s = (y, s')"
    by (cases "push_preview_event en ?k s")
  from push_put [OF assms s registry_member [OF assms(1) s] _ _ _ _ push] Inr push show ?thesis
    by (simp add: callback_load_error_def)
qed

lemma close_grown:
  assumes "registry_good en r" and "preview_limits_ok (pv_limits en)"
  shows "grown en r (snd (preview_close en i r))"
proof (cases "map_of r i")
  case None
  with assms show ?thesis by (simp add: preview_close_def)
next
  case (Some s)
  let ?s = "s\<lparr>ps_status := PreviewShut\<rparr>"
  obtain y s' where push: "push_preview_event en PvClosed ?s = (y, s')"
    by (cases "push_preview_event en PvClosed ?s")
  have "session_good en i ?s"
    using registry_member [OF assms(1) Some] by (simp add: session_good_def)
  from push_put [OF assms Some this _ _ _ _ push] Some push assms(1) show ?thesis
    by (simp add: preview_close_def split: sum.splits)
qed

lemma drain_grown:
  assumes "registry_good en r"
  shows "grown en r (snd (drain_events en i n r))"
proof (cases "map_of r i")
  case None
  with assms show ?thesis by (simp add: drain_events_def)
next
  case (Some s)
  let ?n = "min n (pl_max_event_count (pv_limits en))"
  obtain xs b ys where take: "take_events en ?n (ps_event_bytes s) (ps_events s) = (xs, b, ys)"
    by (cases "take_events en ?n (ps_event_bytes s) (ps_events s)")
  have good: "session_good en i s" by (rule registry_member [OF assms Some])
  have bytes: "ps_event_bytes s = event_bytes en (ps_events s)"
    using good by (simp add: session_good_def)
  note spec = take_events_spec [OF take bytes]
  have split: "ps_events s = xs @ ys" "b = event_bytes en ys" using spec by blast+
  let ?s = "s\<lparr>ps_events := ys, ps_event_bytes := b\<rparr>"
  have "session_good en i ?s"
    using good bytes unfolding session_good_def split by (auto simp: sorted_wrt_append)
  from put_good [OF assms Some this] have "grown en r (put_session ?s r)" by simp
  then show ?thesis
    using Some take by (simp add: drain_events_def)
qed

lemma close_all_grown:
  assumes "registry_good en r" and "preview_limits_ok (pv_limits en)"
  shows "grown en r (snd (close_previews en is r))"
  using assms(1)
proof (induction "is" arbitrary: r)
  case Nil
  then show ?case by simp
next
  case (Cons i "is")
  obtain x r1 where c: "preview_close en i r = (x, r1)"
    by (cases "preview_close en i r")
  have g1: "grown en r r1"
    using close_grown [OF Cons.prems assms(2), of i] c by simp
  then have "grown en r1 (snd (close_previews en is r1))"
    using Cons.IH by blast
  then have "grown en r (snd (close_previews en is r1))"
    using g1 registry_le_trans by blast
  then show ?case
    using c g1 by (simp split: sum.splits)
qed

lemma open_grown:
  assumes "registry_good en r" and "preview_limits_ok (pv_limits en)" and "i \<notin> fst ` set r"
  shows "grown en r (snd (preview_open en i raw r))"
proof (cases "validate_preview_url (pv_parse en) (pv_limits en) raw")
  case (Inl e)
  with assms show ?thesis by (simp add: preview_open_def)
next
  case (Inr url)
  then have adm: "admitted en url" by (auto simp: admitted_def)
  let ?s = "\<lparr>ps_id = i, ps_generation = 1, ps_status = PreviewOpen, ps_url = url, ps_title = [],
    ps_events = [], ps_event_bytes = 0, ps_next_sequence = 1, ps_dropped = 0\<rparr>"
  obtain y s where push: "push_preview_event en (PvOpened url) ?s = (y, s)"
    by (cases "push_preview_event en (PvOpened url) ?s")
  have "session_good en i ?s"
    using adm by (simp add: session_good_def)
  from push_preview_spec [OF this assms(2) _ push] adm have s: "session_good en i s"
    "ps_status s = PreviewOpen" by simp_all
  show ?thesis
  proof (cases "active_previews r < pl_max_sessions (pv_limits en)")
    case True
    have "registry_good en (r @ [(i, s)])"
      using assms(1,3) s True by (auto simp: registry_good_def active_previews_def)
    moreover have "registry_le r (r @ [(i, s)])"
      by (auto simp: registry_le_def map_add_Some_iff)
    ultimately show ?thesis
      using assms(1) Inr True push by (simp add: preview_open_def split: sum.splits)
  next
    case False
    with assms(1) Inr show ?thesis by (simp add: preview_open_def)
  qed
qed

subsection \<open>Any sequence of operations\<close>

text \<open>The id of a new session is a fresh random UUID.\<close>

datatype preview_op =
    OpOpen preview_id str
  | OpNavigate preview_id nat navigation_source str
  | OpCallbackNavigation preview_id nat str
  | OpCallbackTitle preview_id nat str
  | OpCallbackLoadError preview_id nat str
  | OpClose preview_id
  | OpDrain preview_id nat
  | OpShutdown

fun preview_step :: "preview_env \<Rightarrow> preview_registry \<Rightarrow> preview_op \<Rightarrow> preview_registry" where
  "preview_step en r (OpOpen i raw) = (if i \<in> fst ` set r then r else snd (preview_open en i raw r))"
| "preview_step en r (OpNavigate i g source raw) = snd (preview_navigate en i g source raw r)"
| "preview_step en r (OpCallbackNavigation i g raw) = snd (callback_navigation en i g raw r)"
| "preview_step en r (OpCallbackTitle i g title) = snd (callback_title en i g title r)"
| "preview_step en r (OpCallbackLoadError i g m) = snd (callback_load_error en i g m r)"
| "preview_step en r (OpClose i) = snd (preview_close en i r)"
| "preview_step en r (OpDrain i n) = snd (drain_events en i n r)"
| "preview_step en r OpShutdown = snd (preview_shutdown en r)"

definition preview_inv :: "preview_env \<Rightarrow> preview_registry \<Rightarrow> bool" where
  "preview_inv en r \<longleftrightarrow> preview_limits_ok (pv_limits en) \<and> registry_good en r"

lemma preview_step_grown:
  "preview_inv en r \<Longrightarrow> grown en r (preview_step en r x)"
  using open_grown navigate_grown callback_grown title_grown load_error_grown close_grown drain_grown close_all_grown
  by (cases x) (auto simp: preview_inv_def preview_shutdown_def)

interpretation previews: growing "preview_step en" "preview_inv en" "\<lambda>r. r" registry_le
proof unfold_locales
  show "preview_inv en r \<Longrightarrow> preview_inv en (preview_step en r x)" for r x
    using preview_step_grown [of en r x] by (simp add: preview_inv_def)
  show "preview_inv en r \<Longrightarrow> registry_le r (preview_step en r x)" for r x
    using preview_step_grown [of en r x] by blast
qed (auto intro: registry_le_trans)

lemma preview_empty: "preview_limits_ok (pv_limits en) \<Longrightarrow> preview_inv en []"
  by (simp add: preview_inv_def registry_good_def active_previews_def)

text \<open>
  In every history of opening, navigating, callbacks, closing, draining and shutdown, at most
  the allowed number of previews is open; every session, open or closed, holds at most the allowed
  number of events and bytes, its byte count is exact, its events are its own in strictly growing
  order of sequence, none from a later generation, and its address and those of its events have
  passed the URL policy.
\<close>

theorem preview_registry_bounded:
  assumes "preview_limits_ok (pv_limits en)" and "r = foldl (preview_step en) [] ops"
  shows "active_previews r \<le> pl_max_sessions (pv_limits en) \<and> distinct (map fst r)
    \<and> (\<forall>(i, s) \<in> set r.
         length (ps_events s) \<le> pl_max_event_count (pv_limits en)
         \<and> ps_event_bytes s = sum_list (map (encoded_bytes en) (ps_events s))
         \<and> ps_event_bytes s \<le> pl_max_queue_bytes (pv_limits en)
         \<and> sorted_wrt (\<lambda>a b. pe_sequence a < pe_sequence b) (ps_events s)
         \<and> (\<forall>e \<in> set (ps_events s). pe_session e = i \<and> pe_generation e \<le> ps_generation s
              \<and> kind_admitted en (pe_kind e))
         \<and> (\<exists>raw. validate_preview_url (pv_parse en) (pv_limits en) raw = Inr (ps_url s)))"
proof -
  have "preview_inv en r"
    unfolding assms(2) by (rule previews.run_inv [OF preview_empty [OF assms(1)]])
  then show ?thesis
    by (auto simp: preview_inv_def registry_good_def session_good_def event_bytes_def admitted_def)
qed

definition sample_preview_env :: preview_env where
  "sample_preview_env = \<lparr>pv_parse = (\<lambda>_. Some sample_url), pv_to_vec = (\<lambda>_. Some ''{}''),
     pv_uuid = (\<lambda>_. ''u''), pv_uuid_simple = (\<lambda>_. ''u''), pv_limits = preview_limits_default\<rparr>"

lemma sample_preview_limits: "preview_limits_ok (pv_limits sample_preview_env)"
  by (simp add: sample_preview_env_def preview_limits_ok_def preview_limits_validate_def
      preview_limits_default_def)

theorem preview_registry_bounded_witness:
  "active_previews (foldl (preview_step sample_preview_env) [] [OpOpen 5 ''HTTP://h/%20''])
     \<le> pl_max_sessions (pv_limits sample_preview_env)"
  using preview_registry_bounded [OF sample_preview_limits refl] by blast

text \<open>
  C11. Once a page's navigation from generation \<open>g\<close> has been committed, no callback that still
  carries \<open>g\<close> or an earlier generation of that session has any effect, whatever happens in
  between: a title, a load error and a navigation are refused as stale or closed (or, for a
  navigation, by the URL policy) and leave the registry as it is.
\<close>

theorem stale_page_ignored:
  assumes "preview_limits_ok (pv_limits en)" and "r = foldl (preview_step en) [] before"
    and "callback_navigation en i g raw r = (Inr event, r1)"
    and "r2 = foldl (preview_step en) r1 between" and "old \<le> g"
  shows "(\<exists>e. e \<in> {PStaleGeneration, PSessionClosed}
      \<and> callback_title en i old title r2 = (Inl e, r2)
      \<and> callback_load_error en i old message r2 = (Inl e, r2))
    \<and> (\<exists>e. callback_navigation en i old raw' r2 = (Inl e, r2))"
proof -
  have inv: "preview_inv en r"
    unfolding assms(2) by (rule previews.run_inv [OF preview_empty [OF assms(1)]])
  from assms(3) obtain req where req: "preview_navigation_request en i g NavRedirect raw r = Inr req"
    and commit: "commit_navigation_event en req r = (Inr event, r1)"
    by (auto simp: callback_navigation_def split: sum.splits)
  note adm = request_admitted [OF req]
  from commit adm obtain s where s: "open_session i g r = Inr s"
    by (auto simp: commit_navigation_event_def split: sum.splits)
  then have get: "map_of r i = Some s" "ps_generation s = g" "ps_id s = i"
    using inv registry_member [of en r i s]
    by (auto simp: open_session_Inr preview_inv_def session_good_def)
  from commit s adm obtain g1 s' where g1: "preview_next_generation g = Inr g1"
    and push: "push_preview_event en (PvNavigated (nav_source req) (nav_url req))
      (s\<lparr>ps_generation := g1, ps_url := nav_url req, ps_title := []\<rparr>) = (Inr event, s')"
    and r1: "r1 = put_session s' r"
    using get(2) by (auto simp: commit_navigation_event_def split: sum.splits prod.splits)
  have "g < g1"
    using g1 by (auto simp: preview_next_generation_def result_iff checked_add64_Some)
  have "session_good en i (s\<lparr>ps_generation := g1, ps_url := nav_url req, ps_title := []\<rparr>)"
    using registry_member [OF _ get(1)] inv adm get(2) \<open>g < g1\<close>
    by (fastforce simp: preview_inv_def session_good_def)
  from push_preview_spec(1,2) [OF this assms(1) _ push] adm
  have "ps_generation s' = g1" "ps_id s' = i"
    by (auto simp: session_good_def)
  then have "map_of r1 i = Some s'"
    using r1 get by (simp add: put_session_get)
  moreover have "preview_inv en r1"
    using previews.step_inv [OF inv, of "OpCallbackNavigation i g raw"] assms(3) by simp
  then have "registry_le r1 r2"
    unfolding assms(4) by (rule previews.run_le)
  ultimately obtain t where t: "map_of r2 i = Some t" "g1 \<le> ps_generation t"
    using \<open>ps_generation s' = g1\<close> by (auto simp: registry_le_def)
  obtain e where e: "e \<in> {PStaleGeneration, PSessionClosed}" "open_session i old r2 = Inl e"
    using t \<open>g < g1\<close> assms(5) by (cases "ps_status t") (auto simp: open_session_def)
  then have "callback_title en i old title r2 = (Inl e, r2)"
    "callback_load_error en i old message r2 = (Inl e, r2)"
    by (simp_all add: callback_title_def callback_load_error_def)
  moreover have "\<exists>e. callback_navigation en i old raw' r2 = (Inl e, r2)"
    using e(2) by (cases "validate_preview_url (pv_parse en) (pv_limits en) raw'")
      (auto simp: callback_navigation_def preview_navigation_request_def)
  ultimately show ?thesis using e(1) by blast
qed

definition sample_opened :: preview_session where
  "sample_opened = \<lparr>ps_id = 5, ps_generation = 1, ps_status = PreviewOpen, ps_url = ''http://h/'',
     ps_title = [], ps_events = [\<lparr>pe_session = 5, pe_generation = 1, pe_sequence = 1,
       pe_kind = PvOpened ''http://h/''\<rparr>],
     ps_event_bytes = 2, ps_next_sequence = 2, ps_dropped = 0\<rparr>"

lemma sample_preview_valid:
  "validate_preview_url (pv_parse sample_preview_env) (pv_limits sample_preview_env) ''HTTP://h/%20''
     = Inr ''http://h/''"
  using sample_url_valid by (simp add: sample_preview_env_def)

lemma sample_encoded [simp]: "encoded_bytes sample_preview_env e = 2"
  by (simp add: encoded_bytes_def sample_preview_env_def)

lemma sample_budgets [simp]:
  "pl_max_sessions (pv_limits sample_preview_env) = 8"
  "pl_max_event_count (pv_limits sample_preview_env) = 512"
  "pl_max_payload_bytes (pv_limits sample_preview_env) = 65536"
  "pl_max_queue_bytes (pv_limits sample_preview_env) = 2097152"
  by (simp_all add: sample_preview_env_def preview_limits_default_def)

lemma sample_open:
  "foldl (preview_step sample_preview_env) [] [OpOpen 5 ''HTTP://h/%20''] = [(5, sample_opened)]"
  by (simp add: preview_open_def sample_preview_valid push_preview_event_def checked_add64_def u64_max_def
      sample_opened_def active_previews_def sat_add_def usize_max_def Let_def)

definition sample_navigated :: "preview_event \<times> preview_session" where
  "sample_navigated =
     (let e = \<lparr>pe_session = 5, pe_generation = 2, pe_sequence = 2,
            pe_kind = PvNavigated NavRedirect ''http://h/''\<rparr>
      in (e, sample_opened\<lparr>ps_generation := 2, ps_events := ps_events sample_opened @ [e],
            ps_event_bytes := 4, ps_next_sequence := 3\<rparr>))"

lemma sample_navigation:
  "callback_navigation sample_preview_env 5 1 ''HTTP://h/%20'' [(5, sample_opened)]
     = (Inr (fst sample_navigated), [(5, snd sample_navigated)])"
  by (simp add: callback_navigation_def preview_navigation_request_def sample_preview_valid
      open_session_def commit_navigation_event_def push_preview_event_def checked_add64_def
      u64_max_def sample_opened_def sat_add_def usize_max_def preview_next_generation_def put_session_def
      sample_navigated_def Let_def)

theorem stale_page_ignored_witness:
  "\<exists>e. e \<in> {PStaleGeneration, PSessionClosed} \<and>
     callback_title sample_preview_env 5 1 ''late'' [(5, snd sample_navigated)]
       = (Inl e, [(5, snd sample_navigated)])"
  using stale_page_ignored [OF sample_preview_limits sample_open [symmetric] sample_navigation,
      of "[(5, snd sample_navigated)]" "[]" 1 "''late''" "''m''" "''u''"]
  by auto

text \<open>A closed preview is never taken out of the registry, so it keeps its events for ever.\<close>

theorem closed_previews_kept:
  assumes "preview_limits_ok (pv_limits en)" and "r = foldl (preview_step en) [] before"
    and "map_of r i = Some s"
  shows "\<exists>s'. map_of (foldl (preview_step en) r later) i = Some s'"
proof -
  have "preview_inv en r"
    unfolding assms(2) by (rule previews.run_inv [OF preview_empty [OF assms(1)]])
  from previews.run_le [OF this, of later] assms(3) show ?thesis
    by (auto simp: registry_le_def)
qed

end
