(* ===== verification/Ja_History.thy ===== *)
theory Ja_History
  imports Ja_Projection Ja_Settings_Cas
begin

text \<open>
  The history commands (\<open>app_runtime/history.rs\<close>): the four inputs a WebView may send, read by
  hand-written deserializers that ignore unknown fields and mark an explicit null, their
  validation and what of them is forwarded, and the parsers of the sidecar's results. A
  deserializer's failure, whose text only serde shows, is None.
\<close>

subsection \<open>Methods and limits\<close>

datatype history_method = WorkspaceList | ThreadCreate | ThreadList | ThreadRead

fun history_wire_name :: "history_method \<Rightarrow> str" where
  "history_wire_name WorkspaceList = ''workspace/list''"
| "history_wire_name ThreadCreate = ''thread/create''"
| "history_wire_name ThreadList = ''thread/list''"
| "history_wire_name ThreadRead = ''thread/read''"

definition max_workspace_id :: nat where "max_workspace_id = 99"
definition max_thread_id :: nat where "max_thread_id = 100"
definition max_profile_revision :: nat where "max_profile_revision = 104"
definition max_turn_id :: nat where "max_turn_id = 101"
definition max_item_id :: nat where "max_item_id = 101"
definition max_server_instance_id :: nat where "max_server_instance_id = 101"
definition max_title :: nat where "max_title = 512"
definition max_display_name :: nat where "max_display_name = 256"
definition max_root_path :: nat where "max_root_path = 4096"
definition max_item_text :: nat where "max_item_text = 1048576"
definition max_cursor :: nat where "max_cursor = 256"
definition max_list_limit :: nat where "max_list_limit = 500"
definition max_read_limit :: nat where "max_read_limit = 1000"
definition max_result_rows :: nat where "max_result_rows = 500"
definition max_result_items :: nat where "max_result_items = 10000"
definition max_result_events :: nat where "max_result_events = 10000"
definition max_seq :: nat where "max_seq = 9007199254740991"

subsection \<open>Inputs\<close>

record workspace_list_input =
  wl_include_archived :: bool

record thread_create_input =
  tc_workspace_id :: str
  tc_title :: "str option"
  tc_profile_revision :: "str option"
  tc_invalid_optional :: bool

record thread_list_input =
  tl_workspace_id :: str
  tl_include_archived :: bool
  tl_limit :: "nat option"
  tl_cursor :: "str option"
  tl_invalid_optional :: bool

datatype thread_read_view = Snapshot

record thread_read_input =
  tr_thread_id :: str
  tr_view :: "thread_read_view option"
  tr_after_seq :: "nat option"
  tr_limit :: "nat option"
  tr_invalid_optional :: bool

text \<open>
  \<open>serde_json::from_value\<close> at the types of the fields; an enum's unit variant is its name or
  an object that maps the name to null.
\<close>

fun as_u32 :: "json \<Rightarrow> nat option" where
  "as_u32 (JNum (PosInt n)) = (if n < 2 ^ 32 then Some n else None)"
| "as_u32 _ = None"

fun as_view :: "json \<Rightarrow> thread_read_view option" where
  "as_view (JStr s) = (if s = ''snapshot'' then Some Snapshot else None)"
| "as_view (JObj [(k, JNull)]) = (if k = ''snapshot'' then Some Snapshot else None)"
| "as_view _ = None"

definition read_required_field :: "(json \<Rightarrow> 'a option) \<Rightarrow> obj \<Rightarrow> str \<Rightarrow> 'a option" where
  "read_required_field from o' name = Option.bind (obj_get o' name) from"

definition read_optional_field ::
    "(json \<Rightarrow> 'a option) \<Rightarrow> obj \<Rightarrow> str \<Rightarrow> bool \<Rightarrow> ('a option \<times> bool) option" where
  "read_optional_field from o' name invalid =
     (case obj_get o' name of
        None \<Rightarrow> Some (None, invalid)
      | Some JNull \<Rightarrow> Some (None, True)
      | Some v \<Rightarrow> map_option (\<lambda>x. (Some x, invalid)) (from v))"

definition read_default_field :: "(json \<Rightarrow> 'a option) \<Rightarrow> obj \<Rightarrow> str \<Rightarrow> 'a \<Rightarrow> 'a option" where
  "read_default_field from o' name d =
     (case obj_get o' name of None \<Rightarrow> Some d | Some v \<Rightarrow> from v)"

text \<open>The derived deserializer also takes the fields of a struct in order, as an array.\<close>

fun de_workspace_list :: "json \<Rightarrow> workspace_list_input option" where
  "de_workspace_list (JObj o') =
     map_option (\<lambda>b. \<lparr>wl_include_archived = b\<rparr>) (read_default_field as_bool o' ''includeArchived'' False)"
| "de_workspace_list (JArr []) = Some \<lparr>wl_include_archived = False\<rparr>"
| "de_workspace_list (JArr [v]) = map_option (\<lambda>b. \<lparr>wl_include_archived = b\<rparr>) (as_bool v)"
| "de_workspace_list _ = None"

definition de_thread_create :: "json \<Rightarrow> thread_create_input option" where
  "de_thread_create v =
     Option.bind (as_object v) (\<lambda>o'.
     Option.bind (read_required_field as_str o' ''workspaceId'') (\<lambda>w.
     Option.bind (read_optional_field as_str o' ''title'' False) (\<lambda>(t, b).
     Option.bind (read_optional_field as_str o' ''profileRevision'' b) (\<lambda>(p, b).
     Some \<lparr>tc_workspace_id = w, tc_title = t, tc_profile_revision = p, tc_invalid_optional = b\<rparr>))))"

definition de_thread_list :: "json \<Rightarrow> thread_list_input option" where
  "de_thread_list v =
     Option.bind (as_object v) (\<lambda>o'.
     Option.bind (read_required_field as_str o' ''workspaceId'') (\<lambda>w.
     Option.bind (read_default_field as_bool o' ''includeArchived'' False) (\<lambda>a.
     Option.bind (read_optional_field as_u32 o' ''limit'' False) (\<lambda>(l, b).
     Option.bind (read_optional_field as_str o' ''cursor'' b) (\<lambda>(c, b).
     Some \<lparr>tl_workspace_id = w, tl_include_archived = a, tl_limit = l, tl_cursor = c,
       tl_invalid_optional = b\<rparr>)))))"

definition de_thread_read :: "json \<Rightarrow> thread_read_input option" where
  "de_thread_read v =
     Option.bind (as_object v) (\<lambda>o'.
     Option.bind (read_required_field as_str o' ''threadId'') (\<lambda>t.
     Option.bind (read_optional_field as_view o' ''view'' False) (\<lambda>(w, b).
     Option.bind (read_optional_field as_u64 o' ''afterSeq'' b) (\<lambda>(s, b).
     Option.bind (read_optional_field as_u32 o' ''limit'' b) (\<lambda>(l, b).
     Some \<lparr>tr_thread_id = t, tr_view = w, tr_after_seq = s, tr_limit = l,
       tr_invalid_optional = b\<rparr>)))))"

text \<open>The derived serializers: declared fields only, an absent optional field left out.\<close>

definition given_field :: "str \<Rightarrow> json option \<Rightarrow> (str \<times> json) list" where
  "given_field k v = (case v of None \<Rightarrow> [] | Some x \<Rightarrow> [(k, x)])"

abbreviation opt_str :: "str \<Rightarrow> str option \<Rightarrow> (str \<times> json) list" where
  "opt_str k v \<equiv> given_field k (map_option JStr v)"

abbreviation opt_nat :: "str \<Rightarrow> nat option \<Rightarrow> (str \<times> json) list" where
  "opt_nat k v \<equiv> given_field k (map_option (\<lambda>n. JNum (PosInt n)) v)"

definition workspace_list_params :: "workspace_list_input \<Rightarrow> json" where
  "workspace_list_params i = JObj (obj_of [(''includeArchived'', JBool (wl_include_archived i))])"

definition thread_create_params :: "thread_create_input \<Rightarrow> json" where
  "thread_create_params i =
     JObj (obj_of ([(''workspaceId'', JStr (tc_workspace_id i))] @ opt_str ''title'' (tc_title i)
       @ opt_str ''profileRevision'' (tc_profile_revision i)))"

definition thread_list_params :: "thread_list_input \<Rightarrow> json" where
  "thread_list_params i =
     JObj (obj_of ([(''workspaceId'', JStr (tl_workspace_id i)),
         (''includeArchived'', JBool (tl_include_archived i))]
       @ opt_nat ''limit'' (tl_limit i) @ opt_str ''cursor'' (tl_cursor i)))"

definition view_value :: "thread_read_view \<Rightarrow> json" where
  "view_value w = (case w of Snapshot \<Rightarrow> JStr ''snapshot'')"

definition thread_read_params :: "thread_read_input \<Rightarrow> json" where
  "thread_read_params i =
     JObj (obj_of ([(''threadId'', JStr (tr_thread_id i))] @ given_field ''view'' (map_option view_value (tr_view i))
       @ opt_nat ''afterSeq'' (tr_after_seq i) @ opt_nat ''limit'' (tr_limit i)))"

subsection \<open>Validation of inputs\<close>

definition valid_prefixed_id :: "str \<Rightarrow> str \<Rightarrow> nat \<Rightarrow> bool" where
  "valid_prefixed_id v pre m \<longleftrightarrow>
     \<not> (length v \<le> length pre \<or> m < length v \<or> \<not> starts_with v pre
        \<or> \<not> list_all protocol_id_byte (drop (length pre) v))"

definition validate_id :: "str \<Rightarrow> str \<Rightarrow> nat \<Rightarrow> command_error + unit" where
  "validate_id v pre m = (if \<not> valid_prefixed_id v pre m then Inl err_invalid_params else Inr ())"

definition validate_input_text :: "str \<Rightarrow> nat \<Rightarrow> command_error + unit" where
  "validate_input_text v m = (if m < length v \<or> has_control v then Inl err_invalid_params else Inr ())"

definition validate_thread_create :: "thread_create_input \<Rightarrow> command_error + unit" where
  "validate_thread_create i =
     (if tc_invalid_optional i then Inl err_invalid_params
      else and_then (validate_id (tc_workspace_id i) ''ws_'' max_workspace_id) (\<lambda>_.
        and_then (case tc_title i of None \<Rightarrow> Inr () | Some t \<Rightarrow> validate_input_text t max_title) (\<lambda>_.
        case tc_profile_revision i of
          None \<Rightarrow> Inr () | Some p \<Rightarrow> validate_id p ''profile_'' max_profile_revision)))"

definition validate_thread_list :: "thread_list_input \<Rightarrow> command_error + unit" where
  "validate_thread_list i =
     (if tl_invalid_optional i then Inl err_invalid_params
      else and_then (validate_id (tl_workspace_id i) ''ws_'' max_workspace_id) (\<lambda>_.
        if opt_ex (\<lambda>l. \<not> (1 \<le> l \<and> l \<le> max_list_limit)) (tl_limit i) then Inl err_invalid_params
        else if opt_ex (\<lambda>c. max_cursor < length c) (tl_cursor i) then Inl err_invalid_params
        else Inr ()))"

definition validate_thread_read :: "thread_read_input \<Rightarrow> command_error + unit" where
  "validate_thread_read i =
     (if tr_invalid_optional i then Inl err_invalid_params
      else and_then (validate_id (tr_thread_id i) ''thr_'' max_thread_id) (\<lambda>_.
        if opt_ex (\<lambda>s. \<not> (1 \<le> s \<and> s \<le> max_seq)) (tr_after_seq i) then Inl err_invalid_params
        else if opt_ex (\<lambda>l. \<not> (1 \<le> l \<and> l \<le> max_read_limit)) (tr_limit i) then Inl err_invalid_params
        else Inr ()))"

end
