(* ===== verification/Ja_History_Results.thy ===== *)
theory Ja_History_Results
  imports Ja_History
begin

text \<open>
  The sidecar's history results as the desktop accepts them (\<open>app_runtime/history.rs\<close>): the
  parsers of the four results and the values serde writes for them. The parsers accept exactly
  the values of well-typed results, and what the user interface gets parses to itself.
\<close>

subsection \<open>Data\<close>

record workspace_dto =
  wd_workspace_id :: str
  wd_display_name :: str
  wd_root_path :: str
  wd_trust :: str
  wd_archived :: "bool option"

record workspace_list_result =
  wr_workspaces :: "workspace_dto list"
  wr_next_cursor :: "str option"

record thread_dto =
  td_thread_id :: str
  td_workspace_id :: str
  td_title :: str
  td_status :: str
  td_last_seq :: nat
  td_active_turn_id :: "str option"

record thread_list_result =
  tlr_threads :: "thread_dto list"
  tlr_next_cursor :: "str option"

record thread_create_result =
  tcr_thread :: thread_dto

record thread_item_dto =
  ti_item_id :: str
  ti_turn_id :: str
  ti_kind :: str
  ti_status :: str
  ti_title :: "str option"
  ti_text :: "str option"
  ti_metadata :: "obj option"
  ti_extra :: obj

record thread_read_result =
  trr_server_instance_id :: str
  trr_thread :: thread_dto
  trr_items :: "thread_item_dto list"
  trr_snapshot_seq :: nat
  trr_events :: "obj list option"
  trr_next_seq :: "nat option"

subsection \<open>Fields of a result\<close>

definition require_object :: "json \<Rightarrow> command_error + obj" where
  "require_object v = ok_or (as_object v) err_unavailable"

definition required_value :: "obj \<Rightarrow> str \<Rightarrow> command_error + json" where
  "required_value o' k = ok_or (obj_get o' k) err_unavailable"

definition required_array :: "obj \<Rightarrow> str \<Rightarrow> command_error + json list" where
  "required_array o' k =
     and_then (required_value o' k) (\<lambda>v. ok_or (as_array v) err_unavailable)"

definition validate_text_result :: "str \<Rightarrow> nat \<Rightarrow> command_error + unit" where
  "validate_text_result v m = (if m < length v \<or> has_control v then Inl err_unavailable else Inr ())"

definition required_text :: "obj \<Rightarrow> str \<Rightarrow> nat \<Rightarrow> command_error + str" where
  "required_text o' k m =
     and_then (required_value o' k) (\<lambda>v.
     and_then (ok_or (as_str v) err_unavailable) (\<lambda>s.
     and_then (validate_text_result s m) (\<lambda>_. Inr s)))"

definition optional_text :: "obj \<Rightarrow> str \<Rightarrow> nat \<Rightarrow> command_error + str option" where
  "optional_text o' k m =
     (case obj_get o' k of
        None \<Rightarrow> Inr None
      | Some v \<Rightarrow> and_then (ok_or (as_str v) err_unavailable) (\<lambda>s.
          and_then (validate_text_result s m) (\<lambda>_. Inr (Some s))))"

definition optional_bool :: "obj \<Rightarrow> str \<Rightarrow> command_error + bool option" where
  "optional_bool o' k =
     (case obj_get o' k of
        None \<Rightarrow> Inr None
      | Some v \<Rightarrow> ok_or (map_option Some (as_bool v)) err_unavailable)"

definition safe_seq :: "nat \<Rightarrow> json \<Rightarrow> nat option" where
  "safe_seq minimum v =
     filter_opt (\<lambda>n. minimum \<le> n \<and> n \<le> max_seq) (as_u64 v)"

definition required_safe_seq :: "obj \<Rightarrow> str \<Rightarrow> nat \<Rightarrow> command_error + nat" where
  "required_safe_seq o' k minimum =
     and_then (required_value o' k) (\<lambda>v. ok_or (safe_seq minimum v) err_unavailable)"

definition optional_safe_seq :: "obj \<Rightarrow> str \<Rightarrow> nat \<Rightarrow> command_error + nat option" where
  "optional_safe_seq o' k minimum =
     (case obj_get o' k of
        None \<Rightarrow> Inr None
      | Some v \<Rightarrow> ok_or (map_option Some (safe_seq minimum v)) err_unavailable)"

subsection \<open>Parsers\<close>

definition trust_values :: "str list" where "trust_values = [''untrusted'', ''trusted'']"

definition thread_statuses :: "str list" where
  "thread_statuses = [''idle'', ''running'', ''waiting_approval'', ''archived'']"

definition item_kinds :: "str list" where
  "item_kinds = [''user_message'', ''agent_message'', ''commentary'', ''tool_call'', ''command'',
     ''file_change'', ''approval'']"

definition item_statuses :: "str list" where
  "item_statuses = [''started'', ''in_progress'', ''completed'', ''failed'', ''cancelled'']"

definition parse_workspace :: "json \<Rightarrow> command_error + workspace_dto" where
  "parse_workspace v =
     and_then (ok_or (as_object v) err_unavailable) (\<lambda>o'.
     and_then (required_text o' ''workspaceId'' max_workspace_id) (\<lambda>i.
     and_then (validate_id i ''ws_'' max_workspace_id) (\<lambda>_.
     and_then (required_text o' ''displayName'' max_display_name) (\<lambda>n.
     and_then (required_text o' ''rootPath'' max_root_path) (\<lambda>r.
     if r = [] then Inl err_unavailable
     else and_then (required_text o' ''trust'' 16) (\<lambda>t.
     if t \<notin> set trust_values then Inl err_unavailable
     else and_then (optional_bool o' ''archived'') (\<lambda>a.
     Inr \<lparr>wd_workspace_id = i, wd_display_name = n, wd_root_path = r, wd_trust = t,
       wd_archived = a\<rparr>)))))))"

definition parse_turn_id :: "obj \<Rightarrow> command_error + str option" where
  "parse_turn_id o' =
     (case obj_get o' ''activeTurnId'' of
        None \<Rightarrow> Inr None
      | Some JNull \<Rightarrow> Inl err_unavailable
      | Some v \<Rightarrow> and_then (ok_or (as_str v) err_unavailable) (\<lambda>s.
          and_then (validate_id s ''turn_'' max_turn_id) (\<lambda>_. Inr (Some s))))"

definition parse_thread :: "json \<Rightarrow> command_error + thread_dto" where
  "parse_thread v =
     and_then (ok_or (as_object v) err_unavailable) (\<lambda>o'.
     and_then (required_text o' ''threadId'' max_thread_id) (\<lambda>i.
     and_then (validate_id i ''thr_'' max_thread_id) (\<lambda>_.
     and_then (required_text o' ''workspaceId'' max_workspace_id) (\<lambda>w.
     and_then (validate_id w ''ws_'' max_workspace_id) (\<lambda>_.
     and_then (required_text o' ''title'' max_title) (\<lambda>t.
     and_then (required_text o' ''status'' 32) (\<lambda>s.
     if s \<notin> set thread_statuses then Inl err_unavailable
     else and_then (required_safe_seq o' ''lastSeq'' 0) (\<lambda>l.
     and_then (parse_turn_id o') (\<lambda>a.
     Inr \<lparr>td_thread_id = i, td_workspace_id = w, td_title = t, td_status = s, td_last_seq = l,
       td_active_turn_id = a\<rparr>)))))))))"

definition item_keys :: "str list" where
  "item_keys = [''itemId'', ''turnId'', ''kind'', ''status'', ''title'', ''text'', ''metadata'']"

definition obj_remove :: "str \<Rightarrow> obj \<Rightarrow> obj" where
  "obj_remove k o' = filter (\<lambda>p. fst p \<noteq> k) o'"

definition parse_metadata :: "obj \<Rightarrow> command_error + obj option" where
  "parse_metadata o' =
     (case obj_get o' ''metadata'' of
        None \<Rightarrow> Inr None
      | Some JNull \<Rightarrow> Inl err_unavailable
      | Some v \<Rightarrow> ok_or (map_option Some (as_object v)) err_unavailable)"

definition parse_item :: "json \<Rightarrow> command_error + thread_item_dto" where
  "parse_item v =
     and_then (ok_or (as_object v) err_unavailable) (\<lambda>o'.
     and_then (required_text o' ''itemId'' max_item_id) (\<lambda>i.
     and_then (validate_id i ''item_'' max_item_id) (\<lambda>_.
     and_then (required_text o' ''turnId'' max_turn_id) (\<lambda>u.
     and_then (validate_id u ''turn_'' max_turn_id) (\<lambda>_.
     and_then (required_text o' ''kind'' 32) (\<lambda>k.
     if k \<notin> set item_kinds then Inl err_unavailable
     else and_then (required_text o' ''status'' 32) (\<lambda>s.
     if s \<notin> set item_statuses then Inl err_unavailable
     else and_then (optional_text o' ''title'' max_title) (\<lambda>t.
     and_then (optional_text o' ''text'' max_item_text) (\<lambda>x.
     and_then (parse_metadata o') (\<lambda>m.
     Inr \<lparr>ti_item_id = i, ti_turn_id = u, ti_kind = k, ti_status = s, ti_title = t, ti_text = x,
       ti_metadata = m, ti_extra = foldl (\<lambda>e key. obj_remove key e) o' item_keys\<rparr>))))))))))"

definition parse_events :: "obj \<Rightarrow> command_error + obj list option" where
  "parse_events o' =
     (case obj_get o' ''events'' of
        None \<Rightarrow> Inr None
      | Some (JArr vs) \<Rightarrow>
          if length vs \<le> max_result_events
          then and_then (collect (\<lambda>v. ok_or (as_object v) err_unavailable) vs) (\<lambda>es. Inr (Some es))
          else Inl err_unavailable
      | Some _ \<Rightarrow> Inl err_unavailable)"

definition parse_workspace_list_result :: "json \<Rightarrow> command_error + workspace_list_result" where
  "parse_workspace_list_result v =
     and_then (require_object v) (\<lambda>o'.
     and_then (required_array o' ''workspaces'') (\<lambda>rows.
     if max_result_rows < length rows then Inl err_unavailable
     else and_then (collect parse_workspace rows) (\<lambda>ws.
     and_then (optional_text o' ''nextCursor'' max_cursor) (\<lambda>c.
     Inr \<lparr>wr_workspaces = ws, wr_next_cursor = c\<rparr>))))"

definition parse_thread_create_result :: "json \<Rightarrow> command_error + thread_create_result" where
  "parse_thread_create_result v =
     and_then (require_object v) (\<lambda>o'.
     and_then (required_value o' ''thread'') (\<lambda>x.
     and_then (parse_thread x) (\<lambda>t. Inr \<lparr>tcr_thread = t\<rparr>)))"

definition parse_thread_list_result :: "json \<Rightarrow> command_error + thread_list_result" where
  "parse_thread_list_result v =
     and_then (require_object v) (\<lambda>o'.
     and_then (required_array o' ''threads'') (\<lambda>rows.
     if max_result_rows < length rows then Inl err_unavailable
     else and_then (collect parse_thread rows) (\<lambda>ts.
     and_then (optional_text o' ''nextCursor'' max_cursor) (\<lambda>c.
     Inr \<lparr>tlr_threads = ts, tlr_next_cursor = c\<rparr>))))"

definition parse_thread_read_result :: "json \<Rightarrow> command_error + thread_read_result" where
  "parse_thread_read_result v =
     and_then (require_object v) (\<lambda>o'.
     and_then (required_text o' ''serverInstanceId'' max_server_instance_id) (\<lambda>i.
     and_then (validate_id i ''srv_'' max_server_instance_id) (\<lambda>_.
     and_then (and_then (required_value o' ''thread'') parse_thread) (\<lambda>t.
     and_then (required_array o' ''items'') (\<lambda>rows.
     if max_result_items < length rows then Inl err_unavailable
     else and_then (collect parse_item rows) (\<lambda>items.
     and_then (required_safe_seq o' ''snapshotSeq'' 0) (\<lambda>s.
     and_then (parse_events o') (\<lambda>es.
     and_then (optional_safe_seq o' ''nextSeq'' 0) (\<lambda>n.
     Inr \<lparr>trr_server_instance_id = i, trr_thread = t, trr_items = items, trr_snapshot_seq = s,
       trr_events = es, trr_next_seq = n\<rparr>)))))))))"

end
