(* ===== verification/Ja_Query.thy ===== *)
theory Ja_Query
  imports Ja_History_Results Ja_Approvals
begin

text \<open>
  The commands that ask the sidecar something (\<open>app_runtime/settings_query.rs\<close>, the typed inputs of
  \<open>app_runtime/config.rs\<close>, the gates of \<open>app_runtime/host.rs\<close> and the request functions of
  \<open>app_runtime/bridge.rs\<close>). The host's state and what the supervisor answers to a request are a
  record of arguments; a command's result comes with the requests it handed to the supervisor
  and the values it emitted.
\<close>

subsection \<open>Settings queries\<close>

datatype settings_query_method = SkillList | McpList | McpTest | McpToolsRead

definition max_method :: nat where "max_method = 64"
definition max_result_bytes :: nat where "max_result_bytes = 4 * 1024 * 1024"
definition max_rows :: nat where "max_rows = 256"
definition max_tools :: nat where "max_tools = 10000"
definition max_revision :: nat where "max_revision = 128"

definition query_parse :: "str \<Rightarrow> command_error + settings_query_method" where
  "query_parse v =
     (if v = ''skill/list'' then Inr SkillList
      else if v = ''mcp/list'' then Inr McpList
      else if v = ''mcp/test'' then Inr McpTest
      else if v = ''mcp/tools/read'' then Inr McpToolsRead
      else Inl err_invalid_params)"

definition needs_server_request_handler :: "settings_query_method \<Rightarrow> bool" where
  "needs_server_request_handler m \<longleftrightarrow> m = McpTest"

fun query_wire_name :: "settings_query_method \<Rightarrow> str" where
  "query_wire_name SkillList = ''skill/list''"
| "query_wire_name McpList = ''mcp/list''"
| "query_wire_name McpTest = ''mcp/test''"
| "query_wire_name McpToolsRead = ''mcp/tools/read''"

record settings_query_input =
  sq_method :: str
  sq_params :: json

definition validate_query_id :: "str \<Rightarrow> str \<Rightarrow> nat \<Rightarrow> command_error + unit" where
  "validate_query_id v pre m =
     (if \<not> starts_with v pre \<or> m < length v \<or> length v = length pre \<or> \<not> list_all text_id_byte v
      then Inl err_invalid_params else Inr ())"

definition required_id :: "obj \<Rightarrow> str \<Rightarrow> str \<Rightarrow> command_error + unit" where
  "required_id o' field pre =
     and_then (ok_or (get_str o' field) err_invalid_params) (\<lambda>v. validate_query_id v pre max_revision)"

definition query_validate :: "settings_query_input \<Rightarrow> command_error + settings_query_method \<times> json" where
  "query_validate i =
     (if sq_method i = [] \<or> max_method < length (sq_method i) then Inl err_invalid_params
      else and_then (query_parse (sq_method i)) (\<lambda>m.
        and_then (ok_or (as_object (sq_params i)) err_invalid_params) (\<lambda>o'.
        and_then (case m of
            SkillList \<Rightarrow> Inr ()
          | McpList \<Rightarrow> Inr ()
          | McpTest \<Rightarrow>
              and_then (required_id o' ''mcpRevision'' ''mcp_'') (\<lambda>_.
                case obj_get o' ''profileRevision'' of
                  None \<Rightarrow> Inr ()
                | Some p \<Rightarrow> and_then (ok_or (as_str p) err_invalid_params) (\<lambda>v.
                    validate_query_id v ''profile_'' max_revision))
          | McpToolsRead \<Rightarrow> required_id o' ''mcpRevision'' ''mcp_'')
          (\<lambda>_. Inr (m, JObj o')))))"

fun query_rows :: "settings_query_method \<Rightarrow> (str \<times> nat) option" where
  "query_rows SkillList = Some (''skills'', max_rows)"
| "query_rows McpList = Some (''servers'', max_rows)"
| "query_rows McpToolsRead = Some (''tools'', max_tools)"
| "query_rows McpTest = None"

definition validate_result ::
    "(json \<Rightarrow> bytes option) \<Rightarrow> settings_query_method \<Rightarrow> json \<Rightarrow> command_error + json" where
  "validate_result to_vec m v =
     and_then (ok_or (as_object v) err_unavailable) (\<lambda>o'.
     and_then (case query_rows m of
         None \<Rightarrow> Inr ()
       | Some (name, most) \<Rightarrow>
           and_then (ok_or (Option.bind (obj_get o' name) as_array) err_unavailable) (\<lambda>rows.
             if most < length rows then Inl err_unavailable else Inr ()))
       (\<lambda>_. and_then (ok_or (to_vec v) err_unavailable) (\<lambda>encoded.
         if max_result_bytes < length encoded then Inl err_unavailable else Inr v)))"

subsection \<open>Turns\<close>

record turn_input_part =
  tp_kind :: str
  tp_text :: "str option"

record turn_start_input =
  ts_thread_id :: str
  ts_access_mode :: str
  ts_profile_revision :: str
  ts_input :: "turn_input_part list"

definition turn_part :: "turn_input_part \<Rightarrow> command_error + json" where
  "turn_part p =
     (if tp_kind p = ''text'' then
        and_then (ok_or (tp_text p) err_invalid_params) (\<lambda>t.
          if t = [] \<or> 1048576 < length t then Inl err_invalid_params
          else Inr (JObj (obj_of [(''type'', JStr ''text''), (''text'', JStr t)])))
      else Inl err_invalid_params)"

definition turn_start_params :: "turn_start_input \<Rightarrow> command_error + json" where
  "turn_start_params i =
     (if \<not> valid_text_id (ts_thread_id i) 128
         \<or> ts_access_mode i \<notin> {''read_only'', ''workspace'', ''full_access''}
         \<or> \<not> starts_with (ts_profile_revision i) ''profile_'' \<or> 128 < length (ts_profile_revision i)
         \<or> ts_input i = [] \<or> 128 < length (ts_input i)
      then Inl err_invalid_params
      else and_then (collect turn_part (ts_input i)) (\<lambda>parts.
        Inr (JObj (obj_of [(''threadId'', JStr (ts_thread_id i)), (''accessMode'', JStr (ts_access_mode i)),
          (''profileRevision'', JStr (ts_profile_revision i)), (''input'', JArr parts)]))))"

record turn_cancel_input =
  tx_thread_id :: str
  tx_turn_id :: str
  tx_reason :: "str option"

text \<open>\<open>chars().count()\<close> of a string.\<close>

definition char_count :: "str \<Rightarrow> nat" where
  "char_count s = length (filter (\<lambda>c. \<not> is_cont c) s)"

definition turn_cancel_params :: "turn_cancel_input \<Rightarrow> command_error + json" where
  "turn_cancel_params i =
     (if \<not> valid_protocol_id (tx_thread_id i) ''thr_'' 100 \<or> \<not> valid_frozen_turn_id (tx_turn_id i)
         \<or> opt_ex (\<lambda>r. 512 < char_count r \<or> has_control r) (tx_reason i)
      then Inl err_invalid_params
      else Inr (JObj (obj_of ([(''threadId'', JStr (tx_thread_id i)), (''turnId'', JStr (tx_turn_id i))]
        @ opt_str ''reason'' (tx_reason i)))))"

record turn_cancel_result =
  tx_accepted :: bool
  tx_result_turn_id :: str
  tx_status :: str

record turn_accepted =
  ta_accepted :: bool
  ta_turn_id :: str
  ta_queued :: bool
  ta_status :: str

definition parse_turn_cancel_result :: "str \<Rightarrow> json \<Rightarrow> command_error + turn_cancel_result" where
  "parse_turn_cancel_result requested v =
     and_then (ok_or (Option.bind (json_get v ''result'') as_object) err_unavailable) (\<lambda>result.
     and_then (ok_or (get_bool result ''accepted'') err_unavailable) (\<lambda>accepted.
     and_then (ok_or (filter_opt valid_frozen_turn_id (get_str result ''turnId'')) err_unavailable) (\<lambda>t.
     if t \<noteq> requested \<or> \<not> accepted then Inl err_unavailable
     else and_then (ok_or (filter_opt (\<lambda>s. s \<in> {''interrupting'', ''interrupted''})
            (get_str result ''status'')) err_unavailable) (\<lambda>s.
     Inr \<lparr>tx_accepted = accepted, tx_result_turn_id = t, tx_status = s\<rparr>))))"

text \<open>\<open>valid_id\<close> of the bridge is the same test as \<open>valid_text_id\<close>.\<close>

definition parse_turn_accepted :: "json \<Rightarrow> command_error + turn_accepted" where
  "parse_turn_accepted v =
     and_then (ok_or (Option.bind (json_get v ''result'') as_object) err_unavailable) (\<lambda>result.
     and_then (ok_or (filter_opt (\<lambda>t. valid_text_id t 128) (get_str result ''turnId'')) err_unavailable) (\<lambda>t.
     and_then (ok_or (filter_opt (\<lambda>s. valid_text_id s 64) (get_str result ''status'')) err_unavailable) (\<lambda>s.
     Inr \<lparr>ta_accepted = (case get_bool result ''accepted'' of None \<Rightarrow> False | Some b \<Rightarrow> b),
       ta_turn_id = t,
       ta_queued = (case get_bool result ''queued'' of None \<Rightarrow> False | Some b \<Rightarrow> b),
       ta_status = s\<rparr>)))"

subsection \<open>Requests\<close>

datatype lane_answer = Queued | LaneFull | LaneClosed

type_synonym sent = "(str \<times> json) list"

text \<open>
  \<open>qe_state\<close> is what the bridge answers about its state, \<open>qe_lane\<close> whether its command lane took
  the command, \<open>qe_in_time\<close> whether the actor replied before the caller gave up, \<open>qe_remaining\<close> the
  time left when an exit is under way. \<open>qe_request\<close> is the supervisor's \<open>request\<close>, \<open>qe_handled_request\<close>
  the one that answers nested requests of the sidecar with \<open>query_nested_request\<close> below.
\<close>

record query_env =
  qe_replay :: bool
  qe_bridge :: bool
  qe_state :: "command_error + runtime_status_kind"
  qe_lane :: lane_answer
  qe_in_time :: bool
  qe_running :: bool
  qe_request_timeout :: nanos
  qe_remaining :: "nanos option"
  qe_request :: "str \<Rightarrow> json \<Rightarrow> nanos \<Rightarrow> agent_error + rpc_frame"
  qe_handled_request :: "str \<Rightarrow> json \<Rightarrow> nanos \<Rightarrow> agent_error + rpc_frame"
  qe_to_vec :: "json \<Rightarrow> bytes option"
  qe_of_vec :: "bytes \<Rightarrow> json option"
  qe_sink :: "json \<Rightarrow> bool"

definition operation_timeout :: "nanos \<Rightarrow> nanos option \<Rightarrow> command_error + nanos" where
  "operation_timeout configured remaining =
     (case remaining of
        None \<Rightarrow> Inr configured
      | Some r \<Rightarrow> if r = 0 then Inl err_shutdown_timeout else Inr (min configured r))"

definition request_frame ::
    "query_env \<Rightarrow> (str \<Rightarrow> json \<Rightarrow> nanos \<Rightarrow> agent_error + rpc_frame) \<Rightarrow> str \<Rightarrow> json
      \<Rightarrow> (json \<Rightarrow> command_error + 'a) \<Rightarrow> (command_error + 'a) \<times> sent" where
  "request_frame e req m params k =
     (case operation_timeout (qe_request_timeout e) (qe_remaining e) of
        Inl er \<Rightarrow> (Inl er, [])
      | Inr timeout \<Rightarrow>
          (and_then (map_err from_process (req m params timeout)) (\<lambda>response.
             and_then (map_err (\<lambda>_. err_unavailable)
                 (frame_to_value (qe_to_vec e) (qe_of_vec e) response)) (\<lambda>v.
             case json_get v ''error'' of
               Some er \<Rightarrow> Inl (command_error_from_rpc er)
             | None \<Rightarrow> k v)), [(m, params)]))"

definition result_object :: "json \<Rightarrow> command_error + json" where
  "result_object v = ok_or (filter_opt is_object (json_get v ''result'')) err_unavailable"

definition history_request_runtime ::
    "query_env \<Rightarrow> history_method \<Rightarrow> json \<Rightarrow> (command_error + json) \<times> sent" where
  "history_request_runtime e m params =
     (if \<not> qe_running e then (Inl err_unavailable, [])
      else request_frame e (qe_request e) (history_wire_name m) params result_object)"

definition settings_query_runtime ::
    "query_env \<Rightarrow> settings_query_method \<Rightarrow> json \<Rightarrow> (command_error + json) \<times> sent" where
  "settings_query_runtime e m params =
     (if \<not> qe_running e then (Inl err_unavailable, [])
      else request_frame e
        (if needs_server_request_handler m then qe_handled_request e else qe_request e)
        (query_wire_name m) params result_object)"

definition turn_cancel_runtime :: "query_env \<Rightarrow> json \<Rightarrow> (command_error + turn_cancel_result) \<times> sent" where
  "turn_cancel_runtime e params =
     (if \<not> qe_running e then (Inl err_not_ready, [])
      else case operation_timeout (qe_request_timeout e) (qe_remaining e) of
        Inl er \<Rightarrow> (Inl er, [])
      | Inr _ \<Rightarrow>
          (case filter_opt valid_frozen_turn_id (Option.bind (json_get params ''turnId'') as_str) of
             None \<Rightarrow> (Inl err_invalid_params, [])
           | Some requested \<Rightarrow> request_frame e (qe_request e) ''turn/cancel'' params (parse_turn_cancel_result requested)))"

text \<open>The status event of a started turn; a sink that refuses it fails the command.\<close>

definition turn_runtime ::
    "query_env \<Rightarrow> str \<Rightarrow> nat \<Rightarrow> str \<Rightarrow> json
      \<Rightarrow> (command_error + turn_accepted) \<times> sent \<times> json list" where
  "turn_runtime e now gen instance params =
     (if \<not> qe_running e then (Inl err_not_ready, [], [])
      else case request_frame e (qe_request e) ''turn/start'' params parse_turn_accepted of
        (Inl er, s) \<Rightarrow> (Inl er, s, [])
      | (Inr t, s) \<Rightarrow>
          (case emit_status (qe_sink e) now SkBusy gen (Some instance) ''turn_started'' of
             (r, shown) \<Rightarrow> (and_then r (\<lambda>_. Inr t), s, shown)))"

subsection \<open>The lane and the host's gates\<close>

definition bridge_call :: "query_env \<Rightarrow> (command_error + 'a) \<times> sent \<Rightarrow> (command_error + 'a) \<times> sent" where
  "bridge_call e r =
     (case qe_lane e of
        LaneFull \<Rightarrow> (Inl err_queue_full, [])
      | LaneClosed \<Rightarrow> (Inl err_unavailable, [])
      | Queued \<Rightarrow> (if qe_in_time e then fst r else Inl err_unavailable, snd r))"

definition ready_bridge ::
    "query_env \<Rightarrow> (command_error + json) \<times> sent \<Rightarrow> (command_error + json) \<times> sent" where
  "ready_bridge e r =
     (if \<not> qe_bridge e then (Inl err_not_ready, [])
      else case qe_state e of
        Inl er \<Rightarrow> (Inl er, [])
      | Inr status \<Rightarrow> if status \<noteq> SkReady then (Inl err_not_ready, []) else bridge_call e r)"

definition history_request ::
    "query_env \<Rightarrow> history_method \<Rightarrow> json \<Rightarrow> (command_error + json) \<times> sent" where
  "history_request e m params =
     (if \<not> qe_replay e then (Inl err_configuration, [])
      else ready_bridge e (history_request_runtime e m params))"

definition settings_query ::
    "query_env \<Rightarrow> settings_query_method \<Rightarrow> json \<Rightarrow> (command_error + json) \<times> sent" where
  "settings_query e m params = ready_bridge e (settings_query_runtime e m params)"

definition bridge_turn_cancel ::
    "query_env \<Rightarrow> turn_cancel_input \<Rightarrow> (command_error + turn_cancel_result) \<times> sent" where
  "bridge_turn_cancel e i =
     (case turn_cancel_params i of
        Inl er \<Rightarrow> (Inl er, [])
      | Inr params \<Rightarrow> bridge_call e (turn_cancel_runtime e params))"

subsection \<open>Commands\<close>

definition parsed ::
    "(json \<Rightarrow> command_error + 'a) \<Rightarrow> (command_error + json) \<times> sent \<Rightarrow> (command_error + 'a) \<times> sent" where
  "parsed f r = (and_then (fst r) f, snd r)"

definition ja_workspace_list ::
    "query_env \<Rightarrow> workspace_list_input \<Rightarrow> (command_error + workspace_list_result) \<times> sent" where
  "ja_workspace_list e i =
     parsed parse_workspace_list_result (history_request e WorkspaceList (workspace_list_params i))"

definition ja_thread_create ::
    "query_env \<Rightarrow> thread_create_input \<Rightarrow> (command_error + thread_create_result) \<times> sent" where
  "ja_thread_create e i =
     (case validate_thread_create i of
        Inl er \<Rightarrow> (Inl er, [])
      | Inr _ \<Rightarrow> parsed parse_thread_create_result (history_request e ThreadCreate (thread_create_params i)))"

definition ja_thread_list ::
    "query_env \<Rightarrow> thread_list_input \<Rightarrow> (command_error + thread_list_result) \<times> sent" where
  "ja_thread_list e i =
     (case validate_thread_list i of
        Inl er \<Rightarrow> (Inl er, [])
      | Inr _ \<Rightarrow> parsed parse_thread_list_result (history_request e ThreadList (thread_list_params i)))"

definition ja_thread_read ::
    "query_env \<Rightarrow> thread_read_input \<Rightarrow> (command_error + thread_read_result) \<times> sent" where
  "ja_thread_read e i =
     (case validate_thread_read i of
        Inl er \<Rightarrow> (Inl er, [])
      | Inr _ \<Rightarrow> parsed parse_thread_read_result (history_request e ThreadRead (thread_read_params i)))"

definition ja_runtime_query ::
    "query_env \<Rightarrow> settings_query_input \<Rightarrow> (command_error + json) \<times> sent" where
  "ja_runtime_query e i =
     (case query_validate i of
        Inl er \<Rightarrow> (Inl er, [])
      | Inr (m, params) \<Rightarrow> parsed (validate_result (qe_to_vec e) m) (settings_query e m params))"

subsection \<open>Secrets asked for inside a query\<close>

definition query_nested_request ::
    "(json \<Rightarrow> bytes option) \<Rightarrow> runtime_replay_config option
      \<Rightarrow> (credential_purpose \<Rightarrow> credential_ref \<Rightarrow> secret_error + runtime_secret_delivery)
      \<Rightarrow> nanos \<Rightarrow> rpc_frame \<Rightarrow> session \<Rightarrow> session" where
  "query_nested_request to_vec replay backend now f s =
     (if frame_method f = Some ''secret/resolve'' then respond_secret_request to_vec replay backend now f s
      else snd (respond_error to_vec (frame_id f) (-32006) ''method not found'' ''METHOD_NOT_FOUND'' False s))"

end
