(* ===== verification/Ja_History_Safety.thy ===== *)
theory Ja_History_Safety
  imports Ja_History_Results
begin

text \<open>
  Which history results reach the user interface: exactly the well-typed ones, each equal to what
  its own serialised value parses to; and one that the frozen contract allows but the desktop
  refuses.
\<close>

subsection \<open>What serde writes\<close>

definition workspace_value :: "workspace_dto \<Rightarrow> json" where
  "workspace_value d = JObj (obj_of ([(''workspaceId'', JStr (wd_workspace_id d)),
       (''displayName'', JStr (wd_display_name d)), (''rootPath'', JStr (wd_root_path d)),
       (''trust'', JStr (wd_trust d))] @ given_field ''archived'' (map_option JBool (wd_archived d))))"

definition thread_value :: "thread_dto \<Rightarrow> json" where
  "thread_value d = JObj (obj_of ([(''threadId'', JStr (td_thread_id d)),
       (''workspaceId'', JStr (td_workspace_id d)), (''title'', JStr (td_title d)),
       (''status'', JStr (td_status d)), (''lastSeq'', JNum (PosInt (td_last_seq d)))]
       @ opt_str ''activeTurnId'' (td_active_turn_id d)))"

definition item_fields :: "thread_item_dto \<Rightarrow> (str \<times> json) list" where
  "item_fields d = [(''itemId'', JStr (ti_item_id d)), (''turnId'', JStr (ti_turn_id d)),
       (''kind'', JStr (ti_kind d)), (''status'', JStr (ti_status d))]
     @ opt_str ''title'' (ti_title d) @ opt_str ''text'' (ti_text d)
     @ given_field ''metadata'' (map_option JObj (ti_metadata d))"

definition item_value :: "thread_item_dto \<Rightarrow> json" where
  "item_value d = JObj (obj_of (item_fields d @ ti_extra d))"

definition workspace_list_value :: "workspace_list_result \<Rightarrow> json" where
  "workspace_list_value r = JObj (obj_of ([(''workspaces'', JArr (map workspace_value (wr_workspaces r)))]
     @ opt_str ''nextCursor'' (wr_next_cursor r)))"

definition thread_list_value :: "thread_list_result \<Rightarrow> json" where
  "thread_list_value r = JObj (obj_of ([(''threads'', JArr (map thread_value (tlr_threads r)))]
     @ opt_str ''nextCursor'' (tlr_next_cursor r)))"

definition thread_create_value :: "thread_create_result \<Rightarrow> json" where
  "thread_create_value r = JObj (obj_of [(''thread'', thread_value (tcr_thread r))])"

definition events_value :: "obj list \<Rightarrow> json" where
  "events_value es = JArr (map JObj es)"

definition thread_read_value :: "thread_read_result \<Rightarrow> json" where
  "thread_read_value r = JObj (obj_of ([(''serverInstanceId'', JStr (trr_server_instance_id r)),
       (''thread'', thread_value (trr_thread r)), (''items'', JArr (map item_value (trr_items r))),
       (''snapshotSeq'', JNum (PosInt (trr_snapshot_seq r)))]
     @ given_field ''events'' (map_option events_value (trr_events r))
     @ opt_nat ''nextSeq'' (trr_next_seq r)))"

subsection \<open>Well-typed results\<close>

definition plain_text :: "nat \<Rightarrow> str \<Rightarrow> bool" where
  "plain_text m s \<longleftrightarrow> length s \<le> m \<and> \<not> has_control s"

definition workspace_ok :: "workspace_dto \<Rightarrow> bool" where
  "workspace_ok d \<longleftrightarrow>
     valid_prefixed_id (wd_workspace_id d) ''ws_'' max_workspace_id
     \<and> plain_text max_display_name (wd_display_name d)
     \<and> plain_text max_root_path (wd_root_path d) \<and> wd_root_path d \<noteq> []
     \<and> wd_trust d \<in> set trust_values"

definition thread_ok :: "thread_dto \<Rightarrow> bool" where
  "thread_ok d \<longleftrightarrow>
     valid_prefixed_id (td_thread_id d) ''thr_'' max_thread_id
     \<and> valid_prefixed_id (td_workspace_id d) ''ws_'' max_workspace_id
     \<and> plain_text max_title (td_title d) \<and> td_status d \<in> set thread_statuses
     \<and> td_last_seq d \<le> max_seq
     \<and> pred_option (\<lambda>t. valid_prefixed_id t ''turn_'' max_turn_id) (td_active_turn_id d)"

definition item_typed :: "thread_item_dto \<Rightarrow> bool" where
  "item_typed d \<longleftrightarrow>
     valid_prefixed_id (ti_item_id d) ''item_'' max_item_id
     \<and> valid_prefixed_id (ti_turn_id d) ''turn_'' max_turn_id
     \<and> ti_kind d \<in> set item_kinds \<and> ti_status d \<in> set item_statuses
     \<and> pred_option (plain_text max_title) (ti_title d)
     \<and> pred_option (plain_text max_item_text) (ti_text d)"

definition item_ok :: "thread_item_dto \<Rightarrow> bool" where
  "item_ok d \<longleftrightarrow>
     item_typed d \<and> pred_option (\<lambda>m. wf_json (JObj m)) (ti_metadata d)
     \<and> wf_json (JObj (ti_extra d)) \<and> set item_keys \<inter> fst ` set (ti_extra d) = {}"

definition thread_read_ok :: "thread_read_result \<Rightarrow> bool" where
  "thread_read_ok r \<longleftrightarrow>
     valid_prefixed_id (trr_server_instance_id r) ''srv_'' max_server_instance_id
     \<and> thread_ok (trr_thread r)
     \<and> length (trr_items r) \<le> max_result_items \<and> list_all item_ok (trr_items r)
     \<and> trr_snapshot_seq r \<le> max_seq
     \<and> pred_option (\<lambda>es. length es \<le> max_result_events \<and> list_all (\<lambda>e. wf_json (JObj e)) es)
         (trr_events r)
     \<and> pred_option (\<lambda>n. n \<le> max_seq) (trr_next_seq r)"

subsection \<open>When a field is accepted\<close>

lemma validate_id_Inr [result_iff]: "validate_id v pre m = Inr u \<longleftrightarrow> valid_prefixed_id v pre m"
  by (simp add: validate_id_def result_iff)

text \<open>An identifier has no control character, so the text check before it never fails alone.\<close>

lemma has_control_append:
  "\<forall>c \<in> set s. 32 \<le> byte c \<and> byte c < 127 \<Longrightarrow> has_control (s @ t) = has_control t"
  by (induction s) auto

lemma protocol_byte_plain: "protocol_id_byte c \<Longrightarrow> 32 \<le> byte c \<and> byte c < 127"
  by (auto simp: protocol_id_byte_def byte_defs)

lemma prefixed_id_plain:
  assumes "valid_prefixed_id v pre m" and "list_all protocol_id_byte pre"
  shows "plain_text m v"
proof -
  obtain r where v: "v = pre @ r" and r: "list_all protocol_id_byte r"
    using assms(1) by (auto simp: valid_prefixed_id_def starts_with_iff_prefix prefix_def)
  have "\<forall>c \<in> set v. 32 \<le> byte c \<and> byte c < 127"
    using r assms(2) by (auto simp: v list_all_iff protocol_byte_plain)
  then have "\<not> has_control v" using has_control_append [of v "[]"] by simp
  with assms(1) show ?thesis by (auto simp: plain_text_def valid_prefixed_id_def)
qed

lemma prefixes_plain:
  "list_all protocol_id_byte ''ws_''" "list_all protocol_id_byte ''thr_''"
  "list_all protocol_id_byte ''turn_''" "list_all protocol_id_byte ''item_''"
  "list_all protocol_id_byte ''srv_''"
  by (simp_all add: protocol_id_byte_def byte_defs)

lemma required_value_Inr [result_iff]: "required_value o' k = Inr v \<longleftrightarrow> obj_get o' k = Some v"
  by (simp add: required_value_def result_iff)

lemma required_array_Inr [result_iff]:
  "required_array o' k = Inr vs \<longleftrightarrow> obj_get o' k = Some (JArr vs)"
  by (auto simp: required_array_def result_iff)

lemma required_text_Inr [result_iff]:
  "required_text o' k m = Inr s \<longleftrightarrow> obj_get o' k = Some (JStr s) \<and> plain_text m s"
  by (auto simp: required_text_def result_iff validate_text_result_def plain_text_def)

lemma optional_text_Inr [result_iff]:
  "optional_text o' k m = Inr x \<longleftrightarrow> obj_get o' k = map_option JStr x \<and> pred_option (plain_text m) x"
  by (cases x) (auto simp: optional_text_def result_iff validate_text_result_def plain_text_def
      split: option.splits)

lemma optional_bool_Inr [result_iff]:
  "optional_bool o' k = Inr x \<longleftrightarrow> obj_get o' k = map_option JBool x"
  by (cases x) (auto simp: optional_bool_def result_iff split: option.splits)

lemma safe_seq_Some: "safe_seq 0 v = Some n \<longleftrightarrow> v = JNum (PosInt n) \<and> n \<le> max_seq"
  by (cases v rule: as_u64.cases) (auto simp: safe_seq_def filter_opt_def)

lemma required_safe_seq_Inr [result_iff]:
  "required_safe_seq o' k 0 = Inr n \<longleftrightarrow> obj_get o' k = Some (JNum (PosInt n)) \<and> n \<le> max_seq"
  by (auto simp: required_safe_seq_def result_iff safe_seq_Some)

lemma optional_safe_seq_Inr [result_iff]:
  "optional_safe_seq o' k 0 = Inr x \<longleftrightarrow>
     obj_get o' k = map_option (\<lambda>n. JNum (PosInt n)) x \<and> pred_option (\<lambda>n. n \<le> max_seq) x"
  by (cases x) (auto simp: optional_safe_seq_def result_iff safe_seq_Some split: option.splits)

lemma parse_turn_id_Inr [result_iff]:
  "parse_turn_id o' = Inr x \<longleftrightarrow> obj_get o' ''activeTurnId'' = map_option JStr x
     \<and> pred_option (\<lambda>t. valid_prefixed_id t ''turn_'' max_turn_id) x"
  by (cases x) (auto simp: parse_turn_id_def result_iff split: option.splits json.splits)

lemma parse_metadata_Inr [result_iff]:
  "parse_metadata o' = Inr x \<longleftrightarrow> obj_get o' ''metadata'' = map_option JObj x"
  by (cases x) (auto simp: parse_metadata_def result_iff split: option.splits json.splits)

lemma collect_objects:
  "collect (\<lambda>v. ok_or (as_object v) e) vs = Inr es \<longleftrightarrow> vs = map JObj es"
  by (auto simp: collect_Inr ok_or_Inr list_all2_map2 list.rel_eq list_all2_conv_all_nth
      intro!: nth_equalityI)

lemma parse_events_Inr [result_iff]:
  "parse_events o' = Inr x \<longleftrightarrow> obj_get o' ''events'' = map_option events_value x
     \<and> pred_option (\<lambda>es. length es \<le> max_result_events) x"
  by (cases x) (auto simp: parse_events_def events_value_def and_then_Inr guard_Inr' collect_objects
      split: option.splits json.splits)

subsection \<open>What the parsers accept\<close>

lemma literals_plain:
  "t \<in> set trust_values \<Longrightarrow> plain_text 16 t"
  "t \<in> set thread_statuses \<Longrightarrow> plain_text 32 t"
  "t \<in> set item_kinds \<Longrightarrow> plain_text 32 t"
  "t \<in> set item_statuses \<Longrightarrow> plain_text 32 t"
  by (auto simp: trust_values_def thread_statuses_def item_kinds_def item_statuses_def plain_text_def)

lemmas id_plain = prefixed_id_plain [OF _ prefixes_plain(1)] prefixed_id_plain [OF _ prefixes_plain(2)]
  prefixed_id_plain [OF _ prefixes_plain(3)] prefixed_id_plain [OF _ prefixes_plain(4)]
  prefixed_id_plain [OF _ prefixes_plain(5)]

lemma parse_workspace_Inr:
  "parse_workspace v = Inr d \<longleftrightarrow> workspace_ok d \<and> (\<exists>o'. v = JObj o'
     \<and> obj_get o' ''workspaceId'' = Some (JStr (wd_workspace_id d))
     \<and> obj_get o' ''displayName'' = Some (JStr (wd_display_name d))
     \<and> obj_get o' ''rootPath'' = Some (JStr (wd_root_path d))
     \<and> obj_get o' ''trust'' = Some (JStr (wd_trust d))
     \<and> obj_get o' ''archived'' = map_option JBool (wd_archived d))"
  by (cases d) (auto simp: parse_workspace_def workspace_ok_def result_iff literals_plain id_plain)

lemma parse_thread_Inr:
  "parse_thread v = Inr d \<longleftrightarrow> thread_ok d \<and> (\<exists>o'. v = JObj o'
     \<and> obj_get o' ''threadId'' = Some (JStr (td_thread_id d))
     \<and> obj_get o' ''workspaceId'' = Some (JStr (td_workspace_id d))
     \<and> obj_get o' ''title'' = Some (JStr (td_title d))
     \<and> obj_get o' ''status'' = Some (JStr (td_status d))
     \<and> obj_get o' ''lastSeq'' = Some (JNum (PosInt (td_last_seq d)))
     \<and> obj_get o' ''activeTurnId'' = map_option JStr (td_active_turn_id d))"
  by (cases d) (auto simp: parse_thread_def thread_ok_def result_iff literals_plain id_plain)

lemma parse_item_Inr:
  "parse_item v = Inr d \<longleftrightarrow> item_typed d \<and> (\<exists>o'. v = JObj o'
     \<and> obj_get o' ''itemId'' = Some (JStr (ti_item_id d))
     \<and> obj_get o' ''turnId'' = Some (JStr (ti_turn_id d))
     \<and> obj_get o' ''kind'' = Some (JStr (ti_kind d))
     \<and> obj_get o' ''status'' = Some (JStr (ti_status d))
     \<and> obj_get o' ''title'' = map_option JStr (ti_title d)
     \<and> obj_get o' ''text'' = map_option JStr (ti_text d)
     \<and> obj_get o' ''metadata'' = map_option JObj (ti_metadata d)
     \<and> ti_extra d = foldl (\<lambda>e key. obj_remove key e) o' item_keys)"
  by (cases d) (auto simp: parse_item_def item_typed_def result_iff literals_plain id_plain)

lemma parse_thread_read_Inr:
  "parse_thread_read_result v = Inr r \<longleftrightarrow> (\<exists>o' t rows. v = JObj o'
     \<and> valid_prefixed_id (trr_server_instance_id r) ''srv_'' max_server_instance_id
     \<and> obj_get o' ''serverInstanceId'' = Some (JStr (trr_server_instance_id r))
     \<and> obj_get o' ''thread'' = Some t \<and> parse_thread t = Inr (trr_thread r)
     \<and> obj_get o' ''items'' = Some (JArr rows) \<and> length rows \<le> max_result_items
     \<and> collect parse_item rows = Inr (trr_items r)
     \<and> obj_get o' ''snapshotSeq'' = Some (JNum (PosInt (trr_snapshot_seq r)))
     \<and> trr_snapshot_seq r \<le> max_seq
     \<and> obj_get o' ''events'' = map_option events_value (trr_events r)
     \<and> pred_option (\<lambda>es. length es \<le> max_result_events) (trr_events r)
     \<and> obj_get o' ''nextSeq'' = map_option (\<lambda>n. JNum (PosInt n)) (trr_next_seq r)
     \<and> pred_option (\<lambda>n. n \<le> max_seq) (trr_next_seq r))"
proof -
  note parts = and_then_Inr guard_Inr required_array_Inr required_value_Inr required_text_Inr
    required_safe_seq_Inr optional_safe_seq_Inr parse_events_Inr validate_id_Inr ok_or_Inr
    require_object_def as_object_Some not_less
  show ?thesis
    by (cases r) (auto simp: parse_thread_read_result_def parts id_plain simp del: collect.simps)
qed

subsection \<open>Fields that were left out\<close>

lemma map_of_given_field [simp]: "map_of (given_field k v) k' = (if k' = k then v else None)"
  by (simp add: given_field_def split: option.splits)

lemma rev_given_field [simp]: "rev (given_field k v) = given_field k v"
  by (simp add: given_field_def split: option.splits)

lemma set_given_field: "p \<in> set (given_field k v) \<longleftrightarrow> (\<exists>x. v = Some x \<and> p = (k, x))"
  by (auto simp: given_field_def split: option.splits)

lemma workspace_round: "workspace_ok d \<Longrightarrow> parse_workspace (workspace_value d) = Inr d"
  by (simp add: parse_workspace_Inr workspace_value_def obj_get_of map_add_def split: option.splits)

lemma thread_round: "thread_ok d \<Longrightarrow> parse_thread (thread_value d) = Inr d"
  by (simp add: parse_thread_Inr thread_value_def obj_get_of map_add_def split: option.splits)

text \<open>Removing the core fields from what the flattened item writes leaves the other fields.\<close>

definition drop_keys :: "str set \<Rightarrow> obj \<Rightarrow> obj" where
  "drop_keys K o' = filter (\<lambda>p. fst p \<notin> K) o'"

lemma remove_keys: "foldl (\<lambda>e key. obj_remove key e) o' ks = drop_keys (set ks) o'"
  by (induction ks arbitrary: o')
    (auto simp: obj_remove_def drop_keys_def intro!: filter_cong)

lemma drop_keys_insert:
  assumes "sorted_wrt (<) (map fst o')"
  shows "drop_keys K (obj_insert k v o')
    = (if k \<in> K then drop_keys K o' else obj_insert k v (drop_keys K o'))"
  using assms
proof (induction k v o' rule: obj_insert.induct)
  case (2 k v k' v' o')
  have below: "\<forall>q \<in> set o'. k' < fst q" using 2(2) by auto
  have front: "obj_insert k v (drop_keys K o') = (k, v) # drop_keys K o'" if "k < k'"
  proof (cases "drop_keys K o'")
    case (Cons q qs)
    then have "q \<in> set o'" by (metis drop_keys_def filter_is_subset list.set_intros(1) subsetD)
    then have "k < fst q" using below that by (meson order.strict_trans)
    with Cons show ?thesis by (cases q) auto
  qed simp
  show ?case
    using 2 front by (cases k k' rule: linorder_cases) (auto simp: drop_keys_def)
qed (simp add: drop_keys_def)

lemma drop_keys_id: "K \<inter> fst ` set o' = {} \<Longrightarrow> drop_keys K o' = o'"
  by (auto simp: drop_keys_def filter_id_conv)

lemma sorted_obj_of: "sorted_wrt (<) (map fst (obj_of kvs))"
  by (induction kvs rule: rev_induct) (auto simp: obj_of_snoc sorted_obj_insert obj_of_def)

lemma drop_keys_obj_of: "drop_keys K (obj_of kvs) = obj_of (drop_keys K kvs)"
proof (induction kvs rule: rev_induct)
  case (snoc p kvs)
  then show ?case
    using drop_keys_insert [OF sorted_obj_of, of K "fst p" "snd p" kvs]
    by (cases p) (auto simp: obj_of_snoc drop_keys_def)
qed (simp add: obj_of_def drop_keys_def)

lemma item_extra_round:
  assumes "item_ok d"
  shows "foldl (\<lambda>e key. obj_remove key e) (obj_of (item_fields d @ ti_extra d)) item_keys = ti_extra d"
proof -
  have sorted: "sorted_wrt (<) (map fst (ti_extra d))" and extra: "set item_keys \<inter> fst ` set (ti_extra d) = {}"
    using assms by (simp_all add: item_ok_def)
  have core: "drop_keys (set item_keys) (item_fields d) = []"
    by (auto simp: drop_keys_def filter_empty_conv item_fields_def item_keys_def set_given_field)
  have "drop_keys (set item_keys) (item_fields d @ ti_extra d) = ti_extra d"
    using core drop_keys_id [OF extra] by (simp add: drop_keys_def)
  then show ?thesis
    by (simp add: remove_keys drop_keys_obj_of obj_of_sorted sorted)
qed

lemma extra_get:
  assumes "set item_keys \<inter> fst ` set (ti_extra d) = {}" and "k \<in> set item_keys"
  shows "obj_get (obj_of (item_fields d @ ti_extra d)) k = map_of (rev (item_fields d)) k"
proof -
  have "map_of (rev (ti_extra d)) k = None"
    using assms by (auto simp: map_of_eq_None_iff)
  then show ?thesis by (simp add: obj_get_of map_add_def)
qed

lemma item_get:
  assumes "set item_keys \<inter> fst ` set (ti_extra d) = {}"
  shows "obj_get (obj_of (item_fields d @ ti_extra d)) ''itemId'' = Some (JStr (ti_item_id d))"
    and "obj_get (obj_of (item_fields d @ ti_extra d)) ''turnId'' = Some (JStr (ti_turn_id d))"
    and "obj_get (obj_of (item_fields d @ ti_extra d)) ''kind'' = Some (JStr (ti_kind d))"
    and "obj_get (obj_of (item_fields d @ ti_extra d)) ''status'' = Some (JStr (ti_status d))"
    and "obj_get (obj_of (item_fields d @ ti_extra d)) ''title'' = map_option JStr (ti_title d)"
    and "obj_get (obj_of (item_fields d @ ti_extra d)) ''text'' = map_option JStr (ti_text d)"
    and "obj_get (obj_of (item_fields d @ ti_extra d)) ''metadata'' = map_option JObj (ti_metadata d)"
  by (subst extra_get [OF assms];
      simp add: item_keys_def item_fields_def map_add_def split: option.splits)+

lemma item_round: "item_ok d \<Longrightarrow> parse_item (item_value d) = Inr d"
  using item_extra_round [of d] by (simp add: parse_item_Inr item_value_def item_get item_ok_def)

lemma thread_read_round: "thread_read_ok r \<Longrightarrow> parse_thread_read_result (thread_read_value r) = Inr r"
  by (auto simp: parse_thread_read_Inr thread_read_value_def thread_read_ok_def obj_get_of map_add_def
      thread_round list_all_iff collect_Inr list_all2_map1 item_round list.rel_refl_strong option.pred_set
      intro!: list.rel_refl_strong split: option.splits)

lemma wf_obj_of: "(\<forall>p \<in> set kvs. wf_json (snd p)) \<Longrightarrow> wf_json (JObj (obj_of kvs))"
proof (induction kvs rule: rev_induct)
  case (snoc p kvs)
  then show ?case
    using sorted_obj_of [of "kvs @ [p]"] set_obj_insert [of "fst p" "snd p" "obj_of kvs"]
    by (cases p) (auto simp: obj_of_snoc list_all_iff)
qed (simp add: obj_of_def)

lemma wf_thread_value: "wf_json (thread_value d)"
  unfolding thread_value_def by (rule wf_obj_of) (auto simp: set_given_field)

lemma wf_item_value: "item_ok d \<Longrightarrow> wf_json (item_value d)"
  unfolding item_value_def
  by (rule wf_obj_of) (auto simp: item_fields_def set_given_field item_ok_def list_all_iff)

lemma wf_thread_read_value: "thread_read_ok r \<Longrightarrow> wf_json (thread_read_value r)"
  unfolding thread_read_value_def
  by (rule wf_obj_of) (auto simp: set_given_field thread_read_ok_def list_all_iff events_value_def
      wf_thread_value wf_item_value)

lemma wf_member: "wf_json (JObj o') \<Longrightarrow> obj_get o' k = Some v \<Longrightarrow> wf_json v"
  by (auto simp: obj_get_def list_all_iff dest!: map_of_SomeD)

lemma sorted_filter_keys:
  "sorted_wrt (<) (map fst o') \<Longrightarrow> sorted_wrt (<) (map fst (filter P o'))"
  by (induction o') auto

lemma parsed_item_ok:
  assumes "wf_json v" and "parse_item v = Inr d"
  shows "item_ok d"
proof -
  obtain o' where v: "v = JObj o'" and typed: "item_typed d"
    and meta: "obj_get o' ''metadata'' = map_option JObj (ti_metadata d)"
    and extra: "ti_extra d = drop_keys (set item_keys) o'"
    using assms(2) by (auto simp: parse_item_Inr remove_keys)
  have "wf_json (JObj m)" if "ti_metadata d = Some m" for m
    using wf_member [of o' "''metadata''"] assms(1) meta that by (simp add: v)
  moreover have "wf_json (JObj (ti_extra d))"
    using assms(1) by (auto simp: v extra drop_keys_def sorted_filter_keys list_all_iff)
  moreover have "set item_keys \<inter> fst ` set (ti_extra d) = {}"
    by (auto simp: extra drop_keys_def)
  ultimately show ?thesis
    using typed by (simp add: item_ok_def option.pred_set)
qed

lemma parsed_read_ok:
  assumes "wf_json v" and "parse_thread_read_result v = Inr r"
  shows "thread_read_ok r"
proof -
  obtain o' t rows where v: "v = JObj o'" and thread: "parse_thread t = Inr (trr_thread r)"
    and items: "obj_get o' ''items'' = Some (JArr rows)" "length rows \<le> max_result_items"
      "collect parse_item rows = Inr (trr_items r)"
    and events: "obj_get o' ''events'' = map_option events_value (trr_events r)"
      "pred_option (\<lambda>es. length es \<le> max_result_events) (trr_events r)"
    and rest: "valid_prefixed_id (trr_server_instance_id r) ''srv_'' max_server_instance_id"
      "trr_snapshot_seq r \<le> max_seq" "pred_option (\<lambda>n. n \<le> max_seq) (trr_next_seq r)"
    using assms(2) by (auto simp: parse_thread_read_Inr)
  have "thread_ok (trr_thread r)" using thread by (simp add: parse_thread_Inr)
  moreover have "item_ok d" if member: "d \<in> set (trr_items r)" for d
  proof -
    obtain x where "x \<in> set rows" and "parse_item x = Inr d"
      using collect_mem [OF items(3) member] by blast
    moreover have "wf_json x"
      using wf_member [OF _ items(1)] assms(1) \<open>x \<in> set rows\<close> by (auto simp: v list_all_iff)
    ultimately show ?thesis using parsed_item_ok by blast
  qed
  moreover have "wf_json (JObj e)" if "trr_events r = Some es" and "e \<in> set es" for es e
    using wf_member [of o' "''events''"] assms(1) events(1) that
    by (auto simp: v events_value_def list_all_iff)
  ultimately show ?thesis
    using rest events(2) items(2) collect_length [OF items(3)]
    by (auto simp: thread_read_ok_def list_all_iff option.pred_set)
qed

subsection \<open>What reaches the user interface\<close>


lemma collect_first_error:
  "collect f xs = Inr ys \<Longrightarrow> f x = Inl e \<Longrightarrow> collect f (xs @ x # zs) = Inl e"
  by (induction xs arbitrary: ys) (auto split: sum.splits)

lemma items_round: "list_all item_ok ds \<Longrightarrow> collect parse_item (map item_value ds) = Inr ds"
  by (induction ds) (auto simp: item_round)

lemma item_line_break:
  assumes "item_ok d" and "CHR 0x0A \<in> set s"
  shows "parse_item (item_value (d\<lparr>ti_text := Some s\<rparr>)) = Inl err_unavailable"
proof -
  define q where "q = d\<lparr>ti_text := Some s\<rparr>"
  have same: "ti_item_id q = ti_item_id d" "ti_turn_id q = ti_turn_id d" "ti_kind q = ti_kind d"
      "ti_status q = ti_status d" "ti_title q = ti_title d" "ti_extra q = ti_extra d" "ti_text q = Some s"
    by (simp_all add: q_def)
  let ?o = "obj_of (item_fields q @ ti_extra q)"
  have "set item_keys \<inter> fst ` set (ti_extra q) = {}"
    using assms(1) by (simp add: item_ok_def same)
  note get = item_get [OF this]
  have typed: "item_typed d" using assms(1) by (simp add: item_ok_def)
  have req: "required_text ?o ''itemId'' max_item_id = Inr (ti_item_id d)"
      "required_text ?o ''turnId'' max_turn_id = Inr (ti_turn_id d)"
      "required_text ?o ''kind'' 32 = Inr (ti_kind d)"
      "required_text ?o ''status'' 32 = Inr (ti_status d)"
      "optional_text ?o ''title'' max_title = Inr (ti_title d)"
    unfolding required_text_Inr optional_text_Inr get
    using typed by (simp_all add: same item_typed_def id_plain literals_plain)
  moreover have "optional_text ?o ''text'' max_item_text = Inl err_unavailable"
    unfolding optional_text_def get
    using assms(2) has_control_newline by (auto simp: same validate_text_result_def)
  moreover have "validate_id (ti_item_id d) ''item_'' max_item_id = Inr ()"
      "validate_id (ti_turn_id d) ''turn_'' max_turn_id = Inr ()"
      "ti_kind d \<in> set item_kinds" "ti_status d \<in> set item_statuses"
    using typed by (simp_all add: item_typed_def validate_id_Inr)
  ultimately have "parse_item (JObj ?o) = Inl err_unavailable"
    by (simp add: parse_item_def)
  then show ?thesis by (simp add: item_value_def q_def)
qed

text \<open>
  The desktop refuses what the frozen contract allows: however well typed the rest of a thread
  is, one item whose text has a line break makes the whole snapshot fail as an unavailability that
  the user interface is told to retry.
\<close>

theorem thread_line_break_refused:
  assumes "thread_read_ok r" and "trr_items r = xs @ d # ys" and "CHR 0x0A \<in> set s"
  shows "parse_thread_read_result
      (thread_read_value (r\<lparr>trr_items := xs @ d\<lparr>ti_text := Some s\<rparr> # ys\<rparr>)) = Inl err_unavailable
    \<and> ce_retryable err_unavailable"
proof -
  let ?items = "xs @ d\<lparr>ti_text := Some s\<rparr> # ys"
  have ok: "list_all item_ok xs" "item_ok d" and len: "length ?items \<le> max_result_items"
    using assms(1,2) by (auto simp: thread_read_ok_def)
  have "collect parse_item (map item_value ?items) = Inl err_unavailable"
    using collect_first_error [OF items_round [OF ok(1)] item_line_break [OF ok(2) assms(3)]] by simp
  moreover have "thread_ok (trr_thread r)"
    and "valid_prefixed_id (trr_server_instance_id r) ''srv_'' max_server_instance_id"
    using assms(1) by (simp_all add: thread_read_ok_def)
  moreover define o' where "o' = obj_of ([(''serverInstanceId'', JStr (trr_server_instance_id r)),
       (''thread'', thread_value (trr_thread r)), (''items'', JArr (map item_value ?items)),
       (''snapshotSeq'', JNum (PosInt (trr_snapshot_seq r)))]
     @ given_field ''events'' (map_option events_value (trr_events r))
     @ opt_nat ''nextSeq'' (trr_next_seq r))"
  moreover have "obj_get o' ''serverInstanceId'' = Some (JStr (trr_server_instance_id r))"
      "obj_get o' ''thread'' = Some (thread_value (trr_thread r))"
      "obj_get o' ''items'' = Some (JArr (map item_value ?items))"
    by (simp_all add: o'_def obj_get_of map_add_def split: option.splits)
  ultimately have "parse_thread_read_result (JObj o') = Inl err_unavailable"
    using len by (simp add: parse_thread_read_result_def require_object_def required_text_def
        required_value_def required_array_def validate_text_result_def thread_round validate_id_def
        id_plain [unfolded plain_text_def])
  then show ?thesis
    by (simp add: thread_read_value_def o'_def err_unavailable_def)
qed

definition sample_thread :: thread_dto where
  "sample_thread = \<lparr>td_thread_id = ''thr_1'', td_workspace_id = ''ws_1'', td_title = ''Demo'',
     td_status = ''idle'', td_last_seq = 1, td_active_turn_id = None\<rparr>"

definition sample_item :: thread_item_dto where
  "sample_item = \<lparr>ti_item_id = ''item_1'', ti_turn_id = ''turn_1'', ti_kind = ''agent_message'',
     ti_status = ''completed'', ti_title = None, ti_text = None, ti_metadata = None,
     ti_extra = [(''seq'', JNum (PosInt 1))]\<rparr>"

definition sample_snapshot :: "thread_item_dto list \<Rightarrow> thread_read_result" where
  "sample_snapshot items = \<lparr>trr_server_instance_id = ''srv_1'', trr_thread = sample_thread,
     trr_items = items, trr_snapshot_seq = 1, trr_events = None, trr_next_seq = None\<rparr>"

lemmas history_limits = max_workspace_id_def max_thread_id_def max_turn_id_def max_item_id_def
  max_server_instance_id_def max_title_def max_item_text_def max_result_items_def max_seq_def

lemma sample_ids:
  "valid_prefixed_id ''thr_1'' ''thr_'' max_thread_id" "valid_prefixed_id ''ws_1'' ''ws_'' max_workspace_id"
  "valid_prefixed_id ''item_1'' ''item_'' max_item_id" "valid_prefixed_id ''turn_1'' ''turn_'' max_turn_id"
  "valid_prefixed_id ''srv_1'' ''srv_'' max_server_instance_id"
  by (simp_all add: valid_prefixed_id_def starts_with_def history_limits protocol_id_byte_def byte_defs)

lemma sample_snapshot_ok: "thread_read_ok (sample_snapshot [sample_item])"
  by (simp add: thread_read_ok_def sample_snapshot_def thread_ok_def sample_thread_def item_ok_def
      item_typed_def sample_item_def sample_ids plain_text_def thread_statuses_def item_kinds_def
      item_statuses_def item_keys_def sample_ids [unfolded history_limits] history_limits)

theorem thread_line_break_refused_witness:
  "parse_thread_read_result (thread_read_value
      (sample_snapshot [sample_item\<lparr>ti_text := Some [CHR ''a'', CHR 0x0A, CHR ''b'']\<rparr>])) = Inl err_unavailable"
proof -
  have "trr_items (sample_snapshot [sample_item]) = [] @ sample_item # []"
    by (simp add: sample_snapshot_def)
  from thread_line_break_refused [OF sample_snapshot_ok this, of "[CHR ''a'', CHR 0x0A, CHR ''b'']"]
  show ?thesis by (simp add: sample_snapshot_def)
qed

end
