(* ===== verification/Ja_Query_Safety.thy ===== *)
theory Ja_Query_Safety
  imports Ja_Query Ja_History_Safety Ja_Session_Inv
begin

text \<open>
  What a WebView can make the host send to the sidecar through the history, settings and turn
  commands: the history commands forward only their own validated fields, a settings query
  forwards every field it was given, and a cancellation is confirmed only for the turn it named.
  And a nested secret request the session refuses to answer stays unanswered.
\<close>

subsection \<open>Gates\<close>

lemma request_frame_sent: "snd (request_frame e req m params k) \<in> {[], [(m, params)]}"
  by (simp add: request_frame_def split: sum.splits)

lemma bridge_call_sent: "snd (bridge_call e r) \<in> {[], snd r}"
  by (simp add: bridge_call_def split: lane_answer.splits)

definition is_open :: "query_env \<Rightarrow> bool" where
  "is_open e \<longleftrightarrow> qe_bridge e \<and> qe_state e = Inr SkReady \<and> qe_running e"

lemma history_request_sent:
  "x \<in> set (snd (history_request e m params)) \<Longrightarrow>
     x = (history_wire_name m, params) \<and> qe_replay e \<and> is_open e"
  using request_frame_sent [of e "qe_request e" "history_wire_name m" params result_object]
  by (auto simp: history_request_def ready_bridge_def bridge_call_def history_request_runtime_def is_open_def
      split: if_splits sum.splits lane_answer.splits)

lemma history_request_once: "length (snd (history_request e m params)) \<le> 1"
  using request_frame_sent [of e "qe_request e" "history_wire_name m" params result_object]
  by (auto simp: history_request_def ready_bridge_def bridge_call_def history_request_runtime_def
      split: sum.splits lane_answer.splits)

subsection \<open>What the history commands forward\<close>

text \<open>
  The requests a raw command argument leads to; an argument its deserializer refuses does not
  reach the command.
\<close>

definition history_sent :: "query_env \<Rightarrow> history_method \<Rightarrow> json \<Rightarrow> sent" where
  "history_sent e m v =
     (case m of
        WorkspaceList \<Rightarrow> (case de_workspace_list v of None \<Rightarrow> [] | Some i \<Rightarrow> snd (ja_workspace_list e i))
      | ThreadCreate \<Rightarrow> (case de_thread_create v of None \<Rightarrow> [] | Some i \<Rightarrow> snd (ja_thread_create e i))
      | ThreadList \<Rightarrow> (case de_thread_list v of None \<Rightarrow> [] | Some i \<Rightarrow> snd (ja_thread_list e i))
      | ThreadRead \<Rightarrow> (case de_thread_read v of None \<Rightarrow> [] | Some i \<Rightarrow> snd (ja_thread_read e i)))"

fun history_fields :: "history_method \<Rightarrow> (str \<times> (json \<Rightarrow> bool)) list" where
  "history_fields WorkspaceList = [(''includeArchived'', \<lambda>v. as_bool v \<noteq> None)]"
| "history_fields ThreadCreate =
     [(''workspaceId'', \<lambda>v. \<exists>s. v = JStr s \<and> valid_prefixed_id s ''ws_'' max_workspace_id),
      (''title'', \<lambda>v. \<exists>s. v = JStr s \<and> plain_text max_title s),
      (''profileRevision'', \<lambda>v. \<exists>s. v = JStr s \<and> valid_prefixed_id s ''profile_'' max_profile_revision)]"
| "history_fields ThreadList =
     [(''workspaceId'', \<lambda>v. \<exists>s. v = JStr s \<and> valid_prefixed_id s ''ws_'' max_workspace_id),
      (''includeArchived'', \<lambda>v. as_bool v \<noteq> None),
      (''limit'', \<lambda>v. \<exists>n. v = JNum (PosInt n) \<and> 1 \<le> n \<and> n \<le> max_list_limit),
      (''cursor'', \<lambda>v. \<exists>s. v = JStr s \<and> length s \<le> max_cursor)]"
| "history_fields ThreadRead =
     [(''threadId'', \<lambda>v. \<exists>s. v = JStr s \<and> valid_prefixed_id s ''thr_'' max_thread_id),
      (''view'', \<lambda>v. v = JStr ''snapshot''),
      (''afterSeq'', \<lambda>v. \<exists>n. v = JNum (PosInt n) \<and> 1 \<le> n \<and> n \<le> max_seq),
      (''limit'', \<lambda>v. \<exists>n. v = JNum (PosInt n) \<and> 1 \<le> n \<and> n \<le> max_read_limit)]"

definition fields_ok :: "(str \<times> (json \<Rightarrow> bool)) list \<Rightarrow> json \<Rightarrow> bool" where
  "fields_ok fs v \<longleftrightarrow>
     (case v of JObj o' \<Rightarrow> list_all (\<lambda>(k, x). case map_of fs k of None \<Rightarrow> False | Some P \<Rightarrow> P x) o'
      | _ \<Rightarrow> False)"

lemma fields_ok_obj_of:
  "(\<forall>(k, x) \<in> set kvs. case map_of fs k of None \<Rightarrow> False | Some P \<Rightarrow> P x)
    \<Longrightarrow> fields_ok fs (JObj (obj_of kvs))"
proof (induction kvs rule: rev_induct)
  case (snoc p kvs)
  then show ?case
    using set_obj_insert [of "fst p" "snd p" "obj_of kvs"]
    by (cases p) (auto simp: fields_ok_def obj_of_snoc list_all_iff)
qed (simp add: obj_of_def fields_ok_def)

lemma opt_ex_not: "\<not> opt_ex P x \<longleftrightarrow> pred_option (\<lambda>y. \<not> P y) x"
  by (cases x) auto

lemma create_fields:
  "validate_thread_create i = Inr () \<Longrightarrow> fields_ok (history_fields ThreadCreate) (thread_create_params i)"
  unfolding thread_create_params_def
  by (rule fields_ok_obj_of)
    (auto simp: validate_thread_create_def result_iff validate_id_Inr validate_input_text_def plain_text_def
      set_given_field split: option.splits)

lemma list_fields:
  "validate_thread_list i = Inr () \<Longrightarrow> fields_ok (history_fields ThreadList) (thread_list_params i)"
  unfolding thread_list_params_def
  by (rule fields_ok_obj_of)
    (auto simp: validate_thread_list_def result_iff validate_id_Inr opt_ex_not set_given_field
      split: option.splits)

lemma view_value_snapshot: "view_value w = JStr ''snapshot''"
  by (cases w) (simp add: view_value_def)

lemma read_fields:
  "validate_thread_read i = Inr () \<Longrightarrow> fields_ok (history_fields ThreadRead) (thread_read_params i)"
  unfolding thread_read_params_def
  by (rule fields_ok_obj_of)
    (auto simp: validate_thread_read_def result_iff validate_id_Inr opt_ex_not set_given_field view_value_snapshot
      split: option.splits)

lemma workspace_fields: "fields_ok (history_fields WorkspaceList) (workspace_list_params i)"
  unfolding workspace_list_params_def by (rule fields_ok_obj_of) simp

lemma single_member: "x \<in> set xs \<Longrightarrow> length xs \<le> 1 \<Longrightarrow> xs = [x]"
  by (cases xs) auto

lemma gate_sent:
  "snd (case r of Inl er \<Rightarrow> (Inl er, []) | Inr u \<Rightarrow> parsed f h) = (if is_ok r then snd h else [])"
  by (cases r) (simp_all add: parsed_def)

lemma ok_unit: "is_ok (r :: command_error + unit) \<longleftrightarrow> r = Inr ()"
  by (cases r) auto

lemma history_sent_shape:
  "\<exists>p. fields_ok (history_fields m) p \<and> history_sent e m v \<in> {[], snd (history_request e m p)}
    \<or> history_sent e m v = []"
proof (cases m)
  case WorkspaceList
  then show ?thesis
    using workspace_fields by (auto simp: history_sent_def ja_workspace_list_def parsed_def split: option.splits)
next
  case ThreadCreate
  then show ?thesis
    using create_fields
    by (auto simp: history_sent_def ja_thread_create_def gate_sent ok_unit split: option.splits)
next
  case ThreadList
  then show ?thesis
    using list_fields
    by (auto simp: history_sent_def ja_thread_list_def gate_sent ok_unit split: option.splits)
next
  case ThreadRead
  then show ?thesis
    using read_fields
    by (auto simp: history_sent_def ja_thread_read_def gate_sent ok_unit split: option.splits)
qed

text \<open>
  C25. Whatever JSON a WebView passes to a history command, it makes the host send the sidecar at
  most one request, with that command's own method, only over a configured bridge that is Ready
  and has a process, and with no member but that command's fields, each of its type and within
  its bounds.
\<close>

theorem history_no_tunnel:
  assumes "x \<in> set (history_sent e m v)"
  shows "fst x = history_wire_name m \<and> fields_ok (history_fields m) (snd x)
    \<and> qe_replay e \<and> is_open e \<and> history_sent e m v = [x]"
proof -
  obtain p where ok: "fields_ok (history_fields m) p" and "history_sent e m v = snd (history_request e m p)"
    using history_sent_shape [of m e v] assms by auto
  then show ?thesis
    using assms history_request_sent [of x e m p] history_request_once [of e m p]
      single_member [of x "history_sent e m v"]
    by auto
qed

definition sample_env :: "rpc_frame \<Rightarrow> query_env" where
  "sample_env f = \<lparr>qe_replay = True, qe_bridge = True, qe_state = Inr SkReady, qe_lane = Queued,
     qe_in_time = True, qe_running = True, qe_request_timeout = 100, qe_remaining = Some 7,
     qe_request = (\<lambda>_ _ _. Inr f), qe_handled_request = (\<lambda>_ _ _. Inr f),
     qe_to_vec = (\<lambda>_. Some ''A''), qe_of_vec = (\<lambda>_. Some (JObj (wire_object f))),
     qe_sink = (\<lambda>_. True)\<rparr>"

definition sample_view_input :: json where
  "sample_view_input = JObj [(''extra'', JStr ''x''), (''limit'', JNum (PosInt 2)), (''threadId'', JStr ''thr_1'')]"

definition read_answer :: rpc_frame where
  "read_answer = \<lparr>frame_id_opt = Some ''c:1'', frame_method = None, frame_params = None,
     frame_result = present_some (JObj [(''hasMore'', JBool False)]), frame_error = None\<rparr>"

theorem history_no_tunnel_witness:
  "history_sent (sample_env read_answer) ThreadRead sample_view_input
     = [(''thread/read'', JObj [(''limit'', JNum (PosInt 2)), (''threadId'', JStr ''thr_1'')])]"
proof -
  let ?i = "\<lparr>tr_thread_id = ''thr_1'', tr_view = None, tr_after_seq = None, tr_limit = Some 2,
      tr_invalid_optional = False\<rparr>"
  let ?p = "JObj [(''limit'', JNum (PosInt 2)), (''threadId'', JStr ''thr_1'')]"
  have "de_thread_read sample_view_input = Some ?i"
    by (simp add: de_thread_read_def sample_view_input_def read_required_field_def read_optional_field_def)
  moreover have "validate_thread_read ?i = Inr ()"
    using sample_ids(1) by (simp add: validate_thread_read_def validate_id_def max_read_limit_def)
  moreover have "thread_read_params ?i = ?p"
    by (simp add: thread_read_params_def given_field_def obj_of_def)
  ultimately have "(''thread/read'', ?p) \<in> set (history_sent (sample_env read_answer) ThreadRead sample_view_input)"
    by (simp add: history_sent_def ja_thread_read_def parsed_def history_request_def ready_bridge_def
        bridge_call_def history_request_runtime_def request_frame_def operation_timeout_def sample_env_def)
  from history_no_tunnel [OF this] show ?thesis by blast
qed

subsection \<open>Cancelling a turn\<close>

lemma params_turn_id:
  "turn_cancel_params i = Inr p \<Longrightarrow> json_get p ''turnId'' = Some (JStr (tx_turn_id i))"
  by (auto simp: turn_cancel_params_def obj_get_of map_add_def split: if_splits option.splits)

lemma parse_turn_cancel_Inr:
  "parse_turn_cancel_result t v = Inr r \<Longrightarrow> tx_accepted r \<and> tx_result_turn_id r = t
     \<and> tx_status r \<in> {''interrupting'', ''interrupted''}"
  by (auto simp: parse_turn_cancel_result_def result_iff)

text \<open>
  A cancellation is reported as accepted only when exactly one \<open>turn/cancel\<close> for that thread and
  that turn was handed to the running sidecar and its answer accepted the same turn as
  interrupting or interrupted.
\<close>

theorem turn_cancel_confirmed:
  assumes "bridge_turn_cancel e i = (Inr r, sent)"
  shows "tx_accepted r \<and> tx_result_turn_id r = tx_turn_id i
    \<and> tx_status r \<in> {''interrupting'', ''interrupted''} \<and> qe_running e
    \<and> (\<exists>p. sent = [(''turn/cancel'', p)] \<and> json_get p ''threadId'' = Some (JStr (tx_thread_id i))
         \<and> json_get p ''turnId'' = Some (JStr (tx_turn_id i)))"
proof -
  obtain p where p: "turn_cancel_params i = Inr p" and call: "bridge_call e (turn_cancel_runtime e p) = (Inr r, sent)"
    using assms by (auto simp: bridge_turn_cancel_def split: sum.splits)
  have run: "turn_cancel_runtime e p = (Inr r, sent)"
    using call by (cases "turn_cancel_runtime e p")
      (auto simp: bridge_call_def split: lane_answer.splits if_splits)
  note turn = params_turn_id [OF p]
  have frame: "request_frame e (qe_request e) ''turn/cancel'' p (parse_turn_cancel_result (tx_turn_id i))
      = (Inr r, sent)" and "qe_running e"
    using run turn by (auto simp: turn_cancel_runtime_def split: if_splits sum.splits option.splits)
  then obtain v where "parse_turn_cancel_result (tx_turn_id i) v = Inr r" and "sent = [(''turn/cancel'', p)]"
    by (auto simp: request_frame_def and_then_Inr split: sum.splits option.splits)
  moreover have "json_get p ''threadId'' = Some (JStr (tx_thread_id i))"
    using p by (auto simp: turn_cancel_params_def obj_get_of map_add_def split: if_splits option.splits)
  ultimately show ?thesis
    using parse_turn_cancel_Inr turn \<open>qe_running e\<close> by auto
qed

definition cancel_answer :: rpc_frame where
  "cancel_answer = \<lparr>frame_id_opt = Some ''c:1'', frame_method = None, frame_params = None,
     frame_result = present_some (JObj [(''accepted'', JBool True), (''status'', JStr ''interrupting''),
       (''turnId'', JStr ''turn_1'')]),
     frame_error = None\<rparr>"

definition sample_cancel :: turn_cancel_input where
  "sample_cancel = \<lparr>tx_thread_id = ''thr_1'', tx_turn_id = ''turn_1'', tx_reason = None\<rparr>"

lemma cancel_answer_value:
  "frame_to_value (\<lambda>_. Some ''A'') (\<lambda>_. Some (JObj (wire_object cancel_answer))) cancel_answer
     = Inr (JObj (wire_object cancel_answer))"
proof -
  have "\<not> raw_marker False [] (JObj (wire_object cancel_answer))" by code_simp
  moreover have "validate cancel_answer = Inr Response" by code_simp
  moreover have "\<not> params_status_ready (frame_params cancel_answer)" by code_simp
  ultimately show ?thesis
    by (simp add: frame_to_value_def encode_def reject_raw_token_markers_def cancel_answer_def
        default_limits_def Let_def)
qed

theorem turn_cancel_confirmed_witness:
  "\<exists>r. bridge_turn_cancel (sample_env cancel_answer) sample_cancel
     = (Inr r, [(''turn/cancel'', JObj [(''threadId'', JStr ''thr_1''), (''turnId'', JStr ''turn_1'')])])
     \<and> tx_result_turn_id r = ''turn_1''"
proof -
  let ?p = "JObj [(''threadId'', JStr ''thr_1''), (''turnId'', JStr ''turn_1'')]"
  let ?r = "\<lparr>tx_accepted = True, tx_result_turn_id = ''turn_1'', tx_status = ''interrupting''\<rparr>"
  have turn: "valid_frozen_turn_id ''turn_1''" and "valid_protocol_id ''thr_1'' ''thr_'' 100" by code_simp+
  then have p: "turn_cancel_params sample_cancel = Inr ?p"
    by (simp add: turn_cancel_params_def sample_cancel_def given_field_def obj_of_def)
  have "parse_turn_cancel_result ''turn_1'' (JObj (wire_object cancel_answer)) = Inr ?r"
    using turn by (simp add: parse_turn_cancel_result_def wire_object_def cancel_answer_def put_opt_def
        present_some_def get_bool_def get_str_def filter_opt_def)
  moreover have "json_get (JObj (wire_object cancel_answer)) ''error'' = None"
    by (simp add: wire_object_def cancel_answer_def put_opt_def present_some_def)
  ultimately have e: "bridge_turn_cancel (sample_env cancel_answer) sample_cancel = (Inr ?r, [(''turn/cancel'', ?p)])"
    using turn cancel_answer_value
    by (simp add: bridge_turn_cancel_def p bridge_call_def turn_cancel_runtime_def sample_env_def
        request_frame_def operation_timeout_def filter_opt_def)
  show ?thesis using turn_cancel_confirmed [OF e] e by (auto simp: sample_cancel_def)
qed

subsection \<open>What a settings query forwards\<close>

text \<open>
  A list query is forwarded with whatever members it was given, although the surface is meant to
  carry bounded identifiers only.
\<close>

theorem list_query_forwards_all:
  assumes "is_open e" and "qe_lane e = Queued" and "qe_remaining e = None"
  shows "snd (ja_runtime_query e \<lparr>sq_method = ''mcp/list'', sq_params = JObj o'\<rparr>) = [(''mcp/list'', JObj o')]"
  using assms
  by (simp add: ja_runtime_query_def query_validate_def query_parse_def max_method_def parsed_def
      settings_query_def ready_bridge_def is_open_def bridge_call_def settings_query_runtime_def
      request_frame_def operation_timeout_def)

subsection \<open>A secret that is never delivered\<close>

text \<open>
  A stored credential of 32 hexadecimal digits is taken for a challenge: answering the
  sidecar's request for it fails in the session, the failure is dropped, and the request stays
  unanswered, with the session as it was.
\<close>

theorem hex_secret_unanswered:
  assumes "frame_method f = Some ''secret/resolve''"
    and "resolve_secret replay backend now f = Inr secret" and "is_token_shaped secret"
  shows "query_nested_request to_vec replay backend now f s = s"
  using assms
  by (simp add: query_nested_request_def respond_secret_request_def respond_result_def obj_of_def)

theorem hex_secret_unanswered_witness:
  "query_nested_request (\<lambda>_. None) (Some sample_cfg)
     (\<lambda>p r. Inr \<lparr>dl_bytes = ''0123456789abcdef0123456789abcdef'', dl_expires_at = 10\<rparr>) 5
     sample_secret_request sample_session = sample_session"
proof (rule hex_secret_unanswered)
  show "frame_method sample_secret_request = Some ''secret/resolve''"
    by (simp add: sample_secret_request_def)
  show "resolve_secret (Some sample_cfg)
      (\<lambda>p r. Inr \<lparr>dl_bytes = ''0123456789abcdef0123456789abcdef'', dl_expires_at = 10\<rparr>) 5
      sample_secret_request = Inr ''0123456789abcdef0123456789abcdef''"
    by (simp add: resolve_secret_def sample_secret_request_def requested_purpose_def requested_ref_def
        get_str_def credential_parse_def starts_with_def revision_byte_def valid_text_id_def text_id_byte_def
        byte_defs sample_cfg_def sample_profile_def authorized_def model_credential_def filter_opt_def
        deliver_def string_channel_def)
  show "is_token_shaped ''0123456789abcdef0123456789abcdef''" by code_simp
qed

end
