(* ===== verification/Ja_Workspace.thy ===== *)
theory Ja_Workspace
  imports Ja_Paths "HOL-Library.AList"
begin

text \<open>
  Reading the selected workspace (\<open>workspace_read/registry.rs\<close>, \<open>error.rs\<close>, \<open>model.rs\<close>) as it is
  compiled for Unix: the registry of roots and the guard every read goes through. The file system
  may change between any two calls of the operating system, so an operation is a function of a
  world, the file system at each call in turn, and of the number of calls made so far.
\<close>

subsection \<open>The operating system\<close>

datatype io_kind = IoNotFound | IoPermissionDenied | IoOther str

datatype node_kind = NodeFile | NodeDir | NodeSymlink | NodeOther

text \<open>
  \<open>fs::Metadata\<close>: \<open>om_modified\<close> is the modification time in Unix milliseconds, None where it is
  not available or before the epoch.
\<close>

record os_metadata =
  om_kind :: node_kind
  om_len :: nat
  om_modified :: "nat option"
  om_links :: nat

record file_identity =
  fi_volume :: nat
  fi_file :: nat

text \<open>
  The calls: \<open>symlink_metadata\<close>, the device and inode of \<open>metadata\<close>, \<open>canonicalize\<close>, the bytes an
  opened file gives and the error after them (None at its end), the entries of \<open>read_dir\<close> with their names, and whether the scan's deadline
  has passed when the clock is read.
\<close>

record file_system =
  fs_lstat :: "str \<Rightarrow> io_kind + os_metadata"
  fs_identity :: "str \<Rightarrow> io_kind + file_identity"
  fs_canonicalize :: "str \<Rightarrow> io_kind + str"
  fs_open :: "str \<Rightarrow> io_kind + bytes \<times> io_kind option"
  fs_read_dir :: "str \<Rightarrow> io_kind + (io_kind + bytes) list"
  fs_late :: bool

type_synonym world = "nat \<Rightarrow> file_system"

datatype workspace_error =
    WInvalidRoot | WWorkspaceNotFound | WInvalidRelativePath | WOutsideWorkspace | WPathChanged
  | WLinkNotAllowed | WPathNotFound | WNotDirectory | WNotFile | WEntryBudgetExceeded
  | WDepthLimitExceeded | WScanDeadlineExceeded | WStaleCursor | WFileTooLarge
  | WChangedDuringRead | WIo str io_kind

type_synonym ('e, 'a) os_op = "world \<Rightarrow> nat \<Rightarrow> ('e + 'a) \<times> nat"

type_synonym 'a fs_op = "(workspace_error, 'a) os_op"

definition op_ok :: "'a \<Rightarrow> ('e, 'a) os_op" where
  "op_ok x w t = (Inr x, t)"

definition op_err :: "'e \<Rightarrow> ('e, 'a) os_op" where
  "op_err e w t = (Inl e, t)"

definition op_bind :: "('e, 'a) os_op \<Rightarrow> ('a \<Rightarrow> ('e, 'b) os_op) \<Rightarrow> ('e, 'b) os_op" where
  "op_bind m f w t = (case m w t of (Inl e, t') \<Rightarrow> (Inl e, t') | (Inr x, t') \<Rightarrow> f x w t')"

definition op_call :: "(file_system \<Rightarrow> io_kind + 'a) \<Rightarrow> (io_kind \<Rightarrow> 'e) \<Rightarrow> ('e, 'a) os_op" where
  "op_call f h w t = (map_err h (f (w t)), Suc t)"

definition op_lift :: "'e + 'a \<Rightarrow> ('e, 'a) os_op" where
  "op_lift r w t = (r, t)"

definition op_require :: "bool \<Rightarrow> 'e \<Rightarrow> ('e, unit) os_op" where
  "op_require b e = op_lift (require b e)"

fun op_each :: "('a \<Rightarrow> ('e, unit) os_op) \<Rightarrow> 'a list \<Rightarrow> ('e, unit) os_op" where
  "op_each f [] = op_ok ()"
| "op_each f (x # xs) = op_bind (f x) (\<lambda>_. op_each f xs)"

definition map_path_error :: "str \<Rightarrow> io_kind \<Rightarrow> workspace_error" where
  "map_path_error operation k = (case k of IoNotFound \<Rightarrow> WPathNotFound | _ \<Rightarrow> WIo operation k)"

abbreviation lstat :: "str \<Rightarrow> (io_kind \<Rightarrow> 'e) \<Rightarrow> ('e, os_metadata) os_op" where
  "lstat p h \<equiv> op_call (\<lambda>fs. fs_lstat fs p) h"

abbreviation real_path :: "str \<Rightarrow> (io_kind \<Rightarrow> 'e) \<Rightarrow> ('e, str) os_op" where
  "real_path p h \<equiv> op_call (\<lambda>fs. fs_canonicalize fs p) h"

definition physical_identity :: "str \<Rightarrow> file_identity fs_op" where
  "physical_identity p = op_call (\<lambda>fs. fs_identity fs p) (WIo ''identity'')"

definition is_link :: "os_metadata \<Rightarrow> bool" where
  "is_link m \<longleftrightarrow> om_kind m = NodeSymlink"

definition not_link :: "os_metadata \<Rightarrow> unit fs_op" where
  "not_link m = op_require (\<not> is_link m) WLinkNotAllowed"

text \<open>Outside Windows no entry is a reparse point.\<close>

datatype entry_kind = EkFile | EkDirectory | EkSymlink | EkReparsePoint | EkOther

definition entry_kind_of :: "os_metadata \<Rightarrow> entry_kind" where
  "entry_kind_of m = (case om_kind m of
     NodeSymlink \<Rightarrow> EkSymlink | NodeFile \<Rightarrow> EkFile | NodeDir \<Rightarrow> EkDirectory | NodeOther \<Rightarrow> EkOther)"

subsection \<open>Handles\<close>

record workspace_handle =
  wh_id :: nat
  wh_root :: str
  wh_root_identity :: file_identity

record resolved_path =
  rp_path :: str
  rp_components :: "(str \<times> file_identity) list"
  rp_final_identity :: file_identity

definition validate_relative_path :: "str \<Rightarrow> workspace_error + unit" where
  "validate_relative_path p =
     (if CHR 0x00 \<in> set p \<or> 4 * 1024 < length p \<or> CHR '':'' \<in> set p \<or> CHR 0x5C \<in> set p
      then Inl WInvalidRelativePath
      else if is_absolute p then Inl WInvalidRelativePath
      else for_each (\<lambda>c. case c of
          RootDir \<Rightarrow> Inl WInvalidRelativePath
        | ParentDir \<Rightarrow> Inl WInvalidRelativePath
        | CurDir \<Rightarrow> if p = [] then Inr () else Inl WInvalidRelativePath
        | Normal _ \<Rightarrow> Inr ()) (components p))"

definition git_magic :: "char \<Rightarrow> bool" where
  "git_magic c \<longleftrightarrow> c \<in> {CHR ''*'', CHR ''?'', CHR ''['', CHR '']'', CHR '':''}"

definition validate_git_path :: "str \<Rightarrow> workspace_error + unit" where
  "validate_git_path p =
     (if p = [] then Inl WInvalidRelativePath
      else and_then (validate_relative_path p) (\<lambda>_.
        if list_ex git_magic p then Inl WInvalidRelativePath else Inr ()))"

definition verify_root_identity :: "workspace_handle \<Rightarrow> unit fs_op" where
  "verify_root_identity h =
     op_bind (lstat (wh_root h) (map_path_error ''root'')) (\<lambda>m.
     op_bind (not_link m) (\<lambda>_.
     if om_kind m \<noteq> NodeDir then op_err WPathChanged
     else op_bind (physical_identity (wh_root h)) (\<lambda>i.
       op_require (i = wh_root_identity h) WPathChanged)))"

definition verify_component :: "str \<times> file_identity \<Rightarrow> unit fs_op" where
  "verify_component c =
     op_bind (lstat (fst c) (map_path_error ''recheck'')) (\<lambda>m.
     op_bind (not_link m) (\<lambda>_.
     op_bind (physical_identity (fst c)) (\<lambda>i. op_require (i = snd c) WPathChanged)))"

definition recheck_kind :: "bool option \<Rightarrow> os_metadata \<Rightarrow> unit fs_op" where
  "recheck_kind directory m =
     (case directory of
        None \<Rightarrow> op_ok ()
      | Some d \<Rightarrow> op_require (d = (om_kind m = NodeDir)) (if d then WNotDirectory else WNotFile))"

definition verify_resolved ::
    "workspace_handle \<Rightarrow> resolved_path \<Rightarrow> bool option \<Rightarrow> unit fs_op" where
  "verify_resolved h r directory =
     op_bind (verify_root_identity h) (\<lambda>_.
     op_bind (op_each verify_component (rp_components r)) (\<lambda>_.
     op_bind (real_path (rp_path r) (map_path_error ''recheck'')) (\<lambda>canon.
     op_bind (op_require (canon = rp_path r \<and> path_is_within (wh_root h) canon) WPathChanged) (\<lambda>_.
     op_bind (lstat canon (map_path_error ''recheck'')) (\<lambda>m.
     op_bind (not_link m) (\<lambda>_.
     op_bind (physical_identity canon) (\<lambda>i.
     op_bind (op_require (i = rp_final_identity r) WPathChanged) (\<lambda>_.
     op_bind (recheck_kind directory m) (\<lambda>_.
     op_bind (op_require (\<not> (om_kind m = NodeFile \<and> 1 < om_links m)) WLinkNotAllowed) (\<lambda>_.
     verify_root_identity h))))))))))"

fun resolve_components :: "str \<Rightarrow> path_component list \<Rightarrow> (str \<times> (str \<times> file_identity) list) fs_op" where
  "resolve_components current [] = op_ok (current, [])"
| "resolve_components current (Normal name # cs) =
     op_bind (lstat (path_join current name) (map_path_error ''stat'')) (\<lambda>m.
     op_bind (not_link m) (\<lambda>_.
     op_bind (physical_identity (path_join current name)) (\<lambda>i.
     op_bind (resolve_components (path_join current name) cs) (\<lambda>(p, ids).
     op_ok (p, (path_join current name, i) # ids)))))"
| "resolve_components current (_ # cs) = resolve_components current cs"

definition require_kind :: "bool option \<Rightarrow> os_metadata \<Rightarrow> unit fs_op" where
  "require_kind directory m =
     (case directory of
        None \<Rightarrow> op_ok ()
      | Some d \<Rightarrow>
          if d \<and> om_kind m \<noteq> NodeDir then op_err WNotDirectory
          else if \<not> d \<and> om_kind m \<noteq> NodeFile then op_err WNotFile
          else op_ok ())"

definition finish_guard ::
    "workspace_handle \<Rightarrow> bool option \<Rightarrow> str \<Rightarrow> (str \<times> file_identity) list \<Rightarrow> resolved_path fs_op" where
  "finish_guard h directory current ids =
     op_bind (real_path current (map_path_error ''resolve'')) (\<lambda>canon.
     op_bind (op_require (path_is_within (wh_root h) canon) WOutsideWorkspace) (\<lambda>_.
     op_bind (lstat canon (map_path_error ''stat'')) (\<lambda>m.
     op_bind (not_link m) (\<lambda>_.
     op_bind (require_kind directory m) (\<lambda>_.
     op_bind (op_require (\<not> (om_kind m = NodeFile \<and> 1 < om_links m)) WLinkNotAllowed) (\<lambda>_.
     op_bind (physical_identity canon) (\<lambda>i.
     let r = \<lparr>rp_path = canon, rp_components = ids, rp_final_identity = i\<rparr>
     in op_bind (verify_resolved h r directory) (\<lambda>_. op_ok r))))))))"

definition resolve_guard :: "workspace_handle \<Rightarrow> str \<Rightarrow> bool option \<Rightarrow> resolved_path fs_op" where
  "resolve_guard h p directory =
     op_bind (op_lift (validate_relative_path p)) (\<lambda>_.
     op_bind (verify_root_identity h) (\<lambda>_.
     op_bind (resolve_components (wh_root h) (components p)) (\<lambda>(current, ids).
     finish_guard h directory current ids)))"

definition resolve_file :: "workspace_handle \<Rightarrow> str \<Rightarrow> str fs_op" where
  "resolve_file h p = op_bind (resolve_guard h p (Some False)) (\<lambda>r. op_ok (rp_path r))"

definition resolve_directory :: "workspace_handle \<Rightarrow> str \<Rightarrow> str fs_op" where
  "resolve_directory h p = op_bind (resolve_guard h p (Some True)) (\<lambda>r. op_ok (rp_path r))"

subsection \<open>The registry\<close>

text \<open>
  The map from ids to handles with the flag of its poisoned lock; a new id is random and an
  argument, and so is the current directory.
\<close>

record workspace_registry =
  wr_handles :: "(nat \<times> workspace_handle) list"
  wr_poisoned :: bool

definition registry_error :: workspace_error where
  "registry_error = WIo ''registry'' (IoOther ''Other'')"

definition absolute_path :: "io_kind + str \<Rightarrow> str \<Rightarrow> workspace_error + str" where
  "absolute_path cwd p =
     (if is_absolute p then Inr p
      else and_then (map_err (map_path_error ''root'') cwd) (\<lambda>d. Inr (path_join d p)))"

text \<open>\<open>PathBuf::pop\<close>: the path without its last component; a root stays.\<close>

definition path_parent :: "str \<Rightarrow> str" where
  "path_parent p =
     (if p = [slash] then p
      else let parts = split_on slash p
        in if length parts = 2 \<and> hd parts = [] then [slash] else join_with slash (butlast parts))"

fun reject_links_from :: "str \<Rightarrow> path_component list \<Rightarrow> unit fs_op" where
  "reject_links_from current [] = op_ok ()"
| "reject_links_from current (RootDir # cs) = reject_links_from (path_join current [slash]) cs"
| "reject_links_from current (CurDir # cs) = reject_links_from current cs"
| "reject_links_from current (ParentDir # cs) = reject_links_from (path_parent current) cs"
| "reject_links_from current (Normal name # cs) =
     op_bind (lstat (path_join current name) (map_path_error ''root'')) (\<lambda>m.
     op_bind (op_require (\<not> is_link m) WInvalidRoot) (\<lambda>_.
     reject_links_from (path_join current name) cs))"

definition reject_link_components :: "str \<Rightarrow> unit fs_op" where
  "reject_link_components p = reject_links_from [] (components p)"

definition register ::
    "nat \<Rightarrow> io_kind + str \<Rightarrow> str \<Rightarrow> workspace_registry \<Rightarrow> (nat \<times> workspace_registry) fs_op" where
  "register i cwd root g =
     op_bind (op_lift (absolute_path cwd root)) (\<lambda>raw.
     op_bind (reject_link_components raw) (\<lambda>_.
     op_bind (lstat raw (map_path_error ''root'')) (\<lambda>rm.
     op_bind (op_require (\<not> is_link rm) WInvalidRoot) (\<lambda>_.
     op_bind (real_path raw (map_path_error ''root'')) (\<lambda>p.
     op_bind (lstat p (map_path_error ''root'')) (\<lambda>m.
     op_bind (op_require (om_kind m = NodeDir \<and> \<not> is_link m) WInvalidRoot) (\<lambda>_.
     op_bind (physical_identity p) (\<lambda>ident.
     op_bind (op_require (\<not> wr_poisoned g) registry_error) (\<lambda>_.
     op_ok (i, g\<lparr>wr_handles := AList.update i
       \<lparr>wh_id = i, wh_root = p, wh_root_identity = ident\<rparr> (wr_handles g)\<rparr>))))))))))"

definition registry_get :: "workspace_registry \<Rightarrow> nat \<Rightarrow> workspace_error + workspace_handle" where
  "registry_get g i =
     (if wr_poisoned g then Inl registry_error
      else ok_or (map_of (wr_handles g) i) WWorkspaceNotFound)"

definition registry_remove ::
    "workspace_registry \<Rightarrow> nat \<Rightarrow> (workspace_error + bool) \<times> workspace_registry" where
  "registry_remove g i =
     (if wr_poisoned g then (Inl registry_error, g)
      else (Inr (map_of (wr_handles g) i \<noteq> None), g\<lparr>wr_handles := AList.delete i (wr_handles g)\<rparr>))"

definition registry_list :: "workspace_registry \<Rightarrow> workspace_error + nat list" where
  "registry_list g =
     (if wr_poisoned g then Inl registry_error else Inr (sort (map fst (wr_handles g))))"

end
