(* ===== verification/Ja_Workspace_Safety.thy ===== *)
theory Ja_Workspace_Safety
  imports Ja_Workspace
begin

text \<open>
  Reasoning about operations over a changing file system, and what the guard of the workspace
  establishes: which call saw what, and that an operation depends on no other moment than those
  of its own calls.
\<close>

subsection \<open>When an operation succeeds\<close>

lemma op_ok_Inr [result_iff]: "op_ok x w t = (Inr y, t') \<longleftrightarrow> y = x \<and> t' = t"
  by (auto simp: op_ok_def)

lemma op_err_Inr [result_iff]: "op_err e w t = (Inr y, t') \<longleftrightarrow> False"
  by (simp add: op_err_def)

lemma op_bind_Inr [result_iff]:
  "op_bind m f w t = (Inr y, t') \<longleftrightarrow> (\<exists>x k. m w t = (Inr x, k) \<and> f x w k = (Inr y, t'))"
  by (auto simp: op_bind_def split: prod.splits sum.splits)

lemma op_call_Inr [result_iff]: "op_call f h w t = (Inr y, t') \<longleftrightarrow> f (w t) = Inr y \<and> t' = Suc t"
  by (auto simp: op_call_def map_err_Inr)

lemma op_lift_Inr [result_iff]: "op_lift r w t = (Inr y, t') \<longleftrightarrow> r = Inr y \<and> t' = t"
  by (auto simp: op_lift_def)

lemma op_require_Inr [result_iff]: "op_require b e w t = (Inr y, t') \<longleftrightarrow> b \<and> t' = t"
  by (auto simp: op_require_def op_lift_Inr require_Inr)

lemma not_link_Inr [result_iff]: "not_link m w t = (Inr y, t') \<longleftrightarrow> \<not> is_link m \<and> t' = t"
  by (simp add: not_link_def op_require_Inr)

lemma physical_identity_Inr [result_iff]:
  "physical_identity p w t = (Inr i, t') \<longleftrightarrow> fs_identity (w t) p = Inr i \<and> t' = Suc t"
  by (auto simp: physical_identity_def op_call_Inr)

text \<open>The root is still the directory that was admitted, seen by two calls.\<close>

definition root_seen :: "workspace_handle \<Rightarrow> world \<Rightarrow> nat \<Rightarrow> bool" where
  "root_seen h w t \<longleftrightarrow>
     (\<exists>m. fs_lstat (w t) (wh_root h) = Inr m \<and> om_kind m = NodeDir)
     \<and> fs_identity (w (Suc t)) (wh_root h) = Inr (wh_root_identity h)"

lemma verify_root_Inr [result_iff]:
  "verify_root_identity h w t = (Inr y, t') \<longleftrightarrow> root_seen h w t \<and> t' = t + 2"
  by (auto simp: verify_root_identity_def result_iff root_seen_def is_link_def)

definition component_seen :: "str \<times> file_identity \<Rightarrow> world \<Rightarrow> nat \<Rightarrow> bool" where
  "component_seen c w t \<longleftrightarrow>
     (\<exists>m. fs_lstat (w t) (fst c) = Inr m \<and> \<not> is_link m) \<and> fs_identity (w (Suc t)) (fst c) = Inr (snd c)"

lemma verify_component_Inr [result_iff]:
  "verify_component c w t = (Inr y, t') \<longleftrightarrow> component_seen c w t \<and> t' = t + 2"
  by (auto simp: verify_component_def result_iff component_seen_def)

lemma verify_components_Inr:
  "op_each verify_component cs w t = (Inr y, t') \<longleftrightarrow>
     (\<forall>i < length cs. component_seen (cs ! i) w (t + 2 * i)) \<and> t' = t + 2 * length cs"
proof (induction cs arbitrary: t)
  case (Cons c cs)
  have "(\<forall>i < length (c # cs). component_seen ((c # cs) ! i) w (t + 2 * i))
      \<longleftrightarrow> component_seen c w t \<and> (\<forall>i < length cs. component_seen (cs ! i) w (t + 2 + 2 * i))"
    by (auto simp: less_Suc_eq_0_disj)
  then show ?case using Cons [of "t + 2"] by (auto simp: result_iff)
qed (auto simp: result_iff)

text \<open>
  What one verification saw, from its first call at \<open>t\<close>: the root, every component, the canonical
  path, its kind and its identity, and the root again.
\<close>

definition kind_fits :: "bool option \<Rightarrow> os_metadata \<Rightarrow> bool" where
  "kind_fits directory m \<longleftrightarrow> (case directory of None \<Rightarrow> True | Some d \<Rightarrow> d = (om_kind m = NodeDir))"

definition single_link :: "os_metadata \<Rightarrow> bool" where
  "single_link m \<longleftrightarrow> \<not> (om_kind m = NodeFile \<and> 1 < om_links m)"

definition path_seen ::
    "workspace_handle \<Rightarrow> resolved_path \<Rightarrow> bool option \<Rightarrow> world \<Rightarrow> nat \<Rightarrow> bool" where
  "path_seen h r directory w t \<longleftrightarrow>
     root_seen h w t
     \<and> (\<forall>i < length (rp_components r). component_seen (rp_components r ! i) w (t + 2 + 2 * i))
     \<and> (let k = t + 2 + 2 * length (rp_components r)
        in fs_canonicalize (w k) (rp_path r) = Inr (rp_path r)
           \<and> path_is_within (wh_root h) (rp_path r)
           \<and> (\<exists>m. fs_lstat (w (k + 1)) (rp_path r) = Inr m \<and> \<not> is_link m \<and> kind_fits directory m
                \<and> single_link m)
           \<and> fs_identity (w (k + 2)) (rp_path r) = Inr (rp_final_identity r)
           \<and> root_seen h w (k + 3))"

definition verify_calls :: "resolved_path \<Rightarrow> nat" where
  "verify_calls r = 7 + 2 * length (rp_components r)"

lemma recheck_kind_Inr [result_iff]:
  "recheck_kind directory m w t = (Inr y, t') \<longleftrightarrow> kind_fits directory m \<and> t' = t"
  by (cases directory) (auto simp: recheck_kind_def kind_fits_def result_iff)

lemma require_kind_Inr [result_iff]:
  "require_kind directory m w t = (Inr y, t') \<longleftrightarrow>
     pred_option (\<lambda>d. om_kind m = (if d then NodeDir else NodeFile)) directory \<and> t' = t"
  by (cases directory) (auto simp: require_kind_def result_iff)

lemma verify_resolved_Inr [result_iff]:
  "verify_resolved h r directory w t = (Inr y, t') \<longleftrightarrow>
     path_seen h r directory w t \<and> t' = t + verify_calls r"
  unfolding verify_resolved_def op_bind_Inr op_call_Inr op_require_Inr not_link_Inr physical_identity_Inr
    verify_root_Inr verify_components_Inr recheck_kind_Inr path_seen_def Let_def single_link_def verify_calls_def
  by (auto simp: eval_nat_numeral)

subsection \<open>Relative paths\<close>

lemma relative_components:
  assumes "validate_relative_path p = Inr ()"
  shows "c \<in> set (components p) \<Longrightarrow> \<exists>n. c = Normal n"
proof -
  assume c: "c \<in> set (components p)"
  then have "p \<noteq> []" by (auto simp: components_def named_def is_absolute_def)
  then have "case c of Normal _ \<Rightarrow> True | _ \<Rightarrow> False"
    using assms c by (auto simp: validate_relative_path_def result_iff split: path_component.splits)
  then show ?thesis by (cases c) auto
qed

fun step_paths :: "str \<Rightarrow> path_component list \<Rightarrow> str list" where
  "step_paths current [] = []"
| "step_paths current (Normal n # cs) = path_join current n # step_paths (path_join current n) cs"
| "step_paths current (_ # cs) = step_paths current cs"

lemma resolve_components_Inr:
  "resolve_components current cs w t = (Inr (p, ids), t') \<Longrightarrow>
     map fst ids = step_paths current cs \<and> p = last (current # step_paths current cs)
     \<and> t' = t + 2 * length ids"
proof (induction current cs arbitrary: t ids p t' rule: resolve_components.induct)
  case (2 current n cs)
  then obtain q ids' i k where rest: "resolve_components (path_join current n) cs w (Suc (Suc t)) = (Inr (q, ids'), k)"
    and r: "p = q" "ids = (path_join current n, i) # ids'" "t' = k"
    by (auto simp: result_iff)
  show ?case using "2.IH" [OF rest] r by auto
qed (auto simp: result_iff)

lemma finish_guard_Inr:
  assumes "finish_guard h directory current ids w t = (Inr r, t')"
  shows "\<exists>j. path_seen h r directory w j \<and> t \<le> j \<and> t' = j + verify_calls r \<and> rp_components r = ids"
  using assms unfolding finish_guard_def op_bind_Inr op_call_Inr op_require_Inr not_link_Inr require_kind_Inr
      physical_identity_Inr Let_def verify_resolved_Inr op_ok_Inr
  by fastforce

lemma resolve_guard_Inr:
  assumes "resolve_guard h p directory w t = (Inr r, t')"
  shows "validate_relative_path p = Inr ()"
    and "map fst (rp_components r) = step_paths (wh_root h) (components p)"
    and "path_seen h r directory w (t' - verify_calls r)" and "t + verify_calls r \<le> t'"
proof -
  obtain current ids k where val: "validate_relative_path p = Inr ()"
    and comps: "resolve_components (wh_root h) (components p) w (t + 2) = (Inr (current, ids), k)"
    and finish: "finish_guard h directory current ids w k = (Inr r, t')"
    using assms by (auto simp: resolve_guard_def op_bind_Inr op_lift_Inr verify_root_Inr)
  obtain j where j: "path_seen h r directory w j" "k \<le> j" "t' = j + verify_calls r" "rp_components r = ids"
    using finish_guard_Inr [OF finish] by blast
  show "validate_relative_path p = Inr ()" by (rule val)
  show "map fst (rp_components r) = step_paths (wh_root h) (components p)"
    using resolve_components_Inr [OF comps] j(4) by simp
  show "path_seen h r directory w (t' - verify_calls r)" using j by simp
  show "t + verify_calls r \<le> t'" using resolve_components_Inr [OF comps] j by simp
qed

subsection \<open>The guard\<close>

text \<open>
  Whenever the guard gives out a path, whatever happened to the file system between its calls:
  the relative path had only names, no \<open>..\<close> and no root; every directory on the way was checked in
  order; and there was a moment after the call from which one full verification, to its end, saw
  the admitted root, each of those components as the same entry and not a link, and the given
  path as its own canonical name inside the root, of the kind asked for, not a link and without a
  second hard link.
\<close>

theorem workspace_path_confined:
  assumes "resolve_guard h p directory w t = (Inr r, t')"
  shows "(\<forall>c \<in> set (components p). \<exists>n. c = Normal n)
    \<and> map fst (rp_components r) = step_paths (wh_root h) (components p)
    \<and> path_is_within (wh_root h) (rp_path r)
    \<and> (\<exists>k \<ge> t. k + verify_calls r = t' \<and> path_seen h r directory w k)"
proof -
  note facts = resolve_guard_Inr [OF assms]
  have seen: "path_seen h r directory w (t' - verify_calls r)" by (rule facts(3))
  have "path_is_within (wh_root h) (rp_path r)" using seen by (simp add: path_seen_def Let_def)
  moreover have "\<exists>k \<ge> t. k + verify_calls r = t' \<and> path_seen h r directory w k"
    using seen facts(4) by (intro exI [of _ "t' - verify_calls r"]) auto
  ultimately show ?thesis using relative_components [OF facts(1)] facts(2) by blast
qed

text \<open>A file \<open>a\<close> under the root \<open>/r\<close>, in a file system that does not change.\<close>

definition sample_file_system :: file_system where
  "sample_file_system = \<lparr>
     fs_lstat = (\<lambda>p. if p = ''/r'' then Inr \<lparr>om_kind = NodeDir, om_len = 0, om_modified = None, om_links = 2\<rparr>
        else if p = ''/r/a'' then Inr \<lparr>om_kind = NodeFile, om_len = 1, om_modified = None, om_links = 1\<rparr>
        else Inl IoNotFound),
     fs_identity = (\<lambda>p. if p = ''/r'' then Inr \<lparr>fi_volume = 1, fi_file = 2\<rparr>
        else if p = ''/r/a'' then Inr \<lparr>fi_volume = 1, fi_file = 3\<rparr> else Inl IoNotFound),
     fs_canonicalize = (\<lambda>p. Inr p),
     fs_open = (\<lambda>p. if p = ''/r/a'' then Inr (''h'', None) else Inl IoNotFound),
     fs_read_dir = (\<lambda>p. if p = ''/r'' then Inr [Inr ''a''] else Inl IoNotFound),
     fs_late = False\<rparr>"

definition sample_handle :: workspace_handle where
  "sample_handle = \<lparr>wh_id = 1, wh_root = ''/r'', wh_root_identity = \<lparr>fi_volume = 1, fi_file = 2\<rparr>\<rparr>"

definition sample_resolved :: resolved_path where
  "sample_resolved = \<lparr>rp_path = ''/r/a'', rp_components = [(''/r/a'', \<lparr>fi_volume = 1, fi_file = 3\<rparr>)],
     rp_final_identity = \<lparr>fi_volume = 1, fi_file = 3\<rparr>\<rparr>"

lemma sample_guard:
  "resolve_guard sample_handle ''a'' (Some False) (\<lambda>_. sample_file_system) 0 = (Inr sample_resolved, 16)"
  by code_simp

theorem workspace_path_confined_witness:
  "path_is_within ''/r'' (rp_path sample_resolved)
   \<and> (\<exists>k. k + verify_calls sample_resolved = 16
        \<and> path_seen sample_handle sample_resolved (Some False) (\<lambda>_. sample_file_system) k)"
  using workspace_path_confined [OF sample_guard] by (auto simp: sample_handle_def)

end
