(* ===== verification/Ja_Utf.thy ===== *)
theory Ja_Utf
  imports Ja_Prelude
begin

text \<open>
  Unicode text as the standard library encodes it: scalar values, UTF-8 (a Rust string) and
  UTF-16 (\<open>String::from_utf16\<close>), with the round trips between them.
\<close>

definition scalar :: "nat \<Rightarrow> bool" where
  "scalar c \<longleftrightarrow> c < 0xD800 \<or> (0xE000 \<le> c \<and> c < 0x110000)"

subsection \<open>UTF-8\<close>

definition utf8_char :: "nat \<Rightarrow> bytes" where
  "utf8_char c =
     (if c < 0x80 then [char_of c]
      else if c < 0x800 then [char_of (192 + c div 64), char_of (128 + c mod 64)]
      else if c < 0x10000 then
        [char_of (224 + c div 4096), char_of (128 + c div 64 mod 64), char_of (128 + c mod 64)]
      else [char_of (240 + c div 262144), char_of (128 + c div 4096 mod 64),
        char_of (128 + c div 64 mod 64), char_of (128 + c mod 64)])"

definition utf8 :: "nat list \<Rightarrow> str" where
  "utf8 cs = concat (map utf8_char cs)"

lemma utf8_simps [simp]: "utf8 [] = []" "utf8 (c # cs) = utf8_char c @ utf8 cs"
  by (simp_all add: utf8_def)

lemma byte_char_of: "n < 256 \<Longrightarrow> byte (char_of n) = n"
  by simp

text \<open>The digits of a scalar value to the base 64.\<close>

lemma base_64:
  fixes c :: nat
  obtains q where "c = 64 * q + c mod 64" "c div 64 = q" "c mod 64 < 64"
  by (rule that [of "c div 64"]) simp_all

lemma div_4096: "(c::nat) div 4096 = c div 64 div 64"
  by (simp flip: div_mult2_eq)

lemma div_262144: "(c::nat) div 262144 = c div 64 div 64 div 64"
  by (simp flip: div_mult2_eq)

lemma digit_64: "z < 64 \<Longrightarrow> (q * 64 + z) div 64 = (q::nat)" "z < 64 \<Longrightarrow> (q * 64 + z) mod 64 = (z::nat)"
  by simp_all

lemma mod_64_le: "(n :: nat) mod 64 \<le> 63"
proof -
  have "n mod 64 < 64" by simp
  then show ?thesis by linarith
qed

lemma utf8_char_valid:
  assumes "scalar c"
  shows "utf8_valid (utf8_char c @ s) = utf8_valid s"
proof -
  obtain q where q: "c = 64 * q + c mod 64" "c div 64 = q" "c mod 64 < 64" by (rule base_64)
  obtain r where r: "q = 64 * r + q mod 64" "q div 64 = r" "q mod 64 < 64" by (rule base_64)
  obtain t where t: "r = 64 * t + r mod 64" "r div 64 = t" "r mod 64 < 64" by (rule base_64)
  consider "c < 0x80" | "0x80 \<le> c" "c < 0x800" | "0x800 \<le> c" "c < 0x10000" | "0x10000 \<le> c" "c < 0x110000"
    using assms by (force simp: scalar_def)
  then show ?thesis
  proof cases
    case 3
    have "q < 1024" "r < 16" using 3 q r by linarith+
    moreover have "r = 0 \<Longrightarrow> 32 \<le> q mod 64" using 3 q r by linarith
    moreover have "r = 13 \<Longrightarrow> q mod 64 < 32" using 3 assms q r unfolding scalar_def by linarith
    ultimately show ?thesis using 3 q(2,3) r(2,3) by (auto simp: utf8_char_def is_cont_def div_4096)
  next
    case 4
    have "r < 272" "t \<le> 4" using 4 q r t by linarith+
    moreover have "t = 0 \<Longrightarrow> 16 \<le> r mod 64" using 4 q r t by linarith
    moreover have "t = 4 \<Longrightarrow> r mod 64 < 16" using 4 q r t by linarith
    ultimately show ?thesis using 4 q(2,3) r(2,3) t(2,3)
      by (auto simp: utf8_char_def is_cont_def div_4096 div_262144 mod_64_le)
  qed (auto simp: utf8_char_def is_cont_def)
qed

lemma utf8_utf8_valid: "\<forall>c \<in> set cs. scalar c \<Longrightarrow> utf8_valid (utf8 cs)"
  by (induction cs) (simp_all add: utf8_char_valid)

lemma utf8_char_2:
  assumes "194 \<le> byte a" "byte a \<le> 223" "is_cont b"
  shows "\<exists>v. scalar v \<and> utf8_char v = [a, b]"
proof -
  obtain x y where r: "byte a = x + 192" "byte b = y + 128" "2 \<le> x" "x < 32" "y < 64"
    using assms that [of "byte a - 192" "byte b - 128"] by (auto simp: is_cont_def)
  have "char_of (192 + x) = a" "char_of (128 + y) = b" by (simp_all add: add.commute flip: r(1,2))
  moreover have "\<not> x * 64 + y < 0x80" "x * 64 + y < 0x800" using r(3-5) by linarith+
  ultimately have "utf8_char (x * 64 + y) = [a, b]" using r(5) by (simp add: utf8_char_def digit_64)
  moreover have "scalar (x * 64 + y)" using r(4,5) by (simp add: scalar_def)
  ultimately show ?thesis by blast
qed

lemma utf8_char_3:
  assumes "224 \<le> byte a" "byte a \<le> 239" "is_cont b" "is_cont c"
    and "byte a = 224 \<longrightarrow> 160 \<le> byte b" "byte a = 237 \<longrightarrow> byte b \<le> 159"
  shows "\<exists>v. scalar v \<and> utf8_char v = [a, b, c]"
proof -
  obtain x y z where r: "byte a = x + 224" "byte b = y + 128" "byte c = z + 128" "x < 16" "y < 64" "z < 64"
    using assms that [of "byte a - 224" "byte b - 128" "byte c - 128"] by (auto simp: is_cont_def)
  have chars: "char_of (224 + x) = a" "char_of (128 + y) = b" "char_of (128 + z) = c"
    by (simp_all add: add.commute flip: r(1-3))
  define v where "v = (x * 64 + y) * 64 + z"
  have d: "v div 64 = x * 64 + y" "v mod 64 = z" using r(6) by (simp_all only: v_def digit_64)
  have ends: "x = 0 \<Longrightarrow> 32 \<le> y" "x = 13 \<Longrightarrow> y < 32" using assms(5,6) r by simp_all
  have "0x800 \<le> v" using ends(1) unfolding v_def by (cases "x = 0") simp_all
  moreover have "v < 0x10000" using r(4-6) by (simp add: v_def)
  moreover have "scalar v"
    using ends(2) r(4-6) unfolding scalar_def v_def by (cases "x < 13"; cases "x = 13") simp_all
  moreover have "v div 64 div 64 = x" "v div 64 mod 64 = y" using r(5) by (simp_all only: d digit_64)
  ultimately have "utf8_char v = [a, b, c]" using chars d(2) by (simp add: utf8_char_def div_4096)
  with \<open>scalar v\<close> show ?thesis by blast
qed

lemma utf8_char_4:
  assumes "240 \<le> byte a" "byte a \<le> 244" "is_cont b" "is_cont c" "is_cont d"
    and "byte a = 240 \<longrightarrow> 144 \<le> byte b" "byte a = 244 \<longrightarrow> byte b \<le> 143"
  shows "\<exists>v. scalar v \<and> utf8_char v = [a, b, c, d]"
proof -
  obtain x y z u where r: "byte a = x + 240" "byte b = y + 128" "byte c = z + 128" "byte d = u + 128"
      "x < 5" "y < 64" "z < 64" "u < 64"
    using assms that [of "byte a - 240" "byte b - 128" "byte c - 128" "byte d - 128"]
    by (auto simp: is_cont_def)
  have chars: "char_of (240 + x) = a" "char_of (128 + y) = b" "char_of (128 + z) = c" "char_of (128 + u) = d"
    by (simp_all add: add.commute flip: r(1-4))
  define v where "v = ((x * 64 + y) * 64 + z) * 64 + u"
  have e: "v div 64 = (x * 64 + y) * 64 + z" "v mod 64 = u" using r(8) by (simp_all only: v_def digit_64)
  have ends: "x = 0 \<Longrightarrow> 16 \<le> y" "x = 4 \<Longrightarrow> y < 16" using assms(6,7) r by simp_all
  have big: "0x10000 \<le> v" using ends(1) unfolding v_def by (cases "x = 0") simp_all
  moreover have "v < 0x110000" using ends(2) r(5-8) unfolding v_def by (cases "x = 4") simp_all
  ultimately have "scalar v" by (simp add: scalar_def)
  have f: "v div 64 div 64 = x * 64 + y" "v div 64 mod 64 = z" using r(7) by (simp_all only: e digit_64)
  have "v div 64 div 64 div 64 = x" "v div 64 div 64 mod 64 = y" using r(6) by (simp_all only: f digit_64)
  then have "utf8_char v = [a, b, c, d]"
    using big chars e(2) f(2) by (simp add: utf8_char_def div_4096 div_262144)
  with \<open>scalar v\<close> show ?thesis by blast
qed

lemma utf8_char_1: "byte a < 128 \<Longrightarrow> scalar (byte a) \<and> utf8_char (byte a) = [a]"
  by (simp add: scalar_def utf8_char_def)

text \<open>A Rust string is the encoding of a sequence of scalar values.\<close>

lemma scalars_step:
  assumes "\<exists>v. scalar v \<and> utf8_char v = p" and "\<exists>cs. (\<forall>c \<in> set cs. scalar c) \<and> utf8 cs = r"
  shows "\<exists>cs. (\<forall>c \<in> set cs. scalar c) \<and> utf8 cs = p @ r"
proof -
  obtain v cs where "scalar v" "utf8_char v = p" "\<forall>c \<in> set cs. scalar c" "utf8 cs = r"
    using assms by blast
  then show ?thesis by (intro exI [of _ "v # cs"]) simp
qed

lemma utf8_valid_scalars: "utf8_valid s \<Longrightarrow> \<exists>cs. (\<forall>c \<in> set cs. scalar c) \<and> utf8 cs = s"
proof (induction s rule: utf8_valid.induct)
  case 1
  show ?case by (intro exI [of _ "[]"]) simp
next
  case (2 a s)
  consider "byte a < 128" | "194 \<le> byte a" "byte a \<le> 223"
    | "224 \<le> byte a" "byte a \<le> 239" | "240 \<le> byte a" "byte a \<le> 244"
    using "2.prems" by (auto split: if_splits)
  then show ?case
  proof cases
    case 1
    then show ?thesis using scalars_step [of "[a]" s] utf8_char_1 "2.IH"(1) "2.prems" by auto
  next
    case c: 2
    then obtain b r where s: "s = b # r" "is_cont b" "utf8_valid r" using "2.prems" by (auto split: list.splits)
    show ?thesis using scalars_step [of "[a, b]" r] utf8_char_2 [of a b] "2.IH"(2) [of b r] c s by auto
  next
    case c: 3
    then obtain b d r where s: "s = b # d # r" "is_cont b" "is_cont d" "utf8_valid r"
        "byte a = 224 \<longrightarrow> 160 \<le> byte b" "byte a = 237 \<longrightarrow> byte b \<le> 159"
      using "2.prems" by (auto split: list.splits)
    show ?thesis using scalars_step [of "[a, b, d]" r] utf8_char_3 [of a b d] "2.IH"(3) c s by auto
  next
    case c: 4
    then obtain b d e r where s: "s = b # d # e # r" "is_cont b" "is_cont d" "is_cont e" "utf8_valid r"
        "byte a = 240 \<longrightarrow> 144 \<le> byte b" "byte a = 244 \<longrightarrow> byte b \<le> 143"
      using "2.prems" by (auto split: list.splits)
    show ?thesis using scalars_step [of "[a, b, d, e]" r] utf8_char_4 [of a b d e] "2.IH"(4) c s by auto
  qed
qed

subsection \<open>UTF-16\<close>

text \<open>\<open>String::from_utf16\<close>: every surrogate must stand in a pair.\<close>

fun decode_units :: "nat list \<Rightarrow> nat list option" where
  "decode_units [] = Some []"
| "decode_units (u # us) =
     (if u < 0xD800 \<or> 0xDFFF < u then map_option ((#) u) (decode_units us)
      else if 0xDC00 \<le> u then None
      else (case us of [] \<Rightarrow> None
        | v # vs \<Rightarrow>
            if v < 0xDC00 \<or> 0xDFFF < v then None
            else map_option ((#) (0x10000 + ((u - 0xD800) * 1024 + (v - 0xDC00)))) (decode_units vs)))"

definition from_utf16 :: "nat list \<Rightarrow> str option" where
  "from_utf16 us = map_option utf8 (decode_units us)"

definition utf16_char :: "nat \<Rightarrow> nat list" where
  "utf16_char c =
     (if c < 0x10000 then [c] else [0xD800 + (c - 0x10000) div 1024, 0xDC00 + (c - 0x10000) mod 1024])"

definition utf16 :: "nat list \<Rightarrow> nat list" where
  "utf16 cs = concat (map utf16_char cs)"

lemma utf16_simps [simp]: "utf16 [] = []" "utf16 (c # cs) = utf16_char c @ utf16 cs"
  by (simp_all add: utf16_def)

lemma decode_utf16_char:
  assumes "scalar c"
  shows "decode_units (utf16_char c @ us) = map_option ((#) c) (decode_units us)"
proof (cases "c < 0x10000")
  case True
  then show ?thesis using assms by (auto simp: utf16_char_def scalar_def)
next
  case False
  define d where "d = c - 0x10000"
  have c: "c = 0x10000 + d" "d < 0x100000" using False assms by (auto simp: d_def scalar_def)
  have rem: "\<not> 1023 < d mod 1024" using mod_less_divisor [of 1024 d] by linarith
  have "d div 1024 < 1024" using c(2) by (simp add: div_less_iff_less_mult)
  moreover have "d div 1024 * 1024 + d mod 1024 = d" by (rule div_mult_mod_eq)
  ultimately show ?thesis using False rem by (simp add: utf16_char_def c(1))
qed

lemma decode_utf16: "\<forall>c \<in> set cs. scalar c \<Longrightarrow> decode_units (utf16 cs) = Some cs"
  by (induction cs) (simp_all add: decode_utf16_char)

lemma decode_units_Some:
  "decode_units us = Some cs \<Longrightarrow> \<forall>u \<in> set us. u < 0x10000 \<Longrightarrow>
     (\<forall>c \<in> set cs. scalar c) \<and> utf16 cs = us"
proof (induction us arbitrary: cs rule: decode_units.induct)
  case (2 u us)
  show ?case
  proof (cases "u < 0xD800 \<or> 0xDFFF < u")
    case True
    then obtain ds where "decode_units us = Some ds" "cs = u # ds" using "2.prems" by auto
    with True 2 show ?thesis by (auto simp: utf16_char_def scalar_def)
  next
    case False
    then obtain v vs ds where us: "us = v # vs" "0xDC00 \<le> v" "v \<le> 0xDFFF" "u < 0xDC00"
        and ds: "decode_units vs = Some ds"
        and cs: "cs = (0x10000 + ((u - 0xD800) * 1024 + (v - 0xDC00))) # ds"
      using "2.prems"(1) by (auto split: list.splits if_splits)
    define x y where "x = u - 0xD800" and "y = v - 0xDC00"
    have r: "u = 0xD800 + x" "v = 0xDC00 + y" "x < 1024" "y < 1024"
      using False us by (auto simp: x_def y_def)
    have "utf16_char (0x10000 + (x * 1024 + y)) = [u, v]"
      using r by (simp add: utf16_char_def)
    moreover have "scalar (0x10000 + (x * 1024 + y))" using r(3,4) by (simp add: scalar_def)
    moreover have "(\<forall>c \<in> set ds. scalar c) \<and> utf16 ds = vs"
      using "2.IH"(2) [of v vs ds] False us ds "2.prems"(2) by auto
    ultimately show ?thesis using cs us(1) by (simp add: x_def y_def)
  qed
qed simp

text \<open>Code units as pairs of bytes, the low byte first or last.\<close>

fun code_units :: "bool \<Rightarrow> bytes \<Rightarrow> nat list" where
  "code_units le (a # b # bs) =
     (if le then byte a + 256 * byte b else 256 * byte a + byte b) # code_units le bs"
| "code_units le _ = []"

definition unit_bytes :: "bool \<Rightarrow> nat \<Rightarrow> bytes" where
  "unit_bytes le u =
     (if le then [char_of (u mod 256), char_of (u div 256)] else [char_of (u div 256), char_of (u mod 256)])"

definition units_bytes :: "bool \<Rightarrow> nat list \<Rightarrow> bytes" where
  "units_bytes le us = concat (map (unit_bytes le) us)"

lemma units_bytes_even: "even (length (units_bytes le us))"
  by (induction us) (auto simp: units_bytes_def unit_bytes_def)

lemma code_units_bytes: "\<forall>u \<in> set us. u < 0x10000 \<Longrightarrow> code_units le (units_bytes le us) = us"
proof (induction us)
  case (Cons u us)
  then have "u div 256 < 256" by (simp add: div_less_iff_less_mult)
  then have "code_units le (unit_bytes le u @ bs) = u # code_units le bs" for bs
    by (simp add: unit_bytes_def)
  with Cons show ?case by (simp add: units_bytes_def)
qed (simp add: units_bytes_def)

lemma bytes_code_units:
  "even (length bs) \<Longrightarrow> units_bytes le (code_units le bs) = bs \<and> (\<forall>u \<in> set (code_units le bs). u < 0x10000)"
proof (induction le bs rule: code_units.induct)
  case (1 le a b bs)
  have "byte a < 256" "byte b < 256" by simp_all
  then have "byte a * 256 + byte b < 65536" "byte b * 256 + byte a < 65536" by linarith+
  with 1 show ?case by (auto simp: units_bytes_def unit_bytes_def mult.commute add.commute)
qed (simp_all add: units_bytes_def)

lemma utf16_units: "\<forall>c \<in> set cs. scalar c \<Longrightarrow> \<forall>u \<in> set (utf16 cs). u < 0x10000"
proof (induction cs)
  case (Cons c cs)
  have "c - 0x10000 < 0x100000" using Cons.prems by (auto simp: scalar_def)
  then have "(c - 0x10000) div 1024 < 1024" by (simp add: div_less_iff_less_mult)
  then have "\<forall>u \<in> set (utf16_char c). u < 0x10000" by (auto simp: utf16_char_def)
  with Cons show ?case by auto
qed simp

end
