(* ===== verification/Ja_Content.thy ===== *)
theory Ja_Content
  imports Ja_Workspace_Safety Ja_Utf
begin

text \<open>
  Reading one file (\<open>workspace_read/content.rs\<close>, and the metadata and hashing part of
  \<open>registry.rs\<close>): classification of the bytes, the bounded digest, the metadata of a path that
  must not change while it is taken, and the reader. SHA-256 is an argument.
\<close>

datatype content_kind = CkText | CkBinary | CkUnknownEncoding | CkTooLarge

datatype text_encoding = TeUtf8 | TeUtf8Bom | TeUtf16Le | TeUtf16Be

record file_revision =
  fr_kind :: entry_kind
  fr_size :: nat
  fr_modified :: "nat option"
  fr_sha256 :: "str option"

record file_metadata =
  fm_kind :: entry_kind
  fm_size :: nat
  fm_modified :: "nat option"
  fm_revision :: file_revision

record file_content =
  fc_metadata :: file_metadata
  fc_kind :: content_kind
  fc_encoding :: "text_encoding option"
  fc_text :: "str option"
  fc_bytes_read :: nat
  fc_truncated :: bool

subsection \<open>Classification\<close>

type_synonym decoded = "content_kind \<times> text_encoding option \<times> str option"

definition unknown_encoding :: decoded where
  "unknown_encoding = (CkUnknownEncoding, None, None)"

definition decode_utf16 :: "bytes \<Rightarrow> bool \<Rightarrow> decoded" where
  "decode_utf16 bs le =
     (if odd (length bs) then unknown_encoding
      else case from_utf16 (code_units le bs) of
        Some text \<Rightarrow> (CkText, Some (if le then TeUtf16Le else TeUtf16Be), Some text)
      | None \<Rightarrow> unknown_encoding)"

definition bom_utf8 :: bytes where "bom_utf8 = [CHR 0xEF, CHR 0xBB, CHR 0xBF]"
definition bom_le :: bytes where "bom_le = [CHR 0xFF, CHR 0xFE]"
definition bom_be :: bytes where "bom_be = [CHR 0xFE, CHR 0xFF]"

definition decode_content :: "bytes \<Rightarrow> decoded" where
  "decode_content bs =
     (if starts_with bs bom_utf8
      then (if utf8_valid (drop 3 bs) then (CkText, Some TeUtf8Bom, Some (drop 3 bs)) else unknown_encoding)
      else if starts_with bs bom_le then decode_utf16 (drop 2 bs) True
      else if starts_with bs bom_be then decode_utf16 (drop 2 bs) False
      else if utf8_valid bs then
        (if CHR 0x00 \<notin> set bs then (CkText, Some TeUtf8, Some bs) else (CkBinary, None, None))
      else if CHR 0x00 \<in> set bs then (CkBinary, None, None)
      else unknown_encoding)"

subsection \<open>The digest of a file\<close>

definition hex_lower :: "bytes \<Rightarrow> str" where
  "hex_lower bs = concat (map (\<lambda>b. [''0123456789abcdef'' ! (byte b div 16), ''0123456789abcdef'' ! (byte b mod 16)]) bs)"

definition hash_buffer :: nat where "hash_buffer = 16 * 1024"

text \<open>
  One pass of the loop reads up to a buffer; what was fed to the digest is \<open>fed\<close>. A regular file
  fills the buffer while it has bytes. \<open>dl\<close> says that there is a deadline.
\<close>

fun hash_loop :: "bool \<Rightarrow> nat \<Rightarrow> bytes \<Rightarrow> bytes \<Rightarrow> io_kind option \<Rightarrow> bytes fs_op" where
  "hash_loop dl remaining fed data fin w t =
     (if dl \<and> fs_late (w t) then (Inl WScanDeadlineExceeded, Suc t)
      else let t' = (if dl then Suc t else t); read_len = min remaining hash_buffer
      in if read_len = 0 then (Inl WFileTooLarge, t')
      else let chunk = take read_len data
      in if chunk = [] then (case fin of Some e \<Rightarrow> (Inl (WIo ''hash'' e), t') | None \<Rightarrow> (Inr fed, t'))
      else if remaining - length chunk = 0 then (Inl WFileTooLarge, t')
      else hash_loop dl (remaining - length chunk) (fed @ chunk) (drop read_len data) fin w t')"

declare hash_loop.simps [simp del]

definition hash_file_until :: "(bytes \<Rightarrow> bytes) \<Rightarrow> str \<Rightarrow> nat \<Rightarrow> bool \<Rightarrow> str fs_op" where
  "hash_file_until sha p hash_limit dl =
     op_bind (op_lift (ok_or (checked_add64 hash_limit 1) WFileTooLarge)) (\<lambda>remaining.
     op_bind (op_call (\<lambda>fs. fs_open fs p) (WIo ''hash'')) (\<lambda>(data, fin).
     op_bind (hash_loop dl remaining [] data fin) (\<lambda>fed. op_ok (hex_lower (sha fed)))))"

subsection \<open>Metadata\<close>

definition identity_before :: "str \<Rightarrow> entry_kind \<Rightarrow> file_identity option fs_op" where
  "identity_before p k =
     (if k = EkSymlink \<or> k = EkReparsePoint then op_ok None
      else op_bind (physical_identity p) (\<lambda>i. op_ok (Some i)))"

definition identity_changed :: "str \<Rightarrow> file_identity option \<Rightarrow> bool fs_op" where
  "identity_changed p before w t =
     (case before of
        None \<Rightarrow> (Inr False, t)
      | Some i \<Rightarrow> (Inr (case fs_identity (w t) p of Inr c \<Rightarrow> c \<noteq> i | Inl _ \<Rightarrow> True), Suc t))"

definition content_digest ::
    "(bytes \<Rightarrow> bytes) \<Rightarrow> str \<Rightarrow> os_metadata \<Rightarrow> nat \<Rightarrow> bool \<Rightarrow> str option fs_op" where
  "content_digest sha p m hash_limit dl =
     (if entry_kind_of m = EkFile \<and> om_len m \<le> hash_limit
      then op_bind (hash_file_until sha p hash_limit dl) (\<lambda>d. op_ok (Some d))
      else op_ok None)"

definition metadata_of :: "os_metadata \<Rightarrow> str option \<Rightarrow> file_metadata" where
  "metadata_of m sha256 =
     \<lparr>fm_kind = entry_kind_of m, fm_size = om_len m, fm_modified = om_modified m,
      fm_revision = \<lparr>fr_kind = entry_kind_of m, fr_size = om_len m, fr_modified = om_modified m,
        fr_sha256 = sha256\<rparr>\<rparr>"

definition metadata_for_path_with_deadline ::
    "(bytes \<Rightarrow> bytes) \<Rightarrow> str \<Rightarrow> os_metadata \<Rightarrow> nat \<Rightarrow> bool \<Rightarrow> file_metadata fs_op" where
  "metadata_for_path_with_deadline sha p m hash_limit dl =
     op_bind (op_require (\<not> (entry_kind_of m = EkFile \<and> 1 < om_links m)) WLinkNotAllowed) (\<lambda>_.
     op_bind (identity_before p (entry_kind_of m)) (\<lambda>before.
     op_bind (content_digest sha p m hash_limit dl) (\<lambda>sha256.
     op_bind (lstat p (WIo ''recheck'')) (\<lambda>after.
     op_bind (identity_changed p before) (\<lambda>changed.
     op_bind (op_require (\<not> (entry_kind_of after \<noteq> entry_kind_of m \<or> om_len after \<noteq> om_len m
         \<or> om_modified after \<noteq> om_modified m \<or> changed)) WPathChanged) (\<lambda>_.
     op_ok (metadata_of m sha256)))))))"

definition metadata_for_path :: "(bytes \<Rightarrow> bytes) \<Rightarrow> str \<Rightarrow> os_metadata \<Rightarrow> nat \<Rightarrow> file_metadata fs_op" where
  "metadata_for_path sha p m hash_limit = metadata_for_path_with_deadline sha p m hash_limit False"

definition handle_metadata ::
    "(bytes \<Rightarrow> bytes) \<Rightarrow> workspace_handle \<Rightarrow> str \<Rightarrow> nat \<Rightarrow> file_metadata fs_op" where
  "handle_metadata sha h p hash_limit =
     op_bind (resolve_guard h p None) (\<lambda>r.
     op_bind (verify_resolved h r None) (\<lambda>_.
     op_bind (lstat (rp_path r) (WIo ''stat'')) (\<lambda>m.
     op_bind (metadata_for_path sha (rp_path r) m hash_limit) (\<lambda>result.
     op_bind (verify_resolved h r None) (\<lambda>_. op_ok result)))))"

subsection \<open>The reader\<close>

record content_policy =
  cp_max_bytes :: nat
  cp_hash_limit_bytes :: nat

definition default_content_policy :: content_policy where
  "default_content_policy = \<lparr>cp_max_bytes = 4 * 1024 * 1024, cp_hash_limit_bytes = 4 * 1024 * 1024\<rparr>"

record file_reader =
  rd_workspace :: workspace_handle
  rd_policy :: content_policy

definition file_reader_new :: "workspace_handle \<Rightarrow> content_policy \<Rightarrow> file_reader" where
  "file_reader_new h p =
     (let max_bytes = min (cp_max_bytes p) (64 * 1024 * 1024)
      in \<lparr>rd_workspace = h, rd_policy = \<lparr>cp_max_bytes = max_bytes,
           cp_hash_limit_bytes = min (cp_hash_limit_bytes p) max_bytes\<rparr>\<rparr>)"

text \<open>\<open>take(n).read_to_end\<close>: an error after the first \<open>n\<close> bytes is never seen.\<close>

definition read_limited :: "nat \<Rightarrow> bytes \<times> io_kind option \<Rightarrow> io_kind + bytes" where
  "read_limited n opened =
     (if n \<le> length (fst opened) then Inr (take n (fst opened))
      else case snd opened of Some e \<Rightarrow> Inl e | None \<Rightarrow> Inr (fst opened))"

definition too_large :: "file_metadata \<Rightarrow> nat \<Rightarrow> file_content" where
  "too_large m n = \<lparr>fc_metadata = m, fc_kind = CkTooLarge, fc_encoding = None, fc_text = None,
     fc_bytes_read = n, fc_truncated = True\<rparr>"

definition classified :: "nat \<Rightarrow> file_metadata \<Rightarrow> bytes \<Rightarrow> file_content" where
  "classified max_bytes m bs =
     (if max_bytes < length bs then too_large m max_bytes
      else let (kind, encoding, text) = decode_content bs
        in \<lparr>fc_metadata = m, fc_kind = kind, fc_encoding = encoding, fc_text = text,
            fc_bytes_read = length bs, fc_truncated = False\<rparr>)"

definition reader_hash_limit :: "file_reader \<Rightarrow> nat" where
  "reader_hash_limit rd = min (cp_hash_limit_bytes (rd_policy rd)) (cp_max_bytes (rd_policy rd))"

definition finish_read ::
    "(bytes \<Rightarrow> bytes) \<Rightarrow> file_reader \<Rightarrow> resolved_path \<Rightarrow> file_metadata \<Rightarrow> bytes \<times> io_kind option
     \<Rightarrow> file_content fs_op" where
  "finish_read sha rd r before opened =
     op_bind (op_lift (map_err (WIo ''read'')
       (read_limited (sat_add (cp_max_bytes (rd_policy rd)) 1) opened))) (\<lambda>bs.
     op_bind (lstat (rp_path r) (WIo ''stat'')) (\<lambda>m.
     op_bind (metadata_for_path sha (rp_path r) m (reader_hash_limit rd)) (\<lambda>after.
     op_bind (op_require (fm_revision before = fm_revision after) WChangedDuringRead) (\<lambda>_.
     op_bind (verify_resolved (rd_workspace rd) r (Some False)) (\<lambda>_.
     op_ok (classified (cp_max_bytes (rd_policy rd)) after bs))))))"

definition read_opened ::
    "(bytes \<Rightarrow> bytes) \<Rightarrow> file_reader \<Rightarrow> resolved_path \<Rightarrow> os_metadata \<times> file_metadata \<Rightarrow> file_content fs_op" where
  "read_opened sha rd r before =
     (if cp_max_bytes (rd_policy rd) < om_len (fst before)
      then op_bind (verify_resolved (rd_workspace rd) r (Some False)) (\<lambda>_. op_ok (too_large (snd before) 0))
      else op_bind (op_call (\<lambda>fs. fs_open fs (rp_path r)) (WIo ''open'')) (finish_read sha rd r (snd before)))"

definition before_read ::
    "(bytes \<Rightarrow> bytes) \<Rightarrow> file_reader \<Rightarrow> str \<Rightarrow> (resolved_path \<times> os_metadata \<times> file_metadata) fs_op" where
  "before_read sha rd p =
     op_bind (resolve_guard (rd_workspace rd) p (Some False)) (\<lambda>r.
     op_bind (verify_resolved (rd_workspace rd) r (Some False)) (\<lambda>_.
     op_bind (lstat (rp_path r) (WIo ''stat'')) (\<lambda>m.
     op_bind (metadata_for_path sha (rp_path r) m (reader_hash_limit rd)) (\<lambda>before.
     op_ok (r, m, before)))))"

definition file_read :: "(bytes \<Rightarrow> bytes) \<Rightarrow> file_reader \<Rightarrow> str \<Rightarrow> file_content fs_op" where
  "file_read sha rd p = op_bind (before_read sha rd p) (\<lambda>(r, before). read_opened sha rd r before)"

end
