(* ===== verification/Ja_Git_Parse.thy ===== *)
theory Ja_Git_Parse
  imports Ja_Paths
begin

text \<open>
  Reading git's output (\<open>git_read/parse.rs\<close>, \<open>git_read/model.rs\<close>, \<open>git_read/error.rs\<close>): the
  porcelain status and the log, against the formats git documents. The status parser reads back
  exactly what was printed; the log parser does so for one commit only.
\<close>

subsection \<open>Data\<close>

datatype git_error =
    GInvalidPolicy | GGitUnavailable | GInvalidPath | GInvalidObject | GExternalWorktree
  | GSpawn str | GCommandFailed "int option" | GTimedOut | GCancelled | GOutputLimitExceeded
  | GCleanupTimedOut | GParse | GWorkspace

datatype git_status_kind = GsHead | GsChanged | GsRenamed | GsUnmerged | GsUntracked | GsIgnored

text \<open>A status character is the byte cast to a \<open>char\<close>.\<close>

record git_status_entry =
  gs_kind :: git_status_kind
  gs_index_status :: "char option"
  gs_worktree_status :: "char option"
  gs_path :: str
  gs_original_path :: "str option"

record git_log_entry =
  gl_object_id :: str
  gl_parents :: "str list"
  gl_author :: str
  gl_email :: str
  gl_authored_at :: str
  gl_subject :: str

abbreviation nul :: char where "nul \<equiv> CHR 0x00"

subsection \<open>Fields\<close>

definition text_field :: "bytes \<Rightarrow> git_error + str" where
  "text_field f = (if nul \<in> set f then Inl GParse else if utf8_valid f then Inr f else Inl GParse)"

text \<open>\<open>splitn(n, c)\<close>: at most \<open>n\<close> pieces, the last with the rest.\<close>

fun splitn :: "char \<Rightarrow> nat \<Rightarrow> bytes \<Rightarrow> bytes list" where
  "splitn c 0 s = []"
| "splitn c (Suc 0) s = [s]"
| "splitn c (Suc (Suc n)) s =
     (if c \<in> set s then takeWhile (\<lambda>x. x \<noteq> c) s # splitn c (Suc n) (tl (dropWhile (\<lambda>x. x \<noteq> c) s))
      else [s])"

definition split_fields :: "bytes \<Rightarrow> nat \<Rightarrow> git_error + str list" where
  "split_fields r expected =
     and_then (collect text_field (splitn CHR '' '' expected r)) (\<lambda>fields.
       if length fields \<noteq> expected then Inl GParse
       else if fields = [] \<or> hd fields = [] then Inl GParse
       else Inr fields)"

definition charge_status_records :: "nat \<Rightarrow> nat \<Rightarrow> nat \<Rightarrow> git_error + nat" where
  "charge_status_records count additional max_records =
     and_then (ok_or (checked_add64 count additional) GParse) (\<lambda>c.
       if max_records < c then Inl GParse else Inr c)"

subsection \<open>Status\<close>

definition status_entry ::
    "git_status_kind \<Rightarrow> str \<Rightarrow> str \<Rightarrow> str option \<Rightarrow> git_status_entry" where
  "status_entry k xy p original =
     \<lparr>gs_kind = k, gs_index_status = Some (xy ! 0), gs_worktree_status = Some (xy ! 1),
      gs_path = p, gs_original_path = original\<rparr>"

definition plain_entry :: "git_status_kind \<Rightarrow> str \<Rightarrow> git_status_entry" where
  "plain_entry k p = \<lparr>gs_kind = k, gs_index_status = None, gs_worktree_status = None,
     gs_path = p, gs_original_path = None\<rparr>"

definition push_entry ::
    "git_status_entry \<Rightarrow> git_error + git_status_entry list \<Rightarrow> git_error + git_status_entry list" where
  "push_entry e rest = and_then rest (\<lambda>es. Inr (e # es))"

fun parse_records :: "nat \<Rightarrow> nat \<Rightarrow> bytes list \<Rightarrow> git_error + git_status_entry list" where
  "parse_records max_records count [] = Inr []"
| "parse_records max_records count (r # rs) =
     (if r = [] then parse_records max_records count rs
      else and_then (charge_status_records count 1 max_records) (\<lambda>count.
        if hd r = CHR ''#'' then
          and_then (text_field r) (\<lambda>p. push_entry (plain_entry GsHead p) (parse_records max_records count rs))
        else if hd r = CHR ''1'' then
          and_then (split_fields r 9) (\<lambda>fields.
            if length (fields ! 1) \<noteq> 2 then Inl GParse
            else push_entry (status_entry GsChanged (fields ! 1) (fields ! 8) None)
              (parse_records max_records count rs))
        else if hd r = CHR ''2'' then
          and_then (split_fields r 10) (\<lambda>fields.
            case rs of
              [] \<Rightarrow> Inl GParse
            | original # rs' \<Rightarrow>
                if length (fields ! 1) \<noteq> 2 then Inl GParse
                else and_then (charge_status_records count 1 max_records) (\<lambda>count.
                  and_then (text_field original) (\<lambda>o'.
                    push_entry (status_entry GsRenamed (fields ! 1) (fields ! 9) (Some o'))
                      (parse_records max_records count rs'))))
        else if hd r = CHR ''u'' then
          and_then (split_fields r 11) (\<lambda>fields.
            if length (fields ! 1) \<noteq> 2 then Inl GParse
            else push_entry (status_entry GsUnmerged (fields ! 1) (fields ! 10) None)
              (parse_records max_records count rs))
        else if hd r \<in> {CHR ''?'', CHR ''!''} then
          and_then (if length r < 2 then Inl GParse else text_field (drop 2 r)) (\<lambda>p.
            push_entry (plain_entry (if hd r = CHR ''?'' then GsUntracked else GsIgnored) p)
              (parse_records max_records count rs))
        else Inl GParse))"

definition parse_status :: "bytes \<Rightarrow> nat \<Rightarrow> git_error + git_status_entry list" where
  "parse_status b max_records =
     (if max_records = 0 then Inl GParse else parse_records max_records 0 (split_on nul b))"

subsection \<open>Log\<close>

text \<open>
  \<open>char::is_whitespace\<close>: the number of bytes of the white-space character a text starts with,
  0 for none (U+0009 to U+000D, the space, U+0085, U+00A0, U+1680, U+2000 to U+200A, U+2028,
  U+2029, U+202F, U+205F, U+3000).
\<close>

fun ws_len :: "str \<Rightarrow> nat" where
  "ws_len [] = 0"
| "ws_len (a # s) =
     (if 9 \<le> byte a \<and> byte a \<le> 13 \<or> byte a = 32 then 1
      else if byte a = 194 then
        (case s of b # _ \<Rightarrow> if byte b \<in> {133, 160} then 2 else 0 | _ \<Rightarrow> 0)
      else if byte a = 225 then
        (case s of b # c # _ \<Rightarrow> if byte b = 154 \<and> byte c = 128 then 3 else 0 | _ \<Rightarrow> 0)
      else if byte a = 226 then
        (case s of b # c # _ \<Rightarrow>
           if byte b = 128 \<and> (128 \<le> byte c \<and> byte c \<le> 138 \<or> byte c \<in> {168, 169, 175})
              \<or> byte b = 129 \<and> byte c = 159
           then 3 else 0
         | _ \<Rightarrow> 0)
      else if byte a = 227 then
        (case s of b # c # _ \<Rightarrow> if byte b = 128 \<and> byte c = 128 then 3 else 0 | _ \<Rightarrow> 0)
      else 0)"

lemma ws_len_le: "ws_len s \<le> length s"
  by (cases s rule: ws_len.cases) (auto split: list.splits)

definition flush :: "str \<Rightarrow> str list \<Rightarrow> str list" where
  "flush cur ws = (if cur = [] then ws else cur # ws)"

function split_ws :: "str \<Rightarrow> str \<Rightarrow> str list" where
  "split_ws cur s =
     (if s = [] then flush cur []
      else if ws_len s = 0 then split_ws (cur @ [hd s]) (tl s)
      else flush cur (split_ws [] (drop (ws_len s) s)))"
  by pat_completeness auto
termination
  by (relation "measure (\<lambda>(cur, s). length s)") (auto simp: ws_len_le)

declare split_ws.simps [simp del]

definition split_whitespace :: "str \<Rightarrow> str list" where
  "split_whitespace s = split_ws [] s"

fun log_entries :: "str list \<Rightarrow> git_log_entry list" where
  "log_entries (h # p # a # e # d # s # rest) =
     \<lparr>gl_object_id = h, gl_parents = split_whitespace p, gl_author = a, gl_email = e,
      gl_authored_at = d, gl_subject = s\<rparr> # log_entries rest"
| "log_entries _ = []"

definition unwrap_suffix :: "bytes \<Rightarrow> bytes \<Rightarrow> bytes" where
  "unwrap_suffix b suf = (case strip_suffix b suf of None \<Rightarrow> b | Some p \<Rightarrow> p)"

definition parse_log :: "bytes \<Rightarrow> git_error + git_log_entry list" where
  "parse_log b =
     (let payload = unwrap_suffix (unwrap_suffix b [CHR 0x0A]) [CHR 0x0D]
      in and_then (collect text_field (split_on nul payload)) (\<lambda>fields.
        let fields = (if fields \<noteq> [] \<and> last fields = [] then butlast fields else fields)
        in if length fields mod 6 \<noteq> 0 then Inl GParse else Inr (log_entries fields)))"

subsection \<open>Object selectors\<close>

text \<open>\<open>validate_object\<close> of \<open>git_read/command.rs\<close>: which object \<open>show\<close> may be asked for.\<close>

definition object_char :: "char \<Rightarrow> bool" where
  "object_char c \<longleftrightarrow> is_ascii_alphanumeric c
     \<or> c \<in> {CHR ''.'', CHR ''_'', CHR ''/'', CHR '':'', CHR ''@'', CHR ''^'', CHR ''~'', CHR ''-''}"

definition validate_object :: "str \<Rightarrow> git_error + unit" where
  "validate_object v =
     (if v = [] \<or> 256 < length v \<or> starts_with v ''-'' then Inl GInvalidObject
      else if \<not> list_all object_char v then Inl GInvalidObject
      else if list_ex (\<lambda>p. p = ''..'') (concat (map (split_on CHR '':'') (split_on slash v)))
      then Inl GInvalidObject else Inr ())"

end
