(* ===== verification/Ja_Git_Config.thy ===== *)
theory Ja_Git_Config
  imports Ja_Content Ja_Git_Parse Ja_Codec
begin

text \<open>
  What git may be pointed at (\<open>git_read/command.rs\<close>, as compiled for Unix): the texts the check of
  a worktree reads, the file names it lets pass, pointers to other directories and the check of a
  configuration file. Every refusal is the one error \<open>ExternalWorktree\<close>.
\<close>

type_synonym 'a git_op = "(git_error, 'a) os_op"

definition external :: "'a fs_op \<Rightarrow> 'a git_op" where
  "external m w t = (case m w t of (r, t') \<Rightarrow> (map_err (\<lambda>_. GExternalWorktree) r, t'))"

definition refuse_unless :: "bool \<Rightarrow> unit git_op" where
  "refuse_unless b = op_require b GExternalWorktree"

text \<open>A guarded path that may be missing.\<close>

definition if_found :: "'a fs_op \<Rightarrow> 'a option git_op" where
  "if_found m w t =
     (case m w t of
        (Inr x, t') \<Rightarrow> (Inr (Some x), t')
      | (Inl WPathNotFound, t') \<Rightarrow> (Inr None, t')
      | (Inl _, t') \<Rightarrow> (Inl GExternalWorktree, t'))"

definition max_pointer_bytes :: nat where "max_pointer_bytes = 4 * 1024"
definition max_config_bytes :: nat where "max_config_bytes = 1024 * 1024"
definition max_config_line_bytes :: nat where "max_config_line_bytes = 64 * 1024"
definition max_object_text_bytes :: nat where "max_object_text_bytes = 1024 * 1024"

subsection \<open>Texts\<close>

text \<open>
  \<open>str::trim\<close> and \<open>split_once(char::is_whitespace)\<close>. In valid UTF-8 no byte inside a character
  starts a white-space character, and the last bytes are one exactly when they read as one.
\<close>

function trim_start :: "str \<Rightarrow> str" where
  "trim_start s = (if ws_len s = 0 then s else trim_start (drop (ws_len s) s))"
  by pat_completeness auto
termination
proof (relation "measure length")
  fix s :: str assume "ws_len s \<noteq> 0"
  then show "(drop (ws_len s) s, s) \<in> measure length" using ws_len_le [of s] by simp
qed simp

declare trim_start.simps [simp del]

definition ends_ws :: "str \<Rightarrow> nat \<Rightarrow> bool" where
  "ends_ws s k \<longleftrightarrow> k \<le> length s \<and> ws_len (drop (length s - k) s) = k"

definition ws_end :: "str \<Rightarrow> nat" where
  "ws_end s = (if ends_ws s 1 then 1 else if ends_ws s 2 then 2 else if ends_ws s 3 then 3 else 0)"

function trim_end :: "str \<Rightarrow> str" where
  "trim_end s = (if ws_end s = 0 then s else trim_end (take (length s - ws_end s) s))"
  by pat_completeness auto
termination
  by (relation "measure length") (auto simp: ws_end_def ends_ws_def split: if_splits)

declare trim_end.simps [simp del]

definition str_trim :: "str \<Rightarrow> str" where
  "str_trim s = trim_end (trim_start s)"

fun has_ws :: "str \<Rightarrow> bool" where
  "has_ws [] = False"
| "has_ws (c # s) \<longleftrightarrow> 0 < ws_len (c # s) \<or> has_ws s"

fun split_once_ws :: "str \<Rightarrow> str \<Rightarrow> (str \<times> str) option" where
  "split_once_ws pre [] = None"
| "split_once_ws pre (c # s) =
     (if ws_len (c # s) = 0 then split_once_ws (pre @ [c]) s
      else Some (pre, drop (ws_len (c # s)) (c # s)))"

definition trim_matches :: "char \<Rightarrow> str \<Rightarrow> str" where
  "trim_matches c s = rev (dropWhile (\<lambda>x. x = c) (rev (dropWhile (\<lambda>x. x = c) s)))"

definition rsplit_once :: "char \<Rightarrow> str \<Rightarrow> (str \<times> str) option" where
  "rsplit_once c s = map_option (\<lambda>(a, b). (rev b, rev a)) (split_once c (rev s))"

text \<open>\<open>str::lines\<close>: a carriage return is dropped only before a line feed.\<close>

definition str_lines :: "str \<Rightarrow> str list" where
  "str_lines s =
     (let ps = split_on CHR 0x0A s
      in map (\<lambda>l. unwrap_suffix l [CHR 0x0D]) (butlast ps) @ (if last ps = [] then [] else [last ps]))"

definition repo_child :: "str \<Rightarrow> str \<Rightarrow> str" where
  "repo_child parent child = (if parent = [] then child else parent @ ''/'' @ child)"

subsection \<open>File names of an object store\<close>

definition is_lower_hex :: "bytes \<Rightarrow> bool" where
  "is_lower_hex bs \<longleftrightarrow> bs \<noteq> [] \<and> list_all is_lower_hex_digit bs"

definition is_object_hash :: "str \<Rightarrow> bool" where
  "is_object_hash h \<longleftrightarrow> length h \<in> {40, 64} \<and> is_lower_hex h"

definition is_fanout_directory_name :: "str \<Rightarrow> bool" where
  "is_fanout_directory_name name \<longleftrightarrow> length name = 2 \<and> is_lower_hex name"

definition is_loose_object_name :: "str \<Rightarrow> bool" where
  "is_loose_object_name name \<longleftrightarrow> length name \<in> {38, 62} \<and> is_lower_hex name"

definition is_info_file_name :: "str \<Rightarrow> bool" where
  "is_info_file_name name \<longleftrightarrow> name \<in> {''alternates'', ''http-alternates'', ''packs'', ''commit-graph'', ''commit-graph-chain''}"

definition is_graph_file_name :: "str \<Rightarrow> bool" where
  "is_graph_file_name name \<longleftrightarrow>
     (case strip_prefix name ''graph-'' of
        None \<Rightarrow> False
      | Some v \<Rightarrow> (case strip_suffix v ''.graph'' of None \<Rightarrow> False | Some hash \<Rightarrow> is_object_hash hash))"

definition pack_extensions :: "str set" where
  "pack_extensions = {''pack'', ''idx'', ''bitmap'', ''rev'', ''mtimes'', ''keep''}"

definition midx_bitmap :: "str \<Rightarrow> str option" where
  "midx_bitmap name =
     (case strip_prefix name ''multi-pack-index-'' of None \<Rightarrow> None | Some v \<Rightarrow> strip_suffix v ''.bitmap'')"

definition is_pack_file_name :: "str \<Rightarrow> bool" where
  "is_pack_file_name name \<longleftrightarrow>
     (if name = ''multi-pack-index'' then True
      else case midx_bitmap name of
        Some hash \<Rightarrow> is_object_hash hash
      | None \<Rightarrow>
          (case strip_prefix name ''pack-'' of
             None \<Rightarrow> False
           | Some rest \<Rightarrow>
               (case rsplit_once CHR ''.'' rest of
                  None \<Rightarrow> False
                | Some (hash, extension) \<Rightarrow> is_object_hash hash \<and> extension \<in> pack_extensions)))"

definition is_promisor_file_name :: "str \<Rightarrow> bool" where
  "is_promisor_file_name name \<longleftrightarrow>
     (case strip_prefix name ''pack-'' of
        None \<Rightarrow> False
      | Some v \<Rightarrow> (case rsplit_once CHR ''.'' v of None \<Rightarrow> False | Some (_, extension) \<Rightarrow> extension = ''promisor''))"

subsection \<open>Bounded text files\<close>

definition text_of_bytes :: "nat \<Rightarrow> bytes \<Rightarrow> git_error + str" where
  "text_of_bytes max_bytes bs =
     (if max_bytes < length bs \<or> nul \<in> set bs then Inl GExternalWorktree
      else if \<not> utf8_valid bs then Inl GExternalWorktree
      else if list_ex (\<lambda>l. max_config_line_bytes < length l) (str_lines bs) then Inl GExternalWorktree
      else Inr bs)"

definition read_optional_text_file :: "workspace_handle \<Rightarrow> str \<Rightarrow> nat \<Rightarrow> str option git_op" where
  "read_optional_text_file h p max_bytes =
     op_bind (if_found (resolve_guard h p (Some False))) (\<lambda>found.
     case found of
       None \<Rightarrow> op_ok None
     | Some r \<Rightarrow>
         op_bind (op_call (\<lambda>fs. fs_open fs (rp_path r)) (\<lambda>_. GExternalWorktree)) (\<lambda>opened.
         op_bind (op_lift (map_err (\<lambda>_. GExternalWorktree) (read_limited (sat_add max_bytes 1) opened))) (\<lambda>bs.
         op_bind (external (verify_resolved h r (Some False))) (\<lambda>_.
         op_bind (op_lift (text_of_bytes max_bytes bs)) (\<lambda>text. op_ok (Some text))))))"

definition read_required_text_file :: "workspace_handle \<Rightarrow> str \<Rightarrow> nat \<Rightarrow> str git_op" where
  "read_required_text_file h p max_bytes =
     op_bind (read_optional_text_file h p max_bytes) (\<lambda>v. op_lift (ok_or v GExternalWorktree))"

subsection \<open>Pointers\<close>

fun normalize_from :: "str \<Rightarrow> path_component list \<Rightarrow> str" where
  "normalize_from p [] = p"
| "normalize_from p (RootDir # cs) = normalize_from (path_join p [slash]) cs"
| "normalize_from p (CurDir # cs) = normalize_from p cs"
| "normalize_from p (ParentDir # cs) = normalize_from (path_parent p) cs"
| "normalize_from p (Normal name # cs) = normalize_from (path_join p name) cs"

definition lexical_path_is_within :: "str \<Rightarrow> str \<Rightarrow> bool" where
  "lexical_path_is_within root candidate = path_is_within root (normalize_from [] (components candidate))"

definition resolve_internal_pointer :: "str \<Rightarrow> str \<Rightarrow> str \<Rightarrow> str git_op" where
  "resolve_internal_pointer root base v =
     op_bind (refuse_unless (\<not> (v = [] \<or> max_pointer_bytes < length v \<or> nul \<in> set v))) (\<lambda>_.
     op_bind (refuse_unless (lexical_path_is_within root (path_join base v))) (\<lambda>_.
     op_bind (external (reject_link_components (path_join base v))) (\<lambda>_.
     op_bind (real_path (path_join base v) (\<lambda>_. GExternalWorktree)) (\<lambda>canon.
     op_bind (refuse_unless (path_is_within root canon)) (\<lambda>_. op_ok canon)))))"

definition resolve_git_pointer :: "str \<Rightarrow> str \<Rightarrow> str \<Rightarrow> str git_op" where
  "resolve_git_pointer root base v = resolve_internal_pointer root base v"

definition component_text :: "path_component \<Rightarrow> git_error + str" where
  "component_text c =
     (case c of
        Normal name \<Rightarrow> if utf8_valid name then Inr name else Inl GExternalWorktree
      | _ \<Rightarrow> Inl GExternalWorktree)"

definition relative_path_text :: "str \<Rightarrow> str \<Rightarrow> git_error + str" where
  "relative_path_text root p =
     (if \<not> path_is_within root p then Inl GExternalWorktree
      else and_then (collect component_text (drop (length (components root)) (components p)))
        (\<lambda>parts. Inr (join_with slash parts)))"

definition ensure_internal_pointer :: "workspace_handle \<Rightarrow> str \<Rightarrow> str \<Rightarrow> unit git_op" where
  "ensure_internal_pointer h raw canon =
     op_bind (external (reject_link_components raw)) (\<lambda>_. refuse_unless (path_is_within (wh_root h) canon))"

subsection \<open>Configuration files\<close>

datatype config_item = CiSkip | CiSection str | CiEntry str str

abbreviation quote :: char where "quote \<equiv> CHR 0x22"

definition section_of :: "str \<Rightarrow> git_error + config_item" where
  "section_of line =
     (if last line \<noteq> CHR '']'' then Inl GExternalWorktree
      else case split_whitespace (str_trim (butlast (tl line))) of
        [] \<Rightarrow> Inl GExternalWorktree
      | word # _ \<Rightarrow> Inr (CiSection (to_ascii_lowercase (trim_matches quote word))))"

definition trim_both :: "str \<times> str \<Rightarrow> str \<times> str" where
  "trim_both = (\<lambda>(k, v). (str_trim k, str_trim v))"

definition setting_of :: "str \<Rightarrow> git_error + config_item" where
  "setting_of line =
     (case (case split_once CHR ''='' line of Some kv \<Rightarrow> Some kv | None \<Rightarrow> split_once_ws [] line) of
        None \<Rightarrow> Inl GExternalWorktree
      | Some kv \<Rightarrow>
          (case trim_both kv of (key, v) \<Rightarrow>
             if key = [] \<or> has_ws key then Inl GExternalWorktree
             else Inr (CiEntry (to_ascii_lowercase key) (trim_matches CHR 0x27 (trim_matches quote v)))))"

definition config_line :: "str \<Rightarrow> git_error + config_item" where
  "config_line raw =
     (let line = unwrap_suffix raw [CHR 0x0D]; trimmed = str_trim line
      in if max_config_line_bytes < length line then Inl GExternalWorktree
      else if trimmed = [] \<or> hd trimmed \<in> {CHR ''#'', CHR '';''} then Inr CiSkip
      else if hd trimmed = CHR ''['' then section_of trimmed
      else setting_of trimmed)"

definition refused_entry :: "str \<Rightarrow> str \<Rightarrow> bool" where
  "refused_entry section key \<longleftrightarrow>
     starts_with section ''include'' \<and> key = ''path''
   \<or> section = ''extensions'' \<and> key \<in> {''worktreeconfig'', ''partialclone'', ''partialclonefilter''}
   \<or> section = ''remote'' \<and> key = ''promisor''
   \<or> section = ''core'' \<and> key \<in> {''fsmonitor'', ''sshcommand'', ''hookspath''}
   \<or> section = ''filter'' \<and> key \<in> {''process'', ''clean'', ''smudge''}
   \<or> section = ''diff'' \<and> key \<in> {''external'', ''textconv''}
   \<or> section = ''credential'' \<and> key = ''helper''
   \<or> section = ''submodule''
   \<or> section = ''url'' \<and> key \<in> {''insteadof'', ''pushinsteadof''}"

definition validate_config_worktree :: "workspace_handle \<Rightarrow> str \<Rightarrow> str \<Rightarrow> unit git_op" where
  "validate_config_worktree h base v =
     op_bind (resolve_internal_pointer (wh_root h) base v) (\<lambda>target.
     op_bind (op_lift (relative_path_text (wh_root h) target)) (\<lambda>relative.
     op_bind (external (resolve_directory h relative)) (\<lambda>_. op_ok ())))"

definition check_entry :: "workspace_handle \<Rightarrow> str \<Rightarrow> str \<Rightarrow> str \<Rightarrow> str \<Rightarrow> unit git_op" where
  "check_entry h base section key v =
     op_bind (refuse_unless (\<not> refused_entry section key)) (\<lambda>_.
       if section = ''core'' \<and> key = ''worktree'' then validate_config_worktree h base v else op_ok ())"

fun validate_config_lines :: "workspace_handle \<Rightarrow> str \<Rightarrow> str \<Rightarrow> str list \<Rightarrow> unit git_op" where
  "validate_config_lines h base section [] = op_ok ()"
| "validate_config_lines h base section (raw # ls) =
     op_bind (op_lift (config_line raw)) (\<lambda>item.
     case item of
       CiSkip \<Rightarrow> validate_config_lines h base section ls
     | CiSection s \<Rightarrow> validate_config_lines h base s ls
     | CiEntry key v \<Rightarrow>
         op_bind (check_entry h base section key v) (\<lambda>_. validate_config_lines h base section ls))"

definition validate_config_text :: "workspace_handle \<Rightarrow> str \<Rightarrow> str \<Rightarrow> unit git_op" where
  "validate_config_text h base config = validate_config_lines h base [] (split_on CHR 0x0A config)"

end
