(* ===== verification/Ja_Tree.thy ===== *)
theory Ja_Tree
  imports Ja_Content
begin

text \<open>
  One page of a directory (\<open>workspace_read/tree.rs\<close>): the bounded scan of its entries in the order
  the operating system gives them, the snapshot token over the sorted entries, and the slice that
  the cursor and the page size name. A scan has a deadline, seen when the clock is read.
\<close>

record tree_policy =
  tp_max_depth :: nat
  tp_max_entries :: nat
  tp_max_page_size :: nat
  tp_hash_limit :: nat
  tp_max_total_bytes :: nat
  tp_max_scan_millis :: nat

definition default_tree_policy :: tree_policy where
  "default_tree_policy = \<lparr>tp_max_depth = 64, tp_max_entries = 100000, tp_max_page_size = 500,
     tp_hash_limit = 4 * 1024 * 1024, tp_max_total_bytes = 256 * 1024 * 1024, tp_max_scan_millis = 2000\<rparr>"

definition clamp :: "nat \<Rightarrow> nat \<Rightarrow> nat \<Rightarrow> nat" where
  "clamp lo hi n = (if n < lo then lo else if hi < n then hi else n)"

record tree_reader =
  tr_workspace :: workspace_handle
  tr_policy :: tree_policy

definition tree_reader_new :: "workspace_handle \<Rightarrow> tree_policy \<Rightarrow> tree_reader" where
  "tree_reader_new h p = \<lparr>tr_workspace = h, tr_policy = \<lparr>
     tp_max_depth = min (tp_max_depth p) 256,
     tp_max_entries = clamp 1 1000000 (tp_max_entries p),
     tp_max_page_size = clamp 1 10000 (tp_max_page_size p),
     tp_hash_limit = min (tp_hash_limit p) (64 * 1024 * 1024),
     tp_max_total_bytes = min (tp_max_total_bytes p) (2 * 1024 * 1024 * 1024),
     tp_max_scan_millis = clamp 1 60000 (tp_max_scan_millis p)\<rparr>\<rparr>"

record tree_page_request =
  tq_relative_path :: str
  tq_cursor :: "str option"
  tq_page_size :: "nat option"
  tq_snapshot_token :: "str option"

record tree_entry =
  te_name :: str
  te_relative_path :: str
  te_metadata :: file_metadata
  te_can_expand :: bool

record tree_page =
  tg_entries :: "tree_entry list"
  tg_next_cursor :: "str option"
  tg_snapshot_token :: str
  tg_total_entries :: nat
  tg_depth :: nat

subsection \<open>Paths and cursors\<close>

definition is_normal :: "path_component \<Rightarrow> bool" where
  "is_normal c = (case c of Normal _ \<Rightarrow> True | _ \<Rightarrow> False)"

definition relative_depth :: "str \<Rightarrow> nat" where
  "relative_depth p = length (List.filter is_normal (components p))"

definition join_relative :: "str \<Rightarrow> str \<Rightarrow> str" where
  "join_relative parent child = (if parent = [] then child else parent @ ''/'' @ child)"

text \<open>\<open>str::parse::<usize>\<close>: an optional plus sign, digits, and no overflow.\<close>

definition parse_usize :: "str \<Rightarrow> nat option" where
  "parse_usize s =
     (let ds = (case s of c # r \<Rightarrow> if c = CHR ''+'' then r else s | [] \<Rightarrow> s)
      in if ds = [] \<or> \<not> list_all is_ascii_digit ds \<or> usize_max < decimal_value ds then None
         else Some (decimal_value ds))"

subsection \<open>The snapshot token\<close>

text \<open>The \<open>Debug\<close> texts of the metadata; a digest has no character that would be escaped.\<close>

fun debug_kind :: "entry_kind \<Rightarrow> str" where
  "debug_kind EkFile = ''File''"
| "debug_kind EkDirectory = ''Directory''"
| "debug_kind EkSymlink = ''Symlink''"
| "debug_kind EkReparsePoint = ''ReparsePoint''"
| "debug_kind EkOther = ''Other''"

definition debug_option :: "('a \<Rightarrow> str) \<Rightarrow> 'a option \<Rightarrow> str" where
  "debug_option f v = (case v of None \<Rightarrow> ''None'' | Some x \<Rightarrow> ''Some('' @ f x @ '')'')"

definition debug_digest :: "str \<Rightarrow> str" where
  "debug_digest d = [CHR 0x22] @ d @ [CHR 0x22]"

definition debug_revision :: "file_revision \<Rightarrow> str" where
  "debug_revision r =
     ''FileRevision { kind: '' @ debug_kind (fr_kind r) @ '', size: '' @ show_nat (fr_size r)
     @ '', modified_unix_millis: '' @ debug_option show_nat (fr_modified r)
     @ '', sha256: '' @ debug_option debug_digest (fr_sha256 r) @ '' }''"

definition token_line :: "str \<Rightarrow> file_metadata \<Rightarrow> bytes" where
  "token_line name m =
     name @ [CHR 0x00] @ debug_kind (fm_kind m) @ '':'' @ debug_revision (fm_revision m) @ [CHR 0x0A]"

subsection \<open>The scan\<close>

type_synonym scanned = "str \<times> str \<times> os_metadata"

definition expired :: "('e, bool) os_op" where
  "expired w t = (Inr (fs_late (w t)), Suc t)"

definition check_deadline :: "unit fs_op" where
  "check_deadline = op_bind expired (\<lambda>late. op_require (\<not> late) WScanDeadlineExceeded)"

definition entry_name :: "io_kind + bytes \<Rightarrow> workspace_error + str" where
  "entry_name e =
     (case e of Inl k \<Rightarrow> Inl (WIo ''read_dir'' k)
      | Inr name \<Rightarrow> if utf8_valid name then Inr name else Inl WInvalidRelativePath)"

fun scan_entries ::
    "tree_policy \<Rightarrow> str \<Rightarrow> (io_kind + bytes) list \<Rightarrow> scanned list \<Rightarrow> nat \<Rightarrow> scanned list fs_op" where
  "scan_entries p dir [] acc used = op_ok acc"
| "scan_entries p dir (e # es) acc used =
     op_bind check_deadline (\<lambda>_.
     op_bind (op_lift (entry_name e)) (\<lambda>name.
     op_bind (lstat (path_join dir name) (WIo ''stat'')) (\<lambda>m.
     op_bind (op_require (\<not> tp_max_entries p \<le> length acc) WEntryBudgetExceeded) (\<lambda>_.
     op_bind (op_require (\<not> tp_max_total_bytes p < sat_add (sat_add used (om_len m)) (length name))
       WEntryBudgetExceeded) (\<lambda>_.
     scan_entries p dir es (acc @ [(name, path_join dir name, m)])
       (sat_add (sat_add used (om_len m)) (length name)))))))"

fun token_bytes :: "(bytes \<Rightarrow> bytes) \<Rightarrow> nat \<Rightarrow> scanned list \<Rightarrow> bytes fs_op" where
  "token_bytes sha limit [] = op_ok []"
| "token_bytes sha limit ((name, path, m) # es) =
     op_bind (metadata_for_path_with_deadline sha path m limit True) (\<lambda>f.
     op_bind (token_bytes sha limit es) (\<lambda>rest. op_ok (token_line name f @ rest)))"

fun page_entries ::
    "(bytes \<Rightarrow> bytes) \<Rightarrow> tree_policy \<Rightarrow> str \<Rightarrow> nat \<Rightarrow> scanned list \<Rightarrow> tree_entry list fs_op" where
  "page_entries sha p parent depth [] = op_ok []"
| "page_entries sha p parent depth ((name, path, m) # es) =
     op_bind (metadata_for_path_with_deadline sha path m (tp_hash_limit p) True) (\<lambda>f.
     op_bind (page_entries sha p parent depth es) (\<lambda>rest.
     op_ok (\<lparr>te_name = name, te_relative_path = join_relative parent name, te_metadata = f,
       te_can_expand = (entry_kind_of m = EkDirectory \<and> sat_add depth 1 < tp_max_depth p)\<rparr> # rest)))"

subsection \<open>The page\<close>

definition page_start :: "tree_page_request \<Rightarrow> workspace_error + nat" where
  "page_start q =
     ok_or (parse_usize (case tq_cursor q of Some c \<Rightarrow> c | None \<Rightarrow> ''0'')) WInvalidRelativePath"

definition page_size :: "tree_policy \<Rightarrow> tree_page_request \<Rightarrow> nat" where
  "page_size p q =
     clamp 1 (tp_max_page_size p) (case tq_page_size q of Some n \<Rightarrow> n | None \<Rightarrow> tp_max_page_size p)"

definition listing :: "tree_policy \<Rightarrow> str \<Rightarrow> scanned list fs_op" where
  "listing p dir =
     op_bind (op_call (\<lambda>fs. fs_read_dir fs dir) (WIo ''read_dir'')) (\<lambda>es.
     op_bind (scan_entries p dir es [] 0) (\<lambda>entries. op_ok (sort_key fst entries)))"

definition snapshot_of ::
    "(bytes \<Rightarrow> bytes) \<Rightarrow> tree_reader \<Rightarrow> resolved_path \<Rightarrow> (scanned list \<times> str) fs_op" where
  "snapshot_of sha rd r =
     op_bind (listing (tr_policy rd) (rp_path r)) (\<lambda>entries.
     op_bind (token_bytes sha (tp_hash_limit (tr_policy rd)) entries) (\<lambda>bs.
     op_bind (verify_resolved (tr_workspace rd) r (Some True)) (\<lambda>_.
     op_ok (entries, hex_lower (sha bs)))))"

definition page_slice ::
    "(bytes \<Rightarrow> bytes) \<Rightarrow> tree_reader \<Rightarrow> tree_page_request \<Rightarrow> resolved_path \<Rightarrow> nat
     \<Rightarrow> scanned list \<times> str \<Rightarrow> tree_page fs_op" where
  "page_slice sha rd q r start = (\<lambda>(entries, token).
     op_bind (op_require (case tq_snapshot_token q of None \<Rightarrow> True | Some s \<Rightarrow> s = token) WStaleCursor) (\<lambda>_.
     let size = page_size (tr_policy rd) q; total = length entries;
         end_index = min (sat_add start size) total; depth = relative_depth (tq_relative_path q)
     in op_bind (page_entries sha (tr_policy rd) (tq_relative_path q) depth (take size (drop start entries))) (\<lambda>es.
     op_bind (verify_resolved (tr_workspace rd) r (Some True)) (\<lambda>_.
     op_ok \<lparr>tg_entries = es, tg_next_cursor = (if end_index < total then Some (show_nat end_index) else None),
       tg_snapshot_token = token, tg_total_entries = total, tg_depth = depth\<rparr>))))"

definition read_page :: "(bytes \<Rightarrow> bytes) \<Rightarrow> tree_reader \<Rightarrow> tree_page_request \<Rightarrow> tree_page fs_op" where
  "read_page sha rd q =
     op_bind (resolve_guard (tr_workspace rd) (tq_relative_path q) (Some True)) (\<lambda>r.
     op_bind (verify_resolved (tr_workspace rd) r (Some True)) (\<lambda>_.
     op_bind (op_require (\<not> tp_max_depth (tr_policy rd) < relative_depth (tq_relative_path q))
       WDepthLimitExceeded) (\<lambda>_.
     op_bind (op_require (\<not> (tq_cursor q \<noteq> None \<and> tq_snapshot_token q = None)) WStaleCursor) (\<lambda>_.
     op_bind (op_lift (page_start q)) (\<lambda>start.
     op_bind (snapshot_of sha rd r) (page_slice sha rd q r start))))))"

end
