(* ===== verification/Ja_Git_Worktree.thy ===== *)
theory Ja_Git_Worktree
  imports Ja_Git_Config Ja_Tree
begin

text \<open>
  The check of a worktree before and after git runs (\<open>git_read/command.rs\<close>): the bounded walk of
  the object store, its alternates, pack list and commit-graph chain, and the metadata directories
  that \<open>.git\<close> and \<open>commondir\<close> name. The walk has a deadline, seen when the clock is read.
\<close>

subsection \<open>Budgets\<close>

record object_scan_limits =
  ol_directories :: nat
  ol_files :: nat
  ol_bytes :: nat
  ol_depth :: nat
  ol_millis :: nat

definition default_object_limits :: object_scan_limits where
  "default_object_limits = \<lparr>ol_directories = 8 * 1024, ol_files = 200000,
     ol_bytes = 4 * 1024 * 1024 * 1024, ol_depth = 4, ol_millis = 2000\<rparr>"

record object_scan_budget =
  ob_limits :: object_scan_limits
  ob_directories :: nat
  ob_files :: nat
  ob_bytes :: nat

definition budget_new :: "object_scan_limits \<Rightarrow> object_scan_budget" where
  "budget_new l = \<lparr>ob_limits = l, ob_directories = 0, ob_files = 0, ob_bytes = 0\<rparr>"

definition object_deadline :: "unit git_op" where
  "object_deadline = op_bind expired (\<lambda>late. refuse_unless (\<not> late))"

definition visit_directory :: "nat \<Rightarrow> object_scan_budget \<Rightarrow> object_scan_budget git_op" where
  "visit_directory depth b =
     op_bind object_deadline (\<lambda>_.
     op_bind (refuse_unless (\<not> ol_depth (ob_limits b) < depth)) (\<lambda>_.
     let b' = b\<lparr>ob_directories := sat_add (ob_directories b) 1\<rparr>
     in op_bind (refuse_unless (\<not> ol_directories (ob_limits b) < ob_directories b')) (\<lambda>_. op_ok b')))"

definition visit_file :: "nat \<Rightarrow> object_scan_budget \<Rightarrow> object_scan_budget git_op" where
  "visit_file len b =
     op_bind object_deadline (\<lambda>_.
     op_bind (op_lift (ok_or (checked_add64 (ob_bytes b) len) GExternalWorktree)) (\<lambda>bytes.
     let b' = b\<lparr>ob_files := sat_add (ob_files b) 1, ob_bytes := bytes\<rparr>
     in op_bind (refuse_unless (\<not> (ol_files (ob_limits b) < ob_files b' \<or> ol_bytes (ob_limits b) < ob_bytes b')))
          (\<lambda>_. op_ok b')))"

subsection \<open>Walking a directory\<close>

definition object_entry :: "str \<Rightarrow> io_kind + bytes \<Rightarrow> (str \<times> os_metadata) git_op" where
  "object_entry dir e =
     op_bind (op_lift (map_err (\<lambda>_. GExternalWorktree) (entry_name e))) (\<lambda>name.
     op_bind (lstat (path_join dir name) (\<lambda>_. GExternalWorktree)) (\<lambda>m.
     op_bind (refuse_unless (\<not> is_link m)) (\<lambda>_. op_ok (name, m))))"

fun walk_entries ::
    "(str \<Rightarrow> os_metadata \<Rightarrow> object_scan_budget \<Rightarrow> object_scan_budget git_op) \<Rightarrow> str
     \<Rightarrow> (io_kind + bytes) list \<Rightarrow> object_scan_budget \<Rightarrow> object_scan_budget git_op" where
  "walk_entries each dir [] b = op_ok b"
| "walk_entries each dir (e # es) b =
     op_bind object_deadline (\<lambda>_.
     op_bind (object_entry dir e) (\<lambda>(name, m).
     op_bind (each name m b) (walk_entries each dir es)))"

text \<open>What the root and every kind of directory below it have in common.\<close>

definition walk_directory ::
    "workspace_handle \<Rightarrow> str \<Rightarrow> nat
     \<Rightarrow> (str \<Rightarrow> os_metadata \<Rightarrow> object_scan_budget \<Rightarrow> object_scan_budget git_op)
     \<Rightarrow> object_scan_budget \<Rightarrow> object_scan_budget git_op" where
  "walk_directory h relative depth each b =
     op_bind (external (resolve_guard h relative (Some True))) (\<lambda>r.
     op_bind (visit_directory depth b) (\<lambda>b.
     op_bind (external (verify_resolved h r (Some True))) (\<lambda>_.
     op_bind (op_call (\<lambda>fs. fs_read_dir fs (rp_path r)) (\<lambda>_. GExternalWorktree)) (\<lambda>es.
     op_bind (walk_entries each (rp_path r) es b) (\<lambda>b.
     op_bind (external (verify_resolved h r (Some True))) (\<lambda>_. op_ok b))))))"

definition scan_object_file :: "workspace_handle \<Rightarrow> str \<Rightarrow> object_scan_budget \<Rightarrow> object_scan_budget git_op" where
  "scan_object_file h relative b =
     op_bind (external (resolve_guard h relative (Some False))) (\<lambda>r.
     op_bind (lstat (rp_path r) (\<lambda>_. GExternalWorktree)) (\<lambda>m.
     op_bind (refuse_unless (om_kind m = NodeFile)) (\<lambda>_.
     op_bind (visit_file (om_len m) b) (\<lambda>b.
     op_bind (external (verify_resolved h r (Some False))) (\<lambda>_. op_ok b)))))"

subsection \<open>Files that name other files\<close>

fun validate_alternates_of :: "workspace_handle \<Rightarrow> str \<Rightarrow> str list \<Rightarrow> unit git_op" where
  "validate_alternates_of h info [] = op_ok ()"
| "validate_alternates_of h info (name # names) =
     op_bind (read_optional_text_file h (repo_child info name) max_pointer_bytes) (\<lambda>v.
     op_bind (refuse_unless (v = None \<or> v = Some [])) (\<lambda>_. validate_alternates_of h info names))"

definition validate_alternates :: "workspace_handle \<Rightarrow> str \<Rightarrow> unit git_op" where
  "validate_alternates h info = validate_alternates_of h info [''alternates'', ''http-alternates'']"

definition pack_line_ok :: "str \<Rightarrow> bool" where
  "pack_line_ok line \<longleftrightarrow>
     (line = [] \<or> (case strip_prefix line ''P '' of
        None \<Rightarrow> False
      | Some name \<Rightarrow> is_pack_file_name name \<and> \<not> is_promisor_file_name name))"

definition validate_pack_listing :: "workspace_handle \<Rightarrow> str \<Rightarrow> unit git_op" where
  "validate_pack_listing h relative =
     op_bind (read_optional_text_file h relative max_object_text_bytes) (\<lambda>v.
     case v of None \<Rightarrow> op_ok () | Some contents \<Rightarrow> refuse_unless (list_all pack_line_ok (str_lines contents)))"

definition validate_commit_graph_chain :: "workspace_handle \<Rightarrow> str \<Rightarrow> unit git_op" where
  "validate_commit_graph_chain h relative =
     op_bind (read_optional_text_file h relative max_object_text_bytes) (\<lambda>v.
     case v of None \<Rightarrow> op_ok () | Some contents \<Rightarrow> refuse_unless (list_all is_object_hash (str_lines contents)))"

subsection \<open>The object store\<close>

definition fanout_file :: "workspace_handle \<Rightarrow> str \<Rightarrow> str \<Rightarrow> os_metadata \<Rightarrow> object_scan_budget \<Rightarrow> object_scan_budget git_op" where
  "fanout_file h relative name m b =
     op_bind (refuse_unless (is_loose_object_name name \<and> om_kind m = NodeFile)) (\<lambda>_.
     scan_object_file h (repo_child relative name) b)"

definition scan_fanout_directory :: "workspace_handle \<Rightarrow> str \<Rightarrow> nat \<Rightarrow> object_scan_budget \<Rightarrow> object_scan_budget git_op" where
  "scan_fanout_directory h relative depth = walk_directory h relative depth (fanout_file h relative)"

definition graph_file :: "workspace_handle \<Rightarrow> str \<Rightarrow> str \<Rightarrow> os_metadata \<Rightarrow> object_scan_budget \<Rightarrow> object_scan_budget git_op" where
  "graph_file h relative name m b =
     op_bind (refuse_unless (om_kind m = NodeFile \<and> (name = ''commit-graph-chain'' \<or> is_graph_file_name name))) (\<lambda>_.
     op_bind (scan_object_file h (repo_child relative name) b) (\<lambda>b.
     op_bind (if name = ''commit-graph-chain'' then validate_commit_graph_chain h (repo_child relative name) else op_ok ())
       (\<lambda>_. op_ok b)))"

definition scan_commit_graph_directory :: "workspace_handle \<Rightarrow> str \<Rightarrow> nat \<Rightarrow> object_scan_budget \<Rightarrow> object_scan_budget git_op" where
  "scan_commit_graph_directory h relative depth = walk_directory h relative depth (graph_file h relative)"

definition info_content :: "workspace_handle \<Rightarrow> str \<Rightarrow> str \<Rightarrow> unit git_op" where
  "info_content h relative name =
     (if name = ''alternates'' \<or> name = ''http-alternates'' then validate_alternates h relative
      else if name = ''packs'' then validate_pack_listing h (repo_child relative name)
      else op_ok ())"

definition info_entry :: "workspace_handle \<Rightarrow> str \<Rightarrow> nat \<Rightarrow> str \<Rightarrow> os_metadata \<Rightarrow> object_scan_budget \<Rightarrow> object_scan_budget git_op" where
  "info_entry h relative depth name m b =
     (if om_kind m = NodeDir \<and> name = ''commit-graphs''
      then scan_commit_graph_directory h (repo_child relative name) (depth + 1) b
      else if om_kind m = NodeFile \<and> is_info_file_name name
      then op_bind (scan_object_file h (repo_child relative name) b) (\<lambda>b.
           op_bind (info_content h relative name) (\<lambda>_. op_ok b))
      else op_err GExternalWorktree)"

definition scan_info_directory :: "workspace_handle \<Rightarrow> str \<Rightarrow> nat \<Rightarrow> object_scan_budget \<Rightarrow> object_scan_budget git_op" where
  "scan_info_directory h relative depth = walk_directory h relative depth (info_entry h relative depth)"

definition pack_file :: "workspace_handle \<Rightarrow> str \<Rightarrow> str \<Rightarrow> os_metadata \<Rightarrow> object_scan_budget \<Rightarrow> object_scan_budget git_op" where
  "pack_file h relative name m b =
     op_bind (refuse_unless (om_kind m = NodeFile \<and> is_pack_file_name name \<and> \<not> is_promisor_file_name name)) (\<lambda>_.
     scan_object_file h (repo_child relative name) b)"

definition scan_pack_directory :: "workspace_handle \<Rightarrow> str \<Rightarrow> nat \<Rightarrow> object_scan_budget \<Rightarrow> object_scan_budget git_op" where
  "scan_pack_directory h relative depth = walk_directory h relative depth (pack_file h relative)"

definition object_child :: "workspace_handle \<Rightarrow> str \<Rightarrow> str \<Rightarrow> os_metadata \<Rightarrow> object_scan_budget \<Rightarrow> object_scan_budget git_op" where
  "object_child h objects name m b =
     (if om_kind m \<noteq> NodeDir then op_err GExternalWorktree
      else if name = ''info'' then scan_info_directory h (repo_child objects name) 1 b
      else if name = ''pack'' then scan_pack_directory h (repo_child objects name) 1 b
      else if is_fanout_directory_name name then scan_fanout_directory h (repo_child objects name) 1 b
      else op_err GExternalWorktree)"

definition walk_objects :: "workspace_handle \<Rightarrow> str \<Rightarrow> object_scan_limits \<Rightarrow> object_scan_budget git_op" where
  "walk_objects h objects limits = walk_directory h objects 0 (object_child h objects) (budget_new limits)"

definition validate_object_directory_with_limits :: "workspace_handle \<Rightarrow> str \<Rightarrow> object_scan_limits \<Rightarrow> unit git_op" where
  "validate_object_directory_with_limits h objects limits =
     op_bind (walk_objects h objects limits) (\<lambda>_. op_ok ())"

definition validate_object_directory :: "workspace_handle \<Rightarrow> str \<Rightarrow> unit git_op" where
  "validate_object_directory h objects = validate_object_directory_with_limits h objects default_object_limits"

subsection \<open>Metadata directories\<close>

definition validate_directory :: "workspace_handle \<Rightarrow> str \<Rightarrow> bool \<Rightarrow> bool git_op" where
  "validate_directory h relative required =
     op_bind (if_found (resolve_directory h relative)) (\<lambda>found.
     case found of
       Some _ \<Rightarrow> op_ok True
     | None \<Rightarrow> if \<not> required then op_ok False else op_err GExternalWorktree)"

fun validate_configs :: "workspace_handle \<Rightarrow> str \<Rightarrow> str \<Rightarrow> str list \<Rightarrow> unit git_op" where
  "validate_configs h base_rel base_abs [] = op_ok ()"
| "validate_configs h base_rel base_abs (name # names) =
     op_bind (read_optional_text_file h (repo_child base_rel name) max_config_bytes) (\<lambda>v.
     op_bind (case v of None \<Rightarrow> op_ok () | Some config \<Rightarrow> validate_config_text h base_abs config) (\<lambda>_.
     validate_configs h base_rel base_abs names))"

definition validate_repo_location :: "workspace_handle \<Rightarrow> str \<Rightarrow> str \<Rightarrow> bool \<Rightarrow> unit git_op" where
  "validate_repo_location h base_rel base_abs objects_required =
     op_bind (validate_directory h base_rel True) (\<lambda>there.
     op_bind (refuse_unless there) (\<lambda>_.
     op_bind (validate_configs h base_rel base_abs [''config'', ''config.worktree'']) (\<lambda>_.
     op_bind (validate_directory h (repo_child base_rel ''objects'') objects_required) (\<lambda>objects.
     if \<not> objects then op_ok ()
     else validate_object_directory h (repo_child base_rel ''objects'')))))"

definition reject_submodule_metadata :: "workspace_handle \<Rightarrow> str \<Rightarrow> unit git_op" where
  "reject_submodule_metadata h base_rel =
     op_bind (validate_directory h (repo_child base_rel ''modules'') False) (\<lambda>modules.
     op_bind (refuse_unless (\<not> modules)) (\<lambda>_.
     op_bind (read_optional_text_file h ''.gitmodules'' max_config_bytes) (\<lambda>v.
     refuse_unless (v = None))))"

text \<open>The common directory of a linked worktree, named by \<open>commondir\<close>.\<close>

definition validate_common :: "workspace_handle \<Rightarrow> str \<Rightarrow> str \<Rightarrow> unit git_op" where
  "validate_common h git_rel git_dir =
     op_bind (read_optional_text_file h (repo_child git_rel ''commondir'') max_pointer_bytes) (\<lambda>v.
     case v of
       None \<Rightarrow> op_ok ()
     | Some pointer \<Rightarrow>
         op_bind (resolve_git_pointer (wh_root h) git_dir (str_trim pointer)) (\<lambda>common_dir.
         op_bind (op_lift (relative_path_text (wh_root h) common_dir)) (\<lambda>common_rel.
         op_bind (validate_repo_location h common_rel common_dir True) (\<lambda>_.
         reject_submodule_metadata h common_rel))))"

definition validate_bare :: "workspace_handle \<Rightarrow> unit git_op" where
  "validate_bare h =
     op_bind (if_found (resolve_file h ''config'')) (\<lambda>config.
     if config = None then op_ok ()
     else op_bind (if_found (resolve_file h ''HEAD'')) (\<lambda>head.
     if head = None then op_ok ()
     else op_bind (if_found (resolve_directory h ''objects'')) (\<lambda>objects.
     if objects = None then op_ok ()
     else op_bind (validate_repo_location h [] (wh_root h) True) (\<lambda>_. reject_submodule_metadata h []))))"

definition validate_git_directory :: "workspace_handle \<Rightarrow> str \<Rightarrow> unit git_op" where
  "validate_git_directory h git_path =
     op_bind (real_path git_path (\<lambda>_. GExternalWorktree)) (\<lambda>git_dir.
     op_bind (ensure_internal_pointer h git_path git_dir) (\<lambda>_.
     op_bind (validate_repo_location h ''.git'' git_dir True) (\<lambda>_.
     op_bind (validate_common h ''.git'' git_dir) (\<lambda>_. reject_submodule_metadata h ''.git''))))"

definition validate_git_file :: "workspace_handle \<Rightarrow> unit git_op" where
  "validate_git_file h =
     op_bind (read_required_text_file h ''.git'' max_pointer_bytes) (\<lambda>contents.
     op_bind (op_lift (ok_or (strip_prefix contents ''gitdir:'') GExternalWorktree)) (\<lambda>v.
     op_bind (resolve_git_pointer (wh_root h) (wh_root h) (str_trim v)) (\<lambda>git_dir.
     op_bind (op_lift (relative_path_text (wh_root h) git_dir)) (\<lambda>git_rel.
     op_bind (validate_repo_location h git_rel git_dir False) (\<lambda>_.
     op_bind (validate_common h git_rel git_dir) (\<lambda>_. reject_submodule_metadata h git_rel))))))"

definition lstat_of :: "str \<Rightarrow> (io_kind + os_metadata) git_op" where
  "lstat_of p w t = (Inr (fs_lstat (w t) p), Suc t)"

definition validate_worktree :: "workspace_handle \<Rightarrow> unit git_op" where
  "validate_worktree h =
     op_bind (external (resolve_directory h [])) (\<lambda>_.
     op_bind (lstat_of (path_join (wh_root h) ''.git'')) (\<lambda>seen.
     case seen of
       Inl IoNotFound \<Rightarrow> validate_bare h
     | Inl _ \<Rightarrow> op_err GExternalWorktree
     | Inr m \<Rightarrow>
         (case om_kind m of
            NodeDir \<Rightarrow> validate_git_directory h (path_join (wh_root h) ''.git'')
          | NodeFile \<Rightarrow> validate_git_file h
          | _ \<Rightarrow> op_err GExternalWorktree)))"

end
