(* ===== verification/Ja_Git_Formats.thy ===== *)
theory Ja_Git_Formats
  imports Ja_Git_Parse
begin

text \<open>
  The formats git documents for \<open>status --porcelain=v2 -z\<close> and for \<open>log --format\<close> with NUL
  separators, as printers, and what the parsers read of them.
\<close>

subsection \<open>Splitting what was joined\<close>

lemma splitn_join:
  "\<forall>f \<in> set fs. c \<notin> set f \<Longrightarrow> splitn c (Suc (length fs)) (join_with c (fs @ [p])) = fs @ [p]"
proof (induction fs)
  case (Cons f fs)
  have j: "join_with c (f # fs @ [p]) = f @ c # join_with c (fs @ [p])"
    by (cases "fs @ [p]") auto
  have "c \<notin> set f" using Cons.prems by simp
  then show ?case
    using Cons by (simp add: j takeWhile_append dropWhile_append)
qed simp

lemma join_head: "ps \<noteq> [] \<Longrightarrow> hd (join_with c ((x # xs) # ps)) = x"
  by (cases ps) auto

lemma split_terminated:
  "\<forall>r \<in> set rs. c \<notin> set r \<Longrightarrow> split_on c (concat (map (\<lambda>r. r @ [c]) rs)) = rs @ [[]]"
  by (induction rs) (auto simp: split_on_append)

lemma text_field_ok: "nul \<notin> set f \<Longrightarrow> utf8_valid f \<Longrightarrow> text_field f = Inr f"
  by (simp add: text_field_def)

lemma collect_fields:
  "\<forall>f \<in> set fs. nul \<notin> set f \<and> utf8_valid f \<Longrightarrow> collect text_field fs = Inr fs"
  using collect_pure [of fs text_field id] by (simp add: text_field_ok)

subsection \<open>Status records\<close>

text \<open>
  \<open>SrHeader\<close> is the text after the number sign; the fields of a changed, renamed or unmerged
  record are those between the two status letters and the path.
\<close>

datatype status_record =
    SrHeader str
  | SrChanged str "str list" str
  | SrRenamed str "str list" str str
  | SrUnmerged str "str list" str
  | SrUntracked str
  | SrIgnored str

definition field_ok :: "str \<Rightarrow> bool" where
  "field_ok f \<longleftrightarrow> CHR '' '' \<notin> set f \<and> nul \<notin> set f \<and> utf8_valid f"

definition path_ok :: "str \<Rightarrow> bool" where
  "path_ok p \<longleftrightarrow> nul \<notin> set p \<and> utf8_valid p"

definition fields_record :: "str \<Rightarrow> str list \<Rightarrow> nat \<Rightarrow> bool" where
  "fields_record xy fs n \<longleftrightarrow> length xy = 2 \<and> field_ok xy \<and> list_all field_ok fs \<and> length fs = n"

fun record_ok :: "status_record \<Rightarrow> bool" where
  "record_ok (SrHeader h) = path_ok h"
| "record_ok (SrChanged xy fs p) = (fields_record xy fs 6 \<and> path_ok p)"
| "record_ok (SrRenamed xy fs p q) = (fields_record xy fs 7 \<and> path_ok p \<and> path_ok q)"
| "record_ok (SrUnmerged xy fs p) = (fields_record xy fs 8 \<and> path_ok p)"
| "record_ok (SrUntracked p) = path_ok p"
| "record_ok (SrIgnored p) = path_ok p"

definition print_fields :: "str \<Rightarrow> str \<Rightarrow> str list \<Rightarrow> str \<Rightarrow> bytes" where
  "print_fields tag xy fs p = join_with CHR '' '' ((tag # xy # fs) @ [p])"

fun record_lines :: "status_record \<Rightarrow> bytes list" where
  "record_lines (SrHeader h) = [CHR ''#'' # h]"
| "record_lines (SrChanged xy fs p) = [print_fields ''1'' xy fs p]"
| "record_lines (SrRenamed xy fs p q) = [print_fields ''2'' xy fs p, q]"
| "record_lines (SrUnmerged xy fs p) = [print_fields ''u'' xy fs p]"
| "record_lines (SrUntracked p) = [''? '' @ p]"
| "record_lines (SrIgnored p) = [''! '' @ p]"

definition print_status :: "status_record list \<Rightarrow> bytes" where
  "print_status rs = concat (map (\<lambda>r. r @ [nul]) (concat (map record_lines rs)))"

fun read_record :: "status_record \<Rightarrow> git_status_entry" where
  "read_record (SrHeader h) = plain_entry GsHead (CHR ''#'' # h)"
| "read_record (SrChanged xy fs p) = status_entry GsChanged xy p None"
| "read_record (SrRenamed xy fs p q) = status_entry GsRenamed xy p (Some q)"
| "read_record (SrUnmerged xy fs p) = status_entry GsUnmerged xy p None"
| "read_record (SrUntracked p) = plain_entry GsUntracked p"
| "read_record (SrIgnored p) = plain_entry GsIgnored p"

definition record_count :: "status_record list \<Rightarrow> nat" where
  "record_count rs = length (concat (map record_lines rs))"

lemma ascii_cons: "byte c < 128 \<Longrightarrow> utf8_valid (c # s) = utf8_valid s"
  by simp

lemma print_fields_shape:
  assumes "fields_record xy fs n" and "path_ok p" and "tag = [t]" and "byte t < 128" and "t \<noteq> CHR '' ''" and "t \<noteq> nul"
  shows "split_fields (print_fields tag xy fs p) (n + 3) = Inr (tag # xy # fs @ [p])"
    and "print_fields tag xy fs p \<noteq> []" and "hd (print_fields tag xy fs p) = t"
proof -
  have f: "\<forall>f \<in> set (tag # xy # fs). CHR '' '' \<notin> set f"
    and g: "\<forall>f \<in> set (tag # xy # fs @ [p]). nul \<notin> set f \<and> utf8_valid f"
    using assms by (auto simp: fields_record_def field_ok_def path_ok_def list_all_iff)
  have "Suc (length (tag # xy # fs)) = n + 3"
    using assms(1) by (simp add: fields_record_def)
  then have "splitn CHR '' '' (n + 3) (print_fields tag xy fs p) = tag # xy # fs @ [p]"
    using splitn_join [OF f, of p] unfolding print_fields_def by (simp only: append_Cons)
  then show "split_fields (print_fields tag xy fs p) (n + 3) = Inr (tag # xy # fs @ [p])"
    using collect_fields [OF g] assms(1,3) by (simp add: split_fields_def fields_record_def)
  show "print_fields tag xy fs p \<noteq> []" and "hd (print_fields tag xy fs p) = t"
    using assms(3) by (simp_all add: print_fields_def)
qed

lemmas changed_shape = print_fields_shape [where n = 6, of _ _ _ "''1''" "CHR ''1''", simplified]
lemmas renamed_shape = print_fields_shape [where n = 7, of _ _ _ "''2''" "CHR ''2''", simplified]
lemmas unmerged_shape = print_fields_shape [where n = 8, of _ _ _ "''u''" "CHR ''u''", simplified]

lemma fields_get:
  "length fs = n \<Longrightarrow> (a # b # fs @ [p]) ! 1 = b" "length fs = n \<Longrightarrow> (a # b # fs @ [p]) ! (n + 2) = p"
  by (auto simp: nth_append)

lemma charge:
  assumes "m \<le> u64_max"
  shows "charge_status_records n (Suc 0) m = (if Suc n \<le> m then Inr (Suc n) else Inl GParse)"
  using assms by (auto simp: charge_status_records_def checked_add64_def)

subsection \<open>Reading a status\<close>

lemma hd_text: "path_ok p \<Longrightarrow> byte c < 128 \<Longrightarrow> c \<noteq> nul \<Longrightarrow> text_field (c # p) = Inr (c # p)"
  by (simp add: text_field_def path_ok_def)

lemma parse_record:
  assumes "record_ok r" and "n \<le> m" and "m \<le> u64_max"
  shows "parse_records m n (record_lines r @ rest)
    = (if n + length (record_lines r) \<le> m
       then push_entry (read_record r) (parse_records m (n + length (record_lines r)) rest)
       else Inl GParse)"
proof (cases r)
  case (SrHeader h)
  then show ?thesis using assms by (simp add: charge hd_text)
next
  case (SrChanged xy fs p)
  then have ok: "fields_record xy fs 6" "path_ok p" using assms(1) by simp_all
  then have "length fs = 6" "length xy = 2" by (simp_all add: fields_record_def)
  with SrChanged show ?thesis
    using assms(2,3) changed_shape [OF ok] fields_get [of fs 6 "''1''" xy p] by (simp add: charge)
next
  case (SrRenamed xy fs p q)
  then have ok: "fields_record xy fs 7" "path_ok p" and q: "text_field q = Inr q"
    using assms(1) by (simp_all add: path_ok_def text_field_def)
  then have "length fs = 7" "length xy = 2" by (simp_all add: fields_record_def)
  with SrRenamed q show ?thesis
    using assms(2,3) renamed_shape [OF ok] fields_get [of fs 7 "''2''" xy p] by (auto simp add: charge)
next
  case (SrUnmerged xy fs p)
  then have ok: "fields_record xy fs 8" "path_ok p" using assms(1) by simp_all
  then have "length fs = 8" "length xy = 2" by (simp_all add: fields_record_def)
  with SrUnmerged show ?thesis
    using assms(2,3) unmerged_shape [OF ok] fields_get [of fs 8 "''u''" xy p] by (simp add: charge)
next
  case (SrUntracked p)
  then show ?thesis using assms by (simp add: charge path_ok_def text_field_def)
next
  case (SrIgnored p)
  then show ?thesis using assms by (simp add: charge path_ok_def text_field_def)
qed

lemma parse_all:
  "list_all record_ok rs \<Longrightarrow> n \<le> m \<Longrightarrow> m \<le> u64_max \<Longrightarrow>
    parse_records m n (concat (map record_lines rs) @ [[]])
      = (if n + record_count rs \<le> m then Inr (map read_record rs) else Inl GParse)"
proof (induction rs arbitrary: n)
  case (Cons r rs)
  then show ?case
    using parse_record [of r n m "concat (map record_lines rs) @ [[]]"]
    by (auto simp: push_entry_def record_count_def)
qed (simp add: record_count_def)

lemma join_no_nul:
  "\<forall>f \<in> set fs. nul \<notin> set f \<Longrightarrow> c \<noteq> nul \<Longrightarrow> nul \<notin> set (join_with c fs)"
  by (induction c fs rule: join_with.induct) auto

lemma record_no_nul: "record_ok r \<Longrightarrow> l \<in> set (record_lines r) \<Longrightarrow> nul \<notin> set l"
  by (cases r) (auto simp: path_ok_def fields_record_def field_ok_def list_all_iff print_fields_def
      dest!: join_no_nul [THEN notE, rotated 2])

text \<open>
  C32. The status parser reads back what git printed: every record with its letters and its paths,
  spaces in names included, a renamed file with its old name; and when the records, counting a
  rename twice, are more than the policy allows, it fails and returns none of them.
\<close>

theorem git_status_exact:
  assumes "list_all record_ok rs" and "m \<le> u64_max"
  shows "parse_status (print_status rs) m
    = (if 0 < m \<and> record_count rs \<le> m then Inr (map read_record rs) else Inl GParse)"
proof -
  have "\<forall>l \<in> set (concat (map record_lines rs)). nul \<notin> set l"
    using assms(1) record_no_nul by (auto simp: list_all_iff)
  then have "split_on nul (print_status rs) = concat (map record_lines rs) @ [[]]"
    by (simp add: print_status_def split_terminated)
  then show ?thesis
    using parse_all [OF assms(1) _ assms(2), of 0] by (simp add: parse_status_def)
qed

definition sample_status :: "status_record list" where
  "sample_status = [SrRenamed ''R.'' [''N...'', ''100644'', ''100644'', ''100644'', ''aa'', ''bb'', ''R100'']
     ''new name'' ''old name'', SrUntracked ''x y'']"

theorem git_status_exact_witness:
  "parse_status (print_status sample_status) 3 = Inr (map read_record sample_status)"
proof -
  have "list_all record_ok sample_status"
    by (simp add: sample_status_def fields_record_def field_ok_def path_ok_def)
  from git_status_exact [OF this, of 3] show ?thesis
    by (simp add: u64_max_def record_count_def sample_status_def)
qed

subsection \<open>Log\<close>

text \<open>
  A commit as the adapter's format prints it, every field ended by NUL, and the log of several:
  a format given by \<open>--format=\<close> ends every commit with a line break.
\<close>

abbreviation line_break :: char where "line_break \<equiv> CHR 0x0A"

definition log_fields :: "git_log_entry \<Rightarrow> str list" where
  "log_fields c = [gl_object_id c, join_with CHR '' '' (gl_parents c), gl_author c, gl_email c,
     gl_authored_at c, gl_subject c]"

definition print_commit :: "git_log_entry \<Rightarrow> bytes" where
  "print_commit c = concat (map (\<lambda>f. f @ [nul]) (log_fields c))"

definition log_output :: "git_log_entry list \<Rightarrow> bytes" where
  "log_output cs = concat (map (\<lambda>c. print_commit c @ [line_break]) cs)"

definition object_name :: "str \<Rightarrow> bool" where
  "object_name h \<longleftrightarrow> h \<noteq> [] \<and> list_all is_ascii_hexdigit h"

definition commit_ok :: "git_log_entry \<Rightarrow> bool" where
  "commit_ok c \<longleftrightarrow> object_name (gl_object_id c) \<and> list_all object_name (gl_parents c)
     \<and> path_ok (gl_author c) \<and> path_ok (gl_email c) \<and> path_ok (gl_authored_at c) \<and> path_ok (gl_subject c)"

definition after_break :: "git_log_entry \<Rightarrow> git_log_entry" where
  "after_break c = c\<lparr>gl_object_id := line_break # gl_object_id c\<rparr>"

lemma hexdigit_ws: "is_ascii_hexdigit c \<Longrightarrow> ws_len (c # s) = 0"
  by (auto simp: byte_defs)

lemma split_ws_word: "list_all is_ascii_hexdigit w \<Longrightarrow> split_ws cur (w @ s) = split_ws (cur @ w) s"
proof (induction w arbitrary: cur)
  case (Cons c w)
  then show ?case
    by (subst split_ws.simps) (simp add: hexdigit_ws del: ws_len.simps)
qed simp

lemma split_ws_end: "split_ws cur [] = flush cur []"
  by (subst split_ws.simps) simp

lemma split_ws_space: "split_ws cur (CHR '' '' # s) = flush cur (split_ws [] s)"
  by (subst split_ws.simps) simp

lemma split_words: "list_all object_name ps \<Longrightarrow> split_whitespace (join_with CHR '' '' ps) = ps"
proof (induction "CHR '' ''" ps rule: join_with.induct)
  case 1
  show ?case by (simp add: split_whitespace_def split_ws_end flush_def)
next
  case (2 p)
  then show ?case
    using split_ws_word [of p "[]" "[]"]
    by (simp add: split_whitespace_def split_ws_end flush_def object_name_def)
next
  case (3 p q ps)
  then show ?case
    using split_ws_word [of p "[]" "CHR '' '' # join_with CHR '' '' (q # ps)"]
    by (simp add: split_whitespace_def split_ws_space flush_def object_name_def)
qed

lemma log_entries_fields:
  "list_all (\<lambda>c. list_all object_name (gl_parents c)) cs \<Longrightarrow> log_entries (concat (map log_fields cs)) = cs"
  by (induction cs) (simp_all add: log_fields_def split_words)

lemma hex_text: "list_all is_ascii_hexdigit h \<Longrightarrow> nul \<notin> set h \<and> utf8_valid h"
  by (induction h) (auto simp: byte_defs)

lemma join_valid:
  "list_all object_name ps \<Longrightarrow> utf8_valid (join_with CHR '' '' ps) \<and> nul \<notin> set (join_with CHR '' '' ps)"
proof -
  assume ps: "list_all object_name ps"
  have "is_ascii (join_with CHR '' '' ps)"
    using ps by (induction "CHR '' ''" ps rule: join_with.induct)
      (auto simp: is_ascii_def object_name_def list_all_iff byte_defs)
  moreover have "nul \<notin> set (join_with CHR '' '' ps)"
    using ps by (intro join_no_nul) (auto simp: object_name_def list_all_iff dest!: hex_text [unfolded list_all_iff])
  ultimately show ?thesis using ascii_utf8_valid by blast
qed

definition printable :: "git_log_entry \<Rightarrow> bool" where
  "printable c \<longleftrightarrow> list_all object_name (gl_parents c) \<and> (\<forall>f \<in> set (log_fields c). path_ok f)"

lemma commit_printable: "commit_ok c \<Longrightarrow> printable c \<and> printable (after_break c)"
  using join_valid [of "gl_parents c"] hex_text [of "gl_object_id c"]
  by (simp add: printable_def commit_ok_def log_fields_def path_ok_def object_name_def after_break_def)

lemma unwrap_break: "unwrap_suffix (s @ [c]) [c] = s"
proof -
  have "strip_suffix (s @ [c]) [c] = Some s" by (simp add: strip_suffix_Some)
  then show ?thesis by (simp add: unwrap_suffix_def)
qed

lemma unwrap_terminated: "c \<noteq> d \<Longrightarrow> unwrap_suffix (concat (map (\<lambda>f. f @ [c]) fs)) [d] = concat (map (\<lambda>f. f @ [c]) fs)"
  by (cases fs rule: rev_cases) (auto simp: unwrap_suffix_def strip_suffix_Some split: option.splits)

lemma parse_printed:
  assumes "list_all printable cs"
  shows "parse_log (concat (map print_commit cs) @ [line_break]) = Inr cs" and "parse_log [] = Inr []"
proof -
  let ?fs = "concat (map log_fields cs)"
  have body: "concat (map print_commit cs) = concat (map (\<lambda>f. f @ [nul]) ?fs)"
    by (induction cs) (simp_all add: print_commit_def)
  have fields: "\<forall>f \<in> set ?fs. nul \<notin> set f \<and> utf8_valid f"
    using assms by (auto simp: printable_def list_all_iff path_ok_def)
  then have split: "split_on nul (concat (map print_commit cs)) = ?fs @ [[]]"
    using split_terminated [of ?fs nul] by (simp add: body)
  have "\<forall>f \<in> set (?fs @ [[]]). nul \<notin> set f \<and> utf8_valid f" using fields by auto
  note all = collect_fields [OF this]
  have len: "length ?fs = 6 * length cs"
    by (induction cs) (simp_all add: log_fields_def)
  have "unwrap_suffix (unwrap_suffix (concat (map print_commit cs) @ [line_break]) [line_break]) [CHR 0x0D]
      = concat (map print_commit cs)"
    by (simp add: unwrap_break body unwrap_terminated)
  moreover have "list_all (\<lambda>c. list_all object_name (gl_parents c)) cs"
    using assms by (auto simp: printable_def list_all_iff)
  ultimately show "parse_log (concat (map print_commit cs) @ [line_break]) = Inr cs"
    unfolding parse_log_def Let_def using split all len log_entries_fields by simp
  show "parse_log [] = Inr []"
    by (simp add: parse_log_def unwrap_suffix_def strip_suffix_def ends_with_def text_field_def Let_def)
qed

lemma log_output_shift:
  "log_output (c # cs) = concat (map print_commit (c # map after_break cs)) @ [line_break]"
proof (induction cs arbitrary: c)
  case (Cons d cs)
  have "print_commit (after_break d) = line_break # print_commit d"
    by (simp add: print_commit_def log_fields_def after_break_def)
  then show ?case
    using Cons [of d] by (simp add: log_output_def)
qed (simp add: log_output_def)

lemma break_no_object: "validate_object (line_break # h) = Inl GInvalidObject"
  by (simp add: validate_object_def object_char_def byte_defs)

text \<open>
  C33. The log parser reads the newest commit as git printed it, but the line break that ends a
  commit stays in front of the next one's object id: no id but the first is the one git printed,
  and none of the others is an object that \<open>show\<close> accepts.
\<close>

theorem git_log_breaks:
  assumes "list_all commit_ok (c # cs)"
  shows "parse_log (log_output (c # cs)) = Inr (c # map after_break cs)
    \<and> (\<forall>d \<in> set (map after_break cs). validate_object (gl_object_id d) = Inl GInvalidObject)"
proof -
  have "list_all printable (c # map after_break cs)"
    using assms commit_printable by (auto simp: list_all_iff)
  from parse_printed(1) [OF this] have "parse_log (log_output (c # cs)) = Inr (c # map after_break cs)"
    by (simp only: log_output_shift)
  moreover have "validate_object (gl_object_id (after_break d)) = Inl GInvalidObject" for d
    by (simp add: after_break_def break_no_object)
  ultimately show ?thesis by auto
qed

definition sample_commit :: "str \<Rightarrow> str list \<Rightarrow> git_log_entry" where
  "sample_commit h ps = \<lparr>gl_object_id = h, gl_parents = ps, gl_author = ''A B'', gl_email = ''a@b'',
     gl_authored_at = ''2026-01-01T00:00:00Z'', gl_subject = ''two words''\<rparr>"

theorem git_log_breaks_witness:
  "parse_log (log_output [sample_commit ''ab12'' [''cd34''], sample_commit ''cd34'' []])
     = Inr [sample_commit ''ab12'' [''cd34''], sample_commit (line_break # ''cd34'') []]"
proof -
  have "list_all commit_ok [sample_commit ''ab12'' [''cd34''], sample_commit ''cd34'' []]"
    by (simp add: commit_ok_def sample_commit_def object_name_def path_ok_def byte_defs)
  from git_log_breaks [OF this] show ?thesis
    by (simp add: after_break_def sample_commit_def)
qed

end
