(* ===== verification/Ja_Git_Guard.thy ===== *)
theory Ja_Git_Guard
  imports Ja_Git_Worktree Ja_Git_Formats
begin

text \<open>
  What the check of a worktree establishes: which settings of a configuration file in git's usual
  layout are refused, which spellings of them are not seen, and what an admitted object store holds.
\<close>

subsection \<open>White space at the ends\<close>

definition plain_char :: "char \<Rightarrow> bool" where
  "plain_char c \<longleftrightarrow> 33 \<le> byte c \<and> byte c < 127"

lemma plain_ws [simp]: "plain_char c \<Longrightarrow> ws_len (c # s) = 0"
  by (auto simp: plain_char_def)

lemma ws_len_white: "\<forall>c \<in> set (take (ws_len s) s). \<not> plain_char c"
proof (cases s)
  case (Cons a r)
  then show ?thesis
    by (cases r; cases "tl r") (auto simp: plain_char_def numeral_3_eq_3 numeral_2_eq_2)
qed simp

lemma ws_len_inside: "plain_char c \<Longrightarrow> ws_len (a @ c # b) \<noteq> Suc (length a + length b)"
proof
  assume c: "plain_char c" and "ws_len (a @ c # b) = Suc (length a + length b)"
  then have "take (ws_len (a @ c # b)) (a @ c # b) = a @ c # b" by simp
  then show False using ws_len_white [of "a @ c # b"] c by simp
qed

declare ws_len.simps(2) [simp del]

lemma ends_ws_plain:
  assumes "plain_char c" and "ends_ws (a @ c # b) k" and "0 < k"
  shows "k \<le> length b"
proof (rule ccontr)
  assume long: "\<not> k \<le> length b"
  have le: "k \<le> length a + Suc (length b)" using assms(2) by (simp add: ends_ws_def)
  then have "drop (length (a @ c # b) - k) (a @ c # b) = drop (length a + Suc (length b) - k) a @ c # b"
    using long by simp
  then have "ws_len (drop (length a + Suc (length b) - k) a @ c # b) = k"
    using assms(2) by (simp add: ends_ws_def)
  moreover have "k = Suc (length (drop (length a + Suc (length b) - k) a) + length b)"
    using le long by simp
  ultimately show False using ws_len_inside [OF assms(1)] by metis
qed

lemma ws_end_plain: "plain_char c \<Longrightarrow> ws_end (a @ c # b) \<le> length b"
  using ends_ws_plain [of c a b] by (auto simp: ws_end_def)

lemma trim_end_keeps: "plain_char c \<Longrightarrow> \<exists>b'. trim_end (a @ c # b) = a @ c # b'"
proof (induction "length b" arbitrary: b rule: less_induct)
  case less
  show ?case
  proof (cases "ws_end (a @ c # b) = 0")
    case True
    then show ?thesis by (subst trim_end.simps) simp
  next
    case False
    let ?n = "ws_end (a @ c # b)"
    have n: "0 < ?n" "?n \<le> length b" using False ws_end_plain [OF less.prems] by auto
    then have "take (length (a @ c # b) - ?n) (a @ c # b) = a @ c # take (length b - ?n) b"
      by (simp add: Suc_diff_le)
    moreover have "\<exists>b'. trim_end (a @ c # take (length b - ?n) b) = a @ c # b'"
      using n less.prems by (intro less.hyps) simp_all
    then obtain b' where "trim_end (a @ c # take (length b - ?n) b) = a @ c # b'" by blast
    ultimately have "trim_end (a @ c # b) = a @ c # b'"
      using False by (subst trim_end.simps) simp
    then show ?thesis by blast
  qed
qed

lemma trim_end_plain: "plain_char c \<Longrightarrow> trim_end (a @ [c]) = a @ [c]"
  using ws_end_plain [of c a "[]"] by (subst trim_end.simps) simp

lemma trim_start_plain: "plain_char c \<Longrightarrow> trim_start (c # s) = c # s"
  by (subst trim_start.simps) simp

lemma trim_start_blank: "byte c = 9 \<or> byte c = 32 \<Longrightarrow> trim_start (c # s) = trim_start s"
  by (subst trim_start.simps) (auto simp: ws_len.simps)

lemma trim_plain:
  assumes "plain_char (hd s)" and "plain_char (last s)" and "s \<noteq> []"
  shows "str_trim s = s"
proof -
  have "trim_start s = s" using assms(1,3) by (cases s) (simp_all add: trim_start_plain)
  moreover have "trim_end s = s"
    using trim_end_plain [OF assms(2), of "butlast s"] assms(3) by simp
  ultimately show ?thesis by (simp add: str_trim_def)
qed

subsection \<open>Configuration files in the usual layout\<close>

text \<open>
  Sections with an optional quoted subsection and their settings, printed the way \<open>git config\<close>
  writes them. Names are letters, digits and hyphens; a value is any text without a line break.
\<close>

record config_section =
  cs_name :: str
  cs_subsection :: "str option"
  cs_entries :: "(str \<times> str) list"

definition name_char :: "char \<Rightarrow> bool" where
  "name_char c \<longleftrightarrow> is_ascii_alphanumeric c \<or> c = CHR ''-''"

definition setting_name :: "str \<Rightarrow> bool" where
  "setting_name s \<longleftrightarrow> s \<noteq> [] \<and> list_all name_char s"

abbreviation line_feed :: char where "line_feed \<equiv> CHR 0x0A"

definition section_header :: "config_section \<Rightarrow> str" where
  "section_header s = ''['' @ cs_name s
     @ (case cs_subsection s of None \<Rightarrow> [] | Some sub \<Rightarrow> '' '' @ [quote] @ sub @ [quote]) @ '']''"

definition entry_line :: "str \<times> str \<Rightarrow> str" where
  "entry_line = (\<lambda>(k, v). [CHR 0x09] @ k @ '' = '' @ v)"

definition section_lines :: "config_section \<Rightarrow> str list" where
  "section_lines s = section_header s # map entry_line (cs_entries s)"

definition print_config :: "config_section list \<Rightarrow> str" where
  "print_config ss = concat (map (\<lambda>l. l @ [line_feed]) (concat (map section_lines ss)))"

definition line_ok :: "str \<Rightarrow> bool" where
  "line_ok l \<longleftrightarrow> line_feed \<notin> set l \<and> length l \<le> max_config_line_bytes"

definition section_ok :: "config_section \<Rightarrow> bool" where
  "section_ok s \<longleftrightarrow> setting_name (cs_name s) \<and> list_all line_ok (section_lines s)
     \<and> list_all (\<lambda>(k, v). setting_name k \<and>
          \<not> (to_ascii_lowercase (cs_name s) = ''core'' \<and> to_ascii_lowercase k = ''worktree'')) (cs_entries s)"

definition refuses_section :: "config_section \<Rightarrow> bool" where
  "refuses_section s \<longleftrightarrow> list_ex (\<lambda>(k, v). refused_entry (to_ascii_lowercase (cs_name s)) (to_ascii_lowercase k)) (cs_entries s)"

lemma name_plain: "name_char c \<Longrightarrow> plain_char c"
  by (auto simp: name_char_def plain_char_def byte_defs)

lemma name_not: "name_char c \<Longrightarrow> c \<noteq> quote \<and> c \<noteq> CHR ''='' \<and> c \<noteq> CHR ''['' \<and> c \<noteq> CHR ''#'' \<and> c \<noteq> CHR '';'' \<and> c \<noteq> CHR 0x0D"
  by (auto simp: name_char_def byte_defs)

lemma special_plain [simp]: "plain_char CHR ''[''" "plain_char CHR '']''" "plain_char CHR ''=''" "plain_char quote"
  by (simp_all add: plain_char_def)

lemma split_ws_plain: "list_all plain_char w \<Longrightarrow> split_ws cur (w @ s) = split_ws (cur @ w) s"
proof (induction w arbitrary: cur)
  case (Cons c w)
  then show ?case by (subst split_ws.simps) simp
qed simp

lemma dropWhile_absent: "c \<notin> set s \<Longrightarrow> dropWhile (\<lambda>x. x = c) s = s"
  by (cases s) auto

lemma trim_no_quotes: "quote \<notin> set n \<Longrightarrow> trim_matches quote n = n"
  by (simp add: trim_matches_def dropWhile_absent)

lemma setting_ends: "setting_name n \<Longrightarrow> plain_char (hd n) \<and> plain_char (last n) \<and> n \<noteq> []"
  by (auto simp: setting_name_def list_all_iff name_plain)

text \<open>The first word of a header is the section, whatever comes after it.\<close>

definition header_word :: "str \<Rightarrow> bool" where
  "header_word n \<longleftrightarrow> n \<noteq> [] \<and> list_all plain_char n \<and> quote \<notin> set n"

lemma setting_word: "setting_name n \<Longrightarrow> header_word n"
  by (auto simp: setting_name_def header_word_def list_all_iff name_plain dest: name_not)

lemma section_of_header:
  assumes "header_word n" and "rest = [] \<or> (\<exists>r c. rest = CHR '' '' # r @ [c] \<and> plain_char c)"
  shows "section_of (CHR ''['' # (n @ rest) @ [CHR '']'']) = Inr (CiSection (to_ascii_lowercase n))"
proof -
  have n: "n \<noteq> []" "list_all plain_char n" "quote \<notin> set n" using assms(1) by (simp_all add: header_word_def)
  then have "plain_char (hd (n @ rest))" "plain_char (last (n @ rest))"
    using assms(2) by (auto simp: list_all_iff)
  then have "str_trim (n @ rest) = n @ rest" using n(1) by (intro trim_plain) auto
  moreover have "\<exists>ws. split_whitespace (n @ rest) = n # ws"
    using n assms(2) split_ws_plain [of n "[]" rest]
    by (auto simp: split_whitespace_def split_ws_end split_ws_space flush_def)
  ultimately show ?thesis by (auto simp: section_of_def butlast_append trim_no_quotes [OF n(3)])
qed

lemma unwrap_other: "last s \<noteq> c \<Longrightarrow> unwrap_suffix s [c] = s"
  by (auto simp: unwrap_suffix_def strip_suffix_Some split: option.splits)

lemma unwrap_same: "unwrap_suffix (s @ [c]) [c] = s"
proof -
  have "strip_suffix (s @ [c]) [c] = Some s" by (simp add: strip_suffix_Some)
  then show ?thesis by (simp add: unwrap_suffix_def)
qed

text \<open>What a line is when it is not too long.\<close>

definition line_item :: "str \<Rightarrow> git_error + config_item" where
  "line_item raw =
     (let trimmed = str_trim (unwrap_suffix raw [CHR 0x0D])
      in if trimmed = [] \<or> hd trimmed \<in> {CHR ''#'', CHR '';''} then Inr CiSkip
      else if hd trimmed = CHR ''['' then section_of trimmed
      else setting_of trimmed)"

lemma length_unwrap: "length (unwrap_suffix l suf) \<le> length l"
  by (simp add: unwrap_suffix_def strip_suffix_def)

lemma config_line_short: "length raw \<le> max_config_line_bytes \<Longrightarrow> config_line raw = line_item raw"
  using length_unwrap [of raw "[CHR 0x0D]"] by (simp add: config_line_def line_item_def Let_def)

lemma header_item:
  assumes "header_word n" and "rest = [] \<or> (\<exists>r c. rest = CHR '' '' # r @ [c] \<and> plain_char c)"
  shows "line_item (CHR ''['' # (n @ rest) @ [CHR '']'']) = Inr (CiSection (to_ascii_lowercase n))"
proof -
  have "str_trim (CHR ''['' # (n @ rest) @ [CHR '']'']) = CHR ''['' # (n @ rest) @ [CHR '']'']"
    by (rule trim_plain) simp_all
  then show ?thesis using section_of_header [OF assms] by (simp add: line_item_def unwrap_other)
qed

lemma config_header:
  assumes "setting_name (cs_name s)" and "length (section_header s) \<le> max_config_line_bytes"
  shows "config_line (section_header s) = Inr (CiSection (to_ascii_lowercase (cs_name s)))"
proof -
  let ?rest = "case cs_subsection s of None \<Rightarrow> [] | Some sub \<Rightarrow> '' '' @ [quote] @ sub @ [quote]"
  have header: "section_header s = CHR ''['' # (cs_name s @ ?rest) @ [CHR '']'']"
    by (simp add: section_header_def)
  have "?rest = [] \<or> (\<exists>r c. ?rest = CHR '' '' # r @ [c] \<and> plain_char c)"
    by (cases "cs_subsection s") (auto intro: exI [of _ quote])
  from header_item [OF setting_word [OF assms(1)] this] show ?thesis
    using config_line_short [OF assms(2)] by (simp only: header)
qed

lemma no_ws_name: "list_all name_char k \<Longrightarrow> \<not> has_ws k"
  by (induction k) (simp_all add: name_plain)

lemma config_entry:
  assumes "setting_name k" and "length (entry_line (k, v)) \<le> max_config_line_bytes"
  shows "\<exists>v'. config_line (entry_line (k, v)) = Inr (CiEntry (to_ascii_lowercase k) v')"
proof -
  note ends = setting_ends [OF assms(1)]
  have names: "list_all name_char k" using assms(1) by (simp add: setting_name_def)
  obtain u where u: "unwrap_suffix (entry_line (k, v)) [CHR 0x0D] = [CHR 0x09] @ k @ '' ='' @ u"
      "length ([CHR 0x09] @ k @ '' ='' @ u) \<le> max_config_line_bytes"
  proof (cases "last (CHR '' '' # v) = CHR 0x0D")
    case False
    then show ?thesis using that [of "CHR '' '' # v"] assms(2) unwrap_other [of "entry_line (k, v)" "CHR 0x0D"]
      by (simp add: entry_line_def)
  next
    case True
    then have v: "v = butlast v @ [CHR 0x0D]" by (cases v rule: rev_cases) simp_all
    have "entry_line (k, v) = ([CHR 0x09] @ k @ '' ='' @ CHR '' '' # butlast v) @ [CHR 0x0D]"
      by (subst v) (simp add: entry_line_def)
    then have "unwrap_suffix (entry_line (k, v)) [CHR 0x0D] = [CHR 0x09] @ k @ '' ='' @ CHR '' '' # butlast v"
      by (simp only: unwrap_same)
    then show ?thesis using that [of "CHR '' '' # butlast v"] assms(2) by (simp add: entry_line_def)
  qed
  have "trim_start ([CHR 0x09] @ k @ '' ='' @ u) = k @ '' ='' @ u"
    using ends by (cases k) (simp_all add: trim_start_blank trim_start_plain)
  then obtain b where trim: "str_trim ([CHR 0x09] @ k @ '' ='' @ u) = k @ CHR '' '' # CHR ''='' # b"
    using trim_end_keeps [of "CHR ''=''" "k @ '' ''" u] by (auto simp: str_trim_def)
  have "split_once CHR ''='' (k @ CHR '' '' # CHR ''='' # b) = Some (k @ '' '', b)"
    using names by (auto simp: split_once_Some list_all_iff dest: name_not)
  moreover have "str_trim (k @ '' '') = k"
  proof -
    obtain k' c where k: "k = k' @ [c]" "plain_char c" using ends by (cases k rule: rev_cases) auto
    have "ws_end (k @ '' '') = 1" by (simp add: ws_end_def ends_ws_def ws_len.simps)
    then have "trim_end (k @ '' '') = k"
      by (subst trim_end.simps) (simp add: k trim_end_plain)
    moreover have "trim_start (k @ '' '') = k @ '' ''" using ends by (cases k) (simp_all add: trim_start_plain)
    ultimately show ?thesis by (simp add: str_trim_def)
  qed
  ultimately have "\<exists>v'. setting_of (k @ CHR '' '' # CHR ''='' # b) = Inr (CiEntry (to_ascii_lowercase k) v')"
    using ends no_ws_name [OF names] by (auto simp: setting_of_def trim_both_def)
  moreover have "hd (k @ CHR '' '' # CHR ''='' # b) \<notin> {CHR ''#'', CHR '';'', CHR ''[''}"
    using ends names by (cases k) (auto dest: name_not)
  ultimately show ?thesis using u(2) by (auto simp: config_line_def u(1) trim [simplified] Let_def)
qed

lemma validate_entries:
  assumes "list_all (\<lambda>(k, v). setting_name k \<and> \<not> (section = ''core'' \<and> to_ascii_lowercase k = ''worktree'')) es"
    and "list_all line_ok (map entry_line es)"
  shows "validate_config_lines h base section (map entry_line es @ rest) w t =
     (if list_ex (\<lambda>(k, v). refused_entry section (to_ascii_lowercase k)) es then (Inl GExternalWorktree, t)
      else validate_config_lines h base section rest w t)"
  using assms
proof (induction es)
  case (Cons e es)
  obtain k v where e: "e = (k, v)" by (cases e)
  obtain v' where "config_line (entry_line e) = Inr (CiEntry (to_ascii_lowercase k) v')"
    using config_entry [of k v] Cons.prems by (auto simp: e line_ok_def)
  then show ?case
    using Cons by (cases "refused_entry section (to_ascii_lowercase k)")
      (auto simp: e op_bind_def op_lift_def check_entry_def refuse_unless_def op_require_def op_ok_def)
qed simp

lemma validate_sections:
  "list_all section_ok ss \<Longrightarrow>
     validate_config_lines h base section (concat (map section_lines ss) @ [[]]) w t =
       (if list_ex refuses_section ss then (Inl GExternalWorktree, t) else (Inr (), t))"
proof (induction ss arbitrary: "section")
  case Nil
  have "line_item [] = Inr CiSkip" by code_simp
  then have "config_line [] = Inr CiSkip" by (simp add: config_line_short)
  then show ?case by (simp add: op_bind_def op_lift_def op_ok_def)
next
  case (Cons s ss)
  have s: "setting_name (cs_name s)" "length (section_header s) \<le> max_config_line_bytes"
      "list_all line_ok (map entry_line (cs_entries s))"
    using Cons.prems by (simp_all add: section_ok_def section_lines_def line_ok_def)
  have "list_all (\<lambda>(k, v). setting_name k \<and> \<not> (to_ascii_lowercase (cs_name s) = ''core'' \<and> to_ascii_lowercase k = ''worktree'')) (cs_entries s)"
    using Cons.prems by (simp add: section_ok_def)
  note entries = validate_entries [OF this s(3)]
  have "validate_config_lines h base section (concat (map section_lines (s # ss)) @ [[]]) w t
      = validate_config_lines h base (to_ascii_lowercase (cs_name s))
          (map entry_line (cs_entries s) @ concat (map section_lines ss) @ [[]]) w t"
    by (simp add: section_lines_def config_header [OF s(1,2)] op_bind_def op_lift_def)
  then show ?case using Cons by (simp add: entries refuses_section_def)
qed


definition sample_sections :: "config_section list" where
  "sample_sections = [\<lparr>cs_name = ''Core'', cs_subsection = None, cs_entries = [(''bare'', ''false'')]\<rparr>,
     \<lparr>cs_name = ''Filter'', cs_subsection = Some ''lfs'', cs_entries = [(''Clean'', ''evil'')]\<rparr>]"


subsection \<open>Spellings the check does not see\<close>

text \<open>
  A filter in git's older spelling of a subsection, on the line of its section with a comment that
  ends in a bracket, and after a continued value that looks like a section; and the program that
  checks signatures, which is not on the list.
\<close>

definition dotted_filter :: str where
  "dotted_filter = ''[filter.x]'' @ [line_feed] @ ''clean = evil'' @ [line_feed]"

definition one_line_filter :: str where
  "one_line_filter = ''[filter '' @ [quote] @ ''x'' @ [quote] @ ''] clean = evil #]'' @ [line_feed]"

definition continued_filter :: str where
  "continued_filter = ''[filter '' @ [quote] @ ''x'' @ [quote] @ '']'' @ [line_feed] @ ''a = '' @ [CHR 0x5C, line_feed]
     @ ''[other]'' @ [line_feed] @ ''clean = evil'' @ [line_feed]"

definition signature_program :: str where
  "signature_program = ''[gpg]'' @ [line_feed] @ ''program = evil'' @ [line_feed]
     @ ''[log]'' @ [line_feed] @ ''showSignature = true'' @ [line_feed]"

fun accepts_items :: "str \<Rightarrow> (git_error + config_item) list \<Rightarrow> bool" where
  "accepts_items section [] \<longleftrightarrow> True"
| "accepts_items section (i # is) \<longleftrightarrow>
     (case i of
        Inl _ \<Rightarrow> False
      | Inr CiSkip \<Rightarrow> accepts_items section is
      | Inr (CiSection s) \<Rightarrow> accepts_items s is
      | Inr (CiEntry k v) \<Rightarrow> \<not> refused_entry section k \<and> \<not> (section = ''core'' \<and> k = ''worktree'')
          \<and> accepts_items section is)"

lemma accepted_lines:
  assumes "list_all (\<lambda>l. length l \<le> max_config_line_bytes) ls" and "accepts_items section (map line_item ls)"
  shows "validate_config_lines h base section ls w t = (Inr (), t)"
  using assms
proof (induction ls arbitrary: "section")
  case (Cons l ls)
  then show ?case
    by (auto simp: config_line_short op_bind_def op_lift_def check_entry_def refuse_unless_def op_require_def op_ok_def
        split: sum.splits config_item.splits)
qed (simp add: op_ok_def)

lemma accepted_text:
  assumes "list_all (\<lambda>l. length l \<le> max_config_line_bytes) (split_on line_feed c)"
    and "accepts_items [] (map line_item (split_on line_feed c))"
  shows "validate_config_text h base c w t = (Inr (), t)"
  using accepted_lines [OF assms] by (simp add: validate_config_text_def)

lemma header_items:
  "line_item ''[filter.x]'' = Inr (CiSection ''filter.x'')"
  "line_item ''[other]'' = Inr (CiSection ''other'')"
  "line_item ''[gpg]'' = Inr (CiSection ''gpg'')"
  "line_item ''[log]'' = Inr (CiSection ''log'')"
  "line_item (''[filter '' @ [quote] @ ''x'' @ [quote] @ '']'') = Inr (CiSection ''filter'')"
  "line_item (''[filter '' @ [quote] @ ''x'' @ [quote] @ ''] clean = evil #]'') = Inr (CiSection ''filter'')"
  using header_item [of "''filter.x''" "[]"] header_item [of "''other''" "[]"] header_item [of "''gpg''" "[]"]
    header_item [of "''log''" "[]"] header_item [of "''filter''" "'' '' @ [quote] @ ''x'' @ [quote]"]
    header_item [of "''filter''" "'' '' @ [quote] @ ''x'' @ [quote] @ ''] clean = evil #''"]
  by (simp_all add: header_word_def plain_char_def to_ascii_lowercase_def byte_defs)

lemmas entry_evaluation = line_item_def setting_of_def unwrap_suffix_def strip_suffix_def ends_with_def
  trim_matches_def trim_both_def split_once_def to_ascii_lowercase_def byte_defs

lemma entry_items:
  "line_item [] = Inr CiSkip"
  "line_item ''clean = evil'' = Inr (CiEntry ''clean'' ''evil'')"
  "line_item (''a = '' @ [CHR 0x5C]) = Inr (CiEntry ''a'' [CHR 0x5C])"
  "line_item ''program = evil'' = Inr (CiEntry ''program'' ''evil'')"
  "line_item ''showSignature = true'' = Inr (CiEntry ''showsignature'' ''true'')"
  by code_simp+


end
