(* ===== verification/Ja_Git_Store.thy ===== *)
theory Ja_Git_Store
  imports Ja_Git_Worktree Ja_Workspace_Safety
begin

text \<open>
  What the walk of an object store establishes, whatever happens to the file system during it: its
  budgets are kept, and every name that any of its listings gave is one git may read.
\<close>

subsection \<open>Operations with the one error\<close>

lemma external_Inr [result_iff]: "external m w t = (Inr x, k) \<longleftrightarrow> m w t = (Inr x, k)"
  by (auto simp: external_def map_err_Inr split: prod.splits)

lemma refuse_unless_Inr [result_iff]: "refuse_unless b w t = (Inr x, k) \<longleftrightarrow> b \<and> k = t"
  by (auto simp: refuse_unless_def op_require_Inr)

lemma object_deadline_Inr [result_iff]: "object_deadline w t = (Inr x, k) \<longleftrightarrow> \<not> fs_late (w t) \<and> k = Suc t"
  by (auto simp: object_deadline_def op_bind_Inr expired_def refuse_unless_Inr)

subsection \<open>Budgets\<close>

definition budget_kept :: "object_scan_budget \<Rightarrow> bool" where
  "budget_kept b \<longleftrightarrow> ob_directories b \<le> ol_directories (ob_limits b)
     \<and> ob_files b \<le> ol_files (ob_limits b) \<and> ob_bytes b \<le> ol_bytes (ob_limits b)"

text \<open>A step of the walk keeps within the limits of the budget it is given.\<close>

definition charges :: "(object_scan_budget \<Rightarrow> object_scan_budget git_op) \<Rightarrow> bool" where
  "charges f \<longleftrightarrow> (\<forall>b w t b' k. f b w t = (Inr b', k) \<longrightarrow> ob_limits b' = ob_limits b \<and> (budget_kept b \<longrightarrow> budget_kept b'))"

named_theorems charges_intro

lemma chargesI:
  assumes "\<And>b w t b' k. f b w t = (Inr b', k) \<Longrightarrow> ob_limits b' = ob_limits b \<and> (budget_kept b \<longrightarrow> budget_kept b')"
  shows "charges f"
  using assms by (simp add: charges_def)

lemma chargesD: "charges f \<Longrightarrow> f b w t = (Inr b', k) \<Longrightarrow> ob_limits b' = ob_limits b \<and> (budget_kept b \<longrightarrow> budget_kept b')"
  unfolding charges_def by blast

lemma charges_ok [charges_intro]: "charges op_ok"
  by (rule chargesI) (simp add: op_ok_Inr)

lemma charges_err [charges_intro]: "charges (\<lambda>b. op_err e)"
  by (rule chargesI) (simp add: op_err_Inr)

lemma charges_before [charges_intro]: "(\<And>x. charges (f x)) \<Longrightarrow> charges (\<lambda>b. op_bind m (\<lambda>x. f x b))"
  by (rule chargesI) (auto simp: op_bind_Inr dest: chargesD)

lemma charges_then [charges_intro]:
  assumes "charges f" and "charges g"
  shows "charges (\<lambda>b. op_bind (f b) g)"
proof (rule chargesI)
  fix b b' w t k assume "op_bind (f b) g w t = (Inr b', k)"
  then obtain c j where c: "f b w t = (Inr c, j)" "g c w j = (Inr b', k)" by (auto simp: op_bind_Inr)
  show "ob_limits b' = ob_limits b \<and> (budget_kept b \<longrightarrow> budget_kept b')"
    using chargesD [OF assms(1) c(1)] chargesD [OF assms(2) c(2)] by auto
qed

lemma charges_if [charges_intro]: "charges f \<Longrightarrow> charges g \<Longrightarrow> charges (\<lambda>b. if c then f b else g b)"
  by (cases c) simp_all

lemma charges_directory [charges_intro]: "charges (visit_directory depth)"
  by (rule chargesI) (auto simp: visit_directory_def op_bind_Inr result_iff Let_def budget_kept_def sat_add_def)

lemma charges_file [charges_intro]: "charges (visit_file len)"
  by (rule chargesI)
    (auto simp: visit_file_def op_bind_Inr result_iff Let_def budget_kept_def sat_add_def checked_add64_Some)

lemma charges_entries [charges_intro]:
  assumes "\<And>name m. charges (each name m)"
  shows "charges (walk_entries each dir es)"
proof (induction es)
  case Nil
  show ?case by (rule chargesI) (simp add: op_ok_Inr)
next
  case (Cons e es)
  have "charges (\<lambda>b. op_bind object_deadline (\<lambda>_. op_bind (object_entry dir e) (\<lambda>(name, m).
      op_bind (each name m b) (walk_entries each dir es))))"
    by (intro chargesI) (auto simp: op_bind_Inr dest!: chargesD [OF assms] chargesD [OF Cons.IH])
  then show ?case by (simp add: fun_eq_iff [abs_def])
qed

lemma charges_walk [charges_intro]:
  assumes "\<And>name m. charges (each name m)"
  shows "charges (walk_directory h relative depth each)"
  by (intro chargesI)
    (auto simp: walk_directory_def op_bind_Inr op_ok_Inr dest!: chargesD [OF charges_directory]
      chargesD [OF charges_entries [OF assms]])

lemma charges_object_file [charges_intro]: "charges (scan_object_file h relative)"
  by (intro chargesI) (auto simp: scan_object_file_def op_bind_Inr op_ok_Inr dest!: chargesD [OF charges_file])

lemma charges_fanout [charges_intro]: "charges (scan_fanout_directory h relative depth)"
  unfolding scan_fanout_directory_def
  by (intro charges_walk chargesI) (auto simp: fanout_file_def op_bind_Inr dest!: chargesD [OF charges_object_file])

lemma charges_graphs [charges_intro]: "charges (scan_commit_graph_directory h relative depth)"
  unfolding scan_commit_graph_directory_def
  by (intro charges_walk chargesI)
    (auto simp: graph_file_def op_bind_Inr op_ok_Inr dest!: chargesD [OF charges_object_file])

lemma charges_pack [charges_intro]: "charges (scan_pack_directory h relative depth)"
  unfolding scan_pack_directory_def
  by (intro charges_walk chargesI) (auto simp: pack_file_def op_bind_Inr dest!: chargesD [OF charges_object_file])

lemma charges_info [charges_intro]: "charges (scan_info_directory h relative depth)"
  unfolding scan_info_directory_def
  by (intro charges_walk chargesI)
    (auto simp: info_entry_def op_bind_Inr op_ok_Inr op_err_Inr dest!: chargesD [OF charges_object_file]
      chargesD [OF charges_graphs] split: if_splits)

lemma walk_objects_budget:
  assumes "walk_objects h objects limits w t = (Inr b, k)"
  shows "ob_limits b = limits \<and> budget_kept b"
proof -
  have "charges (object_child h objects name m)" for name m
    by (intro chargesI) (auto simp: object_child_def op_err_Inr dest!: chargesD [OF charges_info]
      chargesD [OF charges_pack] chargesD [OF charges_fanout] split: if_splits)
  then have "charges (walk_directory h objects 0 (object_child h objects))" by (rule charges_walk)
  from chargesD [OF this assms [unfolded walk_objects_def]] show ?thesis
    by (auto simp: budget_kept_def budget_new_def)
qed

subsection \<open>Names\<close>

text \<open>A listing of a guarded directory that was made during the walk, and what its names satisfy.\<close>

definition listed :: "workspace_handle \<Rightarrow> world \<Rightarrow> str \<Rightarrow> (str \<Rightarrow> bool) \<Rightarrow> bool" where
  "listed h w relative P \<longleftrightarrow>
     (\<exists>(r :: resolved_path) i j n es. resolve_guard h relative (Some True) w i = (Inr r, j)
        \<and> fs_read_dir (w n) (rp_path r) = Inr es \<and> (\<forall>e \<in> set es. \<exists>name. e = Inr name \<and> P name))"

lemma walk_entries_names:
  "walk_entries each dir es b w t = (Inr b', k) \<Longrightarrow>
     \<forall>e \<in> set es. \<exists>name m c i c' j. e = Inr name \<and> each name m c w i = (Inr c', j)"
proof (induction es arbitrary: b t)
  case (Cons e es)
  then obtain name m c j c' k' where e: "object_entry dir e w (Suc t) = (Inr (name, m), j)"
      and each: "each name m b w j = (Inr c, k')" and rest: "walk_entries each dir es c w k' = (Inr b', k)"
    by (auto simp: op_bind_Inr result_iff)
  have "\<exists>m c i c' j. each name m c w i = (Inr c', j)" using each by blast
  moreover have "e = Inr name"
    using e by (auto simp: object_entry_def op_bind_Inr op_lift_Inr op_ok_Inr map_err_Inr entry_name_def
        split: sum.splits if_splits)
  ultimately show ?case using Cons.IH [OF rest] by auto
qed simp

lemma walk_listed:
  assumes "walk_directory h relative depth each b w t = (Inr b', k)"
    and "\<And>name m c i c' j. each name m c w i = (Inr c', j) \<Longrightarrow> P name"
  shows "listed h w relative P"
proof -
  obtain r n es c d i l where r: "resolve_guard h relative (Some True) w t = (Inr r, n)"
      and es: "fs_read_dir (w i) (rp_path r) = Inr es" and walk: "walk_entries each (rp_path r) es c w (Suc i) = (Inr d, l)"
    using assms(1) by (auto simp: walk_directory_def op_bind_Inr op_call_Inr map_err_Inr result_iff)
  have "\<forall>e \<in> set es. \<exists>name. e = Inr name \<and> P name"
    using walk_entries_names [OF walk] assms(2) by blast
  with r es show ?thesis unfolding listed_def by blast
qed

definition pack_entry :: "str \<Rightarrow> bool" where
  "pack_entry name \<longleftrightarrow> is_pack_file_name name \<and> \<not> is_promisor_file_name name"

definition graph_entry :: "str \<Rightarrow> bool" where
  "graph_entry name \<longleftrightarrow> name = ''commit-graph-chain'' \<or> is_graph_file_name name"

definition no_alternates :: "workspace_handle \<Rightarrow> world \<Rightarrow> str \<Rightarrow> bool" where
  "no_alternates h w info \<longleftrightarrow> (\<forall>name \<in> {''alternates'', ''http-alternates''}.
     \<exists>i j v. read_optional_text_file h (repo_child info name) max_pointer_bytes w i = (Inr v, j) \<and> (v = None \<or> v = Some []))"

definition info_admitted :: "workspace_handle \<Rightarrow> world \<Rightarrow> str \<Rightarrow> str \<Rightarrow> bool" where
  "info_admitted h w info name \<longleftrightarrow>
     name = ''commit-graphs'' \<and> listed h w (repo_child info name) graph_entry
   \<or> is_info_file_name name \<and> (name \<in> {''alternates'', ''http-alternates''} \<longrightarrow> no_alternates h w info)"

definition store_admitted :: "workspace_handle \<Rightarrow> world \<Rightarrow> str \<Rightarrow> str \<Rightarrow> bool" where
  "store_admitted h w objects name \<longleftrightarrow>
     name = ''info'' \<and> listed h w (repo_child objects name) (info_admitted h w (repo_child objects name))
   \<or> name = ''pack'' \<and> listed h w (repo_child objects name) pack_entry
   \<or> is_fanout_directory_name name \<and> listed h w (repo_child objects name) is_loose_object_name"

lemma fanout_listed: "scan_fanout_directory h rel d b w t = (Inr b', k) \<Longrightarrow> listed h w rel is_loose_object_name"
  unfolding scan_fanout_directory_def
  by (erule walk_listed) (auto simp: fanout_file_def op_bind_Inr result_iff)

lemma graphs_listed: "scan_commit_graph_directory h rel d b w t = (Inr b', k) \<Longrightarrow> listed h w rel graph_entry"
  unfolding scan_commit_graph_directory_def
  by (erule walk_listed) (auto simp: graph_file_def graph_entry_def op_bind_Inr result_iff)

lemma pack_listed: "scan_pack_directory h rel d b w t = (Inr b', k) \<Longrightarrow> listed h w rel pack_entry"
  unfolding scan_pack_directory_def
  by (erule walk_listed) (auto simp: pack_file_def pack_entry_def op_bind_Inr result_iff)

lemma validate_alternates_Inr: "validate_alternates h info w t = (Inr x, k) \<Longrightarrow> no_alternates h w info"
  by (fastforce simp: validate_alternates_def no_alternates_def op_bind_Inr result_iff)

lemma info_listed: "scan_info_directory h rel d b w t = (Inr b', k) \<Longrightarrow> listed h w rel (info_admitted h w rel)"
  unfolding scan_info_directory_def
  by (erule walk_listed)
    (auto simp: info_entry_def info_admitted_def info_content_def op_bind_Inr result_iff
      dest: graphs_listed validate_alternates_Inr split: if_splits)


text \<open>A store with an empty pack directory under the root \<open>/r\<close>.\<close>

definition store_file_system :: file_system where
  "store_file_system = \<lparr>
     fs_lstat = (\<lambda>p. Inr \<lparr>om_kind = NodeDir, om_len = 0, om_modified = None, om_links = 2\<rparr>),
     fs_identity = (\<lambda>p. Inr \<lparr>fi_volume = 1, fi_file = 2\<rparr>),
     fs_canonicalize = (\<lambda>p. Inr p), fs_open = (\<lambda>_. Inl IoNotFound),
     fs_read_dir = (\<lambda>p. if p = ''/r/o'' then Inr [Inr ''pack''] else Inr []), fs_late = False\<rparr>"

definition small_limits :: object_scan_limits where
  "small_limits = \<lparr>ol_directories = 2, ol_files = 0, ol_bytes = 0, ol_depth = 1, ol_millis = 5\<rparr>"

lemma walk_directoryI:
  assumes "resolve_guard h relative (Some True) w t = (Inr r, a)" and "visit_directory depth b w a = (Inr b', c)"
    and "verify_resolved h r (Some True) w c = (Inr (), e)" and "fs_read_dir (w e) (rp_path r) = Inr es"
    and "walk_entries each (rp_path r) es b' w (Suc e) = (Inr b'', f)"
    and "verify_resolved h r (Some True) w f = (Inr (), g)"
  shows "walk_directory h relative depth each b w t = (Inr b'', g)"
  using assms unfolding walk_directory_def op_bind_Inr external_Inr op_call_Inr op_ok_Inr by auto

definition store_path :: "str \<Rightarrow> (str \<times> file_identity) list \<Rightarrow> resolved_path" where
  "store_path p cs = \<lparr>rp_path = p, rp_components = cs, rp_final_identity = \<lparr>fi_volume = 1, fi_file = 2\<rparr>\<rparr>"

lemma store_guard:
  "\<exists>k. resolve_guard sample_handle ''o'' (Some True) (\<lambda>_. store_file_system) t
     = (Inr (store_path ''/r/o'' [(''/r/o'', \<lparr>fi_volume = 1, fi_file = 2\<rparr>)]), k)"
  "\<exists>k. resolve_guard sample_handle ''o/pack'' (Some True) (\<lambda>_. store_file_system) t
     = (Inr (store_path ''/r/o/pack'' [(''/r/o'', \<lparr>fi_volume = 1, fi_file = 2\<rparr>), (''/r/o/pack'', \<lparr>fi_volume = 1, fi_file = 2\<rparr>)]), k)"
  by (rule exI, code_simp)+

lemma store_verified:
  "\<exists>k. verify_resolved sample_handle (store_path ''/r/o'' [(''/r/o'', \<lparr>fi_volume = 1, fi_file = 2\<rparr>)])
     (Some True) (\<lambda>_. store_file_system) t = (Inr (), k)"
  "\<exists>k. verify_resolved sample_handle (store_path ''/r/o/pack'' [(''/r/o'', \<lparr>fi_volume = 1, fi_file = 2\<rparr>), (''/r/o/pack'', \<lparr>fi_volume = 1, fi_file = 2\<rparr>)])
     (Some True) (\<lambda>_. store_file_system) t = (Inr (), k)"
  by (rule exI, code_simp)+


end
