(* ===== verification/Ja_Changes.thy ===== *)
theory Ja_Changes
  imports Ja_Tree
begin

text \<open>
  Polling a workspace for changes (\<open>workspace_read/changes.rs\<close>): the breadth-first scan with its
  budgets, the difference of two snapshots, and the detector with its interval, its baseline and
  its generation. The queue's loop has fuel; the safety theory shows that the fuel chosen here is
  never used up.
\<close>

type_synonym snapshot = "(str \<times> file_revision) list"

record polling_policy =
  pp_min_interval :: nat
  pp_max_depth :: nat
  pp_max_entries :: nat
  pp_max_changes :: nat
  pp_hash_limit :: nat
  pp_max_total_bytes :: nat
  pp_max_scan_millis :: nat

definition default_polling_policy :: polling_policy where
  "default_polling_policy = \<lparr>pp_min_interval = 250, pp_max_depth = 64, pp_max_entries = 100000,
     pp_max_changes = 2000, pp_hash_limit = 1024 * 1024, pp_max_total_bytes = 256 * 1024 * 1024,
     pp_max_scan_millis = 2000\<rparr>"

definition clamp_polling :: "polling_policy \<Rightarrow> polling_policy" where
  "clamp_polling p = \<lparr>
     pp_min_interval = clamp 1 60000 (pp_min_interval p),
     pp_max_depth = min (pp_max_depth p) 256,
     pp_max_entries = clamp 1 1000000 (pp_max_entries p),
     pp_max_changes = clamp 1 100000 (pp_max_changes p),
     pp_hash_limit = min (pp_hash_limit p) (16 * 1024 * 1024),
     pp_max_total_bytes = min (pp_max_total_bytes p) (2 * 1024 * 1024 * 1024),
     pp_max_scan_millis = clamp 1 60000 (pp_max_scan_millis p)\<rparr>"

datatype poll_state = PollNotDue | PollUpdated | PollOverflow

datatype change_kind = ChCreated | ChModified | ChDeleted | ChReplaced

record change_record =
  cr_path :: str
  cr_kind :: change_kind
  cr_previous :: "file_revision option"
  cr_current :: "file_revision option"

record change_batch =
  cb_state :: poll_state
  cb_generation :: nat
  cb_changes :: "change_record list"
  cb_requires_rescan :: bool

subsection \<open>The scan\<close>

record scan_state =
  ss_queue :: "(str \<times> resolved_path \<times> nat) list"
  ss_snapshot :: snapshot
  ss_visited :: nat
  ss_bytes :: nat

record scan_result =
  sr_snapshot :: snapshot
  sr_overflow :: bool

text \<open>Whether the scan stops at once, with an overflow, and the state it leaves.\<close>

type_synonym scan_step = "(scan_state \<times> bool) fs_op"

definition scan_child ::
    "workspace_handle \<Rightarrow> polling_policy \<Rightarrow> str \<Rightarrow> nat \<Rightarrow> os_metadata \<Rightarrow> scan_state \<Rightarrow> scan_step" where
  "scan_child h p relative depth m s =
     (if entry_kind_of m \<noteq> EkDirectory then op_ok (s, False)
      else if pp_max_depth p \<le> depth then op_ok (s, True)
      else op_bind (resolve_guard h relative (Some True)) (\<lambda>child.
        op_ok (s\<lparr>ss_queue := ss_queue s @ [(relative, child, sat_add depth 1)]\<rparr>, False)))"

definition scan_named ::
    "(bytes \<Rightarrow> bytes) \<Rightarrow> workspace_handle \<Rightarrow> polling_policy \<Rightarrow> str \<Rightarrow> str \<Rightarrow> nat \<Rightarrow> scan_state \<Rightarrow> str \<Rightarrow> scan_step" where
  "scan_named sha h p parent dir depth s name =
     op_bind (lstat (path_join dir name) (WIo ''stat'')) (\<lambda>m.
     let s = s\<lparr>ss_bytes := sat_add (sat_add (ss_bytes s) (om_len m)) (length name)\<rparr>
     in if pp_max_total_bytes p < ss_bytes s then op_ok (s, True)
     else op_bind (metadata_for_path_with_deadline sha (path_join dir name) m (pp_hash_limit p) True) (\<lambda>f.
       scan_child h p (join_relative parent name) depth m
         (s\<lparr>ss_snapshot := AList.update (join_relative parent name) (fm_revision f) (ss_snapshot s)\<rparr>)))"

definition scan_one ::
    "(bytes \<Rightarrow> bytes) \<Rightarrow> workspace_handle \<Rightarrow> polling_policy \<Rightarrow> str \<Rightarrow> str \<Rightarrow> nat \<Rightarrow> scan_state
     \<Rightarrow> io_kind + bytes \<Rightarrow> scan_step" where
  "scan_one sha h p parent dir depth s e =
     op_bind expired (\<lambda>late.
     if late then op_ok (s, True)
     else let s = s\<lparr>ss_visited := sat_add (ss_visited s) 1\<rparr>
       in if pp_max_entries p < ss_visited s then op_ok (s, True)
       else op_bind (op_lift (entry_name e)) (scan_named sha h p parent dir depth s))"

fun scan_children ::
    "(bytes \<Rightarrow> bytes) \<Rightarrow> workspace_handle \<Rightarrow> polling_policy \<Rightarrow> str \<Rightarrow> str \<Rightarrow> nat \<Rightarrow> scan_state
     \<Rightarrow> (io_kind + bytes) list \<Rightarrow> scan_step" where
  "scan_children sha h p parent dir depth s [] = op_ok (s, False)"
| "scan_children sha h p parent dir depth s (e # es) =
     op_bind (scan_one sha h p parent dir depth s e) (\<lambda>(s', stop).
     if stop then op_ok (s', True) else scan_children sha h p parent dir depth s' es)"

definition scan_directory ::
    "(bytes \<Rightarrow> bytes) \<Rightarrow> workspace_handle \<Rightarrow> polling_policy \<Rightarrow> str \<times> resolved_path \<times> nat \<Rightarrow> scan_state \<Rightarrow> scan_step" where
  "scan_directory sha h p = (\<lambda>(parent, directory, depth) s.
     op_bind expired (\<lambda>late.
     if late \<or> pp_max_depth p < depth then op_ok (s, True)
     else op_bind (verify_resolved h directory (Some True)) (\<lambda>_.
       op_bind (op_call (\<lambda>fs. fs_read_dir fs (rp_path directory)) (WIo ''read_dir'')) (\<lambda>es.
       op_bind (scan_children sha h p parent (rp_path directory) depth s es) (\<lambda>(s', stop).
       if stop then op_ok (s', True)
       else op_bind (verify_resolved h directory (Some True)) (\<lambda>_. op_ok (s', False)))))))"

text \<open>None where the fuel runs out.\<close>

fun scan_queue ::
    "(bytes \<Rightarrow> bytes) \<Rightarrow> workspace_handle \<Rightarrow> polling_policy \<Rightarrow> nat \<Rightarrow> scan_state \<Rightarrow> scan_result option fs_op" where
  "scan_queue sha h p fuel s =
     (case ss_queue s of
        [] \<Rightarrow> op_ok (Some \<lparr>sr_snapshot = ss_snapshot s, sr_overflow = False\<rparr>)
      | d # ds \<Rightarrow>
          (case fuel of 0 \<Rightarrow> op_ok None
           | Suc n \<Rightarrow> op_bind (scan_directory sha h p d (s\<lparr>ss_queue := ds\<rparr>)) (\<lambda>(s', stop).
               if stop then op_ok (Some \<lparr>sr_snapshot = ss_snapshot s', sr_overflow = True\<rparr>)
               else scan_queue sha h p n s')))"

declare scan_queue.simps [simp del]

definition scan_workspace ::
    "(bytes \<Rightarrow> bytes) \<Rightarrow> workspace_handle \<Rightarrow> polling_policy \<Rightarrow> scan_result option fs_op" where
  "scan_workspace sha h p =
     op_bind (resolve_guard h [] (Some True)) (\<lambda>root.
     scan_queue sha h p (Suc (pp_max_entries p))
       \<lparr>ss_queue = [([], root, 0)], ss_snapshot = [], ss_visited = 0, ss_bytes = 0\<rparr>)"

subsection \<open>The difference of two snapshots\<close>

definition change_kind_of :: "file_revision option \<Rightarrow> file_revision option \<Rightarrow> change_kind option" where
  "change_kind_of before now =
     (case (before, now) of
        (None, Some _) \<Rightarrow> Some ChCreated
      | (Some _, None) \<Rightarrow> Some ChDeleted
      | (Some x, Some y) \<Rightarrow>
          if x \<noteq> y then
            (if fr_size x = fr_size y \<and> fr_modified x = fr_modified y then Some ChReplaced else Some ChModified)
          else None
      | (None, None) \<Rightarrow> None)"

fun diff_paths :: "snapshot \<Rightarrow> snapshot \<Rightarrow> nat \<Rightarrow> str list \<Rightarrow> change_record list \<Rightarrow> change_record list" where
  "diff_paths previous current max_changes [] changes = changes"
| "diff_paths previous current max_changes (path # paths) changes =
     (if max_changes \<le> length changes then changes
      else let before = map_of previous path; now = map_of current path
      in diff_paths previous current max_changes paths
        (case change_kind_of before now of
           Some k \<Rightarrow> changes @ [\<lparr>cr_path = path, cr_kind = k, cr_previous = before, cr_current = now\<rparr>]
         | None \<Rightarrow> changes))"

definition diff_snapshots :: "snapshot \<Rightarrow> snapshot \<Rightarrow> nat \<Rightarrow> change_record list" where
  "diff_snapshots previous current max_changes =
     diff_paths previous current max_changes (sort (remdups (map fst previous @ map fst current))) []"

subsection \<open>The detector\<close>

record change_detector =
  cd_workspace :: workspace_handle
  cd_policy :: polling_policy
  cd_snapshot :: snapshot
  cd_last_poll :: "nat option"
  cd_generation :: nat

definition detector_new ::
    "workspace_handle \<Rightarrow> polling_policy \<Rightarrow> workspace_error + scan_result \<Rightarrow> workspace_error + change_detector" where
  "detector_new h p scan =
     and_then scan (\<lambda>r.
     if sr_overflow r then Inl WEntryBudgetExceeded
     else Inr \<lparr>cd_workspace = h, cd_policy = clamp_polling p, cd_snapshot = sr_snapshot r,
       cd_last_poll = None, cd_generation = 0\<rparr>)"

definition following_generation :: "change_detector \<Rightarrow> nat" where
  "following_generation d = sat_add (cd_generation d) 1"

definition overflow_batch :: "change_detector \<Rightarrow> (workspace_error + change_batch) \<times> change_detector" where
  "overflow_batch d =
     (Inr \<lparr>cb_state = PollOverflow, cb_generation = following_generation d, cb_changes = [], cb_requires_rescan = True\<rparr>,
      d\<lparr>cd_generation := following_generation d\<rparr>)"

definition poll_due :: "change_detector \<Rightarrow> nat \<Rightarrow> bool" where
  "poll_due d now \<longleftrightarrow> (case cd_last_poll d of None \<Rightarrow> True | Some l \<Rightarrow> pp_min_interval (cd_policy d) \<le> now - l)"

text \<open>\<open>poll\<close> at time \<open>now\<close>, with the result of the scan it makes when it is due.\<close>

definition detector_poll ::
    "change_detector \<Rightarrow> nat \<Rightarrow> workspace_error + scan_result
     \<Rightarrow> (workspace_error + change_batch) \<times> change_detector" where
  "detector_poll d now scan =
     (if \<not> poll_due d now
      then (Inr \<lparr>cb_state = PollNotDue, cb_generation = cd_generation d, cb_changes = [],
        cb_requires_rescan = False\<rparr>, d)
      else let d = d\<lparr>cd_last_poll := Some now\<rparr>
      in case scan of
        Inl WScanDeadlineExceeded \<Rightarrow> overflow_batch d
      | Inl e \<Rightarrow> (Inl e, d)
      | Inr r \<Rightarrow>
          if sr_overflow r then overflow_batch d
          else let changes = diff_snapshots (cd_snapshot d) (sr_snapshot r) (pp_max_changes (cd_policy d));
                   overflow = (pp_max_changes (cd_policy d) \<le> length changes)
            in (Inr \<lparr>cb_state = (if overflow then PollOverflow else PollUpdated), cb_generation = following_generation d,
                 cb_changes = changes, cb_requires_rescan = overflow\<rparr>,
                d\<lparr>cd_generation := following_generation d, cd_snapshot := sr_snapshot r\<rparr>))"

definition detector_rescan ::
    "change_detector \<Rightarrow> nat \<Rightarrow> workspace_error + scan_result
     \<Rightarrow> (workspace_error + change_batch) \<times> change_detector" where
  "detector_rescan d now scan =
     (case scan of
        Inl WScanDeadlineExceeded \<Rightarrow> overflow_batch d
      | Inl e \<Rightarrow> (Inl e, d)
      | Inr r \<Rightarrow>
          if sr_overflow r then overflow_batch d
          else (Inr \<lparr>cb_state = PollUpdated, cb_generation = following_generation d, cb_changes = [],
              cb_requires_rescan = False\<rparr>,
            d\<lparr>cd_generation := following_generation d, cd_snapshot := sr_snapshot r, cd_last_poll := Some now\<rparr>))"

end
