(* ===== verification/Ja_Search.thy ===== *)
theory Ja_Search
  imports Ja_Changes
begin

text \<open>
  Literal text search (\<open>workspace_read/search.rs\<close>): the matches of a query in one text with their
  line, column and snippet, the bounded read of a file, and the walk over the directories with its
  budgets. The walk's loop has fuel, as the polling scan has.
\<close>

record search_policy =
  sp_max_depth :: nat
  sp_max_entries :: nat
  sp_max_file_bytes :: nat
  sp_max_total_bytes :: nat
  sp_max_results :: nat
  sp_max_query_bytes :: nat
  sp_max_scan_millis :: nat

definition default_search_policy :: search_policy where
  "default_search_policy = \<lparr>sp_max_depth = 64, sp_max_entries = 100000,
     sp_max_file_bytes = 4 * 1024 * 1024, sp_max_total_bytes = 64 * 1024 * 1024,
     sp_max_results = 500, sp_max_query_bytes = 8 * 1024, sp_max_scan_millis = 2000\<rparr>"

record text_search =
  tx_workspace :: workspace_handle
  tx_policy :: search_policy

definition text_search_new :: "workspace_handle \<Rightarrow> search_policy \<Rightarrow> text_search" where
  "text_search_new h p = \<lparr>tx_workspace = h, tx_policy = \<lparr>
     sp_max_depth = min (sp_max_depth p) 256,
     sp_max_entries = clamp 1 1000000 (sp_max_entries p),
     sp_max_file_bytes = min (sp_max_file_bytes p) (64 * 1024 * 1024),
     sp_max_total_bytes = min (sp_max_total_bytes p) (512 * 1024 * 1024),
     sp_max_results = clamp 1 100000 (sp_max_results p),
     sp_max_query_bytes = clamp 1 (64 * 1024) (sp_max_query_bytes p),
     sp_max_scan_millis = clamp 1 60000 (sp_max_scan_millis p)\<rparr>\<rparr>"

record search_hit =
  sh_relative_path :: str
  sh_line :: nat
  sh_column :: nat
  sh_snippet :: str
  sh_encoding :: text_encoding

record text_search_result =
  ts_hits :: "search_hit list"
  ts_truncated :: bool
  ts_scanned_entries :: nat
  ts_skipped_files :: nat

subsection \<open>Matches in one text\<close>

text \<open>\<open>str::match_indices\<close> of a non-empty pattern: the leftmost matches that do not overlap.\<close>

fun match_indices :: "str \<Rightarrow> nat \<Rightarrow> str \<Rightarrow> nat list" where
  "match_indices q i [] = []"
| "match_indices q i (c # cs) =
     (if starts_with (c # cs) q then i # match_indices q (i + length q) (drop (length q - 1) cs)
      else match_indices q (Suc i) cs)"

definition char_starts :: "str \<Rightarrow> nat list" where
  "char_starts s = List.filter (\<lambda>i. \<not> is_cont (s ! i)) [0..<length s]"

definition nth_or :: "nat list \<Rightarrow> nat \<Rightarrow> nat \<Rightarrow> nat" where
  "nth_or xs n d = (if n < length xs then xs ! n else d)"

definition snippet :: "str \<Rightarrow> nat \<Rightarrow> nat \<Rightarrow> str" where
  "snippet text offset query_len =
     (let start = nth_or (rev (char_starts (take offset text))) 80 0;
          query_end = min (sat_add offset query_len) (length text);
          rest = map ((+) query_end) (char_starts (drop query_end text));
          stop = nth_or rest 80 (length text)
      in map (\<lambda>c. if c = CHR 0x0A then CHR '' '' else c) (take (stop - start) (drop start text)))"

definition line_of :: "str \<Rightarrow> nat \<Rightarrow> nat" where
  "line_of text offset = length (List.filter (\<lambda>c. c = CHR 0x0A) (take offset text)) + 1"

definition column_of :: "str \<Rightarrow> nat \<Rightarrow> nat" where
  "column_of text offset = length (char_starts (last (split_on (CHR 0x0A) (take offset text)))) + 1"

definition hit_at :: "str \<Rightarrow> str \<Rightarrow> str \<Rightarrow> text_encoding \<Rightarrow> nat \<Rightarrow> search_hit" where
  "hit_at relative query text encoding offset =
     \<lparr>sh_relative_path = relative, sh_line = line_of text offset, sh_column = column_of text offset,
      sh_snippet = snippet text offset (length query), sh_encoding = encoding\<rparr>"

fun push_hits :: "nat \<Rightarrow> search_hit list \<Rightarrow> search_hit list \<Rightarrow> search_hit list \<times> bool" where
  "push_hits max_results hits [] = (hits, False)"
| "push_hits max_results hits (x # xs) =
     (if max_results \<le> length hits then (hits, True) else push_hits max_results (hits @ [x]) xs)"

definition append_hits ::
    "search_hit list \<Rightarrow> str \<Rightarrow> str \<Rightarrow> str \<Rightarrow> text_encoding \<Rightarrow> nat \<Rightarrow> search_hit list \<times> bool option" where
  "append_hits hits relative query text encoding max_results =
     (let offsets = match_indices query 0 text;
          (hits', reached) = push_hits max_results hits (map (hit_at relative query text encoding) offsets)
      in (hits', if offsets = [] then None else Some reached))"

subsection \<open>Reading a file for the search\<close>

fun read_loop :: "nat \<Rightarrow> bytes \<Rightarrow> bytes \<Rightarrow> io_kind option \<Rightarrow> bytes fs_op" where
  "read_loop max_bytes got data fin w t =
     (if fs_late (w t) then (Inl WScanDeadlineExceeded, Suc t)
      else let chunk = take hash_buffer data
      in if chunk = [] then (case fin of Some e \<Rightarrow> (Inl (WIo ''read'' e), Suc t) | None \<Rightarrow> (Inr got, Suc t))
      else let got' = got @ take (sat_add max_bytes 1 - length got) chunk
      in if max_bytes < length got' then (Inr got', Suc t)
      else read_loop max_bytes got' (drop hash_buffer data) fin w (Suc t))"

declare read_loop.simps [simp del]

definition read_bounded_until :: "nat \<Rightarrow> bytes \<times> io_kind option \<Rightarrow> bytes fs_op" where
  "read_bounded_until max_bytes opened = read_loop max_bytes [] (fst opened) (snd opened)"

subsection \<open>The walk\<close>

record search_state =
  se_queue :: "(str \<times> resolved_path \<times> nat) list"
  se_hits :: "search_hit list"
  se_scanned :: nat
  se_skipped :: nat
  se_bytes :: nat
  se_truncated :: bool

text \<open>Go on with the next entry, leave this directory, or return at once with a truncated result.\<close>

datatype search_flow = GoOn | LeaveDirectory | ReturnTruncated

type_synonym search_step = "(search_state \<times> search_flow) fs_op"

definition skip_file :: "search_state \<Rightarrow> search_state" where
  "skip_file s = s\<lparr>se_skipped := sat_add (se_skipped s) 1, se_truncated := True\<rparr>"

definition take_hits ::
    "search_policy \<Rightarrow> str \<Rightarrow> str \<Rightarrow> search_state \<Rightarrow> bytes \<Rightarrow> search_state \<times> search_flow" where
  "take_hits p query relative s bs =
     (case decode_content bs of
        (CkText, Some encoding, Some text) \<Rightarrow>
          (case append_hits (se_hits s) relative query text encoding (sp_max_results p) of
             (hits, None) \<Rightarrow> (s\<lparr>se_hits := hits\<rparr>, GoOn)
           | (hits, Some reached) \<Rightarrow>
               (s\<lparr>se_hits := hits, se_truncated := se_truncated s \<or> reached\<rparr>,
                if sp_max_results p \<le> length hits then ReturnTruncated else GoOn))
      | _ \<Rightarrow> (s, GoOn))"

definition search_file ::
    "text_search \<Rightarrow> str \<Rightarrow> str \<Rightarrow> os_metadata \<Rightarrow> search_state \<Rightarrow> search_step" where
  "search_file x query relative m s =
     op_bind (resolve_guard (tx_workspace x) relative (Some False)) (\<lambda>g.
     op_bind (verify_resolved (tx_workspace x) g (Some False)) (\<lambda>_.
     if sp_max_file_bytes (tx_policy x) < om_len m
        \<or> sp_max_total_bytes (tx_policy x) < sat_add (se_bytes s) (om_len m)
     then op_ok (skip_file s, GoOn)
     else op_bind (op_call (\<lambda>fs. fs_open fs (rp_path g)) (WIo ''open'')) (\<lambda>opened.
       op_bind (read_bounded_until (sp_max_file_bytes (tx_policy x)) opened) (\<lambda>bs.
       if sp_max_file_bytes (tx_policy x) < length bs then op_ok (skip_file s, GoOn)
       else op_bind (verify_resolved (tx_workspace x) g (Some False)) (\<lambda>_.
         op_ok (take_hits (tx_policy x) query relative
           (s\<lparr>se_bytes := sat_add (se_bytes s) (length bs)\<rparr>) bs))))))"

definition search_named ::
    "text_search \<Rightarrow> str \<Rightarrow> str \<Rightarrow> str \<Rightarrow> nat \<Rightarrow> search_state \<Rightarrow> str \<Rightarrow> search_step" where
  "search_named x query parent dir depth s name =
     op_bind (lstat (path_join dir name) (WIo ''stat'')) (\<lambda>m.
     let relative = join_relative parent name
     in if entry_kind_of m = EkDirectory then
          (if depth < sp_max_depth (tx_policy x)
           then op_bind (resolve_guard (tx_workspace x) relative (Some True)) (\<lambda>child.
             op_ok (s\<lparr>se_queue := se_queue s @ [(relative, child, sat_add depth 1)]\<rparr>, GoOn))
           else op_ok (s\<lparr>se_truncated := True\<rparr>, GoOn))
        else if entry_kind_of m \<noteq> EkFile then op_ok (s, GoOn)
        else search_file x query relative m s)"

definition search_one ::
    "text_search \<Rightarrow> str \<Rightarrow> str \<Rightarrow> str \<Rightarrow> nat \<Rightarrow> search_state \<Rightarrow> io_kind + bytes \<Rightarrow> search_step" where
  "search_one x query parent dir depth s e =
     op_bind expired (\<lambda>late.
     if late then op_ok (s, ReturnTruncated)
     else let s = s\<lparr>se_scanned := sat_add (se_scanned s) 1\<rparr>
       in if sp_max_entries (tx_policy x) < se_scanned s
          then op_ok (s\<lparr>se_truncated := True\<rparr>, LeaveDirectory)
          else op_bind (op_lift (entry_name e)) (search_named x query parent dir depth s))"

fun search_entries ::
    "text_search \<Rightarrow> str \<Rightarrow> str \<Rightarrow> str \<Rightarrow> nat \<Rightarrow> search_state \<Rightarrow> (io_kind + bytes) list \<Rightarrow> search_step" where
  "search_entries x query parent dir depth s [] = op_ok (s, GoOn)"
| "search_entries x query parent dir depth s (e # es) =
     op_bind (search_one x query parent dir depth s e) (\<lambda>(s', flow).
     if flow = GoOn then search_entries x query parent dir depth s' es else op_ok (s', flow))"

text \<open>One directory of the queue; the flow says how the loop over the queue goes on.\<close>

definition search_directory ::
    "text_search \<Rightarrow> str \<Rightarrow> str \<times> resolved_path \<times> nat \<Rightarrow> search_state \<Rightarrow> search_step" where
  "search_directory x query = (\<lambda>(parent, directory, depth) s.
     op_bind expired (\<lambda>late.
     if late then op_ok (s, ReturnTruncated)
     else if sp_max_depth (tx_policy x) < depth then op_ok (s\<lparr>se_truncated := True\<rparr>, GoOn)
     else op_bind (verify_resolved (tx_workspace x) directory (Some True)) (\<lambda>_.
       op_bind (op_call (\<lambda>fs. fs_read_dir fs (rp_path directory)) (WIo ''read_dir'')) (\<lambda>es.
       op_bind (search_entries x query parent (rp_path directory) depth s es) (\<lambda>(s', flow).
       if flow = ReturnTruncated then op_ok (s', ReturnTruncated)
       else op_bind (verify_resolved (tx_workspace x) directory (Some True)) (\<lambda>_.
         op_ok (s', if se_truncated s' \<and> sp_max_entries (tx_policy x) \<le> se_scanned s'
           then LeaveDirectory else GoOn)))))))"

definition search_result :: "search_state \<Rightarrow> bool \<Rightarrow> text_search_result" where
  "search_result s truncated = \<lparr>ts_hits = se_hits s, ts_truncated = truncated,
     ts_scanned_entries = se_scanned s, ts_skipped_files = se_skipped s\<rparr>"

fun search_queue ::
    "text_search \<Rightarrow> str \<Rightarrow> nat \<Rightarrow> search_state \<Rightarrow> text_search_result option fs_op" where
  "search_queue x query fuel s =
     (case se_queue s of
        [] \<Rightarrow> op_ok (Some (search_result s (se_truncated s)))
      | d # ds \<Rightarrow>
          (case fuel of 0 \<Rightarrow> op_ok None
           | Suc n \<Rightarrow> op_bind (search_directory x query d (s\<lparr>se_queue := ds\<rparr>)) (\<lambda>(s', flow).
               case flow of
                 ReturnTruncated \<Rightarrow> op_ok (Some (search_result s' True))
               | LeaveDirectory \<Rightarrow> op_ok (Some (search_result s' (se_truncated s')))
               | GoOn \<Rightarrow> search_queue x query n s')))"

declare search_queue.simps [simp del]

definition search_text :: "text_search \<Rightarrow> str \<Rightarrow> str \<Rightarrow> text_search_result option fs_op" where
  "search_text x relative query =
     op_bind (op_require (\<not> (query = [] \<or> sp_max_query_bytes (tx_policy x) < length query)) WInvalidRelativePath) (\<lambda>_.
     op_bind (resolve_guard (tx_workspace x) relative (Some True)) (\<lambda>root.
     search_queue x query (Suc (sp_max_entries (tx_policy x)))
       \<lparr>se_queue = [(relative, root, 0)], se_hits = [], se_scanned = 0, se_skipped = 0, se_bytes = 0,
        se_truncated = False\<rparr>))"

end
