(* ===== verification/Ja_Host.thy ===== *)
theory Ja_Host
  imports Ja_Search Ja_Secrets Ja_Query
begin

text \<open>
  The runtime host (\<open>app_runtime/host.rs\<close>) and the workspace commands of the user interface
  (\<open>workspace_read/command.rs\<close>): who may read which directory, and when. What the bridge and the
  recovery marker answer to a call is a record of arguments.
\<close>

subsection \<open>The host\<close>

record runtime_status =
  ru_status :: runtime_status_kind
  ru_generation :: nat
  ru_server_instance_id :: "str option"

record runtime_configuration_status =
  rn_configured :: bool
  rn_profile_revision :: str
  rn_mcp_count :: nat

record runtime_host =
  ho_replay :: "runtime_replay_config option"
  ho_bridge :: bool
  ho_workspace :: "(str \<times> workspace_handle) option"

record runtime_env =
  he_recovery_required :: bool
  he_new :: "command_error + unit"
  he_start :: "command_error + runtime_status"
  he_stop :: "command_error + runtime_status"
  he_state :: "command_error + runtime_status"
  he_shutdown :: "command_error + unit"
  he_exit_ready :: bool

definition host_new :: runtime_host where
  "host_new = \<lparr>ho_replay = None, ho_bridge = False, ho_workspace = None\<rparr>"

definition clear_workspace :: "runtime_host \<Rightarrow> runtime_host" where
  "clear_workspace h = h\<lparr>ho_workspace := None\<rparr>"

definition ensure_bridge :: "runtime_env \<Rightarrow> runtime_host \<Rightarrow> (command_error + unit) \<times> runtime_host" where
  "ensure_bridge e h =
     (if ho_bridge h then (Inr (), h)
      else if he_recovery_required e then (Inl err_recovery_required, h)
      else case he_new e of Inl er \<Rightarrow> (Inl er, h) | Inr _ \<Rightarrow> (Inr (), h\<lparr>ho_bridge := True\<rparr>))"

definition is_ready :: "command_error + runtime_status \<Rightarrow> bool" where
  "is_ready r \<longleftrightarrow> (case r of Inl _ \<Rightarrow> False | Inr s \<Rightarrow> ru_status s = SkReady)"

definition host_start :: "runtime_env \<Rightarrow> runtime_host \<Rightarrow> (command_error + runtime_status) \<times> runtime_host" where
  "host_start e h =
     (let (ensured, h') = ensure_bridge e h; result = and_then ensured (\<lambda>_. he_start e)
      in (result, if is_ready result then h' else clear_workspace h'))"

definition stopped_status :: runtime_status where
  "stopped_status = \<lparr>ru_status = SkStopped, ru_generation = 0, ru_server_instance_id = None\<rparr>"

definition host_stop :: "runtime_env \<Rightarrow> runtime_host \<Rightarrow> (command_error + runtime_status) \<times> runtime_host" where
  "host_stop e h =
     (if ho_bridge h then he_stop e
      else if he_recovery_required e then Inl err_recovery_required
      else Inr stopped_status,
      clear_workspace h)"

definition host_state :: "runtime_env \<Rightarrow> runtime_host \<Rightarrow> command_error + runtime_status" where
  "host_state e h =
     (if ho_bridge h then he_state e
      else if he_recovery_required e
        then Inr \<lparr>ru_status = SkRecoveryRequired, ru_generation = 0, ru_server_instance_id = None\<rparr>
      else Inr stopped_status)"

definition store_configuration ::
    "runtime_replay_config \<Rightarrow> workspace_handle \<Rightarrow> runtime_host
     \<Rightarrow> (command_error + runtime_configuration_status) \<times> runtime_host" where
  "store_configuration replay handle h =
     (Inr \<lparr>rn_configured = True, rn_profile_revision = pr_revision (rc_profile replay),
        rn_mcp_count = length (rc_mcp_servers replay)\<rparr>,
      h\<lparr>ho_replay := Some replay, ho_workspace := Some (rc_workspace_id replay, handle)\<rparr>)"

text \<open>The root as the registry admits it; the id is random and the current directory is asked for.\<close>

definition admit_root ::
    "nat \<Rightarrow> io_kind + str \<Rightarrow> str \<Rightarrow> world \<Rightarrow> nat \<Rightarrow> workspace_error + workspace_handle" where
  "admit_root i cwd root w t =
     and_then (fst (register i cwd root \<lparr>wr_handles = [], wr_poisoned = False\<rparr> w t)) (\<lambda>(i', g). registry_get g i')"

definition host_configure ::
    "(str \<Rightarrow> url option) \<Rightarrow> (str \<Rightarrow> path_metadata option) \<Rightarrow> (str \<Rightarrow> str option) \<Rightarrow> runtime_env
     \<Rightarrow> workspace_error + workspace_handle \<Rightarrow> runtime_configure_input \<Rightarrow> runtime_host
     \<Rightarrow> (command_error + runtime_configuration_status) \<times> runtime_host" where
  "host_configure parse_url metadata canonicalize e admitted input h =
     (let h = clear_workspace h
      in case admitted of Inl _ \<Rightarrow> (Inl err_configuration, h)
       | Inr handle \<Rightarrow>
          (case replay_from_input parse_url metadata canonicalize input of Inl er \<Rightarrow> (Inl er, h)
           | Inr replay \<Rightarrow>
              if ho_bridge h then
                (case he_shutdown e of Inl er \<Rightarrow> (Inl er, h)
                 | Inr _ \<Rightarrow>
                    if he_exit_ready e then store_configuration replay handle (h\<lparr>ho_bridge := False\<rparr>)
                    else (Inl err_shutdown_timeout, h))
              else store_configuration replay handle h))"

definition runtime_shutdown :: "runtime_env \<Rightarrow> runtime_host \<Rightarrow> (command_error + unit) \<times> runtime_host" where
  "runtime_shutdown e h = (if ho_bridge h then he_shutdown e else Inr (), clear_workspace h)"

definition host_exit_ready :: "runtime_env \<Rightarrow> runtime_host \<Rightarrow> bool" where
  "host_exit_ready e h \<longleftrightarrow> (if ho_bridge h then he_exit_ready e else True)"

text \<open>A turn command may create the bridge; the request itself is modelled with the queries.\<close>

definition host_turn :: "runtime_env \<Rightarrow> (command_error + 'a) \<Rightarrow> runtime_host \<Rightarrow> (command_error + 'a) \<times> runtime_host" where
  "host_turn e result h = (let (ensured, h') = ensure_bridge e h in (and_then ensured (\<lambda>_. result), h'))"

definition host_approval_respond ::
    "command_error + unit \<Rightarrow> command_error + unit \<Rightarrow> runtime_host \<Rightarrow> command_error + unit" where
  "host_approval_respond valid result h =
     and_then valid (\<lambda>_. if ho_bridge h then result else Inl err_unavailable)"

definition host_acknowledge_recovery ::
    "command_error + unit \<Rightarrow> 'r \<Rightarrow> runtime_host \<Rightarrow> command_error + 'r" where
  "host_acknowledge_recovery acknowledged state h =
     (if ho_bridge h then Inl err_unavailable else and_then acknowledged (\<lambda>_. Inr state))"

datatype workspace_lookup = WlUnconfigured | WlUnknown

definition workspace_access_ready :: "runtime_env \<Rightarrow> runtime_host \<Rightarrow> bool" where
  "workspace_access_ready e h \<longleftrightarrow> ho_bridge h \<and> is_ready (he_state e)"

definition with_configured_workspace ::
    "runtime_env \<Rightarrow> str \<Rightarrow> (workspace_handle \<Rightarrow> 'a) \<Rightarrow> runtime_host \<Rightarrow> workspace_lookup + 'a" where
  "with_configured_workspace e workspace_id operation h =
     (case ho_workspace h of
        None \<Rightarrow> Inl WlUnconfigured
      | Some (protocol_id, handle) \<Rightarrow>
          if \<not> workspace_access_ready e h then Inl WlUnknown
          else if protocol_id \<noteq> workspace_id then Inl WlUnknown
          else Inr (operation handle))"

subsection \<open>The workspace commands\<close>

datatype workspace_command_error =
    CeNotConfigured | CeUnknownWorkspace | CeInvalidInput | CeInvalidPath | CePathRejected | CeNotFound
  | CeNotDirectory | CeNotFile | CeStaleCursor | CeLimitExceeded | CeChangedDuringRead | CeIo

fun from_workspace :: "workspace_error \<Rightarrow> workspace_command_error" where
  "from_workspace WInvalidRelativePath = CeInvalidPath"
| "from_workspace WOutsideWorkspace = CePathRejected"
| "from_workspace WPathChanged = CePathRejected"
| "from_workspace WLinkNotAllowed = CePathRejected"
| "from_workspace WPathNotFound = CeNotFound"
| "from_workspace WNotDirectory = CeNotDirectory"
| "from_workspace WNotFile = CeNotFile"
| "from_workspace WStaleCursor = CeStaleCursor"
| "from_workspace WEntryBudgetExceeded = CeLimitExceeded"
| "from_workspace WDepthLimitExceeded = CeLimitExceeded"
| "from_workspace WScanDeadlineExceeded = CeLimitExceeded"
| "from_workspace WFileTooLarge = CeLimitExceeded"
| "from_workspace WChangedDuringRead = CeChangedDuringRead"
| "from_workspace WInvalidRoot = CeUnknownWorkspace"
| "from_workspace WWorkspaceNotFound = CeUnknownWorkspace"
| "from_workspace (WIo _ _) = CeIo"

fun show_workspace_error :: "workspace_command_error \<Rightarrow> str" where
  "show_workspace_error CeNotConfigured = ''workspace is not configured''"
| "show_workspace_error CeUnknownWorkspace = ''workspace is unknown''"
| "show_workspace_error CeInvalidInput = ''workspace request is invalid''"
| "show_workspace_error CeInvalidPath = ''workspace path is invalid''"
| "show_workspace_error CePathRejected = ''workspace path is rejected''"
| "show_workspace_error CeNotFound = ''workspace entry was not found''"
| "show_workspace_error CeNotDirectory = ''workspace entry is not a directory''"
| "show_workspace_error CeNotFile = ''workspace entry is not a file''"
| "show_workspace_error CeStaleCursor = ''workspace cursor is stale''"
| "show_workspace_error CeLimitExceeded = ''workspace request exceeded its limit''"
| "show_workspace_error CeChangedDuringRead = ''workspace entry changed during read''"
| "show_workspace_error CeIo = ''workspace read failed''"

fun map_lookup :: "workspace_lookup \<Rightarrow> workspace_command_error" where
  "map_lookup WlUnconfigured = CeNotConfigured"
| "map_lookup WlUnknown = CeUnknownWorkspace"

definition validate_workspace_id :: "str \<Rightarrow> bool" where
  "validate_workspace_id v \<longleftrightarrow> starts_with v ''ws_'' \<and> length v \<le> 99 \<and> 3 < length v
     \<and> list_all (\<lambda>c. is_ascii_alphanumeric c \<or> c \<in> {CHR ''_'', CHR ''-'', CHR ''.''}) (drop 3 v)"

definition validate_wire_path :: "str \<Rightarrow> bool" where
  "validate_wire_path v \<longleftrightarrow> length v \<le> 4096 \<and> \<not> has_control v"

definition with_workspace ::
    "runtime_env \<Rightarrow> runtime_host \<Rightarrow> str \<Rightarrow> (workspace_handle \<Rightarrow> 'a fs_op) \<Rightarrow> world \<Rightarrow> nat \<Rightarrow> workspace_command_error + 'a" where
  "with_workspace e h workspace_id operation w t =
     (if \<not> validate_workspace_id workspace_id then Inl CeInvalidInput
      else and_then (map_err map_lookup
          (with_configured_workspace e workspace_id (\<lambda>handle. fst (operation handle w t)) h))
        (map_err from_workspace))"

record workspace_tree_input =
  wt_workspace_id :: str
  wt_relative_path :: str
  wt_cursor :: "str option"
  wt_page_size :: "nat option"
  wt_snapshot_token :: "str option"

record workspace_read_file_input =
  wf_workspace_id :: str
  wf_relative_path :: str

record workspace_search_input =
  ws_workspace_id :: str
  ws_relative_path :: str
  ws_query :: str

definition tree_request :: "workspace_tree_input \<Rightarrow> tree_page_request" where
  "tree_request i = \<lparr>tq_relative_path = wt_relative_path i, tq_cursor = wt_cursor i,
     tq_page_size = wt_page_size i, tq_snapshot_token = wt_snapshot_token i\<rparr>"

definition ja_workspace_tree ::
    "(bytes \<Rightarrow> bytes) \<Rightarrow> runtime_env \<Rightarrow> runtime_host \<Rightarrow> workspace_tree_input \<Rightarrow> world \<Rightarrow> nat
     \<Rightarrow> workspace_command_error + tree_page" where
  "ja_workspace_tree sha e h i w t =
     (if \<not> validate_wire_path (wt_relative_path i)
        \<or> opt_ex (\<lambda>c. 256 < length c) (wt_cursor i)
        \<or> opt_ex (\<lambda>s. 128 < length s) (wt_snapshot_token i)
      then Inl CeInvalidInput
      else with_workspace e h (wt_workspace_id i)
        (\<lambda>handle. read_page sha (tree_reader_new handle default_tree_policy) (tree_request i)) w t)"

definition ja_workspace_read_file ::
    "(bytes \<Rightarrow> bytes) \<Rightarrow> runtime_env \<Rightarrow> runtime_host \<Rightarrow> workspace_read_file_input \<Rightarrow> world \<Rightarrow> nat
     \<Rightarrow> workspace_command_error + file_content" where
  "ja_workspace_read_file sha e h i w t =
     (if \<not> validate_wire_path (wf_relative_path i) then Inl CeInvalidInput
      else with_workspace e h (wf_workspace_id i)
        (\<lambda>handle. file_read sha (file_reader_new handle default_content_policy) (wf_relative_path i)) w t)"

definition ja_workspace_search ::
    "runtime_env \<Rightarrow> runtime_host \<Rightarrow> workspace_search_input \<Rightarrow> world \<Rightarrow> nat
     \<Rightarrow> workspace_command_error + text_search_result option" where
  "ja_workspace_search e h i w t =
     (if \<not> validate_wire_path (ws_relative_path i) \<or> ws_query i = [] \<or> 8192 < length (ws_query i)
        \<or> has_control (ws_query i)
      then Inl CeInvalidInput
      else with_workspace e h (ws_workspace_id i)
        (\<lambda>handle. search_text (text_search_new handle default_search_policy) (ws_relative_path i) (ws_query i)) w t)"

end
