(* ===== verification/Ja_Git_Run.thy ===== *)
theory Ja_Git_Run
  imports Ja_Git_Worktree Ja_Host
begin

text \<open>
  The four git operations (\<open>git_read/command.rs\<close>), the run of one child under its deadline and
  output limits (\<open>git_read/process.rs\<close>, Unix) and the two Tauri commands (\<open>git_read/commands.rs\<close>).
  What the operating system, the clock and the child do is a record of observations.
\<close>

subsection \<open>Policy\<close>

text \<open>Durations are in nanoseconds.\<close>

record git_policy =
  gp_timeout :: nat
  gp_cleanup_timeout :: nat
  gp_poll_interval :: nat
  gp_max_output_bytes :: nat
  gp_max_error_bytes :: nat
  gp_max_status_records :: nat

definition seconds :: "nat \<Rightarrow> nat" where "seconds n = n * 1000000000"

definition default_git_policy :: git_policy where
  "default_git_policy = \<lparr>gp_timeout = seconds 15, gp_cleanup_timeout = seconds 2,
     gp_poll_interval = 10 * 1000000, gp_max_output_bytes = 8 * 1024 * 1024,
     gp_max_error_bytes = 256 * 1024, gp_max_status_records = 100000\<rparr>"

record git_read_only =
  gr_workspace :: workspace_handle
  gr_program :: str
  gr_policy :: git_policy

definition with_policy :: "git_policy \<Rightarrow> git_read_only \<Rightarrow> git_error + git_read_only" where
  "with_policy p g =
     (if gp_timeout p = 0 \<or> gp_cleanup_timeout p = 0 \<or> gp_poll_interval p = 0
         \<or> gp_max_output_bytes p = 0 \<or> gp_max_error_bytes p = 0 \<or> gp_max_status_records p = 0
         \<or> seconds 300 < gp_timeout p \<or> seconds 30 < gp_cleanup_timeout p \<or> seconds 1 < gp_poll_interval p
         \<or> 64 * 1024 * 1024 < gp_max_output_bytes p \<or> 4 * 1024 * 1024 < gp_max_error_bytes p
         \<or> 1000000 < gp_max_status_records p
      then Inl GInvalidPolicy else Inr (g\<lparr>gr_policy := p\<rparr>))"

text \<open>The executable: the variable PATH, \<open>is_file\<close> and \<open>canonicalize\<close> are arguments.\<close>

fun first_program :: "(str \<Rightarrow> bool) \<Rightarrow> (str \<Rightarrow> str option) \<Rightarrow> str list \<Rightarrow> str option" where
  "first_program is_file canon [] = None"
| "first_program is_file canon (d # ds) =
     (let candidate = path_join d ''git''
      in if is_file candidate \<and> canon candidate \<noteq> None then canon candidate
      else first_program is_file canon ds)"

definition resolve_git_program :: "str option \<Rightarrow> (str \<Rightarrow> bool) \<Rightarrow> (str \<Rightarrow> str option) \<Rightarrow> str option" where
  "resolve_git_program path is_file canon =
     (case path of None \<Rightarrow> None | Some p \<Rightarrow> first_program is_file canon (split_on CHR '':'' p))"

definition git_new :: "workspace_handle \<Rightarrow> str option \<Rightarrow> git_read_only git_op" where
  "git_new h program =
     op_bind (validate_worktree h) (\<lambda>_.
     op_bind (op_lift (ok_or program GGitUnavailable)) (\<lambda>p.
     op_ok \<lparr>gr_workspace = h, gr_program = p, gr_policy = default_git_policy\<rparr>))"

subsection \<open>The command\<close>

record git_command =
  gc_program :: str
  gc_directory :: str
  gc_args :: "str list"
  gc_env :: "(str \<times> str) list"

definition null_device :: str where "null_device = ''/dev/null''"

definition option_prefix :: "str list" where
  "option_prefix = [''--no-optional-locks'', ''--no-pager'', ''-c'', ''core.pager=cat'',
     ''-c'', ''pager.diff=false'', ''-c'', ''color.ui=false'', ''-c'', ''diff.external='',
     ''-c'', ''diff.trustExitCode=false'', ''-c'', ''core.fsmonitor=false'']"

text \<open>The whole environment: what was inherited is cleared first.\<close>

definition git_environment :: "(str \<times> str) list" where
  "git_environment =
     [(''GIT_CONFIG_NOSYSTEM'', ''1''), (''GIT_CONFIG_GLOBAL'', null_device),
      (''GIT_CONFIG_SYSTEM'', null_device), (''GIT_CONFIG_COUNT'', ''4''),
      (''GIT_CONFIG_KEY_0'', ''alias.status''), (''GIT_CONFIG_VALUE_0'', []),
      (''GIT_CONFIG_KEY_1'', ''alias.diff''), (''GIT_CONFIG_VALUE_1'', []),
      (''GIT_CONFIG_KEY_2'', ''alias.log''), (''GIT_CONFIG_VALUE_2'', []),
      (''GIT_CONFIG_KEY_3'', ''alias.show''), (''GIT_CONFIG_VALUE_3'', []),
      (''GIT_TERMINAL_PROMPT'', ''0''), (''GIT_ASKPASS'', []), (''SSH_ASKPASS'', []),
      (''GCM_INTERACTIVE'', ''Never''), (''GIT_OPTIONAL_LOCKS'', ''0''),
      (''GIT_NO_REPLACE_OBJECTS'', ''1''), (''GIT_NO_LAZY_FETCH'', ''1''), (''GIT_PAGER'', ''cat''),
      (''GIT_EDITOR'', '':''), (''GIT_SEQUENCE_EDITOR'', '':''), (''LC_ALL'', ''C''),
      (''LANG'', ''C''), (''TZ'', ''UTC'')]"

definition build_command :: "git_read_only \<Rightarrow> str list \<Rightarrow> git_command" where
  "build_command g args = \<lparr>gc_program = gr_program g, gc_directory = wh_root (gr_workspace g),
     gc_args = option_prefix @ args, gc_env = git_environment\<rparr>"

subsection \<open>The child\<close>

text \<open>
  One pass of the wait loop observes the cancellation, the two output limits, \<open>try_wait\<close> (an exit
  code, none for a signal) and whether the deadline has passed. A reader sees the chunks of its
  pipe; an empty chunk is its end, and without one it is still blocked.
\<close>

type_synonym exit_code = "int option"

record git_poll =
  go_cancelled :: bool
  go_limited :: "bool \<times> bool"
  go_wait :: "io_kind + exit_code option"
  go_late :: bool

definition kind_name :: "io_kind \<Rightarrow> str" where
  "kind_name k = (case k of IoNotFound \<Rightarrow> ''NotFound'' | IoPermissionDenied \<Rightarrow> ''PermissionDenied'' | IoOther s \<Rightarrow> s)"

definition spawn_error :: "io_kind \<Rightarrow> git_error" where
  "spawn_error k = GSpawn (kind_name k)"

fun wait_child :: "git_poll list \<Rightarrow> (git_error + exit_code) option" where
  "wait_child [] = None"
| "wait_child (p # ps) =
     (if go_cancelled p then Some (Inl GCancelled)
      else if fst (go_limited p) \<or> snd (go_limited p) then Some (Inl GOutputLimitExceeded)
      else case go_wait p of
        Inr (Some status) \<Rightarrow> Some (Inr status)
      | Inl k \<Rightarrow> Some (Inl (spawn_error k))
      | Inr None \<Rightarrow> if go_late p then Some (Inl GTimedOut) else wait_child ps)"

fun read_pipe :: "nat \<Rightarrow> bytes \<Rightarrow> (io_kind + bytes) list \<Rightarrow> ((git_error + bytes) \<times> bool) option" where
  "read_pipe limit bs [] = None"
| "read_pipe limit bs (Inl k # rs) = Some (Inl (spawn_error k), False)"
| "read_pipe limit bs (Inr c # rs) =
     (if c = [] then Some (Inr bs, False)
      else if limit < sat_add (length bs) (length c) then Some (Inr (bs @ take (limit - length bs) c), True)
      else read_pipe limit (bs @ c) rs)"

text \<open>A join that polls: whether the reader is finished, and whether the deadline has passed.\<close>

fun join_until :: "((git_error + bytes) \<times> bool) option \<Rightarrow> (bool \<times> bool) list \<Rightarrow> (git_error + bytes) option" where
  "join_until reader [] = None"
| "join_until reader ((finished, late) # ps) =
     (if finished \<and> reader \<noteq> None then map_option fst reader
      else if late then Some (Inl GCleanupTimedOut)
      else join_until reader ps)"

fun reap_child :: "bool \<Rightarrow> ((io_kind + exit_code option) \<times> bool) list \<Rightarrow> (git_error + unit) option" where
  "reap_child failed [] = None"
| "reap_child failed ((waited, late) # ps) =
     (case waited of
        Inr (Some _) \<Rightarrow> Some (if failed then Inl GCleanupTimedOut else Inr ())
      | _ \<Rightarrow> if late then Some (Inl GCleanupTimedOut) else reap_child failed ps)"

definition terminate_child ::
    "io_kind + unit \<Rightarrow> ((io_kind + exit_code option) \<times> bool) list \<Rightarrow> (git_error + unit) option" where
  "terminate_child killed ps =
     reap_child (case killed of Inr _ \<Rightarrow> False | Inl k \<Rightarrow> k \<noteq> IoNotFound \<and> k \<noteq> IoOther ''InvalidInput'') ps"

record git_observed =
  gb_cancelled :: bool
  gb_late_first :: bool
  gb_prepare :: "io_kind + unit"
  gb_late_spawn :: bool
  gb_spawn :: "io_kind + unit"
  gb_start :: "io_kind + unit"
  gb_pipes :: "bool \<times> bool"
  gb_polls :: "git_poll list"
  gb_kill :: "io_kind + unit"
  gb_reaps :: "((io_kind + exit_code option) \<times> bool) list"
  gb_stdout :: "(io_kind + bytes) list"
  gb_stderr :: "(io_kind + bytes) list"
  gb_join_stdout :: "(bool \<times> bool) list"
  gb_join_stderr :: "(bool \<times> bool) list"

record raw_git_output =
  go_stdout :: bytes
  go_status :: exit_code

definition stdout_reader :: "git_policy \<Rightarrow> git_observed \<Rightarrow> ((git_error + bytes) \<times> bool) option" where
  "stdout_reader p o' = read_pipe (gp_max_output_bytes p) [] (gb_stdout o')"

definition stderr_reader :: "git_policy \<Rightarrow> git_observed \<Rightarrow> ((git_error + bytes) \<times> bool) option" where
  "stderr_reader p o' = read_pipe (gp_max_error_bytes p) [] (gb_stderr o')"

definition joined_stdout :: "git_policy \<Rightarrow> git_observed \<Rightarrow> (git_error + bytes) option" where
  "joined_stdout p o' = join_until (stdout_reader p o') (gb_join_stdout o')"

definition joined_stderr :: "git_policy \<Rightarrow> git_observed \<Rightarrow> (git_error + bytes) option" where
  "joined_stderr p o' = join_until (stderr_reader p o') (gb_join_stderr o')"

definition then_observed :: "'a option \<Rightarrow> ('a \<Rightarrow> 'b option) \<Rightarrow> 'b option" where
  "then_observed m f = (case m of None \<Rightarrow> None | Some x \<Rightarrow> f x)"

definition cleaned_up :: "git_policy \<Rightarrow> git_observed \<Rightarrow> git_error \<Rightarrow> (git_error + raw_git_output) option" where
  "cleaned_up p o' e =
     then_observed (terminate_child (gb_kill o') (gb_reaps o')) (\<lambda>cleanup.
     then_observed (joined_stdout p o') (\<lambda>out.
     then_observed (joined_stderr p o') (\<lambda>err.
     Some (Inl (if \<not> is_ok cleanup \<or> \<not> is_ok out \<or> \<not> is_ok err then GCleanupTimedOut else e)))))"

definition reader_limited :: "((git_error + bytes) \<times> bool) option \<Rightarrow> bool" where
  "reader_limited r = (case r of Some (_, limited) \<Rightarrow> limited | None \<Rightarrow> False)"

definition collected :: "git_policy \<Rightarrow> git_observed \<Rightarrow> exit_code \<Rightarrow> (git_error + raw_git_output) option" where
  "collected p o' status =
     then_observed (joined_stdout p o') (\<lambda>out.
     then_observed (joined_stderr p o') (\<lambda>err.
     Some (and_then out (\<lambda>bytes. and_then err (\<lambda>_.
       if reader_limited (stdout_reader p o') \<or> reader_limited (stderr_reader p o')
       then Inl GOutputLimitExceeded
       else Inr \<lparr>go_stdout = bytes, go_status = status\<rparr>)))))"

text \<open>A child that cannot be supervised is terminated; what that gives is ignored.\<close>

definition abandoned :: "git_observed \<Rightarrow> git_error \<Rightarrow> (git_error + raw_git_output) option" where
  "abandoned o' e = then_observed (terminate_child (gb_kill o') (gb_reaps o')) (\<lambda>_. Some (Inl e))"

definition supervise_child :: "git_policy \<Rightarrow> git_observed \<Rightarrow> (git_error + raw_git_output) option" where
  "supervise_child p o' =
     then_observed (wait_child (gb_polls o')) (\<lambda>waited.
     case waited of Inl e \<Rightarrow> cleaned_up p o' e | Inr status \<Rightarrow> collected p o' status)"

definition spawned_child :: "git_policy \<Rightarrow> git_observed \<Rightarrow> (git_error + raw_git_output) option" where
  "spawned_child p o' =
     (case gb_start o' of
        Inl k \<Rightarrow> abandoned o' (spawn_error k)
      | Inr _ \<Rightarrow>
          if \<not> fst (gb_pipes o') then abandoned o' (GSpawn ''BrokenPipe'')
          else if \<not> snd (gb_pipes o') then abandoned o' (GSpawn ''BrokenPipe'')
          else supervise_child p o')"

definition run_git :: "git_policy \<Rightarrow> git_observed \<Rightarrow> (git_error + raw_git_output) option" where
  "run_git p o' =
     (if gb_cancelled o' then Some (Inl GCancelled)
      else if gb_late_first o' then Some (Inl GTimedOut)
      else case gb_prepare o' of
        Inl k \<Rightarrow> Some (Inl (spawn_error k))
      | Inr _ \<Rightarrow>
          if gb_late_spawn o' then Some (Inl GTimedOut)
          else (case gb_spawn o' of
            Inl k \<Rightarrow> Some (Inl (spawn_error k))
          | Inr _ \<Rightarrow> spawned_child p o'))"

subsection \<open>The operations\<close>

text \<open>What a command gives when it is run is an argument: \<open>run_git\<close> at what was observed.\<close>

type_synonym git_runner = "git_command \<Rightarrow> git_error + raw_git_output"

definition validate_path :: "workspace_handle \<Rightarrow> str \<Rightarrow> git_error + unit" where
  "validate_path h p =
     map_err (\<lambda>e. if e = WInvalidRelativePath then GInvalidPath else GWorkspace) (validate_git_path p)"

definition guarded_root :: "workspace_handle \<Rightarrow> unit git_op" where
  "guarded_root h w t =
     (case resolve_directory h [] w t of (r, t') \<Rightarrow> (and_then (map_err (\<lambda>_. GWorkspace) r) (\<lambda>_. Inr ()), t'))"

definition run_os :: "git_read_only \<Rightarrow> git_runner \<Rightarrow> str list \<Rightarrow> bytes git_op" where
  "run_os g run args =
     op_bind (guarded_root (gr_workspace g)) (\<lambda>_.
     op_bind (validate_worktree (gr_workspace g)) (\<lambda>_.
     op_bind (op_lift (run (build_command g args))) (\<lambda>out.
     op_bind (guarded_root (gr_workspace g)) (\<lambda>_.
     op_bind (validate_worktree (gr_workspace g)) (\<lambda>_.
     if go_status out \<noteq> Some 0 then op_err (GCommandFailed (go_status out))
     else op_ok (go_stdout out))))))"

definition status_args :: "str list" where
  "status_args = [''status'', ''--porcelain=v2'', ''-z'', ''--untracked-files=all'']"

definition git_status :: "git_read_only \<Rightarrow> git_runner \<Rightarrow> git_status_entry list git_op" where
  "git_status g run =
     op_bind (run_os g run status_args) (\<lambda>out. op_lift (parse_status out (gp_max_status_records (gr_policy g))))"

definition path_args :: "workspace_handle \<Rightarrow> str option \<Rightarrow> git_error + str list" where
  "path_args h p =
     (case p of None \<Rightarrow> Inr [] | Some v \<Rightarrow> and_then (validate_path h v) (\<lambda>_. Inr [v]))"

record diff_options =
  do_staged :: bool
  do_relative_path :: "str option"

definition diff_args :: "workspace_handle \<Rightarrow> diff_options \<Rightarrow> git_error + str list" where
  "diff_args h o' =
     and_then (path_args h (do_relative_path o')) (\<lambda>paths.
       Inr ([''diff'', ''--no-ext-diff'', ''--no-color'', ''--no-textconv'', ''--binary'']
         @ (if do_staged o' then [''--cached''] else []) @ [''--''] @ paths))"

record git_bytes =
  gt_bytes :: bytes
  gt_truncated :: bool

definition git_diff :: "git_read_only \<Rightarrow> git_runner \<Rightarrow> diff_options \<Rightarrow> git_bytes git_op" where
  "git_diff g run o' =
     op_bind (op_lift (diff_args (gr_workspace g) o')) (\<lambda>args.
     op_bind (run_os g run args) (\<lambda>out. op_ok \<lparr>gt_bytes = out, gt_truncated = False\<rparr>))"

definition log_args :: "nat \<Rightarrow> str list" where
  "log_args max_count =
     [''log'', ''--no-color'', ''--no-decorate'', ''--no-ext-diff'', ''--no-textconv'',
      ''--format='' @ ''%H%x00%P%x00%an%x00%ae%x00%aI%x00%s%x00'',
      ''-n'' @ show_nat (clamp 1 500 max_count), ''--'']"

definition git_log :: "git_read_only \<Rightarrow> git_runner \<Rightarrow> nat \<Rightarrow> git_log_entry list git_op" where
  "git_log g run max_count = op_bind (run_os g run (log_args max_count)) (\<lambda>out. op_lift (parse_log out))"

definition show_args :: "workspace_handle \<Rightarrow> str \<Rightarrow> str option \<Rightarrow> git_error + str list" where
  "show_args h object p =
     and_then (validate_object object) (\<lambda>_.
     and_then (path_args h p) (\<lambda>paths.
       Inr ([''show'', ''--no-color'', ''--no-ext-diff'', ''--no-textconv'', ''--format=fuller'', object, ''--'']
         @ paths)))"

definition git_show :: "git_read_only \<Rightarrow> git_runner \<Rightarrow> str \<Rightarrow> str option \<Rightarrow> git_bytes git_op" where
  "git_show g run object p =
     op_bind (op_lift (show_args (gr_workspace g) object p)) (\<lambda>args.
     op_bind (run_os g run args) (\<lambda>out. op_ok \<lparr>gt_bytes = out, gt_truncated = False\<rparr>))"

subsection \<open>The commands\<close>

datatype git_command_error =
    GcNotConfigured | GcUnknownWorkspace | GcInvalidInput | GcInvalidPath | GcExternalWorktree
  | GcGitUnavailable | GcCommandFailed | GcTimedOut | GcCancelled | GcOutputLimitExceeded
  | GcCleanupTimedOut | GcParse | GcIo

fun from_git :: "git_error \<Rightarrow> git_command_error" where
  "from_git GInvalidPolicy = GcInvalidInput"
| "from_git GInvalidObject = GcInvalidInput"
| "from_git GInvalidPath = GcInvalidPath"
| "from_git GExternalWorktree = GcExternalWorktree"
| "from_git GWorkspace = GcExternalWorktree"
| "from_git GGitUnavailable = GcGitUnavailable"
| "from_git (GCommandFailed _) = GcCommandFailed"
| "from_git GTimedOut = GcTimedOut"
| "from_git GCancelled = GcCancelled"
| "from_git GOutputLimitExceeded = GcOutputLimitExceeded"
| "from_git GCleanupTimedOut = GcCleanupTimedOut"
| "from_git GParse = GcParse"
| "from_git (GSpawn _) = GcIo"

fun git_command_error_text :: "git_command_error \<Rightarrow> str" where
  "git_command_error_text GcNotConfigured = ''workspace is not configured''"
| "git_command_error_text GcUnknownWorkspace = ''workspace is unknown''"
| "git_command_error_text GcInvalidInput = ''Git request is invalid''"
| "git_command_error_text GcInvalidPath = ''Git path is invalid''"
| "git_command_error_text GcExternalWorktree = ''Git worktree is not allowed''"
| "git_command_error_text GcGitUnavailable = ''Git is unavailable''"
| "git_command_error_text GcCommandFailed = ''Git command failed''"
| "git_command_error_text GcTimedOut = ''Git command timed out''"
| "git_command_error_text GcCancelled = ''Git command was cancelled''"
| "git_command_error_text GcOutputLimitExceeded = ''Git output exceeded its limit''"
| "git_command_error_text GcCleanupTimedOut = ''Git process cleanup timed out''"
| "git_command_error_text GcParse = ''Git output could not be parsed''"
| "git_command_error_text GcIo = ''Git read failed''"

definition git_workspace_id_ok :: "str \<Rightarrow> bool" where
  "git_workspace_id_ok v \<longleftrightarrow> starts_with v ''ws_'' \<and> length v \<le> 99 \<and> 3 < length v
     \<and> list_all (\<lambda>c. is_ascii_alphanumeric c \<or> c \<in> {CHR ''_'', CHR ''-'', CHR ''.''}) (drop 3 v)"

definition git_relative_path_ok :: "str \<Rightarrow> bool" where
  "git_relative_path_ok v \<longleftrightarrow> v \<noteq> [] \<and> length v \<le> 4096 \<and> \<not> has_control v"

fun git_map_lookup :: "workspace_lookup \<Rightarrow> git_command_error" where
  "git_map_lookup WlUnconfigured = GcNotConfigured"
| "git_map_lookup WlUnknown = GcUnknownWorkspace"

definition git_with_workspace ::
    "runtime_env \<Rightarrow> runtime_host \<Rightarrow> str \<Rightarrow> (workspace_handle \<Rightarrow> 'a git_op) \<Rightarrow> world \<Rightarrow> nat
     \<Rightarrow> git_command_error + 'a" where
  "git_with_workspace e h workspace_id operation w t =
     (if \<not> git_workspace_id_ok workspace_id then Inl GcInvalidInput
      else and_then (map_err git_map_lookup
          (with_configured_workspace e workspace_id (\<lambda>handle. fst (operation handle w t)) h))
        (map_err from_git))"

text \<open>The entries and bytes of a result are copied field by field into the transport objects.\<close>

definition ja_git_status ::
    "runtime_env \<Rightarrow> runtime_host \<Rightarrow> str option \<Rightarrow> git_runner \<Rightarrow> str \<Rightarrow> world \<Rightarrow> nat
     \<Rightarrow> git_command_error + git_status_entry list" where
  "ja_git_status e h program run workspace_id =
     git_with_workspace e h workspace_id (\<lambda>handle. op_bind (git_new handle program) (\<lambda>g. git_status g run))"

record git_diff_input =
  gi_workspace_id :: str
  gi_staged :: bool
  gi_relative_path :: "str option"

definition ja_git_diff ::
    "runtime_env \<Rightarrow> runtime_host \<Rightarrow> str option \<Rightarrow> git_runner \<Rightarrow> git_diff_input \<Rightarrow> world \<Rightarrow> nat
     \<Rightarrow> git_command_error + git_bytes" where
  "ja_git_diff e h program run i w t =
     (if opt_ex (\<lambda>p. \<not> git_relative_path_ok p) (gi_relative_path i) then Inl GcInvalidInput
      else git_with_workspace e h (gi_workspace_id i) (\<lambda>handle.
        op_bind (git_new handle program) (\<lambda>g.
          git_diff g run \<lparr>do_staged = gi_staged i, do_relative_path = gi_relative_path i\<rparr>)) w t)"

end
