(* ===== verification/Ja_Content_Safety.thy ===== *)
theory Ja_Content_Safety
  imports Ja_Content
begin

text \<open>
  What reading a file gives: the classification loses nothing, a file left alone is read exactly,
  the digest is bounded, and which change of the file system between two calls is not noticed.
\<close>

subsection \<open>Classification\<close>

text \<open>The bytes that hold a text, a list of scalar values, in each of the four encodings.\<close>

fun encode_text :: "text_encoding \<Rightarrow> nat list \<Rightarrow> bytes" where
  "encode_text TeUtf8 cs = utf8 cs"
| "encode_text TeUtf8Bom cs = bom_utf8 @ utf8 cs"
| "encode_text TeUtf16Le cs = bom_le @ units_bytes True (utf16 cs)"
| "encode_text TeUtf16Be cs = bom_be @ units_bytes False (utf16 cs)"

text \<open>A plain UTF-8 text must not be taken for a marked one, nor for binary data.\<close>

fun encodable :: "text_encoding \<Rightarrow> nat list \<Rightarrow> bool" where
  "encodable TeUtf8 cs \<longleftrightarrow> CHR 0x00 \<notin> set (utf8 cs) \<and> \<not> starts_with (utf8 cs) bom_utf8"
| "encodable _ cs \<longleftrightarrow> True"

lemma no_utf8_start: "starts_with bs [a, b] \<Longrightarrow> 245 \<le> byte a \<Longrightarrow> \<not> utf8_valid bs"
  by (auto simp: starts_with_iff_prefix elim: prefixE)

lemma bom_not_utf8: "utf8_valid bs \<Longrightarrow> \<not> starts_with bs bom_le \<and> \<not> starts_with bs bom_be"
  using no_utf8_start [of bs "CHR 0xFF" "CHR 0xFE"] no_utf8_start [of bs "CHR 0xFE" "CHR 0xFF"]
  by (auto simp: bom_le_def bom_be_def)

lemma decode_utf16_exact:
  "decode_utf16 bs le = (CkText, Some e, Some s) \<longleftrightarrow>
     (\<exists>cs. (\<forall>c \<in> set cs. scalar c) \<and> s = utf8 cs \<and> bs = units_bytes le (utf16 cs))
     \<and> e = (if le then TeUtf16Le else TeUtf16Be)"
proof
  assume l: "decode_utf16 bs le = (CkText, Some e, Some s)"
  then obtain cs where even: "even (length bs)" and cs: "decode_units (code_units le bs) = Some cs" "s = utf8 cs"
    and e: "e = (if le then TeUtf16Le else TeUtf16Be)"
    by (auto simp: decode_utf16_def unknown_encoding_def from_utf16_def split: if_splits option.splits)
  note units = bytes_code_units [OF even, of le]
  have "(\<forall>c \<in> set cs. scalar c) \<and> utf16 cs = code_units le bs"
    using decode_units_Some [OF cs(1)] units by blast
  then show "(\<exists>cs. (\<forall>c \<in> set cs. scalar c) \<and> s = utf8 cs \<and> bs = units_bytes le (utf16 cs))
     \<and> e = (if le then TeUtf16Le else TeUtf16Be)" using cs(2) e units by metis
next
  assume "(\<exists>cs. (\<forall>c \<in> set cs. scalar c) \<and> s = utf8 cs \<and> bs = units_bytes le (utf16 cs))
     \<and> e = (if le then TeUtf16Le else TeUtf16Be)"
  then show "decode_utf16 bs le = (CkText, Some e, Some s)"
    by (auto simp: decode_utf16_def units_bytes_even code_units_bytes utf16_units from_utf16_def decode_utf16)
qed

lemma decode_utf16_never [simp]:
  "decode_utf16 bs le \<noteq> (k, Some TeUtf8, t)" "decode_utf16 bs le \<noteq> (k, Some TeUtf8Bom, t)"
  "decode_utf16 bs True \<noteq> (k, Some TeUtf16Be, t)" "decode_utf16 bs False \<noteq> (k, Some TeUtf16Le, t)"
  by (auto simp: decode_utf16_def unknown_encoding_def split: if_splits option.splits)

lemma utf8_valid_exact: "utf8_valid r \<longleftrightarrow> (\<exists>cs. list_all scalar cs \<and> utf8 cs = r)"
  using utf8_utf8_valid utf8_valid_scalars by (auto simp: list_all_iff)

lemma starts_with_split: "starts_with bs p \<longleftrightarrow> (\<exists>r. bs = p @ r)"
  by (auto simp: starts_with_iff_prefix prefix_def)

lemmas boms = bom_utf8_def bom_le_def bom_be_def

lemma decode_plain:
  "decode_content bs = (CkText, Some TeUtf8, Some s) \<longleftrightarrow>
     utf8_valid bs \<and> CHR 0x00 \<notin> set bs \<and> \<not> starts_with bs bom_utf8 \<and> s = bs"
  using bom_not_utf8 [of bs]
  by (auto simp: decode_content_def unknown_encoding_def)

lemma decode_marked:
  "decode_content bs = (CkText, Some TeUtf8Bom, Some s) \<longleftrightarrow> bs = bom_utf8 @ s \<and> utf8_valid s"
  by (auto simp: decode_content_def unknown_encoding_def starts_with_split boms)

lemma decode_le:
  "decode_content bs = (CkText, Some TeUtf16Le, Some s) \<longleftrightarrow>
     (\<exists>r. bs = bom_le @ r \<and> decode_utf16 r True = (CkText, Some TeUtf16Le, Some s))"
  by (auto simp: decode_content_def unknown_encoding_def starts_with_split boms)

lemma decode_be:
  "decode_content bs = (CkText, Some TeUtf16Be, Some s) \<longleftrightarrow>
     (\<exists>r. bs = bom_be @ r \<and> decode_utf16 r False = (CkText, Some TeUtf16Be, Some s))"
  by (auto simp: decode_content_def unknown_encoding_def starts_with_split boms)

text \<open>
  C13. The classification is lossless: it gives the text \<open>s\<close> in encoding \<open>e\<close> exactly for the bytes
  that are an encoding of scalar values whose Rust string is \<open>s\<close>; so a UTF-16 text is transcoded
  without replacing anything, and nothing that is not such an encoding becomes text.
\<close>

theorem text_classification_lossless:
  "decode_content bs = (CkText, Some e, Some s) \<longleftrightarrow>
     (\<exists>cs. list_all scalar cs \<and> encodable e cs \<and> s = utf8 cs \<and> bs = encode_text e cs)"
  by (cases e) (auto simp: decode_plain decode_marked decode_le decode_be decode_utf16_exact
    utf8_valid_exact list_all_iff)

subsection \<open>Operations see the moments of their own calls only\<close>

text \<open>
  An operation makes some number of calls and depends on the file system at those only, whenever
  it starts.
\<close>

definition local_op :: "('e, 'a) os_op \<Rightarrow> bool" where
  "local_op m \<longleftrightarrow> (\<forall>w t. \<exists>d r. \<forall>w' t'. (\<forall>j < d. w' (t' + j) = w (t + j)) \<longrightarrow> m w' t' = (r, t' + d))"

named_theorems local_intro

lemma local_run:
  assumes "local_op m" and "m w t = (r, k)"
  obtains d where "k = t + d" "\<And>w' t'. \<forall>j < d. w' (t' + j) = w (t + j) \<Longrightarrow> m w' t' = (r, t' + d)"
proof -
  obtain d r' where d: "\<forall>w' t'. (\<forall>j < d. w' (t' + j) = w (t + j)) \<longrightarrow> m w' t' = (r', t' + d)"
    using assms(1) unfolding local_op_def by blast
  then have "m w t = (r', t + d)" by blast
  with assms(2) have "r' = r" "k = t + d" by simp_all
  with d that show thesis by blast
qed

lemma local_mono: "local_op m \<Longrightarrow> m w t = (r, k) \<Longrightarrow> t \<le> k"
  by (erule local_run, assumption) simp

lemma local_agree: "local_op m \<Longrightarrow> m w t = (r, k) \<Longrightarrow> \<forall>j. t \<le> j \<and> j < k \<longrightarrow> w' j = w j \<Longrightarrow> m w' t = (r, k)"
  by (erule local_run, assumption) simp

lemma local_timeless: "local_op m \<Longrightarrow> m (\<lambda>_. fs) t = (r, k) \<Longrightarrow> \<exists>k'. m (\<lambda>_. fs) t' = (r, k')"
proof (erule local_run, assumption)
  fix d assume "\<And>w' t'. \<forall>j < d. w' (t' + j) = fs \<Longrightarrow> m w' t' = (r, t' + d)"
  from this [of "\<lambda>_. fs" t'] show "\<exists>k'. m (\<lambda>_. fs) t' = (r, k')" by simp
qed

lemma local_ok [local_intro]: "local_op (op_ok x)"
  unfolding local_op_def op_ok_def by (intro allI exI [of _ 0]) simp

lemma local_err [local_intro]: "local_op (op_err e)"
  unfolding local_op_def op_err_def by (intro allI exI [of _ 0]) simp

lemma local_lift [local_intro]: "local_op (op_lift r)"
  unfolding local_op_def op_lift_def by (intro allI exI [of _ 0]) simp

lemma local_require [local_intro]: "local_op (op_require b e)"
  by (simp add: op_require_def local_lift)

lemma local_call [local_intro]: "local_op (op_call f h)"
  unfolding local_op_def op_call_def by (intro allI exI [of _ 1]) simp

lemma local_bind [local_intro]:
  assumes "local_op m" and "\<And>x. local_op (f x)"
  shows "local_op (op_bind m f)"
  unfolding local_op_def
proof (intro allI)
  fix w t
  obtain q k where mk: "m w t = (q, k)" by fastforce
  obtain a where a: "k = t + a" "\<And>w' t'. \<forall>j < a. w' (t' + j) = w (t + j) \<Longrightarrow> m w' t' = (q, t' + a)"
    by (rule local_run [OF assms(1) mk], rule that)
  show "\<exists>d r. \<forall>w' t'. (\<forall>j < d. w' (t' + j) = w (t + j)) \<longrightarrow> op_bind m f w' t' = (r, t' + d)"
  proof (cases q)
    case (Inl e)
    then show ?thesis using a(2) by (intro exI [of _ a] exI [of _ "Inl e"]) (simp add: op_bind_def)
  next
    case (Inr x)
    obtain r e where fx: "f x w k = (r, e)" by fastforce
    obtain b where b: "e = k + b" "\<And>w' t'. \<forall>j < b. w' (t' + j) = w (k + j) \<Longrightarrow> f x w' t' = (r, t' + b)"
      by (rule local_run [OF assms(2) fx], rule that)
    have "op_bind m f w' t' = (r, t' + (a + b))" if agree: "\<forall>j < a + b. w' (t' + j) = w (t + j)" for w' t'
    proof -
      have "m w' t' = (q, t' + a)" using agree by (intro a(2)) simp
      moreover have "f x w' (t' + a) = (r, t' + a + b)"
        using agree by (intro b(2)) (simp add: a(1) add.assoc)
      ultimately show ?thesis by (simp add: op_bind_def Inr add.assoc)
    qed
    then show ?thesis by (intro exI [of _ "a + b"] exI [of _ r]) blast
  qed
qed

lemma local_if [local_intro]: "local_op m \<Longrightarrow> local_op n \<Longrightarrow> local_op (if b then m else n)"
  by simp

lemma local_option [local_intro]:
  "local_op m \<Longrightarrow> (\<And>x. local_op (f x)) \<Longrightarrow> local_op (case v of None \<Rightarrow> m | Some x \<Rightarrow> f x)"
  by (cases v) auto

lemma local_pair [local_intro]: "(\<And>x y. local_op (f x y)) \<Longrightarrow> local_op (case v of (x, y) \<Rightarrow> f x y)"
  by (cases v) auto

lemma local_each [local_intro]: "(\<And>x. local_op (f x)) \<Longrightarrow> local_op (op_each f xs)"
  by (induction xs) (auto intro!: local_intro)

lemma local_not_link [local_intro]: "local_op (not_link m)"
  by (simp add: not_link_def local_require)

lemma local_identity [local_intro]: "local_op (physical_identity p)"
  by (simp add: physical_identity_def local_call)

lemma local_root [local_intro]: "local_op (verify_root_identity h)"
  unfolding verify_root_identity_def by (intro local_intro)

lemma local_recheck [local_intro]: "local_op (recheck_kind d m)"
  unfolding recheck_kind_def by (intro local_intro)

lemma local_component [local_intro]: "local_op (verify_component c)"
  unfolding verify_component_def by (intro local_intro)

lemma local_verify [local_intro]: "local_op (verify_resolved h r d)"
  unfolding verify_resolved_def by (intro local_intro)

lemma local_resolve [local_intro]: "local_op (resolve_components c cs)"
  by (induction c cs rule: resolve_components.induct) (auto intro!: local_intro)

lemma local_kind [local_intro]: "local_op (require_kind d m)"
  unfolding require_kind_def by (intro local_intro)

lemma local_finish_guard [local_intro]: "local_op (finish_guard h d c ids)"
  unfolding finish_guard_def Let_def by (intro local_intro)

lemma local_guard [local_intro]: "local_op (resolve_guard h p d)"
  unfolding resolve_guard_def by (intro local_intro)

text \<open>One pass of the digest's loop, case by case.\<close>

abbreviation after_clock :: "bool \<Rightarrow> nat \<Rightarrow> nat" where
  "after_clock dl t \<equiv> (if dl then Suc t else t)"

abbreviation next_chunk :: "nat \<Rightarrow> bytes \<Rightarrow> bytes" where
  "next_chunk n data \<equiv> take (min n hash_buffer) data"

lemma hash_loop_late: "dl \<and> fs_late (w t) \<Longrightarrow> hash_loop dl n fed data fin w t = (Inl WScanDeadlineExceeded, Suc t)"
  by (subst hash_loop.simps) simp

lemma hash_loop_full:
  "\<not> (dl \<and> fs_late (w t)) \<Longrightarrow> min n hash_buffer = 0 \<or> next_chunk n data \<noteq> [] \<and> n - length (next_chunk n data) = 0 \<Longrightarrow>
     hash_loop dl n fed data fin w t = (Inl WFileTooLarge, after_clock dl t)"
  by (subst hash_loop.simps, erule disjE) (simp_all only: Let_def if_False if_True simp_thms if_cancel)

lemma hash_loop_end:
  "\<not> (dl \<and> fs_late (w t)) \<Longrightarrow> min n hash_buffer \<noteq> 0 \<Longrightarrow> next_chunk n data = [] \<Longrightarrow>
     hash_loop dl n fed data fin w t
       = (case fin of Some e \<Rightarrow> (Inl (WIo ''hash'' e), after_clock dl t) | None \<Rightarrow> (Inr fed, after_clock dl t))"
  by (subst hash_loop.simps) (simp only: Let_def if_False if_True simp_thms)

lemma hash_loop_step:
  "\<not> (dl \<and> fs_late (w t)) \<Longrightarrow> min n hash_buffer \<noteq> 0 \<Longrightarrow> next_chunk n data \<noteq> [] \<Longrightarrow>
     n - length (next_chunk n data) \<noteq> 0 \<Longrightarrow>
     hash_loop dl n fed data fin w t = hash_loop dl (n - length (next_chunk n data)) (fed @ next_chunk n data)
       (drop (min n hash_buffer) data) fin w (after_clock dl t)"
  by (subst hash_loop.simps) (simp only: Let_def if_False if_True simp_thms)

lemma after_clock_shift: "after_clock dl (t + j) = after_clock dl t + j"
  by simp

lemma local_hash_loop [local_intro]: "local_op (hash_loop dl n fed data fin)"
proof -
  have "\<exists>d r. \<forall>w' t'. (\<forall>j < d. w' (t' + j) = w (t + j)) \<longrightarrow> hash_loop dl n fed data fin w' t' = (r, t' + d)" for w t
  proof (induction dl n fed data fin w t rule: hash_loop.induct)
    case (1 dl n fed data fin w t)
    consider "dl \<and> fs_late (w t)"
      | "\<not> (dl \<and> fs_late (w t))" "min n hash_buffer = 0 \<or> next_chunk n data \<noteq> [] \<and> n - length (next_chunk n data) = 0"
      | "\<not> (dl \<and> fs_late (w t))" "min n hash_buffer \<noteq> 0" "next_chunk n data = []"
      | "\<not> (dl \<and> fs_late (w t))" "min n hash_buffer \<noteq> 0" "next_chunk n data \<noteq> []" "n - length (next_chunk n data) \<noteq> 0"
      by blast
    then show ?case
    proof cases
      case 1
      then show ?thesis
        by (intro exI [of _ 1] exI [of _ "Inl WScanDeadlineExceeded"]) (simp add: hash_loop_late)
    next
      case 2
      then have "hash_loop dl n fed data fin v k = (Inl WFileTooLarge, k + after_clock dl 0)"
        if "\<forall>j < after_clock dl 0. v (k + j) = w (t + j)" for v k
        using hash_loop_full [of dl v k n data] that by (auto simp: after_clock_shift)
      then show ?thesis by blast
    next
      case 3
      define r :: "workspace_error + bytes" where "r = (case fin of Some e \<Rightarrow> Inl (WIo ''hash'' e) | None \<Rightarrow> Inr fed)"
      have "hash_loop dl n fed data fin v k = (r, k + after_clock dl 0)"
        if "\<forall>j < after_clock dl 0. v (k + j) = w (t + j)" for v k
        using hash_loop_end [of dl v k n data fed fin] 3 that by (auto simp: r_def split: option.splits)
      then show ?thesis by blast
    next
      case 4
      let ?c = "after_clock dl 0"
      let ?rest = "hash_loop dl (n - length (next_chunk n data)) (fed @ next_chunk n data)
        (drop (min n hash_buffer) data) fin"
      obtain d r where IH: "\<forall>w' t'. (\<forall>j < d. w' (t' + j) = w (after_clock dl t + j)) \<longrightarrow> ?rest w' t' = (r, t' + d)"
        using "1.IH" [OF 4(1) refl refl 4(2) refl 4(3,4)] by blast
      have "hash_loop dl n fed data fin v k = (r, k + (?c + d))"
        if agree: "\<forall>j < ?c + d. v (k + j) = w (t + j)" for v k
      proof -
        have "v k = w t" if dl using agree that by (cases d) auto
        then have "hash_loop dl n fed data fin v k = ?rest v (after_clock dl k)"
          by (intro hash_loop_step) (use 4 in auto)
        also have "\<dots> = (r, after_clock dl k + d)"
        proof (rule IH [rule_format])
          fix j assume "j < d"
          then show "v (after_clock dl k + j) = w (after_clock dl t + j)"
            using agree [rule_format, of "?c + j"] by auto
        qed
        finally show ?thesis by simp
      qed
      then show ?thesis by blast
    qed
  qed
  then show ?thesis unfolding local_op_def by blast
qed

lemma local_hash_file [local_intro]: "local_op (hash_file_until sha p n dl)"
  unfolding hash_file_until_def by (intro local_intro)

lemma local_identity_before [local_intro]: "local_op (identity_before p k)"
  unfolding identity_before_def by (intro local_intro)

lemma local_identity_changed [local_intro]: "local_op (identity_changed p b)"
proof (cases b)
  case None
  then show ?thesis unfolding local_op_def by (intro allI exI [of _ 0]) (simp add: identity_changed_def)
next
  case (Some i)
  then show ?thesis unfolding local_op_def by (intro allI exI [of _ 1]) (simp add: identity_changed_def)
qed

lemma local_digest [local_intro]: "local_op (content_digest sha p m n dl)"
  unfolding content_digest_def by (intro local_intro)

lemma local_metadata [local_intro]: "local_op (metadata_for_path_with_deadline sha p m n dl)"
  unfolding metadata_for_path_with_deadline_def by (intro local_intro)

lemma local_metadata_now [local_intro]: "local_op (metadata_for_path sha p m n)"
  unfolding metadata_for_path_def by (intro local_intro)

lemma local_before_read [local_intro]: "local_op (before_read sha rd p)"
  unfolding before_read_def by (intro local_intro)

text \<open>After the bytes are read the rest of a read depends on them only through the classification.\<close>

definition after_read ::
    "(bytes \<Rightarrow> bytes) \<Rightarrow> file_reader \<Rightarrow> resolved_path \<Rightarrow> file_metadata \<Rightarrow> file_metadata fs_op" where
  "after_read sha rd r before =
     op_bind (lstat (rp_path r) (WIo ''stat'')) (\<lambda>m.
     op_bind (metadata_for_path sha (rp_path r) m (reader_hash_limit rd)) (\<lambda>after.
     op_bind (op_require (fm_revision before = fm_revision after) WChangedDuringRead) (\<lambda>_.
     op_bind (verify_resolved (rd_workspace rd) r (Some False)) (\<lambda>_. op_ok after))))"

lemma local_after_read [local_intro]: "local_op (after_read sha rd r before)"
  unfolding after_read_def by (intro local_intro)

lemma finish_read_Inr:
  "finish_read sha rd r before opened w t = (Inr c, t') \<longleftrightarrow>
     (\<exists>bs m. read_limited (sat_add (cp_max_bytes (rd_policy rd)) 1) opened = Inr bs
        \<and> after_read sha rd r before w t = (Inr m, t')
        \<and> c = classified (cp_max_bytes (rd_policy rd)) m bs)"
  unfolding finish_read_def after_read_def op_bind_Inr op_lift_Inr op_ok_Inr map_err_Inr by blast

text \<open>The file system at one call with other bytes behind every file that is opened then.\<close>

definition swapped_at :: "nat \<Rightarrow> bytes \<Rightarrow> world \<Rightarrow> world" where
  "swapped_at k data w = w(k := (w k)\<lparr>fs_open := \<lambda>_. Inr (data, None)\<rparr>)"

lemma local_swapped:
  "local_op m \<Longrightarrow> m w t = (r, e) \<Longrightarrow> k < t \<or> e \<le> k \<Longrightarrow> m (swapped_at k data w) t = (r, e)"
  by (rule local_agree) (auto simp: swapped_at_def)

text \<open>
  C12. A change that lasts for the opening call only is not noticed: whenever a file is read
  completely there is one call such that, with any other bytes up to the limit behind the path
  during that call alone, the read succeeds as well, with those bytes as the content and with the
  metadata, the digest included, of the file that was there before and after.
\<close>

theorem read_swap_unnoticed:
  assumes "file_read sha rd p w t = (Inr c, t')" and "\<not> fc_truncated c"
    and "length data \<le> cp_max_bytes (rd_policy rd)" and "cp_max_bytes (rd_policy rd) < usize_max"
  shows "\<exists>k. t \<le> k \<and> k < t' \<and>
    file_read sha rd p (swapped_at k data w) t
      = (Inr (classified (cp_max_bytes (rd_policy rd)) (fc_metadata c) data), t')"
proof -
  obtain r st before k where first: "before_read sha rd p w t = (Inr (r, st, before), k)"
    and rest: "read_opened sha rd r (st, before) w k = (Inr c, t')"
    using assms(1) by (auto simp: file_read_def op_bind_Inr)
  have small: "\<not> cp_max_bytes (rd_policy rd) < om_len st"
    using rest assms(2) by (auto simp: read_opened_def op_bind_Inr op_ok_Inr too_large_def)
  then obtain opened m bs where after: "after_read sha rd r before w (Suc k) = (Inr m, t')"
    and c: "c = classified (cp_max_bytes (rd_policy rd)) m bs"
    using rest by (auto simp: read_opened_def op_bind_Inr op_call_Inr finish_read_Inr)
  have m: "fc_metadata c = m"
    using c by (auto simp: classified_def too_large_def Let_def split: prod.splits)
  let ?w = "swapped_at k data w"
  have "before_read sha rd p ?w t = (Inr (r, st, before), k)"
    using local_swapped [OF local_before_read first] by blast
  moreover have "after_read sha rd r before ?w (Suc k) = (Inr m, t')"
    using local_swapped [OF local_after_read after] by blast
  moreover have "fs_open (?w k) (rp_path r) = Inr (data, None)" by (simp add: swapped_at_def)
  moreover have "read_limited (sat_add (cp_max_bytes (rd_policy rd)) 1) (data, None) = Inr data"
    using assms(3,4) by (simp add: read_limited_def sat_add_def)
  ultimately have "file_read sha rd p ?w t = (Inr (classified (cp_max_bytes (rd_policy rd)) m data), t')"
    using small by (auto simp: file_read_def op_bind_Inr read_opened_def op_call_Inr finish_read_Inr)
  moreover have "t \<le> k" by (rule local_mono [OF local_before_read first])
  moreover have "k < t'" using local_mono [OF local_after_read after] by simp
  ultimately show ?thesis using m by blast
qed

subsection \<open>A file left alone\<close>

lemma hash_loop_all:
  "length data < n \<Longrightarrow> hash_loop False n fed data None w t = (Inr (fed @ data), t)"
proof (induction "False" n fed data "None :: io_kind option" w t rule: hash_loop.induct)
  case (1 n fed data w t)
  let ?c = "take (min n hash_buffer) data"
  have n: "min n hash_buffer \<noteq> 0" using 1(2) by (simp add: hash_buffer_def)
  show ?case
  proof (cases "data = []")
    case True
    then show ?thesis using n by (simp add: hash_loop.simps [of False n fed "[]" None w t] Let_def)
  next
    case False
    have rest: "length (drop (min n hash_buffer) data) < n - length ?c"
      using 1(2) unfolding length_drop length_take by linarith
    have "hash_loop False n fed data None w t
        = hash_loop False (n - length ?c) (fed @ ?c) (drop (min n hash_buffer) data) None w t"
      using n False rest by (subst hash_loop.simps) (auto simp: Let_def)
    also have "\<dots> = (Inr ((fed @ ?c) @ drop (min n hash_buffer) data), t)"
    proof -
      have "n - length ?c \<noteq> 0" using rest by linarith
      moreover have "?c \<noteq> []" using False n by simp
      ultimately show ?thesis using 1(1) [OF _ refl refl n refl _ _ rest] by simp
    qed
    finally show ?thesis by simp
  qed
qed

lemma hash_file_all:
  assumes "fs_open (w t) p = Inr (data, None)" and "length data \<le> limit" and "limit < u64_max"
  shows "hash_file_until sha p limit False w t = (Inr (hex_lower (sha data)), Suc t)"
proof -
  have "checked_add64 limit 1 = Some (limit + 1)" using assms(3) by (simp add: checked_add64_Some)
  moreover have "hash_loop False (limit + 1) [] data None w (Suc t) = (Inr data, Suc t)"
    using hash_loop_all [of data "limit + 1" "[]" w "Suc t"] assms(2) by simp
  ultimately show ?thesis
    using assms(1) by (simp add: hash_file_until_def op_bind_def op_lift_def op_call_def op_ok_def)
qed

definition digest_within :: "(bytes \<Rightarrow> bytes) \<Rightarrow> nat \<Rightarrow> bytes \<Rightarrow> str option" where
  "digest_within sha limit data = (if length data \<le> limit then Some (hex_lower (sha data)) else None)"

lemma metadata_unchanged:
  assumes "fs_lstat fs p = Inr m" "om_kind m = NodeFile" "om_links m \<le> 1" "fs_identity fs p = Inr i"
    and "fs_open fs p = Inr (data, None)" "om_len m = length data" "limit < u64_max"
  shows "\<exists>k. metadata_for_path sha p m limit (\<lambda>_. fs) t = (Inr (metadata_of m (digest_within sha limit data)), k)"
proof -
  have digest: "\<exists>k. content_digest sha p m limit False (\<lambda>_. fs) j = (Inr (digest_within sha limit data), k)" for j
    using hash_file_all [of "\<lambda>_. fs" j p data limit sha] assms
    by (auto simp: content_digest_def digest_within_def entry_kind_of_def op_bind_def op_ok_def)
  have before: "identity_before p (entry_kind_of m) (\<lambda>_. fs) t = (Inr (Some i), Suc t)"
    using assms by (simp add: identity_before_def entry_kind_of_def op_bind_def op_ok_def
      physical_identity_def op_call_def)
  obtain k where "content_digest sha p m limit False (\<lambda>_. fs) (Suc t) = (Inr (digest_within sha limit data), k)"
    using digest by blast
  then show ?thesis
    using assms(1-4) before by (simp add: metadata_for_path_def metadata_for_path_with_deadline_def op_bind_def
      op_require_def op_lift_def op_call_def op_ok_def identity_changed_def require_def)
qed

lemma path_seen_static: "path_seen h r d (\<lambda>_. fs) j \<Longrightarrow> path_seen h r d (\<lambda>_. fs) k"
  by (simp add: path_seen_def root_seen_def component_seen_def Let_def)

text \<open>
  When the guard admits the path and the file holds \<open>data\<close>, within the limit, the reader returns
  the classification of all of it, with its size, and its digest when that is within its limit.
\<close>

lemma unchanged_file_read:
  assumes "resolve_guard (rd_workspace rd) p (Some False) (\<lambda>_. fs) t = (Inr r, t')"
    and "fs_lstat fs (rp_path r) = Inr m" and "om_kind m = NodeFile" and "om_len m = length data"
    and "fs_open fs (rp_path r) = Inr (data, None)"
    and "length data \<le> cp_max_bytes (rd_policy rd)" and "cp_max_bytes (rd_policy rd) < u64_max"
  shows "\<exists>k. file_read sha rd p (\<lambda>_. fs) t
    = (Inr (classified (cp_max_bytes (rd_policy rd))
        (metadata_of m (digest_within sha (reader_hash_limit rd) data)) data), k)"
proof -
  let ?f = "metadata_of m (digest_within sha (reader_hash_limit rd) data)"
  have seen: "path_seen (rd_workspace rd) r (Some False) (\<lambda>_. fs) j" for j
    using resolve_guard_Inr(3) [OF assms(1)] path_seen_static by blast
  have verify: "verify_resolved (rd_workspace rd) r (Some False) (\<lambda>_. fs) j = (Inr (), j + verify_calls r)" for j
    using seen by (simp add: verify_resolved_Inr)
  have "single_link m" "\<exists>i. fs_identity fs (rp_path r) = Inr i"
    using seen [of 0] assms(2) by (auto simp: path_seen_def Let_def)
  then obtain i where i: "om_links m \<le> 1" "fs_identity fs (rp_path r) = Inr i"
    using assms(3) by (auto simp: single_link_def)
  have limit: "reader_hash_limit rd < u64_max" using assms(7) by (simp add: reader_hash_limit_def min_def)
  note meta = metadata_unchanged [OF assms(2,3) i assms(5,4) limit, of sha]
  obtain k where "metadata_for_path sha (rp_path r) m (reader_hash_limit rd) (\<lambda>_. fs) (Suc (t' + verify_calls r)) = (Inr ?f, k)"
    using meta by blast
  then have before: "before_read sha rd p (\<lambda>_. fs) t = (Inr (r, m, ?f), k)"
    using assms(1,2) verify by (simp add: before_read_def op_bind_def op_call_def op_ok_def)
  obtain k' where "metadata_for_path sha (rp_path r) m (reader_hash_limit rd) (\<lambda>_. fs) (Suc (Suc k)) = (Inr ?f, k')"
    using meta by blast
  then have after: "after_read sha rd r ?f (\<lambda>_. fs) (Suc k) = (Inr ?f, k' + verify_calls r)"
    using assms(2) verify by (simp add: after_read_def op_bind_def op_call_def op_ok_def op_require_def op_lift_def)
  have "read_limited (sat_add (cp_max_bytes (rd_policy rd)) 1) (data, None) = Inr data"
    using assms(6,7) by (auto simp: read_limited_def sat_add_def u64_max_def usize_max_def)
  then show ?thesis
    using before after assms(4-6)
    by (auto simp: file_read_def op_bind_Inr read_opened_def op_call_Inr finish_read_Inr)
qed

text \<open>The reader of the sample workspace; a digest that is the bytes themselves.\<close>

definition sample_reader :: file_reader where
  "sample_reader = file_reader_new sample_handle default_content_policy"

definition sample_entry :: os_metadata where
  "sample_entry = \<lparr>om_kind = NodeFile, om_len = 1, om_modified = None, om_links = 1\<rparr>"

lemma sample_reader_policy:
  "rd_workspace sample_reader = sample_handle" "cp_max_bytes (rd_policy sample_reader) = 4194304"
  "reader_hash_limit sample_reader = 4194304"
  by (simp_all add: sample_reader_def file_reader_new_def default_content_policy_def reader_hash_limit_def Let_def)

lemma sample_read:
  "\<exists>k. file_read id sample_reader ''a'' (\<lambda>_. sample_file_system) 0
     = (Inr (classified 4194304 (metadata_of sample_entry (Some ''68'')) ''h''), k)"
proof -
  have digest: "hex_lower ''h'' = ''68''" by code_simp
  show ?thesis
    using unchanged_file_read [of sample_reader "''a''" sample_file_system 0 sample_resolved 16 sample_entry "''h''" id]
      sample_guard
    by (simp add: sample_reader_policy sample_resolved_def sample_file_system_def sample_entry_def u64_max_def
      digest_within_def digest)
qed

lemma decode_encoded_text:
  "list_all scalar cs \<Longrightarrow> encodable e cs \<Longrightarrow> decode_content (encode_text e cs) = (CkText, Some e, Some (utf8 cs))"
  by (cases e) (auto simp: decode_plain decode_marked decode_le decode_be decode_utf16_exact
    utf8_valid_exact list_all_iff)

text \<open>
  C14. A text file that nobody touches is read as its text: when the guard admits the path and the
  file holds a text in one of the four encodings, within the limit, the reader returns exactly that
  text with its encoding and its length, its size, and its digest when that is within its limit.
\<close>

theorem unchanged_text_read:
  assumes "resolve_guard (rd_workspace rd) p (Some False) (\<lambda>_. fs) t = (Inr r, t')"
    and "fs_lstat fs (rp_path r) = Inr m" and "om_kind m = NodeFile" and "om_len m = length (encode_text e cs)"
    and "fs_open fs (rp_path r) = Inr (encode_text e cs, None)" and "list_all scalar cs" and "encodable e cs"
    and "om_len m \<le> cp_max_bytes (rd_policy rd)" and "cp_max_bytes (rd_policy rd) < u64_max"
  shows "\<exists>k. file_read sha rd p (\<lambda>_. fs) t
    = (Inr \<lparr>fc_metadata = metadata_of m (digest_within sha (reader_hash_limit rd) (encode_text e cs)),
        fc_kind = CkText, fc_encoding = Some e, fc_text = Some (utf8 cs), fc_bytes_read = om_len m,
        fc_truncated = False\<rparr>, k)"
  using unchanged_file_read [OF assms(1-3) assms(4,5) _ assms(9), of sha] assms(4,8)
    decode_encoded_text [OF assms(6,7)] by (simp add: classified_def)

theorem unchanged_text_read_witness:
  "\<exists>k c. file_read id sample_reader ''a'' (\<lambda>_. sample_file_system) 0 = (Inr c, k)
     \<and> fc_text c = Some ''h'' \<and> fc_encoding c = Some TeUtf8"
proof -
  have h: "utf8 [104] = ''h''" by code_simp
  have cs: "utf8 [104] = ''h''" "list_all scalar [104]" "encodable TeUtf8 [104]"
    unfolding encodable.simps h by (simp_all add: scalar_def starts_with_iff_prefix bom_utf8_def)
  have guard: "resolve_guard (rd_workspace sample_reader) ''a'' (Some False) (\<lambda>_. sample_file_system) 0
      = (Inr sample_resolved, 16)" by (simp add: sample_reader_policy sample_guard)
  have opened: "fs_lstat sample_file_system (rp_path sample_resolved) = Inr sample_entry"
      "fs_open sample_file_system (rp_path sample_resolved) = Inr (encode_text TeUtf8 [104], None)"
    unfolding encode_text.simps cs(1)
    by (simp_all add: sample_resolved_def sample_file_system_def sample_entry_def)
  have entry: "om_kind sample_entry = NodeFile" "om_len sample_entry = length (encode_text TeUtf8 [104])"
      "om_len sample_entry \<le> cp_max_bytes (rd_policy sample_reader)"
    unfolding encode_text.simps cs(1) by (simp_all add: sample_entry_def sample_reader_policy)
  have limit: "cp_max_bytes (rd_policy sample_reader) < u64_max"
    by (simp add: sample_reader_policy u64_max_def)
  obtain k c where "file_read id sample_reader ''a'' (\<lambda>_. sample_file_system) 0 = (Inr c, k)"
      "fc_text c = Some (utf8 [104])" "fc_encoding c = Some TeUtf8"
    using unchanged_text_read [OF guard opened(1) entry(1,2) opened(2) cs(2,3) entry(3) limit, of id]
    by (auto elim!: exE)
  then show ?thesis unfolding cs(1) by blast
qed

theorem read_swap_unnoticed_witness:
  "\<exists>c k t'. file_read id sample_reader ''a'' (\<lambda>_. sample_file_system) 0 = (Inr c, t') \<and> fc_text c = Some ''h''
     \<and> file_read id sample_reader ''a'' (swapped_at k ''x'' (\<lambda>_. sample_file_system)) 0
         = (Inr (classified 4194304 (fc_metadata c) ''x''), t')"
proof -
  obtain c t' where read: "file_read id sample_reader ''a'' (\<lambda>_. sample_file_system) 0 = (Inr c, t')"
    and c: "c = classified 4194304 (metadata_of sample_entry (Some ''68'')) ''h''"
    using sample_read by blast
  have "decode_content ''h'' = (CkText, Some TeUtf8, Some ''h'')" by code_simp
  then have h: "fc_text c = Some ''h''" "\<not> fc_truncated c" by (simp_all add: c classified_def)
  have "length ''x'' \<le> cp_max_bytes (rd_policy sample_reader)"
      "cp_max_bytes (rd_policy sample_reader) < usize_max"
    by (simp_all add: sample_reader_policy usize_max_def)
  from read_swap_unnoticed [OF read h(2) this] show ?thesis
    unfolding sample_reader_policy using read h(1) by blast
qed

end
