(* ===== verification/Ja_Tree_Safety.thy ===== *)
theory Ja_Tree_Safety
  imports Ja_Tree Ja_Content_Safety
begin

text \<open>
  Following the cursors of a directory that nobody changes lists every entry once, in order. An
  operation over a file system at rest has one result, whenever it starts.
\<close>

subsection \<open>Operations over a file system at rest\<close>

definition gives :: "('e, 'a) os_op \<Rightarrow> file_system \<Rightarrow> 'a \<Rightarrow> bool" where
  "gives m fs x \<longleftrightarrow> (\<exists>k. m (\<lambda>_. fs) 0 = (Inr x, k))"

named_theorems gives_simps

lemma gives_at: "local_op m \<Longrightarrow> m (\<lambda>_. fs) t = (Inr x, k) \<Longrightarrow> gives m fs x"
  unfolding gives_def by (rule local_timeless)

lemma gives_run: "local_op m \<Longrightarrow> gives m fs x \<Longrightarrow> \<exists>k. m (\<lambda>_. fs) t = (Inr x, k)"
  unfolding gives_def using local_timeless by fast

lemma gives_unique: "gives m fs x \<Longrightarrow> gives m fs y \<Longrightarrow> x = y"
  by (auto simp: gives_def)

lemma gives_bind:
  assumes "\<And>x. local_op (f x)"
  shows "gives (op_bind m f) fs y \<longleftrightarrow> (\<exists>x. gives m fs x \<and> gives (f x) fs y)"
proof
  assume "gives (op_bind m f) fs y"
  then obtain x k j where "m (\<lambda>_. fs) 0 = (Inr x, k)" "f x (\<lambda>_. fs) k = (Inr y, j)"
    by (auto simp: gives_def op_bind_Inr)
  then show "\<exists>x. gives m fs x \<and> gives (f x) fs y" using gives_at [OF assms] by (auto simp: gives_def)
next
  assume "\<exists>x. gives m fs x \<and> gives (f x) fs y"
  then obtain x k where "m (\<lambda>_. fs) 0 = (Inr x, k)" "gives (f x) fs y" by (auto simp: gives_def)
  then show "gives (op_bind m f) fs y" using gives_run [OF assms] by (fastforce simp: gives_def op_bind_Inr)
qed

lemma gives_ok [gives_simps]: "gives (op_ok x) fs y \<longleftrightarrow> y = x"
  by (auto simp: gives_def op_ok_def)

lemma gives_lift [gives_simps]: "gives (op_lift r) fs y \<longleftrightarrow> r = Inr y"
  by (auto simp: gives_def op_lift_def)

lemma gives_require [gives_simps]: "gives (op_require b e) fs y \<longleftrightarrow> b"
  by (auto simp: gives_def op_require_Inr)

lemma gives_call [gives_simps]: "gives (op_call f h) fs y \<longleftrightarrow> f fs = Inr y"
  by (auto simp: gives_def op_call_Inr)

subsection \<open>The parts of a page are local\<close>

lemma local_expired [local_intro]: "local_op expired"
  unfolding local_op_def expired_def by (intro allI exI [of _ 1]) simp

lemma local_deadline [local_intro]: "local_op check_deadline"
  unfolding check_deadline_def by (intro local_intro)

lemma local_scan [local_intro]: "local_op (scan_entries p dir es acc n)"
  by (induction es arbitrary: acc n) (auto intro!: local_intro)

lemma local_token [local_intro]: "local_op (token_bytes sha n es)"
  by (induction es) (auto intro!: local_intro)

lemma local_entries [local_intro]: "local_op (page_entries sha p parent d es)"
  by (induction es) (auto intro!: local_intro)

lemma local_listing [local_intro]: "local_op (listing p dir)"
  unfolding listing_def by (intro local_intro)

lemma local_snapshot [local_intro]: "local_op (snapshot_of sha rd r)"
  unfolding snapshot_of_def by (intro local_intro)

lemma local_slice [local_intro]: "local_op (page_slice sha rd q r s x)"
  unfolding page_slice_def Let_def by (intro local_intro)

lemma local_page [local_intro]: "local_op (read_page sha rd q)"
  unfolding read_page_def by (intro local_intro)

subsection \<open>What a page holds\<close>

lemma gives_scan:
  "gives (scan_entries p dir es acc n) fs xs \<Longrightarrow>
     \<exists>ys. xs = acc @ ys \<and> es = map (Inr \<circ> fst) ys"
proof (induction es arbitrary: acc n)
  case Nil
  then show ?case by (simp add: gives_ok)
next
  case (Cons e es)
  obtain name m n' where e: "entry_name e = Inr name"
    and rest: "gives (scan_entries p dir es (acc @ [(name, path_join dir name, m)]) n') fs xs"
    using Cons.prems by (fastforce simp: gives_bind local_intro gives_simps)
  obtain ys where "xs = (acc @ [(name, path_join dir name, m)]) @ ys" "es = map (Inr \<circ> fst) ys"
    using Cons.IH [OF rest] by blast
  moreover have "e = Inr name" using e by (auto simp: entry_name_def split: sum.splits if_splits)
  ultimately show ?case by (intro exI [of _ "(name, path_join dir name, m) # ys"]) simp
qed

definition entry_of ::
    "(bytes \<Rightarrow> bytes) \<Rightarrow> tree_policy \<Rightarrow> str \<Rightarrow> nat \<Rightarrow> file_system \<Rightarrow> scanned \<Rightarrow> tree_entry \<Rightarrow> bool" where
  "entry_of sha p parent depth fs x e \<longleftrightarrow>
     (case x of (name, path, m) \<Rightarrow>
        \<exists>f. gives (metadata_for_path_with_deadline sha path m (tp_hash_limit p) True) fs f
          \<and> e = \<lparr>te_name = name, te_relative_path = join_relative parent name, te_metadata = f,
                te_can_expand = (entry_kind_of m = EkDirectory \<and> sat_add depth 1 < tp_max_depth p)\<rparr>)"

lemma entry_of_simp:
  "entry_of sha p parent depth fs (name, path, m) e \<longleftrightarrow>
     (\<exists>f. gives (metadata_for_path_with_deadline sha path m (tp_hash_limit p) True) fs f
        \<and> e = \<lparr>te_name = name, te_relative_path = join_relative parent name, te_metadata = f,
              te_can_expand = (entry_kind_of m = EkDirectory \<and> sat_add depth 1 < tp_max_depth p)\<rparr>)"
  by (simp add: entry_of_def)

lemma gives_entries:
  "gives (page_entries sha p parent depth xs) fs es \<longleftrightarrow> list_all2 (entry_of sha p parent depth fs) xs es"
proof (induction xs arbitrary: es)
  case (Cons x xs)
  obtain name path m where x: "x = (name, path, m)" by (cases x)
  show ?case unfolding x page_entries.simps list_all2_Cons1
    by (auto simp: gives_bind local_intro gives_simps entry_of_simp Cons.IH)
qed (auto simp: gives_ok)

lemma token_entries:
  "gives (token_bytes sha (tp_hash_limit p) xs) fs bs \<Longrightarrow>
     \<exists>es. list_all2 (entry_of sha p parent depth fs) xs es"
proof (induction xs arbitrary: bs)
  case (Cons x xs)
  obtain name path m where x: "x = (name, path, m)" by (cases x)
  obtain f rest where "gives (metadata_for_path_with_deadline sha path m (tp_hash_limit p) True) fs f"
      "gives (token_bytes sha (tp_hash_limit p) xs) fs rest"
    using Cons.prems by (auto simp: x gives_bind local_intro gives_simps)
  then obtain e es where "entry_of sha p parent depth fs x e" "list_all2 (entry_of sha p parent depth fs) xs es"
    using Cons.IH unfolding x entry_of_simp by blast
  then show ?case by (intro exI [of _ "e # es"]) simp
next
  case Nil
  show ?case by (intro exI [of _ "[]"]) simp
qed

text \<open>The page of a request over the listing \<open>all\<close> with its token.\<close>

definition page_of :: "tree_reader \<Rightarrow> tree_page_request \<Rightarrow> nat \<Rightarrow> tree_entry list \<Rightarrow> str \<Rightarrow> tree_page" where
  "page_of rd q start all token =
     (let end_index = min (sat_add start (page_size (tr_policy rd) q)) (length all)
      in \<lparr>tg_entries = take (page_size (tr_policy rd) q) (drop start all),
          tg_next_cursor = (if end_index < length all then Some (show_nat end_index) else None),
          tg_snapshot_token = token, tg_total_entries = length all,
          tg_depth = relative_depth (tq_relative_path q)\<rparr>)"

definition token_fits :: "tree_page_request \<Rightarrow> str \<Rightarrow> bool" where
  "token_fits q token \<longleftrightarrow> (case tq_snapshot_token q of None \<Rightarrow> True | Some s \<Rightarrow> s = token)"

text \<open>A directory at rest: its listing and token do not depend on the request's cursor.\<close>

definition at_rest ::
    "(bytes \<Rightarrow> bytes) \<Rightarrow> tree_reader \<Rightarrow> file_system \<Rightarrow> str \<Rightarrow> tree_entry list \<Rightarrow> str \<Rightarrow> bool" where
  "at_rest sha rd fs p all token \<longleftrightarrow>
     (\<exists>r xs. gives (resolve_guard (tr_workspace rd) p (Some True)) fs r
        \<and> gives (verify_resolved (tr_workspace rd) r (Some True)) fs ()
        \<and> \<not> tp_max_depth (tr_policy rd) < relative_depth p
        \<and> gives (snapshot_of sha rd r) fs (xs, token)
        \<and> list_all2 (entry_of sha (tr_policy rd) p (relative_depth p) fs) xs all)"

lemma at_rest_page:
  assumes "at_rest sha rd fs (tq_relative_path q) all token"
    and "page_start q = Inr start" and "token_fits q token" and "tq_cursor q \<noteq> None \<longrightarrow> tq_snapshot_token q \<noteq> None"
  shows "gives (read_page sha rd q) fs (page_of rd q start all token)"
proof -
  obtain r xs where r: "gives (resolve_guard (tr_workspace rd) (tq_relative_path q) (Some True)) fs r"
      "gives (verify_resolved (tr_workspace rd) r (Some True)) fs ()"
      "\<not> tp_max_depth (tr_policy rd) < relative_depth (tq_relative_path q)"
      "gives (snapshot_of sha rd r) fs (xs, token)"
    and all: "list_all2 (entry_of sha (tr_policy rd) (tq_relative_path q) (relative_depth (tq_relative_path q)) fs) xs all"
    using assms(1) by (auto simp: at_rest_def)
  let ?n = "page_size (tr_policy rd) q"
  have part: "gives (page_entries sha (tr_policy rd) (tq_relative_path q) (relative_depth (tq_relative_path q))
      (take ?n (drop start xs))) fs (take ?n (drop start all))"
    unfolding gives_entries using all by (simp add: list_all2_takeI list_all2_dropI)
  have len: "length xs = length all" using all by (rule list_all2_lengthD)
  have slice: "gives (page_slice sha rd q r start (xs, token)) fs (page_of rd q start all token)"
    unfolding page_slice_def Let_def prod.case
    using part r(2) assms(3) by (auto simp: gives_bind local_intro gives_simps token_fits_def page_of_def len Let_def)
  then show ?thesis unfolding read_page_def
    using r slice assms(2,4) by (auto simp: gives_bind local_intro gives_simps) blast+
qed

lemma page_at_rest:
  assumes "gives (read_page sha rd q) fs P"
  shows "\<exists>all start. at_rest sha rd fs (tq_relative_path q) all (tg_snapshot_token P)
    \<and> page_start q = Inr start \<and> token_fits q (tg_snapshot_token P) \<and> tg_total_entries P = length all
    \<and> P = page_of rd q start all (tg_snapshot_token P)"
proof -
  obtain r start xs token where r: "gives (resolve_guard (tr_workspace rd) (tq_relative_path q) (Some True)) fs r"
      "gives (verify_resolved (tr_workspace rd) r (Some True)) fs ()"
      "\<not> tp_max_depth (tr_policy rd) < relative_depth (tq_relative_path q)"
      "gives (snapshot_of sha rd r) fs (xs, token)" "page_start q = Inr start"
      "\<not> (tq_cursor q \<noteq> None \<and> tq_snapshot_token q = None)"
    and slice: "gives (page_slice sha rd q r start (xs, token)) fs P"
    using assms unfolding read_page_def by (auto simp: gives_bind local_intro gives_simps)
  have token: "token_fits q token" "tg_snapshot_token P = token"
    using slice unfolding page_slice_def Let_def prod.case
    by (auto simp: gives_bind local_intro gives_simps token_fits_def)
  obtain bs where "gives (token_bytes sha (tp_hash_limit (tr_policy rd)) xs) fs bs"
    using r(4) unfolding snapshot_of_def by (auto simp: gives_bind local_intro gives_simps)
  then obtain all where "list_all2 (entry_of sha (tr_policy rd) (tq_relative_path q)
      (relative_depth (tq_relative_path q)) fs) xs all"
    using token_entries by blast
  then have rest: "at_rest sha rd fs (tq_relative_path q) all token"
    using r by (auto simp: at_rest_def)
  have "gives (read_page sha rd q) fs (page_of rd q start all token)"
    by (rule at_rest_page [OF rest r(5) token(1)]) (use r(6) in auto)
  from gives_unique [OF assms this] show ?thesis using rest r(5) token by (auto simp: page_of_def Let_def)
qed

subsection \<open>Following the cursors\<close>

text \<open>A client that asks for page after page, with the cursor and the token of the page before.\<close>

definition next_request :: "tree_page_request \<Rightarrow> tree_page \<Rightarrow> tree_page_request" where
  "next_request q P = q\<lparr>tq_cursor := tg_next_cursor P, tq_snapshot_token := Some (tg_snapshot_token P)\<rparr>"

fun read_pages :: "(bytes \<Rightarrow> bytes) \<Rightarrow> tree_reader \<Rightarrow> nat \<Rightarrow> tree_page_request \<Rightarrow> tree_page list fs_op" where
  "read_pages sha rd 0 q = op_ok []"
| "read_pages sha rd (Suc n) q =
     op_bind (read_page sha rd q) (\<lambda>P.
     case tg_next_cursor P of
       None \<Rightarrow> op_ok [P]
     | Some _ \<Rightarrow> op_bind (read_pages sha rd n (next_request q P)) (\<lambda>Ps. op_ok (P # Ps)))"

lemma local_pages [local_intro]: "local_op (read_pages sha rd n q)"
  by (induction n arbitrary: q) (auto intro!: local_intro)

lemma pages_one:
  "gives (read_page sha rd q) fs P \<Longrightarrow> tg_next_cursor P = None \<Longrightarrow> gives (read_pages sha rd (Suc n) q) fs [P]"
  by (subst read_pages.simps, subst gives_bind) (auto intro!: local_intro exI [of _ P] simp: gives_ok)

lemma pages_more:
  "gives (read_page sha rd q) fs P \<Longrightarrow> tg_next_cursor P = Some c \<Longrightarrow>
     gives (read_pages sha rd n (next_request q P)) fs Ps \<Longrightarrow> gives (read_pages sha rd (Suc n) q) fs (P # Ps)"
  by (subst read_pages.simps, subst gives_bind)
    (auto intro!: local_intro exI [of _ P] simp: gives_ok gives_bind local_ok)

lemma parse_show: "n \<le> usize_max \<Longrightarrow> parse_usize (show_nat n) = Some n"
proof -
  assume n: "n \<le> usize_max"
  have digits: "list_all is_ascii_digit (show_nat n)" using show_nat_digits by (simp add: list_all_iff)
  have "\<not> is_ascii_digit (CHR ''+'')" by (simp add: byte_defs)
  then have "(case show_nat n of c # r \<Rightarrow> if c = CHR ''+'' then r else show_nat n | [] \<Rightarrow> show_nat n) = show_nat n"
    using digits by (auto split: list.splits)
  then show ?thesis using digits n by (simp add: parse_usize_def)
qed

lemma page_size_positive: "1 \<le> tp_max_page_size p \<Longrightarrow> 1 \<le> page_size p q"
  by (auto simp: page_size_def clamp_def)

lemma gives_pages:
  assumes "at_rest sha rd fs (tq_relative_path q) all token" and "page_start q = Inr start"
    and "token_fits q token" and "tq_cursor q \<noteq> None \<longrightarrow> tq_snapshot_token q \<noteq> None"
    and "1 \<le> tp_max_page_size (tr_policy rd)" and "length all \<le> usize_max" and "length all - start \<le> n"
  shows "\<exists>Ps. gives (read_pages sha rd (Suc n) q) fs Ps \<and> Ps \<noteq> [] \<and> tg_next_cursor (last Ps) = None
    \<and> concat (map tg_entries Ps) = drop start all \<and> (\<forall>P \<in> set Ps. tg_total_entries P = length all)"
  using assms
proof (induction n arbitrary: q start)
  case (0 q start)
  let ?P = "page_of rd q start all token"
  have one: "?P = page_of rd q start all token" "tg_next_cursor ?P = None" "tg_entries ?P = drop start all"
    using 0(6,7) by (simp_all add: page_of_def Let_def sat_add_def)
  have "gives (read_pages sha rd (Suc 0) q) fs [?P]"
    by (rule pages_one [OF at_rest_page [OF 0(1-4)] one(2)])
  then show ?case using one by (intro exI [of _ "[?P]"]) (simp add: page_of_def Let_def)
next
  case (Suc n q start)
  let ?P = "page_of rd q start all token" and ?size = "page_size (tr_policy rd) q"
  note here = at_rest_page [OF Suc.prems(1-4)]
  have size: "1 \<le> ?size" by (rule page_size_positive [OF Suc.prems(5)])
  show ?case
  proof (cases "start + ?size < length all")
    case False
    have one: "tg_next_cursor ?P = None" "tg_entries ?P = drop start all"
      using False Suc.prems(6) by (simp_all add: page_of_def Let_def sat_add_def)
    have "gives (read_pages sha rd (Suc (Suc n)) q) fs [?P]"
      by (rule pages_one [OF here one(1)])
    then show ?thesis using one by (intro exI [of _ "[?P]"]) (simp add: page_of_def Let_def)
  next
    case True
    have more: "tg_next_cursor ?P = Some (show_nat (start + ?size))" "tg_entries ?P = take ?size (drop start all)"
      using True Suc.prems(6) by (simp_all add: page_of_def Let_def sat_add_def)
    let ?q = "next_request q ?P"
    have q: "tq_relative_path ?q = tq_relative_path q" "page_start ?q = Inr (start + ?size)"
        "token_fits ?q token" "tq_cursor ?q \<noteq> None \<longrightarrow> tq_snapshot_token ?q \<noteq> None"
      using True Suc.prems(6)
      by (simp_all add: next_request_def more page_start_def parse_show token_fits_def) (simp_all add: page_of_def Let_def)
    obtain Ps where Ps: "gives (read_pages sha rd (Suc n) ?q) fs Ps" "Ps \<noteq> []" "tg_next_cursor (last Ps) = None"
        "concat (map tg_entries Ps) = drop (start + ?size) all" "\<forall>P \<in> set Ps. tg_total_entries P = length all"
    proof -
      have "at_rest sha rd fs (tq_relative_path ?q) all token" using Suc.prems(1) q(1) by simp
      moreover have "length all - (start + ?size) \<le> n" using Suc.prems(7) size by linarith
      ultimately show ?thesis using Suc.IH [OF _ q(2-4) Suc.prems(5,6)] that by blast
    qed
    have "gives (read_pages sha rd (Suc (Suc n)) q) fs (?P # Ps)"
      by (rule pages_more [OF here more(1) Ps(1)])
    moreover have "concat (map tg_entries (?P # Ps)) = drop start all"
      using Ps(4) more(2) append_take_drop_id [of ?size "drop start all"] by (simp add: add.commute)
    ultimately show ?thesis using Ps(2,3,5)
      by (intro exI [of _ "?P # Ps"]) (simp add: page_of_def Let_def)
  qed
qed

lemma entry_names: "list_all2 (entry_of sha p parent d fs) xs es \<Longrightarrow> map te_name es = map fst xs"
  by (induction rule: list_all2_induct) (auto simp: entry_of_def)

lemma map_insort_key: "map f (insort_key f x xs) = insort (f x) (map f xs)"
  by (induction xs) auto

lemma map_sort_key: "map f (sort_key f xs) = sort (map f xs)"
  by (induction xs) (simp_all add: map_insort_key)

lemma at_rest_names:
  assumes "at_rest sha rd fs p all token"
  shows "\<exists>r names. gives (resolve_guard (tr_workspace rd) p (Some True)) fs r
    \<and> fs_read_dir fs (rp_path r) = Inr (map Inr names) \<and> map te_name all = sort names"
proof -
  obtain r xs where r: "gives (resolve_guard (tr_workspace rd) p (Some True)) fs r"
      "gives (snapshot_of sha rd r) fs (xs, token)"
    and all: "map te_name all = map fst xs"
    using assms entry_names by (fastforce simp: at_rest_def)
  obtain es ys where es: "fs_read_dir fs (rp_path r) = Inr es"
      "gives (scan_entries (tr_policy rd) (rp_path r) es [] 0) fs ys" "xs = sort_key fst ys"
    using r(2) by (auto simp: snapshot_of_def listing_def gives_bind local_intro gives_simps)
  have names: "es = map Inr (map fst ys)" using gives_scan [OF es(2)] by auto
  have "map fst (sort_key fst ys) = sort (map fst ys)"
    by (rule map_sort_key)
  then show ?thesis using r(1) es(1,3) names all
    by (intro exI [of _ r] exI [of _ "map fst ys"]) simp
qed

text \<open>
  C15. Following the cursors of a directory at rest lists it exactly: when the first page is read,
  the requests built from each page's cursor and token all succeed, end with a page without a
  cursor after at most as many pages as there are entries and one more, report the same total,
  and their entries, in order, are the names the operating system gave, each as often as it gave
  it and sorted.
\<close>

theorem cursors_list_all:
  assumes "read_page sha rd q (\<lambda>_. fs) t = (Inr P, t')" and "tq_cursor q = None"
    and "1 \<le> tp_max_page_size (tr_policy rd)" and "tg_total_entries P \<le> usize_max"
  shows "\<exists>Ps k r k' names. read_pages sha rd (Suc (tg_total_entries P)) q (\<lambda>_. fs) t = (Inr Ps, k)
    \<and> tg_next_cursor (last Ps) = None
    \<and> resolve_guard (tr_workspace rd) (tq_relative_path q) (Some True) (\<lambda>_. fs) t = (Inr r, k')
    \<and> fs_read_dir fs (rp_path r) = Inr (map Inr names)
    \<and> map te_name (concat (map tg_entries Ps)) = sort names
    \<and> list_all (\<lambda>P'. tg_total_entries P' = length names) Ps"
proof -
  have P: "gives (read_page sha rd q) fs P" by (rule gives_at [OF local_page assms(1)])
  obtain all start where rest: "at_rest sha rd fs (tq_relative_path q) all (tg_snapshot_token P)"
      "page_start q = Inr start" "token_fits q (tg_snapshot_token P)" "tg_total_entries P = length all"
    using page_at_rest [OF P] by blast
  have start: "start = 0" using rest(2) assms(2) by (simp add: page_start_def parse_usize_def byte_defs decimal_value_def)
  have total: "length all \<le> usize_max" "length all - start \<le> length all" using rest(4) assms(4) by simp_all
  obtain Ps where Ps: "gives (read_pages sha rd (Suc (length all)) q) fs Ps" "tg_next_cursor (last Ps) = None"
      "concat (map tg_entries Ps) = all" "\<forall>P \<in> set Ps. tg_total_entries P = length all"
    using gives_pages [OF rest(1-3) _ assms(3) total] assms(2) start by auto
  obtain r names where r: "gives (resolve_guard (tr_workspace rd) (tq_relative_path q) (Some True)) fs r"
      "fs_read_dir fs (rp_path r) = Inr (map Inr names)" "map te_name all = sort names"
    using at_rest_names [OF rest(1)] by blast
  have "length all = length names" using r(3) by (metis length_map length_sort)
  then have "list_all (\<lambda>P'. tg_total_entries P' = length names) Ps" using Ps(4) by (simp add: list_all_iff)
  moreover obtain k where "read_pages sha rd (Suc (tg_total_entries P)) q (\<lambda>_. fs) t = (Inr Ps, k)"
    using gives_run [OF local_pages Ps(1)] rest(4) by metis
  moreover obtain k' where "resolve_guard (tr_workspace rd) (tq_relative_path q) (Some True) (\<lambda>_. fs) t = (Inr r, k')"
    using gives_run [OF local_guard r(1)] by metis
  ultimately show ?thesis using Ps(2,3) r(2,3) by blast
qed

lemma gives_directory:
  assumes "fs_lstat fs p = Inr m" "om_kind m = NodeDir" "fs_identity fs p = Inr i"
  shows "gives (metadata_for_path_with_deadline sha p m limit dl) fs (metadata_of m None)"
  using assms by (simp add: gives_def metadata_for_path_with_deadline_def entry_kind_of_def identity_before_def
    content_digest_def identity_changed_def physical_identity_def op_bind_def op_ok_def op_require_def
    op_lift_def op_call_def)

lemma gives_bindI: "gives m fs x \<Longrightarrow> gives (f x) fs y \<Longrightarrow> (\<And>x. local_op (f x)) \<Longrightarrow> gives (op_bind m f) fs y"
  by (subst gives_bind) blast+

lemma gives_okI: "gives (op_ok x) fs x"
  by (simp add: gives_ok)

lemma gives_token_step:
  "gives (metadata_for_path_with_deadline sha path m n True) fs f \<Longrightarrow> gives (token_bytes sha n es) fs rest \<Longrightarrow>
     gives (token_bytes sha n ((name, path, m) # es)) fs (token_line name f @ rest)"
  by (auto simp: gives_bind local_intro gives_ok)

lemma gives_scan_step:
  assumes "\<not> fs_late fs" "entry_name e = Inr name" "fs_lstat fs (path_join dir name) = Inr m"
    and "length acc < tp_max_entries p" "sat_add (sat_add n (om_len m)) (length name) \<le> tp_max_total_bytes p"
    and "gives (scan_entries p dir es (acc @ [(name, path_join dir name, m)]) (sat_add (sat_add n (om_len m)) (length name))) fs xs"
  shows "gives (scan_entries p dir (e # es) acc n) fs xs"
proof -
  have clock: "gives check_deadline fs ()"
    using assms(1) by (simp add: gives_def check_deadline_def expired_def op_bind_def op_require_def op_lift_def)
  show ?thesis unfolding scan_entries.simps
    using assms(4,5,6) by (intro gives_bindI [OF clock] gives_bindI [where x = name] gives_bindI [where x = m] local_intro
      gives_bindI [where x = "()"]) (simp_all add: gives_lift gives_call gives_require assms(2,3))
qed

text \<open>A root with two directories, listed out of order, read in pages of one entry.\<close>

definition two_directories :: file_system where
  "two_directories = \<lparr>
     fs_lstat = (\<lambda>p. Inr \<lparr>om_kind = NodeDir, om_len = 0, om_modified = None, om_links = 2\<rparr>),
     fs_identity = (\<lambda>p. if p = ''/r'' then Inr \<lparr>fi_volume = 1, fi_file = 2\<rparr> else Inr \<lparr>fi_volume = 1, fi_file = 3\<rparr>),
     fs_canonicalize = (\<lambda>p. Inr p), fs_open = (\<lambda>_. Inl IoNotFound),
     fs_read_dir = (\<lambda>p. Inr [Inr ''b'', Inr ''a'']), fs_late = False\<rparr>"

definition small_tree :: tree_reader where
  "small_tree = tree_reader_new sample_handle (default_tree_policy\<lparr>tp_max_page_size := 1\<rparr>)"

definition root_request :: tree_page_request where
  "root_request = \<lparr>tq_relative_path = [], tq_cursor = None, tq_page_size = None, tq_snapshot_token = None\<rparr>"

definition sample_root :: resolved_path where
  "sample_root = \<lparr>rp_path = ''/r'', rp_components = [], rp_final_identity = \<lparr>fi_volume = 1, fi_file = 2\<rparr>\<rparr>"

lemma sample_root_guard:
  "gives (resolve_guard sample_handle [] (Some True)) two_directories sample_root"
  "gives (verify_resolved sample_handle sample_root (Some True)) two_directories ()"
  unfolding gives_def by (rule exI [of _ 12] exI [of _ 7], code_simp)+

definition sample_child :: os_metadata where
  "sample_child = \<lparr>om_kind = NodeDir, om_len = 0, om_modified = None, om_links = 2\<rparr>"

lemma sample_listing:
  "gives (listing (tr_policy small_tree) ''/r'') two_directories
     [(''a'', ''/r/a'', sample_child), (''b'', ''/r/b'', sample_child)]"
proof -
  have less: "''a'' < ''b''" by code_simp
  have paths: "path_join ''/r'' ''a'' = ''/r/a''" "path_join ''/r'' ''b'' = ''/r/b''" by code_simp+
  have names: "entry_name (Inr ''a'') = Inr ''a''" "entry_name (Inr ''b'') = Inr ''b''" by code_simp+
  have call: "fs_lstat two_directories = (\<lambda>p. Inr sample_child)" "fs_read_dir two_directories = (\<lambda>p. Inr [Inr ''b'', Inr ''a''])"
      "\<not> fs_late two_directories" by (simp_all add: two_directories_def sample_child_def)
  have limits: "tp_max_entries (tr_policy small_tree) = 100000" "tp_max_total_bytes (tr_policy small_tree) = 268435456"
    by (simp_all add: small_tree_def tree_reader_new_def default_tree_policy_def clamp_def)
  have used: "sat_add (sat_add 0 (om_len sample_child)) (Suc 0) = Suc 0"
      "sat_add (sat_add (Suc 0) (om_len sample_child)) (Suc 0) = 2"
    by (simp_all add: sat_add_def usize_max_def sample_child_def)
  let ?acc = "[(''b'', path_join ''/r'' ''b'', sample_child)]"
  have "gives (scan_entries (tr_policy small_tree) ''/r'' [Inr ''a''] ?acc (Suc 0)) two_directories
      (?acc @ [(''a'', path_join ''/r'' ''a'', sample_child)])"
    by (rule gives_scan_step [where m = sample_child, OF call(3) names(1)]) (simp_all add: call limits used gives_ok)
  then have scan: "gives (scan_entries (tr_policy small_tree) ''/r'' [Inr ''b'', Inr ''a''] [] 0) two_directories
      (?acc @ [(''a'', path_join ''/r'' ''a'', sample_child)])"
    by (intro gives_scan_step [where m = sample_child, OF call(3) names(2)]) (simp_all add: call limits used del: scan_entries.simps)
  have "gives (op_call (\<lambda>fs. fs_read_dir fs ''/r'') (WIo ''read_dir'')) two_directories [Inr ''b'', Inr ''a'']"
    by (simp add: gives_call call)
  then have "gives (listing (tr_policy small_tree) ''/r'') two_directories
      (sort_key fst (?acc @ [(''a'', path_join ''/r'' ''a'', sample_child)]))"
    unfolding listing_def by (rule gives_bindI) (intro gives_bindI [OF scan] gives_okI local_intro)+
  then show ?thesis using less by (simp add: paths)
qed

lemma sample_at_rest: "\<exists>token. at_rest id small_tree two_directories [] 
   [\<lparr>te_name = ''a'', te_relative_path = ''a'', te_metadata = metadata_of sample_child None, te_can_expand = True\<rparr>,
    \<lparr>te_name = ''b'', te_relative_path = ''b'', te_metadata = metadata_of sample_child None, te_can_expand = True\<rparr>] token"
proof -
  have depth: "relative_depth [] = 0" by code_simp
  have meta: "gives (metadata_for_path_with_deadline id p sample_child n True) two_directories (metadata_of sample_child None)" for p n
    by (rule gives_directory [where i = "if p = ''/r'' then \<lparr>fi_volume = 1, fi_file = 2\<rparr> else \<lparr>fi_volume = 1, fi_file = 3\<rparr>"])
      (simp_all add: two_directories_def sample_child_def)
  have policy: "tr_workspace small_tree = sample_handle" "tp_max_depth (tr_policy small_tree) = 64"
    by (simp_all add: small_tree_def tree_reader_new_def default_tree_policy_def)
  have root: "rp_path sample_root = ''/r''" by (simp add: sample_root_def)
  let ?xs = "[(''a'', ''/r/a'', sample_child), (''b'', ''/r/b'', sample_child)]"
  have "gives (token_bytes id n []) two_directories []" for n by (simp add: gives_ok)
  then have "\<exists>bs. gives (token_bytes id (tp_hash_limit (tr_policy small_tree)) ?xs) two_directories bs"
    using gives_token_step [OF meta gives_token_step [OF meta]] by blast
  then obtain bs where bs: "gives (token_bytes id (tp_hash_limit (tr_policy small_tree)) ?xs) two_directories bs" by blast
  have "gives (snapshot_of id small_tree sample_root) two_directories (?xs, hex_lower (id bs))"
    unfolding snapshot_of_def root policy
    by (intro gives_bindI [OF sample_listing] gives_bindI [OF bs] gives_bindI [OF sample_root_guard(2)] gives_okI local_intro)
  moreover have "list_all2 (entry_of id (tr_policy small_tree) [] 0 two_directories) ?xs
   [\<lparr>te_name = ''a'', te_relative_path = ''a'', te_metadata = metadata_of sample_child None, te_can_expand = True\<rparr>,
    \<lparr>te_name = ''b'', te_relative_path = ''b'', te_metadata = metadata_of sample_child None, te_can_expand = True\<rparr>]"
    using meta by (auto 0 3 simp: entry_of_simp join_relative_def policy sat_add_def usize_max_def entry_kind_of_def sample_child_def)
  ultimately have "at_rest id small_tree two_directories []
   [\<lparr>te_name = ''a'', te_relative_path = ''a'', te_metadata = metadata_of sample_child None, te_can_expand = True\<rparr>,
    \<lparr>te_name = ''b'', te_relative_path = ''b'', te_metadata = metadata_of sample_child None, te_can_expand = True\<rparr>]
   (hex_lower (id bs))"
    unfolding at_rest_def depth policy using sample_root_guard
    by (intro exI [of _ sample_root] exI [of _ ?xs]) simp
  then show ?thesis by blast
qed

theorem cursors_list_all_witness:
  "\<exists>Ps k. read_pages id small_tree 3 root_request (\<lambda>_. two_directories) 0 = (Inr Ps, k)
     \<and> tg_next_cursor (last Ps) = None \<and> map te_name (concat (map tg_entries Ps)) = [''a'', ''b'']"
proof -
  obtain all token where rest: "at_rest id small_tree two_directories (tq_relative_path root_request) all token"
    and all: "map te_name all = [''a'', ''b'']"
    using sample_at_rest by (fastforce simp: root_request_def)
  let ?P = "page_of small_tree root_request 0 all token"
  have size: "length all = 2" using arg_cong [OF all, of length] by simp
  have "gives (read_page id small_tree root_request) two_directories ?P"
    by (rule at_rest_page [OF rest])
      (simp_all add: root_request_def page_start_def parse_usize_def byte_defs decimal_value_def token_fits_def)
  then obtain t' where first: "read_page id small_tree root_request (\<lambda>_. two_directories) 0 = (Inr ?P, t')"
    by (auto simp: gives_def)
  have P: "tg_total_entries ?P = 2" by (simp add: page_of_def Let_def size)
  have "tq_cursor root_request = None" "1 \<le> tp_max_page_size (tr_policy small_tree)" "tg_total_entries ?P \<le> usize_max"
    unfolding P by (simp_all add: root_request_def small_tree_def tree_reader_new_def default_tree_policy_def clamp_def usize_max_def)
  from cursors_list_all [OF first this] obtain Ps k names and r :: resolved_path where
      Ps: "read_pages id small_tree (Suc 2) root_request (\<lambda>_. two_directories) 0 = (Inr Ps, k)"
      "tg_next_cursor (last Ps) = None" "fs_read_dir two_directories (rp_path r) = Inr (map Inr names)"
      "map te_name (concat (map tg_entries Ps)) = sort names"
    unfolding P by blast
  have "map Inr names = [Inr ''b'', Inr ''a'' :: io_kind + bytes]" using Ps(3) by (simp add: two_directories_def)
  then have "names = [''b'', ''a'']" by auto
  moreover have "sort [''b'', ''a''] = [''a'', ''b'']" by code_simp
  ultimately show ?thesis using Ps(1,2,4) by (intro exI [of _ Ps] exI [of _ k]) (simp add: numeral_3_eq_3 numeral_2_eq_2)
qed

end
