(* ===== verification/Ja_Changes_Safety.thy ===== *)
theory Ja_Changes_Safety
  imports Ja_Changes Ja_Tree_Safety
begin

text \<open>
  The scan never runs out of fuel; the reported changes turn the old baseline into the new one;
  and a client that applies them, and reads afresh after a rescan, always holds the baseline.
\<close>

subsection \<open>The fuel of the scan\<close>

text \<open>
  A scanned directory adds at most as many directories to the queue as it counts entries, and the
  count stays within the budget while the scan goes on.
\<close>

definition grown_by :: "polling_policy \<Rightarrow> scan_state \<Rightarrow> scan_state \<Rightarrow> bool" where
  "grown_by p s s' \<longleftrightarrow> ss_visited s \<le> ss_visited s' \<and> ss_visited s' \<le> pp_max_entries p
     \<and> length (ss_queue s') + ss_visited s \<le> length (ss_queue s) + ss_visited s'"

lemma grown_refl: "ss_visited s \<le> pp_max_entries p \<Longrightarrow> grown_by p s s"
  by (simp add: grown_by_def)

lemma grown_trans: "grown_by p s s' \<Longrightarrow> grown_by p s' s'' \<Longrightarrow> grown_by p s s''"
  by (simp add: grown_by_def)

lemma scan_child_Inr:
  "scan_child h p rel depth m s w t = (Inr (s', False), t') \<Longrightarrow>
     ss_visited s' = ss_visited s \<and> length (ss_queue s') \<le> Suc (length (ss_queue s))"
  by (auto simp: scan_child_def op_ok_Inr op_bind_Inr split: if_splits)

lemma scan_named_Inr:
  "scan_named sha h p parent dir depth s name w t = (Inr (s', False), t') \<Longrightarrow>
     ss_visited s' = ss_visited s \<and> length (ss_queue s') \<le> Suc (length (ss_queue s))"
  unfolding scan_named_def Let_def
  by (auto simp: op_ok_Inr op_bind_Inr split: if_splits dest!: scan_child_Inr)

lemma expired_Inr: "expired w t = (Inr late, k) \<longleftrightarrow> late = fs_late (w t) \<and> k = Suc t"
  by (auto simp: expired_def)

lemma scan_one_Inr:
  assumes "scan_one sha h p parent dir depth s e w t = (Inr (s', False), t')" and "pp_max_entries p < usize_max"
  shows "grown_by p s s'"
proof -
  define s1 where "s1 = s\<lparr>ss_visited := sat_add (ss_visited s) 1\<rparr>"
  obtain name k k' where named: "scan_named sha h p parent dir depth s1 name w k = (Inr (s', False), k')"
    and budget: "\<not> pp_max_entries p < ss_visited s1"
    using assms(1) unfolding scan_one_def Let_def s1_def op_bind_Inr op_lift_Inr
    by (auto simp: op_ok_Inr op_bind_Inr op_lift_Inr split: if_splits)
  have "ss_visited s + 1 \<le> pp_max_entries p" "ss_visited s1 = ss_visited s + 1"
    using budget assms(2) by (auto simp: s1_def sat_add_def)
  moreover have "ss_queue s1 = ss_queue s" by (simp add: s1_def)
  ultimately show ?thesis using scan_named_Inr [OF named] by (simp add: grown_by_def)
qed

lemma scan_children_Inr:
  assumes "pp_max_entries p < usize_max"
  shows "scan_children sha h p parent dir depth s es w t = (Inr (s', False), t') \<Longrightarrow>
     ss_visited s \<le> pp_max_entries p \<Longrightarrow> grown_by p s s'"
proof (induction es arbitrary: s t)
  case Nil
  then show ?case by (simp add: op_ok_Inr grown_refl)
next
  case (Cons e es)
  obtain s1 k where one: "scan_one sha h p parent dir depth s e w t = (Inr (s1, False), k)"
    and rest: "scan_children sha h p parent dir depth s1 es w k = (Inr (s', False), t')"
    using Cons.prems(1) by (auto simp: op_bind_Inr op_ok_Inr split: if_splits)
  have s1: "grown_by p s s1" by (rule scan_one_Inr [OF one assms])
  moreover have "grown_by p s1 s'" using Cons.IH [OF rest] s1 by (simp add: grown_by_def)
  ultimately show ?case by (rule grown_trans)
qed

lemma scan_directory_Inr:
  assumes "scan_directory sha h p d s w t = (Inr (s', False), t')" and "pp_max_entries p < usize_max"
    and "ss_visited s \<le> pp_max_entries p"
  shows "grown_by p s s'"
proof -
  obtain parent directory depth where d: "d = (parent, directory, depth)" by (cases d)
  obtain es k k' where "scan_children sha h p parent (rp_path directory) depth s es w k = (Inr (s', False), k')"
    using assms(1) unfolding scan_directory_def d
    by (auto simp: op_bind_Inr op_ok_Inr split: if_splits)
  then show ?thesis by (rule scan_children_Inr [OF assms(2) _ assms(3)])
qed

lemma scan_queue_fuel:
  assumes "pp_max_entries p < usize_max"
  shows "ss_visited s \<le> pp_max_entries p \<Longrightarrow> length (ss_queue s) + pp_max_entries p \<le> fuel + ss_visited s \<Longrightarrow>
     scan_queue sha h p fuel s w t \<noteq> (Inr None, t')"
proof (induction fuel arbitrary: s t)
  case 0
  then have "length (ss_queue s) = 0" by linarith
  then have "ss_queue s = []" by simp
  then show ?case by (simp add: scan_queue.simps op_ok_def)
next
  case (Suc n)
  show ?case
  proof (cases "ss_queue s")
    case (Cons d ds)
    show ?thesis
    proof
      assume "scan_queue sha h p (Suc n) s w t = (Inr None, t')"
      then obtain s' k where dir: "scan_directory sha h p d (s\<lparr>ss_queue := ds\<rparr>) w t = (Inr (s', False), k)"
        and rest: "scan_queue sha h p n s' w k = (Inr None, t')"
        using Cons by (subst (asm) scan_queue.simps) (auto simp: op_bind_Inr op_ok_Inr split: if_splits)
      have "grown_by p (s\<lparr>ss_queue := ds\<rparr>) s'"
        by (rule scan_directory_Inr [OF dir assms]) (use Suc.prems(1) in simp)
      then have "ss_visited s' \<le> pp_max_entries p"
          "length (ss_queue s') + pp_max_entries p \<le> n + ss_visited s'"
        using Suc.prems(2) Cons by (auto simp: grown_by_def)
      then show False using Suc.IH rest by blast
    qed
  qed (simp add: scan_queue.simps op_ok_def)
qed

text \<open>
  The breadth-first scan ends by itself: with one unit of fuel more than the entries it may
  visit, for every behaviour of the file system, it never stops for want of fuel; it returns a
  snapshot, reports an overflow or fails.
\<close>

theorem scan_terminates:
  assumes "pp_max_entries p < usize_max"
  shows "scan_workspace sha h p w t \<noteq> (Inr None, t')"
proof
  assume "scan_workspace sha h p w t = (Inr None, t')"
  then obtain root k where "scan_queue sha h p (Suc (pp_max_entries p))
      \<lparr>ss_queue = [([], root, 0)], ss_snapshot = [], ss_visited = 0, ss_bytes = 0\<rparr> w k = (Inr None, t')"
    by (auto simp: scan_workspace_def op_bind_Inr)
  then show False using scan_queue_fuel [OF assms] by simp
qed

subsection \<open>Differences\<close>

definition apply_changes :: "change_record list \<Rightarrow> (str \<Rightarrow> file_revision option) \<Rightarrow> str \<Rightarrow> file_revision option" where
  "apply_changes cs m = fold (\<lambda>c m. m(cr_path c := cr_current c)) cs m"

lemma apply_append: "apply_changes (cs @ ds) m = apply_changes ds (apply_changes cs m)"
  by (simp add: apply_changes_def)

lemma change_kind_None: "change_kind_of a b = None \<longleftrightarrow> a = b"
  by (auto simp: change_kind_of_def split: option.splits)

lemma change_kind_same [simp]: "change_kind_of a a = None"
  by (simp add: change_kind_None)

definition changed_paths :: "snapshot \<Rightarrow> snapshot \<Rightarrow> str list \<Rightarrow> str list" where
  "changed_paths old new ps = List.filter (\<lambda>p. map_of old p \<noteq> map_of new p) ps"

text \<open>While the limit is not reached the difference has one record for each changed path.\<close>

lemma diff_paths_complete:
  "length (diff_paths old new n ps cs) < n \<Longrightarrow>
     \<exists>ds. diff_paths old new n ps cs = cs @ ds \<and> map cr_path ds = changed_paths old new ps
       \<and> (\<forall>d \<in> set ds. cr_previous d = map_of old (cr_path d) \<and> cr_current d = map_of new (cr_path d)
            \<and> Some (cr_kind d) = change_kind_of (cr_previous d) (cr_current d))"
proof (induction ps arbitrary: cs)
  case (Cons p ps)
  have go: "\<not> n \<le> length cs" using Cons.prems by (auto split: if_splits)
  show ?case
  proof (cases "change_kind_of (map_of old p) (map_of new p)")
    case None
    then show ?thesis using Cons go by (auto simp: changed_paths_def change_kind_None Let_def)
  next
    case (Some k)
    then have "map_of old p \<noteq> map_of new p" using change_kind_None by (metis option.distinct(1))
    with Some Cons.IH Cons.prems go show ?thesis
      by (fastforce simp: changed_paths_def Let_def)
  qed
qed (simp add: changed_paths_def)

lemma apply_complete:
  "\<forall>d \<in> set ds. cr_current d = new (cr_path d) \<Longrightarrow>
     apply_changes ds m = (\<lambda>p. if p \<in> cr_path ` set ds then new p else m p)"
  by (induction ds arbitrary: m) (auto simp: apply_changes_def)

lemma diff_snapshots_complete:
  assumes "length (diff_snapshots old new n) < n"
  shows "apply_changes (diff_snapshots old new n) (map_of old) = map_of new"
    and "map cr_path (diff_snapshots old new n) = sort (changed_paths old new (remdups (map fst old @ map fst new)))"
    and "\<forall>d \<in> set (diff_snapshots old new n). cr_previous d = map_of old (cr_path d) \<and> cr_current d = map_of new (cr_path d)
            \<and> Some (cr_kind d) = change_kind_of (cr_previous d) (cr_current d)"
proof -
  let ?ps = "sort (remdups (map fst old @ map fst new))"
  obtain ds where ds: "diff_snapshots old new n = ds" "map cr_path ds = changed_paths old new ?ps"
      "\<forall>d \<in> set ds. cr_previous d = map_of old (cr_path d) \<and> cr_current d = map_of new (cr_path d)
            \<and> Some (cr_kind d) = change_kind_of (cr_previous d) (cr_current d)"
    using diff_paths_complete [of old new n ?ps "[]"] assms by (auto simp: diff_snapshots_def)
  have paths: "cr_path ` set ds = {p \<in> set ?ps. map_of old p \<noteq> map_of new p}"
    using arg_cong [OF ds(2), of set] by (simp add: changed_paths_def)
  have "map_of old p = map_of new p" if "p \<notin> set ?ps" for p
  proof -
    have "map_of old p = None" "map_of new p = None" using that by (auto simp: map_of_eq_None_iff)
    then show ?thesis by simp
  qed
  then show "apply_changes (diff_snapshots old new n) (map_of old) = map_of new"
    using apply_complete [of ds "map_of new" "map_of old"] ds(1,3) paths by auto
  show "map cr_path (diff_snapshots old new n) = sort (changed_paths old new (remdups (map fst old @ map fst new)))"
    using ds(1,2) by (simp add: changed_paths_def filter_sort)
  show "\<forall>d \<in> set (diff_snapshots old new n). cr_previous d = map_of old (cr_path d) \<and> cr_current d = map_of new (cr_path d)
            \<and> Some (cr_kind d) = change_kind_of (cr_previous d) (cr_current d)"
    using ds(1,3) by simp
qed

subsection \<open>A client of the detector\<close>

datatype detector_call =
    CallPoll nat "workspace_error + scan_result"
  | CallRescan nat "workspace_error + scan_result"

text \<open>
  The client keeps what it believes to be in the workspace, or None when it was told to rescan:
  it applies the changes of an update and reads the workspace afresh after a rescan.
\<close>

type_synonym client = "change_detector \<times> (str \<Rightarrow> file_revision option) option"

fun client_step :: "client \<Rightarrow> detector_call \<Rightarrow> client" where
  "client_step (d, view) (CallPoll now scan) =
     (case detector_poll d now scan of
        (Inl _, d') \<Rightarrow> (d', view)
      | (Inr b, d') \<Rightarrow>
          (d', if cb_requires_rescan b then None
               else map_option (apply_changes (cb_changes b)) view))"
| "client_step (d, view) (CallRescan now scan) =
     (case detector_rescan d now scan of
        (Inl _, d') \<Rightarrow> (d', view)
      | (Inr b, d') \<Rightarrow> (d', if cb_requires_rescan b then None else Some (map_of (cd_snapshot d'))))"

definition in_step :: "client \<Rightarrow> bool" where
  "in_step c \<longleftrightarrow> pred_option (\<lambda>v. v = map_of (cd_snapshot (fst c))) (snd c)"

lemma poll_in_step:
  assumes "in_step (d, view)"
  shows "in_step (client_step (d, view) (CallPoll now scan))"
proof (cases "poll_due d now")
  case False
  then show ?thesis using assms by (cases view) (auto simp: detector_poll_def in_step_def apply_changes_def)
next
  case due: True
  show ?thesis
  proof (cases scan)
    case (Inl e)
    then show ?thesis using assms due by (cases view; cases e) (auto simp: detector_poll_def in_step_def overflow_batch_def Let_def)
  next
    case (Inr r)
    show ?thesis
    proof (cases "sr_overflow r \<or> pp_max_changes (cd_policy d)
        \<le> length (diff_snapshots (cd_snapshot d) (sr_snapshot r) (pp_max_changes (cd_policy d)))")
      case True
      then show ?thesis using due Inr by (auto simp: detector_poll_def in_step_def overflow_batch_def Let_def)
    next
      case False
      then show ?thesis using assms due Inr diff_snapshots_complete(1) [of "cd_snapshot d" "sr_snapshot r"]
        by (cases view) (auto simp: detector_poll_def in_step_def Let_def)
    qed
  qed
qed

lemma rescan_in_step: "in_step (d, view) \<Longrightarrow> in_step (client_step (d, view) (CallRescan now scan))"
  by (auto simp: detector_rescan_def in_step_def overflow_batch_def split: sum.splits workspace_error.splits)

interpretation client: stepping client_step in_step
proof unfold_locales
  fix c x assume "in_step c"
  then show "in_step (client_step c x)" using poll_in_step rescan_in_step by (cases c; cases x) auto
qed


text \<open>
  An update reports each change once: the records stand in path order, one for every path
  whose entry differs between the two baselines and no other, with the entries of both, its kind
  following from them, and applying them to the old baseline gives the new one.
\<close>

theorem update_reports_difference:
  assumes "detector_poll d now scan = (Inr b, d')" and "cb_state b = PollUpdated"
  shows "apply_changes (cb_changes b) (map_of (cd_snapshot d)) = map_of (cd_snapshot d')
    \<and> map cr_path (cb_changes b)
        = sort (changed_paths (cd_snapshot d) (cd_snapshot d') (remdups (map fst (cd_snapshot d) @ map fst (cd_snapshot d'))))
    \<and> list_all (\<lambda>c. cr_previous c = map_of (cd_snapshot d) (cr_path c) \<and> cr_current c = map_of (cd_snapshot d') (cr_path c)
        \<and> Some (cr_kind c) = change_kind_of (cr_previous c) (cr_current c)) (cb_changes b)
    \<and> length (cb_changes b) < pp_max_changes (cd_policy d)"
proof -
  obtain r :: scan_result where "length (diff_snapshots (cd_snapshot d) (sr_snapshot r) (pp_max_changes (cd_policy d))) < pp_max_changes (cd_policy d)"
    and "cb_changes b = diff_snapshots (cd_snapshot d) (sr_snapshot r) (pp_max_changes (cd_policy d))"
    and "cd_snapshot d' = sr_snapshot r"
    using assms by (auto simp: detector_poll_def overflow_batch_def Let_def not_le
      split: if_splits sum.splits workspace_error.splits)
  then show ?thesis using diff_snapshots_complete [of "cd_snapshot d" "sr_snapshot r" "pp_max_changes (cd_policy d)"]
    by (simp add: list_all_iff)
qed

subsection \<open>Concrete detectors\<close>

definition sample_revision :: "nat \<Rightarrow> file_revision" where
  "sample_revision n = \<lparr>fr_kind = EkFile, fr_size = n, fr_modified = None, fr_sha256 = None\<rparr>"

definition sample_scan :: "snapshot \<Rightarrow> workspace_error + scan_result" where
  "sample_scan s = Inr \<lparr>sr_snapshot = s, sr_overflow = False\<rparr>"

definition sample_detector :: change_detector where
  "sample_detector = \<lparr>cd_workspace = sample_handle, cd_policy = clamp_polling default_polling_policy,
     cd_snapshot = [(''b'', sample_revision 1), (''a'', sample_revision 1)], cd_last_poll = None, cd_generation = 0\<rparr>"

lemma sample_detector_new:
  "detector_new sample_handle default_polling_policy
     (sample_scan [(''b'', sample_revision 1), (''a'', sample_revision 1)]) = Inr sample_detector"
  by (simp add: detector_new_def sample_scan_def sample_detector_def)

theorem scan_terminates_witness:
  "pp_max_entries default_polling_policy < usize_max
   \<and> scan_workspace id sample_handle default_polling_policy (\<lambda>_. two_directories) 0 \<noteq> (Inr None, 100)"
  using scan_terminates [of default_polling_policy] by (simp add: default_polling_policy_def usize_max_def)


definition later_snapshot :: snapshot where
  "later_snapshot = [(''c'', sample_revision 2), (''a'', sample_revision 1)]"

lemma sample_difference:
  "map cr_path (diff_snapshots (cd_snapshot sample_detector) later_snapshot 2000) = [''b'', ''c'']"
proof -
  have paths: "sort (remdups ([''b'', ''a''] @ [''c'', ''a''])) = [''a'', ''b'', ''c'']" by code_simp
  have "map fst (cd_snapshot sample_detector) @ map fst later_snapshot = [''b'', ''a''] @ [''c'', ''a'']"
    by (simp add: sample_detector_def later_snapshot_def)
  then show ?thesis unfolding diff_snapshots_def
    by (simp only: paths)
      (simp add: sample_detector_def later_snapshot_def sample_revision_def change_kind_of_def Let_def)
qed

theorem update_reports_difference_witness:
  "\<exists>b d'. detector_poll sample_detector 5 (sample_scan later_snapshot) = (Inr b, d')
     \<and> map cr_path (cb_changes b) = [''b'', ''c'']
     \<and> apply_changes (cb_changes b) (map_of (cd_snapshot sample_detector)) = map_of later_snapshot"
proof -
  let ?c = "diff_snapshots (cd_snapshot sample_detector) later_snapshot 2000"
  have size: "length ?c = 2" using arg_cong [OF sample_difference, of length] by simp
  have policy: "pp_max_changes (cd_policy sample_detector) = 2000" "poll_due sample_detector 5"
    by (simp_all add: sample_detector_def clamp_polling_def default_polling_policy_def clamp_def poll_due_def)
  obtain b d' where poll: "detector_poll sample_detector 5 (sample_scan later_snapshot) = (Inr b, d')"
    and b: "cb_state b = PollUpdated" "cb_changes b = ?c" "cd_snapshot d' = later_snapshot"
    by (simp add: detector_poll_def sample_scan_def policy Let_def size)
  have "apply_changes (cb_changes b) (map_of (cd_snapshot sample_detector)) = map_of later_snapshot"
    using update_reports_difference [OF poll b(1)] b(3) by simp
  then show ?thesis using poll sample_difference b(2) by (intro exI [of _ b] exI [of _ d']) simp
qed

end
