(* ===== verification/Ja_Search_Safety.thy ===== *)
theory Ja_Search_Safety
  imports Ja_Search Ja_Changes_Safety
begin

text \<open>
  The matches of a query are the leftmost ones without overlap and leave none out; a search ends
  by itself and keeps to its limits, and a result that is not marked as truncated was not cut by
  any of them.
\<close>

subsection \<open>Matches\<close>

lemma match_indices_ge: "q \<noteq> [] \<Longrightarrow> j \<in> set (match_indices q i s) \<Longrightarrow> i \<le> j \<and> j < i + length s"
proof (induction q i s rule: match_indices.induct)
  case (2 q i c cs)
  show ?case
  proof (cases "starts_with (c # cs) q")
    case True
    have len: "length q \<le> Suc (length cs)" using True by (auto simp: starts_with_iff_prefix dest: prefix_length_le)
    show ?thesis using 2(1) [OF True 2(3)] 2(3,4) True len by (cases q) (fastforce)+
  next
    case False
    then show ?thesis using 2(2) [OF False 2(3)] 2(4) by auto
  qed
qed simp

lemma match_indices_match:
  "q \<noteq> [] \<Longrightarrow> j \<in> set (match_indices q i s) \<Longrightarrow> starts_with (drop (j - i) s) q"
proof (induction q i s rule: match_indices.induct)
  case (2 q i c cs)
  show ?case
  proof (cases "starts_with (c # cs) q")
    case True
    show ?thesis
    proof (cases "j = i")
      case False
      then have j: "j \<in> set (match_indices q (i + length q) (drop (length q - 1) cs))" using 2(4) True by simp
      obtain k where k: "j = i + length q + k" using match_indices_ge [OF 2(3) j] by (auto simp: le_iff_add)
      have "starts_with (drop (j - (i + length q)) (drop (length q - 1) cs)) q" by (rule 2(1) [OF True 2(3) j])
      then show ?thesis using k 2(3) by (cases q) (simp_all add: add.commute)
    qed (use True in simp)
  next
    case False
    then have j: "j \<in> set (match_indices q (Suc i) cs)" using 2(4) by simp
    obtain k where "j = Suc i + k" using match_indices_ge [OF 2(3) j] by (auto simp: le_iff_add)
    then show ?thesis using 2(2) [OF False 2(3) j] by simp
  qed
qed simp

lemma match_indices_apart:
  "q \<noteq> [] \<Longrightarrow> sorted_wrt (\<lambda>a b. a + length q \<le> b) (match_indices q i s)"
proof (induction q i s rule: match_indices.induct)
  case (2 q i c cs)
  then show ?case using match_indices_ge [OF 2(3)] by auto
qed simp

lemma match_indices_all:
  "q \<noteq> [] \<Longrightarrow> starts_with (drop k s) q \<Longrightarrow>
     \<exists>j \<in> set (match_indices q i s). j \<le> i + k \<and> i + k < j + length q"
proof (induction q i s arbitrary: k rule: match_indices.induct)
  case (1 q i)
  then show ?case by (auto simp: starts_with_iff_prefix)
next
  case (2 q i c cs)
  show ?case
  proof (cases "starts_with (c # cs) q")
    case True
    show ?thesis
    proof (cases "k < length q")
      case True
      then show ?thesis using \<open>starts_with (c # cs) q\<close> by auto
    next
      case False
      obtain d where d: "k = length q + d" using False by (auto simp: not_less le_iff_add)
      have "drop d (drop (length q - 1) cs) = drop k (c # cs)" using d 2(3) by (cases q) (simp_all add: add.commute)
      then have "starts_with (drop d (drop (length q - 1) cs)) q" using 2(4) by simp
      from 2(1) [OF True 2(3) this] show ?thesis using True d by (auto simp: add.assoc)
    qed
  next
    case False
    then obtain d where d: "k = Suc d" using 2(4) by (cases k) auto
    then have "starts_with (drop d cs) q" using 2(4) by simp
    from 2(2) [OF False 2(3) this] show ?thesis using False d by auto
  qed
qed

lemma push_hits_below:
  "length hits + length xs \<le> n \<Longrightarrow> push_hits n hits xs = (hits @ xs, False)"
  by (induction xs arbitrary: hits) auto



subsection \<open>Limits and the end of the walk\<close>

fun within_limits :: "search_policy \<Rightarrow> search_flow \<Rightarrow> search_state \<Rightarrow> bool" where
  "within_limits p GoOn s \<longleftrightarrow> se_scanned s \<le> sp_max_entries p
     \<and> (if se_truncated s then length (se_hits s) \<le> sp_max_results p
        else length (se_hits s) < sp_max_results p \<and> se_skipped s = 0)"
| "within_limits p LeaveDirectory s \<longleftrightarrow> se_scanned s \<le> Suc (sp_max_entries p) \<and> se_truncated s
     \<and> sp_max_entries p \<le> se_scanned s \<and> length (se_hits s) \<le> sp_max_results p"
| "within_limits p ReturnTruncated s \<longleftrightarrow> se_scanned s \<le> Suc (sp_max_entries p)
     \<and> length (se_hits s) \<le> sp_max_results p"

text \<open>What one entry, or one directory, may do to the state.\<close>

definition queue_room :: "search_state \<Rightarrow> search_state \<Rightarrow> bool" where
  "queue_room s s' \<longleftrightarrow> se_scanned s \<le> se_scanned s'
     \<and> length (se_queue s') + se_scanned s \<le> length (se_queue s) + se_scanned s'"

lemma push_hits_limit: "length hits \<le> n \<Longrightarrow> length (fst (push_hits n hits xs)) \<le> n"
  by (induction xs arbitrary: hits) auto

lemma take_hits_state:
  "take_hits p q rel s bs = (s', flow) \<Longrightarrow> se_queue s' = se_queue s \<and> se_scanned s' = se_scanned s \<and> flow \<noteq> LeaveDirectory"
  by (auto simp: take_hits_def split: prod.splits content_kind.splits option.splits if_splits)

lemma append_hits_none: "append_hits hits rel q s e n = (hits', None) \<Longrightarrow> hits' = hits"
  by (auto simp: append_hits_def Let_def split: prod.splits if_splits)

lemma append_hits_limit: "append_hits hits rel q s e n = (hits', r) \<Longrightarrow> length hits \<le> n \<Longrightarrow> length hits' \<le> n"
  by (auto simp: append_hits_def Let_def split_beta intro: push_hits_limit)

lemma take_hits_limits:
  assumes "take_hits p q rel s bs = (s', flow)" and "within_limits p GoOn s"
  shows "within_limits p flow s'"
proof (cases "\<exists>e x. decode_content bs = (CkText, Some e, Some x)")
  case False
  then have "(s', flow) = (s, GoOn)"
    using assms(1) by (auto simp: take_hits_def split: prod.splits content_kind.splits option.splits)
  then show ?thesis using assms(2) by simp
next
  case True
  then obtain e x where d: "decode_content bs = (CkText, Some e, Some x)" by blast
  obtain hits r where h: "append_hits (se_hits s) rel q x e (sp_max_results p) = (hits, r)" by fastforce
  have below: "length (se_hits s) \<le> sp_max_results p" using assms(2) by (auto split: if_splits)
  show ?thesis
  proof (cases r)
    case None
    then show ?thesis using assms d h append_hits_none [of "se_hits s" rel q x e "sp_max_results p" hits]
      by (auto simp: take_hits_def split: if_splits)
  next
    case (Some reached)
    then show ?thesis using assms d h append_hits_limit [OF h below]
      by (auto simp: take_hits_def split: if_splits)
  qed
qed

lemma skip_file_limits: "within_limits p GoOn s \<Longrightarrow> within_limits p GoOn (skip_file s)"
  by (auto simp: skip_file_def split: if_splits)

definition step_ok :: "search_policy \<Rightarrow> search_state \<Rightarrow> search_state \<Rightarrow> search_flow \<Rightarrow> bool" where
  "step_ok p s s' flow \<longleftrightarrow> within_limits p flow s' \<and> (flow = GoOn \<longrightarrow> queue_room s s')"

lemma search_file_step:
  assumes "search_file x q rel m s w t = (Inr (s', flow), t')" and "within_limits (tx_policy x) GoOn s"
  shows "within_limits (tx_policy x) flow s' \<and> se_queue s' = se_queue s \<and> se_scanned s' = se_scanned s"
proof -
  have skip: "s' = skip_file s \<and> flow = GoOn
      \<or> (\<exists>bs. take_hits (tx_policy x) q rel (s\<lparr>se_bytes := sat_add (se_bytes s) (length bs)\<rparr>) bs = (s', flow))"
    using assms(1) unfolding search_file_def by (auto simp: op_bind_Inr op_ok_Inr split: if_splits)
  then show ?thesis
  proof
    assume "s' = skip_file s \<and> flow = GoOn"
    then show ?thesis using skip_file_limits [OF assms(2)] by (simp add: skip_file_def)
  next
    assume "\<exists>bs. take_hits (tx_policy x) q rel (s\<lparr>se_bytes := sat_add (se_bytes s) (length bs)\<rparr>) bs = (s', flow)"
    then obtain bs where bs: "take_hits (tx_policy x) q rel (s\<lparr>se_bytes := sat_add (se_bytes s) (length bs)\<rparr>) bs = (s', flow)"
      by blast
    have "within_limits (tx_policy x) GoOn (s\<lparr>se_bytes := sat_add (se_bytes s) (length bs)\<rparr>)" using assms(2) by simp
    from take_hits_limits [OF bs this] take_hits_state [OF bs] show ?thesis by simp
  qed
qed

lemma search_named_step:
  assumes "search_named x q parent dir depth s name w t = (Inr (s', flow), t')" and "within_limits (tx_policy x) GoOn s"
  shows "within_limits (tx_policy x) flow s' \<and> length (se_queue s') \<le> Suc (length (se_queue s)) \<and> se_scanned s' = se_scanned s"
proof -
  obtain m k where m: "(if entry_kind_of m = EkDirectory then
          (if depth < sp_max_depth (tx_policy x)
           then op_bind (resolve_guard (tx_workspace x) (join_relative parent name) (Some True)) (\<lambda>child.
             op_ok (s\<lparr>se_queue := se_queue s @ [(join_relative parent name, child, sat_add depth 1)]\<rparr>, GoOn))
           else op_ok (s\<lparr>se_truncated := True\<rparr>, GoOn))
        else if entry_kind_of m \<noteq> EkFile then op_ok (s, GoOn)
        else search_file x q (join_relative parent name) m s) w k = (Inr (s', flow), t')"
    using assms(1) unfolding search_named_def Let_def op_bind_Inr [of "lstat (path_join dir name) (WIo ''stat'')"] by blast
  show ?thesis
  proof (cases "entry_kind_of m = EkFile")
    case True
    then show ?thesis using m search_file_step [OF _ assms(2)] by fastforce
  next
    case False
    then show ?thesis using m assms(2) by (auto simp: op_bind_Inr op_ok_Inr split: if_splits)
  qed
qed

lemma search_one_step:
  assumes "search_one x q parent dir depth s e w t = (Inr (s', flow), t')" and "within_limits (tx_policy x) GoOn s"
    and "sp_max_entries (tx_policy x) < usize_max"
  shows "step_ok (tx_policy x) s s' flow"
proof -
  define s1 where "s1 = s\<lparr>se_scanned := sat_add (se_scanned s) 1\<rparr>"
  have scanned: "se_scanned s1 = Suc (se_scanned s)"
    using assms(2,3) by (simp add: s1_def sat_add_def)
  have limits: "length (se_hits s) \<le> sp_max_results (tx_policy x)" using assms(2) by (auto split: if_splits)
  consider "s' = s" "flow = ReturnTruncated"
    | "sp_max_entries (tx_policy x) < se_scanned s1" "s' = s1\<lparr>se_truncated := True\<rparr>" "flow = LeaveDirectory"
    | name k where "\<not> sp_max_entries (tx_policy x) < se_scanned s1"
        "search_named x q parent dir depth s1 name w k = (Inr (s', flow), t')"
    using assms(1) unfolding search_one_def Let_def s1_def [symmetric]
    by (auto simp: op_bind_Inr op_ok_Inr op_lift_Inr split: if_splits)
  then show ?thesis
  proof cases
    case 1
    then show ?thesis using assms(2) limits by (simp add: step_ok_def)
  next
    case 2
    then show ?thesis using assms(2) limits scanned by (simp add: step_ok_def s1_def sat_add_def)
  next
    case 3
    have "within_limits (tx_policy x) GoOn s1" using assms(2) 3(1) by (simp add: s1_def)
    from search_named_step [OF 3(2) this] have "within_limits (tx_policy x) flow s'"
        "length (se_queue s') \<le> Suc (length (se_queue s1))" "se_scanned s' = Suc (se_scanned s)"
      using scanned by simp_all
    then show ?thesis by (simp add: step_ok_def queue_room_def s1_def)
  qed
qed

lemma queue_room_trans: "queue_room s s' \<Longrightarrow> queue_room s' s'' \<Longrightarrow> queue_room s s''"
  by (simp add: queue_room_def)

lemma search_entries_step:
  assumes "sp_max_entries (tx_policy x) < usize_max"
  shows "search_entries x q parent dir depth s es w t = (Inr (s', flow), t') \<Longrightarrow>
     within_limits (tx_policy x) GoOn s \<Longrightarrow> step_ok (tx_policy x) s s' flow"
proof (induction es arbitrary: s t)
  case Nil
  then show ?case by (auto simp: op_ok_Inr step_ok_def queue_room_def)
next
  case (Cons e es)
  obtain s1 f1 k where one: "search_one x q parent dir depth s e w t = (Inr (s1, f1), k)"
    and rest: "(if f1 = GoOn then search_entries x q parent dir depth s1 es else op_ok (s1, f1)) w k = (Inr (s', flow), t')"
    using Cons.prems(1) by (auto simp: op_bind_Inr)
  have s1: "step_ok (tx_policy x) s s1 f1" by (rule search_one_step [OF one Cons.prems(2) assms])
  show ?case
  proof (cases "f1 = GoOn")
    case True
    have "search_entries x q parent dir depth s1 es w k = (Inr (s', flow), t')" using rest True by simp
    moreover have "within_limits (tx_policy x) GoOn s1" using s1 True by (simp add: step_ok_def)
    ultimately have "step_ok (tx_policy x) s1 s' flow" by (rule Cons.IH)
    then show ?thesis using s1 True queue_room_trans by (auto simp: step_ok_def)
  next
    case False
    then show ?thesis using rest s1 by (auto simp: op_ok_Inr)
  qed
qed

lemma search_directory_step:
  assumes "search_directory x q d s w t = (Inr (s', flow), t')" and "within_limits (tx_policy x) GoOn s"
    and "sp_max_entries (tx_policy x) < usize_max"
  shows "step_ok (tx_policy x) s s' flow"
proof -
  obtain parent directory depth where d: "d = (parent, directory, depth)" by (cases d)
  have limits: "length (se_hits s) \<le> sp_max_results (tx_policy x)" using assms(2) by (auto split: if_splits)
  consider "s' = s" "flow = ReturnTruncated"
    | "s' = s\<lparr>se_truncated := True\<rparr>" "flow = GoOn"
    | f1 es k k' where "search_entries x q parent (rp_path directory) depth s es w k = (Inr (s', f1), k')"
        "flow = (if f1 = ReturnTruncated then ReturnTruncated
          else if se_truncated s' \<and> sp_max_entries (tx_policy x) \<le> se_scanned s' then LeaveDirectory else GoOn)"
    using assms(1) unfolding search_directory_def d prod.case
    by (auto simp: op_bind_Inr op_ok_Inr split: if_splits)
  then show ?thesis
  proof cases
    case 1
    then show ?thesis using assms(2) limits by (simp add: step_ok_def)
  next
    case 2
    then show ?thesis using assms(2) limits by (simp add: step_ok_def queue_room_def)
  next
    case 3
    have "step_ok (tx_policy x) s s' f1" by (rule search_entries_step [OF assms(3) 3(1) assms(2)])
    then show ?thesis using 3(2) by (cases f1) (auto simp: step_ok_def split: if_splits)
  qed
qed

text \<open>What a result may claim.\<close>

definition result_ok :: "search_policy \<Rightarrow> text_search_result \<Rightarrow> bool" where
  "result_ok p r \<longleftrightarrow> length (ts_hits r) \<le> sp_max_results p \<and> ts_scanned_entries r \<le> Suc (sp_max_entries p)
     \<and> (if ts_truncated r then True else length (ts_hits r) < sp_max_results p
          \<and> ts_scanned_entries r \<le> sp_max_entries p \<and> ts_skipped_files r = 0)"

lemma search_queue_ok:
  assumes "sp_max_entries (tx_policy x) < usize_max"
  shows "within_limits (tx_policy x) GoOn s \<Longrightarrow>
     length (se_queue s) + sp_max_entries (tx_policy x) \<le> fuel + se_scanned s \<Longrightarrow>
     search_queue x q fuel s w t = (Inr out, t') \<Longrightarrow> \<exists>r. out = Some r \<and> result_ok (tx_policy x) r"
proof (induction fuel arbitrary: s t)
  case 0
  have "se_scanned s \<le> sp_max_entries (tx_policy x)" using "0.prems"(1) by simp
  then have "length (se_queue s) = 0" using "0.prems"(2) by linarith
  then show ?case using "0.prems"(1,3)
    by (auto simp: search_queue.simps op_ok_Inr result_ok_def search_result_def split: if_splits)
next
  case (Suc n)
  show ?case
  proof (cases "se_queue s")
    case Nil
    then show ?thesis using Suc.prems(1,3)
      by (auto simp: search_queue.simps op_ok_Inr result_ok_def search_result_def split: if_splits)
  next
    case (Cons d ds)
    obtain s' flow k where dir: "search_directory x q d (s\<lparr>se_queue := ds\<rparr>) w t = (Inr (s', flow), k)"
      and rest: "(case flow of ReturnTruncated \<Rightarrow> op_ok (Some (search_result s' True))
          | LeaveDirectory \<Rightarrow> op_ok (Some (search_result s' (se_truncated s')))
          | GoOn \<Rightarrow> search_queue x q n s') w k = (Inr out, t')"
      using Suc.prems(3) Cons by (auto simp: search_queue.simps [of x q "Suc n" s] op_bind_Inr)
    have step: "step_ok (tx_policy x) (s\<lparr>se_queue := ds\<rparr>) s' flow"
      by (rule search_directory_step [OF dir _ assms]) (use Suc.prems(1) in simp)
    show ?thesis
    proof (cases flow)
      case GoOn
      then have "within_limits (tx_policy x) GoOn s'"
          "length (se_queue s') + sp_max_entries (tx_policy x) \<le> n + se_scanned s'"
        using step Suc.prems(2) Cons by (auto simp: step_ok_def queue_room_def)
      then show ?thesis using Suc.IH rest GoOn by simp
    qed (use rest step in \<open>auto simp: op_ok_Inr result_ok_def search_result_def step_ok_def\<close>)
  qed
qed


text \<open>A search of an empty directory with small limits.\<close>

definition empty_directory :: file_system where
  "empty_directory = two_directories\<lparr>fs_read_dir := \<lambda>_. Inr []\<rparr>"

definition small_search :: text_search where
  "small_search = \<lparr>tx_workspace = sample_handle, tx_policy = \<lparr>sp_max_depth = 1, sp_max_entries = 2,
     sp_max_file_bytes = 8, sp_max_total_bytes = 8, sp_max_results = 1, sp_max_query_bytes = 4, sp_max_scan_millis = 1\<rparr>\<rparr>"


end
