(* ===== verification/Ja_Host_Safety.thy ===== *)
theory Ja_Host_Safety
  imports Ja_Host Ja_Search_Safety
begin

text \<open>
  What a WebView can read of the file system: only inside the directory of the last successful
  configuration, with no lifecycle boundary since. And two limits of the design, as theorems.
\<close>

subsection \<open>Runs of the host\<close>

datatype owner_op =
    HopConfigure "str \<Rightarrow> url option" "str \<Rightarrow> path_metadata option" "str \<Rightarrow> str option" runtime_env
      "workspace_error + workspace_handle" runtime_configure_input
  | HopStart runtime_env
  | HopStop runtime_env
  | HopShutdown runtime_env
  | HopTurn runtime_env

fun owner_step :: "runtime_host \<Rightarrow> owner_op \<Rightarrow> runtime_host" where
  "owner_step h (HopConfigure parse_url metadata canonicalize e admitted input) =
     snd (host_configure parse_url metadata canonicalize e admitted input h)"
| "owner_step h (HopStart e) = snd (host_start e h)"
| "owner_step h (HopStop e) = snd (host_stop e h)"
| "owner_step h (HopShutdown e) = snd (runtime_shutdown e h)"
| "owner_step h (HopTurn e) = snd (ensure_bridge e h)"

lemma host_turn_step: "snd (host_turn e result h) = owner_step h (HopTurn e)"
  by (simp add: host_turn_def split: prod.splits)

text \<open>The operations that leave a binding in place.\<close>

fun keeps_binding :: "owner_op \<Rightarrow> bool" where
  "keeps_binding (HopStart e) = is_ready (he_start e)"
| "keeps_binding (HopTurn e) = True"
| "keeps_binding _ = False"

lemma ensure_bridge_workspace: "ho_workspace (snd (ensure_bridge e h)) = ho_workspace h"
  by (auto simp: ensure_bridge_def split: sum.splits)

lemma start_binding:
  "ho_workspace (snd (host_start e h)) = Some b \<Longrightarrow> ho_workspace h = Some b \<and> is_ready (he_start e)"
  using ensure_bridge_workspace [of e h]
  by (auto simp: host_start_def Let_def clear_workspace_def is_ready_def result_iff split: prod.splits if_splits sum.splits)

lemma kept_binding: "keeps_binding x \<Longrightarrow> ho_workspace (owner_step h x) = Some b \<Longrightarrow> ho_workspace h = Some b"
  by (cases x) (auto simp: ensure_bridge_workspace dest: start_binding)

lemma new_binding:
  "\<not> keeps_binding x \<Longrightarrow> ho_workspace (owner_step h x) = Some b \<Longrightarrow>
     \<exists>parse_url metadata canonicalize e admitted input. x = HopConfigure parse_url metadata canonicalize e admitted input"
  by (cases x) (auto simp: host_stop_def runtime_shutdown_def clear_workspace_def dest: start_binding)

lemma configure_binding:
  assumes "ho_workspace (snd (host_configure parse_url metadata canonicalize e admitted input h)) = Some (wid, handle)"
  shows "admitted = Inr handle \<and> ci_workspace_id input = wid
    \<and> is_ok (replay_from_input parse_url metadata canonicalize input)"
proof -
  have replay_id: "rc_workspace_id r = ci_workspace_id input"
    if "replay_from_input parse_url metadata canonicalize input = Inr r" for r
    using that by (auto simp: replay_from_input_def result_iff Let_def)
  show ?thesis using assms replay_id
    by (auto simp: host_configure_def Let_def clear_workspace_def store_configuration_def is_ok_iff
      split: sum.splits if_splits)
qed

lemma binding_history:
  "ho_workspace (foldl owner_step host_new ops) = Some (wid, handle) \<Longrightarrow>
     \<exists>before later parse_url metadata canonicalize e input.
       ops = before @ HopConfigure parse_url metadata canonicalize e (Inr handle) input # later
       \<and> ci_workspace_id input = wid \<and> is_ok (replay_from_input parse_url metadata canonicalize input)
       \<and> list_all keeps_binding later"
proof (induction ops rule: rev_induct)
  case Nil
  then show ?case by (simp add: host_new_def)
next
  case (snoc x xs)
  let ?h = "foldl owner_step host_new xs"
  have bound: "ho_workspace (owner_step ?h x) = Some (wid, handle)" using snoc.prems by simp
  show ?case
  proof (cases "keeps_binding x")
    case True
    then have "ho_workspace ?h = Some (wid, handle)"
      using bound kept_binding by blast
    from snoc.IH [OF this] obtain before later parse_url metadata canonicalize e input where
      "xs = before @ HopConfigure parse_url metadata canonicalize e (Inr handle) input # later"
      "ci_workspace_id input = wid" "is_ok (replay_from_input parse_url metadata canonicalize input)"
      "list_all keeps_binding later" by blast
    then show ?thesis using True
      by (intro exI [of _ before] exI [of _ "later @ [x]"] exI [of _ parse_url] exI [of _ metadata]
        exI [of _ canonicalize] exI [of _ e] exI [of _ input]) simp
  next
    case False
    then obtain parse_url metadata canonicalize e admitted input where
      x: "x = HopConfigure parse_url metadata canonicalize e admitted input"
      using bound new_binding by blast
    from configure_binding [OF bound [unfolded x owner_step.simps]] show ?thesis
      by (intro exI [of _ xs] exI [of _ "[]"] exI [of _ parse_url] exI [of _ metadata]
        exI [of _ canonicalize] exI [of _ e] exI [of _ input]) (simp add: x)
  qed
qed

subsection \<open>Reads are confined\<close>

lemma file_read_confined:
  assumes "file_read sha rd p w t = (Inr c, t')"
  shows "\<exists>r k. t \<le> k \<and> k + verify_calls r \<le> t' \<and> path_seen (rd_workspace rd) r (Some False) w k
    \<and> map fst (rp_components r) = step_paths (wh_root (rd_workspace rd)) (components p)"
proof -
  obtain r before k where first: "before_read sha rd p w t = (Inr (r, before), k)"
    and rest: "read_opened sha rd r before w k = (Inr c, t')"
    using assms by (auto simp: file_read_def op_bind_Inr)
  obtain j j' m b where guard: "resolve_guard (rd_workspace rd) p (Some False) w t = (Inr r, j)"
    and verify: "verify_resolved (rd_workspace rd) r (Some False) w j = (Inr (), j')"
    and meta: "metadata_for_path sha (rp_path r) m (reader_hash_limit rd) w (Suc j') = (Inr b, k)"
    using first unfolding before_read_def by (auto simp: op_bind_Inr op_call_Inr op_ok_Inr)
  have "j \<le> j'" "Suc j' \<le> k" by (rule local_mono [OF local_verify verify], rule local_mono [OF local_metadata_now meta])
  then have "j \<le> k" by simp
  have "local_op (read_opened sha rd r before)"
    unfolding read_opened_def finish_read_def by (intro local_intro)
  then have "k \<le> t'" using rest by (rule local_mono)
  then show ?thesis using resolve_guard_Inr [OF guard] \<open>j \<le> k\<close>
    by (intro exI [of _ r] exI [of _ "j - verify_calls r"]) auto
qed


subsection \<open>A configured host\<close>

definition ready_status :: runtime_status where
  "ready_status = \<lparr>ru_status = SkReady, ru_generation = 1, ru_server_instance_id = None\<rparr>"

definition ready_env :: runtime_env where
  "ready_env = \<lparr>he_recovery_required = False, he_new = Inr (), he_start = Inr ready_status, he_stop = Inr stopped_status,
     he_state = Inr ready_status, he_shutdown = Inr (), he_exit_ready = True\<rparr>"

definition configure_op :: owner_op where
  "configure_op = HopConfigure (\<lambda>_. None) (\<lambda>_. Some \<lparr>pm_symlink = False, pm_reparse_point = False, pm_dir = True\<rparr>)
     Some ready_env (Inr sample_handle) sample_configure"

lemma configured_host:
  "foldl owner_step host_new [configure_op, HopStart ready_env]
     = \<lparr>ho_replay = Some sample_cfg, ho_bridge = True, ho_workspace = Some (''ws_a'', sample_handle)\<rparr>"
  by (simp add: configure_op_def host_configure_def host_new_def clear_workspace_def sample_replay store_configuration_def
    host_start_def ensure_bridge_def ready_env_def ready_status_def is_ready_def sample_cfg_def Let_def)

lemma sample_workspace_read:
  "\<exists>c. ja_workspace_read_file id ready_env (foldl owner_step host_new [configure_op, HopStart ready_env])
     \<lparr>wf_workspace_id = ''ws_a'', wf_relative_path = ''a''\<rparr> (\<lambda>_. sample_file_system) 0 = Inr c"
proof -
  obtain c k where "file_read id sample_reader ''a'' (\<lambda>_. sample_file_system) 0 = (Inr c, k)"
    using sample_read by blast
  then show ?thesis unfolding configured_host
    by (simp add: ja_workspace_read_file_def validate_wire_path_def with_workspace_def validate_workspace_id_def
      starts_with_iff_prefix byte_defs with_configured_workspace_def workspace_access_ready_def ready_env_def
      ready_status_def is_ready_def sample_reader_def)
qed


subsection \<open>After a stop\<close>



subsection \<open>Hard links\<close>

lemma gives_scan_lstat:
  "gives (scan_entries p dir es acc n) fs xs \<Longrightarrow> \<exists>ys. xs = acc @ ys
     \<and> (\<forall>(name, path, m) \<in> set ys. path = path_join dir name \<and> fs_lstat fs path = Inr m) \<and> es = map (Inr \<circ> fst) ys"
proof (induction es arbitrary: acc n)
  case Nil
  then show ?case by (simp add: gives_ok)
next
  case (Cons e es)
  obtain name m n' where e: "entry_name e = Inr name" and m: "fs_lstat fs (path_join dir name) = Inr m"
    and rest: "gives (scan_entries p dir es (acc @ [(name, path_join dir name, m)]) n') fs xs"
    using Cons.prems by (fastforce simp: gives_bind local_intro gives_simps)
  obtain ys where "xs = (acc @ [(name, path_join dir name, m)]) @ ys"
      "\<forall>(name, path, m) \<in> set ys. path = path_join dir name \<and> fs_lstat fs path = Inr m" "es = map (Inr \<circ> fst) ys"
    using Cons.IH [OF rest] by blast
  moreover have "e = Inr name" using e by (auto simp: entry_name_def split: sum.splits if_splits)
  ultimately show ?case using m by (intro exI [of _ "(name, path_join dir name, m) # ys"]) simp
qed

lemma gives_metadata_links:
  "gives (metadata_for_path_with_deadline sha p m limit dl) fs f \<Longrightarrow> \<not> (om_kind m = NodeFile \<and> 1 < om_links m)"
  by (auto simp: gives_def metadata_for_path_with_deadline_def op_bind_Inr op_require_Inr entry_kind_of_def)

text \<open>
  One hard-linked file hides its whole directory: while a directory holds a regular file with a
  second link no page of it can be read, whatever page is asked for.
\<close>

theorem hard_link_hides_directory:
  assumes "resolve_guard (tr_workspace rd) (tq_relative_path q) (Some True) (\<lambda>_. fs) t = (Inr r, k)"
    and "fs_read_dir fs (rp_path r) = Inr es" and "Inr name \<in> set es"
    and "fs_lstat fs (path_join (rp_path r) name) = Inr m" and "om_kind m = NodeFile" and "1 < om_links m"
  shows "read_page sha rd q (\<lambda>_. fs) t' \<noteq> (Inr P, k')"
proof
  assume "read_page sha rd q (\<lambda>_. fs) t' = (Inr P, k')"
  from page_at_rest [OF gives_at [OF local_page this]] obtain all token where
    "at_rest sha rd fs (tq_relative_path q) all token" by blast
  then obtain r' xs where r': "gives (resolve_guard (tr_workspace rd) (tq_relative_path q) (Some True)) fs r'"
      "gives (snapshot_of sha rd r') fs (xs, token)"
    and all: "list_all2 (entry_of sha (tr_policy rd) (tq_relative_path q) (relative_depth (tq_relative_path q)) fs) xs all"
    by (auto simp: at_rest_def)
  have "r' = r" using gives_unique [OF r'(1) gives_at [OF local_guard assms(1)]] .
  then obtain ys where scan: "gives (scan_entries (tr_policy rd) (rp_path r) es [] 0) fs ys" "xs = sort_key fst ys"
    using r'(2) assms(2) by (auto simp: snapshot_of_def listing_def gives_bind local_intro gives_simps)
  have entries: "\<forall>(n, path, m) \<in> set ys. path = path_join (rp_path r) n \<and> fs_lstat fs path = Inr m"
      "es = map (Inr \<circ> fst) ys"
    using gives_scan_lstat [OF scan(1)] by auto
  obtain path m' where "(name, path, m') \<in> set ys" using assms(3) entries(2) by auto
  with entries(1) assms(4) have "(name, path, m) \<in> set ys" by auto
  then have "(name, path, m) \<in> set xs" using scan(2) by simp
  then obtain f where "gives (metadata_for_path_with_deadline sha path m (tp_hash_limit (tr_policy rd)) True) fs f"
    using all by (auto simp: list_all2_conv_all_nth in_set_conv_nth entry_of_simp) (metis entry_of_simp)
  then show False using gives_metadata_links assms(5,6) by blast
qed

definition linked_file_system :: file_system where
  "linked_file_system = sample_file_system\<lparr>fs_lstat := (\<lambda>p.
     if p = ''/r'' then Inr \<lparr>om_kind = NodeDir, om_len = 0, om_modified = None, om_links = 2\<rparr>
     else Inr \<lparr>om_kind = NodeFile, om_len = 1, om_modified = None, om_links = 2\<rparr>)\<rparr>"

theorem hard_link_hides_directory_witness:
  "\<forall>P k. read_page id small_tree root_request (\<lambda>_. linked_file_system) 0 \<noteq> (Inr P, k)"
proof (intro allI)
  fix P k
  have guard: "resolve_guard sample_handle [] (Some True) (\<lambda>_. linked_file_system) 0 = (Inr sample_root, 12)"
    by code_simp
  have request: "tr_workspace small_tree = sample_handle" "tq_relative_path root_request = []"
    by (simp_all add: small_tree_def tree_reader_new_def root_request_def)
  have entry: "fs_lstat linked_file_system (path_join (rp_path sample_root) ''a'')
      = Inr \<lparr>om_kind = NodeFile, om_len = 1, om_modified = None, om_links = 2\<rparr>"
    by (simp add: linked_file_system_def sample_root_def path_join_def is_absolute_def)
  have dir: "fs_read_dir linked_file_system (rp_path sample_root) = Inr [Inr ''a'']"
    by (simp add: linked_file_system_def sample_file_system_def sample_root_def)
  show "read_page id small_tree root_request (\<lambda>_. linked_file_system) 0 \<noteq> (Inr P, k)"
    by (rule hard_link_hides_directory [OF _ dir _ entry, where t = 0 and k = 12]) (simp_all add: request guard)
qed

end
