(* ===== verification/Ja_Git_Safety.thy ===== *)
theory Ja_Git_Safety
  imports Ja_Git_Run Ja_Host_Safety
begin

text \<open>
  What the git reader promises: which arguments reach git, which configuration is refused, what an
  admitted object store holds, and what a run of the child gives back.
\<close>

subsection \<open>The child\<close>

lemma wait_child_ends: "list_ex go_late ps \<Longrightarrow> \<exists>r. wait_child ps = Some r"
  by (induction ps) (auto split: sum.splits option.splits)

lemma join_until_ends: "list_ex snd ps \<Longrightarrow> \<exists>r. join_until reader ps = Some r"
  by (induction reader ps rule: join_until.induct) auto

lemma reap_child_ends: "list_ex snd ps \<Longrightarrow> \<exists>r. reap_child failed ps = Some r"
  by (induction failed ps rule: reap_child.induct) (auto split: sum.splits option.splits)

lemma then_observed_Some [simp]: "then_observed (Some x) f = f x"
  by (simp add: then_observed_def)

lemma then_observed_result: "then_observed m f = Some r \<longleftrightarrow> (\<exists>x. m = Some x \<and> f x = Some r)"
  by (auto simp: then_observed_def split: option.splits)

text \<open>What the loops of one run were given: in each of them the clock passes its deadline once.\<close>

definition clock_passes :: "git_observed \<Rightarrow> bool" where
  "clock_passes o' \<longleftrightarrow> list_ex go_late (gb_polls o') \<and> list_ex snd (gb_reaps o')
     \<and> list_ex snd (gb_join_stdout o') \<and> list_ex snd (gb_join_stderr o')"

lemma wait_child_exit:
  "wait_child ps = Some (Inr status) \<Longrightarrow>
     \<exists>qs q rs. ps = qs @ q # rs \<and> go_wait q = Inr (Some status)
       \<and> (\<forall>x \<in> set (q # qs). \<not> go_cancelled x \<and> go_limited x = (False, False)) \<and> (\<forall>x \<in> set qs. \<not> go_late x)"
proof (induction ps)
  case (Cons p ps)
  have quiet: "\<not> go_cancelled p" "go_limited p = (False, False)"
    using Cons.prems by (auto simp: prod_eq_iff split: if_splits)
  show ?case
  proof (cases "go_wait p = Inr None")
    case False
    then have "go_wait p = Inr (Some status)"
      using Cons.prems quiet by (auto split: sum.splits option.splits if_splits)
    then show ?thesis using quiet by (intro exI [of _ "[]"] exI [of _ p] exI [of _ ps]) simp
  next
    case True
    then have "\<not> go_late p" "wait_child ps = Some (Inr status)"
      using Cons.prems quiet by (auto split: if_splits)
    then obtain qs q rs where "ps = qs @ q # rs" "go_wait q = Inr (Some status)"
        "\<forall>x \<in> set (q # qs). \<not> go_cancelled x \<and> go_limited x = (False, False)" "\<forall>x \<in> set qs. \<not> go_late x"
      using Cons.IH by blast
    then show ?thesis using quiet \<open>\<not> go_late p\<close>
      by (intro exI [of _ "p # qs"] exI [of _ q] exI [of _ rs]) auto
  qed
qed simp

text \<open>
  A run of git returns: once the clock has passed the deadline of each of its loops there is a
  result, and without an observed exit of the child that result is an error.
\<close>

theorem git_run_returns:
  assumes "clock_passes o'"
  shows "\<exists>r. run_git p o' = Some r
    \<and> ((\<forall>q \<in> set (gb_polls o'). \<forall>s. go_wait q \<noteq> Inr (Some s)) \<longrightarrow> \<not> is_ok r)"
proof -
  have passes: "list_ex go_late (gb_polls o')" "list_ex snd (gb_reaps o')" "list_ex snd (gb_join_stdout o')"
      "list_ex snd (gb_join_stderr o')"
    using assms by (simp_all add: clock_passes_def)
  obtain waited where waited: "wait_child (gb_polls o') = Some waited"
    using wait_child_ends [OF passes(1)] by blast
  obtain killed where killed: "terminate_child (gb_kill o') (gb_reaps o') = Some killed"
    unfolding terminate_child_def using reap_child_ends [OF passes(2)] by blast
  obtain out where out: "joined_stdout p o' = Some out"
    unfolding joined_stdout_def using join_until_ends [OF passes(3)] by blast
  obtain err where err: "joined_stderr p o' = Some err"
    unfolding joined_stderr_def using join_until_ends [OF passes(4)] by blast
  note loops = waited killed out err
  have exited: "\<exists>q \<in> set (gb_polls o'). go_wait q = Inr (Some s)" if "waited = Inr s" for s
    using wait_child_exit [of "gb_polls o'" s] waited that by auto
  show ?thesis
    using exited
    by (cases waited) (auto simp: run_git_def spawned_child_def abandoned_def supervise_child_def cleaned_up_def
        collected_def loops is_ok_def split: sum.splits)
qed

lemma read_pipe_whole:
  "read_pipe limit bs rs = Some (Inr out, False) \<Longrightarrow> limit < usize_max \<Longrightarrow> length bs \<le> limit \<Longrightarrow>
     \<exists>chunks rest. rs = map Inr chunks @ Inr [] # rest \<and> [] \<notin> set chunks \<and> out = bs @ concat chunks
       \<and> length out \<le> limit"
proof (induction limit bs rs rule: read_pipe.induct)
  case (3 limit bs c rs)
  show ?case
  proof (cases "c = []")
    case True
    then show ?thesis using 3 by (intro exI [of _ "[]"] exI [of _ rs]) auto
  next
    case False
    then have fits: "\<not> limit < sat_add (length bs) (length c)" and rest: "read_pipe limit (bs @ c) rs = Some (Inr out, False)"
      using "3.prems"(1) by (auto split: if_splits)
    have "length (bs @ c) \<le> limit" using fits "3.prems"(2) by (simp add: sat_add_def split: if_splits)
    then obtain chunks rest where "rs = map Inr chunks @ Inr [] # rest" "[] \<notin> set chunks"
        "out = (bs @ c) @ concat chunks" "length out \<le> limit"
      using "3.IH" [OF False fits rest] "3.prems"(2) by blast
    then show ?thesis using False by (intro exI [of _ "c # chunks"] exI [of _ rest]) auto
  qed
qed auto

lemma join_until_result: "join_until reader ps = Some (Inr bs) \<Longrightarrow> \<exists>l. reader = Some (Inr bs, l)"
  by (induction reader ps rule: join_until.induct) (auto split: if_splits)

lemma run_git_Inr:
  assumes "run_git p o' = Some (Inr out)"
  shows "wait_child (gb_polls o') = Some (Inr (go_status out))"
    and "stdout_reader p o' = Some (Inr (go_stdout out), False)"
    and "\<exists>err. stderr_reader p o' = Some (Inr err, False)"
proof -
  have "supervise_child p o' = Some (Inr out)"
    using assms by (auto simp: run_git_def spawned_child_def abandoned_def then_observed_result split: if_splits sum.splits)
  then obtain waited where w: "wait_child (gb_polls o') = Some waited"
      and r: "(case waited of Inl e \<Rightarrow> cleaned_up p o' e | Inr s \<Rightarrow> collected p o' s) = Some (Inr out)"
    by (auto simp: supervise_child_def then_observed_result)
  then obtain s where s: "waited = Inr s" "collected p o' s = Some (Inr out)"
    by (auto simp: cleaned_up_def then_observed_result split: sum.splits)
  then obtain bs err where join: "joined_stdout p o' = Some (Inr bs)" "joined_stderr p o' = Some (Inr err)"
      and free: "\<not> reader_limited (stdout_reader p o')" "\<not> reader_limited (stderr_reader p o')"
      and out: "out = \<lparr>go_stdout = bs, go_status = s\<rparr>"
    by (auto simp: collected_def then_observed_result and_then_Inr split: if_splits)
  show "wait_child (gb_polls o') = Some (Inr (go_status out))" using w s(1) out by simp
  show "stdout_reader p o' = Some (Inr (go_stdout out), False)"
    using join_until_result [of _ _ bs] join(1) free(1) out by (fastforce simp: joined_stdout_def reader_limited_def)
  show "\<exists>err. stderr_reader p o' = Some (Inr err, False)"
    using join_until_result [of _ _ err] join(2) free(2) by (fastforce simp: joined_stderr_def reader_limited_def)
qed

text \<open>
  C24. Output is whole or refused: a run that succeeds observed the exit of the child before any
  cancellation, limit or deadline, and its output is every byte the child wrote before it closed
  the pipe, within the limit. So a result that says it is not truncated is not.
\<close>

theorem git_output_whole:
  assumes "run_git p o' = Some (Inr out)" and "gp_max_output_bytes p < usize_max"
  shows "(\<exists>chunks rest. gb_stdout o' = map Inr chunks @ Inr [] # rest \<and> [] \<notin> set chunks
       \<and> go_stdout out = concat chunks \<and> length (go_stdout out) \<le> gp_max_output_bytes p)
    \<and> (\<exists>qs q rs. gb_polls o' = qs @ q # rs \<and> go_wait q = Inr (Some (go_status out))
       \<and> (\<forall>x \<in> set (q # qs). \<not> go_cancelled x \<and> go_limited x = (False, False)) \<and> (\<forall>x \<in> set qs. \<not> go_late x))"
proof
  show "\<exists>chunks rest. gb_stdout o' = map Inr chunks @ Inr [] # rest \<and> [] \<notin> set chunks
       \<and> go_stdout out = concat chunks \<and> length (go_stdout out) \<le> gp_max_output_bytes p"
    using read_pipe_whole [of _ "[]"] run_git_Inr(2) [OF assms(1)] assms(2) by (fastforce simp: stdout_reader_def)
  show "\<exists>qs q rs. gb_polls o' = qs @ q # rs \<and> go_wait q = Inr (Some (go_status out))
       \<and> (\<forall>x \<in> set (q # qs). \<not> go_cancelled x \<and> go_limited x = (False, False)) \<and> (\<forall>x \<in> set qs. \<not> go_late x)"
    by (rule wait_child_exit [OF run_git_Inr(1) [OF assms(1)]])
qed

text \<open>A child that writes two chunks and exits with 0 at the second poll.\<close>

definition sample_poll :: "exit_code option \<Rightarrow> bool \<Rightarrow> git_poll" where
  "sample_poll s late = \<lparr>go_cancelled = False, go_limited = (False, False), go_wait = Inr s, go_late = late\<rparr>"

definition sample_observed :: git_observed where
  "sample_observed = \<lparr>gb_cancelled = False, gb_late_first = False, gb_prepare = Inr (), gb_late_spawn = False,
     gb_spawn = Inr (), gb_start = Inr (), gb_pipes = (True, True),
     gb_polls = [sample_poll None False, sample_poll (Some (Some 0)) True], gb_kill = Inr (),
     gb_reaps = [(Inr None, True)], gb_stdout = [Inr ''ab'', Inr ''c'', Inr []], gb_stderr = [Inr []],
     gb_join_stdout = [(False, False), (True, True)], gb_join_stderr = [(True, True)]\<rparr>"

lemma sample_run: "run_git default_git_policy sample_observed = Some (Inr \<lparr>go_stdout = ''abc'', go_status = Some 0\<rparr>)"
  by (simp add: run_git_def spawned_child_def supervise_child_def collected_def joined_stdout_def joined_stderr_def
      stdout_reader_def stderr_reader_def sample_observed_def sample_poll_def default_git_policy_def sat_add_def
      usize_max_def reader_limited_def)

theorem git_run_returns_witness: "\<exists>r. run_git default_git_policy sample_observed = Some r"
  using git_run_returns [of sample_observed default_git_policy]
  by (auto simp: clock_passes_def sample_observed_def sample_poll_def)

theorem git_output_whole_witness:
  "\<exists>chunks. concat chunks = ''abc'' \<and> gb_stdout sample_observed = map Inr chunks @ [Inr []]"
proof -
  have "gp_max_output_bytes default_git_policy < usize_max"
    by (simp add: default_git_policy_def usize_max_def)
  from git_output_whole [OF sample_run this] obtain chunks rest where
      c: "gb_stdout sample_observed = map Inr chunks @ Inr [] # rest" "[] \<notin> set chunks" "concat chunks = ''abc''"
    by auto
  have "rest = []"
  proof (rule ccontr)
    assume "rest \<noteq> []"
    then have "Inr [] \<in> set (butlast (gb_stdout sample_observed))"
      unfolding c(1) by (simp add: butlast_append)
    then show False by (simp add: sample_observed_def)
  qed
  with c show ?thesis by auto
qed

subsection \<open>What is run\<close>

definition fixed_options :: "str set" where
  "fixed_options = {''--porcelain=v2'', ''-z'', ''--untracked-files=all'', ''--no-ext-diff'', ''--no-color'',
     ''--no-textconv'', ''--binary'', ''--cached'', ''--no-decorate'', ''--format=fuller'',
     ''--format='' @ ''%H%x00%P%x00%an%x00%ae%x00%aI%x00%s%x00''}"

text \<open>
  An argument before the double dash is a fixed option, a bounded count or the object of \<open>show\<close>;
  after it stands at most one path, made of names and without pathspec magic.
\<close>

definition option_ok :: "str \<Rightarrow> str \<Rightarrow> bool" where
  "option_ok subcommand a \<longleftrightarrow> a \<in> fixed_options \<or> (\<exists>n. 1 \<le> n \<and> n \<le> 500 \<and> a = ''-n'' @ show_nat n)
     \<or> subcommand = ''show'' \<and> validate_object a = Inr () \<and> \<not> starts_with a ''-''"

definition path_ok_for_git :: "str \<Rightarrow> bool" where
  "path_ok_for_git p \<longleftrightarrow> p \<noteq> [] \<and> \<not> list_ex git_magic p \<and> (\<forall>c \<in> set (components p). \<exists>n. c = Normal n)"

definition argv_ok :: "str list \<Rightarrow> bool" where
  "argv_ok args \<longleftrightarrow> (\<exists>subcommand options rest. args = subcommand # options @ rest
     \<and> subcommand \<in> {''status'', ''diff'', ''log'', ''show''} \<and> list_all (option_ok subcommand) options
     \<and> (rest = [] \<or> rest = [''--''] \<or> (\<exists>p. rest = [''--'', p] \<and> path_ok_for_git p)))"

lemma argv_okI:
  "subcommand \<in> {''status'', ''diff'', ''log'', ''show''} \<Longrightarrow> list_all (option_ok subcommand) options
     \<Longrightarrow> rest = [] \<or> rest = [''--''] \<or> (\<exists>p. rest = [''--'', p] \<and> path_ok_for_git p)
     \<Longrightarrow> argv_ok (subcommand # options @ rest)"
  unfolding argv_ok_def by blast

lemma path_args_ok:
  assumes "path_args h p = Inr paths"
  shows "paths = [] \<or> (\<exists>v. paths = [v] \<and> path_ok_for_git v)"
proof (cases p)
  case (Some v)
  then have "validate_git_path v = Inr ()" and paths: "paths = [v]"
    using assms by (auto simp: path_args_def validate_path_def and_then_Inr map_err_Inr)
  then have v: "v \<noteq> []" "\<not> list_ex git_magic v" "validate_relative_path v = Inr ()"
    by (auto simp: validate_git_path_def and_then_Inr split: if_splits)
  from relative_components [OF v(3)] v(1,2) paths show ?thesis by (simp add: path_ok_for_git_def)
qed (use assms in \<open>simp add: path_args_def\<close>)

lemma status_argv: "argv_ok status_args"
  using argv_okI [of "''status''" "tl status_args" "[]"]
  by (simp add: status_args_def option_ok_def fixed_options_def)

lemma log_argv: "argv_ok (log_args n)"
proof -
  have "1 \<le> clamp 1 500 n" "clamp 1 500 n \<le> 500" by (simp_all add: clamp_def)
  then have "option_ok ''log'' (''-n'' @ show_nat (clamp 1 500 n))" unfolding option_ok_def by blast
  then show ?thesis
    using argv_okI [of "''log''" "butlast (tl (log_args n))" "[''--'']"]
    by (simp add: log_args_def) (simp add: option_ok_def fixed_options_def)
qed

lemma diff_argv: "diff_args h o' = Inr args \<Longrightarrow> argv_ok args"
proof -
  assume "diff_args h o' = Inr args"
  then obtain paths where paths: "path_args h (do_relative_path o') = Inr paths"
      and args: "args = ''diff'' # ([''--no-ext-diff'', ''--no-color'', ''--no-textconv'', ''--binary'']
         @ (if do_staged o' then [''--cached''] else [])) @ [''--''] @ paths"
    by (auto simp: diff_args_def and_then_Inr)
  show "argv_ok args" unfolding args
    using path_args_ok [OF paths] by (intro argv_okI) (auto simp: option_ok_def fixed_options_def)
qed

lemma validated_object: "validate_object v = Inr () \<Longrightarrow> \<not> starts_with v ''-''"
  by (auto simp: validate_object_def split: if_splits)

lemma show_argv: "show_args h object p = Inr args \<Longrightarrow> argv_ok args"
proof -
  assume "show_args h object p = Inr args"
  then obtain paths where paths: "path_args h p = Inr paths" and object: "validate_object object = Inr ()"
      and args: "args = ''show'' # [''--no-color'', ''--no-ext-diff'', ''--no-textconv'', ''--format=fuller'', object]
         @ [''--''] @ paths"
    by (auto simp: show_args_def and_then_Inr)
  show "argv_ok args" unfolding args
    using path_args_ok [OF paths] validated_object [OF object] object
    by (intro argv_okI) (auto simp: option_ok_def fixed_options_def)
qed

definition hardened :: "git_read_only \<Rightarrow> git_command \<Rightarrow> bool" where
  "hardened g c \<longleftrightarrow> gc_program c = gr_program g \<and> gc_directory c = wh_root (gr_workspace g)
     \<and> gc_env c = git_environment \<and> (\<exists>args. gc_args c = option_prefix @ args \<and> argv_ok args)"

text \<open>Two ways to run commands that agree on the hardened ones, once the worktree has passed.\<close>

definition agree_hardened :: "git_read_only \<Rightarrow> world \<Rightarrow> git_runner \<Rightarrow> git_runner \<Rightarrow> bool" where
  "agree_hardened g w run run' \<longleftrightarrow>
     (\<forall>c i j. hardened g c \<and> validate_worktree (gr_workspace g) w i = (Inr (), j) \<longrightarrow> run c = run' c)"

lemma run_os_agree:
  assumes "agree_hardened g w run run'" and "argv_ok args"
  shows "run_os g run args w t = run_os g run' args w t"
proof (cases "\<exists>j k. guarded_root (gr_workspace g) w t = (Inr (), j) \<and> validate_worktree (gr_workspace g) w j = (Inr (), k)")
  case True
  have "hardened g (build_command g args)" using assms(2) by (auto simp: hardened_def build_command_def)
  then have "run (build_command g args) = run' (build_command g args)"
    using assms(1) True unfolding agree_hardened_def by blast
  then show ?thesis by (simp add: run_os_def)
next
  case False
  then show ?thesis
    by (cases "guarded_root (gr_workspace g) w t"; cases "fst (guarded_root (gr_workspace g) w t)")
      (auto simp: run_os_def op_bind_def split: prod.splits sum.splits)
qed


definition sample_git :: git_read_only where
  "sample_git = \<lparr>gr_workspace = sample_handle, gr_program = ''/bin/git'', gr_policy = default_git_policy\<rparr>"

definition any_runner :: git_runner where
  "any_runner c = Inr \<lparr>go_stdout = ''x'', go_status = Some 0\<rparr>"

definition careful_runner :: git_runner where
  "careful_runner c = (if gc_env c = git_environment \<and> gc_program c = ''/bin/git'' then any_runner c else Inl GGitUnavailable)"


end
