(* ===== verification/Spec2Isabelle.thy ===== *)
theory Spec2Isabelle
  imports Ja_Error_Text Ja_Session_Ready Ja_Projection Ja_Approval_Safety Ja_Terminal_Supervisor
    Ja_Preview_Safety Ja_Query_Safety Ja_Git_Guard Ja_Git_Store Ja_Git_Safety
begin

text \<open>
  A verification development for the desktop host of \<open>ja\<close>: the Rust program under
  \<open>src-tauri/src\<close> that runs a Node sidecar, the agent, on behalf of a WebView, and owns what the
  agent must not: the credentials, the settings file, the approvals of tools, the terminals and
  the preview windows.

  \<^bold>\<open>The program.\<close> The host and the sidecar exchange JSON frames over two pipes.
  \<open>agent_process\<close> is that connection: a codec that reads and writes bounded frames, a registry
  of requests waiting for a response, two ledgers of ids, an event queue towards the application,
  a writer thread with two lanes, a handshake with a random one-time challenge, and a lifecycle
  with a crash limit; a session ties them together for one process, a supervisor for one process
  after another. \<open>app_runtime\<close> is the application on top: it answers the sidecar's private
  requests (configuration, credentials, tool approvals), shows the rest to the WebView after
  removing anything shaped like the challenge, and turns errors into the few codes the user
  interface knows. \<open>settings\<close> is a versioned JSON file with one backup and the operating system's
  keyring, \<open>terminal\<close> runs shells in pseudo-terminals, and \<open>preview\<close> keeps untrusted pages behind
  an address policy.

  \<^bold>\<open>How the code is modelled.\<close> A struct is a record, an enum a datatype with the source's
  constructors, a fallible function returns \<open>error + value\<close> with the early returns in the code's
  order, and a method that changes its object returns the changed object. A section under one
  mutex, or one atomic access, is one function; a method that blocks is split where it blocks,
  and the operations of a component's threads are a datatype whose lists are the interleavings,
  run by folding a step function. A Rust string is the list of its UTF-8 bytes as characters; a
  JSON object is a list of keys and values sorted by key, as \<open>serde_json\<close> keeps it. Machine
  integers are natural or whole numbers with their bound, their saturation or their checked
  overflow written where the code has it. The operating system, \<open>serde_json\<close>'s text parser and
  printer, the \<open>url\<close> crate, random numbers and clocks are arguments, with what the code needs
  of them as hypotheses of the theorem that needs it, and the witnesses supply concrete ones.
  Limits keep the code's values as constants. The recursions that are not structural (the JSON
  depth, the settings secret scan, the raw-frame scan, the words of a line, the chunks of a file)
  have a measure, a loop that waits is one pass that says whether it waits, and the two loops over
  a queue of directories have as fuel one more than the entries they may visit, which is shown to
  be enough whatever the file system does.

  \<^bold>\<open>Theories, in the order of the imports.\<close>

  \<^item> \<open>Ja_Prelude\<close>: the types of strings, bytes and counters, the byte classes of the standard
    library, results with early return (collection \<open>result_iff\<close>: when a computation succeeds),
    and three interfaces: \<open>stepping\<close> (an invariant every operation keeps), \<open>growing\<close> (and a part
    that never goes back), \<open>ledger\<close> (an identity is admitted once). \<open>Ja_Lanes\<close>: the interface of
    a two-lane arbiter with a bound on how long one lane can keep the other waiting.
  \<^item> \<open>Ja_Json\<close>, \<open>Ja_Token\<close>, \<open>Ja_Error\<close>, \<open>Ja_Error_Text\<close>, \<open>Ja_Codec\<close>
    (\<open>agent_process/codec_json.rs\<close>, \<open>codec.rs\<close>, \<open>error.rs\<close>, \<open>wire.rs\<close>): duplicate keys are refused;
    what is shaped like a challenge and where it may stand; the scanner of error texts; envelopes,
    limits, framing. Shown: encoding then decoding gives the frame back, an encoded or an accepted
    frame carries no token, and the pipe reader yields the same frames however the bytes are cut.
  \<^item> \<open>Ja_Pending\<close>, \<open>Ja_Ledger\<close>, \<open>Ja_Event_Queue\<close>, \<open>Ja_Writer\<close>, \<open>Ja_Lifecycle\<close>, \<open>Ja_Handshake\<close>
    (\<open>pending.rs\<close>, \<open>session.rs\<close>, \<open>wire.rs\<close>, \<open>lifecycle.rs\<close>, \<open>handshake.rs\<close>): each caller hears
    once; ids are used once; the queues stay within their counts and bytes and neither lane
    starves; the lifecycle follows its diagram, ignores earlier generations and gives up after
    repeated crashes.
  \<^item> \<open>Ja_Session\<close>, \<open>Ja_Session_Contract\<close>, \<open>Ja_Session_Inv\<close>, \<open>Ja_Session_Ready\<close>: one session's
    threads over those parts. \<open>session_contract\<close> is the interface of a property that every
    operation of a session keeps; its interpretations give the session's invariant, that no
    challenge or standard-error text leaves it, one promotion to ready per handshake, and that a
    closed session leaves no caller waiting.
  \<^item> \<open>Ja_Supervisor\<close> (\<open>supervisor.rs\<close>): start, stop and crash handling of successive sessions;
    every reachable state is settled, with no process lost and no two alive.
  \<^item> \<open>Ja_Time\<close>, \<open>Ja_Command_Error\<close>, \<open>Ja_Projection\<close> (\<open>app_runtime/projection.rs\<close>, \<open>config.rs\<close>,
    \<open>bridge.rs\<close>): the calendar against day counting, expiry comparison as instants, what the user
    interface is told, and the scrubbing of tokens against its specification.
  \<^item> \<open>Ja_Settings_Model\<close>, \<open>Ja_Atomic\<close>, \<open>Ja_Settings_Store\<close>, \<open>Ja_Settings_Cas\<close> (\<open>settings/\<close>):
    the document and its validation, replacing a file through a temporary one, loading with
    recovery; a saved document is read back, and \<open>compare_and_save\<close> refines a revision register.
  \<^item> \<open>Ja_Secrets\<close> (\<open>settings/credentials.rs\<close> and the private secret requests of \<open>config.rs\<close>,
    \<open>bridge.rs\<close>): exactly when a credential is released, and to whom.
  \<^item> \<open>Ja_Approvals\<close>, \<open>Ja_Approval_Contract\<close>, \<open>Ja_Approval_Safety\<close> (\<open>bridge.rs\<close>): the waiting
    and the retired approvals, the signal lane; \<open>approval_contract\<close> lifts a property of the
    actor's operations, and its interpretations give bounds and that a decision is sent once.
  \<^item> \<open>Ja_Paths\<close>, \<open>Ja_Terminal_Policy\<close>, \<open>Ja_Terminal_Queue\<close> (\<open>terminal/policy*.rs\<close>, \<open>queue.rs\<close>,
    \<open>model.rs\<close>): paths by components, launch policy, the input queue and the event stream.
  \<^item> \<open>Ja_Terminal_Session\<close>, \<open>Ja_Terminal_Safety\<close>, \<open>Ja_Terminal_System\<close>, \<open>Ja_Terminal_Claims\<close>,
    \<open>Ja_Terminal_Supervisor\<close> (\<open>terminal/session.rs\<close>, \<open>session_workers.rs\<close>, \<open>commands.rs\<close>): a
    session's four workers and its handle as interleaved atomic actions, the invariant of the
    event stream, its delivery and the interleaving that loses it, and the owner of the sessions.
  \<^item> \<open>Ja_Preview_Url\<close>, \<open>Ja_Preview\<close>, \<open>Ja_Preview_Safety\<close> (\<open>preview/policy.rs\<close>, \<open>session.rs\<close>,
    \<open>model.rs\<close>): the address policy, the registry of sessions with generations and bounded events,
    and that a page already left changes nothing.
  \<^item> \<open>Ja_History\<close>, \<open>Ja_History_Results\<close>, \<open>Ja_History_Safety\<close> (\<open>app_runtime/history.rs\<close>): the four
    history commands, from the WebView's value to the request and from the sidecar's result to
    what is shown: exactly the well-typed results pass, and which ordinary text makes a thread
    unreadable.
  \<^item> \<open>Ja_Query\<close>, \<open>Ja_Query_Safety\<close> (\<open>settings_query.rs\<close>, \<open>config.rs\<close>, \<open>host.rs\<close>, \<open>bridge.rs\<close>): settings
    queries, turns and cancellations, with the requests each command sends.
  \<^item> \<open>Ja_Git_Parse\<close>, \<open>Ja_Git_Formats\<close> (\<open>git_read/parse.rs\<close>): the status and log parsers against
    what git prints.
  \<^item> \<open>Ja_Workspace\<close>, \<open>Ja_Workspace_Safety\<close> (\<open>workspace_read/registry.rs\<close>): the guard of the workspace.
    The file system may change between any two calls: an operation is a function of a world, the
    file system at each call, and of the number of calls made, and \<open>op_bind\<close> is the \<open>?\<close> of the
    code. \<open>Ja_Utf\<close>: UTF-8 and UTF-16. \<open>Ja_Content\<close>, \<open>Ja_Content_Safety\<close> (\<open>content.rs\<close>): one file;
    an operation depends on the moments of its own calls only, which shows the change that no
    check notices. \<open>Ja_Tree\<close>, \<open>Ja_Tree_Safety\<close> (\<open>tree.rs\<close>): pages of a directory, and what operations
    give over a file system at rest. \<open>Ja_Changes\<close>, \<open>Ja_Changes_Safety\<close> (\<open>changes.rs\<close>): the polling
    detector and a client of it. \<open>Ja_Search\<close>, \<open>Ja_Search_Safety\<close> (\<open>search.rs\<close>): text search.
  \<^item> \<open>Ja_Host\<close>, \<open>Ja_Host_Safety\<close> (\<open>app_runtime/host.rs\<close>, \<open>workspace_read/command.rs\<close>): which directory
    the WebView may read and when, through every part above.
  \<^item> \<open>Ja_Git_Config\<close>, \<open>Ja_Git_Worktree\<close>, \<open>Ja_Git_Run\<close> (\<open>git_read/command.rs\<close>, \<open>process.rs\<close>,
    \<open>commands.rs\<close>): the check of a worktree before and after git runs, the four operations with
    their commands, the run of one child under its deadline and limits. \<open>Ja_Git_Guard\<close>: which
    configuration files pass, against git's layout, and the spellings the check does not see.
    \<open>Ja_Git_Store\<close>: what an admitted object store held. \<open>Ja_Git_Safety\<close>: only hardened commands
    run, output is whole or refused, and a run returns once its deadlines have passed.
  \<^bold>\<open>Not modelled.\<close> Spawning, signalling and reaping processes and pipes (\<open>agent_process/process.rs\<close>,
  \<open>process_tree.rs\<close>, \<open>terminal/process.rs\<close>, the process group of git): calls of the operating system, whose outcomes are
  arguments above. The threads, channels and Tauri state around the modelled parts of \<open>bridge.rs\<close>,
  the recovery markers and launch paths of \<open>config.rs\<close> (file-system calls), the command wrappers of
  the preview, and the shell (\<open>lib.rs\<close>, \<open>main.rs\<close>). Code compiled for Windows only. The
  prototypes under \<open>spikes\<close> are not linked into the program.
\<close>

end
